(* ===== verification/Prelude.thy ===== *)
theory Prelude imports Main "HOL-Library.AList" "HOL-Library.List_Lexorder" "HOL-Library.Char_ord" "HOL-Library.Product_Lexorder" begin

text \<open>
  Shared vocabulary of the development.  A database table is a list of row records;
  \<open>UPDATE ... WHERE\<close>, \<open>DELETE ... WHERE\<close> and \<open>SELECT ... LIMIT 1\<close> are the list functions
  below, and the lemmas about them form the collection \<open>table_simps\<close>.  The two locales state
  contracts the components rely on again and again: an update that keeps a row's key, and an atomic
  claim with a budget.
\<close>

named_theorems table_simps \<open>rewriting of table operations\<close>
named_theorems inv_intros \<open>preservation of table invariants\<close>

section \<open>Table operations\<close>

definition update_where :: "('r \<Rightarrow> bool) \<Rightarrow> ('r \<Rightarrow> 'r) \<Rightarrow> 'r list \<Rightarrow> 'r list" where
  "update_where P f rows = map (\<lambda>r. if P r then f r else r) rows"

definition delete_where :: "('r \<Rightarrow> bool) \<Rightarrow> 'r list \<Rightarrow> 'r list" where
  "delete_where P rows = filter (\<lambda>r. \<not> P r) rows"

definition select_one :: "('r \<Rightarrow> bool) \<Rightarrow> 'r list \<Rightarrow> 'r option" where
  "select_one P rows = List.find P rows"

definition select_asc :: "('r \<Rightarrow> 'k::linorder) \<Rightarrow> ('r \<Rightarrow> bool) \<Rightarrow> 'r list \<Rightarrow> 'r list" where
  "select_asc k P rows = sort_key k (filter P rows)"

definition select_desc :: "('r \<Rightarrow> 'k::linorder) \<Rightarrow> ('r \<Rightarrow> bool) \<Rightarrow> 'r list \<Rightarrow> 'r list" where
  "select_desc k P rows = rev (sort_key k (filter P rows))"

lemma update_where_Nil [simp, table_simps]: "update_where P f [] = []"
  by (simp add: update_where_def)

lemma update_where_Cons [table_simps]:
  "update_where P f (r # rows) = (if P r then f r else r) # update_where P f rows"
  by (simp add: update_where_def)

lemma update_where_append [table_simps]:
  "update_where P f (xs @ ys) = update_where P f xs @ update_where P f ys"
  by (simp add: update_where_def)

lemma length_update_where [simp, table_simps]: "length (update_where P f rows) = length rows"
  by (simp add: update_where_def)

lemma set_update_where [table_simps]:
  "set (update_where P f rows) = (\<lambda>r. if P r then f r else r) ` set rows"
  by (simp add: update_where_def)

lemma in_update_whereD:
  "r \<in> set (update_where P f rows) \<Longrightarrow> (r \<in> set rows \<and> \<not> P r) \<or> (\<exists>q\<in>set rows. P q \<and> r = f q)"
  by (auto simp: update_where_def split: if_splits)

lemma update_where_all:
  "(\<And>r. r \<in> set rows \<Longrightarrow> P r \<Longrightarrow> Q (f r)) \<Longrightarrow> (\<And>r. r \<in> set rows \<Longrightarrow> \<not> P r \<Longrightarrow> Q r) \<Longrightarrow>
   \<forall>r\<in>set (update_where P f rows). Q r"
  by (auto simp: update_where_def)

lemma map_if_all:
  "(\<And>r. r \<in> set rows \<Longrightarrow> Q (f r)) \<Longrightarrow> \<forall>r\<in>set (map f rows). Q r"
  by auto

lemma update_where_noop: "\<forall>r\<in>set rows. \<not> P r \<Longrightarrow> update_where P f rows = rows"
  by (simp add: update_where_def map_idI)

lemma update_where_cong:
  "(\<And>r. r \<in> set rows \<Longrightarrow> P r = Q r) \<Longrightarrow> (\<And>r. r \<in> set rows \<Longrightarrow> P r \<Longrightarrow> f r = g r) \<Longrightarrow>
   update_where P f rows = update_where Q g rows"
  by (simp add: update_where_def)

lemma map_update_where:
  "(\<And>r. P r \<Longrightarrow> k (f r) = k r) \<Longrightarrow> map k (update_where P f rows) = map k rows"
  by (simp add: update_where_def)

lemma filter_update_where_other:
  "(\<And>r. r \<in> set rows \<Longrightarrow> P r \<Longrightarrow> \<not> Q r \<and> \<not> Q (f r)) \<Longrightarrow>
   filter Q (update_where P f rows) = filter Q rows"
  by (induction rows) (auto simp: update_where_def)

lemma filter_update_where_in:
  "(\<And>r. r \<in> set rows \<Longrightarrow> P r \<Longrightarrow> Q (f r) = Q r) \<Longrightarrow>
   filter Q (update_where P f rows) = update_where P f (filter Q rows)"
  by (induction rows) (auto simp: update_where_def)

lemma set_delete_where [simp, table_simps]: "set (delete_where P rows) = {r \<in> set rows. \<not> P r}"
  by (auto simp: delete_where_def)

lemma delete_where_Nil [simp, table_simps]: "delete_where P [] = []"
  by (simp add: delete_where_def)

lemma map_delete_where_distinct:
  "distinct (map k rows) \<Longrightarrow> distinct (map k (delete_where P rows))"
  by (simp add: delete_where_def distinct_map_filter)

lemma select_one_Some: "select_one P rows = Some r \<Longrightarrow> r \<in> set rows \<and> P r"
  by (auto simp: select_one_def find_Some_iff in_set_conv_nth)

lemma select_one_None: "select_one P rows = None \<longleftrightarrow> (\<forall>r\<in>set rows. \<not> P r)"
  by (auto simp: select_one_def find_None_iff)

lemma select_one_ex: "r \<in> set rows \<Longrightarrow> P r \<Longrightarrow> \<exists>q. select_one P rows = Some q"
  by (cases "select_one P rows") (auto simp: select_one_None)

lemma select_one_unique:
  assumes "distinct (map k rows)" and "r \<in> set rows" and "P r"
    and "\<And>q. P q \<Longrightarrow> k q = k r"
  shows "select_one P rows = Some r"
proof -
  obtain q where q: "select_one P rows = Some q" using select_one_ex [of r rows P] assms(2,3) by auto
  from select_one_Some [OF q] have "q \<in> set rows" and "k q = k r" using assms(4) by auto
  with assms(1,2) have "q = r" by (auto simp: distinct_map dest: inj_onD)
  with q show ?thesis by simp
qed

lemma set_select_asc [simp, table_simps]: "set (select_asc k P rows) = {r \<in> set rows. P r}"
  by (auto simp: select_asc_def)

lemma set_select_desc [simp, table_simps]: "set (select_desc k P rows) = {r \<in> set rows. P r}"
  by (auto simp: select_desc_def)

lemma sorted_select_asc: "sorted (map k (select_asc k P rows))"
  by (simp add: select_asc_def)

lemma distinct_select_asc: "distinct (map i rows) \<Longrightarrow> distinct (map i (select_asc k P rows))"
  by (simp add: select_asc_def distinct_map_filter distinct_map inj_on_def)

section \<open>Distinct keys\<close>

definition keyed :: "('r \<Rightarrow> 'k) \<Rightarrow> 'r list \<Rightarrow> bool" where
  "keyed k rows \<longleftrightarrow> distinct (map k rows)"

lemma keyed_Nil [simp]: "keyed k []"
  by (simp add: keyed_def)

lemma keyed_append_fresh [inv_intros]:
  "keyed k rows \<Longrightarrow> k r \<notin> k ` set rows \<Longrightarrow> keyed k (rows @ [r])"
  by (simp add: keyed_def)

lemma keyed_delete [inv_intros]: "keyed k rows \<Longrightarrow> keyed k (delete_where P rows)"
  by (simp add: keyed_def map_delete_where_distinct)

lemma keyed_eq: "keyed k rows \<Longrightarrow> r \<in> set rows \<Longrightarrow> q \<in> set rows \<Longrightarrow> k r = k q \<Longrightarrow> r = q"
  by (metis inj_onD distinct_map keyed_def)

text \<open>An UPDATE whose SET clause leaves the primary key alone.\<close>

locale keyed_update =
  fixes key :: "'r \<Rightarrow> 'k" and upd :: "'r \<Rightarrow> 'r"
  assumes upd_key: "key (upd r) = key r"
begin

lemma keyed_update_where: "keyed key rows \<Longrightarrow> keyed key (update_where P upd rows)"
  by (simp add: keyed_def map_update_where upd_key)

lemma keys_update_where: "key ` set (update_where P upd rows) = key ` set rows"
proof -
  have "map key (update_where P upd rows) = map key rows"
    by (simp add: map_update_where upd_key)
  then show ?thesis by (metis set_map)
qed

lemma select_updated:
  assumes "keyed key rows" and "r \<in> set rows" and "P r"
  shows "select_one (\<lambda>q. key q = key r) (update_where P upd rows) = Some (upd r)"
proof (rule select_one_unique [where k = key])
  show "distinct (map key (update_where P upd rows))"
    using keyed_update_where [OF assms(1)] by (simp add: keyed_def)
  show "upd r \<in> set (update_where P upd rows)"
    using assms(2,3) by (auto simp: set_update_where)
qed (simp_all add: upd_key)

end

section \<open>Association lists\<close>

lemma in_alist_update: "p \<in> set (AList.update k v al) \<Longrightarrow> p = (k, v) \<or> p \<in> set al"
  by (induction al) (auto split: if_splits)

lemma in_alist_delete [simp]: "p \<in> set (AList.delete k al) \<longleftrightarrow> p \<in> set al \<and> fst p \<noteq> k"
  by (auto simp: AList.delete_eq)

lemma length_alist_update_le: "length (AList.update k v al) \<le> Suc (length al)"
  by (induction al) auto

lemma length_alist_update_known: "map_of al k = Some w \<Longrightarrow> length (AList.update k v al) = length al"
  by (induction al) (auto split: if_splits)

lemma length_alist_delete_le: "length (AList.delete k al) \<le> length al"
  by (simp add: AList.delete_eq)

section \<open>Atomic claims\<close>

text \<open>
  \<open>UPDATE t SET ... WHERE id = k AND <still open> RETURNING id\<close>: the statement is the
  decision, and the returned row says whether this caller won.
\<close>

definition claim_row ::
  "('r \<Rightarrow> 'k) \<Rightarrow> ('r \<Rightarrow> bool) \<Rightarrow> ('r \<Rightarrow> 'r) \<Rightarrow> 'k \<Rightarrow> 'r list \<Rightarrow> 'r list \<times> bool" where
  "claim_row key op f k rows =
     (update_where (\<lambda>r. key r = k \<and> op r) f rows, \<exists>r\<in>set rows. key r = k \<and> op r)"

fun claim_all ::
  "('r \<Rightarrow> 'k) \<Rightarrow> ('a \<Rightarrow> 'r \<Rightarrow> bool) \<Rightarrow> ('a \<Rightarrow> 'r \<Rightarrow> 'r) \<Rightarrow> 'k \<Rightarrow> 'a list \<Rightarrow> 'r list \<Rightarrow> nat" where
  "claim_all key op f k [] rows = 0"
| "claim_all key op f k (a # as) rows =
     (let (rows', won) = claim_row key (op a) (f a) k rows
      in (if won then 1 else 0) + claim_all key op f k as rows')"

text \<open>A claim with a budget: every win lowers what is left, and nothing is won at zero.\<close>

locale budget_claim =
  fixes key :: "'r \<Rightarrow> 'k" and open_for :: "'a \<Rightarrow> 'r \<Rightarrow> bool" and claim :: "'a \<Rightarrow> 'r \<Rightarrow> 'r"
    and left :: "'r \<Rightarrow> nat"
  assumes claim_key: "key (claim a r) = key r"
    and open_left: "open_for a r \<Longrightarrow> 0 < left r"
    and claim_left: "open_for a r \<Longrightarrow> Suc (left (claim a r)) = left r"
begin

lemma claim_row_keyed: "keyed key rows \<Longrightarrow> keyed key (fst (claim_row key (open_for a) (claim a) k rows))"
  by (simp add: claim_row_def keyed_def map_update_where claim_key)

lemma no_row_no_win: "k \<notin> key ` set rows \<Longrightarrow> claim_all key open_for claim k as rows = 0"
proof (induction as arbitrary: rows)
  case (Cons a as)
  have "update_where (\<lambda>r. key r = k \<and> open_for a r) (claim a) rows = rows"
    using Cons.prems by (intro update_where_noop) auto
  with Cons show ?case by (auto simp: claim_row_def)
qed simp

theorem wins_bounded:
  "keyed key rows \<Longrightarrow> r \<in> set rows \<Longrightarrow> key r = k \<Longrightarrow>
   claim_all key open_for claim k as rows \<le> left r"
proof (induction as arbitrary: rows r)
  case (Cons a as)
  let ?rows' = "update_where (\<lambda>r. key r = k \<and> open_for a r) (claim a) rows"
  have keyed': "keyed key ?rows'"
    using Cons.prems(1) by (simp add: keyed_def map_update_where claim_key)
  have won: "(\<exists>q\<in>set rows. key q = k \<and> open_for a q) = open_for a r"
    using Cons.prems keyed_eq by fastforce
  show ?case
  proof (cases "open_for a r")
    case True
    then have "claim a r \<in> set ?rows'" using Cons.prems by (auto simp: set_update_where)
    then have "claim_all key open_for claim k as ?rows' \<le> left (claim a r)"
      using Cons.IH [OF keyed'] Cons.prems(3) claim_key by blast
    then show ?thesis using True won claim_left [OF True] by (simp add: claim_row_def)
  next
    case False
    then have "r \<in> set ?rows'"
      using Cons.prems(2) by (auto simp: set_update_where image_iff intro!: bexI [where x = r])
    then have "claim_all key open_for claim k as ?rows' \<le> left r"
      using Cons.IH [OF keyed'] Cons.prems(3) by blast
    moreover have "\<not> (\<exists>q\<in>set rows. key q = k \<and> open_for a q)" using False won by simp
    ultimately show ?thesis by (simp only: claim_all.simps claim_row_def Let_def prod.case if_False)
  qed
qed simp

end

end
