(* ===== verification/Js.thy ===== *)
theory Js imports Complex_Main Prelude begin

text \<open>
  What the modelled TypeScript uses of its language and standard library: JSON values and object
  spread, \<open>JSON.stringify\<close> and UTF-8 byte length, the string methods, dates, and recognisers for
  the regular expressions of the code.

  A JavaScript string is a list of UTF-16 code units; a \<open>string\<close> here is a list of code units in
  U+0000 .. U+00FF, so \<open>length\<close> counts code units as \<open>.length\<close> does and a unit from U+0080 on
  takes two bytes in UTF-8.  A JSON number is the exact decimal of the text (where IEEE doubles
  round after 15 to 17 digits), or an infinity, which \<open>JSON.parse\<close> reads from an overflowing
  literal.  A value that is absent (\<open>undefined\<close>) is \<open>None\<close> of \<open>json option\<close>.  Objects are
  association lists in insertion order (integer-like keys are not moved to the front).
\<close>

named_theorems js_simps \<open>evaluation of the JavaScript primitives\<close>

datatype json =
    JNull
  | JBool bool
  | JNum rat
  | JInf bool
  | JStr string
  | JArr "json list"
  | JObj "(string \<times> json) list"

type_synonym fields = "(string \<times> json) list"
type_synonym time = int

section \<open>Objects\<close>

fun obj_spread :: "fields \<Rightarrow> fields \<Rightarrow> fields" where
  "obj_spread a [] = a"
| "obj_spread a ((k, v) # b) = obj_spread (AList.update k v a) b"

fun obj_fields :: "json option \<Rightarrow> fields" where
  "obj_fields (Some (JObj kvs)) = kvs"
| "obj_fields _ = []"

text \<open>\<open>isRecord\<close>: an object that is neither \<open>null\<close> nor an array.\<close>

fun isRecord :: "json option \<Rightarrow> bool" where
  "isRecord (Some (JObj kvs)) = True"
| "isRecord _ = False"

fun str_of :: "json option \<Rightarrow> string option" where
  "str_of (Some (JStr s)) = Some s"
| "str_of _ = None"

fun opt_field :: "string \<Rightarrow> json option \<Rightarrow> fields" where
  "opt_field k None = []"
| "opt_field k (Some v) = [(k, v)]"

fun json_of_str :: "string option \<Rightarrow> json" where
  "json_of_str None = JNull"
| "json_of_str (Some s) = JStr s"

definition num_of_int :: "int \<Rightarrow> json" where
  "num_of_int i = JNum (of_int i)"

definition is_integer :: "rat \<Rightarrow> bool" where
  "is_integer q \<longleftrightarrow> snd (quotient_of q) = 1"

lemma map_of_update [simp, js_simps]: "map_of (AList.update k v o') k' = (if k' = k then Some v else map_of o' k')"
  by (simp add: update_conv')

lemma map_of_obj_spread: "distinct (map fst b) \<Longrightarrow> map_of (obj_spread a b) = map_of a ++ map_of b"
proof (induction a b rule: obj_spread.induct)
  case (2 a k v b)
  then have "map_of b k = None" by (simp add: map_of_eq_None_iff)
  with 2 show ?case by (auto simp: update_conv' map_add_def fun_eq_iff split: option.splits)
qed simp

lemma obj_spread_keys: "fst ` set (obj_spread a b) = fst ` set a \<union> fst ` set b"
  by (induction a b rule: obj_spread.induct) (auto simp: dom_update)

lemma distinct_obj_spread: "distinct (map fst a) \<Longrightarrow> distinct (map fst (obj_spread a b))"
  by (induction a b rule: obj_spread.induct) (auto simp: distinct_update)

section \<open>Strings\<close>

text \<open>The white space \<open>trim\<close> and \<open>\\s\<close> remove: TAB, LF, VT, FF, CR, space, no-break space.\<close>

definition js_ws :: "char \<Rightarrow> bool" where
  "js_ws c \<longleftrightarrow> c \<in> {CHR 0x09, CHR 0x0A, CHR 0x0B, CHR 0x0C, CHR 0x0D, CHR 0x20, CHR 0xA0}"

definition js_trim :: "string \<Rightarrow> string" where
  "js_trim s = rev (dropWhile js_ws (rev (dropWhile js_ws s)))"

definition js_starts_with :: "string \<Rightarrow> string \<Rightarrow> bool" where
  "js_starts_with p s \<longleftrightarrow> take (length p) s = p"

definition js_ends_with :: "string \<Rightarrow> string \<Rightarrow> bool" where
  "js_ends_with p s \<longleftrightarrow> js_starts_with (rev p) (rev s)"

fun js_split :: "char \<Rightarrow> string \<Rightarrow> string list" where
  "js_split c [] = [[]]"
| "js_split c (x # xs) =
     (if x = c then [] # js_split c xs
      else (case js_split c xs of [] \<Rightarrow> [[x]] | w # ws \<Rightarrow> (x # w) # ws))"

fun js_join :: "string \<Rightarrow> string list \<Rightarrow> string" where
  "js_join sep [] = []"
| "js_join sep [w] = w"
| "js_join sep (w # v # ws) = w @ sep @ js_join sep (v # ws)"

definition code_unit :: "char \<Rightarrow> int" where
  "code_unit c = of_char c"

definition js_lower_char :: "char \<Rightarrow> char" where
  "js_lower_char c =
     (let u = code_unit c
      in if (65 \<le> u \<and> u \<le> 90) \<or> (192 \<le> u \<and> u \<le> 222 \<and> u \<noteq> 215) then char_of (u + 32) else c)"

definition js_lower :: "string \<Rightarrow> string" where
  "js_lower s = map js_lower_char s"

definition ascii_upper_char :: "char \<Rightarrow> char" where
  "ascii_upper_char c = (let u = code_unit c in if 97 \<le> u \<and> u \<le> 122 then char_of (u - 32) else c)"

definition is_digit :: "char \<Rightarrow> bool" where
  "is_digit c \<longleftrightarrow> 48 \<le> code_unit c \<and> code_unit c \<le> 57"

definition is_alpha :: "char \<Rightarrow> bool" where
  "is_alpha c \<longleftrightarrow> (65 \<le> code_unit c \<and> code_unit c \<le> 90) \<or> (97 \<le> code_unit c \<and> code_unit c \<le> 122)"

definition is_alnum :: "char \<Rightarrow> bool" where
  "is_alnum c \<longleftrightarrow> is_digit c \<or> is_alpha c"

definition is_hex :: "char \<Rightarrow> bool" where
  "is_hex c \<longleftrightarrow> is_digit c \<or> (65 \<le> code_unit c \<and> code_unit c \<le> 70)
     \<or> (97 \<le> code_unit c \<and> code_unit c \<le> 102)"

lemma js_split_not_Nil [simp]: "js_split c s \<noteq> []"
  by (induction s) (auto split: list.splits)

lemma js_join_Cons: "js_join sep (w # ws) = w @ (if ws = [] then [] else sep @ js_join sep ws)"
  by (cases ws) simp_all

lemma js_join_split: "js_join [c] (js_split c s) = s"
proof (induction s)
  case (Cons x xs)
  obtain w ws where "js_split c xs = w # ws" by (cases "js_split c xs") auto
  with Cons show ?case by (simp add: js_join_Cons)
qed simp

lemma js_split_no_sep: "w \<in> set (js_split c s) \<Longrightarrow> c \<notin> set w"
  by (induction s arbitrary: w) (auto split: list.splits if_splits)

lemma js_split_join:
  "ws \<noteq> [] \<Longrightarrow> \<forall>w\<in>set ws. c \<notin> set w \<Longrightarrow> js_split c (js_join [c] ws) = ws"
proof (induction "[c]" ws rule: js_join.induct)
  case (2 w)
  then have "c \<notin> set w" by simp
  then show ?case by (induction w) auto
next
  case (3 w v ws)
  then have rest: "js_split c (js_join [c] (v # ws)) = v # ws" and "c \<notin> set w" by auto
  from \<open>c \<notin> set w\<close> have "js_split c (w @ c # js_join [c] (v # ws)) = w # v # ws"
    by (induction w) (auto simp: rest)
  then show ?case by simp
qed simp

lemma js_trim_Nil [simp]: "js_trim [] = []"
  by (simp add: js_trim_def)

lemma set_js_trim: "set (js_trim s) \<subseteq> set s"
  unfolding js_trim_def by (metis set_dropWhileD set_rev subsetI)

lemma length_js_trim: "length (js_trim s) \<le> length s"
  unfolding js_trim_def by (metis length_dropWhile_le length_rev order.trans)

section \<open>JSON text and byte length\<close>

definition digit_char :: "int \<Rightarrow> char" where
  "digit_char n = char_of (48 + n)"

function dec_text :: "int \<Rightarrow> string" where
  "dec_text n = (if n < 10 then [digit_char n] else dec_text (n div 10) @ [digit_char (n mod 10)])"
  by pat_completeness auto
termination
  by (relation "measure nat") auto

declare dec_text.simps [simp del]

definition int_text :: "int \<Rightarrow> string" where
  "int_text i = (if i < 0 then ''-'' @ dec_text (- i) else dec_text i)"

text \<open>The least \<open>j\<close> (at most 400, beyond any double) with \<open>10 ^ j\<close> a multiple of \<open>d\<close>.\<close>

fun ten_power_for :: "nat \<Rightarrow> int \<Rightarrow> int \<Rightarrow> int \<Rightarrow> (int \<times> int) option" where
  "ten_power_for 0 j p d = None"
| "ten_power_for (Suc fuel) j p d =
     (if p mod d = 0 then Some (j, p) else ten_power_for fuel (j + 1) (p * 10) d)"

function strip_zeros :: "int \<Rightarrow> int \<Rightarrow> int \<times> int" where
  "strip_zeros n e = (if n \<le> 0 \<or> n mod 10 \<noteq> 0 then (n, e) else strip_zeros (n div 10) (e + 1))"
  by pat_completeness auto
termination
  by (relation "measure (\<lambda>(n, e). nat n)") auto

declare strip_zeros.simps [simp del]

text \<open>
  \<open>Number::toString\<close> of ECMA-262 for the digits \<open>D\<close> of the significand and the decimal point
  position \<open>n\<close>.
\<close>

definition place_digits :: "string \<Rightarrow> int \<Rightarrow> string" where
  "place_digits D n =
     (let k = int (length D)
      in if k \<le> n \<and> n \<le> 21 then D @ replicate (nat (n - k)) (CHR ''0'')
         else if 0 < n \<and> n \<le> 21 then take (nat n) D @ ''.'' @ drop (nat n) D
         else if - 6 < n \<and> n \<le> 0 then ''0.'' @ replicate (nat (- n)) (CHR ''0'') @ D
         else take 1 D @ (if k = 1 then '''' else ''.'' @ drop 1 D) @ ''e''
              @ (if n - 1 < 0 then ''-'' else ''+'') @ dec_text \<bar>n - 1\<bar>)"

definition num_text :: "rat \<Rightarrow> string" where
  "num_text q =
     (if q = 0 then ''0''
      else (let (a, d) = quotient_of \<bar>q\<bar>
            in case ten_power_for 400 0 1 d of
                 None \<Rightarrow> ''0''
               | Some (j, p) \<Rightarrow>
                   (let (s, e) = strip_zeros (a * p div d) (- j); D = dec_text s
                    in (if q < 0 then ''-'' else '''') @ place_digits D (int (length D) + e))))"

definition hex_digit :: "int \<Rightarrow> char" where
  "hex_digit n = (if n < 10 then char_of (48 + n) else char_of (87 + n))"

definition escape_char :: "char \<Rightarrow> string" where
  "escape_char c =
     (if c = CHR 0x22 then [CHR 0x5C, CHR 0x22]
      else if c = CHR 0x5C then [CHR 0x5C, CHR 0x5C]
      else if c = CHR 0x08 then [CHR 0x5C, CHR ''b'']
      else if c = CHR 0x0C then [CHR 0x5C, CHR ''f'']
      else if c = CHR 0x0A then [CHR 0x5C, CHR ''n'']
      else if c = CHR 0x0D then [CHR 0x5C, CHR ''r'']
      else if c = CHR 0x09 then [CHR 0x5C, CHR ''t'']
      else if code_unit c < 32
        then [CHR 0x5C, CHR ''u'', CHR ''0'', CHR ''0'', hex_digit (code_unit c div 16),
              hex_digit (code_unit c mod 16)]
      else [c])"

definition quote_text :: "string \<Rightarrow> string" where
  "quote_text s = [CHR 0x22] @ concat (map escape_char s) @ [CHR 0x22]"

fun json_text :: "json \<Rightarrow> string" where
  "json_text JNull = ''null''"
| "json_text (JBool b) = (if b then ''true'' else ''false'')"
| "json_text (JNum q) = num_text q"
| "json_text (JInf b) = ''null''"
| "json_text (JStr s) = quote_text s"
| "json_text (JArr xs) = ''['' @ js_join '','' (map json_text xs) @ '']''"
| "json_text (JObj kvs) =
     ''{'' @ js_join '','' (map (\<lambda>(k, v). quote_text k @ '':'' @ json_text v) kvs) @ ''}''"

definition utf8_bytes :: "string \<Rightarrow> nat" where
  "utf8_bytes s = sum_list (map (\<lambda>c. if code_unit c < 128 then 1 else 2) s)"

lemma utf8_bytes_ge_length: "length s \<le> utf8_bytes s"
  by (induction s) (auto simp: utf8_bytes_def)

lemma utf8_bytes_le: "utf8_bytes s \<le> 2 * length s"
  by (induction s) (auto simp: utf8_bytes_def)

section \<open>Dates\<close>

text \<open>
  A valid \<open>Date\<close> is its time value in milliseconds; \<open>new Date(x)\<close> of a number beyond
  8.64e15 is an Invalid Date (\<open>None\<close>).  \<open>toISOString\<close> of a valid date.
\<close>

definition max_date_ms :: rat where
  "max_date_ms = 8640000000000000"

definition js_trunc :: "rat \<Rightarrow> int" where
  "js_trunc q = (if q < 0 then - \<lfloor>- q\<rfloor> else \<lfloor>q\<rfloor>)"

definition new_date :: "rat \<Rightarrow> time option" where
  "new_date q = (if \<bar>q\<bar> \<le> max_date_ms then Some (js_trunc q) else None)"

definition pad_left :: "nat \<Rightarrow> string \<Rightarrow> string" where
  "pad_left n s = replicate (n - length s) (CHR ''0'') @ s"

definition civil_date :: "int \<Rightarrow> int \<times> int \<times> int" where
  "civil_date days =
     (let z = days + 719468; era = z div 146097; doe = z - era * 146097;
          yoe = (doe - doe div 1460 + doe div 36524 - doe div 146096) div 365;
          doy = doe - (365 * yoe + yoe div 4 - yoe div 100);
          mp = (5 * doy + 2) div 153;
          d = doy - (153 * mp + 2) div 5 + 1;
          m = (if mp < 10 then mp + 3 else mp - 9)
      in (yoe + era * 400 + (if m \<le> 2 then 1 else 0), m, d))"

definition year_text :: "int \<Rightarrow> string" where
  "year_text y =
     (if 0 \<le> y \<and> y \<le> 9999 then pad_left 4 (dec_text y)
      else (if y < 0 then ''-'' else ''+'') @ pad_left 6 (dec_text \<bar>y\<bar>))"

definition iso_text :: "time \<Rightarrow> string" where
  "iso_text t =
     (let (y, m, d) = civil_date (t div 86400000); r = t mod 86400000;
          two = (\<lambda>i. pad_left 2 (dec_text i))
      in year_text y @ ''-'' @ two m @ ''-'' @ two d @ ''T'' @ two (r div 3600000) @ '':''
         @ two (r div 60000 mod 60) @ '':'' @ two (r div 1000 mod 60) @ ''.''
         @ pad_left 3 (dec_text (r mod 1000)) @ ''Z'')"

section \<open>Recognisers for the regular expressions\<close>

definition uuid_dashes :: "nat set" where
  "uuid_dashes = {8, 13, 18, 23}"

text \<open>\<open>uuidPattern\<close> of the hub: 8-4-4-4-12 hexadecimal digits.\<close>

definition is_uuid :: "string \<Rightarrow> bool" where
  "is_uuid s \<longleftrightarrow> length s = 36
     \<and> list_all (\<lambda>(i, c). if i \<in> uuid_dashes then c = CHR ''-'' else is_hex c) (zip [0..<36] s)"

text \<open>The looser \<open>/^[0-9a-f-]{36}$/i\<close>.\<close>

definition is_frame_id_text :: "string \<Rightarrow> bool" where
  "is_frame_id_text s \<longleftrightarrow> length s = 36 \<and> list_all (\<lambda>c. is_hex c \<or> c = CHR ''-'') s"

lemma is_uuid_frame_id: "is_uuid s \<Longrightarrow> is_frame_id_text s"
proof -
  assume u: "is_uuid s"
  then have len: "length s = 36" by (simp add: is_uuid_def)
  have "\<forall>i<36. is_hex (s ! i) \<or> s ! i = CHR ''-''"
  proof (intro allI impI)
    fix i :: nat
    assume "i < 36"
    with u len show "is_hex (s ! i) \<or> s ! i = CHR ''-''"
      by (auto simp: is_uuid_def list_all_length split: if_splits)
  qed
  with len show ?thesis by (simp add: is_frame_id_text_def list_all_length)
qed

text \<open>\<open>/^Bearer\\s+(.+)$/i\<close>: group 1, which keeps trailing white space, then \<open>.trim()\<close>.\<close>

definition bearer_token :: "string option \<Rightarrow> string option" where
  "bearer_token h =
     (case h of
        None \<Rightarrow> None
      | Some v \<Rightarrow>
          if js_lower (take 6 v) = ''bearer'' \<and> (case drop 6 v of [] \<Rightarrow> False | c # _ \<Rightarrow> js_ws c)
          then (let t = js_trim (drop 7 v) in if t = [] then None else Some t) else None)"

end
