(* ===== verification/Schema.thy ===== *)
theory Schema imports Js begin

text \<open>
  The database of the control plane (\<open>cloud/packages/db/src/schema.ts\<close>): a record per table row, a
  table as the list of its rows in insertion order, the database as the record of the tables.  Ids
  of type \<open>uuid\<close> are strings, identity columns are integers, timestamps are milliseconds, nullable
  columns are options, \<open>text(...).array()\<close> is a list, \<open>bytea\<close> is a string of bytes and \<open>jsonb\<close> is
  a JSON value; three fields are the sequences of the identity
  columns, and \<open>notified\<close> lists the payloads of the NOTIFYs issued.  The record \<open>ext\<close> collects the functions of code outside the repository that the
  modelled code calls; every definition that uses one takes the record as its first argument.
\<close>

type_synonym uuid = string
type_synonym bytes = string

section \<open>Accounts, linked clients and device authorization\<close>

record account =
  a_id :: uuid
  a_displayName :: "string option"
  a_isSuperadmin :: bool
  a_passwordHash :: "string option"
  a_storeBanReason :: "string option"
  a_storeBannedAt :: "time option"
  a_primaryEmail :: "string option"

record session_row =
  s_id :: uuid
  s_accountId :: uuid
  s_absoluteExpiresAt :: time
  s_expiresAt :: time
  s_lastUsedAt :: time
  s_revokedAt :: "time option"
  s_tokenHash :: string

record linked_client =
  l_id :: uuid
  l_accountId :: uuid
  l_clientKind :: string
  l_encryptedRefreshToken :: "string option"
  l_lastSeenAt :: "time option"
  l_lastTokenRotationAt :: "time option"
  l_localOrigin :: "string option"
  l_previousTokenExpiresAt :: "time option"
  l_previousTokenReference :: "string option"
  l_metadata :: json
  l_displayName :: string
  l_revokedAt :: "time option"
  l_tokenReference :: string
  l_createdAt :: time
  l_updatedAt :: time

record connected_backend =
  b_id :: uuid
  b_capabilities :: json
  b_lastHealthPayload :: json
  b_lastSyncAt :: "time option"
  b_linkedClientId :: uuid
  b_frameosVersion :: "string option"
  b_updatedAt :: time

datatype auth_status = AuthPending | AuthApproved | AuthDenied | AuthExpired

datatype consent_decision = ConsentApproved | ConsentDenied | ConsentExpired

record device_request =
  d_id :: uuid
  d_approvedAt :: "time option"
  d_approvedByAccountId :: "uuid option"
  d_backendMetadata :: json
  d_clientKind :: string
  d_deniedAt :: "time option"
  d_deviceCodeHash :: string
  d_expiresAt :: time
  d_intervalSeconds :: int
  d_lastPollAt :: "time option"
  d_linkedClientId :: "uuid option"
  d_localOrigin :: "string option"
  d_pollCount :: int
  d_displayName :: string
  d_redeemedAt :: "time option"
  d_requestedScopes :: "string list"
  d_status :: auth_status
  d_tokenReference :: "string option"
  d_upgradeLinkedClientId :: "uuid option"
  d_userCodeDisplay :: string
  d_userCodeHash :: string
  d_createdAt :: time
  d_updatedAt :: time

record consent_event =
  ce_accountId :: "uuid option"
  ce_decision :: consent_decision
  ce_linkedClientId :: "uuid option"
  ce_scopes :: "string list"

record audit_event =
  ae_accountId :: "uuid option"
  ae_actor :: json
  ae_eventType :: string
  ae_metadata :: json
  ae_target :: json

record login_code =
  lc_id :: uuid
  lc_accountId :: uuid
  lc_codeHash :: string
  lc_expiresAt :: time
  lc_identityId :: "uuid option"
  lc_linkedClientId :: uuid
  lc_redeemedAt :: "time option"

section \<open>Frames\<close>

datatype frame_status = FramePending | FrameActive | FrameRevoked

datatype cmd_status = CmdPending | CmdSent | CmdAcked | CmdFailed | CmdExpired

record frame =
  f_id :: uuid
  f_accountId :: uuid
  f_linkedClientId :: uuid
  f_name :: string
  f_publicKey :: string
  f_hardware :: json
  f_frameosVersion :: "string option"
  f_status :: frame_status
  f_connected :: bool
  f_hubSessionId :: "string option"
  f_lastSeenAt :: "time option"
  f_lastState :: json
  f_lastMetrics :: json
  f_assignedChecksum :: "string option"
  f_scenesChecksum :: "string option"
  f_createdAt :: time
  f_updatedAt :: time

record claim_token =
  t_id :: uuid
  t_accountId :: uuid
  t_tokenHash :: string
  t_name :: "string option"
  t_expiresAt :: time
  t_usedAt :: "time option"
  t_maxUses :: int
  t_useCount :: int
  t_frameId :: "uuid option"
  t_createdAt :: time

record assignment =
  g_frameId :: uuid
  g_sceneId :: uuid
  g_sceneVersion :: "int option"
  g_position :: int

record command =
  c_id :: uuid
  c_frameId :: uuid
  c_type :: string
  c_payload :: json
  c_status :: cmd_status
  c_error :: "string option"
  c_createdByAccountId :: "uuid option"
  c_expiresAt :: "time option"
  c_sentAt :: "time option"
  c_ackedAt :: "time option"
  c_createdAt :: time

record asset_listing =
  al_frameId :: uuid
  al_payload :: json
  al_sizeBytes :: nat
  al_truncated :: bool
  al_updatedAt :: time

record asset_file =
  af_id :: int
  af_frameId :: uuid
  af_path :: string
  af_thumb :: bool
  af_contentType :: string
  af_content :: bytes
  af_sizeBytes :: nat
  af_updatedAt :: time

text \<open>Rows of \<open>frame_logs\<close> and of \<open>frame_metrics\<close>, which have the same columns.\<close>

record telemetry_row =
  tr_id :: int
  tr_frameId :: uuid
  tr_timestamp :: time
  tr_payload :: json
  tr_sizeBytes :: nat

section \<open>The scene store and backups\<close>

record store_scene =
  ss_id :: uuid
  ss_accountId :: uuid
  ss_category :: "string option"
  ss_description :: "string option"
  ss_downloadCount :: int
  ss_featuredAt :: "time option"
  ss_frameosVersion :: "string option"
  ss_linkedClientId :: "uuid option"
  ss_latestVersion :: int
  ss_name :: string
  ss_previewImage :: "bytes option"
  ss_previewImageHeight :: "int option"
  ss_previewImageType :: "string option"
  ss_previewImageWidth :: "int option"
  ss_pulledAt :: "time option"
  ss_pulledReason :: "string option"
  ss_riskFlags :: "string list"
  ss_shareToken :: uuid
  ss_slug :: string
  ss_status :: string
  ss_tags :: "string list"
  ss_visibility :: string
  ss_createdAt :: time
  ss_updatedAt :: time

record scene_version =
  sv_id :: uuid
  sv_content :: bytes
  sv_contentType :: string
  sv_frameosVersion :: "string option"
  sv_publishedBy :: "uuid option"
  sv_riskFlags :: "string list"
  sv_sceneId :: uuid
  sv_sha256 :: string
  sv_sizeBytes :: nat
  sv_version :: int
  sv_yankedAt :: "time option"
  sv_createdAt :: time

record scene_image =
  si_id :: uuid
  si_content :: bytes
  si_contentType :: string
  si_position :: int
  si_sceneId :: uuid
  si_createdAt :: time

record client_backup =
  cb_id :: uuid
  cb_accountId :: uuid
  cb_content :: bytes
  cb_contentType :: "string option"
  cb_createdAt :: time
  cb_itemKey :: string
  cb_kind :: string
  cb_linkedClientId :: "uuid option"
  cb_name :: "string option"
  cb_sha256 :: string
  cb_sizeBytes :: nat
  cb_updatedAt :: time

record db =
  accounts :: "account list"
  sessions :: "session_row list"
  linkedClients :: "linked_client list"
  connectedBackends :: "connected_backend list"
  deviceRequests :: "device_request list"
  consentEvents :: "consent_event list"
  auditEvents :: "audit_event list"
  loginCodes :: "login_code list"
  frames :: "frame list"
  claimTokens :: "claim_token list"
  assignments :: "assignment list"
  commands :: "command list"
  assetListings :: "asset_listing list"
  assetFiles :: "asset_file list"
  frameLogs :: "telemetry_row list"
  frameMetrics :: "telemetry_row list"
  storeScenes :: "store_scene list"
  sceneVersions :: "scene_version list"
  sceneImages :: "scene_image list"
  clientBackups :: "client_backup list"
  logSeq :: int
  metricSeq :: int
  assetSeq :: int
  notified :: "uuid list"

definition empty_db :: db where
  "empty_db = \<lparr>accounts = [], sessions = [], linkedClients = [], connectedBackends = [],
     deviceRequests = [], consentEvents = [], auditEvents = [], loginCodes = [], frames = [],
     claimTokens = [], assignments = [], commands = [], assetListings = [], assetFiles = [],
     frameLogs = [], frameMetrics = [], storeScenes = [], sceneVersions = [], sceneImages = [],
     clientBackups = [], logSeq = 1, metricSeq = 1, assetSeq = 1, notified = []\<rparr>"

section \<open>Code outside the repository\<close>

text \<open>
  An entry of a zip's central directory: its name, its original size when the directory has one, and
  the inflated data (\<open>None\<close> when inflating it throws).
\<close>

record zip_entry =
  z_name :: string
  z_originalSize :: "nat option"
  z_data :: "bytes option"

text \<open>A parsed WHATWG URL, as far as the code reads it.\<close>

record url =
  u_protocol :: string
  u_username :: string
  u_password :: string
  u_hostname :: string
  u_origin :: string

text \<open>
  Hashes (SHA-256 and MD5), base64 and Ed25519 of \<open>node:crypto\<close> and \<open>Buffer\<close> (\<open>ed25519_verify\<close> is \<open>None\<close> when it
  throws), \<open>unzipSync\<close> of \<open>fflate\<close> seen as the central directory, \<open>Date.parse\<close>, and whether the
  database driver writes a JSON \<open>null\<close> as the SQL \<open>NULL\<close>, which a NOT NULL column rejects; the HMAC
  under the user-code key, AES-GCM sealing of a secret (\<open>None\<close> when the key is missing) and opening it,
  \<open>jwtVerify\<close> of a session token (the payload, \<open>None\<close> when it throws) and \<open>new URL\<close>; \<open>zipSync\<close> of
  \<open>fflate\<close> (\<open>None\<close> when it throws), \<open>localeCompare\<close>, and \<open>normalize("NFKD")\<close> with the combining marks
  taken out.
\<close>

record ext =
  sha256_hex :: "bytes \<Rightarrow> string"
  sha256_base64url :: "string \<Rightarrow> string"
  base64_decode :: "string \<Rightarrow> bytes"
  base64_encode :: "bytes \<Rightarrow> string"
  ed25519_key_ok :: "bytes \<Rightarrow> bool"
  ed25519_verify :: "bytes \<Rightarrow> bytes \<Rightarrow> bytes \<Rightarrow> bool option"
  unzip_entries :: "bytes \<Rightarrow> zip_entry list option"
  date_parse :: "string \<Rightarrow> time option"
  writes_sql_null :: bool
  hmac_user_code :: "string \<Rightarrow> string"
  encrypt_secret :: "string \<Rightarrow> string option"
  decrypt_secret :: "string \<Rightarrow> string option"
  verify_session_jwt :: "string \<Rightarrow> fields option"
  parse_url :: "string \<Rightarrow> url option"
  md5_hex :: "string \<Rightarrow> string"
  zip_sync :: "(string \<times> bytes) list \<Rightarrow> bytes option"
  locale_compare :: "string \<Rightarrow> string \<Rightarrow> int"
  ascii_fold :: "string \<Rightarrow> string"

text \<open>A concrete instance, for examples: hashes keep their argument, signatures are checked by equality.\<close>

definition sample_ext :: ext where
  "sample_ext = \<lparr>sha256_hex = (\<lambda>b. ''h'' @ b), sha256_base64url = (\<lambda>s. ''#'' @ s),
     base64_decode = (\<lambda>s. s), base64_encode = (\<lambda>b. b), ed25519_key_ok = (\<lambda>b. True),
     ed25519_verify = (\<lambda>key msg sig. Some (sig = key @ msg)),
     unzip_entries = (\<lambda>b. Some [\<lparr>z_name = ''scenes.json'', z_originalSize = Some (length b),
                              z_data = Some b\<rparr>]),
     date_parse = (\<lambda>s. None), writes_sql_null = True, hmac_user_code = (\<lambda>s. ''%'' @ s),
     encrypt_secret = (\<lambda>s. Some (''v1:'' @ s)), decrypt_secret = (\<lambda>s. Some (drop 3 s)),
     verify_session_jwt = (\<lambda>t. Some [(''profile'', JObj [(''accountId'', JStr t),
       (''providerIssuer'', JStr ''i''), (''providerSubject'', JStr ''s'')])]),
     parse_url = (\<lambda>s. None), md5_hex = (\<lambda>s. ''5'' @ s),
     zip_sync = (\<lambda>files. map_of files ''scenes.json''),
     locale_compare = (\<lambda>a b. if a = b then 0 else if a < b then - 1 else 1), ascii_fold = (\<lambda>s. s)\<rparr>"

section \<open>Keys of the tables\<close>

definition db_keyed :: "db \<Rightarrow> bool" where
  "db_keyed d \<longleftrightarrow> keyed l_id (linkedClients d) \<and> keyed d_id (deviceRequests d) \<and> keyed f_id (frames d)
     \<and> keyed c_id (commands d) \<and> keyed t_id (claimTokens d)"

end
