(* ===== verification/LinkedClients.thy ===== *)
theory LinkedClients imports Schema begin

text \<open>
  Linked clients and their credentials: \<open>authenticateLinkedClient\<close>, the rotation grace window and
  the granted scopes of \<open>cloud/apps/auth-web/src/lib/backend-auth.ts\<close>, and the scope catalogue of
  \<open>device-scopes.ts\<close>.  The lemmas say which tokens authenticate, and when a rotated one stops.
\<close>

section \<open>Scopes\<close>

definition defaultDeviceScopes :: "string list" where
  "defaultDeviceScopes = [''backend:link'', ''backend:read'']"

definition allowedDeviceScopes :: "string list" where
  "allowedDeviceScopes = [''auth:login'', ''backend:link'', ''backend:read'', ''backup:assets'',
     ''backup:frames'', ''backup:scenes'', ''frame:link'', ''frame:managed'', ''gallery:read'',
     ''remote:access'', ''store:publish'', ''store:read'', ''telemetry:logs'', ''telemetry:metrics'']"

definition autoGrantedDeviceScopes :: "string list" where
  "autoGrantedDeviceScopes = []"

definition frameManagedScope :: string where "frameManagedScope = ''frame:managed''"
definition frameTelemetryLogsScope :: string where "frameTelemetryLogsScope = ''telemetry:logs''"
definition frameTelemetryMetricsScope :: string where "frameTelemetryMetricsScope = ''telemetry:metrics''"

fun strings_of :: "json list \<Rightarrow> string list" where
  "strings_of [] = []"
| "strings_of (JStr s # xs) = s # strings_of xs"
| "strings_of (_ # xs) = strings_of xs"

definition metadata_scopes :: "json \<Rightarrow> string list" where
  "metadata_scopes m =
     (case m of
        JObj kvs \<Rightarrow> (case map_of kvs ''requestedScopes'' of Some (JArr xs) \<Rightarrow> strings_of xs | _ \<Rightarrow> [])
      | _ \<Rightarrow> [])"

definition linkedClientScopes :: "linked_client \<Rightarrow> string list" where
  "linkedClientScopes l = metadata_scopes (l_metadata l)"

definition linkedClientHasScope :: "linked_client \<Rightarrow> string \<Rightarrow> bool" where
  "linkedClientHasScope l scope \<longleftrightarrow> scope \<in> set (linkedClientScopes l)"

lemma strings_of_map_JStr [simp]: "strings_of (map JStr ss) = ss"
  by (induction ss) simp_all

lemma metadata_scopes_set [simp]:
  "metadata_scopes (JObj (obj_spread m [(''requestedScopes'', JArr (map JStr ss))])) = ss"
  by (simp add: metadata_scopes_def)

section \<open>Authentication\<close>

definition hashSecret :: "ext \<Rightarrow> string \<Rightarrow> string" where
  "hashSecret x secret = sha256_base64url x secret"

definition token_matches :: "time \<Rightarrow> string \<Rightarrow> linked_client \<Rightarrow> bool" where
  "token_matches now h l \<longleftrightarrow>
     (l_tokenReference l = h
      \<or> (l_previousTokenReference l = Some h
         \<and> (case l_previousTokenExpiresAt l of None \<Rightarrow> False | Some e \<Rightarrow> e > now)))
     \<and> l_revokedAt l = None"

definition retire_previous :: "time \<Rightarrow> linked_client \<Rightarrow> linked_client" where
  "retire_previous now l =
     l\<lparr>l_previousTokenExpiresAt := None, l_previousTokenReference := None, l_updatedAt := now\<rparr>"

definition authenticateLinkedClient ::
  "ext \<Rightarrow> string option \<Rightarrow> time \<Rightarrow> db \<Rightarrow> db \<times> linked_client option" where
  "authenticateLinkedClient x authorizationHeader now d =
     (case bearer_token authorizationHeader of
        None \<Rightarrow> (d, None)
      | Some token \<Rightarrow>
          let tokenHash = hashSecret x token
          in case select_one (token_matches now tokenHash) (linkedClients d) of
               None \<Rightarrow> (d, None)
             | Some l \<Rightarrow>
                 if l_tokenReference l = tokenHash
                    \<and> (case l_previousTokenReference l of Some r \<Rightarrow> r \<noteq> [] | None \<Rightarrow> False)
                 then (d\<lparr>linkedClients :=
                           update_where (\<lambda>r. l_id r = l_id l) (retire_previous now) (linkedClients d)\<rparr>,
                       Some l)
                 else (d, Some l))"

interpretation retire: keyed_update l_id "retire_previous now" for now
  by unfold_locales (simp add: retire_previous_def)

lemma authenticate_sound:
  assumes "authenticateLinkedClient x hdr now d = (d', Some l)"
  shows "l \<in> set (linkedClients d) \<and> l_revokedAt l = None
       \<and> (\<exists>t. bearer_token hdr = Some t \<and> token_matches now (hashSecret x t) l)"
  using assms
  by (auto simp: authenticateLinkedClient_def Let_def token_matches_def
      split: option.splits if_splits dest!: select_one_Some)

lemma authenticate_frame [simp]:
  "frames (fst (authenticateLinkedClient x hdr now d)) = frames d"
  "commands (fst (authenticateLinkedClient x hdr now d)) = commands d"
  "deviceRequests (fst (authenticateLinkedClient x hdr now d)) = deviceRequests d"
  "claimTokens (fst (authenticateLinkedClient x hdr now d)) = claimTokens d"
  "map l_id (linkedClients (fst (authenticateLinkedClient x hdr now d))) = map l_id (linkedClients d)"
  by (auto simp: authenticateLinkedClient_def Let_def map_update_where retire_previous_def
      split: option.splits)

lemma authenticate_metadata [simp]:
  "map (\<lambda>l. (l_id l, l_accountId l, l_metadata l, l_revokedAt l))
     (linkedClients (fst (authenticateLinkedClient x hdr now d)))
   = map (\<lambda>l. (l_id l, l_accountId l, l_metadata l, l_revokedAt l)) (linkedClients d)"
  by (auto simp: authenticateLinkedClient_def Let_def map_update_where retire_previous_def
      split: option.splits)

text \<open>A header that carries the token \<open>t\<close>.\<close>

definition bearer :: "string \<Rightarrow> string option" where
  "bearer t = Some (''Bearer '' @ t)"

lemma bearer_token_bearer:
  assumes "t \<noteq> []" "js_trim t = t"
  shows "bearer_token (bearer t) = Some t"
proof -
  have "js_lower ''Bearer'' = ''bearer''" by code_simp
  moreover have "js_ws CHR 0x20" by (simp add: js_ws_def)
  ultimately show ?thesis using assms by (simp add: bearer_token_def bearer_def)
qed

end
