(* ===== verification/JsonParse.thy ===== *)
theory JsonParse imports Js begin

text \<open>
  \<open>JSON.parse\<close> and UTF-8 decoding, which the code applies to device messages and to the scenes file
  of a published zip.  The parser follows the grammar of ECMA-404; the fuel is the nesting and
  element depth, and twice the length of the text plus two is enough, since every call below
  another has consumed a character.  A code point above U+00FF, which the strings of the model do
  not have, is read as U+001A.
\<close>

definition json_ws :: "char \<Rightarrow> bool" where
  "json_ws c \<longleftrightarrow> c \<in> {CHR 0x20, CHR 0x09, CHR 0x0A, CHR 0x0D}"

definition hex_value :: "char \<Rightarrow> int" where
  "hex_value c =
     (let u = code_unit c in if is_digit c then u - 48 else if u \<le> 70 then u - 55 else u - 87)"

definition unit_char :: "int \<Rightarrow> char" where
  "unit_char n = (if 0 \<le> n \<and> n < 256 then char_of n else CHR 0x1A)"

fun parse_string_tail :: "string \<Rightarrow> (string \<times> string) option" where
  "parse_string_tail [] = None"
| "parse_string_tail (c # r) =
     (if c = CHR 0x22 then Some ([], r)
      else if c = CHR 0x5C then
        (case r of
           [] \<Rightarrow> None
         | e # r' \<Rightarrow>
             if e = CHR ''u'' then
               (case r' of
                  a # b # c' # d' # r'' \<Rightarrow>
                    if is_hex a \<and> is_hex b \<and> is_hex c' \<and> is_hex d'
                    then map_option (map_prod ((#) (unit_char (((hex_value a * 16 + hex_value b) * 16
                           + hex_value c') * 16 + hex_value d'))) id) (parse_string_tail r'')
                    else None
                | _ \<Rightarrow> None)
             else
               (case map_of [(CHR 0x22, CHR 0x22), (CHR 0x5C, CHR 0x5C), (CHR ''/'', CHR ''/''),
                   (CHR ''b'', CHR 0x08), (CHR ''f'', CHR 0x0C), (CHR ''n'', CHR 0x0A),
                   (CHR ''r'', CHR 0x0D), (CHR ''t'', CHR 0x09)] e of
                  None \<Rightarrow> None
                | Some v \<Rightarrow> map_option (map_prod ((#) v) id) (parse_string_tail r')))
      else if code_unit c < 32 then None
      else map_option (map_prod ((#) c) id) (parse_string_tail r))"

definition digits_int :: "string \<Rightarrow> int" where
  "digits_int ds = foldl (\<lambda>n c. n * 10 + (code_unit c - 48)) 0 ds"

text \<open>\<open>2 ^ 1024 - 2 ^ 970\<close>: from here on a literal reads as \<open>Infinity\<close>.\<close>

definition double_bound :: int where
  "double_bound =
     179769313486231580793728971405303415079934132710037826936173778980444968292764750946649017977587207096330286416692887910946555547851940402630657488671505820681908902000708383676273854845817711531764475730270069855571366959622842914819860834936475292719074168444365510704342711559699508093042880177904174497792"

definition number_json :: "bool \<Rightarrow> string \<Rightarrow> string \<Rightarrow> int \<Rightarrow> json" where
  "number_json neg ip fp ex =
     (let m = of_int (digits_int (ip @ fp)); e = ex - int (length fp);
          v = (if 0 \<le> e then m * 10 ^ nat e else m / 10 ^ nat (- e)) :: rat;
          q = (if neg then - v else v)
      in if \<bar>q\<bar> < of_int double_bound then JNum q else JInf (\<not> neg))"

definition parse_exponent :: "string \<Rightarrow> (int \<times> string) option" where
  "parse_exponent s =
     (case s of
        c # r \<Rightarrow>
          if c = CHR ''e'' \<or> c = CHR ''E'' then
            (let (sg, r') = (case r of
                 d # r'' \<Rightarrow> if d = CHR ''-'' then (- 1, r'') else if d = CHR ''+'' then (1, r'') else (1, r)
               | [] \<Rightarrow> (1, r));
                 ds = takeWhile is_digit r'
             in if ds = [] then None else Some (sg * digits_int ds, dropWhile is_digit r'))
          else Some (0, s)
      | [] \<Rightarrow> Some (0, s))"

definition parse_number :: "string \<Rightarrow> (json \<times> string) option" where
  "parse_number s =
     (let (neg, r) = (case s of c # r \<Rightarrow> if c = CHR ''-'' then (True, r) else (False, s) | [] \<Rightarrow> (False, s));
          ip = takeWhile is_digit r; r1 = dropWhile is_digit r
      in if ip = [] \<or> (hd ip = CHR ''0'' \<and> length ip > 1) then None
         else
           (case (case r1 of
               c # r2 \<Rightarrow> if c = CHR ''.'' then (takeWhile is_digit r2, dropWhile is_digit r2, True) else ([], r1, False)
             | [] \<Rightarrow> ([], r1, False)) of
              (fp, r3, dot) \<Rightarrow>
                if dot \<and> fp = [] then None
                else (case parse_exponent r3 of
                        None \<Rightarrow> None
                      | Some (ex, r4) \<Rightarrow> Some (number_json neg ip fp ex, r4))))"

definition strip_literal :: "string \<Rightarrow> json \<Rightarrow> string \<Rightarrow> (json \<times> string) option" where
  "strip_literal w v s = (if take (length w) s = w then Some (v, drop (length w) s) else None)"

fun parse_value :: "nat \<Rightarrow> string \<Rightarrow> (json \<times> string) option"
  and parse_elements :: "nat \<Rightarrow> string \<Rightarrow> (json list \<times> string) option"
  and parse_members :: "nat \<Rightarrow> fields \<Rightarrow> string \<Rightarrow> (fields \<times> string) option" where
  "parse_value 0 s = None"
| "parse_value (Suc n) s =
     (case dropWhile json_ws s of
        [] \<Rightarrow> None
      | c # r \<Rightarrow>
          if c = CHR 0x22 then map_option (map_prod JStr id) (parse_string_tail r)
          else if c = CHR ''['' then
            (case dropWhile json_ws r of
               d # r' \<Rightarrow> if d = CHR '']'' then Some (JArr [], r')
                         else map_option (map_prod JArr id) (parse_elements n r)
             | [] \<Rightarrow> None)
          else if c = CHR ''{'' then
            (case dropWhile json_ws r of
               d # r' \<Rightarrow> if d = CHR ''}'' then Some (JObj [], r')
                         else map_option (map_prod JObj id) (parse_members n [] r)
             | [] \<Rightarrow> None)
          else if c = CHR ''t'' then strip_literal ''true'' (JBool True) (c # r)
          else if c = CHR ''f'' then strip_literal ''false'' (JBool False) (c # r)
          else if c = CHR ''n'' then strip_literal ''null'' JNull (c # r)
          else parse_number (c # r))"
| "parse_elements 0 s = None"
| "parse_elements (Suc n) s =
     (case parse_value n s of
        None \<Rightarrow> None
      | Some (v, r) \<Rightarrow>
          (case dropWhile json_ws r of
             [] \<Rightarrow> None
           | c # r' \<Rightarrow>
               if c = CHR '','' then map_option (map_prod ((#) v) id) (parse_elements n r')
               else if c = CHR '']'' then Some ([v], r') else None))"
| "parse_members 0 kvs s = None"
| "parse_members (Suc n) kvs s =
     (case dropWhile json_ws s of
        [] \<Rightarrow> None
      | q # r \<Rightarrow>
          if q \<noteq> CHR 0x22 then None
          else (case parse_string_tail r of
                  None \<Rightarrow> None
                | Some (k, r1) \<Rightarrow>
                    (case dropWhile json_ws r1 of
                       [] \<Rightarrow> None
                     | col # r2 \<Rightarrow>
                         if col \<noteq> CHR '':'' then None
                         else (case parse_value n r2 of
                                 None \<Rightarrow> None
                               | Some (v, r3) \<Rightarrow>
                                   (case dropWhile json_ws r3 of
                                      [] \<Rightarrow> None
                                    | c # r4 \<Rightarrow>
                                        if c = CHR '','' then parse_members n (AList.update k v kvs) r4
                                        else if c = CHR ''}'' then Some (AList.update k v kvs, r4)
                                        else None)))))"

definition json_parse :: "string \<Rightarrow> json option" where
  "json_parse s =
     (case parse_value (2 * length s + 2) s of
        None \<Rightarrow> None
      | Some (v, r) \<Rightarrow> if dropWhile json_ws r = [] then Some v else None)"

text \<open>\<open>Buffer.toString("utf8")\<close>: one-byte and two-byte sequences; anything longer becomes U+001A.\<close>

fun utf8_decode :: "string \<Rightarrow> string" where
  "utf8_decode [] = []"
| "utf8_decode [c] = (if code_unit c < 128 then [c] else [CHR 0x1A])"
| "utf8_decode (c # d # r) =
     (if code_unit c < 128 then c # utf8_decode (d # r)
      else if 194 \<le> code_unit c \<and> code_unit c \<le> 223 \<and> 128 \<le> code_unit d \<and> code_unit d \<le> 191
        then unit_char ((code_unit c - 192) * 64 + (code_unit d - 128)) # utf8_decode r
      else CHR 0x1A # utf8_decode (d # r))"

end
