(* ===== verification/Retention.thy ===== *)
theory Retention imports Schema "HOL-Library.Sublist" "HOL-Library.Multiset" begin

text \<open>
  What bounds the stored telemetry and the asset cache: \<open>storeFrameLogs\<close>, \<open>storeFrameMetrics\<close>,
  \<open>parseAssetEntries\<close>, \<open>storeFrameAssetListing\<close> and \<open>storeFrameAssetFile\<close> of
  \<open>cloud/apps/auth-web/src/lib/frames.ts\<close> and the account budget of \<open>usage.ts\<close>.  The locale
  \<open>retention\<close> is the contract of a pruning step: of the candidates, newest first, exactly the
  longest run that fits the caps survives.  It is interpreted on the row cap of logs and metrics,
  on the byte budget of an account's logs and on the least-recently-used asset cache.
\<close>

section \<open>The contract\<close>

fun fit :: "('r list \<Rightarrow> bool) \<Rightarrow> 'r list \<Rightarrow> 'r list \<Rightarrow> 'r list" where
  "fit W acc [] = []"
| "fit W acc (x # xs) = (if W (acc @ [x]) then x # fit W (acc @ [x]) xs else [])"

lemma fit_fits: "W acc \<Longrightarrow> W (acc @ fit W acc xs)"
proof (induction xs arbitrary: acc)
  case (Cons x xs)
  show ?case using Cons.IH [of "acc @ [x]"] Cons.prems by simp
qed simp

lemma fit_prefix: "prefix (fit W acc xs) xs"
  by (induction xs arbitrary: acc) auto

lemma fit_all: "(\<And>n. W (acc @ take n xs)) \<Longrightarrow> fit W acc xs = xs"
proof (induction xs arbitrary: acc)
  case (Cons x xs)
  have "W (acc @ [x])" using Cons.prems [of 1] by simp
  moreover have "W ((acc @ [x]) @ take n xs)" for n using Cons.prems [of "Suc n"] by simp
  ultimately show ?case using Cons.IH [of "acc @ [x]"] by simp
qed simp

lemma fit_maximal:
  "length (fit W acc xs) < length xs \<Longrightarrow> \<not> W (acc @ take (Suc (length (fit W acc xs))) xs)"
proof (induction xs arbitrary: acc)
  case (Cons x xs)
  then show ?case using Cons.IH [of "acc @ [x]"] by (auto split: if_splits)
qed simp

lemma fit_filter:
  assumes "\<forall>i<length xs. bad (xs ! i) = (\<not> W (acc @ take (Suc i) xs))"
    and "\<And>i j. i \<le> j \<Longrightarrow> W (acc @ take j xs) \<Longrightarrow> W (acc @ take i xs)"
  shows "filter (\<lambda>r. \<not> bad r) xs = fit W acc xs"
  using assms
proof (induction xs arbitrary: acc)
  case (Cons x xs)
  show ?case
  proof (cases "W (acc @ [x])")
    case True
    have "filter (\<lambda>r. \<not> bad r) xs = fit W (acc @ [x]) xs"
    proof (rule Cons.IH)
      show "\<forall>i<length xs. bad (xs ! i) = (\<not> W ((acc @ [x]) @ take (Suc i) xs))"
        using Cons.prems(1) by fastforce
      show "W ((acc @ [x]) @ take j xs) \<Longrightarrow> W ((acc @ [x]) @ take i xs)" if "i \<le> j" for i j
        using Cons.prems(2) [of "Suc i" "Suc j"] that by simp
    qed
    then show ?thesis using True Cons.prems(1) by fastforce
  next
    case False
    have all: "bad ((x # xs) ! i)" if "i < length (x # xs)" for i
    proof -
      have "\<not> W (acc @ take (Suc i) (x # xs))"
        using Cons.prems(2) [of 1 "Suc i"] False by auto
      then show ?thesis using Cons.prems(1) that by blast
    qed
    have "\<forall>r\<in>set (x # xs). bad r" using all by (metis in_set_conv_nth)
    then show ?thesis using False by (simp add: filter_empty_conv)
  qed
qed simp

locale retention =
  fixes newest :: "'s \<Rightarrow> 'r list" and fits :: "'r list \<Rightarrow> bool"
    and pruned :: "'s \<Rightarrow> 's" and ok :: "'s \<Rightarrow> bool"
  assumes fits_Nil: "fits []"
    and kept: "ok s \<Longrightarrow> newest (pruned s) = fit fits [] (newest s)"
begin

lemma bounded: "ok s \<Longrightarrow> fits (newest (pruned s))"
  using fit_fits [of fits "[]"] fits_Nil by (simp add: kept)

lemma keeps_newest: "ok s \<Longrightarrow> prefix (newest (pruned s)) (newest s)"
  by (simp add: kept fit_prefix)

lemma keeps_all: "ok s \<Longrightarrow> (\<And>n. fits (take n (newest s))) \<Longrightarrow> newest (pruned s) = newest s"
  by (simp add: kept fit_all)

lemma drops_only_over:
  "ok s \<Longrightarrow> length (newest (pruned s)) < length (newest s) \<Longrightarrow>
   \<not> fits (take (Suc (length (newest (pruned s)))) (newest s))"
  using fit_maximal [of fits "[]" "newest s"] by (simp add: kept)

end

section \<open>Newest first\<close>

lemma select_desc_delete:
  "select_desc k P (delete_where (\<lambda>r. P r \<and> bad r) rows) = filter (\<lambda>r. \<not> bad r) (select_desc k P rows)"
proof -
  have "filter P (delete_where (\<lambda>r. P r \<and> bad r) rows) = filter (\<lambda>r. \<not> bad r) (filter P rows)"
    by (induction rows) (auto simp: delete_where_def)
  then show ?thesis by (simp add: select_desc_def rev_filter [symmetric] filter_sort)
qed

lemma select_desc_strict:
  assumes "keyed k rows"
  shows "sorted_wrt (\<lambda>a b. k b < k a) (select_desc k P rows)"
proof -
  have "distinct (map k (sort_key k (filter P rows)))" and "sorted (map k (sort_key k (filter P rows)))"
    using assms by (simp_all add: keyed_def distinct_map inj_on_def)
  then have "sorted_wrt (<) (map k (sort_key k (filter P rows)))"
    by (simp add: strict_sorted_iff)
  then show ?thesis by (simp add: select_desc_def sorted_wrt_rev sorted_wrt_map)
qed

lemma strict_desc_nth:
  "sorted_wrt (\<lambda>a b. (k b :: 'k::linorder) < k a) xs \<Longrightarrow> i < length xs \<Longrightarrow> j < length xs \<Longrightarrow>
   (k (xs ! j) \<le> k (xs ! i)) = (i \<le> j)"
  by (metis leD le_less_linear order.order_iff_strict order_less_le sorted_wrt_iff_nth_less)

lemma strict_desc_take:
  assumes "sorted_wrt (\<lambda>a b. (k b :: 'k::linorder) < k a) xs" and "i < length xs"
  shows "filter (\<lambda>r. k (xs ! i) \<le> k r) xs = take (Suc i) xs"
proof -
  have 1: "\<forall>r\<in>set (take (Suc i) xs). k (xs ! i) \<le> k r"
  proof
    fix r assume "r \<in> set (take (Suc i) xs)"
    then obtain j where "j \<le> i" "r = xs ! j" using assms(2) by (auto simp: in_set_conv_nth less_Suc_eq_le)
    then show "k (xs ! i) \<le> k r" using strict_desc_nth [OF assms(1), of j i] assms(2) by simp
  qed
  have 2: "\<forall>r\<in>set (drop (Suc i) xs). \<not> k (xs ! i) \<le> k r"
  proof
    fix r assume "r \<in> set (drop (Suc i) xs)"
    then obtain j where "j < length (drop (Suc i) xs)" "r = drop (Suc i) xs ! j"
      unfolding in_set_conv_nth by blast
    then have "Suc i + j < length xs" "r = xs ! (Suc i + j)" by auto
    then show "\<not> k (xs ! i) \<le> k r" using strict_desc_nth [OF assms(1), of "Suc i + j" i] assms(2) by simp
  qed
  have "filter (\<lambda>r. k (xs ! i) \<le> k r) (take (Suc i) xs @ drop (Suc i) xs) = take (Suc i) xs"
    unfolding filter_append using 1 2 by (simp add: filter_empty_conv)
  then show ?thesis by simp
qed

section \<open>Logs and metrics\<close>

definition maxLogsPerFrame :: nat where "maxLogsPerFrame = 5000"
definition maxLogBatch :: nat where "maxLogBatch = 200"
definition maxLogLineBytes :: nat where "maxLogLineBytes = 8 * 1024"
definition maxFrameLogBytesPerAccount :: nat where "maxFrameLogBytesPerAccount = 100 * 1024 * 1024"
definition maxMetricsPerFrame :: nat where "maxMetricsPerFrame = 1000"
definition maxMetricsSampleBytes :: nat where "maxMetricsSampleBytes = 16 * 1024"

definition json_bytes :: "json \<Rightarrow> nat" where
  "json_bytes v = utf8_bytes (json_text v)"

text \<open>The cut-off row and the DELETE below it, of both tables.\<close>

definition prune_beyond :: "nat \<Rightarrow> uuid \<Rightarrow> telemetry_row list \<Rightarrow> telemetry_row list" where
  "prune_beyond cap fid rows =
     (case drop cap (select_desc tr_id (\<lambda>r. tr_frameId r = fid) rows) of
        [] \<Rightarrow> rows
      | cutoff # _ \<Rightarrow> delete_where (\<lambda>r. tr_frameId r = fid \<and> tr_id r < tr_id cutoff + 1) rows)"

definition log_of_account :: "db \<Rightarrow> uuid \<Rightarrow> telemetry_row \<Rightarrow> bool" where
  "log_of_account d acc r \<longleftrightarrow> (\<exists>f\<in>set (frames d). f_id f = tr_frameId r \<and> f_accountId f = acc)"

definition frameLogBytesForAccount :: "db \<Rightarrow> uuid \<Rightarrow> nat" where
  "frameLogBytesForAccount d acc =
     sum_list (map tr_sizeBytes (filter (log_of_account d acc) (frameLogs d)))"

text \<open>\<open>sum(size_bytes) over (order by id desc)\<close>.\<close>

definition running_bytes :: "db \<Rightarrow> uuid \<Rightarrow> telemetry_row \<Rightarrow> nat" where
  "running_bytes d acc r =
     sum_list (map tr_sizeBytes
       (filter (\<lambda>q. tr_id r \<le> tr_id q) (filter (log_of_account d acc) (frameLogs d))))"

definition cullFrameLogsOverBudget :: "uuid \<Rightarrow> db \<Rightarrow> db" where
  "cullFrameLogsOverBudget acc d =
     d\<lparr>frameLogs := delete_where
       (\<lambda>r. log_of_account d acc r \<and> maxFrameLogBytesPerAccount < running_bytes d acc r) (frameLogs d)\<rparr>"

text \<open>
  An entry to store: \<open>None\<close> is an Invalid Date, on which the insert throws.  The result \<open>None\<close> is an
  exception, which leaves the database as it was.
\<close>

record log_entry =
  le_timestamp :: "time option"
  le_payload :: json

definition storable_logs :: "log_entry list \<Rightarrow> log_entry list" where
  "storable_logs es =
     filter (\<lambda>e. \<not> maxLogLineBytes < json_bytes (le_payload e)) (take maxLogBatch es)"

definition rejected_entry :: "ext \<Rightarrow> log_entry \<Rightarrow> bool" where
  "rejected_entry x e \<longleftrightarrow> le_timestamp e = None \<or> (writes_sql_null x \<and> le_payload e = JNull)"

fun log_rows :: "int \<Rightarrow> uuid \<Rightarrow> log_entry list \<Rightarrow> telemetry_row list" where
  "log_rows i fid [] = []"
| "log_rows i fid (e # es) =
     \<lparr>tr_id = i, tr_frameId = fid, tr_timestamp = the (le_timestamp e), tr_payload = le_payload e,
      tr_sizeBytes = json_bytes (le_payload e)\<rparr> # log_rows (i + 1) fid es"

definition storeFrameLogs ::
  "ext \<Rightarrow> uuid \<Rightarrow> log_entry list \<Rightarrow> uuid option \<Rightarrow> db \<Rightarrow> (db \<times> nat) option" where
  "storeFrameLogs x fid es acc d =
     (let batch = storable_logs es
      in if batch = [] then Some (d, 0)
         else if list_ex (rejected_entry x) batch then None
         else
           let d1 = d\<lparr>frameLogs := frameLogs d @ log_rows (logSeq d) fid batch,
                      logSeq := logSeq d + int (length batch)\<rparr>;
               d2 = d1\<lparr>frameLogs := prune_beyond maxLogsPerFrame fid (frameLogs d1)\<rparr>;
               d3 = (case acc of
                       None \<Rightarrow> d2
                     | Some a \<Rightarrow>
                         if a \<noteq> [] \<and> frameLogBytesForAccount d2 a > maxFrameLogBytesPerAccount
                         then cullFrameLogsOverBudget a d2 else d2)
           in Some (d3, length batch))"

text \<open>The result is the id of the inserted row, \<open>None\<close> for an oversized sample.\<close>

definition storeFrameMetrics :: "uuid \<Rightarrow> json \<Rightarrow> time \<Rightarrow> db \<Rightarrow> db \<times> int option" where
  "storeFrameMetrics fid metrics timestamp d =
     (if maxMetricsSampleBytes < json_bytes metrics then (d, None)
      else
        let row = \<lparr>tr_id = metricSeq d, tr_frameId = fid, tr_timestamp = timestamp,
                   tr_payload = metrics, tr_sizeBytes = json_bytes metrics\<rparr>
        in (d\<lparr>frameMetrics := prune_beyond maxMetricsPerFrame fid (frameMetrics d @ [row]),
              metricSeq := metricSeq d + 1\<rparr>, Some (metricSeq d)))"

section \<open>Asset listings and the asset cache\<close>

definition maxAssetListingBytes :: nat where "maxAssetListingBytes = 256 * 1024"
definition maxAssetFileBytes :: nat where "maxAssetFileBytes = 8 * 1024 * 1024"
definition maxAssetPathChars :: nat where "maxAssetPathChars = 1024"
definition frameImageAssetPath :: string where "frameImageAssetPath = ''.frame/image''"
definition maxAssetFilesPerFrame :: nat where "maxAssetFilesPerFrame = 64"
definition maxAssetCacheBytesPerFrame :: nat where "maxAssetCacheBytesPerFrame = 24 * 1024 * 1024"

record asset_entry =
  e_path :: string
  e_size :: rat
  e_mtime :: rat
  e_is_dir :: bool

fun finite_number :: "json option \<Rightarrow> rat" where
  "finite_number (Some (JNum q)) = q"
| "finite_number _ = 0"

definition asset_entry_of :: "fields \<Rightarrow> asset_entry option" where
  "asset_entry_of kvs =
     (let path = (case map_of kvs ''path'' of Some (JStr s) \<Rightarrow> s | _ \<Rightarrow> [])
      in if path = [] \<or> maxAssetPathChars < length path \<or> js_starts_with ''/'' path
            \<or> ''..'' \<in> set (js_split (CHR ''/'') path)
         then None
         else Some \<lparr>e_path = path, e_size = finite_number (map_of kvs ''size''),
                    e_mtime = finite_number (map_of kvs ''mtime''),
                    e_is_dir = (map_of kvs ''is_dir'' = Some (JBool True))\<rparr>)"

fun parse_asset_items :: "json list \<Rightarrow> asset_entry list" where
  "parse_asset_items [] = []"
| "parse_asset_items (JObj kvs # items) =
     (case asset_entry_of kvs of None \<Rightarrow> parse_asset_items items
      | Some e \<Rightarrow> e # parse_asset_items items)"
| "parse_asset_items (_ # items) = parse_asset_items items"

fun parseAssetEntries :: "json option \<Rightarrow> asset_entry list" where
  "parseAssetEntries (Some (JArr items)) = parse_asset_items items"
| "parseAssetEntries _ = []"

definition asset_entry_json :: "asset_entry \<Rightarrow> json" where
  "asset_entry_json e =
     JObj ((if e_is_dir e then [(''is_dir'', JBool True)] else [])
       @ [(''mtime'', JNum (e_mtime e)), (''path'', JStr (e_path e)), (''size'', JNum (e_size e))])"

definition storeFrameAssetListing :: "uuid \<Rightarrow> asset_entry list \<Rightarrow> bool \<Rightarrow> time \<Rightarrow> db \<Rightarrow> db \<times> bool" where
  "storeFrameAssetListing fid entries truncated now d =
     (let payload = JArr (map asset_entry_json entries); size = json_bytes payload;
          row = \<lparr>al_frameId = fid, al_payload = payload, al_sizeBytes = size,
                 al_truncated = truncated, al_updatedAt = now\<rparr>
      in if maxAssetListingBytes < size then (d, False)
         else (d\<lparr>assetListings :=
                   (if \<exists>r\<in>set (assetListings d). al_frameId r = fid
                    then update_where (\<lambda>r. al_frameId r = fid) (\<lambda>_. row) (assetListings d)
                    else assetListings d @ [row])\<rparr>, True))"

text \<open>The walk of \<open>storeFrameAssetFile\<close> over the frame's rows, newest first.\<close>

fun lru_evict :: "nat \<Rightarrow> nat \<Rightarrow> asset_file list \<Rightarrow> int list" where
  "lru_evict index bytes [] = []"
| "lru_evict index bytes (row # rows) =
     (let bytes' = bytes + af_sizeBytes row
      in (if maxAssetFilesPerFrame \<le> index \<or> maxAssetCacheBytesPerFrame < bytes' then [af_id row] else [])
         @ lru_evict (index + 1) bytes' rows)"

definition newest_assets :: "uuid \<Rightarrow> asset_file list \<Rightarrow> asset_file list" where
  "newest_assets fid rows = select_desc (\<lambda>r. (af_updatedAt r, af_id r)) (\<lambda>r. af_frameId r = fid) rows"

definition prune_assets :: "uuid \<Rightarrow> asset_file list \<Rightarrow> asset_file list" where
  "prune_assets fid rows =
     (let evict = lru_evict 0 0 (newest_assets fid rows)
      in if evict = [] then rows else delete_where (\<lambda>r. af_id r \<in> set evict) rows)"

definition upsert_asset :: "uuid \<Rightarrow> string \<Rightarrow> bool \<Rightarrow> string \<Rightarrow> bytes \<Rightarrow> time \<Rightarrow> db \<Rightarrow> db" where
  "upsert_asset fid path thumb ctype content now d =
     (let same = (\<lambda>r. af_frameId r = fid \<and> af_path r = path \<and> af_thumb r = thumb)
      in if \<exists>r\<in>set (assetFiles d). same r
         then d\<lparr>assetFiles := update_where same
                (\<lambda>r. r\<lparr>af_content := content, af_contentType := ctype,
                       af_sizeBytes := length content, af_updatedAt := now\<rparr>) (assetFiles d),
               assetSeq := assetSeq d + 1\<rparr>
         else d\<lparr>assetFiles := assetFiles d @
                [\<lparr>af_id = assetSeq d, af_frameId = fid, af_path = path, af_thumb = thumb,
                  af_contentType = ctype, af_content = content, af_sizeBytes = length content,
                  af_updatedAt = now\<rparr>],
               assetSeq := assetSeq d + 1\<rparr>)"

definition storeFrameAssetFile ::
  "uuid \<Rightarrow> string \<Rightarrow> bool \<Rightarrow> string \<Rightarrow> bytes \<Rightarrow> time \<Rightarrow> db \<Rightarrow> db \<times> bool" where
  "storeFrameAssetFile fid path thumb ctype content now d =
     (if maxAssetFileBytes < length content then (d, False)
      else let d1 = upsert_asset fid path thumb ctype content now d
           in (d1\<lparr>assetFiles := prune_assets fid (assetFiles d1)\<rparr>, True))"

section \<open>The pruning steps meet the contract\<close>

definition newest_telemetry :: "uuid \<Rightarrow> telemetry_row list \<Rightarrow> telemetry_row list" where
  "newest_telemetry fid rows = select_desc tr_id (\<lambda>r. tr_frameId r = fid) rows"

interpretation row_cap: retention "newest_telemetry fid" "\<lambda>xs. length xs \<le> cap"
  "prune_beyond cap fid" "keyed tr_id" for cap fid
proof (unfold_locales, goal_cases)
  case (2 rows)
  let ?P = "\<lambda>r. tr_frameId r = fid" and ?xs = "newest_telemetry fid rows"
  have desc: "sorted_wrt (\<lambda>a b. tr_id b < tr_id a) ?xs"
    using select_desc_strict [OF 2] by (simp add: newest_telemetry_def)
  show ?case
  proof (cases "cap < length ?xs")
    case True
    then have c: "drop cap ?xs = ?xs ! cap # drop (Suc cap) ?xs" by (simp add: Cons_nth_drop_Suc)
    have "newest_telemetry fid (prune_beyond cap fid rows)
        = filter (\<lambda>r. \<not> tr_id r < tr_id (?xs ! cap) + 1) ?xs"
      using c by (simp add: prune_beyond_def newest_telemetry_def select_desc_delete)
    also have "... = fit (\<lambda>xs. length xs \<le> cap) [] ?xs"
    proof (rule fit_filter)
      show "\<forall>i<length ?xs. (tr_id (?xs ! i) < tr_id (?xs ! cap) + 1)
          = (\<not> length ([] @ take (Suc i) ?xs) \<le> cap)"
        using strict_desc_nth [OF desc True] by auto
    qed auto
    finally show ?thesis .
  next
    case False
    then have "prune_beyond cap fid rows = rows"
      by (simp add: prune_beyond_def newest_telemetry_def)
    then show ?thesis using False by (auto intro: fit_all [symmetric])
  qed
qed simp

definition newest_account_logs :: "uuid \<Rightarrow> db \<Rightarrow> telemetry_row list" where
  "newest_account_logs acc d = select_desc tr_id (log_of_account d acc) (frameLogs d)"

lemma sum_list_select_desc:
  "sum_list (map (g :: 'r \<Rightarrow> nat) (filter Q (select_desc k P rows))) = sum_list (map g (filter Q (filter P rows)))"
proof -
  have "mset (filter Q (select_desc k P rows)) = mset (filter Q (filter P rows))"
    by (simp only: select_desc_def mset_filter mset_rev mset_sort)
  then have "mset (map g (filter Q (select_desc k P rows))) = mset (map g (filter Q (filter P rows)))"
    by (simp only: mset_map)
  then show ?thesis by (metis sum_mset_sum_list)
qed

lemma frameLogBytes_newest:
  "frameLogBytesForAccount d acc = sum_list (map tr_sizeBytes (newest_account_logs acc d))"
  using sum_list_select_desc [of tr_sizeBytes "\<lambda>_. True" tr_id "log_of_account d acc" "frameLogs d"]
  by (simp add: frameLogBytesForAccount_def newest_account_logs_def)

lemma sum_list_take_mono: "i \<le> j \<Longrightarrow> sum_list (map g (take i xs)) \<le> sum_list (map (g :: 'r \<Rightarrow> nat) (take j xs))"
  by (metis append_take_drop_id le_add1 map_append min.absorb1 sum_list.append take_take)

interpretation account_budget: retention "newest_account_logs acc"
  "\<lambda>xs. sum_list (map tr_sizeBytes xs) \<le> maxFrameLogBytesPerAccount"
  "cullFrameLogsOverBudget acc" "\<lambda>d. keyed tr_id (frameLogs d)" for acc
proof (unfold_locales, goal_cases)
  case (2 d)
  let ?xs = "newest_account_logs acc d"
  let ?bad = "\<lambda>r. maxFrameLogBytesPerAccount < running_bytes d acc r"
  have desc: "sorted_wrt (\<lambda>a b. tr_id b < tr_id a) ?xs"
    using select_desc_strict [OF 2] by (simp add: newest_account_logs_def)
  have acct: "log_of_account (cullFrameLogsOverBudget acc d) acc = log_of_account d acc"
    by (simp add: fun_eq_iff log_of_account_def cullFrameLogsOverBudget_def)
  have "newest_account_logs acc (cullFrameLogsOverBudget acc d) = filter (\<lambda>r. \<not> ?bad r) ?xs"
    by (simp add: newest_account_logs_def acct)
      (simp add: cullFrameLogsOverBudget_def select_desc_delete)
  also have "... = fit (\<lambda>xs. sum_list (map tr_sizeBytes xs) \<le> maxFrameLogBytesPerAccount) [] ?xs"
  proof (rule fit_filter)
    show "\<forall>i<length ?xs. ?bad (?xs ! i)
        = (\<not> sum_list (map tr_sizeBytes ([] @ take (Suc i) ?xs)) \<le> maxFrameLogBytesPerAccount)"
    proof (intro allI impI)
      fix i assume i: "i < length ?xs"
      have "running_bytes d acc (?xs ! i)
          = sum_list (map tr_sizeBytes (filter (\<lambda>q. tr_id (?xs ! i) \<le> tr_id q) ?xs))"
        unfolding running_bytes_def newest_account_logs_def by (rule sum_list_select_desc [symmetric])
      then show "?bad (?xs ! i)
          = (\<not> sum_list (map tr_sizeBytes ([] @ take (Suc i) ?xs)) \<le> maxFrameLogBytesPerAccount)"
        using strict_desc_take [OF desc i] by auto
    qed
  qed (use sum_list_take_mono in \<open>fastforce intro: order.trans\<close>)
  finally show ?case .
qed simp

definition asset_fits :: "asset_file list \<Rightarrow> bool" where
  "asset_fits xs \<longleftrightarrow> length xs \<le> maxAssetFilesPerFrame
     \<and> sum_list (map af_sizeBytes xs) \<le> maxAssetCacheBytesPerFrame"

lemma lru_evict_subset: "set (lru_evict i b rows) \<subseteq> af_id ` set rows"
  by (induction i b rows rule: lru_evict.induct) (auto simp: Let_def)

lemma lru_evict_nth:
  "distinct (map af_id rows) \<Longrightarrow> j < length rows \<Longrightarrow>
   (af_id (rows ! j) \<in> set (lru_evict i b rows))
     = (maxAssetFilesPerFrame \<le> i + j
        \<or> maxAssetCacheBytesPerFrame < b + sum_list (map af_sizeBytes (take (Suc j) rows)))"
proof (induction i b rows arbitrary: j rule: lru_evict.induct)
  case (2 i b row rows)
  have notin: "af_id row \<notin> set (lru_evict (i + 1) (b + af_sizeBytes row) rows)"
    using lru_evict_subset [of "i + 1" "b + af_sizeBytes row" rows] 2(2) by auto
  show ?case
  proof (cases j)
    case 0
    then show ?thesis using notin by (simp add: Let_def)
  next
    case (Suc k)
    have "rows ! k \<in> set rows" using 2(3) Suc by simp
    then have "af_id (rows ! k) \<noteq> af_id row" using 2(2) by (metis distinct.simps(2) imageI list.simps(9) set_map)
    then show ?thesis using 2 Suc by (auto simp: Let_def algebra_simps)
  qed
qed simp

interpretation asset_lru: retention "newest_assets fid" asset_fits "prune_assets fid" "keyed af_id" for fid
proof (unfold_locales, goal_cases)
  case 1 then show ?case by (simp add: asset_fits_def)
next
  case (2 rows)
  let ?xs = "newest_assets fid rows" and ?ev = "lru_evict 0 0 (newest_assets fid rows)"
  have dist: "distinct (map af_id ?xs)"
    using 2 by (simp add: newest_assets_def select_desc_def keyed_def distinct_map inj_on_def)
  have own: "af_id r \<in> set ?ev \<Longrightarrow> r \<in> set rows \<Longrightarrow> af_frameId r = fid" for r
  proof -
    assume e: "af_id r \<in> set ?ev" and r: "r \<in> set rows"
    then obtain q where q: "q \<in> set ?xs" "af_id r = af_id q" using lru_evict_subset by blast
    then have "q \<in> set rows" "af_frameId q = fid" by (auto simp: newest_assets_def)
    with keyed_eq [OF 2 r] q show "af_frameId r = fid" by metis
  qed
  have "prune_assets fid rows = delete_where (\<lambda>r. af_frameId r = fid \<and> af_id r \<in> set ?ev) rows"
    using own by (auto simp: prune_assets_def Let_def delete_where_def intro!: filter_cong)
  then have "newest_assets fid (prune_assets fid rows) = filter (\<lambda>r. af_id r \<notin> set ?ev) ?xs"
    by (simp add: newest_assets_def select_desc_delete)
  also have "... = fit asset_fits [] ?xs"
  proof (rule fit_filter)
    show "\<forall>i<length ?xs. (af_id (?xs ! i) \<in> set ?ev) = (\<not> asset_fits ([] @ take (Suc i) ?xs))"
      using lru_evict_nth [OF dist] by (auto simp: asset_fits_def)
    show "asset_fits ([] @ take i ?xs)" if "i \<le> j" "asset_fits ([] @ take j ?xs)" for i j
      using that sum_list_take_mono [OF that(1), of af_sizeBytes ?xs] by (auto simp: asset_fits_def)
  qed
  finally show ?case .
qed

section \<open>What a stored batch leaves\<close>

lemma filter_takeWhile_mono:
  "sorted_wrt (\<lambda>a b. bad a \<longrightarrow> bad b) xs \<Longrightarrow> filter (\<lambda>r. \<not> bad r) xs = takeWhile (\<lambda>r. \<not> bad r) xs"
  by (induction xs) (auto simp: filter_empty_conv)

lemma running_bytes_antimono: "tr_id r \<le> tr_id q \<Longrightarrow> running_bytes d acc q \<le> running_bytes d acc r"
proof -
  assume le: "tr_id r \<le> tr_id q"
  have "sum_list (map tr_sizeBytes (filter (\<lambda>p. tr_id q \<le> tr_id p) xs))
      \<le> sum_list (map tr_sizeBytes (filter (\<lambda>p. tr_id r \<le> tr_id p) xs))" for xs
    using le by (induction xs) auto
  then show ?thesis unfolding running_bytes_def .
qed

lemma cull_frame_prefix:
  assumes "keyed tr_id (frameLogs d)"
  shows "prefix (newest_telemetry fid (frameLogs (cullFrameLogsOverBudget acc d)))
           (newest_telemetry fid (frameLogs d))"
proof -
  let ?bad = "\<lambda>r. log_of_account d acc r \<and> maxFrameLogBytesPerAccount < running_bytes d acc r"
  let ?xs = "newest_telemetry fid (frameLogs d)"
  have "filter (\<lambda>r. tr_frameId r = fid) (delete_where ?bad rows)
      = filter (\<lambda>r. \<not> ?bad r) (filter (\<lambda>r. tr_frameId r = fid) rows)" for rows
    by (induction rows) (auto simp: delete_where_def)
  then have eq: "newest_telemetry fid (frameLogs (cullFrameLogsOverBudget acc d))
      = filter (\<lambda>r. \<not> ?bad r) ?xs"
    by (simp add: newest_telemetry_def cullFrameLogsOverBudget_def select_desc_def rev_filter [symmetric]
        filter_sort)
  have same: "log_of_account d acc a = log_of_account d acc b" if "tr_frameId a = tr_frameId b" for a b
    using that by (simp add: log_of_account_def)
  have "sorted_wrt (\<lambda>a b. tr_id b < tr_id a) ?xs"
    using select_desc_strict [OF assms] by (simp add: newest_telemetry_def)
  then have "sorted_wrt (\<lambda>a b. ?bad a \<longrightarrow> ?bad b) ?xs"
  proof (rule sorted_wrt_mono_rel [rotated])
    fix a b assume ab: "a \<in> set ?xs" "b \<in> set ?xs" "tr_id b < tr_id a"
    then have "tr_frameId a = tr_frameId b" by (simp add: newest_telemetry_def)
    then show "?bad a \<longrightarrow> ?bad b"
      using same running_bytes_antimono [of b a d acc] ab(3) by (metis leD le_less_linear less_imp_le order.trans)
  qed
  from filter_takeWhile_mono [OF this] show ?thesis unfolding eq by (metis takeWhile_is_prefix)
qed

lemma keyed_prune_beyond: "keyed tr_id rows \<Longrightarrow> keyed tr_id (prune_beyond cap fid rows)"
  by (auto simp: prune_beyond_def keyed_delete split: list.split)

lemma tr_id_log_rows: "map tr_id (log_rows i fid es) = map (\<lambda>j. i + int j) [0..<length es]"
proof (induction es arbitrary: i)
  case (Cons e es)
  have "map (\<lambda>j. i + int j) [0..<length (e # es)] = i # map (\<lambda>j. i + 1 + int j) [0..<length es]"
    unfolding list.size add_0_right add_Suc_right by (subst upt_conv_Cons)
      (simp_all add: map_Suc_upt [symmetric] algebra_simps del: upt_Suc)
  with Cons show ?case by simp
qed simp

lemma log_rows_frame: "r \<in> set (log_rows i fid es) \<Longrightarrow> tr_frameId r = fid \<and> i \<le> tr_id r"
  by (induction es arbitrary: i) force+

lemma newest_append_newer:
  assumes "keyed tr_id (rows @ new)" and "\<forall>r\<in>set rows. \<forall>q\<in>set new. tr_id r < tr_id q"
    and "\<forall>q\<in>set new. tr_frameId q = fid" and "sorted (map tr_id new)"
  shows "newest_telemetry fid (rows @ new) = rev new @ newest_telemetry fid rows"
proof -
  let ?P = "\<lambda>r. tr_frameId r = fid"
  have new: "filter ?P new = new" using assms(3) by simp
  have "sort_key tr_id (filter ?P rows @ new) = sort_key tr_id (filter ?P rows) @ new"
  proof (rule properties_for_sort_key)
    show "sorted (map tr_id (sort_key tr_id (filter ?P rows) @ new))"
      using assms(2,4) by (fastforce simp: sorted_append)
    show "filter (\<lambda>x. tr_id k = tr_id x) (sort_key tr_id (filter ?P rows) @ new)
        = filter (\<lambda>x. tr_id k = tr_id x) (filter ?P rows @ new)" for k
      using sort_key_stable [of tr_id "tr_id k" "filter ?P rows"] by (simp add: eq_commute)
  qed simp
  then show ?thesis by (simp add: newest_telemetry_def select_desc_def new)
qed

text \<open>Identity columns are keys, and the sequence is ahead of every row.\<close>

definition telemetry_ok :: "int \<Rightarrow> telemetry_row list \<Rightarrow> bool" where
  "telemetry_ok seq rows \<longleftrightarrow> keyed tr_id rows \<and> (\<forall>r\<in>set rows. tr_id r < seq)"

lemma telemetry_ok_append:
  assumes "telemetry_ok seq rows"
  shows "keyed tr_id (rows @ log_rows seq fid es)"
    and "newest_telemetry fid (rows @ log_rows seq fid es)
           = rev (log_rows seq fid es) @ newest_telemetry fid rows"
proof -
  have ids: "map tr_id (log_rows seq fid es) = map (\<lambda>j. seq + int j) [0..<length es]"
    by (rule tr_id_log_rows)
  have less: "tr_id r < tr_id q" if "r \<in> set rows" "q \<in> set (log_rows seq fid es)" for r q
  proof -
    have "tr_id r < seq" using assms that(1) by (simp add: telemetry_ok_def)
    also have "seq \<le> tr_id q" using log_rows_frame [OF that(2)] by simp
    finally show ?thesis .
  qed
  show k: "keyed tr_id (rows @ log_rows seq fid es)"
  proof -
    have "distinct (map tr_id (log_rows seq fid es))" unfolding ids by (simp add: distinct_map inj_on_def)
    moreover have "distinct (map tr_id rows)" using assms by (simp add: telemetry_ok_def keyed_def)
    moreover have "tr_id ` set rows \<inter> tr_id ` set (log_rows seq fid es) = {}"
      using less by force
    ultimately show ?thesis by (simp add: keyed_def)
  qed
  show "newest_telemetry fid (rows @ log_rows seq fid es)
      = rev (log_rows seq fid es) @ newest_telemetry fid rows"
  proof (rule newest_append_newer [OF k])
    show "sorted (map tr_id (log_rows seq fid es))"
      unfolding ids by (rule sorted_map_mono) (auto simp: mono_on_def)
  qed (use less log_rows_frame in blast)+
qed

text \<open>
  C39.  Retention of logs.  When a batch is stored, the frame keeps at most \<open>maxLogsPerFrame\<close> rows,
  the account's logs fit its byte budget, and what the frame keeps is exactly a newest run of the
  batch followed by what it had: no line survives an older-than-it line's removal out of order, and
  ids stay distinct and below the sequence.
\<close>

theorem storeFrameLogs_retention:
  assumes ok: "telemetry_ok (logSeq d) (frameLogs d)"
    and st: "storeFrameLogs x fid es acc d = Some (d', n)" and n: "n \<noteq> 0"
  shows "length (newest_telemetry fid (frameLogs d')) \<le> maxLogsPerFrame
       \<and> (\<forall>a. acc = Some a \<and> a \<noteq> [] \<longrightarrow> frameLogBytesForAccount d' a \<le> maxFrameLogBytesPerAccount)
       \<and> prefix (newest_telemetry fid (frameLogs d'))
           (rev (log_rows (logSeq d) fid (storable_logs es)) @ newest_telemetry fid (frameLogs d))
       \<and> telemetry_ok (logSeq d') (frameLogs d')"
proof -
  define batch where "batch = storable_logs es"
  define d1 where "d1 = d\<lparr>frameLogs := frameLogs d @ log_rows (logSeq d) fid batch,
                      logSeq := logSeq d + int (length batch)\<rparr>"
  define d2 where "d2 = d1\<lparr>frameLogs := prune_beyond maxLogsPerFrame fid (frameLogs d1)\<rparr>"
  have d': "d' = d2 \<or> (\<exists>a. acc = Some a \<and> d' = cullFrameLogsOverBudget a d2)"
    and bud: "\<forall>a. acc = Some a \<and> a \<noteq> [] \<longrightarrow>
        (if frameLogBytesForAccount d2 a > maxFrameLogBytesPerAccount
         then d' = cullFrameLogsOverBudget a d2 else d' = d2)"
    using st n unfolding d2_def d1_def batch_def
    by (auto simp: storeFrameLogs_def Let_def split: if_splits option.splits)
  have k1: "keyed tr_id (frameLogs d1)" and new: "newest_telemetry fid (frameLogs d1)
      = rev (log_rows (logSeq d) fid batch) @ newest_telemetry fid (frameLogs d)"
    using telemetry_ok_append [OF ok] by (simp_all add: d1_def)
  have k2: "keyed tr_id (frameLogs d2)" using keyed_prune_beyond [OF k1] by (simp add: d2_def)
  have len: "length (newest_telemetry fid (frameLogs d2)) \<le> maxLogsPerFrame"
    using row_cap.bounded [OF k1] by (simp add: d2_def)
  have pre: "prefix (newest_telemetry fid (frameLogs d2)) (newest_telemetry fid (frameLogs d1))"
    using row_cap.keeps_newest [OF k1] by (simp add: d2_def)
  have pre': "prefix (newest_telemetry fid (frameLogs d')) (newest_telemetry fid (frameLogs d2))"
    using d' cull_frame_prefix [OF k2] by auto
  have rows1: "\<forall>r\<in>set (frameLogs d1). tr_id r < logSeq d1"
  proof -
    have "tr_id r \<in> set (map tr_id (log_rows (logSeq d) fid batch))"
      if "r \<in> set (log_rows (logSeq d) fid batch)" for r using that by simp
    then show ?thesis using ok by (auto simp: d1_def telemetry_ok_def tr_id_log_rows) force
  qed
  have sub: "set (frameLogs d') \<subseteq> set (frameLogs d1)" and seq: "logSeq d' = logSeq d1"
    and k': "keyed tr_id (frameLogs d')"
    using d' k2 by (auto simp: d2_def cullFrameLogsOverBudget_def prune_beyond_def keyed_delete split: list.splits)
  have "frameLogBytesForAccount d' a \<le> maxFrameLogBytesPerAccount" if "acc = Some a" "a \<noteq> []" for a
    using bud that account_budget.bounded [OF k2, of a] by (auto simp: frameLogBytes_newest split: if_splits)
  moreover have "telemetry_ok (logSeq d') (frameLogs d')"
    using k' sub seq rows1 by (auto simp: telemetry_ok_def)
  moreover have "length (newest_telemetry fid (frameLogs d')) \<le> maxLogsPerFrame"
    using prefix_length_le [OF pre'] len by simp
  ultimately show ?thesis using prefix_order.trans [OF pre' pre] new by (auto simp: batch_def)
qed

definition sample_entry :: log_entry where
  "sample_entry = \<lparr>le_timestamp = Some 5, le_payload = JStr ''hi''\<rparr>"

lemma sample_storable: "storable_logs [sample_entry] = [sample_entry]"
proof -
  have "json_bytes (JStr ''hi'') = 4" by code_simp
  then show ?thesis by (simp add: storable_logs_def sample_entry_def maxLogLineBytes_def maxLogBatch_def)
qed

theorem storeFrameLogs_retention_witness:
  "\<exists>d'. storeFrameLogs sample_ext ''f'' [sample_entry] (Some ''a'') empty_db = Some (d', 1)
     \<and> length (newest_telemetry ''f'' (frameLogs d')) \<le> maxLogsPerFrame
     \<and> telemetry_ok (logSeq d') (frameLogs d')"
proof -
  have "\<not> rejected_entry sample_ext sample_entry" by (simp add: rejected_entry_def sample_entry_def)
  then have "\<exists>d'. storeFrameLogs sample_ext ''f'' [sample_entry] (Some ''a'') empty_db = Some (d', 1)"
    by (simp add: storeFrameLogs_def sample_storable Let_def)
  then obtain d' where st:
    "storeFrameLogs sample_ext ''f'' [sample_entry] (Some ''a'') empty_db = Some (d', 1)" by blast
  have ok: "telemetry_ok (logSeq empty_db) (frameLogs empty_db)"
    by (simp add: telemetry_ok_def empty_db_def)
  from storeFrameLogs_retention [OF ok st] st show ?thesis by auto
qed

section \<open>The asset cache\<close>

lemma lru_head_kept:
  assumes "keyed af_id rows" and "newest_assets fid rows = r # rest" and "af_sizeBytes r \<le> maxAssetFileBytes"
  shows "r \<in> set (prune_assets fid rows)"
proof -
  have "asset_fits [r]"
    using assms(3) by (simp add: asset_fits_def maxAssetFilesPerFrame_def maxAssetCacheBytesPerFrame_def
        maxAssetFileBytes_def)
  then have "r \<in> set (newest_assets fid (prune_assets fid rows))"
    unfolding asset_lru.kept [OF assms(1)] assms(2) by simp
  then show ?thesis by (simp add: newest_assets_def)
qed

lemma select_desc_head:
  assumes "r \<in> set rows" "P r" "\<forall>q\<in>set rows. P q \<and> q \<noteq> r \<longrightarrow> k q < k r"
  shows "\<exists>rest. select_desc k P rows = r # rest"
proof -
  let ?s = "sort_key k (filter P rows)"
  have ne: "?s \<noteq> []" using assms(1,2) by (auto simp: filter_empty_conv simp flip: set_empty)
  have lin: "last ?s \<in> set rows \<and> P (last ?s)" using last_in_set [OF ne] by simp
  have "k r \<le> k (last ?s)"
  proof -
    have "r \<in> set ?s" using assms(1,2) by simp
    then obtain i where i: "i < length ?s" "?s ! i = r" by (metis in_set_conv_nth)
    have "map k ?s ! i \<le> map k ?s ! (length ?s - 1)"
      by (rule sorted_nth_mono) (use i in auto)
    then show ?thesis using i ne by (simp add: last_conv_nth)
  qed
  then have "last ?s = r" using assms(3) lin by (metis leD)
  then show ?thesis using ne by (metis select_desc_def append_butlast_last_id rev.simps(2) rev_rev_ident
        rev_append append_Cons append_Nil)
qed

lemma keyed_upsert_asset:
  assumes "keyed af_id (assetFiles d)" "\<forall>r\<in>set (assetFiles d). af_id r < assetSeq d"
  shows "keyed af_id (assetFiles (upsert_asset fid path thumb ctype content now d))"
  using assms by (auto simp: upsert_asset_def Let_def keyed_def map_update_where)

definition asset_key :: "asset_file \<Rightarrow> uuid \<times> string \<times> bool" where
  "asset_key r = (af_frameId r, af_path r, af_thumb r)"

lemma upsert_asset_newest:
  assumes key: "keyed asset_key (assetFiles d)"
    and fresh: "\<forall>r\<in>set (assetFiles d). af_updatedAt r < now"
  shows "\<exists>r rest. newest_assets fid (assetFiles (upsert_asset fid path thumb ctype content now d)) = r # rest
       \<and> asset_key r = (fid, path, thumb) \<and> af_content r = content \<and> af_sizeBytes r = length content"
proof -
  let ?same = "\<lambda>r. af_frameId r = fid \<and> af_path r = path \<and> af_thumb r = thumb"
  let ?upd = "\<lambda>r. r\<lparr>af_content := content, af_contentType := ctype, af_sizeBytes := length content,
      af_updatedAt := now\<rparr>"
  let ?rows = "assetFiles (upsert_asset fid path thumb ctype content now d)"
  obtain r where r: "r \<in> set ?rows" "asset_key r = (fid, path, thumb)" "af_content r = content"
      "af_sizeBytes r = length content" "af_updatedAt r = now"
    and old: "\<forall>q\<in>set ?rows. q = r \<or> q \<in> set (assetFiles d)"
  proof (cases "\<exists>p\<in>set (assetFiles d). ?same p")
    case True
    then obtain p where p: "p \<in> set (assetFiles d)" "?same p" by blast
    have only: "q = p" if "q \<in> set (assetFiles d)" "?same q" for q
      using keyed_eq [OF key that(1) p(1)] that(2) p(2) by (simp add: asset_key_def)
    have rows: "?rows = update_where ?same ?upd (assetFiles d)"
      using True by (simp add: upsert_asset_def Let_def)
    show ?thesis
    proof (rule that [of "?upd p"])
      show "?upd p \<in> set ?rows" 
      proof -
        have "?upd p = (if ?same p then ?upd p else p)" using p(2) by simp
        then show ?thesis unfolding rows set_update_where using p(1) by (rule image_eqI)
      qed
      show "\<forall>q\<in>set ?rows. q = ?upd p \<or> q \<in> set (assetFiles d)"

      proof
        fix q assume "q \<in> set ?rows"
        from in_update_whereD [OF this [unfolded rows]] only
        show "q = ?upd p \<or> q \<in> set (assetFiles d)" by blast
      qed
    qed (use p in \<open>simp_all add: asset_key_def\<close>)
  next
    case False
    let ?new = "\<lparr>af_id = assetSeq d, af_frameId = fid, af_path = path, af_thumb = thumb,
        af_contentType = ctype, af_content = content, af_sizeBytes = length content, af_updatedAt = now\<rparr>"
    have "?rows = assetFiles d @ [?new]"
      unfolding upsert_asset_def Let_def if_not_P [OF False] by simp
    then show ?thesis by (intro that [of ?new]) (simp_all add: asset_key_def)
  qed
  have "\<exists>rest. newest_assets fid ?rows = r # rest"
    unfolding newest_assets_def
  proof (rule select_desc_head)
    show "\<forall>q\<in>set ?rows. af_frameId q = fid \<and> q \<noteq> r \<longrightarrow>
        (af_updatedAt q, af_id q) < (af_updatedAt r, af_id r)"
      using old fresh r(5) by auto
  qed (use r in \<open>simp_all add: asset_key_def\<close>)
  then show ?thesis using r by auto
qed

text \<open>
  The asset cache.  Storing a file of at most \<open>maxAssetFileBytes\<close>, at a time later than every
  cached row, leaves the frame's cache within both caps and the file itself in it: an eviction never
  removes what was just stored.
\<close>

lemma storeFrameAssetFile_cached:
  assumes "keyed af_id (assetFiles d)" and "\<forall>r\<in>set (assetFiles d). af_id r < assetSeq d"
    and "keyed asset_key (assetFiles d)" and "\<forall>r\<in>set (assetFiles d). af_updatedAt r < now"
    and "length content \<le> maxAssetFileBytes"
  shows "snd (storeFrameAssetFile fid path thumb ctype content now d)
       \<and> asset_fits (newest_assets fid (assetFiles (fst (storeFrameAssetFile fid path thumb ctype content now d))))
       \<and> (\<exists>r\<in>set (assetFiles (fst (storeFrameAssetFile fid path thumb ctype content now d))).
            asset_key r = (fid, path, thumb) \<and> af_content r = content)"
proof -
  let ?d1 = "upsert_asset fid path thumb ctype content now d"
  have k: "keyed af_id (assetFiles ?d1)" using assms(1,2) by (rule keyed_upsert_asset)
  obtain r rest where r: "newest_assets fid (assetFiles ?d1) = r # rest"
      "asset_key r = (fid, path, thumb)" "af_content r = content" "af_sizeBytes r = length content"
    using upsert_asset_newest [OF assms(3,4)] by blast
  have "r \<in> set (prune_assets fid (assetFiles ?d1))"
    by (rule lru_head_kept [OF k r(1)]) (use r assms(5) in simp)
  then show ?thesis using asset_lru.bounded [OF k] r assms(5)
    by (auto simp: storeFrameAssetFile_def Let_def)
qed

section \<open>Device-reported paths\<close>

text \<open>
  Where a relative path leads from a directory: the stack of directory names, innermost first.
  \<open>None\<close> is a walk above the root.
\<close>

fun walk :: "string list \<Rightarrow> string list \<Rightarrow> string list option" where
  "walk dirs [] = Some dirs"
| "walk dirs (w # ws) =
     (if w = [] \<or> w = ''.'' then walk dirs ws
      else if w = ''..'' then (case dirs of [] \<Rightarrow> None | _ # up \<Rightarrow> walk up ws)
      else walk (w # dirs) ws)"

lemma walk_down: "''..'' \<notin> set ws \<Longrightarrow> \<exists>below. walk dirs ws = Some (below @ dirs)"
proof (induction ws arbitrary: dirs)
  case (Cons w ws)
  then obtain b where "walk (w # dirs) ws = Some (b @ w # dirs)" by fastforce
  then have "walk (w # dirs) ws = Some ((b @ [w]) @ dirs)" by simp
  with Cons show ?case by (simp del: append_assoc) blast
qed simp

lemma parse_asset_items_valid:
  "e \<in> set (parse_asset_items items) \<Longrightarrow> \<exists>kvs. asset_entry_of kvs = Some e"
  by (induction items rule: parse_asset_items.induct) (auto split: option.splits)

lemma asset_entry_of_json: "asset_entry_of kvs = Some e \<Longrightarrow>
   asset_entry_of (case asset_entry_json e of JObj o' \<Rightarrow> o') = Some e"
  by (auto simp: asset_entry_of_def asset_entry_json_def Let_def split: if_splits)

lemma parse_stored_items:
  "(\<forall>e\<in>set es. \<exists>kvs. asset_entry_of kvs = Some e) \<Longrightarrow> parse_asset_items (map asset_entry_json es) = es"
proof (induction es)
  case (Cons e es)
  then obtain kvs where "asset_entry_of kvs = Some e" by auto
  from asset_entry_of_json [OF this] Cons show ?case by (simp add: asset_entry_json_def)
qed simp

text \<open>
  What \<open>parseAssetEntries\<close> lets through, whatever the device sent, is safe to resolve: from any
  directory the path of an entry leads to that directory or below it, it is not absolute and no
  longer than \<open>maxAssetPathChars\<close>; and parsing is stable: the stored listing parses to itself.
\<close>

lemma parseAssetEntries_contained:
  "(\<forall>e\<in>set (parseAssetEntries v). \<exists>below. walk dirs (js_split (CHR ''/'') (e_path e)) = Some (below @ dirs))
   \<and> (\<forall>e\<in>set (parseAssetEntries v). hd (e_path e) \<noteq> CHR ''/'' \<and> length (e_path e) \<le> maxAssetPathChars)
   \<and> parseAssetEntries (Some (JArr (map asset_entry_json (parseAssetEntries v)))) = parseAssetEntries v"
proof -
  have valid: "\<exists>kvs. asset_entry_of kvs = Some e" if "e \<in> set (parseAssetEntries v)" for e
    using that parse_asset_items_valid by (cases v rule: parseAssetEntries.cases) auto
  have "hd (e_path e) \<noteq> CHR ''/'' \<and> length (e_path e) \<le> maxAssetPathChars
      \<and> (\<exists>below. walk dirs (js_split (CHR ''/'') (e_path e)) = Some (below @ dirs))"
    if e: "e \<in> set (parseAssetEntries v)" for e
  proof -
    obtain kvs where "asset_entry_of kvs = Some e" using valid [OF e] by blast
    then have p: "e_path e \<noteq> []" "length (e_path e) \<le> maxAssetPathChars" "\<not> js_starts_with ''/'' (e_path e)"
      "''..'' \<notin> set (js_split (CHR ''/'') (e_path e))"
      by (auto simp: asset_entry_of_def Let_def split: if_splits)
    from p(1,3) have "hd (e_path e) \<noteq> CHR ''/''" by (cases "e_path e") (auto simp: js_starts_with_def)
    with p(2) walk_down [OF p(4)] show ?thesis by blast
  qed
  then show ?thesis using valid parse_stored_items [of "parseAssetEntries v"] by simp
qed

end
