(* ===== verification/Commands.thy ===== *)
theory Commands imports Protocol begin

text \<open>
  The durable command queue of a frame: the operations of the web application
  (\<open>enqueueFrameCommand\<close>, \<open>supersedePendingCommands\<close>, \<open>revokeFrame\<close> of \<open>frames.ts\<close>) and of the hub
  (\<open>expireStaleCommands\<close>, \<open>redeliverSentCommands\<close>, \<open>drainCommands\<close>, the acknowledgement of
  \<open>handleAck\<close> and \<open>isFrameRevoked\<close> of \<open>hub.ts\<close>).  The locale \<open>queue_operation\<close> is the contract
  they share: rows are appended pending, keep what identifies them, and never leave a terminal
  status.
\<close>

section \<open>Lookups\<close>

text \<open>
  A \<open>uuid\<close> column compares regardless of case, and its values are lower case.  (Postgres rejects some
  of the strings \<open>isFrameId\<close> lets through, with an error; here they are equal to no id.)
\<close>

definition isFrameId :: "string \<Rightarrow> bool" where
  "isFrameId v \<longleftrightarrow> is_frame_id_text v"

definition frameForAccount :: "uuid \<Rightarrow> string \<Rightarrow> db \<Rightarrow> frame option" where
  "frameForAccount acc fid d =
     (if \<not> isFrameId fid then None
      else select_one (\<lambda>f. f_id f = js_lower fid \<and> f_accountId f = acc) (frames d))"

definition frameForLinkedClient :: "uuid \<Rightarrow> db \<Rightarrow> frame option" where
  "frameForLinkedClient lid d = select_one (\<lambda>f. f_linkedClientId f = lid) (frames d)"

definition isFrameRevoked :: "uuid \<Rightarrow> db \<Rightarrow> bool" where
  "isFrameRevoked fid d =
     (case select_one (\<lambda>(f, l). f_id f = fid \<and> l_id l = f_linkedClientId f)
             (List.product (frames d) (linkedClients d)) of
        None \<Rightarrow> True
      | Some (f, l) \<Rightarrow> f_status f = FrameRevoked \<or> l_revokedAt l \<noteq> None)"

section \<open>Operations\<close>

definition outstanding :: "cmd_status \<Rightarrow> bool" where
  "outstanding s \<longleftrightarrow> s = CmdPending \<or> s = CmdSent"

lemma outstanding_simps [simp]:
  "outstanding CmdPending" "outstanding CmdSent" "\<not> outstanding CmdAcked" "\<not> outstanding CmdFailed"
  "\<not> outstanding CmdExpired"
  by (simp_all add: outstanding_def)

definition new_command ::
  "uuid \<Rightarrow> uuid \<Rightarrow> string \<Rightarrow> json option \<Rightarrow> uuid option \<Rightarrow> int option \<Rightarrow> time \<Rightarrow> command" where
  "new_command cid fid ctype payload createdBy ttlMs now =
     \<lparr>c_id = cid, c_frameId = fid, c_type = ctype,
      c_payload = (case payload of None \<Rightarrow> JNull | Some p \<Rightarrow> p), c_status = CmdPending, c_error = None,
      c_createdByAccountId = createdBy,
      c_expiresAt = (case ttlMs of None \<Rightarrow> None | Some t \<Rightarrow> if t = 0 then None else Some (now + t)),
      c_sentAt = None, c_ackedAt = None, c_createdAt = now\<rparr>"

definition enqueueFrameCommand ::
  "uuid \<Rightarrow> uuid \<Rightarrow> string \<Rightarrow> json option \<Rightarrow> uuid option \<Rightarrow> int option \<Rightarrow> time \<Rightarrow> db \<Rightarrow> db \<times> command" where
  "enqueueFrameCommand cid fid ctype payload createdBy ttlMs now d =
     (let c = new_command cid fid ctype payload createdBy ttlMs now
      in (d\<lparr>commands := commands d @ [c], notified := notified d @ [fid]\<rparr>, c))"

definition supersedePendingCommands :: "uuid \<Rightarrow> string \<Rightarrow> db \<Rightarrow> db" where
  "supersedePendingCommands fid ctype d =
     d\<lparr>commands := update_where
         (\<lambda>c. c_frameId c = fid \<and> c_type c = ctype \<and> outstanding (c_status c))
         (\<lambda>c. c\<lparr>c_error := Some ''superseded'', c_status := CmdExpired\<rparr>) (commands d)\<rparr>"

definition expireStaleCommands :: "time \<Rightarrow> uuid option \<Rightarrow> db \<Rightarrow> db" where
  "expireStaleCommands now fid d =
     d\<lparr>commands := update_where
         (\<lambda>c. outstanding (c_status c) \<and> (case c_expiresAt c of None \<Rightarrow> False | Some e \<Rightarrow> e < now)
              \<and> (case fid of None \<Rightarrow> True | Some f \<Rightarrow> f = [] \<or> c_frameId c = f))
         (\<lambda>c. c\<lparr>c_status := CmdExpired\<rparr>) (commands d)\<rparr>"

definition written_before :: "time \<Rightarrow> command \<Rightarrow> bool" where
  "written_before cutoff c \<longleftrightarrow>
     c_status c = CmdSent \<and> (case c_sentAt c of None \<Rightarrow> False | Some t \<Rightarrow> t < cutoff)"

definition newer_waiting :: "command list \<Rightarrow> command \<Rightarrow> bool" where
  "newer_waiting rows c \<longleftrightarrow> (\<exists>n\<in>set rows. c_frameId n = c_frameId c \<and> c_type n = c_type c
     \<and> outstanding (c_status n) \<and> (c_createdAt c, c_id c) < (c_createdAt n, c_id n))"

definition drop_superseded :: "uuid \<Rightarrow> time \<Rightarrow> command list \<Rightarrow> command list" where
  "drop_superseded fid cutoff rows =
     update_where (\<lambda>c. c_frameId c = fid \<and> written_before cutoff c \<and> newer_waiting rows c)
       (\<lambda>c. c\<lparr>c_error := Some ''superseded'', c_status := CmdExpired\<rparr>) rows"

definition redeliverSentCommands :: "uuid \<Rightarrow> time \<Rightarrow> db \<Rightarrow> db \<times> nat" where
  "redeliverSentCommands fid cutoff d =
     (let rows = drop_superseded fid cutoff (commands d);
          lost = (\<lambda>c. c_frameId c = fid \<and> written_before cutoff c)
      in (d\<lparr>commands := update_where lost (\<lambda>c. c\<lparr>c_sentAt := None, c_status := CmdPending\<rparr>) rows\<rparr>,
          length (filter lost rows)))"

definition ack_command :: "string \<Rightarrow> uuid \<Rightarrow> bool \<Rightarrow> json option \<Rightarrow> time \<Rightarrow> db \<Rightarrow> db" where
  "ack_command cid fid ok error now d =
     d\<lparr>commands := update_where
         (\<lambda>c. c_id c = cid \<and> c_frameId c = fid \<and> outstanding (c_status c))
         (\<lambda>c. c\<lparr>c_ackedAt := Some now,
                c_error := (if ok then None
                            else case error of Some (JStr e) \<Rightarrow> Some (take 512 e) | _ \<Rightarrow> Some ''error''),
                c_status := (if ok then CmdAcked else CmdFailed)\<rparr>) (commands d)\<rparr>"

definition mark_sent :: "string \<Rightarrow> time \<Rightarrow> db \<Rightarrow> db" where
  "mark_sent cid now d =
     d\<lparr>commands := update_where (\<lambda>c. c_id c = cid \<and> c_status c = CmdPending)
         (\<lambda>c. c\<lparr>c_sentAt := Some now, c_status := CmdSent\<rparr>) (commands d)\<rparr>"

definition revokeFrame :: "uuid \<Rightarrow> uuid \<Rightarrow> time \<Rightarrow> db \<Rightarrow> db" where
  "revokeFrame fid lid now d =
     d\<lparr>linkedClients := update_where (\<lambda>l. l_id l = lid \<and> l_revokedAt l = None)
         (\<lambda>l. l\<lparr>l_revokedAt := Some now, l_updatedAt := now\<rparr>) (linkedClients d),
       frames := update_where (\<lambda>f. f_id f = fid)
         (\<lambda>f. f\<lparr>f_connected := False, f_status := FrameRevoked, f_updatedAt := now\<rparr>) (frames d),
       commands := update_where (\<lambda>c. c_frameId c = fid \<and> outstanding (c_status c))
         (\<lambda>c. c\<lparr>c_error := Some ''frame_revoked'', c_status := CmdExpired\<rparr>) (commands d),
       notified := notified d @ [fid]\<rparr>"

section \<open>Draining\<close>

text \<open>
  One pass of \<open>drainCommands\<close> over the rows it selected.  \<open>sock i\<close> is what the code observes before
  sending the \<open>i\<close>-th command: whether the socket is open, and how much it has buffered.
\<close>

definition maxBufferedBytes :: int where "maxBufferedBytes = 4 * 1024 * 1024"

type_synonym sock_view = "nat \<Rightarrow> bool \<times> int"

definition command_text :: "command \<Rightarrow> string" where
  "command_text c = json_text (commandMessage (c_id c) (c_type c) (c_payload c))"

fun drain_rows :: "sock_view \<Rightarrow> time \<Rightarrow> nat \<Rightarrow> command list \<Rightarrow> db \<Rightarrow> db \<times> string list" where
  "drain_rows sock now i [] d = (d, [])"
| "drain_rows sock now i (c # cs) d =
     (if \<not> fst (sock i) then (d, [])
      else if snd (sock i) > maxBufferedBytes then (d, [])
      else let (d', out) = drain_rows sock now (i + 1) cs (mark_sent (c_id c) now d)
           in (d', command_text c # out))"

definition pending_commands :: "uuid \<Rightarrow> db \<Rightarrow> command list" where
  "pending_commands fid d =
     select_asc (\<lambda>c. (c_createdAt c, c_id c)) (\<lambda>c. c_frameId c = fid \<and> c_status c = CmdPending)
       (commands d)"

definition drain_pass :: "sock_view \<Rightarrow> uuid \<Rightarrow> time \<Rightarrow> db \<Rightarrow> db \<times> string list" where
  "drain_pass sock fid now d =
     (let d' = expireStaleCommands now (Some fid) d
      in drain_rows sock now 0 (pending_commands fid d') d')"

section \<open>The contract of a queue operation\<close>

definition terminal :: "cmd_status \<Rightarrow> bool" where
  "terminal s \<longleftrightarrow> s = CmdAcked \<or> s = CmdFailed \<or> s = CmdExpired"

lemma terminal_outstanding: "terminal s = (\<not> outstanding s)"
  by (cases s) (simp_all add: terminal_def outstanding_def)

definition cmd_moves :: "command \<Rightarrow> command \<Rightarrow> bool" where
  "cmd_moves c c' \<longleftrightarrow> c_id c' = c_id c \<and> c_frameId c' = c_frameId c \<and> c_type c' = c_type c
     \<and> c_payload c' = c_payload c \<and> c_createdAt c' = c_createdAt c \<and> c_expiresAt c' = c_expiresAt c
     \<and> (terminal (c_status c) \<longrightarrow> c' = c)"

definition queue_evolves :: "command list \<Rightarrow> command list \<Rightarrow> bool" where
  "queue_evolves cs cs' \<longleftrightarrow> (\<exists>old new. cs' = old @ new \<and> list_all2 cmd_moves cs old
     \<and> (\<forall>c\<in>set new. c_status c = CmdPending))"

lemma cmd_moves_refl [simp, intro]: "cmd_moves c c"
  by (simp add: cmd_moves_def)

lemma cmd_moves_trans: "cmd_moves a b \<Longrightarrow> cmd_moves b c \<Longrightarrow> cmd_moves a c"
  by (auto simp: cmd_moves_def)

lemma list_all2_moves_update:
  "list_all2 cmd_moves cs cs' \<Longrightarrow> (\<And>c. c \<in> set cs' \<Longrightarrow> P c \<Longrightarrow> cmd_moves c (f c)) \<Longrightarrow>
   list_all2 cmd_moves cs (update_where P f cs')"
  unfolding update_where_def list_all2_conv_all_nth by simp (metis cmd_moves_trans nth_mem)

lemma queue_evolves_rows: "list_all2 cmd_moves cs cs' \<Longrightarrow> queue_evolves cs cs'"
  unfolding queue_evolves_def by (intro exI [of _ cs'] exI [of _ "[]"]) simp

lemma list_all2_moves_refl: "list_all2 cmd_moves cs cs"
  by (simp add: list_all2_same)

lemma queue_evolves_update:
  "(\<And>c. P c \<Longrightarrow> cmd_moves c (f c)) \<Longrightarrow> queue_evolves cs (update_where P f cs)"
  by (intro queue_evolves_rows list_all2_moves_update list_all2_moves_refl)

lemma queue_evolves_append: "c_status c = CmdPending \<Longrightarrow> queue_evolves cs (cs @ [c])"
  unfolding queue_evolves_def by (intro exI [of _ cs] exI [of _ "[c]"]) (simp add: list_all2_moves_refl)

lemma list_all2_kept: "list_all2 R cs old \<Longrightarrow> c \<in> set cs \<Longrightarrow> \<exists>c'\<in>set old. R c c'"
  by (induction rule: list_all2_induct) auto

lemma list_all2_origin: "list_all2 R cs old \<Longrightarrow> c' \<in> set old \<Longrightarrow> \<exists>c\<in>set cs. R c c'"
  by (induction rule: list_all2_induct) auto

lemma queue_evolves_kept: "queue_evolves cs cs' \<Longrightarrow> c \<in> set cs \<Longrightarrow> \<exists>c'\<in>set cs'. cmd_moves c c'"
  unfolding queue_evolves_def by (metis UnI1 list_all2_kept set_append)

lemma queue_evolves_origin:
  "queue_evolves cs cs' \<Longrightarrow> c' \<in> set cs' \<Longrightarrow> c_status c' = CmdPending \<or> (\<exists>c\<in>set cs. cmd_moves c c')"
  unfolding queue_evolves_def by (metis Un_iff list_all2_origin set_append)

locale queue_operation =
  fixes operation :: "db \<Rightarrow> db"
  assumes evolves: "queue_evolves (commands d) (commands (operation d))"
begin

lemma terminal_kept: "c \<in> set (commands d) \<Longrightarrow> terminal (c_status c) \<Longrightarrow> c \<in> set (commands (operation d))"
  using queue_evolves_kept [OF evolves] by (fastforce simp: cmd_moves_def)

lemma row_kept: "c \<in> set (commands d) \<Longrightarrow> \<exists>c'\<in>set (commands (operation d)). cmd_moves c c'"
  using queue_evolves_kept [OF evolves] .

end

lemmas queue_defs = enqueueFrameCommand_def supersedePendingCommands_def expireStaleCommands_def
  redeliverSentCommands_def drop_superseded_def ack_command_def mark_sent_def revokeFrame_def

lemmas moves_defs = cmd_moves_def terminal_outstanding written_before_def outstanding_def

interpretation enqueue_op: queue_operation "\<lambda>d. fst (enqueueFrameCommand cid fid ctype p acc ttl now d)"
  for cid fid ctype p acc ttl now
  by unfold_locales (simp add: enqueueFrameCommand_def Let_def queue_evolves_append new_command_def)

interpretation supersede_op: queue_operation "supersedePendingCommands fid ctype" for fid ctype
  by unfold_locales (auto simp: supersedePendingCommands_def moves_defs intro: queue_evolves_update)

interpretation expire_op: queue_operation "expireStaleCommands now fid" for now fid
  by unfold_locales (auto simp: expireStaleCommands_def moves_defs intro: queue_evolves_update)

interpretation ack_op: queue_operation "ack_command cid fid ok err now" for cid fid ok err now
  by unfold_locales (auto simp: ack_command_def moves_defs intro: queue_evolves_update)

interpretation sent_op: queue_operation "mark_sent cid now" for cid now
  by unfold_locales (auto simp: mark_sent_def moves_defs intro: queue_evolves_update)

interpretation revoke_op: queue_operation "revokeFrame fid lid now" for fid lid now
  by unfold_locales (auto simp: revokeFrame_def moves_defs intro: queue_evolves_update)

interpretation redeliver_op: queue_operation "\<lambda>d. fst (redeliverSentCommands fid cutoff d)" for fid cutoff
proof (unfold_locales, goal_cases)
  case (1 d)
  show ?case
    unfolding redeliverSentCommands_def Let_def drop_superseded_def
    by (auto simp: moves_defs intro!: queue_evolves_rows list_all2_moves_update list_all2_moves_refl)
qed

lemma drain_rows_moves: "list_all2 cmd_moves (commands d) (commands (fst (drain_rows sock now i cs d)))"
proof (induction sock now i cs d rule: drain_rows.induct)
  case (2 sock now i c cs d)
  have "list_all2 cmd_moves (commands d) (commands (mark_sent (c_id c) now d))"
    by (auto simp: mark_sent_def moves_defs intro!: list_all2_moves_update list_all2_moves_refl)
  with 2 show ?case
    by (auto simp: Let_def list_all2_moves_refl split: prod.split intro: list_all2_trans [OF cmd_moves_trans])
qed (simp add: list_all2_moves_refl)

interpretation drain_op: queue_operation "\<lambda>d. fst (drain_pass sock fid now d)" for sock fid now
proof (unfold_locales, goal_cases)
  case (1 d)
  have "list_all2 cmd_moves (commands d) (commands (expireStaleCommands now (Some fid) d))"
    by (auto simp: expireStaleCommands_def moves_defs intro!: list_all2_moves_update list_all2_moves_refl)
  from list_all2_trans [OF cmd_moves_trans this drain_rows_moves] show ?case
    by (simp add: drain_pass_def Let_def queue_evolves_rows)
qed

section \<open>The queue as a transition system\<close>

text \<open>One step of the control plane on the queue.\<close>

inductive queue_step :: "db \<Rightarrow> db \<Rightarrow> bool" where
  enqueue: "queue_step d (fst (enqueueFrameCommand cid fid ctype p acc ttl now d))"
| supersede: "queue_step d (supersedePendingCommands fid ctype d)"
| expire: "queue_step d (expireStaleCommands now fid' d)"
| redeliver: "queue_step d (fst (redeliverSentCommands fid cutoff d))"
| acked: "queue_step d (ack_command cid fid ok err now d)"
| sent: "queue_step d (mark_sent cid now d)"
| drained: "queue_step d (fst (drain_pass sock fid now d))"
| revoked: "queue_step d (revokeFrame fid lid now d)"

lemma queue_step_evolves: "queue_step d d' \<Longrightarrow> queue_evolves (commands d) (commands d')"
  by (induction rule: queue_step.induct)
    (rule enqueue_op.evolves supersede_op.evolves expire_op.evolves redeliver_op.evolves ack_op.evolves
      sent_op.evolves drain_op.evolves revoke_op.evolves)+

lemma command_rows_stable_aux:
  assumes "queue_step\<^sup>*\<^sup>* d d'" and "c \<in> set (commands d)"
  shows "\<exists>c'\<in>set (commands d'). cmd_moves c c'"
  using assms
proof (induction rule: rtranclp_induct)
  case (step e e')
  then show ?case using queue_evolves_kept [OF queue_step_evolves] cmd_moves_trans by meson
qed blast

text \<open>
  C4.  The status machine of a command.  Along any run of queue operations of the web application and
  the hub, in any order and for any frames, a command row is never lost and never changes the id,
  frame, type, payload, creation or expiry it was queued with; and once it is acknowledged, failed or
  expired it stays exactly as it is, so no late acknowledgement, redelivery or drain revives it.
\<close>

theorem command_rows_stable:
  assumes "queue_step\<^sup>*\<^sup>* d d'" and "c \<in> set (commands d)"
  shows "\<exists>c'\<in>set (commands d'). c_id c' = c_id c \<and> c_frameId c' = c_frameId c \<and> c_type c' = c_type c
       \<and> c_payload c' = c_payload c \<and> c_createdAt c' = c_createdAt c \<and> c_expiresAt c' = c_expiresAt c
       \<and> (terminal (c_status c) \<longrightarrow> c' = c)"
  using command_rows_stable_aux [OF assms] by (auto simp: cmd_moves_def)

definition sample_command :: command where
  "sample_command = new_command ''c'' ''f'' ''render'' None None None 1"

theorem command_rows_stable_witness:
  "\<exists>c'\<in>set (commands (fst (redeliverSentCommands ''f'' 9 (ack_command ''c'' ''f'' True None 4
       (empty_db\<lparr>commands := [sample_command]\<rparr>))))). c_id c' = ''c'' \<and> c_type c' = ''render''"
proof -
  let ?d = "empty_db\<lparr>commands := [sample_command]\<rparr>"
  have "queue_step\<^sup>*\<^sup>* ?d (fst (redeliverSentCommands ''f'' 9 (ack_command ''c'' ''f'' True None 4 ?d)))"
    by (meson acked redeliver r_into_rtranclp rtranclp.rtrancl_into_rtrancl)
  from command_rows_stable [OF this, of sample_command]
  show ?thesis by (simp add: sample_command_def new_command_def) blast
qed

section \<open>Superseding, redelivering, draining, revoking\<close>

lemma commands_supersede:
  "commands (supersedePendingCommands fid ctype d) =
     update_where (\<lambda>c. c_frameId c = fid \<and> c_type c = ctype \<and> outstanding (c_status c))
       (\<lambda>c. c\<lparr>c_error := Some ''superseded'', c_status := CmdExpired\<rparr>) (commands d)"
  by (simp add: supersedePendingCommands_def)

lemma supersede_terminal:
  "c \<in> set (commands d) \<Longrightarrow> c_frameId c = fid \<Longrightarrow> c_type c = ctype \<Longrightarrow>
   \<exists>c'\<in>set (commands (supersedePendingCommands fid ctype d)). c_id c' = c_id c \<and> terminal (c_status c')"
proof -
  let ?P = "\<lambda>c. c_frameId c = fid \<and> c_type c = ctype \<and> outstanding (c_status c)"
  let ?f = "\<lambda>c. c\<lparr>c_error := Some ''superseded'', c_status := CmdExpired\<rparr>"
  assume c: "c \<in> set (commands d)" "c_frameId c = fid" "c_type c = ctype"
  have "(if ?P c then ?f c else c) \<in> set (commands (supersedePendingCommands fid ctype d))"
    using c(1) by (simp add: supersedePendingCommands_def set_update_where)
  moreover have "c_id (if ?P c then ?f c else c) = c_id c \<and> terminal (c_status (if ?P c then ?f c else c))"
    using c(2,3) by (simp add: terminal_outstanding)
  ultimately show ?thesis by blast
qed

text \<open>
  A newer push replaces the older ones for good.  After superseding and enqueuing a command, the
  new row is the only outstanding one of its type for the frame; every earlier row of that type stays
  terminal in whatever the web application and the hub do afterwards; and superseding touches no
  other frame and no other type.
\<close>

lemma supersede_enqueue_replaces:
  assumes "queue_step\<^sup>*\<^sup>* (fst (enqueueFrameCommand cid fid ctype p acc ttl now (supersedePendingCommands fid ctype d))) d'"
  shows "filter (\<lambda>c. c_frameId c = fid \<and> c_type c = ctype \<and> outstanding (c_status c))
           (commands (fst (enqueueFrameCommand cid fid ctype p acc ttl now (supersedePendingCommands fid ctype d))))
         = [new_command cid fid ctype p acc ttl now]
       \<and> (\<forall>c\<in>set (commands d). c_frameId c = fid \<and> c_type c = ctype \<longrightarrow>
            (\<exists>c'\<in>set (commands d'). c_id c' = c_id c \<and> terminal (c_status c')))
       \<and> filter (\<lambda>c. \<not> (c_frameId c = fid \<and> c_type c = ctype)) (commands (supersedePendingCommands fid ctype d))
         = filter (\<lambda>c. \<not> (c_frameId c = fid \<and> c_type c = ctype)) (commands d)"
proof (intro conjI ballI impI)
  let ?q = "\<lambda>c. c_frameId c = fid \<and> c_type c = ctype \<and> outstanding (c_status c)"
  have "\<forall>c\<in>set (commands (supersedePendingCommands fid ctype d)). \<not> ?q c"
    unfolding commands_supersede by (rule update_where_all) simp_all
  then have "filter ?q (commands (supersedePendingCommands fid ctype d)) = []"
    by (simp add: filter_empty_conv)
  then show "filter ?q (commands (fst (enqueueFrameCommand cid fid ctype p acc ttl now
      (supersedePendingCommands fid ctype d)))) = [new_command cid fid ctype p acc ttl now]"
    by (simp add: enqueueFrameCommand_def Let_def new_command_def outstanding_def)
next
  fix c assume "c \<in> set (commands d)" "c_frameId c = fid \<and> c_type c = ctype"
  then obtain c' where c': "c' \<in> set (commands (supersedePendingCommands fid ctype d))"
      "c_id c' = c_id c" "terminal (c_status c')"
    using supersede_terminal by blast
  then have "c' \<in> set (commands (fst (enqueueFrameCommand cid fid ctype p acc ttl now
      (supersedePendingCommands fid ctype d))))"
    using enqueue_op.terminal_kept by blast
  from command_rows_stable_aux [OF assms this] c'
  show "\<exists>c'\<in>set (commands d'). c_id c' = c_id c \<and> terminal (c_status c')"
    by (auto simp: cmd_moves_def)
next
  show "filter (\<lambda>c. \<not> (c_frameId c = fid \<and> c_type c = ctype)) (commands (supersedePendingCommands fid ctype d))
      = filter (\<lambda>c. \<not> (c_frameId c = fid \<and> c_type c = ctype)) (commands d)"
    by (simp add: supersedePendingCommands_def) (rule filter_update_where_other, auto)
qed

lemma outstanding_written: "written_before t c \<Longrightarrow> outstanding (c_status c)"
  by (simp add: written_before_def outstanding_def)

lemma redeliver_rows:
  "commands (fst (redeliverSentCommands fid cutoff d)) =
     map (\<lambda>c. if c_frameId c = fid \<and> written_before cutoff c
              then if newer_waiting (commands d) c
                   then c\<lparr>c_error := Some ''superseded'', c_status := CmdExpired\<rparr>
                   else c\<lparr>c_sentAt := None, c_status := CmdPending\<rparr>
              else c) (commands d)"
  by (auto simp: redeliverSentCommands_def drop_superseded_def update_where_def Let_def written_before_def)

lemma redeliver_origin:
  assumes "r \<in> set (commands (fst (redeliverSentCommands fid cutoff d)))"
  shows "\<exists>c\<in>set (commands d). c_id r = c_id c \<and> c_createdAt r = c_createdAt c \<and> c_frameId r = c_frameId c
     \<and> c_type r = c_type c \<and> (outstanding (c_status r) \<longrightarrow> outstanding (c_status c)
        \<and> (c_frameId c = fid \<and> written_before cutoff c \<longrightarrow> \<not> newer_waiting (commands d) c))"
proof -
  from assms obtain c where c: "c \<in> set (commands d)"
    and r: "r = (if c_frameId c = fid \<and> written_before cutoff c
              then if newer_waiting (commands d) c
                   then c\<lparr>c_error := Some ''superseded'', c_status := CmdExpired\<rparr>
                   else c\<lparr>c_sentAt := None, c_status := CmdPending\<rparr>
              else c)"
    unfolding redeliver_rows by auto
  have "\<not> outstanding CmdExpired" by (simp add: outstanding_def)
  with r show ?thesis using outstanding_written [of cutoff c] by (intro bexI [OF _ c]) simp
qed

text \<open>
  Redelivery.  Nothing of the frame that was written before the cut-off stays merely sent; a row
  that goes back to pending is the newest outstanding one of its type, so a superseded payload is
  never pushed after its successor; and rows that were not written before the cut-off are untouched.
\<close>

lemma redeliver_newest_of_type:
  assumes "keyed c_id (commands d)"
  shows "(\<forall>c\<in>set (commands (fst (redeliverSentCommands fid cutoff d))).
            c_frameId c = fid \<longrightarrow> \<not> written_before cutoff c)
       \<and> (\<forall>c\<in>set (commands d). c_frameId c = fid \<and> written_before cutoff c \<longrightarrow>
            (\<forall>a\<in>set (commands (fst (redeliverSentCommands fid cutoff d))).
              c_id a = c_id c \<and> c_status a = CmdPending \<longrightarrow>
              (\<forall>b\<in>set (commands (fst (redeliverSentCommands fid cutoff d))).
                c_frameId b = fid \<and> c_type b = c_type a \<and> outstanding (c_status b) \<longrightarrow>
                (c_createdAt b, c_id b) \<le> (c_createdAt a, c_id a))))
       \<and> (\<forall>c\<in>set (commands d). \<not> (c_frameId c = fid \<and> written_before cutoff c) \<longrightarrow>
            c \<in> set (commands (fst (redeliverSentCommands fid cutoff d))))"
proof (intro conjI ballI impI)
  fix c assume "c \<in> set (commands (fst (redeliverSentCommands fid cutoff d)))" "c_frameId c = fid"
  moreover have "\<forall>c\<in>set (commands (fst (redeliverSentCommands fid cutoff d))).
      c_frameId c = fid \<longrightarrow> \<not> written_before cutoff c"
    unfolding redeliver_rows by (rule map_if_all) (simp add: written_before_def)
  ultimately show "\<not> written_before cutoff c" by blast
next
  fix c a b
  assume c: "c \<in> set (commands d)" "c_frameId c = fid \<and> written_before cutoff c"
    and a: "a \<in> set (commands (fst (redeliverSentCommands fid cutoff d)))"
      "c_id a = c_id c \<and> c_status a = CmdPending"
    and b: "b \<in> set (commands (fst (redeliverSentCommands fid cutoff d)))"
      "c_frameId b = fid \<and> c_type b = c_type a \<and> outstanding (c_status b)"
  obtain b0 where b0: "b0 \<in> set (commands d)" "c_id b = c_id b0" "c_createdAt b = c_createdAt b0"
      "c_frameId b = c_frameId b0" "c_type b = c_type b0" "outstanding (c_status b0)"
    using redeliver_origin [OF b(1)] b(2) by metis
  obtain a0 where a0: "a0 \<in> set (commands d)" "c_id a = c_id a0" "c_createdAt a = c_createdAt a0"
      "c_type a = c_type a0"
      "c_frameId a0 = fid \<and> written_before cutoff a0 \<longrightarrow> \<not> newer_waiting (commands d) a0"
    using redeliver_origin [OF a(1)] a(2) by (metis outstanding_def)
  have "a0 = c" using keyed_eq [OF assms a0(1) c(1)] a0(2) a(2) by simp
  then have "\<not> newer_waiting (commands d) a0" using a0(5) c(2) by simp
  then have "\<not> (c_createdAt a0, c_id a0) < (c_createdAt b0, c_id b0)"
    using b0 a0 b(2) c(2) \<open>a0 = c\<close> by (auto simp: newer_waiting_def)
  then have "(c_createdAt b0, c_id b0) \<le> (c_createdAt a0, c_id a0)" by (simp only: not_less)
  then show "(c_createdAt b, c_id b) \<le> (c_createdAt a, c_id a)" by (simp only: b0 a0)
next
  fix c assume "c \<in> set (commands d)" "\<not> (c_frameId c = fid \<and> written_before cutoff c)"
  then show "c \<in> set (commands (fst (redeliverSentCommands fid cutoff d)))"
    unfolding redeliver_rows by (auto simp: image_iff intro!: bexI [of _ c])
qed

definition sent_command :: "string \<Rightarrow> time \<Rightarrow> command" where
  "sent_command cid t = (new_command cid ''f'' ''render'' None None None t)\<lparr>c_status := CmdSent, c_sentAt := Some t\<rparr>"

definition reads :: "bool \<times> int \<Rightarrow> bool" where
  "reads v \<longleftrightarrow> fst v \<and> snd v \<le> maxBufferedBytes"

definition as_sent :: "time \<Rightarrow> command \<Rightarrow> command" where
  "as_sent now c = c\<lparr>c_sentAt := Some now, c_status := CmdSent\<rparr>"

lemma mark_sent_row:
  assumes "keyed c_id (commands d)" "c \<in> set (commands d)" "c_status c = CmdPending"
  shows "commands (mark_sent (c_id c) now d) = update_where (\<lambda>r. c_id r = c_id c) (as_sent now) (commands d)"
proof -
  have "r = c" if "r \<in> set (commands d)" "c_id r = c_id c" for r
    using keyed_eq [OF assms(1) that(1) assms(2) that(2)] .
  then have "(c_id r = c_id c \<and> c_status r = CmdPending) = (c_id r = c_id c)" if "r \<in> set (commands d)" for r
    using that assms(3) by metis
  then show ?thesis by (simp add: mark_sent_def) (rule update_where_cong, simp_all add: as_sent_def)
qed

interpretation as_sent: keyed_update c_id "as_sent now" for now
  by unfold_locales (simp add: as_sent_def)

lemma as_sent_twice:
  "update_where (\<lambda>r. c_id r \<in> S) (as_sent now) (update_where (\<lambda>r. c_id r = i) (as_sent now) rows)
   = update_where (\<lambda>r. c_id r \<in> insert i S) (as_sent now) rows"
  by (simp add: update_where_def as_sent_def)

lemma drain_rows_prefix:
  "keyed c_id (commands d) \<Longrightarrow> distinct (map c_id cs) \<Longrightarrow>
   (\<forall>c\<in>set cs. c \<in> set (commands d) \<and> c_status c = CmdPending) \<Longrightarrow>
   \<exists>k\<le>length cs. snd (drain_rows sock now i cs d) = map command_text (take k cs)
     \<and> commands (fst (drain_rows sock now i cs d))
         = update_where (\<lambda>r. c_id r \<in> c_id ` set (take k cs)) (as_sent now) (commands d)
     \<and> (\<forall>j<k. reads (sock (i + j))) \<and> (k < length cs \<longrightarrow> \<not> reads (sock (i + k)))"
proof (induction sock now i cs d rule: drain_rows.induct)
  case (1 sock now i d)
  then show ?case by (simp add: update_where_def)
next
  case (2 sock now i c cs d)
  let ?d = "mark_sent (c_id c) now d"
  have rows: "commands ?d = update_where (\<lambda>r. c_id r = c_id c) (as_sent now) (commands d)"
    using 2(2,4) by (intro mark_sent_row) auto
  show ?case
  proof (cases "reads (sock i)")
    case False
    then have "drain_rows sock now i (c # cs) d = (d, [])" by (auto simp: reads_def)
    then show ?thesis using False by (intro exI [of _ 0]) (simp add: update_where_def)
  next
    case True
    have still: "\<forall>c'\<in>set cs. c' \<in> set (commands ?d) \<and> c_status c' = CmdPending"
    proof
      fix c' assume c': "c' \<in> set cs"
      then have "c_id c' \<noteq> c_id c" using 2(3) by (metis distinct.simps(2) image_eqI list.simps(9) set_map)
      then show "c' \<in> set (commands ?d) \<and> c_status c' = CmdPending"
        using 2(4) c' unfolding rows set_update_where by (auto intro!: image_eqI [of _ _ c'])
    qed
    have "keyed c_id (commands ?d)" unfolding rows by (rule as_sent.keyed_update_where [OF 2(2)])
    with 2(1) True 2(3) still obtain k where k: "k \<le> length cs"
      "snd (drain_rows sock now (i + 1) cs ?d) = map command_text (take k cs)"
      "commands (fst (drain_rows sock now (i + 1) cs ?d))
         = update_where (\<lambda>r. c_id r \<in> c_id ` set (take k cs)) (as_sent now) (commands ?d)"
      "\<forall>j<k. reads (sock (i + 1 + j))" "k < length cs \<longrightarrow> \<not> reads (sock (i + 1 + k))"
      by (auto simp: reads_def)
    have dr: "drain_rows sock now i (c # cs) d = (fst (drain_rows sock now (i + 1) cs ?d),
        command_text c # snd (drain_rows sock now (i + 1) cs ?d))"
      using True by (simp add: reads_def split: prod.split)
    have "\<forall>j<Suc k. reads (sock (i + j))" using True k(4) by (auto simp: less_Suc_eq_0_disj)
    then show ?thesis
      using k unfolding dr fst_conv snd_conv k(3) rows as_sent_twice
      by (intro exI [of _ "Suc k"]) simp
  qed
qed

lemma pending_commands_rows:
  assumes "keyed c_id (commands d)"
  shows "distinct (map c_id (pending_commands fid d))"
    and "set (pending_commands fid d) = {c \<in> set (commands d). c_frameId c = fid \<and> c_status c = CmdPending}"
    and "sorted (map (\<lambda>c. (c_createdAt c, c_id c)) (pending_commands fid d))"
proof -
  show "distinct (map c_id (pending_commands fid d))"
    using assms unfolding pending_commands_def keyed_def by (rule distinct_select_asc)
  show "set (pending_commands fid d) = {c \<in> set (commands d). c_frameId c = fid \<and> c_status c = CmdPending}"
    by (simp add: pending_commands_def)
  show "sorted (map (\<lambda>c. (c_createdAt c, c_id c)) (pending_commands fid d))"
    unfolding pending_commands_def by (rule sorted_select_asc)
qed

lemma commands_expire:
  "commands (expireStaleCommands now fid d) = update_where
     (\<lambda>c. outstanding (c_status c) \<and> (case c_expiresAt c of None \<Rightarrow> False | Some e \<Rightarrow> e < now)
          \<and> (case fid of None \<Rightarrow> True | Some f \<Rightarrow> f = [] \<or> c_frameId c = f))
     (\<lambda>c. c\<lparr>c_status := CmdExpired\<rparr>) (commands d)"
  by (simp add: expireStaleCommands_def)

lemma filter_pending_expired:
  "(\<And>c. P c \<Longrightarrow> c_status (f c) = CmdExpired) \<Longrightarrow>
   filter (\<lambda>c. c_frameId c = fid \<and> c_status c = CmdPending) (update_where P f rows)
   = filter (\<lambda>c. c_frameId c = fid \<and> c_status c = CmdPending \<and> \<not> P c) rows"
  by (induction rows) (auto simp: update_where_def)

lemma keyed_expire: "keyed c_id (commands d) \<Longrightarrow> keyed c_id (commands (expireStaleCommands now fid d))"
  by (simp add: expireStaleCommands_def keyed_def map_update_where)

text \<open>
  C38.  Draining.  One pass writes to the socket a prefix of the frame's live pending commands in the
  order they were created (ties by id), stops early only at a socket that is closed or not reading,
  marks sent exactly the rows it wrote and leaves the others pending; on a socket that keeps reading
  nothing of the frame stays pending.  No command past its expiry is written.
\<close>

theorem drain_pass_prefix:
  assumes "keyed c_id (commands d)"
  shows "\<exists>ps k. k \<le> length ps \<and> sorted (map (\<lambda>c. (c_createdAt c, c_id c)) ps) \<and> distinct ps
       \<and> set ps = {c \<in> set (commands d). c_frameId c = fid \<and> c_status c = CmdPending
             \<and> (case c_expiresAt c of None \<Rightarrow> True | Some e \<Rightarrow> now \<le> e)}
       \<and> snd (drain_pass sock fid now d) = map command_text (take k ps)
       \<and> (\<forall>c\<in>set (take k ps). as_sent now c \<in> set (commands (fst (drain_pass sock fid now d))))
       \<and> (\<forall>c\<in>set (drop k ps). c \<in> set (commands (fst (drain_pass sock fid now d))))
       \<and> (k < length ps \<longrightarrow> \<not> reads (sock k))
       \<and> ((\<forall>i. reads (sock i)) \<longrightarrow> pending_commands fid (fst (drain_pass sock fid now d)) = [])"
proof -
  let ?e = "expireStaleCommands now (Some fid) d" and ?f = "fst (drain_pass sock fid now d)"
  let ?ps = "pending_commands fid ?e"
  have ke: "keyed c_id (commands ?e)" by (rule keyed_expire [OF assms])
  note ps = pending_commands_rows [OF ke, of fid]
  from drain_rows_prefix [OF ke ps(1), of sock now 0] ps(2)
  obtain k where k: "k \<le> length ?ps" "snd (drain_pass sock fid now d) = map command_text (take k ?ps)"
      "commands ?f = update_where (\<lambda>r. c_id r \<in> c_id ` set (take k ?ps)) (as_sent now) (commands ?e)"
      "k < length ?ps \<longrightarrow> \<not> reads (sock k)"
    by (auto simp: drain_pass_def Let_def)
  have in_e: "c \<in> set (commands ?e)" if "c \<in> set ?ps" for c using that ps(2) by auto
  have live: "set ?ps = {c \<in> set (commands d). c_frameId c = fid \<and> c_status c = CmdPending
             \<and> (case c_expiresAt c of None \<Rightarrow> True | Some e \<Rightarrow> now \<le> e)}" (is "_ = ?L")
  proof -
    have "filter (\<lambda>c. c_frameId c = fid \<and> c_status c = CmdPending) (commands ?e)
        = filter (\<lambda>c. c_frameId c = fid \<and> c_status c = CmdPending \<and>
            \<not> (outstanding (c_status c) \<and> (case c_expiresAt c of None \<Rightarrow> False | Some e \<Rightarrow> e < now)
              \<and> (case Some fid of None \<Rightarrow> True | Some f \<Rightarrow> f = [] \<or> c_frameId c = f))) (commands d)"
      unfolding commands_expire by (rule filter_pending_expired) simp
    then have "set (filter (\<lambda>c. c_frameId c = fid \<and> c_status c = CmdPending) (commands ?e)) = ?L"
      by (auto split: option.splits)
    then show ?thesis using ps(2) by simp
  qed
  have dist: "distinct ?ps" using ps(1) by (simp add: distinct_map)
  have a: "as_sent now c \<in> set (commands ?f)" if c: "c \<in> set (take k ?ps)" for c
    unfolding k(3) set_update_where
    by (rule image_eqI [OF _ in_e [OF in_set_takeD [OF c]]]) (use c in simp)
  have disj: "c_id c \<notin> c_id ` set (take k ?ps)" if c: "c \<in> set (drop k ?ps)" for c
  proof -
    have "distinct (map c_id (take k ?ps) @ map c_id (drop k ?ps))"
      using ps(1) by (simp flip: map_append)
    then show ?thesis using c by auto
  qed
  have b: "c \<in> set (commands ?f)" if c: "c \<in> set (drop k ?ps)" for c
    unfolding k(3) set_update_where
    by (rule image_eqI [OF _ in_e [OF in_set_dropD [OF c]]]) (use disj [OF c] in simp)
  have all: "pending_commands fid ?f = []" if "\<forall>i. reads (sock i)"
  proof -
    have kk: "k = length ?ps" using that k(1,4) by (meson le_neq_implies_less)
    have "\<forall>c\<in>set (commands ?f). \<not> (c_frameId c = fid \<and> c_status c = CmdPending)"
      unfolding k(3) by (rule update_where_all) (auto simp: as_sent_def kk ps(2))
    then have "set (pending_commands fid ?f) = {}" by (auto simp: pending_commands_def)
    then show ?thesis by simp
  qed
  show ?thesis
    using k(1,2,4) ps(3) dist live a b all by (intro exI [of _ ?ps] exI [of _ k]) blast
qed

theorem drain_pass_prefix_witness:
  "pending_commands ''f'' (fst (drain_pass (\<lambda>i. (True, 0)) ''f'' 5 (empty_db\<lparr>commands := [sample_command]\<rparr>))) = []"
proof -
  have k: "keyed c_id (commands (empty_db\<lparr>commands := [sample_command]\<rparr>))" by (simp add: keyed_def)
  show ?thesis using drain_pass_prefix [OF k, of "''f''" 5 "\<lambda>i. (True, 0)"]
    by (auto simp: reads_def maxBufferedBytes_def)
qed

text \<open>
  Revocation.  After \<open>revokeFrame\<close> the hub sees the frame as revoked, its link token is revoked,
  it is shown offline, none of its commands is outstanding, a drain writes nothing, and the last
  notification wakes the frame's session.
\<close>

lemma revokeFrame_stops:
  "isFrameRevoked fid (revokeFrame fid lid now d)
   \<and> (\<forall>l\<in>set (linkedClients (revokeFrame fid lid now d)). l_id l = lid \<longrightarrow> l_revokedAt l \<noteq> None)
   \<and> (\<forall>f\<in>set (frames (revokeFrame fid lid now d)). f_id f = fid \<longrightarrow> f_status f = FrameRevoked \<and> \<not> f_connected f)
   \<and> (\<forall>c\<in>set (commands (revokeFrame fid lid now d)). c_frameId c = fid \<longrightarrow> terminal (c_status c))
   \<and> snd (drain_pass sock fid later (revokeFrame fid lid now d)) = []
   \<and> last (notified (revokeFrame fid lid now d)) = fid"
proof (intro conjI)
  let ?d = "revokeFrame fid lid now d"
  show f: "\<forall>f\<in>set (frames ?d). f_id f = fid \<longrightarrow> f_status f = FrameRevoked \<and> \<not> f_connected f"
    by (simp add: revokeFrame_def) (rule update_where_all, simp_all)
  show "\<forall>l\<in>set (linkedClients ?d). l_id l = lid \<longrightarrow> l_revokedAt l \<noteq> None"
    by (simp add: revokeFrame_def) (rule update_where_all, simp_all)
  show c: "\<forall>c\<in>set (commands ?d). c_frameId c = fid \<longrightarrow> terminal (c_status c)"
    by (simp add: revokeFrame_def) (rule update_where_all, simp_all add: terminal_outstanding)
  show "isFrameRevoked fid ?d"
    using f by (auto simp: isFrameRevoked_def split: option.split dest!: select_one_Some)
  have "\<forall>c\<in>set (commands (expireStaleCommands later (Some fid) ?d)). c_frameId c = fid \<longrightarrow> terminal (c_status c)"
    using c by (simp add: expireStaleCommands_def)
      (rule update_where_all, simp_all add: terminal_outstanding)
  then have "set (pending_commands fid (expireStaleCommands later (Some fid) ?d)) = {}"
    by (auto simp: pending_commands_def terminal_def)
  then show "snd (drain_pass sock fid later ?d) = []" by (simp add: drain_pass_def Let_def)
  show "last (notified ?d) = fid" by (simp add: revokeFrame_def)
qed

end
