(* ===== verification/RateLimit.thy ===== *)
theory RateLimit imports Js begin

text \<open>
  The fixed-window rate limiters: the hub's in-memory and Postgres limiters
  (\<open>cloud/apps/frame-hub/src/rate-limit.ts\<close>) and the ones of the web application
  (\<open>cloud/apps/auth-web/src/lib/rate-limit.ts\<close>), with the trusted-proxy client address both use.
  The locale \<open>fixed_window\<close> is the contract: every limiter is observed through the live window of
  a key and steps it like \<open>window_step\<close>.  It is interpreted on all four limiters, which gives
  their agreement and the bound on what a window admits.
\<close>

record bucket =
  bk_count :: nat
  bk_reset :: time

type_synonym buckets = "string \<rightharpoonup> bucket"

record rate_mem =
  rm_buckets :: buckets
  rm_ops :: nat

record rate_result =
  rr_allowed :: bool
  rr_reset :: time

record web_result = rate_result +
  rr_remaining :: int

definition sweepEvery :: nat where
  "sweepEvery = 1000"

section \<open>The hub's limiters\<close>

definition drop_expired :: "time \<Rightarrow> buckets \<Rightarrow> buckets" where
  "drop_expired now bs =
     (\<lambda>k. case bs k of None \<Rightarrow> None | Some b \<Rightarrow> if bk_reset b \<le> now then None else Some b)"

definition bumpSweepCounter :: "time \<Rightarrow> rate_mem \<Rightarrow> rate_mem \<times> bool" where
  "bumpSweepCounter now m =
     (let n = rm_ops m + 1
      in if n < sweepEvery then (m\<lparr>rm_ops := n\<rparr>, False)
         else (m\<lparr>rm_ops := 0, rm_buckets := drop_expired now (rm_buckets m)\<rparr>, True))"

definition checkMemoryRateLimit ::
  "string \<Rightarrow> int \<Rightarrow> int \<Rightarrow> time \<Rightarrow> rate_mem \<Rightarrow> rate_mem \<times> rate_result" where
  "checkMemoryRateLimit key limit windowMs now m0 =
     (let m = fst (bumpSweepCounter now m0);
          fresh = (m\<lparr>rm_buckets := (rm_buckets m)(key \<mapsto>
                      \<lparr>bk_count = 1, bk_reset = now + windowMs\<rparr>)\<rparr>,
                   \<lparr>rr_allowed = limit \<ge> 1, rr_reset = now + windowMs\<rparr>)
      in case rm_buckets m key of
           None \<Rightarrow> fresh
         | Some b \<Rightarrow>
             if bk_reset b \<le> now then fresh
             else if int (bk_count b) \<ge> limit then (m, \<lparr>rr_allowed = False, rr_reset = bk_reset b\<rparr>)
             else (m\<lparr>rm_buckets := (rm_buckets m)(key \<mapsto> b\<lparr>bk_count := bk_count b + 1\<rparr>)\<rparr>,
                   \<lparr>rr_allowed = True, rr_reset = bk_reset b\<rparr>))"

text \<open>
  The \<open>INSERT ... ON CONFLICT DO UPDATE ... RETURNING\<close> on \<open>rate_limit_buckets\<close>; \<open>now\<close> is the
  database's clock.
\<close>

definition upsert_bucket :: "string \<Rightarrow> int \<Rightarrow> time \<Rightarrow> buckets \<Rightarrow> buckets \<times> bucket" where
  "upsert_bucket key windowMs now bs =
     (let row = (case bs key of
                   None \<Rightarrow> \<lparr>bk_count = 1, bk_reset = now + windowMs\<rparr>
                 | Some b \<Rightarrow>
                     \<lparr>bk_count = (if bk_reset b \<le> now then 1 else bk_count b + 1),
                      bk_reset = (if bk_reset b \<le> now then now + windowMs else bk_reset b)\<rparr>)
      in (bs(key \<mapsto> row), row))"

text \<open>
  \<open>db_fails\<close> says that the upsert throws (the sweep that may follow it is taken not to); \<open>dbNow\<close> is the database's clock and
  \<open>now\<close> the process's.  The database decides unless it fails, and then the in-memory buckets do.
\<close>

definition checkSharedRateLimit ::
  "string \<Rightarrow> int \<Rightarrow> int \<Rightarrow> bool \<Rightarrow> time \<Rightarrow> time \<Rightarrow> rate_mem \<times> buckets \<Rightarrow>
   (rate_mem \<times> buckets) \<times> rate_result" where
  "checkSharedRateLimit key limit windowMs db_fails dbNow now s =
     (let (m, sweep) = bumpSweepCounter now (fst s)
      in if db_fails then
           (let (m', r) = checkMemoryRateLimit key limit windowMs now m in ((m', snd s), r))
         else
           (let (bs, row) = upsert_bucket key windowMs dbNow (snd s);
                bs' = (if sweep then drop_expired dbNow bs else bs)
            in ((m, bs'), \<lparr>rr_allowed = int (bk_count row) \<le> limit, rr_reset = bk_reset row\<rparr>)))"

section \<open>The web application's limiters\<close>

definition sweepExpired :: "time \<Rightarrow> rate_mem \<Rightarrow> rate_mem" where
  "sweepExpired now m = m\<lparr>rm_buckets :=
     (\<lambda>k. case rm_buckets m k of None \<Rightarrow> None | Some b \<Rightarrow> if bk_reset b \<le> now then None else Some b)\<rparr>"

definition web_bumpSweepCounter :: "time \<Rightarrow> rate_mem \<Rightarrow> rate_mem \<times> bool" where
  "web_bumpSweepCounter now m0 =
     (let m = m0\<lparr>rm_ops := rm_ops m0 + 1\<rparr>
      in if rm_ops m \<ge> sweepEvery then (sweepExpired now (m\<lparr>rm_ops := 0\<rparr>), True) else (m, False))"

definition checkRateLimitInMemory ::
  "string \<Rightarrow> int \<Rightarrow> int \<Rightarrow> time \<Rightarrow> rate_mem \<Rightarrow> rate_mem \<times> web_result" where
  "checkRateLimitInMemory key limit windowMs now m =
     (let fresh = (m\<lparr>rm_buckets := (rm_buckets m)(key \<mapsto>
                      \<lparr>bk_count = 1, bk_reset = now + windowMs\<rparr>)\<rparr>,
                   \<lparr>rr_allowed = True, rr_reset = now + windowMs, rr_remaining = limit - 1\<rparr>)
      in case rm_buckets m key of
           None \<Rightarrow> fresh
         | Some b \<Rightarrow>
             if bk_reset b \<le> now then fresh
             else if int (bk_count b) \<ge> limit
               then (m, \<lparr>rr_allowed = False, rr_reset = bk_reset b, rr_remaining = 0\<rparr>)
             else (m\<lparr>rm_buckets := (rm_buckets m)(key \<mapsto> b\<lparr>bk_count := bk_count b + 1\<rparr>)\<rparr>,
                   \<lparr>rr_allowed = True, rr_reset = bk_reset b,
                    rr_remaining = limit - (int (bk_count b) + 1)\<rparr>))"

definition checkRateLimitInDatabase ::
  "string \<Rightarrow> int \<Rightarrow> int \<Rightarrow> bool \<Rightarrow> time \<Rightarrow> buckets \<Rightarrow> buckets \<times> web_result" where
  "checkRateLimitInDatabase key limit windowMs sweep now bs0 =
     (let (bs, row) = upsert_bucket key windowMs now bs0;
          allowed = int (bk_count row) \<le> limit
      in (if sweep then drop_expired now bs else bs,
          \<lparr>rr_allowed = allowed, rr_reset = bk_reset row,
           rr_remaining = (if allowed then limit - int (bk_count row) else 0)\<rparr>))"

text \<open>
  \<open>checkRateLimit\<close> as the request helpers call it, with no caller-supplied clock:
  \<open>has_db\<close> is \<open>hasDatabaseUrl()\<close>.
\<close>

definition checkRateLimit ::
  "string \<Rightarrow> int \<Rightarrow> int \<Rightarrow> bool \<Rightarrow> bool \<Rightarrow> time \<Rightarrow> time \<Rightarrow> rate_mem \<times> buckets \<Rightarrow>
   (rate_mem \<times> buckets) \<times> web_result" where
  "checkRateLimit key limit windowMs has_db db_fails dbNow now s =
     (let (m, sweep) = web_bumpSweepCounter now (fst s)
      in if has_db \<and> \<not> db_fails then
           (let (bs, r) = checkRateLimitInDatabase key limit windowMs sweep dbNow (snd s)
            in ((m, bs), r))
         else
           (let (m', r) = checkRateLimitInMemory key limit windowMs now m in ((m', snd s), r)))"

section \<open>The client address\<close>

text \<open>\<open>Number.parseInt(raw, 10)\<close>; \<open>None\<close> is \<open>NaN\<close>.\<close>

definition digits_value :: "string \<Rightarrow> int" where
  "digits_value ds = foldl (\<lambda>n c. n * 10 + (code_unit c - 48)) 0 ds"

definition parse_int :: "string \<Rightarrow> int option" where
  "parse_int raw =
     (let t = dropWhile js_ws raw;
          (sg, body) = (case t of
              c # cs \<Rightarrow> if c = CHR ''-'' then (- 1, cs) else if c = CHR ''+'' then (1, cs) else (1, t)
            | [] \<Rightarrow> (1, []));
          ds = takeWhile is_digit body
      in if ds = [] then None else Some (sg * digits_value ds))"

text \<open>From \<open>2 ^ 1024 - 2 ^ 970\<close> on the parsed number is \<open>Infinity\<close>.\<close>

definition trustedProxyCount :: "string option \<Rightarrow> nat" where
  "trustedProxyCount env =
     (case env of
        None \<Rightarrow> 1
      | Some raw \<Rightarrow> (case parse_int raw of
                       Some n \<Rightarrow> if n \<ge> 0 \<and> n < 2 ^ 1024 - 2 ^ 970 then nat n else 1
                     | None \<Rightarrow> 1))"

definition forwarded_chain :: "string \<Rightarrow> string list" where
  "forwarded_chain h = filter (\<lambda>v. v \<noteq> []) (map js_trim (js_split (CHR '','') h))"

text \<open>The entry appended by the closest trusted proxy: the \<open>count\<close>-th from the right.\<close>

definition chain_entry :: "nat \<Rightarrow> string list \<Rightarrow> string option" where
  "chain_entry count chain =
     (if 0 < count \<and> chain \<noteq> [] then Some (chain ! (length chain - count)) else None)"

text \<open>The hub: each header is the list of its values (empty when absent).\<close>

definition clientIpFromRequest ::
  "string option \<Rightarrow> string list \<Rightarrow> string list \<Rightarrow> string option \<Rightarrow> string" where
  "clientIpFromRequest env forwarded realIp remote =
     (case chain_entry (trustedProxyCount env) (forwarded_chain (js_join '','' forwarded)) of
        Some ip \<Rightarrow> ip
      | None \<Rightarrow>
          (case realIp of
             v # _ \<Rightarrow> if js_trim v \<noteq> [] then js_trim v
                      else (case remote of Some a \<Rightarrow> if a \<noteq> [] then a else ''local'' | None \<Rightarrow> ''local'')
           | [] \<Rightarrow> (case remote of Some a \<Rightarrow> if a \<noteq> [] then a else ''local'' | None \<Rightarrow> ''local'')))"

text \<open>The web application.\<close>

definition clientIpFromHeaders :: "string option \<Rightarrow> string option \<Rightarrow> string option \<Rightarrow> string" where
  "clientIpFromHeaders env forwarded realIp =
     (case (case forwarded of
              None \<Rightarrow> None
            | Some h \<Rightarrow> chain_entry (trustedProxyCount env) (forwarded_chain h)) of
        Some ip \<Rightarrow> ip
      | None \<Rightarrow> (case realIp of
                   Some v \<Rightarrow> if js_trim v \<noteq> [] then js_trim v else ''local''
                 | None \<Rightarrow> ''local''))"

section \<open>The fixed-window contract\<close>

text \<open>
  What a limiter shows of a key at a time: nothing, or the requests its live window has admitted
  (counting stops at the limit) and the window's end.
\<close>

type_synonym window = "(int \<times> time) option"

definition prune :: "time \<Rightarrow> window \<Rightarrow> window" where
  "prune now w = (case w of None \<Rightarrow> None | Some (c, r) \<Rightarrow> if r \<le> now then None else Some (c, r))"

definition window_step :: "int \<Rightarrow> int \<Rightarrow> time \<Rightarrow> window \<Rightarrow> window \<times> rate_result" where
  "window_step limit windowMs now w =
     (case w of
        None \<Rightarrow> (Some (min 1 limit, now + windowMs),
                  \<lparr>rr_allowed = limit \<ge> 1, rr_reset = now + windowMs\<rparr>)
      | Some (c, r) \<Rightarrow> if c < limit then (Some (c + 1, r), \<lparr>rr_allowed = True, rr_reset = r\<rparr>)
                       else (Some (c, r), \<lparr>rr_allowed = False, rr_reset = r\<rparr>))"

definition bucket_window :: "int \<Rightarrow> time \<Rightarrow> bucket option \<Rightarrow> window" where
  "bucket_window limit now b =
     (case b of None \<Rightarrow> None
      | Some b \<Rightarrow> if bk_reset b \<le> now then None else Some (min (int (bk_count b)) limit, bk_reset b))"

fun decisions ::
  "('k \<Rightarrow> time \<Rightarrow> 's \<Rightarrow> 's \<times> rate_result) \<Rightarrow> ('k \<times> time) list \<Rightarrow> 's \<Rightarrow> rate_result list" where
  "decisions check [] s = []"
| "decisions check ((k, now) # tr) s = (let (s', r) = check k now s in r # decisions check tr s')"

fun spec_decisions ::
  "int \<Rightarrow> int \<Rightarrow> ('k \<times> time) list \<Rightarrow> ('k \<Rightarrow> window) \<Rightarrow> rate_result list" where
  "spec_decisions limit windowMs [] ws = []"
| "spec_decisions limit windowMs ((k, now) # tr) ws =
     (let (w, r) = window_step limit windowMs now (prune now (ws k))
      in r # spec_decisions limit windowMs tr (ws(k := w)))"

text \<open>How many of the checks of \<open>k\<close> in a trace were admitted.\<close>

definition admitted :: "'k \<Rightarrow> ('k \<times> time) list \<Rightarrow> rate_result list \<Rightarrow> nat" where
  "admitted k tr rs = length (filter (\<lambda>((j, t), r). j = k \<and> rr_allowed r) (zip tr rs))"

fun times_from :: "time \<Rightarrow> ('k \<times> time) list \<Rightarrow> bool" where
  "times_from t [] = True"
| "times_from t ((k, now) # tr) = (t \<le> now \<and> times_from now tr)"

lemma admitted_Nil [simp]: "admitted k [] rs = 0"
  by (simp add: admitted_def)

lemma admitted_Cons [simp]:
  "admitted k ((j, t) # tr) (r # rs) = (if j = k \<and> rr_allowed r then 1 else 0) + admitted k tr rs"
  by (simp add: admitted_def)

lemma spec_admitted_bound:
  "ws k = Some (c, r) \<Longrightarrow> c \<le> limit \<Longrightarrow> \<forall>(j, t)\<in>set tr. t < r \<Longrightarrow>
   int (admitted k tr (spec_decisions limit windowMs tr ws)) \<le> limit - c"
proof (induction tr arbitrary: ws c)
  case (Cons e tr)
  obtain j t where e: "e = (j, t)" by (cases e)
  have live: "prune t (ws k) = Some (c, r)" using Cons.prems e by (auto simp: prune_def)
  show ?case
  proof (cases "j = k")
    case True
    obtain w res where st: "window_step limit windowMs t (Some (c, r)) = (w, res)"
      by (cases "window_step limit windowMs t (Some (c, r))") auto
    have w: "w = Some (if c < limit then c + 1 else c, r)" and a: "rr_allowed res = (c < limit)"
      using st by (auto simp: window_step_def split: if_splits)
    have "int (admitted k tr (spec_decisions limit windowMs tr (ws(k := w))))
        \<le> limit - (if c < limit then c + 1 else c)"
      using Cons.prems by (intro Cons.IH) (auto simp: w)
    then show ?thesis using True live st a e by (simp split: if_splits)
  next
    case False
    then have "int (admitted k tr (spec_decisions limit windowMs tr (ws(j := w)))) \<le> limit - c" for w
      using Cons.prems by (intro Cons.IH) auto
    with False e show ?thesis by (simp split: prod.split)
  qed
qed simp

locale fixed_window =
  fixes limit :: int and windowMs :: int
    and check :: "'k \<Rightarrow> time \<Rightarrow> 's \<Rightarrow> 's \<times> rate_result"
    and live :: "'k \<Rightarrow> time \<Rightarrow> 's \<Rightarrow> window"
  assumes decision: "snd (check k now s) = snd (window_step limit windowMs now (live k now s))"
    and own_key: "now \<le> now' \<Longrightarrow> live k now' (fst (check k now s))
        = prune now' (fst (window_step limit windowMs now (live k now s)))"
    and other_key: "j \<noteq> k \<Longrightarrow> now \<le> now' \<Longrightarrow> live j now' (fst (check k now s)) = live j now' s"
    and ageing: "now \<le> now' \<Longrightarrow> live k now' s = prune now' (live k now s)"
    and capped: "live k now s = Some (c, r) \<Longrightarrow> 0 \<le> limit \<Longrightarrow> 0 \<le> c \<and> c \<le> limit \<and> now < r"
begin

lemma decisions_refine:
  "times_from t tr \<Longrightarrow> (\<And>j now. t \<le> now \<Longrightarrow> live j now s = prune now (ws j)) \<Longrightarrow>
   decisions check tr s = spec_decisions limit windowMs tr ws"
proof (induction tr arbitrary: t s ws)
  case (Cons e tr)
  obtain k now where e: "e = (k, now)" by (cases e)
  obtain w r where st: "window_step limit windowMs now (prune now (ws k)) = (w, r)"
    by (cases "window_step limit windowMs now (prune now (ws k))") auto
  obtain s' r' where ch: "check k now s = (s', r')" by (cases "check k now s") auto
  have l: "live k now s = prune now (ws k)" and "times_from now tr"
    using Cons.prems e by auto
  have "r' = r" using decision [of k now s] ch st l by simp
  moreover have "decisions check tr s' = spec_decisions limit windowMs tr (ws(k := w))"
  proof (rule Cons.IH [OF \<open>times_from now tr\<close>])
    fix j now'
    assume "now \<le> now'"
    then show "live j now' s' = prune now' ((ws(k := w)) j)"
      using own_key [of now now' k s] other_key [of j k now now' s] ch st l Cons.prems e by auto
  qed
  ultimately show ?case using e ch st by simp
qed simp

lemma refines_spec:
  "times_from t tr \<Longrightarrow> decisions check tr s = spec_decisions limit windowMs tr (\<lambda>k. live k t s)"
  by (rule decisions_refine) (auto intro: ageing)

lemma window_bound:
  assumes t: "times_from t ((k, now) # tr)" and l: "0 \<le> limit"
    and before: "\<forall>(j, u)\<in>set ((k, now) # tr). u < rr_reset (snd (check k now s))"
  shows "int (admitted k ((k, now) # tr) (decisions check ((k, now) # tr) s)) \<le> limit"
proof -
  obtain w r where st: "window_step limit windowMs now (live k now s) = (w, r)"
    by (cases "window_step limit windowMs now (live k now s)") auto
  obtain s' where ch: "check k now s = (s', r)" using decision [of k now s] st by (cases "check k now s") auto
  have now': "times_from now tr" using t by simp
  have "decisions check tr s' = spec_decisions limit windowMs tr (\<lambda>j. live j now s')"
    by (rule refines_spec [OF now'])
  moreover have own: "live k now s' = prune now w" using own_key [of now now k s] ch st by simp
  ultimately show ?thesis
  proof (cases "live k now s")
    case None
    then have w: "w = Some (min 1 limit, rr_reset r)" and a: "rr_allowed r = (limit \<ge> 1)"
      using st by (auto simp: window_step_def)
    have "live k now s' = Some (min 1 limit, rr_reset r)" using own w before ch by (simp add: prune_def)
    then have "int (admitted k tr (decisions check tr s')) \<le> limit - min 1 limit"
      using spec_admitted_bound [of "\<lambda>j. live j now s'" k "min 1 limit" "rr_reset r" limit tr windowMs]
        refines_spec [OF now', of s'] before ch by auto
    then show ?thesis using ch a l by (cases "1 \<le> limit") auto
  next
    case (Some cr)
    obtain c q where cr: "cr = (c, q)" by (cases cr)
    have c: "0 \<le> c \<and> c \<le> limit" using Some cr capped l by blast
    have w: "w = Some (if c < limit then c + 1 else c, q)" and a: "rr_allowed r = (c < limit)"
      and q: "rr_reset r = q"
      using st Some cr by (auto simp: window_step_def split: if_splits)
    have "live k now s' = Some (if c < limit then c + 1 else c, q)"
      using own w before ch q by (simp add: prune_def)
    then have "int (admitted k tr (decisions check tr s')) \<le> limit - (if c < limit then c + 1 else c)"
      using spec_admitted_bound [of "\<lambda>j. live j now s'" k "if c < limit then c + 1 else c" q limit tr windowMs]
        refines_spec [OF now', of s'] before ch q c by auto
    then show ?thesis using ch a c by (simp split: if_splits)
  qed
qed

end

section \<open>The limiters satisfy it\<close>

lemma bucket_window_ageing: "now \<le> now' \<Longrightarrow> bucket_window l now' b = prune now' (bucket_window l now b)"
  by (auto simp: bucket_window_def prune_def split: option.splits)

lemma bucket_window_capped:
  "bucket_window l now b = Some (c, r) \<Longrightarrow> 0 \<le> l \<Longrightarrow> 0 \<le> c \<and> c \<le> l \<and> now < r"
  by (auto simp: bucket_window_def split: option.splits if_splits)

lemma bucket_window_dropped:
  "now \<le> now' \<Longrightarrow> bucket_window l now' (drop_expired now bs k) = bucket_window l now' (bs k)"
  by (auto simp: bucket_window_def drop_expired_def split: option.splits)

lemma bump_keeps:
  "now \<le> now' \<Longrightarrow> bucket_window l now' (rm_buckets (fst (bumpSweepCounter now m)) k)
     = bucket_window l now' (rm_buckets m k)"
  by (simp add: bumpSweepCounter_def Let_def bucket_window_dropped)

lemma web_bump_is_bump: "web_bumpSweepCounter now m = bumpSweepCounter now m"
  by (simp add: web_bumpSweepCounter_def bumpSweepCounter_def sweepExpired_def drop_expired_def Let_def)

lemmas window_defs = bucket_window_def window_step_def prune_def

lemma memory_window:
  fixes m k now l w
  defines "c \<equiv> checkMemoryRateLimit k l w now m"
  shows "snd c = snd (window_step l w now (bucket_window l now (rm_buckets m k)))"
    and "now \<le> now' \<Longrightarrow> bucket_window l now' (rm_buckets (fst c) k)
           = prune now' (fst (window_step l w now (bucket_window l now (rm_buckets m k))))"
    and "j \<noteq> k \<Longrightarrow> now \<le> now' \<Longrightarrow>
           bucket_window l now' (rm_buckets (fst c) j) = bucket_window l now' (rm_buckets m j)"
proof -
  let ?m = "fst (bumpSweepCounter now m)"
  have at: "bucket_window l now (rm_buckets m k) = bucket_window l now (rm_buckets ?m k)"
    by (simp add: bump_keeps)
  show "snd c = snd (window_step l w now (bucket_window l now (rm_buckets m k)))"
    unfolding at c_def
    by (auto simp: checkMemoryRateLimit_def window_defs Let_def split: option.splits)
  show "bucket_window l now' (rm_buckets (fst c) k)
      = prune now' (fst (window_step l w now (bucket_window l now (rm_buckets m k))))" if "now \<le> now'"
    unfolding at c_def using that
    by (auto simp: checkMemoryRateLimit_def window_defs Let_def split: option.splits)
  show "bucket_window l now' (rm_buckets (fst c) j) = bucket_window l now' (rm_buckets m j)"
    if "j \<noteq> k" "now \<le> now'"
    unfolding c_def using that bump_keeps [OF that(2), of l m j]
    by (auto simp: checkMemoryRateLimit_def Let_def split: option.splits)
qed

lemma upsert_window:
  fixes bs k now l w
  defines "u \<equiv> upsert_bucket k w now bs"
  shows "\<lparr>rr_allowed = int (bk_count (snd u)) \<le> l, rr_reset = bk_reset (snd u)\<rparr>
           = snd (window_step l w now (bucket_window l now (bs k)))"
    and "now \<le> now' \<Longrightarrow> bucket_window l now' (fst u k)
           = prune now' (fst (window_step l w now (bucket_window l now (bs k))))"
    and "j \<noteq> k \<Longrightarrow> fst u j = bs j"
  unfolding u_def by (auto simp: upsert_bucket_def window_defs Let_def split: option.splits)

interpretation hub_memory: fixed_window l w "\<lambda>k now m. checkMemoryRateLimit k l w now m"
  "\<lambda>k now m. bucket_window l now (rm_buckets m k)" for l w
proof (unfold_locales, goal_cases)
  case 1 show ?case by (rule memory_window)
next
  case 2 then show ?case by (rule memory_window)
next
  case 3 then show ?case by (rule memory_window)
next
  case 4 then show ?case by (rule bucket_window_ageing)
next
  case 5 then show ?case by (rule bucket_window_capped)
qed

lemma shared_parts:
  fixes k l w now s
  defines "u \<equiv> upsert_bucket k w now (snd s)" and "c \<equiv> checkSharedRateLimit k l w False now now s"
  shows "snd c = \<lparr>rr_allowed = int (bk_count (snd u)) \<le> l, rr_reset = bk_reset (snd u)\<rparr>"
    and "now \<le> now' \<Longrightarrow> bucket_window l now' (snd (fst c) j) = bucket_window l now' (fst u j)"
  unfolding u_def c_def
  by (auto simp: checkSharedRateLimit_def Let_def bucket_window_dropped split: prod.split)

interpretation hub_shared: fixed_window l w "\<lambda>k now s. checkSharedRateLimit k l w False now now s"
  "\<lambda>k now s. bucket_window l now (snd s k)" for l w
proof (unfold_locales, goal_cases)
  case (1 k now s) show ?case unfolding shared_parts by (rule upsert_window)
next
  case (2 now now' k s) then show ?case unfolding shared_parts(2) [OF 2] by (rule upsert_window)
next
  case (3 j k now now' s) then show ?case unfolding shared_parts(2) [OF 3(2)] by (simp add: upsert_window)
next
  case 4 then show ?case by (rule bucket_window_ageing)
next
  case 5 then show ?case by (rule bucket_window_capped)
qed

text \<open>
  The web application's limiters.  Its in-memory one admits the first request of a window whatever
  the limit, so it meets the contract for limits from 1 on, which every call site has.
\<close>

definition web_memory_check ::
  "int \<Rightarrow> int \<Rightarrow> string \<Rightarrow> time \<Rightarrow> rate_mem \<Rightarrow> rate_mem \<times> rate_result" where
  "web_memory_check l w k now s =
     map_prod fst rate_result.truncate (checkRateLimit k l w False False now now (s, Map.empty))"

definition web_database_check ::
  "int \<Rightarrow> int \<Rightarrow> string \<Rightarrow> time \<Rightarrow> rate_mem \<times> buckets \<Rightarrow> (rate_mem \<times> buckets) \<times> rate_result" where
  "web_database_check l w k now s =
     map_prod id rate_result.truncate (checkRateLimit k l w True False now now s)"

lemma web_memory_check_eq:
  assumes "1 \<le> l"
  shows "web_memory_check l w k now m = checkMemoryRateLimit k l w now m"
  using assms
  by (auto simp: web_memory_check_def checkRateLimit_def checkRateLimitInMemory_def web_bump_is_bump
      checkMemoryRateLimit_def Let_def rate_result.truncate_def split: prod.split option.split)

lemma web_database_check_eq:
  "web_database_check l w k now s = checkSharedRateLimit k l w False now now s"
  by (auto simp: web_database_check_def checkRateLimit_def checkRateLimitInDatabase_def web_bump_is_bump
      checkSharedRateLimit_def Let_def rate_result.truncate_def split: prod.split)

lemma web_memory_check_fun:
  "web_memory_check (1 + int n) w = (\<lambda>k now m. checkMemoryRateLimit k (1 + int n) w now m)"
  by (intro ext) (simp add: web_memory_check_eq)

lemma web_database_check_fun:
  "web_database_check l w = (\<lambda>k now s. checkSharedRateLimit k l w False now now s)"
  by (intro ext) (simp add: web_database_check_eq)

interpretation web_memory: fixed_window "1 + int n" w "web_memory_check (1 + int n) w"
  "\<lambda>k now m. bucket_window (1 + int n) now (rm_buckets m k)" for n w
  unfolding web_memory_check_fun by (rule hub_memory.fixed_window_axioms)

interpretation web_database: fixed_window l w "web_database_check l w"
  "\<lambda>k now s. bucket_window l now (snd s k)" for l w
  unfolding web_database_check_fun by (rule hub_shared.fixed_window_axioms)

section \<open>Properties\<close>

text \<open>
  C22.  The hub's Postgres limiter admits at most \<open>limit\<close> requests of a key within one window: of
  all the checks made, in time order, before the window the first check reports is over, no more
  than \<open>limit\<close> of that key are allowed, whatever other keys do and whenever expired rows are swept.
\<close>

theorem shared_window_bound:
  assumes "times_from t ((k, now) # tr)" and "0 \<le> l"
    and "\<forall>(j, u)\<in>set ((k, now) # tr). u < rr_reset (snd (checkSharedRateLimit k l w False now now s))"
  shows "int (admitted k ((k, now) # tr)
           (decisions (\<lambda>k now s. checkSharedRateLimit k l w False now now s) ((k, now) # tr) s)) \<le> l"
  by (rule hub_shared.window_bound [OF assms])

definition idle_limiter :: "rate_mem \<times> buckets" where
  "idle_limiter = (\<lparr>rm_buckets = Map.empty, rm_ops = 0\<rparr>, Map.empty)"

theorem shared_window_bound_witness:
  "int (admitted ''ip'' ((''ip'', 0) # [(''ip'', 1), (''ip'', 2), (''ip'', 3)])
     (decisions (\<lambda>k now s. checkSharedRateLimit k 2 60000 False now now s)
       ((''ip'', 0) # [(''ip'', 1), (''ip'', 2), (''ip'', 3)]) idle_limiter)) \<le> 2"
  by (rule shared_window_bound [of 0])
    (simp_all add: Let_def idle_limiter_def checkSharedRateLimit_def bumpSweepCounter_def upsert_bucket_def
      sweepEvery_def)

text \<open>
  The four limiters are one: started with no buckets, with a positive limit and a clock that
  does not go back, the hub's in-memory limiter, the hub's Postgres limiter and both limiters of
  the web application decide every trace of checks the same way.
\<close>

lemma limiters_agree:
  assumes "times_from t tr"
  shows "decisions (\<lambda>k now m. checkMemoryRateLimit k (1 + int n) w now m) tr (fst idle_limiter)
         = decisions (\<lambda>k now s. checkSharedRateLimit k (1 + int n) w False now now s) tr idle_limiter
       \<and> decisions (web_memory_check (1 + int n) w) tr (fst idle_limiter)
         = decisions (\<lambda>k now s. checkSharedRateLimit k (1 + int n) w False now now s) tr idle_limiter
       \<and> decisions (web_database_check (1 + int n) w) tr idle_limiter
         = decisions (\<lambda>k now s. checkSharedRateLimit k (1 + int n) w False now now s) tr idle_limiter"
  unfolding hub_memory.refines_spec [OF assms] hub_shared.refines_spec [OF assms]
    web_memory.refines_spec [OF assms] web_database.refines_spec [OF assms]
  by (simp add: idle_limiter_def bucket_window_def)

lemma js_split_append: "js_split c (a @ c # b) = js_split c a @ js_split c b"
  by (induction a) (auto split: list.splits)

lemma forwarded_chain_append:
  "forwarded_chain (a @ CHR '','' # b) = forwarded_chain a @ forwarded_chain b"
  by (simp add: forwarded_chain_def js_split_append)

lemma chain_entry_append:
  "0 < n \<Longrightarrow> n \<le> length b \<Longrightarrow> chain_entry n (a @ b) = chain_entry n b"
  by (cases b) (auto simp: chain_entry_def nth_append)

text \<open>
  A client cannot choose the address it is limited under: when the configured number of
  trusted proxies have each appended an entry to \<open>X-Forwarded-For\<close>, whatever the client put in
  front of them changes the address neither on the hub nor in the web application.
\<close>

lemma client_ip_not_spoofable:
  assumes "0 < trustedProxyCount env" and "trustedProxyCount env \<le> length (forwarded_chain proxies)"
  shows "clientIpFromRequest env [spoofed @ CHR '','' # proxies] realIp remote
         = clientIpFromRequest env [proxies] realIp' remote'
       \<and> clientIpFromHeaders env (Some (spoofed @ CHR '','' # proxies)) single
         = clientIpFromHeaders env (Some proxies) single'"
proof -
  obtain ip where "chain_entry (trustedProxyCount env) (forwarded_chain proxies) = Some ip"
    using assms by (cases "forwarded_chain proxies") (auto simp: chain_entry_def)
  moreover from this have "chain_entry (trustedProxyCount env)
      (forwarded_chain (spoofed @ CHR '','' # proxies)) = Some ip"
    using assms by (simp add: forwarded_chain_append chain_entry_append)
  ultimately show ?thesis by (simp add: clientIpFromRequest_def clientIpFromHeaders_def)
qed

end
