(* ===== verification/HubSessions.thy ===== *)
theory HubSessions imports Commands RateLimit begin

text \<open>
  Device sockets of the frame hub (\<open>cloud/apps/frame-hub/src/hub.ts\<close>): the session record, the
  routing table \<open>deviceSessions\<close>, and every handler of \<open>handleDeviceMessage\<close>.  The hub's state holds
  the database, the sessions by socket, the routing table in the insertion order of its \<open>Map\<close>, the
  in-memory limiter and the trace of what the hub sent, closed and broadcast.  A handler is one
  atomic step here; the interleavings of its database calls are the subject of \<open>HubDrain\<close>.  The
  record \<open>io\<close> is what a handler observes of its environment: the clock, the socket, a fresh id.
\<close>

section \<open>State\<close>

record asset_stream =
  as_chunks :: "bytes list"
  as_contentType :: string
  as_nextSeq :: int
  as_receivedBytes :: nat

record device_session =
  ds_alive :: bool
  ds_assetStreams :: "(string \<times> asset_stream) list"
  ds_authTimeout :: bool
  ds_authed :: bool
  ds_closed :: bool
  ds_disconnectHandled :: bool
  ds_frame :: frame
  ds_hello :: "fields option"
  ds_hubSessionId :: string
  ds_nonce :: bytes
  ds_ready :: bool
  ds_scopes :: "string list"

datatype hub_output =
    SendDevice nat json
  | SendCommand nat string
  | CloseDevice nat int string
  | Terminate nat
  | Ping nat
  | Broadcast uuid uuid string json

record hub =
  h_db :: db
  h_sessions :: "nat \<rightharpoonup> device_session"
  h_routes :: "(uuid \<times> nat) list"
  h_limits :: rate_mem
  h_out :: "hub_output list"

record io =
  io_now :: time
  io_open :: bool
  io_sock :: sock_view
  io_uuid :: string

definition closeAuthFailed :: int where "closeAuthFailed = 4401"
definition closeAuthTimeout :: int where "closeAuthTimeout = 4408"
definition closeSuperseded :: int where "closeSuperseded = 4409"
definition commandRedeliverAfterMs :: int where "commandRedeliverAfterMs = 180000"
definition logBatchLimit :: int where "logBatchLimit = 120"
definition logBatchWindowMs :: int where "logBatchWindowMs = 60000"
definition maxAssetStreamsPerSession :: nat where "maxAssetStreamsPerSession = 4"

definition emit :: "hub_output \<Rightarrow> hub \<Rightarrow> hub" where
  "emit out h = h\<lparr>h_out := h_out h @ [out]\<rparr>"

definition put_session :: "nat \<Rightarrow> device_session \<Rightarrow> hub \<Rightarrow> hub" where
  "put_session sid s h = h\<lparr>h_sessions := (h_sessions h)(sid \<mapsto> s)\<rparr>"

definition on_db :: "(db \<Rightarrow> db) \<Rightarrow> hub \<Rightarrow> hub" where
  "on_db f h = h\<lparr>h_db := f (h_db h)\<rparr>"

definition ds_id :: "device_session \<Rightarrow> uuid" where
  "ds_id s = f_id (ds_frame s)"

section \<open>Broadcasts, draining, disconnecting\<close>

definition broadcastFrameUpdate :: "uuid \<Rightarrow> hub \<Rightarrow> hub" where
  "broadcastFrameUpdate fid h =
     (case select_one (\<lambda>f. f_id f = fid) (frames (h_db h)) of
        None \<Rightarrow> h
      | Some f \<Rightarrow> emit (Broadcast (f_accountId f) (f_id f) ''update_frame'' (frameUpdateEvent f)) h)"

text \<open>\<open>drainCommands\<close> without a concurrent wake-up: one pass of the loop.\<close>

definition drainCommands :: "io \<Rightarrow> nat \<Rightarrow> hub \<Rightarrow> hub" where
  "drainCommands io sid h =
     (case h_sessions h sid of
        None \<Rightarrow> h
      | Some s \<Rightarrow>
          if \<not> ds_ready s \<or> ds_closed s then h
          else let (d, texts) = drain_pass (io_sock io) (ds_id s) (io_now io) (h_db h)
               in h\<lparr>h_db := d, h_out := h_out h @ map (SendCommand sid) texts\<rparr>)"

definition markDeviceDisconnected :: "io \<Rightarrow> nat \<Rightarrow> hub \<Rightarrow> hub" where
  "markDeviceDisconnected io sid h =
     (case h_sessions h sid of
        None \<Rightarrow> h
      | Some s \<Rightarrow>
          if ds_disconnectHandled s then h
          else
            let h1 = put_session sid (s\<lparr>ds_disconnectHandled := True\<rparr>) h;
                h2 = (if map_of (h_routes h1) (ds_id s) = Some sid
                      then h1\<lparr>h_routes := AList.delete (ds_id s) (h_routes h1)\<rparr> else h1);
                mine = (\<lambda>f. f_id f = ds_id s \<and> f_hubSessionId f = Some (ds_hubSessionId s));
                h3 = on_db (\<lambda>d. d\<lparr>frames := update_where mine
                        (\<lambda>f. f\<lparr>f_connected := False, f_updatedAt := io_now io\<rparr>) (frames d)\<rparr>) h2
            in if \<exists>f\<in>set (frames (h_db h2)). mine f then broadcastFrameUpdate (ds_id s) h3 else h3)"

definition kickRevokedSession :: "io \<Rightarrow> nat \<Rightarrow> hub \<Rightarrow> hub" where
  "kickRevokedSession io sid h =
     emit (CloseDevice sid closeAuthFailed ''frame_revoked'') (markDeviceDisconnected io sid h)"

definition wakeSession :: "io \<Rightarrow> nat \<Rightarrow> hub \<Rightarrow> hub" where
  "wakeSession io sid h =
     (case h_sessions h sid of
        None \<Rightarrow> h
      | Some s \<Rightarrow>
          if \<not> ds_ready s \<or> ds_closed s then h
          else if isFrameRevoked (ds_id s) (h_db h) then kickRevokedSession io sid h
          else drainCommands io sid
                 (on_db (\<lambda>d. fst (redeliverSentCommands (ds_id s) (io_now io - commandRedeliverAfterMs) d)) h))"

section \<open>Activation\<close>

definition slice_str :: "nat \<Rightarrow> json option \<Rightarrow> string option" where
  "slice_str n v = map_option (take n) (str_of v)"

definition acceptable_state :: "json option \<Rightarrow> json option" where
  "acceptable_state v =
     (case v of
        Some (JObj kvs) \<Rightarrow> if withinJsonByteLimit (JObj kvs) maxStateBytes then Some (JObj kvs) else None
      | _ \<Rightarrow> None)"

definition or_keep :: "'a option \<Rightarrow> 'a \<Rightarrow> 'a" where
  "or_keep v old = (case v of None \<Rightarrow> old | Some w \<Rightarrow> w)"

definition or_keep' :: "'a option \<Rightarrow> 'a option \<Rightarrow> 'a option" where
  "or_keep' v old = (case v of None \<Rightarrow> old | Some w \<Rightarrow> Some w)"

definition connect_row :: "time \<Rightarrow> string \<Rightarrow> fields \<Rightarrow> frame \<Rightarrow> frame" where
  "connect_row now hubId hello f =
     f\<lparr>f_connected := True, f_hubSessionId := Some hubId, f_lastSeenAt := Some now, f_updatedAt := now,
       f_frameosVersion := or_keep' (slice_str 64 (map_of hello ''frameos_version'')) (f_frameosVersion f),
       f_lastState := or_keep (acceptable_state (map_of hello ''states'')) (f_lastState f),
       f_scenesChecksum := or_keep' (acceptable_checksum (map_of hello ''scenes_checksum'')) (f_scenesChecksum f)\<rparr>"

definition ready_message :: "string \<Rightarrow> nat \<Rightarrow> string list \<Rightarrow> json" where
  "ready_message uid pending scopes =
     JObj [(''id'', JStr uid), (''pending_commands'', num_of_int (int pending)),
       (''scopes'', JArr (map JStr scopes)), (''type'', JStr ''ready'')]"

definition pending_count :: "uuid \<Rightarrow> db \<Rightarrow> nat" where
  "pending_count fid d = length (filter (\<lambda>c. c_frameId c = fid \<and> c_status c = CmdPending) (commands d))"

definition activateDeviceSession :: "io \<Rightarrow> nat \<Rightarrow> hub \<Rightarrow> hub" where
  "activateDeviceSession io sid h =
     (case h_sessions h sid of
        None \<Rightarrow> h
      | Some s \<Rightarrow>
          if isFrameRevoked (ds_id s) (h_db h)
          then emit (CloseDevice sid closeAuthFailed ''frame_revoked'') h
          else
            let fid = ds_id s; now = io_now io;
                h1 = put_session sid (s\<lparr>ds_ready := True, ds_authTimeout := False\<rparr>) h;
                h2 = (case map_of (h_routes h1) fid of
                        Some prev \<Rightarrow> if prev \<noteq> sid
                                     then emit (CloseDevice prev closeSuperseded ''superseded'') h1 else h1
                      | None \<Rightarrow> h1);
                h3 = h2\<lparr>h_routes := AList.update fid sid (h_routes h2)\<rparr>;
                hello = (case ds_hello s of None \<Rightarrow> [] | Some kvs \<Rightarrow> kvs);
                h4 = on_db (\<lambda>d. d\<lparr>frames := update_where (\<lambda>f. f_id f = fid)
                        (connect_row now (ds_hubSessionId s) hello) (frames d)\<rparr>) h3;
                h5 = on_db (expireStaleCommands now (Some fid)) h4;
                h6 = on_db (\<lambda>d. fst (redeliverSentCommands fid now d)) h5;
                h7 = (if io_open io
                      then emit (SendDevice sid (ready_message (io_uuid io) (pending_count fid (h_db h6)) (ds_scopes s))) h6
                      else h6);
                h8 = drainCommands io sid (broadcastFrameUpdate fid h7)
            in if ds_closed s then markDeviceDisconnected io sid h8 else h8)"

section \<open>Messages of a ready session\<close>

definition sendAckError :: "io \<Rightarrow> nat \<Rightarrow> fields \<Rightarrow> string \<Rightarrow> hub \<Rightarrow> hub" where
  "sendAckError io sid msg error h =
     (if \<not> io_open io then h
      else emit (SendDevice sid (JObj
             ((case map_of msg ''id'' of Some (JStr i) \<Rightarrow> [(''id'', JStr i)] | _ \<Rightarrow> [])
              @ [(''error'', JStr error), (''ok'', JBool False), (''type'', JStr ''ack'')]))) h)"

definition uuid_field :: "fields \<Rightarrow> string option" where
  "uuid_field msg = (case map_of msg ''id'' of Some (JStr i) \<Rightarrow> if is_uuid i then Some i else None | _ \<Rightarrow> None)"

definition handleAck :: "io \<Rightarrow> device_session \<Rightarrow> fields \<Rightarrow> hub \<Rightarrow> hub" where
  "handleAck io s msg h =
     (case uuid_field msg of
        None \<Rightarrow> h
      | Some cid \<Rightarrow>
          on_db (ack_command (js_lower cid) (ds_id s) (map_of msg ''ok'' = Some (JBool True))
                   (map_of msg ''error'') (io_now io)) h)"

definition on_frame :: "uuid \<Rightarrow> (frame \<Rightarrow> frame) \<Rightarrow> hub \<Rightarrow> hub" where
  "on_frame fid f h = on_db (\<lambda>d. d\<lparr>frames := update_where (\<lambda>r. f_id r = fid) f (frames d)\<rparr>) h"

text \<open>\<open>coalesce(last_state, '{}') || jsonb_build_object('active_scene', scene)\<close>.\<close>

fun merge_active_scene :: "string \<Rightarrow> json \<Rightarrow> json" where
  "merge_active_scene scene JNull = JObj [(''active_scene'', JStr scene)]"
| "merge_active_scene scene (JObj kvs) = JObj (AList.update ''active_scene'' (JStr scene) kvs)"
| "merge_active_scene scene (JArr xs) = JArr (xs @ [JObj [(''active_scene'', JStr scene)]])"
| "merge_active_scene scene v = JArr [v, JObj [(''active_scene'', JStr scene)]]"

definition handleSceneAck :: "io \<Rightarrow> device_session \<Rightarrow> fields \<Rightarrow> hub \<Rightarrow> hub" where
  "handleSceneAck io s msg h =
     (let checksum = acceptable_checksum (map_of msg ''checksum'');
          activeScene = slice_str maxSceneIdChars (map_of msg ''active_scene'');
          now = io_now io
      in broadcastFrameUpdate (ds_id s)
           (on_frame (ds_id s)
              (\<lambda>f. f\<lparr>f_lastSeenAt := Some now, f_updatedAt := now,
                     f_scenesChecksum := or_keep' checksum (f_scenesChecksum f),
                     f_lastState := (case activeScene of None \<Rightarrow> f_lastState f
                                     | Some sc \<Rightarrow> merge_active_scene sc (f_lastState f))\<rparr>) h))"

definition state_of_message :: "fields \<Rightarrow> json" where
  "state_of_message msg =
     (let rest = AList.delete ''type'' (AList.delete ''id'' msg)
      in case map_of rest ''states'' of Some (JObj kvs) \<Rightarrow> JObj kvs | _ \<Rightarrow> JObj rest)"

definition handleState :: "io \<Rightarrow> device_session \<Rightarrow> fields \<Rightarrow> hub \<Rightarrow> hub" where
  "handleState io s msg h =
     (let lastState = state_of_message msg;
          rest = AList.delete ''type'' (AList.delete ''id'' msg);
          checksum = acceptable_checksum (map_of rest ''scenes_checksum'');
          now = io_now io
      in broadcastFrameUpdate (ds_id s)
           (on_frame (ds_id s)
              (\<lambda>f. f\<lparr>f_lastSeenAt := Some now, f_updatedAt := now,
                     f_lastState := (if withinJsonByteLimit lastState maxStateBytes then lastState else f_lastState f),
                     f_frameosVersion := or_keep' (slice_str 64 (map_of rest ''frameos_version'')) (f_frameosVersion f),
                     f_scenesChecksum := or_keep' checksum (f_scenesChecksum f)\<rparr>) h))"

text \<open>The rows of one frame, newest last, that a stored batch is broadcast from.\<close>

definition last_logs :: "uuid \<Rightarrow> nat \<Rightarrow> db \<Rightarrow> telemetry_row list" where
  "last_logs fid n d = rev (take n (select_desc tr_id (\<lambda>r. tr_frameId r = fid) (frameLogs d)))"

text \<open>When \<open>storeFrameLogs\<close> throws, the message handler logs the error and the batch is gone.\<close>

definition handleLogBatch :: "ext \<Rightarrow> io \<Rightarrow> nat \<Rightarrow> device_session \<Rightarrow> fields \<Rightarrow> hub \<Rightarrow> hub" where
  "handleLogBatch x io sid s msg h =
     (if frameTelemetryLogsScope \<notin> set (ds_scopes s) then sendAckError io sid msg ''insufficient_scope'' h
      else
        let (m, res) = checkMemoryRateLimit (''frame_logs:'' @ ds_id s) logBatchLimit logBatchWindowMs
                         (io_now io) (h_limits h);
            h1 = h\<lparr>h_limits := m\<rparr>
        in if \<not> rr_allowed res then sendAckError io sid msg ''rate_limited'' h1
           else
             let entries = parseLogEntries x (io_now io) (map_of msg ''logs'')
             in if entries = [] then h1
                else (case storeFrameLogs x (ds_id s) entries (Some (f_accountId (ds_frame s))) (h_db h1) of
                        None \<Rightarrow> h1
                      | Some (d, stored) \<Rightarrow>
                          if stored = 0 then h1
                          else h1\<lparr>h_db := d,
                                  h_out := h_out h1 @ map (\<lambda>row. Broadcast (f_accountId (ds_frame s)) (ds_id s)
                                     ''new_log'' (newLogEvent (ds_id s) row)) (last_logs (ds_id s) stored d)\<rparr>))"

definition handleMetrics :: "io \<Rightarrow> nat \<Rightarrow> device_session \<Rightarrow> fields \<Rightarrow> hub \<Rightarrow> hub" where
  "handleMetrics io sid s msg h =
     (if frameTelemetryMetricsScope \<notin> set (ds_scopes s) then sendAckError io sid msg ''insufficient_scope'' h
      else
        case map_of msg ''metrics'' of
          Some (JObj kvs) \<Rightarrow>
            if \<not> withinJsonByteLimit (JObj kvs) maxMetricsBytes
            then sendAckError io sid msg ''payload_too_large'' h
            else
              let now = io_now io;
                  h1 = on_frame (ds_id s) (\<lambda>f. f\<lparr>f_lastMetrics := JObj kvs, f_lastSeenAt := Some now,
                         f_updatedAt := now\<rparr>) h;
                  (d, storedId) = storeFrameMetrics (ds_id s) (JObj kvs) now (h_db h1)
              in emit (Broadcast (f_accountId (ds_frame s)) (ds_id s) ''new_metrics''
                         (newMetricsEvent (ds_id s) storedId (JObj kvs) now)) (h1\<lparr>h_db := d\<rparr>)
        | _ \<Rightarrow> h)"

definition handleAssets :: "io \<Rightarrow> device_session \<Rightarrow> fields \<Rightarrow> hub \<Rightarrow> hub" where
  "handleAssets io s msg h =
     on_db (\<lambda>d. fst (storeFrameAssetListing (ds_id s) (parseAssetEntries (map_of msg ''assets''))
                (map_of msg ''truncated'' = Some (JBool True)) (io_now io) d)) h"

section \<open>Asset streams\<close>

definition chunk_seq :: "fields \<Rightarrow> int option" where
  "chunk_seq msg =
     (case map_of msg ''seq'' of
        Some (JNum q) \<Rightarrow> if is_integer q \<and> q \<ge> 0 then Some \<lfloor>q\<rfloor> else None
      | _ \<Rightarrow> None)"

definition chunk_content_type :: "fields \<Rightarrow> string" where
  "chunk_content_type msg =
     (case map_of msg ''content_type'' of
        Some (JStr t) \<Rightarrow> if length t > 0 \<and> length t \<le> 256 then t else ''application/octet-stream''
      | _ \<Rightarrow> ''application/octet-stream'')"

definition new_stream :: "fields \<Rightarrow> asset_stream" where
  "new_stream msg = \<lparr>as_chunks = [], as_contentType = chunk_content_type msg, as_nextSeq = 0,
     as_receivedBytes = 0\<rparr>"

text \<open>
  The part of \<open>handleAssetChunk\<close> on the session's streams: the new streams, and the finished stream of
  a final chunk.
\<close>

definition chunk_step ::
  "ext \<Rightarrow> string \<Rightarrow> fields \<Rightarrow> (string \<times> asset_stream) list \<Rightarrow> (string \<times> asset_stream) list \<times> asset_stream option" where
  "chunk_step x cid msg streams =
     (case (if (case map_of msg ''error'' of Some (JStr e) \<Rightarrow> True | _ \<Rightarrow> False) then None else chunk_seq msg) of
        None \<Rightarrow> (AList.delete cid streams, None)
      | Some seq \<Rightarrow>
          let known = map_of streams cid
          in if (known = None \<or> seq = 0) \<and> seq \<noteq> 0 then (AList.delete cid streams, None)
             else if (known = None \<or> seq = 0) \<and> known = None \<and> length streams \<ge> maxAssetStreamsPerSession
               then (streams, None)
             else
               let (streams1, stream) =
                     (case known of
                        Some st \<Rightarrow> if seq = 0 then (AList.update cid (new_stream msg) streams, new_stream msg)
                                   else (streams, st)
                      | None \<Rightarrow> (AList.update cid (new_stream msg) streams, new_stream msg))
               in if seq \<noteq> as_nextSeq stream then (AList.delete cid streams1, None)
                  else
                    let chunk = base64_decode x (case map_of msg ''data'' of Some (JStr t) \<Rightarrow> t | _ \<Rightarrow> []);
                        received = as_receivedBytes stream + length chunk
                    in if received > maxAssetFileBytes then (AList.delete cid streams1, None)
                       else
                         let stream1 = stream\<lparr>as_chunks := as_chunks stream @ [chunk],
                               as_nextSeq := as_nextSeq stream + 1, as_receivedBytes := received\<rparr>
                         in if map_of msg ''done'' = Some (JBool True)
                            then (AList.delete cid streams1, Some stream1)
                            else (AList.update cid stream1 streams1, None))"

text \<open>The command row says what was requested; the path and thumbnail flag come from it alone.\<close>

definition asset_target :: "uuid \<Rightarrow> string \<Rightarrow> db \<Rightarrow> (string \<times> bool) option" where
  "asset_target fid cid d =
     (case select_one (\<lambda>c. c_id c = js_lower cid \<and> c_frameId c = fid
             \<and> c_type c \<in> {''asset_get'', ''image_get''}) (commands d) of
        None \<Rightarrow> None
      | Some c \<Rightarrow>
          let payload = obj_fields (Some (c_payload c));
              path = (if c_type c = ''image_get'' then frameImageAssetPath
                      else case map_of payload ''path'' of Some (JStr p) \<Rightarrow> p | _ \<Rightarrow> [])
          in if path = [] then None
             else Some (path, c_type c = ''asset_get'' \<and> map_of payload ''thumb'' = Some (JBool True)))"

definition handleAssetChunk :: "ext \<Rightarrow> io \<Rightarrow> nat \<Rightarrow> device_session \<Rightarrow> fields \<Rightarrow> hub \<Rightarrow> hub" where
  "handleAssetChunk x io sid s msg h =
     (case uuid_field msg of
        None \<Rightarrow> h
      | Some cid \<Rightarrow>
          let (streams, fin) = chunk_step x cid msg (ds_assetStreams s);
              h1 = put_session sid (s\<lparr>ds_assetStreams := streams\<rparr>) h
          in (case fin of
                None \<Rightarrow> h1
              | Some st \<Rightarrow>
                  (case asset_target (ds_id s) cid (h_db h1) of
                     None \<Rightarrow> h1
                   | Some (path, thumb) \<Rightarrow>
                       on_db (\<lambda>d. fst (storeFrameAssetFile (ds_id s) path thumb (as_contentType st)
                                 (concat (as_chunks st)) (io_now io) d)) h1)))"

section \<open>Dispatch\<close>

definition hello_fields :: "fields \<Rightarrow> fields" where
  "hello_fields msg =
     (case map_of msg ''frameos_version'' of Some (JStr v) \<Rightarrow> [(''frameos_version'', JStr v)] | _ \<Rightarrow> [])
     @ (case map_of msg ''states'' of Some (JObj kvs) \<Rightarrow> [(''states'', JObj kvs)] | _ \<Rightarrow> [])
     @ (case map_of msg ''scenes_checksum'' of Some (JStr v) \<Rightarrow> [(''scenes_checksum'', JStr v)] | _ \<Rightarrow> [])"

definition verifyFrameSignature :: "ext \<Rightarrow> string \<Rightarrow> bytes \<Rightarrow> string \<Rightarrow> bool" where
  "verifyFrameSignature x publicKeyBase64 message signatureBase64 =
     (let raw = base64_decode x publicKeyBase64; signature = base64_decode x signatureBase64
      in if length raw \<noteq> 32 \<or> length signature \<noteq> 64 then False
         else (case ed25519_verify x raw message signature of Some b \<Rightarrow> b | None \<Rightarrow> False))"

definition start_message :: "ext \<Rightarrow> io \<Rightarrow> nat \<Rightarrow> device_session \<Rightarrow> fields \<Rightarrow> hub \<Rightarrow> hub" where
  "start_message x io sid s msg h =
     (let activate = (\<lambda>s' h'. if ds_authed s' \<and> ds_hello s' \<noteq> None then activateDeviceSession io sid h' else h')
      in if map_of msg ''type'' = Some (JStr ''hello'') then
           (let s1 = s\<lparr>ds_hello := Some (hello_fields msg)\<rparr> in activate s1 (put_session sid s1 h))
         else if map_of msg ''type'' = Some (JStr ''auth'') then
           (let signature = (case map_of msg ''signature'' of Some (JStr t) \<Rightarrow> t | _ \<Rightarrow> [])
            in if \<not> verifyFrameSignature x (f_publicKey (ds_frame s)) (ds_nonce s) signature
               then emit (CloseDevice sid closeAuthFailed ''invalid_signature'') h
               else (let s1 = s\<lparr>ds_authed := True\<rparr> in activate s1 (put_session sid s1 h)))
         else activate s h)"

definition handleDeviceMessage :: "ext \<Rightarrow> io \<Rightarrow> nat \<Rightarrow> string \<Rightarrow> hub \<Rightarrow> hub" where
  "handleDeviceMessage x io sid text h =
     (case h_sessions h sid of
        None \<Rightarrow> h
      | Some s \<Rightarrow>
          (case parseJsonMessage text of
             None \<Rightarrow> h
           | Some msg \<Rightarrow>
               (case map_of msg ''type'' of
                  Some (JStr ty) \<Rightarrow>
                    if \<not> ds_ready s then start_message x io sid s msg h
                    else if ty = ''ack'' then handleAck io s msg h
                    else if ty = ''scene_ack'' then handleSceneAck io s msg h
                    else if ty = ''state'' then handleState io s msg h
                    else if ty = ''log_batch'' then handleLogBatch x io sid s msg h
                    else if ty = ''metrics'' then handleMetrics io sid s msg h
                    else if ty = ''assets'' then handleAssets io s msg h
                    else if ty = ''asset_chunk'' then handleAssetChunk x io sid s msg h
                    else h
                | _ \<Rightarrow> h)))"

section \<open>The life of a socket\<close>

definition challenge_message :: "ext \<Rightarrow> string \<Rightarrow> bytes \<Rightarrow> json" where
  "challenge_message x uid nonce =
     JObj [(''id'', JStr uid), (''nonce'', JStr (base64_encode x nonce)), (''type'', JStr ''challenge'')]"

definition new_session :: "frame \<Rightarrow> string list \<Rightarrow> string \<Rightarrow> bytes \<Rightarrow> device_session" where
  "new_session f scopes hubId nonce =
     \<lparr>ds_alive = True, ds_assetStreams = [], ds_authTimeout = True, ds_authed = False, ds_closed = False,
      ds_disconnectHandled = False, ds_frame = f, ds_hello = None, ds_hubSessionId = hubId,
      ds_nonce = nonce, ds_ready = False, ds_scopes = scopes\<rparr>"

definition attachDeviceSocket ::
  "ext \<Rightarrow> nat \<Rightarrow> frame \<Rightarrow> string list \<Rightarrow> string \<Rightarrow> bytes \<Rightarrow> string \<Rightarrow> hub \<Rightarrow> hub" where
  "attachDeviceSocket x sid f scopes hubId nonce uid h =
     emit (SendDevice sid (challenge_message x uid nonce)) (put_session sid (new_session f scopes hubId nonce) h)"

definition authTimeoutFired :: "nat \<Rightarrow> hub \<Rightarrow> hub" where
  "authTimeoutFired sid h =
     (case h_sessions h sid of
        Some s \<Rightarrow> if ds_authTimeout s \<and> \<not> ds_ready s
                  then emit (CloseDevice sid closeAuthTimeout ''auth_timeout'') h else h
      | None \<Rightarrow> h)"

definition devicePong :: "io \<Rightarrow> nat \<Rightarrow> hub \<Rightarrow> hub" where
  "devicePong io sid h =
     (case h_sessions h sid of
        None \<Rightarrow> h
      | Some s \<Rightarrow>
          let h1 = put_session sid (s\<lparr>ds_alive := True\<rparr>) h
          in if ds_ready s \<and> \<not> ds_closed s
             then on_frame (ds_id s) (\<lambda>f. f\<lparr>f_lastSeenAt := Some (io_now io)\<rparr>) h1 else h1)"

definition deviceClosed :: "io \<Rightarrow> nat \<Rightarrow> hub \<Rightarrow> hub" where
  "deviceClosed io sid h =
     (case h_sessions h sid of
        None \<Rightarrow> h
      | Some s \<Rightarrow>
          let h1 = put_session sid (s\<lparr>ds_closed := True, ds_authTimeout := False\<rparr>) h
          in if \<not> ds_ready s then h1 else markDeviceDisconnected io sid h1)"

text \<open>The heartbeat, over the routes in order, and the wake-up by a NOTIFY.\<close>

definition heartbeat_device :: "nat \<Rightarrow> hub \<Rightarrow> hub" where
  "heartbeat_device sid h =
     (case h_sessions h sid of
        None \<Rightarrow> h
      | Some s \<Rightarrow> if \<not> ds_alive s then emit (Terminate sid) h
                  else emit (Ping sid) (put_session sid (s\<lparr>ds_alive := False\<rparr>) h))"

definition heartbeat_devices :: "hub \<Rightarrow> hub" where
  "heartbeat_devices h = fold heartbeat_device (map snd (h_routes h)) h"

definition notified_frame :: "io \<Rightarrow> uuid \<Rightarrow> hub \<Rightarrow> hub" where
  "notified_frame io fid h =
     (if fid = [] then h
      else case map_of (h_routes h) fid of
             None \<Rightarrow> h
           | Some sid \<Rightarrow> (case h_sessions h sid of
                            Some s \<Rightarrow> if ds_ready s then wakeSession io sid h else h
                          | None \<Rightarrow> h))"

definition sweep_devices :: "io \<Rightarrow> hub \<Rightarrow> hub" where
  "sweep_devices io h =
     (let h1 = on_db (expireStaleCommands (io_now io) None) h
      in fold (\<lambda>sid h'. case h_sessions h' sid of
                 Some s \<Rightarrow> if ds_ready s then wakeSession io sid h' else h'
               | None \<Rightarrow> h') (map snd (h_routes h1)) h1)"

text \<open>Boot: the hub owns every frame, so no row may still say it is connected.\<close>

definition boot :: "time \<Rightarrow> db \<Rightarrow> hub" where
  "boot now d =
     \<lparr>h_db = d\<lparr>frames := update_where f_connected
         (\<lambda>f. f\<lparr>f_connected := False, f_hubSessionId := None, f_updatedAt := now\<rparr>) (frames d)\<rparr>,
      h_sessions = Map.empty, h_routes = [], h_limits = \<lparr>rm_buckets = Map.empty, rm_ops = 0\<rparr>, h_out = []\<rparr>"

definition close_device :: "io \<Rightarrow> nat \<Rightarrow> hub \<Rightarrow> hub" where
  "close_device io sid h =
     (case h_sessions h sid of
        None \<Rightarrow> h
      | Some s \<Rightarrow>
          emit (CloseDevice sid 1001 ''shutting_down'')
            (on_db (\<lambda>d. d\<lparr>frames := update_where
                (\<lambda>f. f_id f = ds_id s \<and> f_hubSessionId f = Some (ds_hubSessionId s))
                (\<lambda>f. f\<lparr>f_connected := False, f_updatedAt := io_now io\<rparr>) (frames d)\<rparr>)
              (put_session sid (s\<lparr>ds_closed := True\<rparr>) h)))"

definition close_devices :: "io \<Rightarrow> hub \<Rightarrow> hub" where
  "close_devices io h = fold (close_device io) (map snd (h_routes h)) (h\<lparr>h_routes := []\<rparr>)"

end
