(* ===== verification/HubInvariant.thy ===== *)
theory HubInvariant imports HubSessions begin

text \<open>
  What holds of the hub in every state it can reach: which sessions may be ready, what the routing
  table points to, what an asset stream may hold, and to whom commands were written.  The step
  relation \<open>hub_step\<close> has a constructor per entry point of \<open>hub.ts\<close> and one for the writes of the web
  application to the shared database.
\<close>

section \<open>The invariant\<close>

text \<open>
  \<open>M\<close> is the list of messages delivered so far, with their sockets.  A session is signed when one of
  them carried a valid signature of the session's nonce under the frame's public key.
\<close>

definition auth_signature :: "fields \<Rightarrow> string" where
  "auth_signature msg = (case map_of msg ''signature'' of Some (JStr t) \<Rightarrow> t | _ \<Rightarrow> [])"

definition signed :: "ext \<Rightarrow> (nat \<times> string) set \<Rightarrow> nat \<Rightarrow> device_session \<Rightarrow> bool" where
  "signed x M sid s \<longleftrightarrow> (\<exists>text msg. (sid, text) \<in> M \<and> parseJsonMessage text = Some msg
     \<and> map_of msg ''type'' = Some (JStr ''auth'')
     \<and> verifyFrameSignature x (f_publicKey (ds_frame s)) (ds_nonce s) (auth_signature msg))"

definition stream_ok :: "asset_stream \<Rightarrow> bool" where
  "stream_ok st \<longleftrightarrow> as_receivedBytes st = length (concat (as_chunks st))
     \<and> as_nextSeq st = int (length (as_chunks st)) \<and> as_receivedBytes st \<le> maxAssetFileBytes"

definition streams_ok :: "(string \<times> asset_stream) list \<Rightarrow> bool" where
  "streams_ok streams \<longleftrightarrow> distinct (map fst streams) \<and> length streams \<le> maxAssetStreamsPerSession
     \<and> (\<forall>(cid, st)\<in>set streams. stream_ok st)"

definition session_ok :: "ext \<Rightarrow> (nat \<times> string) set \<Rightarrow> nat \<Rightarrow> device_session \<Rightarrow> bool" where
  "session_ok x M sid s \<longleftrightarrow> (ds_ready s \<longrightarrow> ds_authed s \<and> ds_hello s \<noteq> None \<and> \<not> ds_authTimeout s)
     \<and> (ds_authed s \<longrightarrow> signed x M sid s) \<and> streams_ok (ds_assetStreams s)"

fun out_ok :: "(nat \<rightharpoonup> device_session) \<Rightarrow> hub_output \<Rightarrow> bool" where
  "out_ok ss (SendCommand sid t) = (\<exists>s. ss sid = Some s \<and> ds_ready s)"
| "out_ok ss _ = True"

definition hub_ok :: "ext \<Rightarrow> (nat \<times> string) set \<Rightarrow> hub \<Rightarrow> bool" where
  "hub_ok x M h \<longleftrightarrow> (\<forall>sid s. h_sessions h sid = Some s \<longrightarrow> session_ok x M sid s)
     \<and> distinct (map fst (h_routes h))
     \<and> (\<forall>(fid, sid)\<in>set (h_routes h). \<exists>s. h_sessions h sid = Some s \<and> ds_ready s \<and> ds_id s = fid)
     \<and> (\<forall>out\<in>set (h_out h). out_ok (h_sessions h) out)"

section \<open>Preservation by the primitives\<close>

lemma ok_session: "hub_ok x M h \<Longrightarrow> h_sessions h sid = Some s \<Longrightarrow> session_ok x M sid s"
  by (simp add: hub_ok_def)

lemma ok_db [inv_intros]: "hub_ok x M h \<Longrightarrow> hub_ok x M (on_db f h)"
  by (simp add: hub_ok_def on_db_def)

lemma ok_db_set [inv_intros]: "hub_ok x M h \<Longrightarrow> hub_ok x M (h\<lparr>h_db := d\<rparr>)"
  by (simp add: hub_ok_def)

lemma ok_limits [inv_intros]: "hub_ok x M h \<Longrightarrow> hub_ok x M (h\<lparr>h_limits := m\<rparr>)"
  by (simp add: hub_ok_def)

lemma ok_on_frame [inv_intros]: "hub_ok x M h \<Longrightarrow> hub_ok x M (on_frame fid f h)"
  by (simp add: on_frame_def ok_db)

lemma ok_emit [inv_intros]: "hub_ok x M h \<Longrightarrow> out_ok (h_sessions h) out \<Longrightarrow> hub_ok x M (emit out h)"
  by (simp add: hub_ok_def emit_def)

lemma ok_outs [inv_intros]:
  "hub_ok x M h \<Longrightarrow> \<forall>out\<in>set outs. out_ok (h_sessions h) out \<Longrightarrow> hub_ok x M (h\<lparr>h_out := h_out h @ outs\<rparr>)"
  by (auto simp: hub_ok_def)

lemma out_ok_mono:
  "out_ok ss out \<Longrightarrow> ss sid = Some s \<Longrightarrow> (ds_ready s \<longrightarrow> ds_ready s') \<Longrightarrow> out_ok (ss(sid \<mapsto> s')) out"
  by (cases out) auto

lemma ok_put:
  assumes h: "hub_ok x M h" and s: "h_sessions h sid = Some s" and s': "session_ok x M sid s'"
    and "ds_id s' = ds_id s" and "ds_ready s \<longrightarrow> ds_ready s'"
  shows "hub_ok x M (put_session sid s' h)"
  using assms out_ok_mono [where ss = "h_sessions h" and sid = sid and s = s and s' = s']
  by (fastforce simp: hub_ok_def put_session_def)

lemma ok_put_fresh:
  assumes h: "hub_ok x M h" and s: "h_sessions h sid = None" and s': "session_ok x M sid s'"
  shows "hub_ok x M (put_session sid s' h)"
proof -
  have "out_ok ((h_sessions h)(sid \<mapsto> s')) out" if "out_ok (h_sessions h) out" for out
    using that s by (cases out) auto
  then show ?thesis using assms by (fastforce simp: hub_ok_def put_session_def)
qed

lemma ok_route:
  "hub_ok x M h \<Longrightarrow> h_sessions h sid = Some s \<Longrightarrow> ds_ready s \<Longrightarrow> ds_id s = fid \<Longrightarrow>
   hub_ok x M (h\<lparr>h_routes := AList.update fid sid (h_routes h)\<rparr>)"
  by (auto simp: hub_ok_def distinct_update dest!: in_alist_update)

lemma ok_unroute: "hub_ok x M h \<Longrightarrow> hub_ok x M (h\<lparr>h_routes := AList.delete fid (h_routes h)\<rparr>)"
  by (auto simp: hub_ok_def distinct_delete)

section \<open>Preservation by the handlers\<close>

lemma ok_broadcastFrameUpdate [inv_intros]: "hub_ok x M h \<Longrightarrow> hub_ok x M (broadcastFrameUpdate fid h)"
  by (auto simp: broadcastFrameUpdate_def intro!: inv_intros split: option.split)

lemma sessions_broadcastFrameUpdate [simp]: "h_sessions (broadcastFrameUpdate fid h) = h_sessions h"
  by (simp add: broadcastFrameUpdate_def emit_def split: option.split)

lemma ok_drainCommands [inv_intros]: "hub_ok x M h \<Longrightarrow> hub_ok x M (drainCommands io sid h)"
proof (cases "h_sessions h sid")
  case (Some s)
  assume h: "hub_ok x M h"
  obtain d texts where dr: "drain_pass (io_sock io) (ds_id s) (io_now io) (h_db h) = (d, texts)"
    by (cases "drain_pass (io_sock io) (ds_id s) (io_now io) (h_db h)")
  have "hub_ok x M ((h\<lparr>h_db := d\<rparr>)\<lparr>h_out := h_out (h\<lparr>h_db := d\<rparr>) @ map (SendCommand sid) texts\<rparr>)" if "ds_ready s"
    using h Some that by (intro inv_intros) auto
  then show ?thesis using h Some dr by (auto simp: drainCommands_def)
qed (simp add: drainCommands_def)

lemma ok_markDeviceDisconnected [inv_intros]: "hub_ok x M h \<Longrightarrow> hub_ok x M (markDeviceDisconnected io sid h)"
proof (cases "h_sessions h sid")
  case (Some s)
  assume h: "hub_ok x M h"
  then have "session_ok x M sid (s\<lparr>ds_disconnectHandled := True\<rparr>)"
    using ok_session [OF h Some] by (simp add: session_ok_def signed_def)
  then have "hub_ok x M (put_session sid (s\<lparr>ds_disconnectHandled := True\<rparr>) h)"
    by (rule ok_put [OF h Some]) (auto simp: ds_id_def)
  with h Some show ?thesis
    by (auto simp: markDeviceDisconnected_def Let_def intro!: inv_intros ok_unroute)
qed (simp add: markDeviceDisconnected_def)

lemma ok_kickRevokedSession [inv_intros]: "hub_ok x M h \<Longrightarrow> hub_ok x M (kickRevokedSession io sid h)"
  by (simp add: kickRevokedSession_def inv_intros)

lemma ok_wakeSession [inv_intros]: "hub_ok x M h \<Longrightarrow> hub_ok x M (wakeSession io sid h)"
  by (auto simp: wakeSession_def intro!: inv_intros split: option.split)

lemma ok_sendAckError [inv_intros]: "hub_ok x M h \<Longrightarrow> hub_ok x M (sendAckError io sid msg e h)"
  by (auto simp: sendAckError_def intro!: inv_intros)

lemma ok_activateDeviceSession:
  assumes h: "hub_ok x M h" and s: "h_sessions h sid = Some s" and a: "ds_authed s" "ds_hello s \<noteq> None"
  shows "hub_ok x M (activateDeviceSession io sid h)"
proof (cases "isFrameRevoked (ds_id s) (h_db h)")
  case False
  let ?s = "s\<lparr>ds_ready := True, ds_authTimeout := False\<rparr>"
  let ?h1 = "put_session sid ?s h"
  define h2 where "h2 = (case map_of (h_routes ?h1) (ds_id s) of
                        Some prev \<Rightarrow> if prev \<noteq> sid
                                     then emit (CloseDevice prev closeSuperseded ''superseded'') ?h1 else ?h1
                      | None \<Rightarrow> ?h1)"
  have "session_ok x M sid ?s" using ok_session [OF h s] a by (simp add: session_ok_def signed_def)
  then have h1: "hub_ok x M ?h1" using h s by (intro ok_put) (simp_all add: ds_id_def)
  then have h2: "hub_ok x M h2" by (auto simp: h2_def intro!: inv_intros split: option.split)
  have "h_sessions h2 sid = Some ?s" by (auto simp: h2_def put_session_def emit_def split: option.split)
  with h2 have "hub_ok x M (h2\<lparr>h_routes := AList.update (ds_id s) sid (h_routes h2)\<rparr>)"
    by (intro ok_route [where s = ?s]) (simp_all add: ds_id_def)
  then show ?thesis
    unfolding activateDeviceSession_def Let_def s option.case h2_def [symmetric] if_not_P [OF False]
    by (auto intro!: inv_intros)
qed (use h s in \<open>simp add: activateDeviceSession_def inv_intros\<close>)

lemma ok_handleAck [inv_intros]: "hub_ok x M h \<Longrightarrow> hub_ok x M (handleAck io s msg h)"
  by (auto simp: handleAck_def intro!: inv_intros split: option.split)

lemma ok_handleSceneAck [inv_intros]: "hub_ok x M h \<Longrightarrow> hub_ok x M (handleSceneAck io s msg h)"
  by (auto simp: handleSceneAck_def Let_def intro!: inv_intros)

lemma ok_handleState [inv_intros]: "hub_ok x M h \<Longrightarrow> hub_ok x M (handleState io s msg h)"
  by (auto simp: handleState_def Let_def intro!: inv_intros)

lemma ok_handleLogBatch [inv_intros]: "hub_ok x M h \<Longrightarrow> hub_ok x M (handleLogBatch x' io sid s msg h)"
  by (auto simp: handleLogBatch_def Let_def hub_ok_def sendAckError_def emit_def split: prod.split option.split)

lemma ok_handleMetrics [inv_intros]: "hub_ok x M h \<Longrightarrow> hub_ok x M (handleMetrics io sid s msg h)"
  by (auto simp: handleMetrics_def Let_def intro!: inv_intros split: prod.split option.split json.split)

lemma ok_handleAssets [inv_intros]: "hub_ok x M h \<Longrightarrow> hub_ok x M (handleAssets io s msg h)"
  by (simp add: handleAssets_def inv_intros)

section \<open>Asset streams\<close>

lemma streams_ok_delete: "streams_ok ss \<Longrightarrow> streams_ok (AList.delete cid ss)"
  using length_alist_delete_le [of cid ss] by (auto simp: streams_ok_def distinct_delete)

lemma streams_ok_update_known:
  "streams_ok ss \<Longrightarrow> map_of ss cid = Some st \<Longrightarrow> stream_ok st' \<Longrightarrow> streams_ok (AList.update cid st' ss)"
  by (auto simp: streams_ok_def distinct_update length_alist_update_known dest!: in_alist_update)

lemma streams_ok_update_new:
  "streams_ok ss \<Longrightarrow> length ss < maxAssetStreamsPerSession \<Longrightarrow> stream_ok st' \<Longrightarrow>
   streams_ok (AList.update cid st' ss)"
  using length_alist_update_le [of cid st' ss]
  by (auto simp: streams_ok_def distinct_update dest!: in_alist_update)

lemma stream_ok_new: "stream_ok (new_stream msg)"
  by (simp add: stream_ok_def new_stream_def)

definition grown :: "asset_stream \<Rightarrow> bytes \<Rightarrow> asset_stream" where
  "grown st chunk = st\<lparr>as_chunks := as_chunks st @ [chunk], as_nextSeq := as_nextSeq st + 1,
     as_receivedBytes := as_receivedBytes st + length chunk\<rparr>"

lemma stream_ok_grown:
  "stream_ok st \<Longrightarrow> as_receivedBytes st + length chunk \<le> maxAssetFileBytes \<Longrightarrow> stream_ok (grown st chunk)"
  by (simp add: stream_ok_def grown_def)

definition chunk_data :: "ext \<Rightarrow> fields \<Rightarrow> bytes" where
  "chunk_data x msg = base64_decode x (case map_of msg ''data'' of Some (JStr t) \<Rightarrow> t | _ \<Rightarrow> [])"

text \<open>What a chunk does to the stream it belongs to, once there is one.\<close>

definition feed ::
  "ext \<Rightarrow> string \<Rightarrow> fields \<Rightarrow> (string \<times> asset_stream) list \<Rightarrow> asset_stream \<Rightarrow> int \<Rightarrow>
   (string \<times> asset_stream) list \<times> asset_stream option" where
  "feed x cid msg streams st seq =
     (if seq \<noteq> as_nextSeq st \<or> as_receivedBytes st + length (chunk_data x msg) > maxAssetFileBytes
      then (AList.delete cid streams, None)
      else if map_of msg ''done'' = Some (JBool True)
        then (AList.delete cid streams, Some (grown st (chunk_data x msg)))
      else (AList.update cid (grown st (chunk_data x msg)) streams, None))"

definition aborts :: "fields \<Rightarrow> bool" where
  "aborts msg \<longleftrightarrow> (\<exists>e. map_of msg ''error'' = Some (JStr e)) \<or> chunk_seq msg = None"

lemma chunk_step_cases:
  "chunk_step x cid msg ss =
     (if aborts msg then (AList.delete cid ss, None)
      else let seq = the (chunk_seq msg)
           in if seq \<noteq> 0
              then (case map_of ss cid of None \<Rightarrow> (AList.delete cid ss, None) | Some st \<Rightarrow> feed x cid msg ss st seq)
              else if map_of ss cid = None \<and> length ss \<ge> maxAssetStreamsPerSession then (ss, None)
              else feed x cid msg (AList.update cid (new_stream msg) ss) (new_stream msg) 0)"
proof -
  have ab: "(if (case map_of msg ''error'' of Some (JStr e) \<Rightarrow> True | _ \<Rightarrow> False) then None else chunk_seq msg)
      = (if aborts msg then None else chunk_seq msg)"
    by (auto simp: aborts_def split: option.split json.split)
  show ?thesis
  proof (cases "aborts msg")
    case True
    then show ?thesis unfolding chunk_step_def ab by simp
  next
    case False
    then obtain seq where seq: "chunk_seq msg = Some seq" by (auto simp: aborts_def)
    show ?thesis
      unfolding chunk_step_def ab
      unfolding if_not_P [OF False] seq option.case option.sel
      by (cases "map_of ss cid"; cases "seq = 0")
        (simp_all add: Let_def feed_def grown_def chunk_data_def new_stream_def)
  qed
qed

lemma feed_fin_ok: "snd (feed x cid msg ss st seq) = Some fin \<Longrightarrow> stream_ok st \<Longrightarrow> stream_ok fin"
  by (auto simp: feed_def stream_ok_grown split: if_splits)

lemma streams_ok_feed:
  assumes "streams_ok ss" "map_of ss cid = Some st" "stream_ok st"
  shows "streams_ok (fst (feed x cid msg ss st seq))"
  using assms by (auto simp: feed_def streams_ok_delete stream_ok_grown streams_ok_update_known split: if_splits)

lemma chunk_step_ok:
  assumes "streams_ok ss"
  shows "streams_ok (fst (chunk_step x cid msg ss))"
    and "snd (chunk_step x cid msg ss) = Some fin \<Longrightarrow> stream_ok fin"
proof -
  have known: "stream_ok st" if "map_of ss cid = Some st" for st
    using assms map_of_SomeD [OF that] by (auto simp: streams_ok_def)
  have new: "streams_ok (AList.update cid (new_stream msg) ss)"
    if "\<not> (map_of ss cid = None \<and> length ss \<ge> maxAssetStreamsPerSession)"
    using that assms by (cases "map_of ss cid")
      (auto intro: streams_ok_update_new streams_ok_update_known stream_ok_new)
  show "streams_ok (fst (chunk_step x cid msg ss))"
    using assms known new
    by (auto simp: chunk_step_cases Let_def streams_ok_delete streams_ok_feed stream_ok_new split: option.split)
  show "snd (chunk_step x cid msg ss) = Some fin \<Longrightarrow> stream_ok fin"
    using known feed_fin_ok [OF _ stream_ok_new] feed_fin_ok [OF _ known]
    by (auto simp: chunk_step_cases Let_def split: option.splits if_splits)
qed

lemma ok_handleAssetChunk:
  assumes h: "hub_ok x M h" and s: "h_sessions h sid = Some s"
  shows "hub_ok x M (handleAssetChunk x' io sid s msg h)"
proof (cases "uuid_field msg")
  case (Some cid)
  obtain ss fin where c: "chunk_step x' cid msg (ds_assetStreams s) = (ss, fin)"
    by (cases "chunk_step x' cid msg (ds_assetStreams s)")
  have "streams_ok ss"
    using chunk_step_ok(1) [of "ds_assetStreams s" x' cid msg] ok_session [OF h s] c
    by (simp add: session_ok_def)
  then have "session_ok x M sid (s\<lparr>ds_assetStreams := ss\<rparr>)"
    using ok_session [OF h s] by (simp add: session_ok_def signed_def)
  then have "hub_ok x M (put_session sid (s\<lparr>ds_assetStreams := ss\<rparr>) h)"
    by (rule ok_put [OF h s]) (auto simp: ds_id_def)
  with Some c show ?thesis
    by (auto simp: handleAssetChunk_def Let_def intro!: inv_intros split: option.split prod.split)
qed (simp add: handleAssetChunk_def h)

lemma ok_start_message:
  assumes h: "hub_ok x M h" and s: "h_sessions h sid = Some s" and r: "\<not> ds_ready s"
    and m: "(sid, text) \<in> M" "parseJsonMessage text = Some msg"
  shows "hub_ok x M (start_message x io sid s msg h)"
proof -
  have so: "session_ok x M sid s" by (rule ok_session [OF h s])
  have act: "hub_ok x M (if ds_authed s' \<and> ds_hello s' \<noteq> None then activateDeviceSession io sid (put_session sid s' h)
      else put_session sid s' h)"
    if s': "session_ok x M sid s'" "ds_id s' = ds_id s" for s'
  proof -
    have "hub_ok x M (put_session sid s' h)" using h s s' r by (intro ok_put) auto
    then show ?thesis by (auto intro: ok_activateDeviceSession simp: put_session_def)
  qed
  have "session_ok x M sid (s\<lparr>ds_hello := Some kvs\<rparr>)" for kvs
    using so by (simp add: session_ok_def signed_def)
  moreover have "session_ok x M sid (s\<lparr>ds_authed := True\<rparr>)"
    if "map_of msg ''type'' = Some (JStr ''auth'')"
      "verifyFrameSignature x (f_publicKey (ds_frame s)) (ds_nonce s) (auth_signature msg)"
    using so that m by (auto simp: session_ok_def signed_def)
  ultimately show ?thesis
    using act [of s] act [of "s\<lparr>ds_hello := Some (hello_fields msg)\<rparr>"] act [of "s\<lparr>ds_authed := True\<rparr>"] so h
      ok_activateDeviceSession [OF h s]
    by (cases "map_of msg ''type'' = Some (JStr ''hello'')"; cases "map_of msg ''type'' = Some (JStr ''auth'')")
      (simp_all only: start_message_def Let_def if_True if_False auth_signature_def [symmetric], auto simp: ds_id_def intro!: inv_intros)
qed

lemma ok_if: "(P \<Longrightarrow> hub_ok x M a) \<Longrightarrow> (\<not> P \<Longrightarrow> hub_ok x M b) \<Longrightarrow> hub_ok x M (if P then a else b)"
  by simp

lemma ok_handleDeviceMessage: "hub_ok x M h \<Longrightarrow> (sid, text) \<in> M \<Longrightarrow> hub_ok x M (handleDeviceMessage x io sid text h)"
proof (cases "h_sessions h sid")
  case (Some s)
  assume h: "hub_ok x M h" and M: "(sid, text) \<in> M"
  show ?thesis
  proof (cases "\<exists>msg ty. parseJsonMessage text = Some msg \<and> map_of msg ''type'' = Some (JStr ty)")
    case True
    then obtain msg ty where m: "parseJsonMessage text = Some msg" "map_of msg ''type'' = Some (JStr ty)"
      by blast
    show ?thesis
      unfolding handleDeviceMessage_def Some m option.case json.case
      by (intro ok_if ok_start_message [OF h Some _ M m(1)] ok_handleAssetChunk [OF h Some] inv_intros h)
  next
    case False
    then have "handleDeviceMessage x io sid text h = h"
      by (auto simp: handleDeviceMessage_def split: option.split json.split)
    with h show ?thesis by simp
  qed
qed (simp add: handleDeviceMessage_def)

section \<open>Reachable states\<close>

lemma ok_put_flags:
  assumes "hub_ok x M h" "h_sessions h sid = Some s"
  shows "hub_ok x M (put_session sid (s\<lparr>ds_alive := b\<rparr>) h)"
    and "hub_ok x M (put_session sid (s\<lparr>ds_closed := True, ds_authTimeout := False\<rparr>) h)"
    and "hub_ok x M (put_session sid (s\<lparr>ds_closed := True\<rparr>) h)"
proof -
  have so: "session_ok x M sid s" by (rule ok_session [OF assms])
  show "hub_ok x M (put_session sid (s\<lparr>ds_alive := b\<rparr>) h)"
    by (rule ok_put [OF assms]) (use so in \<open>auto simp: session_ok_def signed_def ds_id_def\<close>)
  show "hub_ok x M (put_session sid (s\<lparr>ds_closed := True, ds_authTimeout := False\<rparr>) h)"
    by (rule ok_put [OF assms]) (use so in \<open>auto simp: session_ok_def signed_def ds_id_def\<close>)
  show "hub_ok x M (put_session sid (s\<lparr>ds_closed := True\<rparr>) h)"
    by (rule ok_put [OF assms]) (use so in \<open>auto simp: session_ok_def signed_def ds_id_def\<close>)
qed

lemma ok_attachDeviceSocket:
  "hub_ok x M h \<Longrightarrow> h_sessions h sid = None \<Longrightarrow> hub_ok x M (attachDeviceSocket x' sid f scopes hubId nonce uid h)"
  unfolding attachDeviceSocket_def
  by (intro ok_emit ok_put_fresh) (auto simp: session_ok_def new_session_def streams_ok_def)

lemma ok_authTimeoutFired: "hub_ok x M h \<Longrightarrow> hub_ok x M (authTimeoutFired sid h)"
  by (auto simp: authTimeoutFired_def intro!: inv_intros split: option.split)

lemma ok_devicePong: "hub_ok x M h \<Longrightarrow> hub_ok x M (devicePong io sid h)"
  by (auto simp: devicePong_def Let_def intro!: inv_intros ok_put_flags split: option.split)

lemma ok_deviceClosed: "hub_ok x M h \<Longrightarrow> hub_ok x M (deviceClosed io sid h)"
  by (auto simp: deviceClosed_def Let_def intro!: inv_intros ok_put_flags split: option.split)

lemma ok_fold: "(\<And>a h. hub_ok x M h \<Longrightarrow> hub_ok x M (f a h)) \<Longrightarrow> hub_ok x M h \<Longrightarrow> hub_ok x M (fold f as h)"
  by (induction as arbitrary: h) auto

lemma ok_heartbeat: "hub_ok x M h \<Longrightarrow> hub_ok x M (heartbeat_devices h)"
  unfolding heartbeat_devices_def
  by (rule ok_fold)
    (auto simp: heartbeat_device_def intro!: inv_intros ok_put_flags split: option.split)

lemma ok_notified: "hub_ok x M h \<Longrightarrow> hub_ok x M (notified_frame io fid h)"
  by (auto simp: notified_frame_def intro!: inv_intros split: option.split)

lemma ok_sweep: "hub_ok x M h \<Longrightarrow> hub_ok x M (sweep_devices io h)"
  unfolding sweep_devices_def Let_def
  by (rule ok_fold) (auto intro!: inv_intros split: option.split)

lemma ok_close: "hub_ok x M h \<Longrightarrow> hub_ok x M (close_devices io h)"
  unfolding close_devices_def
proof (rule ok_fold)
  show "hub_ok x M h \<Longrightarrow> hub_ok x M (h\<lparr>h_routes := []\<rparr>)" by (simp add: hub_ok_def)
qed (auto simp: close_device_def intro!: inv_intros ok_put_flags split: option.split)

lemma ok_boot: "hub_ok x M (boot now d)"
  by (simp add: hub_ok_def boot_def)

text \<open>A step is labelled with the message it delivers, if it delivers one.\<close>

inductive hub_step :: "ext \<Rightarrow> hub \<Rightarrow> (nat \<times> string) set \<Rightarrow> hub \<Rightarrow> bool" for x where
  attached: "h_sessions h sid = None \<Longrightarrow>
    hub_step x h {} (attachDeviceSocket x sid f scopes hubId nonce uid h)"
| message: "hub_step x h {(sid, text)} (handleDeviceMessage x io sid text h)"
| timeout: "hub_step x h {} (authTimeoutFired sid h)"
| pong: "hub_step x h {} (devicePong io sid h)"
| closed: "hub_step x h {} (deviceClosed io sid h)"
| heartbeat: "hub_step x h {} (heartbeat_devices h)"
| notify: "hub_step x h {} (notified_frame io fid h)"
| swept: "hub_step x h {} (sweep_devices io h)"
| shutdown: "hub_step x h {} (close_devices io h)"
| web_write: "hub_step x h {} (on_db g h)"

inductive_cases hub_step_messageE: "hub_step x h {m} h'"

text \<open>\<open>hub_run x M h\<close>: the hub reaches \<open>h\<close> from some boot, having been delivered the messages \<open>M\<close>.\<close>

inductive hub_run :: "ext \<Rightarrow> (nat \<times> string) set \<Rightarrow> hub \<Rightarrow> bool" for x where
  booted: "hub_run x {} (boot now d)"
| stepped: "hub_run x M h \<Longrightarrow> hub_step x h L h' \<Longrightarrow> hub_run x (M \<union> L) h'"

lemma hub_ok_mono: "hub_ok x M h \<Longrightarrow> M \<subseteq> M' \<Longrightarrow> hub_ok x M' h"
  unfolding hub_ok_def session_ok_def signed_def by (meson subsetD)

lemma hub_step_ok: "hub_step x h L h' \<Longrightarrow> hub_ok x M h \<Longrightarrow> L \<subseteq> M \<Longrightarrow> hub_ok x M h'"
  by (induction rule: hub_step.induct)
    (auto intro: ok_attachDeviceSocket ok_handleDeviceMessage ok_authTimeoutFired ok_devicePong ok_deviceClosed
      ok_heartbeat ok_notified ok_sweep ok_close ok_db)

lemma hub_run_ok: "hub_run x M h \<Longrightarrow> hub_ok x M h"
proof (induction rule: hub_run.induct)
  case (stepped M h L h')
  then show ?case using hub_step_ok [OF stepped(2)] hub_ok_mono [of x M h "M \<union> L"] by simp
qed (rule ok_boot)

end
