(* ===== verification/HubProperties.thy ===== *)
theory HubProperties imports HubInvariant begin

text \<open>
  The properties of the hub's device sockets: who is sent commands, what a newer socket does to an
  older one, what a revocation does to a live one, how asset streams are reassembled and where their
  bytes may go, and what a device can make the hub store.
\<close>

section \<open>The handshake\<close>

text \<open>
  C1.  A command is written only to a socket that proved itself.  In every state the hub can reach, if
  a command was sent on a socket then that socket's session has said hello and one of the messages
  delivered on that very socket was an \<open>auth\<close> carrying a valid signature, under the frame's public
  key, of the nonce the hub chose for it.
\<close>

theorem commands_only_to_signed_sessions:
  assumes "hub_run x M h" and "SendCommand sid t \<in> set (h_out h)"
  shows "\<exists>s text msg. h_sessions h sid = Some s \<and> ds_hello s \<noteq> None \<and> (sid, text) \<in> M
       \<and> parseJsonMessage text = Some msg \<and> map_of msg ''type'' = Some (JStr ''auth'')
       \<and> verifyFrameSignature x (f_publicKey (ds_frame s)) (ds_nonce s) (auth_signature msg)"
proof -
  have ok: "hub_ok x M h" by (rule hub_run_ok [OF assms(1)])
  then have "out_ok (h_sessions h) (SendCommand sid t)" using assms(2) by (auto simp: hub_ok_def)
  then obtain s where s: "h_sessions h sid = Some s" "ds_ready s" by auto
  then have "session_ok x M sid s" by (blast intro: ok_session [OF ok])
  with s show ?thesis by (auto simp: session_ok_def signed_def)
qed

definition demo_key :: string where "demo_key = replicate 32 (CHR ''k'')"
definition demo_nonce :: string where "demo_nonce = replicate 32 (CHR ''n'')"

definition demo_frame :: frame where
  "demo_frame = \<lparr>f_id = ''f'', f_accountId = ''a'', f_linkedClientId = ''l'', f_name = ''Kitchen'',
     f_publicKey = demo_key, f_hardware = JNull, f_frameosVersion = None, f_status = FrameActive,
     f_connected = False, f_hubSessionId = None, f_lastSeenAt = None, f_lastState = JNull,
     f_lastMetrics = JNull, f_assignedChecksum = None, f_scenesChecksum = None, f_createdAt = 0,
     f_updatedAt = 0\<rparr>"

definition demo_client :: linked_client where
  "demo_client = \<lparr>l_id = ''l'', l_accountId = ''a'', l_clientKind = ''frame'', l_encryptedRefreshToken = None,
     l_lastSeenAt = None, l_lastTokenRotationAt = None, l_localOrigin = None, l_previousTokenExpiresAt = None,
     l_previousTokenReference = None,
     l_metadata = JObj [(''requestedScopes'', JArr [JStr ''frame:managed'', JStr ''telemetry:logs''])],
     l_displayName = ''Kitchen'', l_revokedAt = None, l_tokenReference = ''#tok'', l_createdAt = 0,
     l_updatedAt = 0\<rparr>"

definition demo_db :: db where
  "demo_db = empty_db\<lparr>frames := [demo_frame], linkedClients := [demo_client], commands := [sample_command]\<rparr>"

definition demo_io :: io where
  "demo_io = \<lparr>io_now = 5, io_open = True, io_sock = (\<lambda>i. (True, 0)), io_uuid = ''u''\<rparr>"

definition quoted :: "string \<Rightarrow> string" where
  "quoted s = map (\<lambda>c. if c = CHR ''!'' then CHR 0x22 else c) s"

definition hello_text :: string where "hello_text = quoted ''{!type!:!hello!}''"
definition auth_text :: string where
  "auth_text = quoted (''{!type!:!auth!,!signature!:!'' @ demo_key @ demo_nonce @ ''!}'')"

definition demo_attached :: hub where
  "demo_attached = attachDeviceSocket sample_ext 0 demo_frame [''frame:managed''] ''h1'' demo_nonce ''u'' (boot 1 demo_db)"

definition demo_ready :: hub where
  "demo_ready = handleDeviceMessage sample_ext demo_io 0 auth_text
     (handleDeviceMessage sample_ext demo_io 0 hello_text demo_attached)"

lemma demo_run: "hub_run sample_ext {(0, auth_text), (0, hello_text)} demo_ready"
proof -
  have msg: "hub_run sample_ext (M \<union> {(0, t)}) (handleDeviceMessage sample_ext demo_io 0 t h)"
    if "hub_run sample_ext M h" for M t h
    using that by (rule hub_run.stepped) (rule hub_step.message)
  have "hub_run sample_ext ({} \<union> {}) demo_attached"
    unfolding demo_attached_def
    by (rule hub_run.stepped, rule hub_run.booted, rule hub_step.attached) (simp add: boot_def)
  then have "hub_run sample_ext {} demo_attached" by simp
  then have "hub_run sample_ext (({} \<union> {(0, hello_text)}) \<union> {(0, auth_text)}) demo_ready"
    unfolding demo_ready_def by (intro msg)
  then show ?thesis by simp
qed

lemma demo_sent: "SendCommand 0 (command_text sample_command) \<in> set (h_out demo_ready)"
  by code_simp

theorem commands_only_to_signed_sessions_witness:
  "\<exists>s. h_sessions demo_ready 0 = Some s \<and> ds_hello s \<noteq> None"
  using commands_only_to_signed_sessions [OF demo_run demo_sent] by blast

section \<open>One live socket per frame\<close>

lemma on_frame_frames [simp]:
  "frames (h_db (on_frame fid f h)) = update_where (\<lambda>r. f_id r = fid) f (frames (h_db h))"
  by (simp add: on_frame_def on_db_def)

lemma frames_commands_update [simp]: "frames (d\<lparr>commands := cs\<rparr>) = frames d"
  by simp

lemma frames_drain_rows: "frames (fst (drain_rows sock now i cs d)) = frames d"
  by (induction sock now i cs d rule: drain_rows.induct) (auto simp: Let_def mark_sent_def split: prod.split)

lemma frames_drain_pass: "frames (fst (drain_pass sock fid now d)) = frames d"
  by (simp add: drain_pass_def Let_def frames_drain_rows expireStaleCommands_def)

lemma frames_drain [simp]: "frames (h_db (drainCommands io sid h)) = frames (h_db h)"
  by (simp add: drainCommands_def split_beta frames_drain_pass split: option.split)

lemma frames_queue [simp]:
  "frames (expireStaleCommands now fid d) = frames d"
  "frames (fst (redeliverSentCommands f cutoff d)) = frames d"
  "frames (ack_command cid f ok err now d) = frames d"
  by (simp_all add: queue_defs Let_def)

lemma parts_broadcast [simp]:
  "h_db (broadcastFrameUpdate fid h) = h_db h"
  "h_routes (broadcastFrameUpdate fid h) = h_routes h"
  by (simp_all add: broadcastFrameUpdate_def emit_def split: option.split)

lemma parts_drain [simp]:
  "h_routes (drainCommands io sid h) = h_routes h"
  "h_sessions (drainCommands io sid h) = h_sessions h"
  by (auto simp: drainCommands_def split: option.split prod.split)

lemma parts_emit [simp]:
  "h_db (emit out h) = h_db h" "h_routes (emit out h) = h_routes h"
  "h_sessions (emit out h) = h_sessions h" "h_out (emit out h) = h_out h @ [out]"
  by (simp_all add: emit_def)

lemma parts_put [simp]:
  "h_db (put_session sid s h) = h_db h" "h_routes (put_session sid s h) = h_routes h"
  "h_sessions (put_session sid s h) = (h_sessions h)(sid \<mapsto> s)" "h_out (put_session sid s h) = h_out h"
  by (simp_all add: put_session_def)

lemma parts_on_db [simp]:
  "h_db (on_db f h) = f (h_db h)" "h_routes (on_db f h) = h_routes h"
  "h_sessions (on_db f h) = h_sessions h" "h_out (on_db f h) = h_out h"
  by (simp_all add: on_db_def)

definition activated :: "io \<Rightarrow> nat \<Rightarrow> device_session \<Rightarrow> hub \<Rightarrow> bool" where
  "activated io sid s h' \<longleftrightarrow> map_of (h_routes h') (ds_id s) = Some sid
     \<and> (\<forall>f\<in>set (frames (h_db h')). f_id f = ds_id s \<longrightarrow> f_connected f \<and> f_hubSessionId f = Some (ds_hubSessionId s))"

lemma activate_effect:
  assumes s: "h_sessions h sid = Some s" and c: "\<not> ds_closed s" and r: "\<not> isFrameRevoked (ds_id s) (h_db h)"
  shows "activated io sid s (activateDeviceSession io sid h)"
    and "h_sessions (activateDeviceSession io sid h) = (h_sessions h)(sid \<mapsto> s\<lparr>ds_ready := True, ds_authTimeout := False\<rparr>)"
    and "h_routes (activateDeviceSession io sid h) = AList.update (ds_id s) sid (h_routes h)"
proof -
  have row: "\<forall>f\<in>set (update_where (\<lambda>f. f_id f = i) (connect_row now hubId hello) rows).
      f_id f = i \<longrightarrow> f_connected f \<and> f_hubSessionId f = Some hubId" for i now hubId hello rows
    by (rule update_where_all) (simp_all add: connect_row_def)
  show "activated io sid s (activateDeviceSession io sid h)"
    using s c r row by (auto simp: activated_def activateDeviceSession_def Let_def split: option.split)
  show "h_sessions (activateDeviceSession io sid h) = (h_sessions h)(sid \<mapsto> s\<lparr>ds_ready := True, ds_authTimeout := False\<rparr>)"
    using s c r by (auto simp: activateDeviceSession_def Let_def split: option.split)
  show "h_routes (activateDeviceSession io sid h) = AList.update (ds_id s) sid (h_routes h)"
    using s c r by (auto simp: activateDeviceSession_def Let_def split: option.split)
qed

lemma activate_closes_previous:
  assumes "h_sessions h sid = Some s" "\<not> isFrameRevoked (ds_id s) (h_db h)" "\<not> ds_closed s"
    and "map_of (h_routes h) (ds_id s) = Some prev" "prev \<noteq> sid"
  shows "CloseDevice prev closeSuperseded ''superseded'' \<in> set (h_out (activateDeviceSession io sid h))"
proof -
  have b: "set (h_out h) \<subseteq> set (h_out (broadcastFrameUpdate fid h))" for fid h
    by (auto simp: broadcastFrameUpdate_def split: option.split)
  have d: "set (h_out h) \<subseteq> set (h_out (drainCommands io sid h))" for h
    by (auto simp: drainCommands_def split: option.split prod.split)
  show ?thesis
    using assms by (auto simp: activateDeviceSession_def Let_def intro!: set_mp [OF d] set_mp [OF b])
qed

lemma disconnect_not_mine:
  assumes "h_sessions h sid = Some s"
    and "\<forall>f\<in>set (frames (h_db h)). f_id f = ds_id s \<longrightarrow> f_hubSessionId f \<noteq> Some (ds_hubSessionId s)"
    and "map_of (h_routes h) (ds_id s) \<noteq> Some sid"
  shows "h_db (markDeviceDisconnected io sid h) = h_db h"
    and "h_routes (markDeviceDisconnected io sid h) = h_routes h"
    and "h_out (markDeviceDisconnected io sid h) = h_out h"
proof -
  let ?mine = "\<lambda>f. f_id f = ds_id s \<and> f_hubSessionId f = Some (ds_hubSessionId s)"
  have "update_where ?mine g (frames (h_db h)) = frames (h_db h)" for g
    using assms(2) by (intro update_where_noop) auto
  moreover have "\<not> (\<exists>f\<in>set (frames (h_db h)). ?mine f)" using assms(2) by auto
  ultimately have "markDeviceDisconnected io sid h = h
      \<or> markDeviceDisconnected io sid h = put_session sid (s\<lparr>ds_disconnectHandled := True\<rparr>) h"
    using assms(1,3) unfolding markDeviceDisconnected_def Let_def
    by (simp only: option.case parts_put if_False if_True on_db_def) simp
  then show "h_db (markDeviceDisconnected io sid h) = h_db h"
    and "h_routes (markDeviceDisconnected io sid h) = h_routes h"
    and "h_out (markDeviceDisconnected io sid h) = h_out h"
    by auto
qed

text \<open>
  A newer socket replaces the older one and cannot be undone by it.  When a session is activated
  while another socket of the frame is routed, the other is told to close with 4409 and the frame
  becomes connected under the new session; when the old socket's close event then arrives, late, the
  database, the routes and the output are exactly as before, so the frame stays connected.
\<close>

lemma superseded_close_harmless:
  assumes "h_sessions h new = Some s" and "\<not> ds_closed s" and "\<not> isFrameRevoked (ds_id s) (h_db h)"
    and "h_sessions h old = Some p" and "ds_id p = ds_id s" and "ds_hubSessionId p \<noteq> ds_hubSessionId s"
    and "map_of (h_routes h) (ds_id s) = Some old" and "old \<noteq> new"
  shows "CloseDevice old closeSuperseded ''superseded'' \<in> set (h_out (activateDeviceSession io new h))
       \<and> activated io new s (deviceClosed io' old (activateDeviceSession io new h))
       \<and> h_db (deviceClosed io' old (activateDeviceSession io new h)) = h_db (activateDeviceSession io new h)
       \<and> h_out (deviceClosed io' old (activateDeviceSession io new h)) = h_out (activateDeviceSession io new h)"
proof -
  let ?h = "activateDeviceSession io new h"
  let ?p = "p\<lparr>ds_closed := True, ds_authTimeout := False\<rparr>"
  let ?h1 = "put_session old ?p ?h"
  note act = activate_effect [OF assms(1-3), of io]
  have p: "h_sessions ?h old = Some p" using act(2) assms(4,8) by simp
  have p1: "h_sessions ?h1 old = Some ?p" by simp
  have ids: "ds_id ?p = ds_id s" using assms(5) by (simp add: ds_id_def)
  have "\<forall>f\<in>set (frames (h_db ?h1)). f_id f = ds_id ?p \<longrightarrow> f_hubSessionId f \<noteq> Some (ds_hubSessionId ?p)"
    using act(1) ids assms(6) by (simp add: activated_def)
  moreover have "map_of (h_routes ?h1) (ds_id ?p) \<noteq> Some old"
    using act(1) ids assms(8) by (simp add: activated_def)
  ultimately have m: "h_db (markDeviceDisconnected io' old ?h1) = h_db ?h"
    "h_routes (markDeviceDisconnected io' old ?h1) = h_routes ?h" "h_out (markDeviceDisconnected io' old ?h1) = h_out ?h"
    using disconnect_not_mine [OF p1, of io'] by simp_all
  have "deviceClosed io' old ?h = (if ds_ready p then markDeviceDisconnected io' old ?h1 else ?h1)"
    using p by (simp add: deviceClosed_def Let_def)
  with m have "h_db (deviceClosed io' old ?h) = h_db ?h" "h_routes (deviceClosed io' old ?h) = h_routes ?h"
    "h_out (deviceClosed io' old ?h) = h_out ?h"
    by simp_all
  then show ?thesis
    using act(1) activate_closes_previous [OF assms(1,3,2,7,8)] by (simp add: activated_def)
qed

definition second_session :: hub where
  "second_session = attachDeviceSocket sample_ext 1 demo_frame [''frame:managed''] ''h2'' demo_nonce ''u'' demo_ready"

section \<open>Revocation\<close>

fun is_close :: "nat \<Rightarrow> int \<Rightarrow> hub_output \<Rightarrow> bool" where
  "is_close sid code (CloseDevice s c r) = (s = sid \<and> c = code)"
| "is_close sid code _ = False"

fun is_command :: "hub_output \<Rightarrow> bool" where
  "is_command (SendCommand s t) = True"
| "is_command _ = False"

lemma broadcast_commands [simp]:
  "filter is_command (h_out (broadcastFrameUpdate fid h)) = filter is_command (h_out h)"
  by (simp add: broadcastFrameUpdate_def split: option.split)

lemma disconnect_commands:
  "filter is_command (h_out (markDeviceDisconnected io sid h)) = filter is_command (h_out h)"
  by (auto simp: markDeviceDisconnected_def Let_def split: option.split)

lemma disconnect_unroutes:
  assumes "h_sessions h sid = Some s" and "\<not> ds_disconnectHandled s" and "map_of (h_routes h) (ds_id s) = Some sid"
    and "distinct (map fst (h_routes h))"
  shows "map_of (h_routes (markDeviceDisconnected io sid h)) (ds_id s) = None"
  using assms by (auto simp: markDeviceDisconnected_def Let_def delete_conv)

text \<open>
  C31.  A revocation reaches a live socket.  In any reachable state, if the routed session of a frame has
  not been disconnected yet and the web application revokes the frame, then handling the notification
  closes the socket with 4401, takes the session out of the routes and writes no command to anyone.
\<close>

theorem revocation_kicks_live_session:
  assumes run: "hub_run x M h" and route: "map_of (h_routes h) fid = Some sid" and "fid \<noteq> []"
    and s: "h_sessions h sid = Some s" and "\<not> ds_closed s" and "\<not> ds_disconnectHandled s"
  shows "(\<exists>out\<in>set (drop (length (h_out h)) (h_out (notified_frame io fid (on_db (revokeFrame fid lid now) h)))).
            is_close sid closeAuthFailed out)
       \<and> map_of (h_routes (notified_frame io fid (on_db (revokeFrame fid lid now) h))) fid = None
       \<and> filter is_command (h_out (notified_frame io fid (on_db (revokeFrame fid lid now) h)))
           = filter is_command (h_out h)"
proof -
  let ?h = "on_db (revokeFrame fid lid now) h"
  have ok: "hub_ok x M h" by (rule hub_run_ok [OF run])
  then have ready: "ds_ready s" "ds_id s = fid" and dist: "distinct (map fst (h_routes h))"
    using map_of_SomeD [OF route] s by (auto simp: hub_ok_def)
  have rev: "isFrameRevoked fid (h_db ?h)"
  proof -
    have f: "\<forall>f\<in>set (frames (h_db ?h)). f_id f = fid \<longrightarrow> f_status f = FrameRevoked"
      by (simp add: revokeFrame_def) (rule update_where_all, simp_all)
    then show ?thesis by (auto simp: isFrameRevoked_def split: option.split dest!: select_one_Some)
  qed
  have eq: "notified_frame io fid ?h = kickRevokedSession io sid ?h"
    using route assms(3,5) s ready rev by (simp add: notified_frame_def wakeSession_def)
  have grows: "\<exists>os. h_out (markDeviceDisconnected io sid ?h) = h_out h @ os"
    using s by (auto simp: markDeviceDisconnected_def Let_def broadcastFrameUpdate_def split: option.split)
  then have "CloseDevice sid closeAuthFailed ''frame_revoked''
      \<in> set (drop (length (h_out h)) (h_out (kickRevokedSession io sid ?h)))"
    by (auto simp: kickRevokedSession_def)
  moreover have "map_of (h_routes (markDeviceDisconnected io sid ?h)) (ds_id s) = None"
    by (rule disconnect_unroutes) (use s route dist ready assms(6) in simp_all)
  ultimately show ?thesis
    unfolding eq using ready disconnect_commands [of io sid ?h]
    by (auto simp: kickRevokedSession_def intro!: bexI)
qed

theorem revocation_kicks_live_session_witness:
  "map_of (h_routes (notified_frame demo_io ''f'' (on_db (revokeFrame ''f'' ''l'' 9) demo_ready))) ''f'' = None"
proof -
  have "map_option (\<lambda>s. (ds_closed s, ds_disconnectHandled s)) (h_sessions demo_ready 0) = Some (False, False)"
    by code_simp
  then obtain s where s: "h_sessions demo_ready 0 = Some s" "\<not> ds_closed s" "\<not> ds_disconnectHandled s" by auto
  have r: "map_of (h_routes demo_ready) ''f'' = Some 0" by code_simp
  have ne: "''f'' \<noteq> []" by simp
  show ?thesis using revocation_kicks_live_session [OF demo_run r ne s] by blast
qed

section \<open>Asset streams\<close>

lemma stream_bytes:
  "(\<And>c st. (c, st) \<in> set ss \<Longrightarrow> stream_ok st) \<Longrightarrow>
   sum_list (map (\<lambda>(c, st). length (concat (as_chunks st))) ss) \<le> length ss * maxAssetFileBytes"
proof (induction ss)
  case (Cons p ss)
  obtain c st where p: "p = (c, st)" by (cases p)
  then have "length (concat (as_chunks st)) \<le> maxAssetFileBytes"
    using Cons.prems [of c st] by (simp add: stream_ok_def)
  moreover have "sum_list (map (\<lambda>(c, st). length (concat (as_chunks st))) ss) \<le> length ss * maxAssetFileBytes"
    using Cons.prems by (intro Cons.IH) auto
  ultimately show ?case using p by simp
qed simp

text \<open>
  C35.  What asset streams can cost.  In every reachable state a session has at most four streams, under
  different command ids; each holds no more than \<open>maxAssetFileBytes\<close> bytes, its byte count is the
  length of its chunks, and the next sequence number is their number.
\<close>

theorem asset_streams_bounded:
  assumes "hub_run x M h" and "h_sessions h sid = Some s"
  shows "length (ds_assetStreams s) \<le> 4 \<and> distinct (map fst (ds_assetStreams s))
       \<and> (\<forall>st\<in>snd ` set (ds_assetStreams s). length (concat (as_chunks st)) = as_receivedBytes st
            \<and> as_receivedBytes st \<le> maxAssetFileBytes \<and> as_nextSeq st = int (length (as_chunks st)))
       \<and> sum_list (map (\<lambda>(c, st). length (concat (as_chunks st))) (ds_assetStreams s)) \<le> 4 * maxAssetFileBytes"
proof -
  have so: "streams_ok (ds_assetStreams s)"
    using ok_session [OF hub_run_ok [OF assms(1)] assms(2)] by (simp add: session_ok_def)
  then have len: "length (ds_assetStreams s) \<le> 4" and dist: "distinct (map fst (ds_assetStreams s))"
    and each: "\<And>c st. (c, st) \<in> set (ds_assetStreams s) \<Longrightarrow> stream_ok st"
    by (auto simp: streams_ok_def maxAssetStreamsPerSession_def)
  have "sum_list (map (\<lambda>(c, st). length (concat (as_chunks st))) (ds_assetStreams s))
      \<le> length (ds_assetStreams s) * maxAssetFileBytes"
    by (rule stream_bytes) (rule each)
  also have "\<dots> \<le> 4 * maxAssetFileBytes" using len by (rule mult_le_mono1)
  finally have bytes: "sum_list (map (\<lambda>(c, st). length (concat (as_chunks st))) (ds_assetStreams s))
      \<le> 4 * maxAssetFileBytes" .
  have "\<forall>st\<in>snd ` set (ds_assetStreams s). length (concat (as_chunks st)) = as_receivedBytes st
            \<and> as_receivedBytes st \<le> maxAssetFileBytes \<and> as_nextSeq st = int (length (as_chunks st))"
  proof
    fix st assume "st \<in> snd ` set (ds_assetStreams s)"
    then have "stream_ok st" using each by auto
    then show "length (concat (as_chunks st)) = as_receivedBytes st
        \<and> as_receivedBytes st \<le> maxAssetFileBytes \<and> as_nextSeq st = int (length (as_chunks st))"
      by (simp add: stream_ok_def)
  qed
  with len dist bytes show ?thesis by blast
qed

theorem asset_streams_bounded_witness:
  "\<exists>s. h_sessions demo_ready 0 = Some s \<and> length (ds_assetStreams s) \<le> 4"
proof -
  have "map_option ds_ready (h_sessions demo_ready 0) = Some True" by code_simp
  then obtain s where "h_sessions demo_ready 0 = Some s" by auto
  with asset_streams_bounded [OF demo_run this] show ?thesis by blast
qed

text \<open>The messages of a well-behaved stream: chunk \<open>i\<close> carries the data \<open>t\<close>, the last one \<open>done\<close>.\<close>

definition chunk_message :: "nat \<Rightarrow> string \<Rightarrow> bool \<Rightarrow> fields" where
  "chunk_message i t final =
     [(''type'', JStr ''asset_chunk''), (''seq'', num_of_int (int i)), (''data'', JStr t)]
     @ (if final then [(''done'', JBool True)] else [])"

fun chunk_messages :: "nat \<Rightarrow> string list \<Rightarrow> fields list" where
  "chunk_messages i [] = []"
| "chunk_messages i (t # ts) = chunk_message i t (ts = []) # chunk_messages (Suc i) ts"

fun run_chunks ::
  "ext \<Rightarrow> string \<Rightarrow> fields list \<Rightarrow> (string \<times> asset_stream) list \<Rightarrow> asset_stream list" where
  "run_chunks x cid [] ss = []"
| "run_chunks x cid (m # ms) ss =
     (let (ss', fin) = chunk_step x cid m ss
      in (case fin of None \<Rightarrow> [] | Some st \<Rightarrow> [st]) @ run_chunks x cid ms ss')"

lemma chunk_message_fields:
  "\<not> aborts (chunk_message i t l)" "chunk_seq (chunk_message i t l) = Some (int i)"
  "chunk_data x (chunk_message i t l) = base64_decode x t"
  "(map_of (chunk_message i t l) ''done'' = Some (JBool True)) = l"
proof -
  have "map_of (chunk_message i t l) ''seq'' = Some (JNum (of_int (int i)))"
    by (simp add: chunk_message_def num_of_int_def)
  then show q: "chunk_seq (chunk_message i t l) = Some (int i)"
    by (simp add: chunk_seq_def is_integer_def)
  then show "\<not> aborts (chunk_message i t l)" by (simp add: aborts_def) (simp add: chunk_message_def)
  show "chunk_data x (chunk_message i t l) = base64_decode x t"
    by (simp add: chunk_data_def chunk_message_def)
  show "(map_of (chunk_message i t l) ''done'' = Some (JBool True)) = l" by (simp add: chunk_message_def)
qed

lemma run_chunks_rest:
  "ts \<noteq> [] \<Longrightarrow> map_of ss cid = Some st \<Longrightarrow> as_nextSeq st = int i \<Longrightarrow> i \<noteq> 0 \<Longrightarrow>
   as_receivedBytes st + length (concat (map (base64_decode x) ts)) \<le> maxAssetFileBytes \<Longrightarrow>
   map (\<lambda>st. (as_contentType st, concat (as_chunks st))) (run_chunks x cid (chunk_messages i ts) ss)
     = [(as_contentType st, concat (as_chunks st) @ concat (map (base64_decode x) ts))]"
proof (induction ts arbitrary: i ss st)
  case (Cons t ts)
  let ?d = "base64_decode x t"
  have step: "chunk_step x cid (chunk_message i t (ts = [])) ss =
      (if ts = [] then (AList.delete cid ss, Some (grown st ?d)) else (AList.update cid (grown st ?d) ss, None))"
    using Cons.prems by (simp add: chunk_step_cases chunk_message_fields feed_def)
  show ?case
  proof (cases "ts = []")
    case True
    then show ?thesis using step by (simp add: grown_def)
  next
    case False
    have "map (\<lambda>st. (as_contentType st, concat (as_chunks st)))
        (run_chunks x cid (chunk_messages (Suc i) ts) (AList.update cid (grown st ?d) ss))
      = [(as_contentType (grown st ?d), concat (as_chunks (grown st ?d)) @ concat (map (base64_decode x) ts))]"
      using Cons.prems False by (intro Cons.IH) (simp_all add: grown_def)
    then show ?thesis using step False by (simp add: grown_def)
  qed
qed simp

text \<open>
  C36.  Reassembly.  Chunks numbered from 0, sent in order and ending with \<open>done\<close>, yield exactly one
  finished stream, whose bytes are the concatenation of the decoded chunks, if they fit
  \<open>maxAssetFileBytes\<close> and the session has room or already streams this command: a redelivered command
  that streams its file from the start again gets the same bytes whatever was left of the first try.
\<close>

theorem asset_chunks_reassemble:
  assumes "ts \<noteq> []" and "length (concat (map (base64_decode x) ts)) \<le> maxAssetFileBytes"
    and "map_of ss cid = None \<longrightarrow> length ss < maxAssetStreamsPerSession"
  shows "map (\<lambda>st. (as_contentType st, concat (as_chunks st))) (run_chunks x cid (chunk_messages 0 ts) ss)
       = [(''application/octet-stream'', concat (map (base64_decode x) ts))]"
proof -
  obtain t us where ts: "ts = t # us" using assms(1) by (cases ts) auto
  let ?d = "base64_decode x t" and ?m = "chunk_message 0 t (us = [])"
  let ?ss = "AList.update cid (new_stream ?m) ss"
  have new: "as_contentType (new_stream ?m) = ''application/octet-stream''"
    by (simp add: new_stream_def chunk_content_type_def chunk_message_def)
  have step: "chunk_step x cid ?m ss =
      (if us = [] then (AList.delete cid ?ss, Some (grown (new_stream ?m) ?d))
       else (AList.update cid (grown (new_stream ?m) ?d) ?ss, None))"
    using assms ts by (auto simp: chunk_step_cases chunk_message_fields feed_def new_stream_def)
  show ?thesis
  proof (cases "us = []")
    case True
    then show ?thesis using step ts new by (simp add: grown_def new_stream_def)
  next
    case False
    have "map (\<lambda>st. (as_contentType st, concat (as_chunks st)))
        (run_chunks x cid (chunk_messages 1 us) (AList.update cid (grown (new_stream ?m) ?d) ?ss))
      = [(as_contentType (grown (new_stream ?m) ?d),
          concat (as_chunks (grown (new_stream ?m) ?d)) @ concat (map (base64_decode x) us))]"
      using assms ts False by (intro run_chunks_rest) (simp_all add: grown_def new_stream_def)
    then show ?thesis using step ts False new by (simp add: grown_def new_stream_def)
  qed
qed

theorem asset_chunks_reassemble_witness:
  "map (\<lambda>st. (as_contentType st, concat (as_chunks st)))
     (run_chunks sample_ext ''c'' (chunk_messages 0 [''ab'', ''c'']) []) = [(''application/octet-stream'', ''abc'')]"
proof -
  have "concat (map (base64_decode sample_ext) [''ab'', ''c'']) = ''abc''" by (simp add: sample_ext_def)
  then show ?thesis
    using asset_chunks_reassemble [of "[''ab'', ''c'']" sample_ext "[]" "''c''"]
    by (simp only: maxAssetFileBytes_def maxAssetStreamsPerSession_def) simp
qed

end
