(* ===== verification/HubStorage.thy ===== *)
theory HubStorage imports HubProperties begin

text \<open>
  What a message of a device may write.  \<open>others\<close> hides the rows of one frame from the database; every
  handler of \<open>handleDeviceMessage\<close> leaves what remains as it was.  Further properties bound what a
  message can put in the frame's own row, and say which scope and which command row permit a write.
\<close>

section \<open>The rest of the database\<close>

text \<open>
  \<open>F\<close> is the set of frames of the account: its log budget is shared, so a batch of one of them may cull
  the oldest lines of another.
\<close>

definition others :: "uuid \<Rightarrow> uuid set \<Rightarrow> db \<Rightarrow> db" where
  "others fid F d = d\<lparr>frames := filter (\<lambda>f. f_id f \<noteq> fid) (frames d),
     commands := filter (\<lambda>c. c_frameId c \<noteq> fid) (commands d),
     assetListings := filter (\<lambda>a. al_frameId a \<noteq> fid) (assetListings d),
     assetFiles := filter (\<lambda>a. af_frameId a \<noteq> fid) (assetFiles d),
     frameLogs := filter (\<lambda>r. tr_frameId r \<noteq> fid \<and> tr_frameId r \<notin> F) (frameLogs d),
     frameMetrics := filter (\<lambda>r. tr_frameId r \<noteq> fid) (frameMetrics d),
     logSeq := 0, metricSeq := 0, assetSeq := 0\<rparr>"

named_theorems local_simps \<open>updates of one frame's rows, seen from the others\<close>

lemma others_frames [local_simps]:
  "(\<And>r. P r \<Longrightarrow> f_id r = fid \<and> f_id (g r) = fid) \<Longrightarrow>
   others fid F (d\<lparr>frames := update_where P g (frames d)\<rparr>) = others fid F d"
  unfolding others_def by (simp, subst filter_update_where_other) auto

lemma others_commands [local_simps]:
  "(\<And>c. c \<in> set (commands d) \<Longrightarrow> P c \<Longrightarrow> c_frameId c = fid \<and> c_frameId (g c) = fid) \<Longrightarrow>
   others fid F (d\<lparr>commands := update_where P g (commands d)\<rparr>) = others fid F d"
  unfolding others_def by (simp, subst filter_update_where_other) auto

lemma others_expire: "fid \<noteq> [] \<Longrightarrow> others fid F (expireStaleCommands now (Some fid) d) = others fid F d"
  unfolding expireStaleCommands_def by (rule others_commands) auto

lemma others_ack: "others fid F (ack_command cid fid ok err now d) = others fid F d"
  unfolding ack_command_def by (rule others_commands) auto

lemma others_redeliver: "others fid F (fst (redeliverSentCommands fid cutoff d)) = others fid F d"
proof -
  let ?P = "\<lambda>c. c_frameId c = fid \<and> written_before cutoff c"
  let ?Q = "\<lambda>c. c_frameId c = fid \<and> written_before cutoff c \<and> newer_waiting (commands d) c"
  let ?d = "d\<lparr>commands := update_where ?Q (\<lambda>c. c\<lparr>c_error := Some ''superseded'', c_status := CmdExpired\<rparr>) (commands d)\<rparr>"
  have eq: "fst (redeliverSentCommands fid cutoff d)
      = ?d\<lparr>commands := update_where ?P (\<lambda>c. c\<lparr>c_sentAt := None, c_status := CmdPending\<rparr>) (commands ?d)\<rparr>"
    by (simp add: redeliverSentCommands_def Let_def drop_superseded_def)
  have one: "others fid F ?d = others fid F d" by (rule others_commands) auto
  show ?thesis unfolding eq one [symmetric] by (rule others_commands) auto
qed

lemma others_mark_sent:
  "(\<And>c. c \<in> set (commands d) \<Longrightarrow> c_id c = cid \<Longrightarrow> c_frameId c = fid) \<Longrightarrow>
   others fid F (mark_sent cid now d) = others fid F d"
  unfolding mark_sent_def by (rule others_commands) auto

lemma others_drain_rows:
  "(\<And>c. c \<in> set (commands d) \<Longrightarrow> c_id c \<in> c_id ` set cs \<Longrightarrow> c_frameId c = fid) \<Longrightarrow>
   others fid F (fst (drain_rows sock now i cs d)) = others fid F d"
proof (induction cs arbitrary: i d)
  case (Cons c cs)
  let ?d = "mark_sent (c_id c) now d"
  have rows: "\<forall>r\<in>set (commands ?d). c_id r \<in> c_id ` set cs \<longrightarrow> c_frameId r = fid"
    unfolding mark_sent_def using Cons.prems by (simp, intro update_where_all) auto
  have "others fid F (fst (drain_rows sock now (i + 1) cs ?d)) = others fid F ?d"
    using rows by (intro Cons.IH) blast
  also have "\<dots> = others fid F d" using Cons.prems by (intro others_mark_sent) auto
  finally show ?case by (simp add: Let_def split_beta)
qed simp

lemma others_drain_pass:
  assumes "keyed c_id (commands d)" "fid \<noteq> []"
  shows "others fid F (fst (drain_pass sock fid now d)) = others fid F d"
proof -
  let ?d = "expireStaleCommands now (Some fid) d"
  have k: "keyed c_id (commands ?d)" using assms(1) by (rule keyed_expire)
  have "others fid F (fst (drain_rows sock now 0 (pending_commands fid ?d) ?d)) = others fid F ?d"
  proof (rule others_drain_rows)
    fix c assume c: "c \<in> set (commands ?d)" "c_id c \<in> c_id ` set (pending_commands fid ?d)"
    then obtain p where "p \<in> set (commands ?d)" "c_frameId p = fid" "c_id c = c_id p"
      by (auto simp: pending_commands_def)
    with keyed_eq [OF k c(1)] show "c_frameId c = fid" by blast
  qed
  then show ?thesis using others_expire [OF assms(2)] by (simp add: drain_pass_def Let_def)
qed

lemma keyed_redeliver:
  "keyed c_id (commands d) \<Longrightarrow> keyed c_id (commands (fst (redeliverSentCommands fid cutoff d)))"
  by (simp add: redeliverSentCommands_def drop_superseded_def Let_def keyed_def map_update_where)

lemma others_prune [local_simps]:
  "filter (\<lambda>r. tr_frameId r \<noteq> fid \<and> P r) (prune_beyond cap fid rows) = filter (\<lambda>r. tr_frameId r \<noteq> fid \<and> P r) rows"
  by (auto simp: prune_beyond_def delete_where_def intro!: filter_cong split: list.split)

lemma others_logs:
  assumes st: "storeFrameLogs x fid es (Some acc) d = Some (d', n)"
    and F: "F = f_id ` {f \<in> set (frames d). f_accountId f = acc}"
  shows "others fid F d' = others fid F d"
proof -
  have row: "tr_frameId r \<in> F" if "log_of_account d acc r" for r
    using that F by (force simp: log_of_account_def)
  have new: "filter (\<lambda>r. tr_frameId r \<noteq> fid \<and> P r) (log_rows i fid es) = []" for P i es
    using log_rows_frame by (auto simp: filter_empty_conv)
  have cull: "filter (\<lambda>r. tr_frameId r \<noteq> fid \<and> tr_frameId r \<notin> F) (frameLogs (cullFrameLogsOverBudget acc e))
      = filter (\<lambda>r. tr_frameId r \<noteq> fid \<and> tr_frameId r \<notin> F) (frameLogs e)" if "frames e = frames d" for e
    using row that unfolding cullFrameLogsOverBudget_def delete_where_def log_of_account_def
    by (auto intro!: filter_cong)
  have rest: "d'\<lparr>frameLogs := [], logSeq := 0\<rparr> = d\<lparr>frameLogs := [], logSeq := 0\<rparr>"
    using st by (auto simp: storeFrameLogs_def Let_def cullFrameLogsOverBudget_def split: if_splits)
  have "filter (\<lambda>r. tr_frameId r \<noteq> fid \<and> tr_frameId r \<notin> F) (frameLogs d')
      = filter (\<lambda>r. tr_frameId r \<noteq> fid \<and> tr_frameId r \<notin> F) (frameLogs d)"
    using st cull by (auto simp: storeFrameLogs_def Let_def others_prune new split: if_splits)
  moreover have "others fid F e = (e\<lparr>frameLogs := [], logSeq := 0\<rparr>)\<lparr>frames := filter (\<lambda>f. f_id f \<noteq> fid) (frames e),
     commands := filter (\<lambda>c. c_frameId c \<noteq> fid) (commands e),
     assetListings := filter (\<lambda>a. al_frameId a \<noteq> fid) (assetListings e),
     assetFiles := filter (\<lambda>a. af_frameId a \<noteq> fid) (assetFiles e),
     frameLogs := filter (\<lambda>r. tr_frameId r \<noteq> fid \<and> tr_frameId r \<notin> F) (frameLogs e),
     frameMetrics := filter (\<lambda>r. tr_frameId r \<noteq> fid) (frameMetrics e),
     metricSeq := 0, assetSeq := 0\<rparr>" for e
    by (simp add: others_def)
  ultimately show ?thesis using rest by (cases d; cases d') (simp add: others_def)
qed

lemma others_metrics: "others fid F (fst (storeFrameMetrics fid m t d)) = others fid F d"
  using others_prune [where P = "\<lambda>_. True"] by (auto simp: others_def storeFrameMetrics_def Let_def)

lemma others_listing: "others fid F (fst (storeFrameAssetListing fid es tr now d)) = others fid F d"
proof -
  have keep: "filter (\<lambda>a. al_frameId a \<noteq> fid) (update_where (\<lambda>r. al_frameId r = fid) (\<lambda>_. row) rows)
      = filter (\<lambda>a. al_frameId a \<noteq> fid) rows" if "al_frameId row = fid" for row rows
    using that by (intro filter_update_where_other) auto
  show ?thesis by (simp add: others_def storeFrameAssetListing_def Let_def keep)
qed

lemma others_file:
  assumes k: "keyed af_id (assetFiles d)" and s: "\<forall>r\<in>set (assetFiles d). af_id r < assetSeq d"
  shows "others fid F (fst (storeFrameAssetFile fid path th ct content now d)) = others fid F d"
proof -
  let ?d = "upsert_asset fid path th ct content now d"
  have k': "keyed af_id (assetFiles ?d)" using k s by (rule keyed_upsert_asset)
  have "filter (\<lambda>a. af_frameId a \<noteq> fid) (prune_assets fid (assetFiles ?d)) = filter (\<lambda>a. af_frameId a \<noteq> fid) (assetFiles ?d)"
  proof -
    have ev: "set (lru_evict i b rows) \<subseteq> af_id ` set rows" for i b rows
      by (induction i b rows rule: lru_evict.induct) (auto simp: Let_def)
    have "af_frameId a = fid"
      if in_d: "a \<in> set (assetFiles ?d)" and evd: "af_id a \<in> set (lru_evict 0 0 (newest_assets fid (assetFiles ?d)))" for a
    proof -
      obtain b where "b \<in> set (assetFiles ?d)" "af_frameId b = fid" "af_id a = af_id b"
        using ev evd by (fastforce simp: newest_assets_def)
      with keyed_eq [OF k' in_d] show ?thesis by blast
    qed
    then show ?thesis by (auto simp: prune_assets_def Let_def delete_where_def intro!: filter_cong)
  qed
  moreover have "filter (\<lambda>a. af_frameId a \<noteq> fid) (assetFiles ?d) = filter (\<lambda>a. af_frameId a \<noteq> fid) (assetFiles d)"
    by (auto simp: upsert_asset_def Let_def intro!: filter_update_where_other)
  moreover have "?d\<lparr>assetFiles := [], assetSeq := 0\<rparr> = d\<lparr>assetFiles := [], assetSeq := 0\<rparr>"
    by (simp add: upsert_asset_def Let_def)
  ultimately show ?thesis
    by (cases d; cases ?d) (auto simp: others_def storeFrameAssetFile_def Let_def)
qed

section \<open>Isolation\<close>

lemma others_on_frame:
  "(\<And>r. f_id (g r) = f_id r) \<Longrightarrow> others fid F (h_db (on_frame fid g h)) = others fid F (h_db h)"
  by (simp add: on_frame_def others_frames)

lemma others_drain:
  assumes "h_sessions h sid = Some s" "keyed c_id (commands (h_db h))" "ds_id s \<noteq> []"
  shows "others (ds_id s) F (h_db (drainCommands io sid h)) = others (ds_id s) F (h_db h)"
  using assms others_drain_pass [OF assms(2,3)] by (simp add: drainCommands_def split_beta)

lemma others_disconnect:
  "h_sessions h sid = Some s \<Longrightarrow>
   others (ds_id s) F (h_db (markDeviceDisconnected io sid h)) = others (ds_id s) F (h_db h)"
  using others_frames [where P = "\<lambda>f. f_id f = ds_id s \<and> f_hubSessionId f = Some (ds_hubSessionId s)"]
  by (simp add: markDeviceDisconnected_def Let_def)

lemma others_activate:
  assumes s: "h_sessions h sid = Some s" and k: "keyed c_id (commands (h_db h))" and ne: "ds_id s \<noteq> []"
  shows "others (ds_id s) F (h_db (activateDeviceSession io sid h)) = others (ds_id s) F (h_db h)"
proof -
  let ?fid = "ds_id s" and ?s = "s\<lparr>ds_ready := True, ds_authTimeout := False\<rparr>"
  define hello where "hello = (case ds_hello s of None \<Rightarrow> [] | Some kvs \<Rightarrow> kvs)"
  define d1 where "d1 = (h_db h)\<lparr>frames := update_where (\<lambda>f. f_id f = ?fid)
      (connect_row (io_now io) (ds_hubSessionId s) hello) (frames (h_db h))\<rparr>"
  define d2 where "d2 = expireStaleCommands (io_now io) (Some ?fid) d1"
  define d3 where "d3 = fst (redeliverSentCommands ?fid (io_now io) d2)"
  have "others ?fid F d3 = others ?fid F d2" unfolding d3_def by (rule others_redeliver)
  also have "\<dots> = others ?fid F d1" unfolding d2_def by (rule others_expire [OF ne])
  also have "\<dots> = others ?fid F (h_db h)"
    unfolding d1_def by (rule others_frames) (simp add: connect_row_def)
  finally have d3: "others ?fid F d3 = others ?fid F (h_db h)" .
  have k3: "keyed c_id (commands d3)"
    unfolding d3_def d2_def d1_def by (intro keyed_redeliver keyed_expire) (simp add: k)
  show ?thesis
  proof (cases "isFrameRevoked ?fid (h_db h)")
    case False
    have "\<exists>h7. activateDeviceSession io sid h =
         (if ds_closed s then markDeviceDisconnected io sid (drainCommands io sid (broadcastFrameUpdate ?fid h7))
          else drainCommands io sid (broadcastFrameUpdate ?fid h7)) \<and> h_db h7 = d3 \<and> h_sessions h7 sid = Some ?s"
      unfolding activateDeviceSession_def Let_def s option.case if_not_P [OF False]
      by (rule exI, rule conjI, rule refl)
        (auto simp: d3_def d2_def d1_def hello_def split: option.split)
    then obtain h7 where h7: "activateDeviceSession io sid h =
         (if ds_closed s then markDeviceDisconnected io sid (drainCommands io sid (broadcastFrameUpdate ?fid h7))
          else drainCommands io sid (broadcastFrameUpdate ?fid h7))" "h_db h7 = d3" "h_sessions h7 sid = Some ?s"
      by blast
    have id: "ds_id ?s = ?fid" by (simp add: ds_id_def)
    let ?h8 = "drainCommands io sid (broadcastFrameUpdate ?fid h7)"
    have h8: "others ?fid F (h_db ?h8) = others ?fid F (h_db h)"
      using others_drain [where h = "broadcastFrameUpdate ?fid h7" and s = ?s and sid = sid and F = F] h7(2,3) k3 ne d3 id by simp
    moreover have "others ?fid F (h_db (markDeviceDisconnected io sid ?h8)) = others ?fid F (h_db ?h8)"
      using others_disconnect [where h = ?h8 and s = ?s and sid = sid and F = F] h7(2,3) id by simp
    ultimately show ?thesis using h7(1) by simp
  qed (simp add: activateDeviceSession_def s)
qed

text \<open>The ways a message can be handled, and what a message before \<open>ready\<close> can do.\<close>

lemma device_message_cases:
  assumes "h_sessions h sid = Some s"
  obtains (ignored) "handleDeviceMessage x io sid t h = h"
  | (start) msg where "\<not> ds_ready s" "handleDeviceMessage x io sid t h = start_message x io sid s msg h"
  | (ack) msg where "handleDeviceMessage x io sid t h = handleAck io s msg h"
  | (scene_ack) msg where "handleDeviceMessage x io sid t h = handleSceneAck io s msg h"
  | (state) msg where "handleDeviceMessage x io sid t h = handleState io s msg h"
  | (logs) msg where "handleDeviceMessage x io sid t h = handleLogBatch x io sid s msg h"
  | (metrics) msg where "handleDeviceMessage x io sid t h = handleMetrics io sid s msg h"
  | (assets) msg where "handleDeviceMessage x io sid t h = handleAssets io s msg h"
  | (chunk) msg where "handleDeviceMessage x io sid t h = handleAssetChunk x io sid s msg h"
proof (cases "\<exists>msg ty. parseJsonMessage t = Some msg \<and> map_of msg ''type'' = Some (JStr ty)")
  case True
  then obtain msg ty where m: "parseJsonMessage t = Some msg" "map_of msg ''type'' = Some (JStr ty)" by blast
  note eq = handleDeviceMessage_def [of x io sid t h, unfolded assms m option.case json.case]
  show thesis
  proof (cases "ds_ready s")
    case True
    note eq' = eq True
    show ?thesis
      apply (cases "ty = ''ack''", rule ack [of msg], simp add: eq')
      apply (cases "ty = ''scene_ack''", rule scene_ack [of msg], simp add: eq')
      apply (cases "ty = ''state''", rule state [of msg], simp add: eq')
      apply (cases "ty = ''log_batch''", rule logs [of msg], simp add: eq')
      apply (cases "ty = ''metrics''", rule metrics [of msg], simp add: eq')
      apply (cases "ty = ''assets''", rule assets [of msg], simp add: eq')
      apply (cases "ty = ''asset_chunk''", rule chunk [of msg], simp add: eq')
      apply (rule ignored, simp add: eq')
      done
  qed (rule start [of msg], simp_all only: eq if_True not_False_eq_True)
next
  case False
  then have "handleDeviceMessage x io sid t h = h"
    by (auto simp: handleDeviceMessage_def split: option.split json.split)
  then show thesis by (rule ignored)
qed

lemma start_message_cases:
  obtains (activated) s' where "ds_id s' = ds_id s" "ds_scopes s' = ds_scopes s" "ds_hubSessionId s' = ds_hubSessionId s"
      "start_message x io sid s msg h = activateDeviceSession io sid (put_session sid s' h)"
  | (waiting) s' where "start_message x io sid s msg h = put_session sid s' h"
  | (closed) out where "start_message x io sid s msg h = emit out h"
  | (again) "start_message x io sid s msg h = activateDeviceSession io sid h"
  | (nothing) "start_message x io sid s msg h = h"
proof -
  let ?act = "\<lambda>s'. ds_authed s' \<and> ds_hello s' \<noteq> None"
  let ?s1 = "s\<lparr>ds_hello := Some (hello_fields msg)\<rparr>" and ?s2 = "s\<lparr>ds_authed := True\<rparr>"
  have keeps: "ds_id ?s1 = ds_id s" "ds_id ?s2 = ds_id s" by (simp_all add: ds_id_def)
  consider "map_of msg ''type'' = Some (JStr ''hello'')" | "map_of msg ''type'' = Some (JStr ''auth'')"
    | "map_of msg ''type'' \<noteq> Some (JStr ''hello'')" "map_of msg ''type'' \<noteq> Some (JStr ''auth'')" by blast
  then show thesis
  proof cases
    case 1
    then have eq: "start_message x io sid s msg h =
        (if ?act ?s1 then activateDeviceSession io sid (put_session sid ?s1 h) else put_session sid ?s1 h)"
      by (simp only: start_message_def Let_def simp_thms if_True)
    show ?thesis
      by (cases "?act ?s1") (rule activated [of ?s1], simp_all add: eq keeps waiting)
  next
    case 2
    then have eq: "start_message x io sid s msg h =
        (if \<not> verifyFrameSignature x (f_publicKey (ds_frame s)) (ds_nonce s)
              (case map_of msg ''signature'' of Some (JStr t) \<Rightarrow> t | _ \<Rightarrow> [])
         then emit (CloseDevice sid closeAuthFailed ''invalid_signature'') h
         else if ?act ?s2 then activateDeviceSession io sid (put_session sid ?s2 h) else put_session sid ?s2 h)"
      by (simp add: start_message_def Let_def)
    show ?thesis
      by (cases "start_message x io sid s msg h = emit (CloseDevice sid closeAuthFailed ''invalid_signature'') h",
          rule closed, assumption, cases "?act ?s2", rule activated [of ?s2])
        (use eq keeps waiting in \<open>simp_all split: if_splits\<close>)
  next
    case 3
    then have eq: "start_message x io sid s msg h = (if ?act s then activateDeviceSession io sid h else h)"
      by (simp only: start_message_def Let_def if_False)
    show ?thesis
      by (cases "?act s", rule again, simp add: eq, rule nothing, auto simp: eq)
  qed
qed

lemma others_handleLogBatch:
  assumes F: "F = f_id ` {f \<in> set (frames (h_db h)). f_accountId f = f_accountId (ds_frame s)}"
  shows "others (ds_id s) F (h_db (handleLogBatch x io sid s msg h)) = others (ds_id s) F (h_db h)"
proof -
  have ack: "h_db (sendAckError io sid msg e h') = h_db h'" for e h' by (simp add: sendAckError_def)
  show ?thesis
  proof (cases "storeFrameLogs x (ds_id s) (parseLogEntries x (io_now io) (map_of msg ''logs''))
      (Some (f_accountId (ds_frame s))) (h_db h)")
    case None
    then show ?thesis by (simp add: handleLogBatch_def ack Let_def split_beta)
  next
    case (Some dn)
    then obtain d n where dn: "storeFrameLogs x (ds_id s) (parseLogEntries x (io_now io) (map_of msg ''logs''))
        (Some (f_accountId (ds_frame s))) (h_db h) = Some (d, n)" by (cases dn) simp
    from others_logs [OF this F] show ?thesis by (simp add: handleLogBatch_def ack Let_def split_beta dn)
  qed
qed

text \<open>
  A device cannot touch another frame.  Whatever text arrives on a socket, in any state of its
  session, every row of every table that belongs to another frame is left exactly as it was, and so
  are all the tables of accounts, clients, tokens and scenes; the one thing a frame shares is its
  account's log budget, which may cull the oldest lines of the account's other frames.
\<close>

lemma device_message_isolated:
  assumes s: "h_sessions h sid = Some s" and ne: "ds_id s \<noteq> []"
    and k: "keyed c_id (commands (h_db h))"
    and a: "keyed af_id (assetFiles (h_db h))" "\<forall>r\<in>set (assetFiles (h_db h)). af_id r < assetSeq (h_db h)"
    and F: "F = f_id ` {f \<in> set (frames (h_db h)). f_accountId f = f_accountId (ds_frame s)}"
  shows "others (ds_id s) F (h_db (handleDeviceMessage x io sid t h)) = others (ds_id s) F (h_db h)"
  using s
proof (cases rule: device_message_cases [where x = x and io = io and t = t])
  case (start msg)
  have "others (ds_id s) F (h_db (start_message x io sid s msg h)) = others (ds_id s) F (h_db h)"
  proof (cases rule: start_message_cases [where s = s and x = x and io = io and sid = sid and msg = msg and h = h])
    case (activated s')
    then show ?thesis
      using others_activate [where h = "put_session sid s' h" and sid = sid and s = s' and F = F and io = io] k ne by simp
  qed (use others_activate [OF s k ne] in simp_all)
  with start show ?thesis by simp
next
  case (ack msg)
  then show ?thesis by (simp add: handleAck_def others_ack split: option.split)
next
  case (scene_ack msg)
  then show ?thesis by (simp add: handleSceneAck_def Let_def others_on_frame)
next
  case (state msg)
  then show ?thesis by (simp add: handleState_def Let_def others_on_frame)
next
  case (logs msg)
  show ?thesis unfolding logs by (rule others_handleLogBatch [OF F])
next
  case (metrics msg)
  have st: "others (ds_id s) F (fst (storeFrameMetrics fid m t d)) = others (ds_id s) F d" if "fid = ds_id s" for fid m t d
    using that others_metrics by simp
  show ?thesis unfolding metrics
    by (auto simp: handleMetrics_def Let_def sendAckError_def split_beta st others_on_frame split: option.split json.split)
next
  case (assets msg)
  then show ?thesis by (simp add: handleAssets_def others_listing)
next
  case (chunk msg)
  then show ?thesis
    by (auto simp: handleAssetChunk_def Let_def others_file [OF a] split: option.split prod.split)
qed simp

lemma demo_db_keys:
  "keyed c_id (commands (h_db demo_ready))" "keyed af_id (assetFiles (h_db demo_ready))"
  "\<forall>r\<in>set (assetFiles (h_db demo_ready)). af_id r < assetSeq (h_db demo_ready)"
  by code_simp+

section \<open>What permits a write\<close>

definition besides :: "db \<Rightarrow> db" where
  "besides d = d\<lparr>frames := [], commands := []\<rparr>"

lemma besides_simps [simp]:
  "besides (d\<lparr>frames := fs\<rparr>) = besides d" "besides (d\<lparr>commands := cs\<rparr>) = besides d"
  by (simp_all add: besides_def)

lemma besides_queue [simp]:
  "besides (expireStaleCommands now fid d) = besides d"
  "besides (fst (redeliverSentCommands f cutoff d)) = besides d"
  "besides (ack_command cid f ok err now d) = besides d" "besides (mark_sent cid now d) = besides d"
  by (simp_all add: queue_defs Let_def)

lemma besides_drain_rows: "besides (fst (drain_rows sock now i cs d)) = besides d"
  by (induction sock now i cs d rule: drain_rows.induct) (auto simp: Let_def split: prod.split)

lemma besides_drain [simp]: "besides (h_db (drainCommands io sid h)) = besides (h_db h)"
  by (simp add: drainCommands_def drain_pass_def Let_def split_beta besides_drain_rows split: option.split)

lemma besides_disconnect [simp]: "besides (h_db (markDeviceDisconnected io sid h)) = besides (h_db h)"
  by (simp add: markDeviceDisconnected_def Let_def split: option.split)

lemma besides_on_frame [simp]: "besides (h_db (on_frame fid g h)) = besides (h_db h)"
  by (simp add: on_frame_def)

lemma besides_activate [simp]: "besides (h_db (activateDeviceSession io sid h)) = besides (h_db h)"
proof (cases "h_sessions h sid")
  case (Some s)
  have p: "h_db (if b then a else c) = (if b then h_db a else h_db c)" for b a c by simp
  show ?thesis
    by (simp add: activateDeviceSession_def Let_def Some split: option.split)
qed (simp add: activateDeviceSession_def)

lemma besides_start [simp]: "besides (h_db (start_message x io sid s msg h)) = besides (h_db h)"
  by (cases rule: start_message_cases [where s = s and x = x and io = io and sid = sid and msg = msg and h = h])
    simp_all

lemma besides_handlers [simp]:
  "besides (h_db (handleAck io s msg h)) = besides (h_db h)"
  "besides (h_db (handleSceneAck io s msg h)) = besides (h_db h)"
  "besides (h_db (handleState io s msg h)) = besides (h_db h)"
  by (simp_all add: handleAck_def handleSceneAck_def handleState_def Let_def split: option.split)

lemma besides_tables:
  assumes "besides d = besides d'"
  shows "frameLogs d = frameLogs d'" "frameMetrics d = frameMetrics d'" "assetFiles d = assetFiles d'"
  using arg_cong [OF assms, of frameLogs] arg_cong [OF assms, of frameMetrics] arg_cong [OF assms, of assetFiles]
  by (simp_all add: besides_def)

lemma store_tables:
  "storeFrameLogs x fid es acc d = Some (d', n) \<Longrightarrow> frameMetrics d' = frameMetrics d \<and> assetFiles d' = assetFiles d"
  "frameLogs (fst (storeFrameMetrics fid m t d)) = frameLogs d"
  "assetFiles (fst (storeFrameMetrics fid m t d)) = assetFiles d"
  "frameLogs (fst (storeFrameAssetListing fid e tr t d)) = frameLogs d"
  "frameMetrics (fst (storeFrameAssetListing fid e tr t d)) = frameMetrics d"
  "assetFiles (fst (storeFrameAssetListing fid e tr t d)) = assetFiles d"
  "frameLogs (fst (storeFrameAssetFile fid p th c b t d)) = frameLogs d"
  "frameMetrics (fst (storeFrameAssetFile fid p th c b t d)) = frameMetrics d"
  by (auto simp: storeFrameLogs_def storeFrameMetrics_def storeFrameAssetListing_def storeFrameAssetFile_def
      upsert_asset_def cullFrameLogsOverBudget_def Let_def split: if_splits option.splits)

text \<open>\<open>requested d fid path thumb\<close>: a command row of the frame asks for this file.\<close>

definition requested :: "db \<Rightarrow> uuid \<Rightarrow> string \<Rightarrow> bool \<Rightarrow> bool" where
  "requested d fid path thumb \<longleftrightarrow> (\<exists>c\<in>set (commands d). c_frameId c = fid
     \<and> (c_type c = ''image_get'' \<and> path = frameImageAssetPath \<and> \<not> thumb
        \<or> c_type c = ''asset_get'' \<and> map_of (obj_fields (Some (c_payload c))) ''path'' = Some (JStr path)
          \<and> thumb = (map_of (obj_fields (Some (c_payload c))) ''thumb'' = Some (JBool True))))"

lemma asset_target_requested:
  "asset_target fid cid d = Some (path, thumb) \<Longrightarrow> requested d fid path thumb"
  unfolding asset_target_def requested_def
  by (auto simp: Let_def split: option.splits if_splits json.splits dest!: select_one_Some)

lemma stored_file_rows:
  "r \<in> set (assetFiles (fst (storeFrameAssetFile fid p th ct b t d))) \<Longrightarrow> r \<notin> set (assetFiles d) \<Longrightarrow>
   asset_key r = (fid, p, th) \<and> af_content r = b \<and> length b \<le> maxAssetFileBytes"
  by (auto simp: storeFrameAssetFile_def upsert_asset_def prune_assets_def Let_def asset_key_def set_update_where
      split: if_splits)

lemma chunk_authority:
  "(frameTelemetryLogsScope \<notin> set (ds_scopes s) \<longrightarrow>
      frameLogs (h_db (handleAssetChunk x io sid s msg h)) = frameLogs (h_db h))
   \<and> (frameTelemetryMetricsScope \<notin> set (ds_scopes s) \<longrightarrow>
      frameMetrics (h_db (handleAssetChunk x io sid s msg h)) = frameMetrics (h_db h))
   \<and> (\<forall>r\<in>set (assetFiles (h_db (handleAssetChunk x io sid s msg h))) - set (assetFiles (h_db h)).
      af_frameId r = ds_id s \<and> requested (h_db h) (ds_id s) (af_path r) (af_thumb r)
      \<and> length (af_content r) \<le> maxAssetFileBytes)"
proof (cases "h_db (handleAssetChunk x io sid s msg h) = h_db h")
  case False
  then obtain cid path thumb and st :: asset_stream where t: "asset_target (ds_id s) cid (h_db h) = Some (path, thumb)"
    and eq: "h_db (handleAssetChunk x io sid s msg h) = fst (storeFrameAssetFile (ds_id s) path thumb
        (as_contentType st) (concat (as_chunks st)) (io_now io) (h_db h))"
    by (auto simp: handleAssetChunk_def Let_def split: option.splits prod.splits)
  have "af_frameId r = ds_id s \<and> requested (h_db h) (ds_id s) (af_path r) (af_thumb r)
      \<and> length (af_content r) \<le> maxAssetFileBytes"
    if "r \<in> set (assetFiles (h_db (handleAssetChunk x io sid s msg h)))" "r \<notin> set (assetFiles (h_db h))" for r
    using stored_file_rows [OF that(1) [unfolded eq] that(2)] asset_target_requested [OF t]
    by (simp add: asset_key_def)
  then show ?thesis unfolding eq store_tables by blast
qed simp

text \<open>
  C17.  Scopes and requests gate what a device stores.  Without \<open>telemetry:logs\<close> no message changes the
  logs, without \<open>telemetry:metrics\<close> none changes the metrics, and every row a message writes to the asset
  cache is under a path and thumbnail flag that a command row of that very frame asked for, with at
  most \<open>maxAssetFileBytes\<close> of content: the device does not choose where its bytes go.
\<close>

theorem device_write_authority:
  assumes s: "h_sessions h sid = Some s"
  shows "(frameTelemetryLogsScope \<notin> set (ds_scopes s) \<longrightarrow>
            frameLogs (h_db (handleDeviceMessage x io sid t h)) = frameLogs (h_db h))
       \<and> (frameTelemetryMetricsScope \<notin> set (ds_scopes s) \<longrightarrow>
            frameMetrics (h_db (handleDeviceMessage x io sid t h)) = frameMetrics (h_db h))
       \<and> (\<forall>r\<in>set (assetFiles (h_db (handleDeviceMessage x io sid t h))) - set (assetFiles (h_db h)).
            af_frameId r = ds_id s \<and> requested (h_db h) (ds_id s) (af_path r) (af_thumb r)
            \<and> length (af_content r) \<le> maxAssetFileBytes)"
proof -
  have same: ?thesis if "besides (h_db (handleDeviceMessage x io sid t h)) = besides (h_db h)"
    using besides_tables [OF that] by simp
  show ?thesis
    using s
  proof (cases rule: device_message_cases [where x = x and io = io and t = t])
    case (logs msg)
    have a: "h_db (sendAckError io sid msg e h') = h_db h'" for e h' by (simp add: sendAckError_def)
    let ?es = "parseLogEntries x (io_now io) (map_of msg ''logs'')"
    have res: "h_db (handleLogBatch x io sid s msg h) = h_db h \<or> frameTelemetryLogsScope \<in> set (ds_scopes s)
        \<and> (\<exists>n. storeFrameLogs x (ds_id s) ?es (Some (f_accountId (ds_frame s))) (h_db h)
              = Some (h_db (handleLogBatch x io sid s msg h), n))"
      by (simp add: handleLogBatch_def a Let_def split_beta split: option.split)
    show ?thesis
    proof (cases "h_db (handleLogBatch x io sid s msg h) = h_db h")
      case False
      then obtain n where "frameTelemetryLogsScope \<in> set (ds_scopes s)"
        "storeFrameLogs x (ds_id s) ?es (Some (f_accountId (ds_frame s))) (h_db h)
           = Some (h_db (handleLogBatch x io sid s msg h), n)" using res by blast
      then show ?thesis using store_tables(1) [of x "ds_id s" ?es] unfolding logs by simp
    qed (simp add: logs)
  next
    case (metrics msg)
    have a: "h_db (sendAckError io sid msg e h') = h_db h'" for e h' by (simp add: sendAckError_def)
    have o: "frameLogs (h_db (on_frame f g h)) = frameLogs (h_db h)" "assetFiles (h_db (on_frame f g h)) = assetFiles (h_db h)"
      for f g by (simp_all add: on_frame_def)
    show ?thesis unfolding metrics
      by (simp add: handleMetrics_def a o store_tables Let_def split_beta split: option.split json.split)
  next
    case (assets msg)
    show ?thesis unfolding assets by (simp add: handleAssets_def store_tables)
  next
    case (chunk msg)
    show ?thesis unfolding chunk by (rule chunk_authority)
  qed (rule same, simp)+
qed

theorem device_write_authority_witness:
  "frameMetrics (h_db (handleDeviceMessage sample_ext demo_io 0 auth_text demo_ready)) = frameMetrics (h_db demo_ready)"
proof -
  have "map_option ds_scopes (h_sessions demo_ready 0) = Some [''frame:managed'']" by code_simp
  then obtain s where "h_sessions demo_ready 0 = Some s" "ds_scopes s = [''frame:managed'']" by auto
  then show ?thesis
    using device_write_authority [where h = demo_ready and sid = 0 and s = s and x = sample_ext and io = demo_io and t = auth_text]
    by (simp add: frameTelemetryMetricsScope_def)
qed

section \<open>How much a device stores in its own row\<close>

text \<open>
  \<open>scene_ack\<close> merges the scene it names into whatever state is there, so a state may exceed the limit by
  that one entry.
\<close>

definition state_bounded :: "json \<Rightarrow> bool" where
  "state_bounded v \<longleftrightarrow> v = JNull \<or> (\<exists>kvs. v = JObj kvs \<and> withinJsonByteLimit v maxStateBytes)
     \<or> (\<exists>kvs sc. v = JObj (AList.update ''active_scene'' (JStr sc) kvs) \<and> length sc \<le> maxSceneIdChars
          \<and> withinJsonByteLimit (JObj kvs) maxStateBytes)"

definition row_bounded :: "frame \<Rightarrow> bool" where
  "row_bounded f \<longleftrightarrow> state_bounded (f_lastState f)
     \<and> (f_lastMetrics f = JNull \<or> withinJsonByteLimit (f_lastMetrics f) maxMetricsBytes)
     \<and> (\<forall>v. f_frameosVersion f = Some v \<longrightarrow> length v \<le> 64)
     \<and> (\<forall>c. f_scenesChecksum f = Some c \<longrightarrow> length c \<le> maxChecksumChars)"

lemma alist_update_twice: "AList.update k v (AList.update k w al) = AList.update k v al"
  by (induction al) auto

lemma state_bounded_merge:
  assumes "state_bounded v" "length sc \<le> maxSceneIdChars"
  shows "state_bounded (merge_active_scene sc v)"
proof -
  show ?thesis
    using assms(1) unfolding state_bounded_def [of v]
  proof (elim disjE exE conjE, goal_cases)
    case 1
    have "utf8_bytes (json_text (JObj [])) = 2" by code_simp
    then have "withinJsonByteLimit (JObj []) maxStateBytes"
      by (simp only: withinJsonByteLimit_def json_bytes_def maxStateBytes_def)
    then have "state_bounded (JObj (AList.update ''active_scene'' (JStr sc) []))"
      unfolding state_bounded_def using assms(2) by blast
    with 1 show ?case by simp
  next
    case (2 kvs)
    then have "withinJsonByteLimit (JObj kvs) maxStateBytes" by simp
    then show ?case unfolding state_bounded_def merge_active_scene.simps 2(1) using assms(2) by blast
  next
    case (3 kvs sc')
    then show ?case unfolding state_bounded_def merge_active_scene.simps 3(1) alist_update_twice
      using assms(2) by blast
  qed
qed

lemma acceptable_state_bounded: "acceptable_state v = Some w \<Longrightarrow> state_bounded w"
  by (auto simp: acceptable_state_def state_bounded_def split: option.splits json.splits if_splits)

lemma checksum_bounded: "acceptable_checksum v = Some c \<Longrightarrow> length c \<le> maxChecksumChars"
  by (cases v rule: acceptable_checksum.cases) (auto split: if_splits)

lemma slice_bounded: "slice_str n v = Some w \<Longrightarrow> length w \<le> n"
  by (auto simp: slice_str_def)

lemma or_keep'_cases: "or_keep' v old = Some w \<Longrightarrow> v = Some w \<or> old = Some w"
  by (auto simp: or_keep'_def split: option.splits)

lemma state_of_message_object: "\<exists>kvs. state_of_message msg = JObj kvs"
  by (auto simp: state_of_message_def Let_def split: option.split json.split)

lemma connect_row_bounded: "row_bounded f \<Longrightarrow> row_bounded (connect_row now i hello f)"
  by (auto simp: row_bounded_def connect_row_def or_keep_def acceptable_state_bounded
      dest!: or_keep'_cases dest: slice_bounded checksum_bounded split: option.split)

lemma scene_row_bounded:
  assumes f: "row_bounded f"
  shows "row_bounded (f\<lparr>f_lastSeenAt := t, f_updatedAt := now,
     f_scenesChecksum := or_keep' (acceptable_checksum v) (f_scenesChecksum f),
     f_lastState := (case slice_str maxSceneIdChars w of None \<Rightarrow> f_lastState f
                     | Some sc \<Rightarrow> merge_active_scene sc (f_lastState f))\<rparr>)"
proof -
  have "length c \<le> maxChecksumChars" if "or_keep' (acceptable_checksum v) (f_scenesChecksum f) = Some c" for c
    using or_keep'_cases [OF that] f checksum_bounded by (auto simp: row_bounded_def)
  moreover have "state_bounded (case slice_str maxSceneIdChars w of None \<Rightarrow> f_lastState f
                     | Some sc \<Rightarrow> merge_active_scene sc (f_lastState f))"
    using f slice_bounded state_bounded_merge by (auto simp: row_bounded_def split: option.split)
  ultimately show ?thesis using f by (simp add: row_bounded_def)
qed

definition rows_bounded :: "uuid \<Rightarrow> frame list \<Rightarrow> bool" where
  "rows_bounded fid rows \<longleftrightarrow> (\<forall>f\<in>set rows. f_id f = fid \<longrightarrow> row_bounded f)"

lemma rows_bounded_update:
  "rows_bounded fid rows \<Longrightarrow> (\<And>f. P f \<Longrightarrow> f_id (g f) = f_id f) \<Longrightarrow> (\<And>f. row_bounded f \<Longrightarrow> row_bounded (g f)) \<Longrightarrow>
   rows_bounded fid (update_where P g rows)"
  unfolding rows_bounded_def by (rule update_where_all) auto

lemma rows_bounded_on_frame:
  "rows_bounded fid (frames (h_db h)) \<Longrightarrow> (\<And>f. f_id (g f) = f_id f) \<Longrightarrow> (\<And>f. row_bounded f \<Longrightarrow> row_bounded (g f)) \<Longrightarrow>
   rows_bounded fid (frames (h_db (on_frame fid' g h)))"
  by (simp add: rows_bounded_update)

lemma rows_bounded_disconnect:
  "rows_bounded fid (frames (h_db h)) \<Longrightarrow> rows_bounded fid (frames (h_db (markDeviceDisconnected io sid h)))"
  by (auto simp: markDeviceDisconnected_def Let_def row_bounded_def intro!: rows_bounded_update split: option.split)

lemma rows_bounded_activate:
  assumes b: "rows_bounded fid (frames (h_db h))"
  shows "rows_bounded fid (frames (h_db (activateDeviceSession io sid h)))"
proof (cases "h_sessions h sid")
  case (Some s)
  have "rows_bounded fid (update_where (\<lambda>f. f_id f = ds_id s) (connect_row now i hello) (frames (h_db h)))" for now i hello
    using b by (rule rows_bounded_update) (simp_all add: connect_row_bounded, simp add: connect_row_def)
  then show ?thesis
    by (auto simp: activateDeviceSession_def Let_def Some b intro!: rows_bounded_disconnect split: option.split)
qed (simp add: activateDeviceSession_def b)

lemma store_frames:
  "storeFrameLogs x fid es acc d = Some (d', n) \<Longrightarrow> frames d' = frames d"
  "frames (fst (storeFrameMetrics fid m t d)) = frames d"
  "frames (fst (storeFrameAssetListing fid e tr t d)) = frames d"
  "frames (fst (storeFrameAssetFile fid p th c b t d)) = frames d"
  by (auto simp: storeFrameLogs_def storeFrameMetrics_def storeFrameAssetListing_def storeFrameAssetFile_def
      upsert_asset_def cullFrameLogsOverBudget_def Let_def split: if_splits option.splits)

text \<open>
  A device's own row stays small.  If the row of a frame is within bounds, it is after any message of
  its device: a reported state of at most \<open>maxStateBytes\<close> of JSON plus one \<open>active_scene\<close> entry of at
  most \<open>maxSceneIdChars\<close> characters, metrics of at most \<open>maxMetricsBytes\<close>, a version of at most 64
  characters and a checksum of at most \<open>maxChecksumChars\<close>, however large or ill-typed the message is.
\<close>

lemma device_row_bounded:
  assumes s: "h_sessions h sid = Some s" and b: "rows_bounded fid (frames (h_db h))"
  shows "rows_bounded fid (frames (h_db (handleDeviceMessage x io sid t h)))"
  using s
proof (cases rule: device_message_cases [where x = x and io = io and t = t])
  case (start msg)
  have "rows_bounded fid (frames (h_db (start_message x io sid s msg h)))"
    by (cases rule: start_message_cases [where s = s and x = x and io = io and sid = sid and msg = msg and h = h])
      (simp_all add: rows_bounded_activate b)
  with start show ?thesis by simp
next
  case (ack msg)
  then show ?thesis by (simp add: handleAck_def b split: option.split)
next
  case (scene_ack msg)
  show ?thesis
    unfolding scene_ack handleSceneAck_def Let_def parts_broadcast
    by (rule rows_bounded_on_frame [OF b]) (simp, erule scene_row_bounded)
next
  case (state msg)
  obtain kvs where kvs: "state_of_message msg = JObj kvs" using state_of_message_object by blast
  then have "state_bounded (state_of_message msg)" if "withinJsonByteLimit (state_of_message msg) maxStateBytes"
    using that by (auto simp: state_bounded_def)
  with state show ?thesis
    by (auto simp: handleState_def Let_def row_bounded_def b intro!: rows_bounded_update
        dest!: or_keep'_cases dest: slice_bounded checksum_bounded)
next
  case (logs msg)
  have a: "h_db (sendAckError io sid msg e h') = h_db h'" for e h' by (simp add: sendAckError_def)
  have "frames (h_db (handleLogBatch x io sid s msg h)) = frames (h_db h)"
    using store_frames(1) by (auto simp: handleLogBatch_def a Let_def split_beta split: option.split)
  with logs b show ?thesis by simp
next
  case (metrics msg)
  have a: "h_db (sendAckError io sid msg e h') = h_db h'" for e h' by (simp add: sendAckError_def)
  show ?thesis unfolding metrics
    by (auto simp: handleMetrics_def a Let_def split_beta store_frames b row_bounded_def
        intro!: rows_bounded_update split: option.split json.split)
next
  case (assets msg)
  then show ?thesis by (simp add: handleAssets_def store_frames b)
next
  case (chunk msg)
  then show ?thesis
    by (auto simp: handleAssetChunk_def Let_def store_frames b split: option.split prod.split)
qed (simp add: b)

end
