(* ===== verification/HubDrain.thy ===== *)
theory HubDrain imports Commands begin

text \<open>
  \<open>drainCommands\<close> of \<open>cloud/apps/frame-hub/src/hub.ts\<close> at the granularity of its awaits.  Between two
  of them the web application may queue, supersede or revoke, a NOTIFY may call \<open>drainCommands\<close> again,
  and the socket may stall or close.  The theorems: no wake-up is lost, a drain that is left alone ends
  with nothing pending, and without interference it is the atomic \<open>drain_pass\<close> of \<open>Commands\<close>.
\<close>

section \<open>The loop as a machine\<close>

text \<open>Where the loop waits; \<open>Idle\<close> is \<open>draining = false\<close>.\<close>

datatype drain_pc =
    Idle
  | Expiring
  | Selecting
  | Sending "command list"
  | Marking string "command list"

text \<open>
  Two fields are not in the code.  \<open>dr_stalled\<close>: the last drain returned early.  \<open>dr_waiting\<close>: the
  commands that were pending at some call and have neither been written nor left \<open>pending\<close> since.
\<close>

record drainer =
  dr_pc :: drain_pc
  dr_queued :: bool
  dr_ready :: bool
  dr_closed :: bool
  dr_db :: db
  dr_out :: "string list"
  dr_stalled :: bool
  dr_waiting :: "string set"

definition pending_ids :: "uuid \<Rightarrow> db \<Rightarrow> string set" where
  "pending_ids fid d = set (map c_id (filter (\<lambda>c. c_frameId c = fid \<and> c_status c = CmdPending) (commands d)))"

definition settle :: "uuid \<Rightarrow> drainer \<Rightarrow> drainer" where
  "settle fid s = s\<lparr>dr_waiting := dr_waiting s \<inter> pending_ids fid (dr_db s)\<rparr>"

text \<open>A call of \<open>drainCommands\<close>, up to its first await.\<close>

definition call_drain :: "uuid \<Rightarrow> drainer \<Rightarrow> drainer" where
  "call_drain fid s =
     (if \<not> dr_ready s \<or> dr_closed s then s
      else if dr_pc s \<noteq> Idle then s\<lparr>dr_queued := True, dr_waiting := pending_ids fid (dr_db s)\<rparr>
      else s\<lparr>dr_pc := Expiring, dr_queued := False, dr_stalled := False, dr_waiting := pending_ids fid (dr_db s)\<rparr>)"

text \<open>One step of the loop; \<open>ws\<close> is the socket now: open, and its \<open>bufferedAmount\<close>.\<close>

definition drain_next :: "bool \<times> int \<Rightarrow> time \<Rightarrow> uuid \<Rightarrow> drainer \<Rightarrow> drainer" where
  "drain_next ws now fid s =
     (case dr_pc s of
        Idle \<Rightarrow> s
      | Expiring \<Rightarrow> settle fid (s\<lparr>dr_db := expireStaleCommands now (Some fid) (dr_db s), dr_pc := Selecting\<rparr>)
      | Selecting \<Rightarrow> s\<lparr>dr_pc := Sending (pending_commands fid (dr_db s))\<rparr>
      | Sending [] \<Rightarrow> if dr_queued s then s\<lparr>dr_queued := False, dr_pc := Expiring\<rparr> else s\<lparr>dr_pc := Idle\<rparr>
      | Sending (c # cs) \<Rightarrow>
          if \<not> fst ws \<or> snd ws > maxBufferedBytes then s\<lparr>dr_pc := Idle, dr_stalled := True\<rparr>
          else s\<lparr>dr_out := dr_out s @ [command_text c], dr_waiting := dr_waiting s - {c_id c},
                 dr_pc := Marking (c_id c) cs\<rparr>
      | Marking cid cs \<Rightarrow> settle fid (s\<lparr>dr_db := mark_sent cid now (dr_db s), dr_pc := Sending cs\<rparr>))"

inductive drain_step :: "uuid \<Rightarrow> drainer \<Rightarrow> drainer \<Rightarrow> bool" for fid where
  called: "drain_step fid s (call_drain fid s)"
| advanced: "drain_step fid s (drain_next ws now fid s)"
| others_wrote: "drain_step fid s (settle fid (s\<lparr>dr_db := d\<rparr>))"
| socket_closed: "drain_step fid s (s\<lparr>dr_closed := True\<rparr>)"

definition drain_start :: "db \<Rightarrow> drainer" where
  "drain_start d = \<lparr>dr_pc = Idle, dr_queued = False, dr_ready = True, dr_closed = False, dr_db = d, dr_out = [],
     dr_stalled = False, dr_waiting = {}\<rparr>"

section \<open>No wake-up is lost\<close>

text \<open>What the loop still has to write, wherever it waits.\<close>

fun remaining :: "drain_pc \<Rightarrow> command list" where
  "remaining (Sending cs) = cs"
| "remaining (Marking cid cs) = cs"
| "remaining _ = []"

definition covered :: "drainer \<Rightarrow> string \<Rightarrow> bool" where
  "covered s k \<longleftrightarrow> (dr_pc s = Idle \<and> dr_stalled s) \<or> (dr_pc s \<noteq> Idle \<and> dr_queued s)
     \<or> dr_pc s = Expiring \<or> dr_pc s = Selecting \<or> k \<in> c_id ` set (remaining (dr_pc s))"

definition drain_ok :: "uuid \<Rightarrow> drainer \<Rightarrow> bool" where
  "drain_ok fid s \<longleftrightarrow> dr_waiting s \<subseteq> pending_ids fid (dr_db s) \<and> (\<forall>k\<in>dr_waiting s. covered s k)"

lemma pending_commands_ids: "c_id ` set (pending_commands fid d) = pending_ids fid d"
  by (auto simp: pending_commands_def pending_ids_def)

lemma drain_ok_next: "drain_ok fid s \<Longrightarrow> drain_ok fid (drain_next ws now fid s)"
  using pending_commands_ids [of fid "dr_db s"]
  by (auto simp: drain_next_def drain_ok_def covered_def settle_def split: drain_pc.splits list.splits)

lemma drain_ok_step: "drain_step fid s s' \<Longrightarrow> drain_ok fid s \<Longrightarrow> drain_ok fid s'"
proof (induction rule: drain_step.induct)
  case (advanced s ws now)
  then show ?case by (rule drain_ok_next)
qed (auto simp: drain_ok_def call_drain_def settle_def covered_def)

lemma drain_ok_run: "(drain_step fid)\<^sup>*\<^sup>* (drain_start d) s \<Longrightarrow> drain_ok fid s"
proof (induction rule: rtranclp_induct)
  case base
  show ?case by (simp add: drain_ok_def drain_start_def)
next
  case (step s s')
  from drain_ok_step [OF step(2,3)] show ?case .
qed

text \<open>
  C8.  No wake-up is lost.  Whatever the interleaving of calls, of the loop's own awaits, of writes of
  others to the queue and of the socket closing: when the loop is idle and did not return early, no
  command that was pending at some call of \<open>drainCommands\<close> is still pending and unwritten.
\<close>

theorem no_lost_wakeup:
  assumes "(drain_step fid)\<^sup>*\<^sup>* (drain_start d) s" and "dr_pc s = Idle" and "\<not> dr_stalled s"
  shows "dr_waiting s = {}"
  using drain_ok_run [OF assms(1)] assms(2,3) by (auto simp: drain_ok_def covered_def)

theorem no_lost_wakeup_witness:
  "dr_waiting (drain_next (True, 0) 1 ''f'' (drain_next (True, 0) 1 ''f''
     (drain_next (True, 0) 1 ''f'' (call_drain ''f'' (drain_start empty_db))))) = {}"
proof -
  let ?n = "drain_next (True, 0) 1 ''f''" and ?s = "drain_start empty_db"
  let ?e = "?n (?n (?n (call_drain ''f'' ?s)))"
  have step: "(drain_step ''f'')\<^sup>*\<^sup>* ?s t \<Longrightarrow> (drain_step ''f'')\<^sup>*\<^sup>* ?s (?n t)" for t
    by (erule rtranclp.rtrancl_into_rtrancl) (rule drain_step.advanced)
  have "(drain_step ''f'')\<^sup>*\<^sup>* ?s ?e"
    by (intro step r_into_rtranclp drain_step.called)
  moreover have "dr_pc ?e = Idle \<and> \<not> dr_stalled ?e" by code_simp
  ultimately show ?thesis using no_lost_wakeup by blast
qed

section \<open>Left alone, a drain ends\<close>

definition reading :: "bool \<times> int \<Rightarrow> bool" where
  "reading ws \<longleftrightarrow> fst ws \<and> snd ws \<le> maxBufferedBytes"

text \<open>The commands of the frame not yet out of the loop's reach, those it is marking included.\<close>

fun in_reach :: "drain_pc \<Rightarrow> string set" where
  "in_reach (Sending cs) = c_id ` set cs"
| "in_reach (Marking cid cs) = insert cid (c_id ` set cs)"
| "in_reach _ = {}"

definition reaches_all :: "uuid \<Rightarrow> drainer \<Rightarrow> bool" where
  "reaches_all fid s \<longleftrightarrow> (dr_pc s \<noteq> Idle \<and> dr_queued s) \<or> dr_pc s = Expiring \<or> dr_pc s = Selecting
     \<or> pending_ids fid (dr_db s) \<subseteq> in_reach (dr_pc s)"

fun stage :: "drain_pc \<Rightarrow> nat" where
  "stage Idle = 0"
| "stage (Sending cs) = 1"
| "stage (Marking cid cs) = 1"
| "stage Selecting = 2"
| "stage Expiring = 3"

fun steps_left :: "drain_pc \<Rightarrow> nat" where
  "steps_left (Sending cs) = 2 * length cs"
| "steps_left (Marking cid cs) = 2 * length cs + 1"
| "steps_left _ = 0"

definition drain_measure :: "(drainer \<times> drainer) set" where
  "drain_measure = measures [\<lambda>s. if dr_queued s then 1 else 0, \<lambda>s. stage (dr_pc s), \<lambda>s. steps_left (dr_pc s)]"

lemma wf_drain_measure: "wf drain_measure"
  by (simp add: drain_measure_def)

lemma drain_next_decreases:
  "dr_pc s \<noteq> Idle \<Longrightarrow> (drain_next ws now fid s, s) \<in> drain_measure"
  by (auto simp: drain_next_def drain_measure_def settle_def split: drain_pc.splits list.splits)

lemma pending_ids_mark_sent: "pending_ids fid (mark_sent cid now d) = pending_ids fid d - {cid}"
proof -
  have rows: "filter (\<lambda>c. c_frameId c = fid \<and> c_status c = CmdPending)
      (update_where (\<lambda>c. c_id c = cid \<and> c_status c = CmdPending) (\<lambda>c. c\<lparr>c_sentAt := Some now, c_status := CmdSent\<rparr>) cs)
    = filter (\<lambda>c. c_id c \<noteq> cid) (filter (\<lambda>c. c_frameId c = fid \<and> c_status c = CmdPending) cs)" for cs
    by (induction cs) (simp_all add: update_where_Cons)
  have "pending_ids fid (mark_sent cid now d)
      = set (map c_id (filter (\<lambda>c. c_id c \<noteq> cid) (filter (\<lambda>c. c_frameId c = fid \<and> c_status c = CmdPending) (commands d))))"
    unfolding pending_ids_def mark_sent_def by (simp add: rows)
  then show ?thesis by (auto simp: pending_ids_def)
qed

lemma reaches_all_next:
  assumes r: "reaches_all fid s" and ws: "reading ws"
  shows "reaches_all fid (drain_next ws now fid s)"
proof (cases "dr_pc s")
  case Selecting
  then show ?thesis by (simp add: reaches_all_def drain_next_def pending_commands_ids)
next
  case (Sending cs)
  then show ?thesis using r ws
    by (cases cs) (auto simp: reaches_all_def drain_next_def reading_def)
next
  case (Marking cid cs)
  then show ?thesis using r
    by (auto simp: reaches_all_def drain_next_def settle_def pending_ids_mark_sent)
qed (use r in \<open>simp_all add: reaches_all_def drain_next_def settle_def\<close>)

lemma drain_ends:
  "reaches_all fid s \<Longrightarrow> reading ws \<Longrightarrow>
   \<exists>n. dr_pc ((drain_next ws now fid ^^ n) s) = Idle \<and> pending_ids fid (dr_db ((drain_next ws now fid ^^ n) s)) = {}"
proof (induction s rule: wf_induct_rule [OF wf_drain_measure])
  case (1 s)
  show ?case
  proof (cases "dr_pc s = Idle")
    case True
    with 1(2) show ?thesis by (intro exI [of _ 0]) (auto simp: reaches_all_def)
  next
    case False
    from 1(1) [OF drain_next_decreases [OF False] reaches_all_next [OF 1(2,3)] 1(3)]
    obtain n where "dr_pc ((drain_next ws now fid ^^ n) (drain_next ws now fid s)) = Idle"
      "pending_ids fid (dr_db ((drain_next ws now fid ^^ n) (drain_next ws now fid s))) = {}" by blast
    then show ?thesis by (intro exI [of _ "Suc n"]) (simp add: funpow_swap1)
  qed
qed

text \<open>
  C29.  A drain reaches the end of the queue.  From any state at all, a call on a ready, open session with
  a socket that reads, then only the loop's own steps: after finitely many the loop is idle again and no
  command of the frame is pending, whether the call started a drain or found one half way.
\<close>

theorem drain_reaches_end:
  assumes "dr_ready s" and "\<not> dr_closed s" and "reading ws"
  shows "\<exists>n. dr_pc ((drain_next ws now fid ^^ n) (call_drain fid s)) = Idle
           \<and> pending_ids fid (dr_db ((drain_next ws now fid ^^ n) (call_drain fid s))) = {}"
proof (rule drain_ends [OF _ assms(3)])
  show "reaches_all fid (call_drain fid s)"
    using assms(1,2) by (auto simp: reaches_all_def call_drain_def)
qed

definition demo_queue :: db where
  "demo_queue = empty_db\<lparr>commands := [sample_command]\<rparr>"

theorem drain_reaches_end_witness:
  "\<exists>n. pending_ids (c_frameId sample_command) (dr_db ((drain_next (True, 0) 1 (c_frameId sample_command) ^^ n)
      (call_drain (c_frameId sample_command) (drain_start demo_queue)))) = {}"
  using drain_reaches_end [of "drain_start demo_queue" "(True, 0)" 1 "c_frameId sample_command"]
  by (auto simp: drain_start_def reading_def maxBufferedBytes_def)

section \<open>The atomic drain\<close>

text \<open>The loop alone, with the socket seen before each write as in \<open>drain_rows\<close>.\<close>

fun drive :: "nat \<Rightarrow> sock_view \<Rightarrow> nat \<Rightarrow> time \<Rightarrow> uuid \<Rightarrow> drainer \<Rightarrow> drainer" where
  "drive 0 sock i now fid s = s"
| "drive (Suc n) sock i now fid s =
     (case dr_pc s of
        Idle \<Rightarrow> s
      | Sending (c # cs) \<Rightarrow> drive n sock (i + 1) now fid (drain_next (sock i) now fid s)
      | _ \<Rightarrow> drive n sock i now fid (drain_next (sock i) now fid s))"

lemma drive_Idle: "dr_pc s = Idle \<Longrightarrow> drive n sock i now fid s = s"
  by (cases n) simp_all

lemma drive_rows:
  "dr_pc s = Sending cs \<Longrightarrow> \<not> dr_queued s \<Longrightarrow> 2 * length cs + 1 \<le> n \<Longrightarrow>
   dr_pc (drive n sock i now fid s) = Idle
   \<and> dr_db (drive n sock i now fid s) = fst (drain_rows sock now i cs (dr_db s))
   \<and> dr_out (drive n sock i now fid s) = dr_out s @ snd (drain_rows sock now i cs (dr_db s))"
proof (induction cs arbitrary: n i s)
  case Nil
  then obtain m where "n = Suc m" by (cases n) auto
  then show ?case using Nil by (simp add: drain_next_def drive_Idle)
next
  case (Cons c cs)
  then obtain m where n: "n = Suc (Suc m)" "2 * length cs + 1 \<le> m"
    by (cases n; cases "n - 1") auto
  let ?s1 = "drain_next (sock i) now fid s"
  show ?case
  proof (cases "\<not> fst (sock i) \<or> snd (sock i) > maxBufferedBytes")
    case True
    then have "dr_pc ?s1 = Idle" "dr_db ?s1 = dr_db s" "dr_out ?s1 = dr_out s"
      using Cons.prems(1) by (auto simp: drain_next_def)
    then show ?thesis using True Cons.prems(1) n by (auto simp: drive_Idle)
  next
    case False
    let ?s2 = "drain_next (sock (i + 1)) now fid ?s1"
    have s1: "dr_pc ?s1 = Marking (c_id c) cs" using False Cons.prems(1) by (simp add: drain_next_def)
    have s2: "dr_pc ?s2 = Sending cs" "\<not> dr_queued ?s2" "dr_db ?s2 = mark_sent (c_id c) now (dr_db s)"
      "dr_out ?s2 = dr_out s @ [command_text c]"
      using False Cons.prems(1,2) by (simp_all add: drain_next_def settle_def)
    have "drive n sock i now fid s = drive m sock (i + 1) now fid ?s2"
      using n(1) Cons.prems(1) s1 by simp
    with Cons.IH [OF s2(1,2) n(2), of "i + 1"] s2(3,4) False show ?thesis
      by (simp add: Let_def split_beta)
  qed
qed

text \<open>
  C30.  The atomic drain is what the loop does when nothing interferes: started idle and driven to its
  end, with enough steps for the rows selected, it writes the same texts and leaves the same database
  as one \<open>drain_pass\<close>, on every socket, stalled or closed half way included.
\<close>

theorem drain_loop_refines_pass:
  assumes "dr_ready s" and "\<not> dr_closed s" and "dr_pc s = Idle"
    and "2 * length (pending_commands fid (expireStaleCommands now (Some fid) (dr_db s))) + 3 \<le> n"
  shows "dr_pc (drive n sock 0 now fid (call_drain fid s)) = Idle
       \<and> dr_db (drive n sock 0 now fid (call_drain fid s)) = fst (drain_pass sock fid now (dr_db s))
       \<and> dr_out (drive n sock 0 now fid (call_drain fid s)) = dr_out s @ snd (drain_pass sock fid now (dr_db s))"
proof -
  let ?cs = "pending_commands fid (expireStaleCommands now (Some fid) (dr_db s))"
  obtain m where n: "n = Suc (Suc m)" "2 * length ?cs + 1 \<le> m"
    using assms(4) by (cases n; cases "n - 1") auto
  let ?s2 = "drain_next (sock 0) now fid (drain_next (sock 0) now fid (call_drain fid s))"
  have s2: "dr_pc ?s2 = Sending ?cs" "\<not> dr_queued ?s2" "dr_db ?s2 = expireStaleCommands now (Some fid) (dr_db s)"
    "dr_out ?s2 = dr_out s"
    using assms(1-3) by (simp_all add: call_drain_def drain_next_def settle_def)
  have "drive n sock 0 now fid (call_drain fid s) = drive m sock 0 now fid ?s2"
    using assms(1-3) n(1) by (simp add: call_drain_def drain_next_def settle_def)
  with drive_rows [OF s2(1,2) n(2), of sock 0 now fid] s2(3,4) show ?thesis
    by (simp add: drain_pass_def Let_def)
qed

theorem drain_loop_refines_pass_witness:
  "dr_out (drive 5 (\<lambda>i. (True, 0)) 0 1 (c_frameId sample_command) (call_drain (c_frameId sample_command) (drain_start demo_queue)))
     = snd (drain_pass (\<lambda>i. (True, 0)) (c_frameId sample_command) 1 demo_queue)"
proof -
  have "length (pending_commands (c_frameId sample_command)
      (expireStaleCommands 1 (Some (c_frameId sample_command)) demo_queue)) \<le> 1" by code_simp
  then show ?thesis
    using drain_loop_refines_pass [where s = "drain_start demo_queue" and n = 5 and now = 1
      and fid = "c_frameId sample_command" and sock = "\<lambda>i. (True, 0)"]
    by (simp add: drain_start_def)
qed

end
