(* ===== verification/HubBrowsers.thy ===== *)
theory HubBrowsers imports Commands RateLimit begin

text \<open>
  Browser sockets of the frame hub: the origin check of \<open>cloud/apps/frame-hub/src/env.ts\<close>, the session
  cookie of \<open>session-auth.ts\<close>, and of \<open>hub.ts\<close> the admission of an upgrade request, the two
  registries of sockets, the broadcast with its backpressure, and the sweep that closes the sockets of
  revoked sessions.  A socket is a number; a registry is the insertion-ordered \<open>Map\<close> of
  insertion-ordered \<open>Set\<close>s.
\<close>

section \<open>Origins\<close>

definition octet_text :: "string \<Rightarrow> bool" where
  "octet_text w \<longleftrightarrow> 1 \<le> length w \<and> length w \<le> 3 \<and> list_all is_digit w"

definition isPrivateNetworkHostname :: "string \<Rightarrow> bool" where
  "isPrivateNetworkHostname hostname =
     (if hostname = ''localhost'' \<or> hostname = ''[::1]'' then True
      else (let parts = js_split (CHR ''.'') hostname
            in if \<not> (length parts = 4 \<and> list_all octet_text parts) then False
               else (let octets = map digits_int parts; a = octets ! 0; b = octets ! 1
                     in if list_ex (\<lambda>n. n > 255) octets then False
                        else a = 127 \<or> a = 10 \<or> (a = 192 \<and> b = 168) \<or> (a = 172 \<and> b \<ge> 16 \<and> b \<le> 31)
                             \<or> (a = 169 \<and> b = 254))))"

definition isAllowedBrowserOrigin :: "ext \<Rightarrow> string option \<Rightarrow> string list \<Rightarrow> bool \<Rightarrow> bool" where
  "isAllowedBrowserOrigin x origin allowed allowPrivateNetwork =
     (case origin of
        None \<Rightarrow> True
      | Some v \<Rightarrow>
          if v = [] then True
          else if v = ''null'' then False
          else (case parse_url x v of
                  None \<Rightarrow> False
                | Some url \<Rightarrow>
                    if u_origin url \<in> set allowed then True
                    else allowPrivateNetwork \<and> (u_protocol url = ''http:'' \<or> u_protocol url = ''https:'')
                         \<and> isPrivateNetworkHostname (u_hostname url)))"

section \<open>The session cookie\<close>

definition sessionCookieCandidates :: "string list" where
  "sessionCookieCandidates =
     [''__Host-frameos_cloud_session'', ''__Secure-frameos_cloud_session'', ''frameos_cloud_session'']"

text \<open>
  \<open>decodeURIComponent\<close>; \<open>None\<close> is its \<open>URIError\<close>.  A code point above U+00FF is read as U+001A, as in
  \<open>JsonParse\<close>.
\<close>

fun escaped_byte :: "string \<Rightarrow> (int \<times> string) option" where
  "escaped_byte (p # a # b # r) =
     (if p = CHR 0x25 \<and> is_hex a \<and> is_hex b then Some (hex_value a * 16 + hex_value b, r) else None)"
| "escaped_byte _ = None"

lemma escaped_byte_shorter: "escaped_byte s = Some (b, r) \<Longrightarrow> length r < length s"
  by (cases s rule: escaped_byte.cases) (auto split: if_splits)

fun continuation :: "nat \<Rightarrow> int \<Rightarrow> string \<Rightarrow> (int \<times> string) option" where
  "continuation 0 v s = Some (v, s)"
| "continuation (Suc n) v s =
     (case escaped_byte s of
        None \<Rightarrow> None
      | Some (b, r) \<Rightarrow> if 128 \<le> b \<and> b \<le> 191 then continuation n (v * 64 + (b - 128)) r else None)"

lemma continuation_shorter: "continuation n v s = Some (w, r) \<Longrightarrow> length r \<le> length s"
proof (induction n arbitrary: v s)
  case (Suc n)
  obtain b t where b: "escaped_byte s = Some (b, t)" "continuation n (v * 64 + (b - 128)) t = Some (w, r)"
    using Suc.prems by (auto split: option.splits if_splits)
  from Suc.IH [OF b(2)] escaped_byte_shorter [OF b(1)] show ?case by simp
qed simp

definition code_point_ok :: "nat \<Rightarrow> int \<Rightarrow> bool" where
  "code_point_ok n v \<longleftrightarrow> (n = 1 \<longrightarrow> v \<ge> 128) \<and> (n = 2 \<longrightarrow> v \<ge> 2048 \<and> \<not> (55296 \<le> v \<and> v \<le> 57343))
     \<and> (n = 3 \<longrightarrow> v \<ge> 65536 \<and> v \<le> 1114111)"

definition escape_seq :: "string \<Rightarrow> (int \<times> string) option" where
  "escape_seq s =
     (case escaped_byte s of
        None \<Rightarrow> None
      | Some (b, r) \<Rightarrow>
          if b < 128 then Some (b, r)
          else if b < 192 \<or> b > 247 then None
          else (let n = (if b < 224 then 1 else if b < 240 then 2 else 3);
                    lead = (if b < 224 then b - 192 else if b < 240 then b - 224 else b - 240)
                in case continuation n lead r of
                     None \<Rightarrow> None
                   | Some (v, r') \<Rightarrow> if code_point_ok n v then Some (v, r') else None))"

lemma escape_seq_shorter: "escape_seq s = Some (v, r) \<Longrightarrow> length r < length s"
  by (auto simp: escape_seq_def Let_def split: option.splits if_splits
      dest!: escaped_byte_shorter continuation_shorter)

function decodeURIComponent :: "string \<Rightarrow> string option" where
  "decodeURIComponent [] = Some []"
| "decodeURIComponent (c # r) =
     (if c \<noteq> CHR 0x25 then map_option ((#) c) (decodeURIComponent r)
      else (case escape_seq (c # r) of
              None \<Rightarrow> None
            | Some (v, r') \<Rightarrow> map_option ((#) (unit_char v)) (decodeURIComponent r')))"
  by pat_completeness auto
termination
  by (relation "measure length") (auto dest: escape_seq_shorter)

fun cookie_parts :: "string list \<Rightarrow> (string \<times> string) list \<Rightarrow> (string \<times> string) list" where
  "cookie_parts [] cookies = cookies"
| "cookie_parts (part # parts) cookies =
     (if CHR ''='' \<notin> set part then cookie_parts parts cookies
      else (let name = js_trim (takeWhile (\<lambda>c. c \<noteq> CHR ''='') part);
                rawValue = js_trim (drop 1 (dropWhile (\<lambda>c. c \<noteq> CHR ''='') part))
            in if name = [] \<or> map_of cookies name \<noteq> None then cookie_parts parts cookies
               else cookie_parts parts (cookies @ [(name,
                      case decodeURIComponent rawValue of Some v \<Rightarrow> v | None \<Rightarrow> rawValue)])))"

definition parseCookieHeader :: "string option \<Rightarrow> (string \<times> string) list" where
  "parseCookieHeader header =
     (case header of None \<Rightarrow> [] | Some h \<Rightarrow> if h = [] then [] else cookie_parts (js_split (CHR '';'') h) [])"

record browser_session =
  bs_accountId :: uuid
  bs_tokenHash :: string

definition verifySessionToken :: "ext \<Rightarrow> string \<Rightarrow> time \<Rightarrow> db \<Rightarrow> browser_session option" where
  "verifySessionToken x token now d =
     (case verify_session_jwt x token of
        None \<Rightarrow> None
      | Some payload \<Rightarrow>
          (case map_of payload ''profile'' of
             Some (JObj profile) \<Rightarrow>
               (case map_of profile ''accountId'' of
                  Some (JStr accountId) \<Rightarrow>
                    (let tokenHash = hashSecret x token
                     in case select_one (\<lambda>s. s_tokenHash s = tokenHash) (sessions d) of
                          None \<Rightarrow> None
                        | Some row \<Rightarrow>
                            if s_revokedAt row \<noteq> None \<or> s_expiresAt row \<le> now \<or> s_absoluteExpiresAt row \<le> now
                               \<or> s_accountId row \<noteq> accountId
                            then None
                            else Some \<lparr>bs_accountId = accountId, bs_tokenHash = tokenHash\<rparr>)
                | _ \<Rightarrow> None)
           | _ \<Rightarrow> None))"

fun first_session :: "ext \<Rightarrow> (string \<times> string) list \<Rightarrow> string list \<Rightarrow> time \<Rightarrow> db \<Rightarrow> browser_session option" where
  "first_session x cookies [] now d = None"
| "first_session x cookies (name # names) now d =
     (case map_of cookies name of
        None \<Rightarrow> first_session x cookies names now d
      | Some token \<Rightarrow>
          if token = [] then first_session x cookies names now d
          else (case verifySessionToken x token now d of
                  Some s \<Rightarrow> Some s
                | None \<Rightarrow> first_session x cookies names now d))"

definition authenticateBrowserSession :: "ext \<Rightarrow> string option \<Rightarrow> time \<Rightarrow> db \<Rightarrow> browser_session option" where
  "authenticateBrowserSession x cookieHeader now d =
     first_session x (parseCookieHeader cookieHeader) sessionCookieCandidates now d"

definition session_row_live :: "time \<Rightarrow> session_row \<Rightarrow> bool" where
  "session_row_live now s \<longleftrightarrow> s_revokedAt s = None \<and> s_expiresAt s > now \<and> s_absoluteExpiresAt s > now"

definition liveSessionHashes :: "string list \<Rightarrow> time \<Rightarrow> db \<Rightarrow> string list" where
  "liveSessionHashes tokenHashes now d =
     (if tokenHashes = [] then []
      else map s_tokenHash (filter (\<lambda>s. s_tokenHash s \<in> set tokenHashes \<and> session_row_live now s) (sessions d)))"

section \<open>The registries\<close>

record browser_connection =
  bc_accountId :: uuid
  bc_alive :: bool
  bc_tokenHash :: string

datatype browser_output =
    ToBrowser nat string
  | CloseBrowser nat int string
  | TerminateBrowser nat
  | PingBrowser nat

type_synonym registry = "(string \<times> nat list) list"

record browsers =
  br_conns :: "nat \<rightharpoonup> browser_connection"
  br_frames :: registry
  br_accounts :: registry
  br_open :: int
  br_out :: "browser_output list"

definition no_browsers :: browsers where
  "no_browsers = \<lparr>br_conns = Map.empty, br_frames = [], br_accounts = [], br_open = 0, br_out = []\<rparr>"

definition closeSlowConsumer :: int where "closeSlowConsumer = 1013"

text \<open>\<open>ws i\<close> is what the code sees of socket \<open>i\<close>: whether it is open, and \<open>bufferedAmount\<close>.\<close>

definition sendToConnections :: "(nat \<Rightarrow> bool \<times> int) \<Rightarrow> nat list option \<Rightarrow> string \<Rightarrow> browser_output list" where
  "sendToConnections ws connections message =
     (case connections of
        None \<Rightarrow> []
      | Some ids \<Rightarrow> concat (map (\<lambda>i.
          if \<not> fst (ws i) then []
          else if snd (ws i) > maxBufferedBytes then [CloseBrowser i closeSlowConsumer ''slow_consumer'']
          else [ToBrowser i message]) ids))"

definition broadcastToBrowsers ::
  "(nat \<Rightarrow> bool \<times> int) \<Rightarrow> uuid \<Rightarrow> uuid \<Rightarrow> string \<Rightarrow> json \<Rightarrow> browsers \<Rightarrow> browsers" where
  "broadcastToBrowsers ws accountId frameId event data b =
     (let message = browserEvent event data
      in b\<lparr>br_out := br_out b @ sendToConnections ws (map_of (br_frames b) frameId) message
                     @ sendToConnections ws (map_of (br_accounts b) accountId) message\<rparr>)"

definition registry_add :: "string \<Rightarrow> nat \<Rightarrow> registry \<Rightarrow> registry" where
  "registry_add key i r =
     (case map_of r key of
        None \<Rightarrow> AList.update key [i] r
      | Some ids \<Rightarrow> AList.update key (if i \<in> set ids then ids else ids @ [i]) r)"

definition registry_remove :: "string \<Rightarrow> nat \<Rightarrow> registry \<Rightarrow> registry" where
  "registry_remove key i r =
     (case map_of r key of
        None \<Rightarrow> r
      | Some ids \<Rightarrow>
          let ids' = filter (\<lambda>j. j \<noteq> i) ids
          in if ids' = [] then AList.delete key r else AList.update key ids' r)"

text \<open>\<open>fleet\<close> says which registry: the account's (\<open>True\<close>) or the frame's.\<close>

definition on_registry :: "bool \<Rightarrow> (registry \<Rightarrow> registry) \<Rightarrow> browsers \<Rightarrow> browsers" where
  "on_registry fleet f b =
     (if fleet then b\<lparr>br_accounts := f (br_accounts b)\<rparr> else b\<lparr>br_frames := f (br_frames b)\<rparr>)"

definition trackConnection :: "browsers \<Rightarrow> browsers" where
  "trackConnection b = b\<lparr>br_open := br_open b + 1\<rparr>"

definition attachBrowserSocket :: "nat \<Rightarrow> bool \<Rightarrow> string \<Rightarrow> browser_session \<Rightarrow> browsers \<Rightarrow> browsers" where
  "attachBrowserSocket i fleet key session b =
     on_registry fleet (registry_add key i)
       (b\<lparr>br_conns := (br_conns b)(i \<mapsto> \<lparr>bc_accountId = bs_accountId session, bc_alive = True,
                                          bc_tokenHash = bs_tokenHash session\<rparr>)\<rparr>)"

definition browserClosed :: "nat \<Rightarrow> bool \<Rightarrow> string \<Rightarrow> browsers \<Rightarrow> browsers" where
  "browserClosed i fleet key b = (on_registry fleet (registry_remove key i) b)\<lparr>br_open := br_open b - 1\<rparr>"

definition browserPong :: "nat \<Rightarrow> browsers \<Rightarrow> browsers" where
  "browserPong i b = b\<lparr>br_conns := (br_conns b)(i := map_option (\<lambda>c. c\<lparr>bc_alive := True\<rparr>) (br_conns b i))\<rparr>"

definition browserMessage :: "nat \<Rightarrow> string \<Rightarrow> browsers \<Rightarrow> browsers" where
  "browserMessage i text b =
     (let pong = b\<lparr>br_out := br_out b @ [ToBrowser i (browserEvent ''pong'' (JObj []))]\<rparr>
      in if text = ''ping'' then pong
         else (case parseJsonMessage text of
                 None \<Rightarrow> b
               | Some msg \<Rightarrow>
                   if map_of msg ''event'' = Some (JStr ''ping'') \<or> map_of msg ''type'' = Some (JStr ''ping'')
                   then pong else b))"

definition registry_ids :: "browsers \<Rightarrow> nat list" where
  "registry_ids b = concat (map snd (br_frames b)) @ concat (map snd (br_accounts b))"

definition heartbeat_browser :: "nat \<Rightarrow> browsers \<Rightarrow> browsers" where
  "heartbeat_browser i b =
     (case br_conns b i of
        None \<Rightarrow> b
      | Some c \<Rightarrow>
          if \<not> bc_alive c then b\<lparr>br_out := br_out b @ [TerminateBrowser i]\<rparr>
          else b\<lparr>br_conns := (br_conns b)(i \<mapsto> c\<lparr>bc_alive := False\<rparr>), br_out := br_out b @ [PingBrowser i]\<rparr>)"

definition heartbeat_browsers :: "browsers \<Rightarrow> browsers" where
  "heartbeat_browsers b = fold heartbeat_browser (registry_ids b) b"

definition conn_hash :: "browsers \<Rightarrow> nat \<Rightarrow> string list" where
  "conn_hash b i = (case br_conns b i of None \<Rightarrow> [] | Some c \<Rightarrow> [bc_tokenHash c])"

definition closeRevokedBrowserSockets :: "time \<Rightarrow> db \<Rightarrow> browsers \<Rightarrow> browsers" where
  "closeRevokedBrowserSockets now d b =
     (let connections = registry_ids b
      in if connections = [] then b
         else
           let live = liveSessionHashes (remdups (concat (map (conn_hash b) connections))) now d
           in b\<lparr>br_out := br_out b @ concat (map (\<lambda>i.
                  if \<exists>h\<in>set (conn_hash b i). h \<notin> set live
                  then [CloseBrowser i 4401 ''session_revoked''] else []) connections)\<rparr>)"

definition close_browsers :: "browsers \<Rightarrow> browsers" where
  "close_browsers b = b\<lparr>br_frames := [], br_accounts := [],
     br_out := br_out b @ map (\<lambda>i. CloseBrowser i 1001 ''shutting_down'') (registry_ids b)\<rparr>"

section \<open>Admission\<close>

record upgrade_request =
  uq_url :: "string option"
  uq_authorization :: "string option"
  uq_origin :: "string option"
  uq_cookie :: "string option"
  uq_clientIp :: string

record hub_config =
  hc_allowedOrigins :: "string list"
  hc_allowPrivate :: bool
  hc_maxConnections :: int

datatype upgrade =
    Rejected int string
  | DeviceSocket frame "string list"
  | FleetSocket browser_session
  | FrameSocket uuid browser_session

definition upgradeLimit :: int where "upgradeLimit = 120"
definition upgradeWindowMs :: int where "upgradeWindowMs = 60000"

definition devicePath :: string where "devicePath = ''/api/frames/ws''"
definition browserAccountPath :: string where "browserAccountPath = ''/api/frames/updates''"

text \<open>\<open>browserFramePathPattern\<close>: the id between the prefix and the suffix.\<close>

definition browser_frame_path :: "string \<Rightarrow> string option" where
  "browser_frame_path pathname =
     (let frameId = take 36 (drop 12 pathname)
      in if js_lower (take 12 pathname) = ''/api/frames/'' \<and> is_frame_id_text frameId
            \<and> js_lower (drop 48 pathname) = ''/updates''
         then Some frameId else None)"

definition browser_upgrade :: "ext \<Rightarrow> hub_config \<Rightarrow> upgrade_request \<Rightarrow> string \<Rightarrow> time \<Rightarrow> db \<Rightarrow> upgrade" where
  "browser_upgrade x cfg req pathname now d =
     (let path = browser_frame_path pathname
      in if (pathname = browserAccountPath \<or> path \<noteq> None)
            \<and> \<not> isAllowedBrowserOrigin x (uq_origin req) (hc_allowedOrigins cfg) (hc_allowPrivate cfg)
         then Rejected 403 ''forbidden_origin''
         else if pathname = browserAccountPath then
           (case authenticateBrowserSession x (uq_cookie req) now d of
              None \<Rightarrow> Rejected 401 ''unauthorized''
            | Some s \<Rightarrow> FleetSocket s)
         else (case path of
                 None \<Rightarrow> Rejected 404 ''not_found''
               | Some frameId \<Rightarrow>
                   if \<not> is_uuid frameId then Rejected 404 ''not_found''
                   else (case authenticateBrowserSession x (uq_cookie req) now d of
                           None \<Rightarrow> Rejected 401 ''unauthorized''
                         | Some s \<Rightarrow>
                             (case select_one (\<lambda>f. f_id f = js_lower frameId) (frames d) of
                                None \<Rightarrow> Rejected 403 ''forbidden''
                              | Some f \<Rightarrow>
                                  if f_accountId f \<noteq> bs_accountId s then Rejected 403 ''forbidden''
                                  else FrameSocket frameId s))))"

definition device_upgrade :: "ext \<Rightarrow> upgrade_request \<Rightarrow> time \<Rightarrow> db \<Rightarrow> db \<times> upgrade" where
  "device_upgrade x req now d =
     (let (d', linkedClient) = authenticateLinkedClient x (uq_authorization req) now d;
          frame = (case linkedClient of None \<Rightarrow> None | Some l \<Rightarrow> frameForLinkedClient (l_id l) d')
      in case deviceAuthError linkedClient frame of
           Some e \<Rightarrow> (d', Rejected 401 e)
         | None \<Rightarrow> (case (linkedClient, frame) of
                      (Some l, Some f) \<Rightarrow> (d', DeviceSocket f (linkedClientScopes l))
                    | _ \<Rightarrow> (d', Rejected 401 ''unauthorized'')))"

text \<open>\<open>db_fails\<close> and \<open>dbNow\<close> are what the shared limiter sees of the database.\<close>

definition handleUpgrade ::
  "ext \<Rightarrow> hub_config \<Rightarrow> bool \<Rightarrow> time \<Rightarrow> time \<Rightarrow> upgrade_request \<Rightarrow> int \<Rightarrow> rate_mem \<times> buckets \<Rightarrow> db
   \<Rightarrow> (rate_mem \<times> buckets) \<times> db \<times> upgrade" where
  "handleUpgrade x cfg db_fails dbNow now req openConnections limits d =
     (let pathname = hd (js_split (CHR 0x3F) (case uq_url req of None \<Rightarrow> [] | Some u \<Rightarrow> u))
      in if openConnections \<ge> hc_maxConnections cfg then (limits, d, Rejected 503 ''too_many_connections'')
         else
           let (limits', limit) = checkSharedRateLimit (''frame_hub_upgrade:'' @ uq_clientIp req)
                 upgradeLimit upgradeWindowMs db_fails dbNow now limits
           in if \<not> rr_allowed limit then (limits', d, Rejected 429 ''rate_limited'')
              else if pathname = devicePath then (limits', device_upgrade x req now d)
              else (limits', d, browser_upgrade x cfg req pathname now d))"

definition status_text :: "int \<Rightarrow> string" where
  "status_text status =
     (if status = 401 then ''Unauthorized'' else if status = 403 then ''Forbidden''
      else if status = 429 then ''Too Many Requests'' else if status = 503 then ''Service Unavailable''
      else ''Not Found'')"

text \<open>What an admitted browser request does to the registries.\<close>

definition admit_browser :: "nat \<Rightarrow> upgrade \<Rightarrow> browsers \<Rightarrow> browsers" where
  "admit_browser i u b =
     (case u of
        FleetSocket s \<Rightarrow> attachBrowserSocket i True (bs_accountId s) s (trackConnection b)
      | FrameSocket frameId s \<Rightarrow> attachBrowserSocket i False frameId s (trackConnection b)
      | _ \<Rightarrow> b)"

section \<open>Who may connect\<close>

lemma verifySessionToken_sound:
  assumes "verifySessionToken x token now d = Some s"
  shows "\<exists>row\<in>set (sessions d). s_tokenHash row = bs_tokenHash s \<and> s_accountId row = bs_accountId s
       \<and> session_row_live now row"
  using assms
  by (auto simp: verifySessionToken_def Let_def session_row_live_def
      split: option.splits json.splits if_splits dest!: select_one_Some)

lemma first_session_sound:
  "first_session x cookies names now d = Some s \<Longrightarrow>
   \<exists>name\<in>set names. \<exists>token. map_of cookies name = Some token \<and> verifySessionToken x token now d = Some s"
  by (induction names) (auto split: option.splits if_splits)

lemma authenticateBrowserSession_sound:
  "authenticateBrowserSession x cookie now d = Some s \<Longrightarrow>
   \<exists>row\<in>set (sessions d). s_tokenHash row = bs_tokenHash s \<and> s_accountId row = bs_accountId s
     \<and> session_row_live now row"
  unfolding authenticateBrowserSession_def using first_session_sound verifySessionToken_sound by blast

lemma browser_upgrade_sound:
  assumes u: "browser_upgrade x cfg req pathname now d = u" and b: "u = FleetSocket s \<or> u = FrameSocket fid s"
  shows "isAllowedBrowserOrigin x (uq_origin req) (hc_allowedOrigins cfg) (hc_allowPrivate cfg)
       \<and> authenticateBrowserSession x (uq_cookie req) now d = Some s
       \<and> (u = FrameSocket fid s \<longrightarrow> (\<exists>f\<in>set (frames d). f_id f = js_lower fid \<and> f_accountId f = bs_accountId s))"
  using u b
  by (auto simp: browser_upgrade_def Let_def split: if_splits option.splits dest!: select_one_Some)

lemma device_upgrade_sound:
  assumes "device_upgrade x req now d = (d', DeviceSocket f scopes)"
  shows "\<exists>l\<in>set (linkedClients d). (\<exists>t. bearer_token (uq_authorization req) = Some t \<and> token_matches now (hashSecret x t) l)
       \<and> l_revokedAt l = None \<and> l_clientKind l = ''frame'' \<and> frameManagedScope \<in> set (linkedClientScopes l)
       \<and> scopes = linkedClientScopes l \<and> f \<in> set (frames d) \<and> f_linkedClientId f = l_id l \<and> f_status f \<noteq> FrameRevoked"
proof -
  obtain d1 lc where a: "authenticateLinkedClient x (uq_authorization req) now d = (d1, lc)"
    by (cases "authenticateLinkedClient x (uq_authorization req) now d")
  obtain l where l: "lc = Some l" "deviceAuthError (Some l) (frameForLinkedClient (l_id l) d1) = None"
      "frameForLinkedClient (l_id l) d1 = Some f" "scopes = linkedClientScopes l"
    using assms a by (auto simp: device_upgrade_def Let_def split: option.splits)
  have fr: "frames d1 = frames d" using authenticate_frame(1) [of x "uq_authorization req" now d] a by simp
  have f: "f \<in> set (frames d) \<and> f_linkedClientId f = l_id l"
    using l(3) fr by (auto simp: frameForLinkedClient_def dest!: select_one_Some)
  have e: "l_clientKind l = ''frame'' \<and> frameManagedScope \<in> set (linkedClientScopes l) \<and> f_status f \<noteq> FrameRevoked"
    using l(2) unfolding l(3) by (auto simp: deviceAuthError_def split: if_splits)
  show ?thesis using authenticate_sound [OF a [unfolded l(1)]] f e l(4) by blast
qed


definition demo_session_row :: session_row where
  "demo_session_row = \<lparr>s_id = ''s'', s_accountId = ''a'', s_absoluteExpiresAt = 99, s_expiresAt = 50,
     s_lastUsedAt = 1, s_revokedAt = None, s_tokenHash = ''#a''\<rparr>"

definition demo_request :: upgrade_request where
  "demo_request = \<lparr>uq_url = Some ''/api/frames/updates'', uq_authorization = None, uq_origin = None,
     uq_cookie = Some ''x=1; frameos_cloud_session=%61'', uq_clientIp = ''10.0.0.1''\<rparr>"

definition demo_config :: hub_config where
  "demo_config = \<lparr>hc_allowedOrigins = [], hc_allowPrivate = False, hc_maxConnections = 5\<rparr>"

definition demo_browser_db :: db where
  "demo_browser_db = empty_db\<lparr>sessions := [demo_session_row]\<rparr>"

definition demo_upgrade :: "(rate_mem \<times> buckets) \<times> db \<times> upgrade" where
  "demo_upgrade = handleUpgrade sample_ext demo_config False 7 7 demo_request 0
     (\<lparr>rm_buckets = Map.empty, rm_ops = 0\<rparr>, Map.empty) demo_browser_db"

lemma demo_upgrade_admitted:
  "snd (snd demo_upgrade) = FleetSocket \<lparr>bs_accountId = ''a'', bs_tokenHash = ''#a''\<rparr>"
  by code_simp


section \<open>Origins\<close>

definition private_host :: "string \<Rightarrow> bool" where
  "private_host h \<longleftrightarrow> h \<in> {''localhost'', ''[::1]''}
       \<or> (\<exists>p q r s. h = js_join ''.'' [p, q, r, s] \<and> list_all octet_text [p, q, r, s]
            \<and> (\<forall>w\<in>{p, q, r, s}. digits_int w \<le> 255)
            \<and> (digits_int p \<in> {127, 10} \<or> digits_int p = 192 \<and> digits_int q = 168
               \<or> digits_int p = 172 \<and> digits_int q \<in> {16..31} \<or> digits_int p = 169 \<and> digits_int q = 254))"

lemma private_hostname:
  assumes "isPrivateNetworkHostname h"
  shows "private_host h"
proof (cases "h \<in> {''localhost'', ''[::1]''}")
  case False
  let ?ps = "js_split (CHR ''.'') h"
  have ps: "length ?ps = 4" "list_all octet_text ?ps" "\<not> list_ex (\<lambda>n. n > 255) (map digits_int ?ps)"
    using assms False by (auto simp: isPrivateNetworkHostname_def Let_def split: if_splits)
  obtain p q r s where eq: "?ps = [p, q, r, s]"
    using ps(1) by (auto simp: length_Suc_conv numeral_eq_Suc)
  have h: "h = js_join ''.'' [p, q, r, s]" using js_join_split [of "CHR ''.''" h] eq by simp
  have le: "\<forall>w\<in>{p, q, r, s}. digits_int w \<le> 255" using ps(3) by (simp add: eq)
  have kind: "digits_int p \<in> {127, 10} \<or> digits_int p = 192 \<and> digits_int q = 168
      \<or> digits_int p = 172 \<and> digits_int q \<in> {16..31} \<or> digits_int p = 169 \<and> digits_int q = 254"
    using assms False by (simp add: isPrivateNetworkHostname_def Let_def eq split: if_splits)
  show ?thesis using h le kind ps(2) unfolding eq private_host_def by blast
qed (simp add: private_host_def)

text \<open>
  The origin rule.  In production (no private networks) a request with an \<open>Origin\<close> is admitted
  only if the origin parses and is on the list, and \<open>null\<close> never is.  With private networks on, the only
  other hosts are \<open>localhost\<close>, \<open>[::1]\<close> and complete dotted quads of digits: a name that merely starts
  like a private address, or has any other character, is refused.
\<close>

lemma browser_origin_rule:
  assumes "isAllowedBrowserOrigin x (Some v) allowed priv" and "v \<noteq> []"
  shows "v \<noteq> ''null'' \<and> (\<exists>url. parse_url x v = Some url
       \<and> (u_origin url \<in> set allowed \<or> priv \<and> private_host (u_hostname url)))"
proof -
  obtain url where url: "parse_url x v = Some url" "v \<noteq> ''null''"
    using assms by (auto simp: isAllowedBrowserOrigin_def split: if_splits option.splits)
  then have "u_origin url \<in> set allowed \<or> priv \<and> isPrivateNetworkHostname (u_hostname url)"
    using assms by (auto simp: isAllowedBrowserOrigin_def split: if_splits)
  with private_hostname url show ?thesis by blast
qed

section \<open>Who is sent what\<close>

text \<open>
  The steps of the browser side.  \<open>owner\<close> maps a frame to its account, which no operation changes; an
  admitted socket is one \<open>browser_upgrade\<close> let in over a database that agrees with \<open>owner\<close>, and
  database ids are lower case.
\<close>

datatype browser_event = Joined nat upgrade | Left nat | Stopped | Running

inductive browser_step :: "ext \<Rightarrow> (uuid \<Rightarrow> uuid) \<Rightarrow> browsers \<Rightarrow> browser_event \<Rightarrow> browsers \<Rightarrow> bool" for x owner where
  admitted: "br_conns b i = None \<Longrightarrow> \<forall>f\<in>set (frames d). f_accountId f = owner (f_id f) \<Longrightarrow>
    u = browser_upgrade x cfg req pathname now d \<Longrightarrow> browser_step x owner b (Joined i u) (admit_browser i u b)"
| event: "browser_step x owner b Running (broadcastToBrowsers ws (owner fid) fid event data b)"
| pong: "browser_step x owner b Running (browserPong i b)"
| message: "browser_step x owner b Running (browserMessage i text b)"
| closed: "browser_step x owner b (Left i) (browserClosed i fleet key b)"
| heartbeat: "browser_step x owner b Running (heartbeat_browsers b)"
| rechecked: "browser_step x owner b Running (closeRevokedBrowserSockets now d b)"
| shutdown: "browser_step x owner b Stopped (close_browsers b)"
| devices: "browser_step x owner b Running (b\<lparr>br_open := n\<rparr>)"

inductive browser_run :: "ext \<Rightarrow> (uuid \<Rightarrow> uuid) \<Rightarrow> browser_event list \<Rightarrow> browsers \<Rightarrow> bool" for x owner where
  begun: "browser_run x owner [] no_browsers"
| continued: "browser_run x owner evs b \<Longrightarrow> browser_step x owner b ev b' \<Longrightarrow> browser_run x owner (evs @ [ev]) b'"

text \<open>The sockets that joined and have not left, each with the registry and the key it subscribed to.\<close>

fun note_event :: "browser_event \<Rightarrow> (nat \<times> bool \<times> string) list \<Rightarrow> (nat \<times> bool \<times> string) list" where
  "note_event (Joined i (FleetSocket s)) os = (i, True, bs_accountId s) # os"
| "note_event (Joined i (FrameSocket fid s)) os = (i, False, fid) # os"
| "note_event (Left i) os = filter (\<lambda>(j, _). j \<noteq> i) os"
| "note_event Stopped os = []"
| "note_event _ os = os"

definition open_sockets :: "browser_event list \<Rightarrow> (nat \<times> bool \<times> string) list" where
  "open_sockets evs = fold note_event evs []"

definition registered :: "(nat \<rightharpoonup> browser_connection) \<Rightarrow> (string \<Rightarrow> uuid) \<Rightarrow> registry \<Rightarrow> bool" where
  "registered conns account r \<longleftrightarrow> distinct (map fst r) \<and> (\<forall>(key, ids)\<in>set r. ids \<noteq> [] \<and> distinct ids
     \<and> (\<forall>i\<in>set ids. \<exists>c. conns i = Some c \<and> bc_accountId c = account key))"

definition browsers_ok :: "(uuid \<Rightarrow> uuid) \<Rightarrow> browsers \<Rightarrow> bool" where
  "browsers_ok owner b \<longleftrightarrow> registered (br_conns b) (\<lambda>k. k) (br_accounts b)
     \<and> registered (br_conns b) (\<lambda>k. owner (js_lower k)) (br_frames b)"

lemma registered_Nil [simp]: "registered conns acc []"
  by (simp add: registered_def)

lemma registered_conns:
  assumes "registered conns acc r"
    and "\<And>j c. conns j = Some c \<Longrightarrow> \<exists>c'. conns' j = Some c' \<and> bc_accountId c' = bc_accountId c"
  shows "registered conns' acc r"
  using assms unfolding registered_def by fastforce

lemma registered_add:
  assumes "registered conns acc r" and "conns i = Some c" and "bc_accountId c = acc key"
  shows "registered conns acc (registry_add key i r)"
  using assms map_of_SomeD [of r key]
  by (fastforce simp: registered_def registry_add_def distinct_update split: option.split dest!: in_alist_update)

lemma registered_remove: "registered conns acc r \<Longrightarrow> registered conns acc (registry_remove key i r)"
  using map_of_SomeD [of r key]
  by (fastforce simp: registered_def registry_remove_def Let_def distinct_update distinct_delete
      split: option.split dest!: in_alist_update)

lemma ok_attach:
  assumes ok: "browsers_ok owner b" and fresh: "br_conns b i = None"
    and key: "bs_accountId s = (if fleet then key else owner (js_lower key))"
  shows "browsers_ok owner (attachBrowserSocket i fleet key s b)"
proof -
  let ?c = "\<lparr>bc_accountId = bs_accountId s, bc_alive = True, bc_tokenHash = bs_tokenHash s\<rparr>"
  have keep: "registered ((br_conns b)(i \<mapsto> ?c)) acc r" if "registered (br_conns b) acc r" for acc r
    by (rule registered_conns [OF that]) (use fresh in auto)
  have r: "registered ((br_conns b)(i \<mapsto> ?c)) (\<lambda>k. k) (br_accounts b)"
    "registered ((br_conns b)(i \<mapsto> ?c)) (\<lambda>k. owner (js_lower k)) (br_frames b)"
    using ok keep by (simp_all add: browsers_ok_def)
  show ?thesis
  proof (cases fleet)
    case True
    then show ?thesis using r key registered_add [OF r(1), of i ?c key]
      by (simp add: browsers_ok_def attachBrowserSocket_def on_registry_def)
  next
    case False
    then show ?thesis using r key registered_add [OF r(2), of i ?c key]
      by (simp add: browsers_ok_def attachBrowserSocket_def on_registry_def)
  qed
qed

lemma ok_admit:
  assumes ok: "browsers_ok owner b" and fresh: "br_conns b i = None"
    and d: "\<forall>f\<in>set (frames d). f_accountId f = owner (f_id f)"
  shows "browsers_ok owner (admit_browser i (browser_upgrade x cfg req pathname now d) b)"
proof -
  have t: "browsers_ok owner (trackConnection b)" "br_conns (trackConnection b) i = None"
    using ok fresh by (simp_all add: browsers_ok_def trackConnection_def)
  show ?thesis
  proof (cases "browser_upgrade x cfg req pathname now d")
    case (FleetSocket s)
    then show ?thesis using ok_attach [OF t, of s True] by (simp add: admit_browser_def)
  next
    case (FrameSocket fid s)
    then have "owner (js_lower fid) = bs_accountId s"
      using browser_upgrade_sound [OF FrameSocket] d by auto
    then show ?thesis using FrameSocket ok_attach [OF t, of s False fid] by (simp add: admit_browser_def)
  qed (use ok in \<open>simp_all add: admit_browser_def\<close>)
qed

lemma ok_heartbeat_browser: "browsers_ok owner b \<Longrightarrow> browsers_ok owner (heartbeat_browser i b)"
  by (cases "br_conns b i") (auto simp: heartbeat_browser_def browsers_ok_def elim!: registered_conns)

lemma ok_browser_step: "browser_step x owner b ev b' \<Longrightarrow> browsers_ok owner b \<Longrightarrow> browsers_ok owner b'"
proof (induction rule: browser_step.induct)
  case (admitted b i d u cfg req pathname now)
  then show ?case using ok_admit by blast
next
  case (pong b i)
  then show ?case by (cases "br_conns b i") (auto simp: browserPong_def browsers_ok_def elim!: registered_conns)
next
  case (heartbeat b)
  have "browsers_ok owner (fold heartbeat_browser ids b)" for ids
    using heartbeat by (induction ids arbitrary: b) (simp_all add: ok_heartbeat_browser)
  then show ?case by (simp add: heartbeat_browsers_def)
qed (auto simp: browsers_ok_def broadcastToBrowsers_def browserMessage_def browserClosed_def on_registry_def
    closeRevokedBrowserSockets_def close_browsers_def Let_def registered_remove split: option.split)

lemma ok_browser_run: "browser_run x owner evs b \<Longrightarrow> browsers_ok owner b"
proof (induction rule: browser_run.induct)
  case begun
  show ?case by (simp add: browsers_ok_def no_browsers_def)
next
  case (continued evs b ev b')
  from ok_browser_step [OF continued(2,3)] show ?case .
qed

text \<open>A socket stays in its set while others come and go.\<close>

definition in_registry :: "registry \<Rightarrow> string \<Rightarrow> nat \<Rightarrow> bool" where
  "in_registry r key i \<longleftrightarrow> (\<exists>ids. map_of r key = Some ids \<and> i \<in> set ids)"

definition subscribed :: "browsers \<Rightarrow> nat \<times> bool \<times> string \<Rightarrow> bool" where
  "subscribed b = (\<lambda>(i, fleet, key). in_registry (if fleet then br_accounts b else br_frames b) key i)"

lemma in_registry_add_self: "in_registry (registry_add key i r) key i"
  by (auto simp: in_registry_def registry_add_def update_conv' split: option.split)

lemma in_registry_add: "in_registry r k j \<Longrightarrow> in_registry (registry_add key i r) k j"
  by (auto simp: in_registry_def registry_add_def update_conv' split: option.split)

lemma in_registry_remove: "in_registry r k j \<Longrightarrow> j \<noteq> i \<Longrightarrow> in_registry (registry_remove key i r) k j"
  by (auto simp: in_registry_def registry_remove_def update_conv' delete_conv' Let_def filter_empty_conv split: option.split)

lemma subscribed_tables:
  "br_accounts b' = br_accounts b \<Longrightarrow> br_frames b' = br_frames b \<Longrightarrow> subscribed b' e = subscribed b e"
  by (cases e) (simp add: subscribed_def)

lemma heartbeat_tables:
  "br_accounts (fold heartbeat_browser ids b) = br_accounts b" "br_frames (fold heartbeat_browser ids b) = br_frames b"
proof -
  have one: "br_accounts (heartbeat_browser i b) = br_accounts b \<and> br_frames (heartbeat_browser i b) = br_frames b" for i b
    by (simp add: heartbeat_browser_def split: option.split)
  show "br_accounts (fold heartbeat_browser ids b) = br_accounts b" "br_frames (fold heartbeat_browser ids b) = br_frames b"
    by (induction ids arbitrary: b) (simp_all add: one)
qed

lemma subscribed_attach:
  "e = (i, fleet, key) \<or> subscribed b e \<Longrightarrow> subscribed (attachBrowserSocket i fleet key s (trackConnection b)) e"
  by (cases e) (auto simp: subscribed_def attachBrowserSocket_def on_registry_def trackConnection_def in_registry_add
      in_registry_add_self)

lemma subscribed_admit:
  assumes "\<And>e. e \<in> set os \<Longrightarrow> subscribed b e" and "e \<in> set (note_event (Joined i u) os)"
  shows "subscribed (admit_browser i u b) e"
  using assms by (cases u; cases e) (auto simp: admit_browser_def intro!: subscribed_attach)

lemma subscribed_closed: "subscribed b e \<Longrightarrow> fst e \<noteq> i \<Longrightarrow> subscribed (browserClosed i fleet key b) e"
  by (cases e) (auto simp: subscribed_def browserClosed_def on_registry_def in_registry_remove)

lemma running_tables:
  assumes "browser_step x owner b Running b'"
  shows "br_accounts b' = br_accounts b" "br_frames b' = br_frames b"
  using assms by (cases rule: browser_step.cases; simp add: broadcastToBrowsers_def browserPong_def browserMessage_def
      closeRevokedBrowserSockets_def heartbeat_browsers_def heartbeat_tables Let_def split: option.split)+

lemma subscribed_step:
  assumes step: "browser_step x owner b ev b'" and os: "\<And>e. e \<in> set os \<Longrightarrow> subscribed b e" and e: "e \<in> set (note_event ev os)"
  shows "subscribed b' e"
proof (cases ev)
  case (Joined i u)
  with step have "b' = admit_browser i u b" by (auto elim: browser_step.cases)
  then show ?thesis using subscribed_admit [OF os] e Joined by blast
next
  case (Left i)
  with step obtain fleet key where "b' = browserClosed i fleet key b" by (auto elim: browser_step.cases)
  then show ?thesis using e os Left by (auto intro!: subscribed_closed)
next
  case Stopped
  then show ?thesis using e by simp
next
  case Running
  with step show ?thesis using e os subscribed_tables [OF running_tables] by simp
qed

lemma open_sockets_subscribed:
  "browser_run x owner evs b \<Longrightarrow> e \<in> set (open_sockets evs) \<Longrightarrow> subscribed b e"
proof (induction arbitrary: e rule: browser_run.induct)
  case (continued evs b ev b')
  show ?case
    by (rule subscribed_step [OF continued(2) continued.IH]) (use continued.prems in \<open>simp_all add: open_sockets_def\<close>)
qed (simp add: open_sockets_def)

lemma sent_to: "ToBrowser i t \<in> set (sendToConnections ws conns m) \<Longrightarrow> \<exists>ids. conns = Some ids \<and> i \<in> set ids \<and> t = m"
  by (auto simp: sendToConnections_def split: option.splits if_splits)

text \<open>
  C21.  Telemetry stays in the account and reaches all of it.  In every reachable state an event of a frame is sent only
  to sockets whose session belongs to the frame's account.  It is sent to every socket that joined, has not left since and
  is open and reading: the fleet sockets of the account and the sockets that subscribed to the frame under its id; one
  with more than \<open>maxBufferedBytes\<close> unsent is closed with 1013 instead.
\<close>

theorem events_stay_in_account:
  assumes run: "browser_run x owner evs b" and low: "js_lower fid = fid"
    and out: "br_out (broadcastToBrowsers ws (owner fid) fid event data b) = br_out b @ sent"
  shows "(\<forall>i t. ToBrowser i t \<in> set sent \<longrightarrow> t = browserEvent event data \<and> fst (ws i) \<and> snd (ws i) \<le> maxBufferedBytes
            \<and> (\<exists>c. br_conns b i = Some c \<and> bc_accountId c = owner fid))
       \<and> (\<forall>i. ((i, True, owner fid) \<in> set (open_sockets evs) \<or> (i, False, fid) \<in> set (open_sockets evs)) \<and> fst (ws i) \<longrightarrow>
            (if snd (ws i) > maxBufferedBytes then CloseBrowser i closeSlowConsumer ''slow_consumer''
             else ToBrowser i (browserEvent event data)) \<in> set sent)"
proof -
  have ok: "browsers_ok owner b" by (rule ok_browser_run [OF run])
  have s: "sent = sendToConnections ws (map_of (br_frames b) fid) (browserEvent event data)
      @ sendToConnections ws (map_of (br_accounts b) (owner fid)) (browserEvent event data)"
    using out by (simp add: broadcastToBrowsers_def Let_def)
  have acc: "\<exists>c. br_conns b i = Some c \<and> bc_accountId c = owner fid"
    if "map_of (br_frames b) fid = Some ids \<or> map_of (br_accounts b) (owner fid) = Some ids" "i \<in> set ids" for ids i
    using that ok low by (auto simp: browsers_ok_def registered_def dest!: map_of_SomeD)
  have "fst (ws i) \<and> snd (ws i) \<le> maxBufferedBytes" if "ToBrowser i t \<in> set sent" for i t
    using that unfolding s by (auto simp: sendToConnections_def split: option.splits if_splits)
  moreover have "t = browserEvent event data \<and> (\<exists>c. br_conns b i = Some c \<and> bc_accountId c = owner fid)"
    if "ToBrowser i t \<in> set sent" for i t
    using that acc unfolding s by (auto dest!: sent_to)
  moreover have "(if snd (ws i) > maxBufferedBytes then CloseBrowser i closeSlowConsumer ''slow_consumer''
             else ToBrowser i (browserEvent event data)) \<in> set sent"
    if "(i, True, owner fid) \<in> set (open_sockets evs) \<or> (i, False, fid) \<in> set (open_sockets evs)" "fst (ws i)" for i
  proof -
    have "in_registry (br_accounts b) (owner fid) i \<or> in_registry (br_frames b) fid i"
      using that(1) open_sockets_subscribed [OF run] by (force simp: subscribed_def)
    then show ?thesis using that(2) unfolding s by (auto simp: sendToConnections_def in_registry_def)
  qed
  ultimately show ?thesis by blast
qed

definition demo_fleet :: browsers where
  "demo_fleet = admit_browser 3 (browser_upgrade sample_ext demo_config demo_request ''/api/frames/updates'' 7 demo_browser_db)
     no_browsers"

definition demo_fleet_events :: "browser_event list" where
  "demo_fleet_events = [Joined 3 (browser_upgrade sample_ext demo_config demo_request ''/api/frames/updates'' 7 demo_browser_db)]"

lemma demo_fleet_run: "browser_run sample_ext (\<lambda>_. ''a'') demo_fleet_events demo_fleet"
proof -
  have "browser_step sample_ext (\<lambda>_. ''a'') no_browsers
      (Joined 3 (browser_upgrade sample_ext demo_config demo_request ''/api/frames/updates'' 7 demo_browser_db)) demo_fleet"
    unfolding demo_fleet_def
    by (rule browser_step.admitted) (simp_all add: no_browsers_def demo_browser_db_def empty_db_def)
  from browser_run.continued [OF browser_run.begun this] show ?thesis by (simp add: demo_fleet_events_def)
qed

theorem events_stay_in_account_witness:
  "ToBrowser 3 (browserEvent ''new_log'' JNull)
     \<in> set (br_out (broadcastToBrowsers (\<lambda>i. (True, 0)) ''a'' ''f'' ''new_log'' JNull demo_fleet))"
proof -
  let ?b = "broadcastToBrowsers (\<lambda>i. (True, 0)) ''a'' ''f'' ''new_log'' JNull demo_fleet"
  obtain sent where out: "br_out ?b = br_out demo_fleet @ sent" by (simp add: broadcastToBrowsers_def Let_def)
  have low: "js_lower ''f'' = ''f''" by code_simp
  have r: "open_sockets demo_fleet_events = [(3, True, ''a'')]" by code_simp
  have m: "\<not> maxBufferedBytes < 0" by (simp add: maxBufferedBytes_def)
  show ?thesis
    using events_stay_in_account [OF demo_fleet_run low, of "\<lambda>i. (True, 0)" "''new_log''" JNull sent] out r m by auto
qed

text \<open>
  A per-frame socket is registered under the id as the client spelled it, and events are routed by the
  lower-case id of the row: a subscription with an upper-case digit is admitted and never hears anything.
\<close>

lemma uppercase_subscription_silent:
  assumes "js_lower fid \<noteq> fid" and "js_lower k = k"
  shows "map_of (br_frames (admit_browser i (FrameSocket fid s) no_browsers)) k = None"
proof -
  have "k \<noteq> fid" using assms by auto
  then show ?thesis
    by (simp add: admit_browser_def attachBrowserSocket_def on_registry_def registry_add_def trackConnection_def
        no_browsers_def)
qed

lemma live_hash:
  "h \<in> set hs \<Longrightarrow> (h \<in> set (liveSessionHashes hs now d))
     = (\<exists>row\<in>set (sessions d). s_tokenHash row = h \<and> session_row_live now row)"
  by (cases "hs = []") (auto simp: liveSessionHashes_def)

text \<open>
  Revoked browsers are cut off.  The sweep closes with 4401 exactly the registered sockets whose
  session has no live row at that moment: one revoked, idle past its deadline or over its ceiling; every
  socket of a live session stays open.
\<close>

lemma revoked_sockets_closed:
  assumes "br_conns b i = Some c" and "i \<in> set (registry_ids b)"
  shows "(CloseBrowser i 4401 ''session_revoked''
            \<in> set (drop (length (br_out b)) (br_out (closeRevokedBrowserSockets now d b))))
         = (\<forall>row\<in>set (sessions d). s_tokenHash row = bc_tokenHash c \<longrightarrow> \<not> session_row_live now row)"
proof -
  let ?live = "liveSessionHashes (remdups (concat (map (conn_hash b) (registry_ids b)))) now d"
  have h: "conn_hash b i = [bc_tokenHash c]" using assms(1) by (simp add: conn_hash_def)
  have member: "bc_tokenHash c \<in> set (remdups (concat (map (conn_hash b) (registry_ids b))))"
    using assms(2) h by (auto intro!: bexI [of _ i])
  have live: "bc_tokenHash c \<in> set ?live
      = (\<exists>row\<in>set (sessions d). s_tokenHash row = bc_tokenHash c \<and> session_row_live now row)"
    by (rule live_hash [OF member])
  have "registry_ids b \<noteq> []" using assms(2) by auto
  then have out: "drop (length (br_out b)) (br_out (closeRevokedBrowserSockets now d b))
      = concat (map (\<lambda>i. if \<exists>h\<in>set (conn_hash b i). h \<notin> set ?live then [CloseBrowser i 4401 ''session_revoked''] else [])
          (registry_ids b))"
    by (simp add: closeRevokedBrowserSockets_def Let_def)
  have "(CloseBrowser i 4401 ''session_revoked'' \<in> set (drop (length (br_out b))
      (br_out (closeRevokedBrowserSockets now d b)))) = (bc_tokenHash c \<notin> set ?live)"
    unfolding out using assms(2) h by (auto split: if_splits)
  with live show ?thesis by blast
qed

end
