(* ===== verification/Http.thy ===== *)
theory Http imports HubBrowsers begin

text \<open>
  What every route handler of the web application starts with: the request and the response, the checks
  of \<open>csrf.ts\<close>, \<open>rate-limit.ts\<close>, \<open>session.ts\<close> and \<open>device-flow.ts\<close>, and the audit trail of
  \<open>audit.ts\<close>.  A handler takes the world (database and rate-limit store) to the new world and the
  response.  One instant \<open>we_now\<close> stands for the clock reads of a request; random tokens and ids come
  from the environment in the order the handler draws them.
\<close>

section \<open>Requests, responses, the world\<close>

record web_env =
  we_appOrigins :: "string list"
  we_hasDatabase :: bool
  we_dbFails :: bool
  we_dbNow :: time
  we_now :: time
  we_uuid :: "nat \<Rightarrow> uuid"
  we_random :: "nat \<Rightarrow> string"
  we_maxFrames :: nat
  we_maxClaimTokens :: nat
  we_claimTokenTtlMs :: int
  we_frameHubPublicUrl :: "string option"

record web_request =
  rq_origin :: "string option"
  rq_json :: "json option"
  rq_authorization :: "string option"
  rq_sessionCookie :: "string option"
  rq_ip :: string
  rq_userAgent :: "string option"
  rq_query :: "(string \<times> string) list"
  rq_hostname :: string

record http_response =
  rs_status :: int
  rs_body :: json

record world =
  w_db :: db
  w_limits :: "rate_mem \<times> buckets"

definition on_w_db :: "(db \<Rightarrow> db) \<Rightarrow> world \<Rightarrow> world" where
  "on_w_db f w = w\<lparr>w_db := f (w_db w)\<rparr>"

definition jsonError :: "string \<Rightarrow> int \<Rightarrow> fields \<Rightarrow> http_response" where
  "jsonError error status extra = \<lparr>rs_status = status, rs_body = JObj (obj_spread [(''error'', JStr error)] extra)\<rparr>"

definition jsonOk :: "fields \<Rightarrow> http_response" where
  "jsonOk kvs = \<lparr>rs_status = 200, rs_body = JObj kvs\<rparr>"

lemma status_simps [simp]:
  "rs_status (jsonError e s kvs) = s" "rs_status (jsonOk kvs) = 200"
  by (simp_all add: jsonError_def jsonOk_def)

section \<open>Guards\<close>

definition csrfResponse :: "web_env \<Rightarrow> web_request \<Rightarrow> http_response option" where
  "csrfResponse env rq =
     (case rq_origin rq of
        None \<Rightarrow> Some (jsonError ''missing_origin'' 403 [])
      | Some origin \<Rightarrow>
          if origin = [] then Some (jsonError ''missing_origin'' 403 [])
          else if origin \<notin> set (we_appOrigins env) then Some (jsonError ''invalid_origin'' 403 [])
          else None)"

definition tooManyRequests :: "web_env \<Rightarrow> time \<Rightarrow> http_response" where
  "tooManyRequests env resetAt =
     (let retryAfter = - ((we_now env - resetAt) div 1000)
      in jsonError ''rate_limited'' 429 [(''retry_after'', num_of_int retryAfter)])"

definition limit_key :: "web_env \<Rightarrow> string \<Rightarrow> int \<Rightarrow> int \<Rightarrow> world \<Rightarrow> world \<times> http_response option" where
  "limit_key env key limit windowMs w =
     (let (limits, result) = checkRateLimit key limit windowMs (we_hasDatabase env) (we_dbFails env) (we_dbNow env)
            (we_now env) (w_limits w)
      in (w\<lparr>w_limits := limits\<rparr>, if rr_allowed result then None else Some (tooManyRequests env (rr_reset result))))"

definition rateLimitResponse ::
  "web_env \<Rightarrow> web_request \<Rightarrow> string \<Rightarrow> int \<Rightarrow> int \<Rightarrow> world \<Rightarrow> world \<times> http_response option" where
  "rateLimitResponse env rq action limit windowMs w =
     limit_key env (action @ '':'' @ rq_ip rq) limit windowMs w"

definition identityRateLimitResponse ::
  "web_env \<Rightarrow> string \<Rightarrow> string \<Rightarrow> int \<Rightarrow> int \<Rightarrow> world \<Rightarrow> world \<times> http_response option" where
  "identityRateLimitResponse env identity action limit windowMs w =
     limit_key env (action @ '':identity:'' @ identity) limit windowMs w"

definition requireDatabase :: "web_env \<Rightarrow> http_response option" where
  "requireDatabase env = (if we_hasDatabase env then None else Some (jsonError ''database_not_configured'' 503 []))"

definition readJsonObject :: "web_request \<Rightarrow> fields" where
  "readJsonObject rq = obj_fields (rq_json rq)"

definition parseString :: "json option \<Rightarrow> string \<Rightarrow> string" where
  "parseString v fallback =
     (case v of Some (JStr s) \<Rightarrow> (let t = js_trim s in if length t > 0 then t else fallback) | _ \<Rightarrow> fallback)"

definition parseOptionalString :: "json option \<Rightarrow> string option" where
  "parseOptionalString v =
     (case v of Some (JStr s) \<Rightarrow> (let t = js_trim s in if length t > 0 then Some t else None) | _ \<Rightarrow> None)"

section \<open>Sessions\<close>

definition sessionIdleMaxAgeSeconds :: int where "sessionIdleMaxAgeSeconds = 30 * 24 * 60 * 60"
definition sessionAbsoluteMaxAgeSeconds :: int where "sessionAbsoluteMaxAgeSeconds = 90 * 24 * 60 * 60"
definition sessionRefreshIntervalSeconds :: int where "sessionRefreshIntervalSeconds = 60 * 60"

text \<open>
  The account of a session: \<open>createSession\<close> puts a string there, and an empty one counts as none.
\<close>

definition session_account :: "fields \<Rightarrow> uuid option" where
  "session_account profile =
     (case map_of profile ''accountId'' of Some (JStr a) \<Rightarrow> if a = [] then None else Some a | _ \<Rightarrow> None)"

definition readSession :: "ext \<Rightarrow> web_env \<Rightarrow> web_request \<Rightarrow> db \<Rightarrow> fields option" where
  "readSession x env rq d =
     (case rq_sessionCookie rq of
        None \<Rightarrow> None
      | Some token \<Rightarrow>
          if token = [] then None
          else (case verify_session_jwt x token of
                  None \<Rightarrow> None
                | Some payload \<Rightarrow>
                    (case map_of payload ''profile'' of
                       Some (JObj profile) \<Rightarrow>
                         if session_account profile \<noteq> None \<and> we_hasDatabase env
                         then (case select_one (\<lambda>s. s_tokenHash s = hashSecret x token) (sessions d) of
                                 None \<Rightarrow> None
                               | Some row \<Rightarrow>
                                   if s_revokedAt row \<noteq> None \<or> s_expiresAt row \<le> we_now env
                                      \<or> s_absoluteExpiresAt row \<le> we_now env
                                   then None else Some profile)
                         else Some profile
                     | Some (JArr vs) \<Rightarrow> Some []
                     | _ \<Rightarrow> None)))"

definition createSession :: "ext \<Rightarrow> uuid \<Rightarrow> string \<Rightarrow> uuid \<Rightarrow> time \<Rightarrow> db \<Rightarrow> db" where
  "createSession x sid token accountId now d =
     d\<lparr>sessions := sessions d @ [\<lparr>s_id = sid, s_accountId = accountId,
        s_absoluteExpiresAt = now + sessionAbsoluteMaxAgeSeconds * 1000,
        s_expiresAt = now + sessionIdleMaxAgeSeconds * 1000, s_lastUsedAt = now, s_revokedAt = None,
        s_tokenHash = hashSecret x token\<rparr>]\<rparr>"

definition revokeSessionByToken :: "ext \<Rightarrow> string \<Rightarrow> time \<Rightarrow> db \<Rightarrow> db" where
  "revokeSessionByToken x token now d =
     d\<lparr>sessions := update_where (\<lambda>s. s_tokenHash s = hashSecret x token \<and> s_revokedAt s = None)
        (\<lambda>s. s\<lparr>s_revokedAt := Some now\<rparr>) (sessions d)\<rparr>"

definition revokeSessionsForAccount :: "uuid \<Rightarrow> time \<Rightarrow> db \<Rightarrow> db" where
  "revokeSessionsForAccount accountId now d =
     d\<lparr>sessions := update_where (\<lambda>s. s_accountId s = accountId \<and> s_revokedAt s = None)
        (\<lambda>s. s\<lparr>s_revokedAt := Some now\<rparr>) (sessions d)\<rparr>"

definition refreshable :: "ext \<Rightarrow> string \<Rightarrow> time \<Rightarrow> session_row \<Rightarrow> bool" where
  "refreshable x token now s \<longleftrightarrow> s_tokenHash s = hashSecret x token \<and> s_revokedAt s = None \<and> s_expiresAt s > now
     \<and> s_absoluteExpiresAt s > now \<and> s_lastUsedAt s \<le> now - sessionRefreshIntervalSeconds * 1000"

definition refresh_row :: "time \<Rightarrow> session_row \<Rightarrow> session_row" where
  "refresh_row now s = s\<lparr>s_expiresAt := min (now + sessionIdleMaxAgeSeconds * 1000) (s_absoluteExpiresAt s),
     s_lastUsedAt := now\<rparr>"

definition refreshSessionRow :: "ext \<Rightarrow> string \<Rightarrow> time \<Rightarrow> db \<Rightarrow> db \<times> (time \<times> time) option" where
  "refreshSessionRow x token now d =
     (d\<lparr>sessions := update_where (refreshable x token now) (refresh_row now) (sessions d)\<rparr>,
      map_option (\<lambda>s. (s_absoluteExpiresAt (refresh_row now s), s_expiresAt (refresh_row now s)))
        (select_one (refreshable x token now) (sessions d)))"

definition sessionCookieMaxAgeSeconds :: "time \<times> time \<Rightarrow> time \<Rightarrow> int" where
  "sessionCookieMaxAgeSeconds refreshed now =
     (let (absoluteExpiresAt, expiresAt) = refreshed; remaining = min expiresAt absoluteExpiresAt
      in max 0 ((remaining - now) div 1000))"

section \<open>The guards of an owner's route\<close>

text \<open>
  \<open>csrfResponse\<close>, \<open>rateLimitResponse\<close>, \<open>readSession\<close>, \<open>requireDatabase\<close>, in this order: the
  account and profile of the session, or the refusal.
\<close>

definition session_guard :: "ext \<Rightarrow> web_env \<Rightarrow> web_request \<Rightarrow> db \<Rightarrow> http_response + (uuid \<times> fields)" where
  "session_guard x env rq d =
     (case readSession x env rq d of
        None \<Rightarrow> Inl (jsonError ''login_required'' 401 [])
      | Some profile \<Rightarrow>
          (case session_account profile of
             None \<Rightarrow> Inl (jsonError ''login_required'' 401 [])
           | Some accountId \<Rightarrow>
               (case requireDatabase env of Some r \<Rightarrow> Inl r | None \<Rightarrow> Inr (accountId, profile))))"

definition owner_guard ::
  "ext \<Rightarrow> web_env \<Rightarrow> web_request \<Rightarrow> string \<Rightarrow> int \<Rightarrow> int \<Rightarrow> world \<Rightarrow> world \<times> (http_response + (uuid \<times> fields))" where
  "owner_guard x env rq action limit windowMs w =
     (case csrfResponse env rq of
        Some r \<Rightarrow> (w, Inl r)
      | None \<Rightarrow>
          (case rateLimitResponse env rq action limit windowMs w of
             (w1, Some r) \<Rightarrow> (w1, Inl r)
           | (w1, None) \<Rightarrow> (w1, session_guard x env rq (w_db w1))))"

text \<open>The guarded route: the body runs on the database of the guarded world.\<close>

definition owner_route ::
  "ext \<Rightarrow> web_env \<Rightarrow> web_request \<Rightarrow> string \<Rightarrow> int \<Rightarrow> int \<Rightarrow> (uuid \<Rightarrow> fields \<Rightarrow> db \<Rightarrow> db \<times> http_response) \<Rightarrow> world
   \<Rightarrow> world \<times> http_response" where
  "owner_route x env rq action limit windowMs body w =
     (case owner_guard x env rq action limit windowMs w of
        (w1, Inl r) \<Rightarrow> (w1, r)
      | (w1, Inr (accountId, profile)) \<Rightarrow>
          (let (d, r) = body accountId profile (w_db w1) in (w1\<lparr>w_db := d\<rparr>, r)))"

text \<open>A route open to devices: the rate limit and the database check, then the body.\<close>

definition limited_route ::
  "web_env \<Rightarrow> web_request \<Rightarrow> string \<Rightarrow> int \<Rightarrow> int \<Rightarrow> (db \<Rightarrow> db \<times> http_response) \<Rightarrow> world \<Rightarrow> world \<times> http_response" where
  "limited_route env rq action limit windowMs body w =
     (case rateLimitResponse env rq action limit windowMs w of
        (w1, Some r) \<Rightarrow> (w1, r)
      | (w1, None) \<Rightarrow>
          (case requireDatabase env of
             Some r \<Rightarrow> (w1, r)
           | None \<Rightarrow> (let (d, r) = body (w_db w1) in (w1\<lparr>w_db := d\<rparr>, r))))"

lemma limit_key_db [simp]: "w_db (fst (limit_key env key limit windowMs w)) = w_db w"
  by (simp add: limit_key_def split: prod.split)

lemma rateLimit_db: "rateLimitResponse env rq action limit windowMs w = (w1, r) \<Longrightarrow> w_db w1 = w_db w"
  by (metis fst_conv limit_key_db rateLimitResponse_def)

lemma limited_route_cases:
  obtains (refused) r where "w_db (fst (limited_route env rq action limit windowMs body w)) = w_db w"
      "snd (limited_route env rq action limit windowMs body w) = r" "rs_status r = 429 \<or> rs_status r = 503"
  | (run) "w_db (fst (limited_route env rq action limit windowMs body w)) = fst (body (w_db w))"
      "snd (limited_route env rq action limit windowMs body w) = snd (body (w_db w))"
proof -
  obtain w1 r where l: "rateLimitResponse env rq action limit windowMs w = (w1, r)" by force
  note db = rateLimit_db [OF l]
  show thesis
  proof (cases r)
    case (Some r')
    then have "rs_status r' = 429" using l
      by (auto simp: rateLimitResponse_def limit_key_def tooManyRequests_def Let_def split: prod.splits if_splits)
    with Some l db show thesis by (intro refused [of r']) (auto simp: limited_route_def)
  next
    case None
    show thesis
    proof (cases "requireDatabase env")
      case (Some r')
      then have "rs_status r' = 503" by (auto simp: requireDatabase_def split: if_splits)
      with Some None l db show thesis by (intro refused [of r']) (auto simp: limited_route_def)
    next
      case n: None
      show thesis using None n l db by (intro run) (auto simp: limited_route_def split: prod.splits)
    qed
  qed
qed

definition field_or_null :: "fields \<Rightarrow> string \<Rightarrow> json" where
  "field_or_null kvs k = (case map_of kvs k of None \<Rightarrow> JNull | Some v \<Rightarrow> v)"

text \<open>\<open>recordAuditEvent\<close>: the client address is stamped into the actor.\<close>

definition recordAuditEvent ::
  "web_request \<Rightarrow> uuid option \<Rightarrow> fields \<Rightarrow> string \<Rightarrow> json \<Rightarrow> json \<Rightarrow> db \<Rightarrow> db" where
  "recordAuditEvent rq accountId actor eventType metadata target d =
     d\<lparr>auditEvents := auditEvents d @ [\<lparr>ae_accountId = accountId,
        ae_actor = JObj (obj_spread actor [(''ip'', JStr (rq_ip rq))]), ae_eventType = eventType,
        ae_metadata = metadata, ae_target = target\<rparr>]\<rparr>"

lemma audit_tables [simp]:
  "accounts (recordAuditEvent rq acc actor ev m tg d) = accounts d"
  "sessions (recordAuditEvent rq acc actor ev m tg d) = sessions d"
  "linkedClients (recordAuditEvent rq acc actor ev m tg d) = linkedClients d"
  "connectedBackends (recordAuditEvent rq acc actor ev m tg d) = connectedBackends d"
  "deviceRequests (recordAuditEvent rq acc actor ev m tg d) = deviceRequests d"
  "consentEvents (recordAuditEvent rq acc actor ev m tg d) = consentEvents d"
  "loginCodes (recordAuditEvent rq acc actor ev m tg d) = loginCodes d"
  "frames (recordAuditEvent rq acc actor ev m tg d) = frames d"
  "claimTokens (recordAuditEvent rq acc actor ev m tg d) = claimTokens d"
  "assignments (recordAuditEvent rq acc actor ev m tg d) = assignments d"
  "commands (recordAuditEvent rq acc actor ev m tg d) = commands d"
  "storeScenes (recordAuditEvent rq acc actor ev m tg d) = storeScenes d"
  "sceneVersions (recordAuditEvent rq acc actor ev m tg d) = sceneVersions d"
  "clientBackups (recordAuditEvent rq acc actor ev m tg d) = clientBackups d"
  "notified (recordAuditEvent rq acc actor ev m tg d) = notified d"
  by (simp_all add: recordAuditEvent_def)

definition session_actor :: "uuid \<Rightarrow> fields \<Rightarrow> fields" where
  "session_actor accountId profile =
     [(''accountId'', JStr accountId)] @ opt_field ''providerSubject'' (map_of profile ''providerSubject'')"

end
