(* ===== verification/Sessions.thy ===== *)
theory Sessions imports Http begin

text \<open>
  The life of a login session: created, slid forward by \<open>refreshSessionRow\<close>, revoked, and read by the
  web application (\<open>readSession\<close>) and by the hub (\<open>verifySessionToken\<close>).
\<close>

section \<open>Sessions over time\<close>

text \<open>Every other session of the account is revoked; the one of the request stays.\<close>

definition revokeOtherSessions :: "ext \<Rightarrow> uuid \<Rightarrow> string option \<Rightarrow> time \<Rightarrow> db \<Rightarrow> db" where
  "revokeOtherSessions x aid token now d =
     d\<lparr>sessions := update_where
         (\<lambda>s. s_accountId s = aid \<and> s_revokedAt s = None
              \<and> (case token of None \<Rightarrow> True | Some t \<Rightarrow> t = [] \<or> s_tokenHash s \<noteq> hashSecret x t))
         (\<lambda>s. s\<lparr>s_revokedAt := Some now\<rparr>) (sessions d)\<rparr>"

text \<open>A state is the clock and the database; the clock never runs backwards, and a new token is new.\<close>

inductive session_step :: "ext \<Rightarrow> time \<times> db \<Rightarrow> time \<times> db \<Rightarrow> bool" for x where
  tick: "t \<le> t' \<Longrightarrow> session_step x (t, d) (t', d)"
| created: "hashSecret x token \<notin> s_tokenHash ` set (sessions d) \<Longrightarrow>
    session_step x (t, d) (t, createSession x sid token acc t d)"
| refreshed: "session_step x (t, d) (t, fst (refreshSessionRow x token t d))"
| logged_out: "session_step x (t, d) (t, revokeSessionByToken x token t d)"
| all_revoked: "session_step x (t, d) (t, revokeSessionsForAccount acc t d)"
| others_revoked: "session_step x (t, d) (t, revokeOtherSessions x acc token t d)"

inductive_cases session_stepE: "session_step x s s'"

definition login_row_ok :: "time \<Rightarrow> session_row \<Rightarrow> bool" where
  "login_row_ok now s \<longleftrightarrow> s_expiresAt s \<le> s_absoluteExpiresAt s
     \<and> s_expiresAt s \<le> s_lastUsedAt s + sessionIdleMaxAgeSeconds * 1000
     \<and> s_lastUsedAt s \<le> now
     \<and> s_absoluteExpiresAt s \<le> now + sessionAbsoluteMaxAgeSeconds * 1000"

definition logins_ok :: "time \<times> db \<Rightarrow> bool" where
  "logins_ok s \<longleftrightarrow> keyed s_tokenHash (sessions (snd s)) \<and> (\<forall>r\<in>set (sessions (snd s)). login_row_ok (fst s) r)"

lemmas session_defs = createSession_def refreshSessionRow_def revokeSessionByToken_def revokeSessionsForAccount_def

interpretation session_refresh: keyed_update s_tokenHash "refresh_row now" for now
  by unfold_locales (simp add: refresh_row_def)

interpretation session_revoke: keyed_update s_tokenHash "\<lambda>s. s\<lparr>s_revokedAt := Some now\<rparr>" for now
  by unfold_locales simp

lemma login_row_refresh: "login_row_ok now s \<Longrightarrow> login_row_ok now (refresh_row now s)"
  by (auto simp: login_row_ok_def refresh_row_def sessionIdleMaxAgeSeconds_def)

lemma logins_ok_step: "session_step x s s' \<Longrightarrow> logins_ok s \<Longrightarrow> logins_ok s'"
proof (induction rule: session_step.induct)
  case (tick t t' d)
  then show ?case by (fastforce simp: logins_ok_def login_row_ok_def)
next
  case (created token d t sid acc)
  then show ?case
    by (auto simp: logins_ok_def createSession_def login_row_ok_def sessionIdleMaxAgeSeconds_def
        sessionAbsoluteMaxAgeSeconds_def intro!: keyed_append_fresh)
next
  case (refreshed t d token)
  then have "\<forall>r\<in>set (update_where (refreshable x token t) (refresh_row t) (sessions d)). login_row_ok t r"
    by (intro update_where_all) (auto simp: logins_ok_def login_row_refresh)
  with refreshed show ?case
    by (simp add: logins_ok_def refreshSessionRow_def session_refresh.keyed_update_where)
next
  case (logged_out t d token)
  have "\<forall>r\<in>set (sessions (revokeSessionByToken x token t d)). login_row_ok t r"
    unfolding revokeSessionByToken_def using logged_out
    by (simp, intro update_where_all) (auto simp: logins_ok_def login_row_ok_def)
  with logged_out show ?case
    by (simp add: logins_ok_def revokeSessionByToken_def session_revoke.keyed_update_where)
next
  case (all_revoked t d acc)
  have "\<forall>r\<in>set (sessions (revokeSessionsForAccount acc t d)). login_row_ok t r"
    unfolding revokeSessionsForAccount_def using all_revoked
    by (simp, intro update_where_all) (auto simp: logins_ok_def login_row_ok_def)
  with all_revoked show ?case
    by (simp add: logins_ok_def revokeSessionsForAccount_def session_revoke.keyed_update_where)
next
  case (others_revoked t d acc token)
  have "\<forall>r\<in>set (sessions (revokeOtherSessions x acc token t d)). login_row_ok t r"
    unfolding revokeOtherSessions_def using others_revoked
    by (simp, intro update_where_all) (auto simp: logins_ok_def login_row_ok_def)
  with others_revoked show ?case
    by (simp add: logins_ok_def revokeOtherSessions_def session_revoke.keyed_update_where)
qed

lemma logins_ok_run:
  assumes "(session_step x)\<^sup>*\<^sup>* (t0, d0\<lparr>sessions := []\<rparr>) s"
  shows "logins_ok s"
  using assms
proof (induction rule: rtranclp_induct)
  case base
  show ?case by (simp add: logins_ok_def)
next
  case (step s s')
  from logins_ok_step [OF step(2,3)] show ?case .
qed

text \<open>What no step takes back: the ceiling, the owner, a revocation.\<close>

definition session_kept :: "session_row \<Rightarrow> session_row \<Rightarrow> bool" where
  "session_kept r r' \<longleftrightarrow> s_tokenHash r' = s_tokenHash r \<and> s_accountId r' = s_accountId r
     \<and> s_absoluteExpiresAt r' = s_absoluteExpiresAt r \<and> (s_revokedAt r \<noteq> None \<longrightarrow> r' = r)"

lemma session_kept_refl: "session_kept r r"
  by (simp add: session_kept_def)

lemma kept_update:
  "r \<in> set rows \<Longrightarrow> (\<And>r. P r \<Longrightarrow> session_kept r (f r)) \<Longrightarrow> \<exists>r'\<in>set (update_where P f rows). session_kept r r'"
  by (cases "P r") (auto simp: set_update_where session_kept_refl image_iff intro: bexI [of _ r])

lemma session_kept_step:
  "session_step x s s' \<Longrightarrow> r \<in> set (sessions (snd s)) \<Longrightarrow> \<exists>r'\<in>set (sessions (snd s')). session_kept r r'"
proof (induction rule: session_step.induct)
  case (refreshed t d token)
  have "session_kept r (refresh_row t r)" if "refreshable x token t r" for r
    using that by (simp add: refreshable_def refresh_row_def session_kept_def)
  with refreshed show ?case by (simp add: refreshSessionRow_def kept_update)
next
  case (logged_out t d token)
  have "session_kept r (r\<lparr>s_revokedAt := Some t\<rparr>)" if "s_tokenHash r = hashSecret x token \<and> s_revokedAt r = None" for r
    using that by (simp add: session_kept_def)
  with logged_out show ?case by (simp add: revokeSessionByToken_def kept_update)
next
  case (all_revoked t d acc)
  have "session_kept r (r\<lparr>s_revokedAt := Some t\<rparr>)" if "s_accountId r = acc \<and> s_revokedAt r = None" for r
    using that by (simp add: session_kept_def)
  with all_revoked show ?case by (simp add: revokeSessionsForAccount_def kept_update)
next
  case (others_revoked t d acc token)
  then show ?case unfolding revokeOtherSessions_def by (simp, intro kept_update) (auto simp: session_kept_def)
qed (auto simp: createSession_def intro: session_kept_refl)

lemma session_kept_run:
  "(session_step x)\<^sup>*\<^sup>* s s' \<Longrightarrow> r \<in> set (sessions (snd s)) \<Longrightarrow> \<exists>r'\<in>set (sessions (snd s')). session_kept r r'"
proof (induction rule: rtranclp_induct)
  case base
  then show ?case by (blast intro: session_kept_refl)
next
  case (step s' s'')
  then obtain r' where r': "r' \<in> set (sessions (snd s'))" "session_kept r r'" by blast
  from session_kept_step [OF step(2) r'(1)] obtain r'' where "r'' \<in> set (sessions (snd s''))" "session_kept r' r''" by blast
  with r'(2) show ?case by (auto simp: session_kept_def intro!: bexI [of _ r''])
qed

section \<open>Reading a session\<close>

lemma readSession_row:
  assumes "readSession x env rq d = Some profile" and "session_account profile \<noteq> None" and "we_hasDatabase env"
  shows "\<exists>token row. rq_sessionCookie rq = Some token \<and> row \<in> set (sessions d) \<and> s_tokenHash row = hashSecret x token
       \<and> session_row_live (we_now env) row"
  using assms
  by (auto simp: readSession_def session_row_live_def session_account_def
      split: option.splits json.splits if_splits dest!: select_one_Some)

text \<open>
  C34.  A session ends.  Along any run of logins, refreshes, logouts and mass revocations, a row that was
  revoked, or has not been refreshed for the idle window, or was created the absolute lifetime ago,
  never lets anyone in again: no later request that carries its token reads a session.
\<close>

theorem dead_sessions_stay_dead:
  assumes run: "(session_step x)\<^sup>*\<^sup>* (t0, d0\<lparr>sessions := []\<rparr>) (t, d)" and later: "(session_step x)\<^sup>*\<^sup>* (t, d) (t', d')"
    and r: "r \<in> set (sessions d)" "s_tokenHash r = hashSecret x token"
    and dead: "s_revokedAt r \<noteq> None \<or> s_absoluteExpiresAt r \<le> t' \<or>
      (\<exists>r'\<in>set (sessions d'). s_tokenHash r' = s_tokenHash r \<and> s_lastUsedAt r' + sessionIdleMaxAgeSeconds * 1000 \<le> t')"
    and rq: "rq_sessionCookie rq = Some token" "we_now env = t'" "we_hasDatabase env"
  shows "\<forall>profile. readSession x env rq d' = Some profile \<longrightarrow> session_account profile = None"
proof (rule ccontr)
  assume "\<not> ?thesis"
  then obtain profile where p: "readSession x env rq d' = Some profile" "session_account profile \<noteq> None" by blast
  from readSession_row [OF p rq(3)] rq(1) obtain row where
    row: "row \<in> set (sessions d')" "s_tokenHash row = s_tokenHash r" "session_row_live t' row"
    using r(2) rq(2) by auto
  have ok: "logins_ok (t', d')" by (rule logins_ok_run [OF rtranclp_trans [OF run later]])
  then have keyed: "keyed s_tokenHash (sessions d')" by (simp add: logins_ok_def)
  obtain r' where r': "r' \<in> set (sessions d')" "session_kept r r'"
    using session_kept_run [OF later] r(1) by auto
  then have "r' = row" using keyed_eq [OF keyed r'(1) row(1)] row(2) by (simp add: session_kept_def)
  with r' have kept: "session_kept r row" by simp
  from dead show False
  proof (elim disjE bexE conjE)
    assume "s_revokedAt r \<noteq> None"
    with kept row(3) show False by (auto simp: session_kept_def session_row_live_def)
  next
    assume "s_absoluteExpiresAt r \<le> t'"
    with kept row(3) show False by (auto simp: session_kept_def session_row_live_def)
  next
    fix q assume q: "q \<in> set (sessions d')" "s_tokenHash q = s_tokenHash r"
      "s_lastUsedAt q + sessionIdleMaxAgeSeconds * 1000 \<le> t'"
    then have "q = row" using keyed_eq [OF keyed q(1) row(1)] row(2) by simp
    with q(3) row(1,3) ok show False by (auto simp: logins_ok_def login_row_ok_def session_row_live_def)
  qed
qed

definition demo_env :: "time \<Rightarrow> web_env" where
  "demo_env now = \<lparr>we_appOrigins = [''https://cloud''], we_hasDatabase = True, we_dbFails = False, we_dbNow = now,
     we_now = now, we_uuid = (\<lambda>i. ''u'' @ dec_text (int i)), we_random = (\<lambda>i. ''r'' @ dec_text (int i)),
     we_maxFrames = 50, we_maxClaimTokens = 50, we_claimTokenTtlMs = 86400000, we_frameHubPublicUrl = None\<rparr>"

definition demo_web_request :: "json option \<Rightarrow> web_request" where
  "demo_web_request body = \<lparr>rq_origin = Some ''https://cloud'', rq_json = body, rq_authorization = None,
     rq_sessionCookie = Some ''a'', rq_ip = ''10.0.0.1'', rq_userAgent = None, rq_query = [], rq_hostname = ''cloud''\<rparr>"

lemma idle_limit_key:
  "1 \<le> limit \<Longrightarrow> \<exists>l. limit_key (demo_env t) key limit win \<lparr>w_db = d, w_limits = idle_limiter\<rparr> = (\<lparr>w_db = d, w_limits = l\<rparr>, None)"
  by (simp add: limit_key_def checkRateLimit_def checkRateLimitInDatabase_def web_bumpSweepCounter_def idle_limiter_def
      upsert_bucket_def sweepEvery_def demo_env_def Let_def)

lemma idle_limited_route:
  assumes "1 \<le> limit"
  shows "w_db (fst (limited_route (demo_env t) rq action limit win body \<lparr>w_db = d, w_limits = idle_limiter\<rparr>)) = fst (body d)"
    "snd (limited_route (demo_env t) rq action limit win body \<lparr>w_db = d, w_limits = idle_limiter\<rparr>) = snd (body d)"
  using idle_limit_key [OF assms, of t "action @ '':'' @ rq_ip rq" win d]
  by (auto simp: limited_route_def rateLimitResponse_def requireDatabase_def demo_env_def split: prod.split)

theorem dead_sessions_stay_dead_witness:
  "readSession sample_ext (demo_env 9) (demo_web_request None)
     (revokeSessionByToken sample_ext ''a'' 7 (createSession sample_ext ''s'' ''a'' ''a'' 7 empty_db)) = None"
proof -
  let ?start = "empty_db\<lparr>sessions := []\<rparr>"
  let ?d = "revokeSessionByToken sample_ext ''a'' 7 (createSession sample_ext ''s'' ''a'' ''a'' 7 ?start)"
  have s1: "session_step sample_ext (7, ?start) (7, createSession sample_ext ''s'' ''a'' ''a'' 7 ?start)"
    by (rule session_step.created) simp
  have s2: "session_step sample_ext (7, createSession sample_ext ''s'' ''a'' ''a'' 7 ?start) (7, ?d)"
    by (rule session_step.logged_out)
  have run: "(session_step sample_ext)\<^sup>*\<^sup>* (7, ?start) (7, ?d)"
    by (rule rtranclp.rtrancl_into_rtrancl [OF r_into_rtranclp, where r = "session_step sample_ext", OF s1 s2])
  have later: "(session_step sample_ext)\<^sup>*\<^sup>* (7, ?d) (9, ?d)"
    by (rule r_into_rtranclp, rule session_step.tick) simp
  obtain r where r: "sessions ?d = [r]" "s_tokenHash r = hashSecret sample_ext ''a''" "s_revokedAt r \<noteq> None"
    by (simp add: revokeSessionByToken_def createSession_def update_where_Cons)
  then have "r \<in> set (sessions ?d)" by simp
  from dead_sessions_stay_dead [OF run later this r(2), of "demo_web_request None" "demo_env 9"] r(3)
  have none: "\<forall>profile. readSession sample_ext (demo_env 9) (demo_web_request None) ?d = Some profile \<longrightarrow>
      session_account profile = None"
    by (simp add: demo_web_request_def demo_env_def)
  have same: "?start = empty_db" by (simp add: empty_db_def)
  have "readSession sample_ext (demo_env 9) (demo_web_request None) ?d = Some profile \<Longrightarrow> session_account profile \<noteq> None" for profile
    by (auto simp: readSession_def demo_web_request_def sample_ext_def session_account_def split: if_splits option.splits)
  with none same show ?thesis by (cases "readSession sample_ext (demo_env 9) (demo_web_request None) ?d") auto
qed

text \<open>
  Sliding is bounded.  A refresh extends only a live session of that very token that was idle at least
  the refresh interval, never past its ceiling, touches no other row, and the cookie reissued for it
  expires no later than the row; a second refresh within the interval extends nothing.
\<close>

lemma refresh_bounded:
  assumes "refreshSessionRow x token now d = (d', Some (absolute, deadline))"
    and "keyed s_tokenHash (sessions d)"
  shows "(\<exists>s\<in>set (sessions d). refreshable x token now s \<and> absolute = s_absoluteExpiresAt s \<and> now < deadline
            \<and> deadline \<le> absolute \<and> deadline \<le> now + sessionIdleMaxAgeSeconds * 1000
            \<and> select_one (\<lambda>q. s_tokenHash q = hashSecret x token) (sessions d')
                = Some (s\<lparr>s_expiresAt := deadline, s_lastUsedAt := now\<rparr>))
       \<and> filter (\<lambda>q. s_tokenHash q \<noteq> hashSecret x token) (sessions d') = filter (\<lambda>q. s_tokenHash q \<noteq> hashSecret x token) (sessions d)
       \<and> now + sessionCookieMaxAgeSeconds (absolute, deadline) now * 1000 \<le> deadline
       \<and> snd (refreshSessionRow x token (now + 1) d') = None"
proof -
  obtain s where s: "select_one (refreshable x token now) (sessions d) = Some s"
    and c: "absolute = s_absoluteExpiresAt s" "deadline = min (now + sessionIdleMaxAgeSeconds * 1000) (s_absoluteExpiresAt s)"
    and d': "d' = d\<lparr>sessions := update_where (refreshable x token now) (refresh_row now) (sessions d)\<rparr>"
    using assms(1) by (auto simp: refreshSessionRow_def refresh_row_def)
  have in_d: "s \<in> set (sessions d)" and ok: "refreshable x token now s" using select_one_Some [OF s] by auto
  have future: "now < deadline" using ok c(2) by (simp add: refreshable_def sessionIdleMaxAgeSeconds_def)
  have hash: "s_tokenHash s = hashSecret x token" using ok by (simp add: refreshable_def)
  have new: "select_one (\<lambda>q. s_tokenHash q = hashSecret x token) (sessions d')
      = Some (s\<lparr>s_expiresAt := deadline, s_lastUsedAt := now\<rparr>)"
    using session_refresh.select_updated [OF assms(2) in_d, of "refreshable x token now" now] ok hash
    by (simp add: d' refresh_row_def c(2))
  have rest: "filter (\<lambda>q. s_tokenHash q \<noteq> hashSecret x token) (sessions d') = filter (\<lambda>q. s_tokenHash q \<noteq> hashSecret x token) (sessions d)"
    unfolding d' by (simp, rule filter_update_where_other) (auto simp: refreshable_def refresh_row_def)
  have "now + (deadline - now) div 1000 * 1000 \<le> deadline"
    using div_mult_mod_eq [of "deadline - now" 1000] pos_mod_sign [of 1000 "deadline - now"] by linarith
  moreover have "min deadline absolute = deadline" using c by simp
  moreover have "0 \<le> (deadline - now) div 1000" using future by (simp add: pos_imp_zdiv_nonneg_iff)
  ultimately have age: "now + sessionCookieMaxAgeSeconds (absolute, deadline) now * 1000 \<le> deadline"
    by (simp add: sessionCookieMaxAgeSeconds_def max_absorb2)
  have "\<not> refreshable x token (now + 1) q" if "q \<in> set (sessions d')" for q
  proof
    assume r: "refreshable x token (now + 1) q"
    have "keyed s_tokenHash (sessions d')" using assms(2) by (simp add: d' session_refresh.keyed_update_where)
    moreover have "s_tokenHash q = hashSecret x token" using r by (simp add: refreshable_def)
    moreover have "s\<lparr>s_expiresAt := deadline, s_lastUsedAt := now\<rparr> \<in> set (sessions d')"
      using select_one_Some [OF new] by simp
    ultimately have "q = s\<lparr>s_expiresAt := deadline, s_lastUsedAt := now\<rparr>"
      using keyed_eq that hash by fastforce
    with r show False by (simp add: refreshable_def sessionRefreshIntervalSeconds_def)
  qed
  then have "snd (refreshSessionRow x token (now + 1) d') = None"
    by (simp add: refreshSessionRow_def select_one_None)
  with in_d ok c future new rest age show ?thesis by auto
qed

section \<open>The hub reads sessions as the web application does\<close>

text \<open>
  One verdict on a cookie.  For a token whose row, if there is one, belongs to the account the token
  names, the hub admits the browser exactly when the web application reads a signed-in session from the
  same cookie at the same time, and both see the same account.
\<close>

lemma hub_reads_sessions_like_web:
  assumes "rq_sessionCookie rq = Some token" and "token \<noteq> []" and "we_hasDatabase env"
    and "\<forall>row\<in>set (sessions d). \<forall>payload profile. s_tokenHash row = hashSecret x token \<longrightarrow>
      verify_session_jwt x token = Some payload \<longrightarrow> map_of payload ''profile'' = Some (JObj profile) \<longrightarrow>
      map_of profile ''accountId'' = Some (JStr (s_accountId row)) \<and> s_accountId row \<noteq> []"
  shows "map_option bs_accountId (verifySessionToken x token (we_now env) d)
       = (case readSession x env rq d of None \<Rightarrow> None | Some profile \<Rightarrow> session_account profile)"
proof (cases "\<exists>payload profile. verify_session_jwt x token = Some payload \<and> map_of payload ''profile'' = Some (JObj profile)")
  case True
  then obtain payload profile where p: "verify_session_jwt x token = Some payload" "map_of payload ''profile'' = Some (JObj profile)"
    by blast
  show ?thesis
  proof (cases "select_one (\<lambda>s. s_tokenHash s = hashSecret x token) (sessions d)")
    case None
    then show ?thesis using assms(1-3) p
      by (auto simp: verifySessionToken_def readSession_def session_account_def split: option.splits json.splits)
  next
    case (Some row)
    from select_one_Some [OF this] have row: "row \<in> set (sessions d)" "s_tokenHash row = hashSecret x token" by auto
    with assms(4) p have "map_of profile ''accountId'' = Some (JStr (s_accountId row))" "s_accountId row \<noteq> []" by blast+
    then show ?thesis using assms(1-3) p Some
      by (simp add: verifySessionToken_def readSession_def session_account_def Let_def)
  qed
next
  case False
  then show ?thesis using assms(1-3)
    by (auto simp: verifySessionToken_def readSession_def session_account_def split: option.splits json.splits)
qed

end
