(* ===== verification/ClaimTokens.thy ===== *)
theory ClaimTokens imports Sessions begin

text \<open>
  Claim tokens, the secrets behind "Add frame": minted by the owner (\<open>claim-tokens/route.ts\<close>), spent by
  enrolling frames (\<open>redeemClaimToken\<close>), swept and evicted at the account's cap; all of \<open>frames.ts\<close>.
\<close>

section \<open>Operations\<close>

definition claimTokenPrefix :: string where "claimTokenPrefix = ''FRCT''"

text \<open>\<open>rnd\<close> is the base64url text of the random bytes.\<close>

definition createSecretToken :: "string \<Rightarrow> string \<Rightarrow> string" where
  "createSecretToken pre rnd = pre @ ''_'' @ rnd"

text \<open>The sealed token, the token and its reference, or a throw when no encryption key is configured.\<close>

definition createEncryptedSecretToken :: "ext \<Rightarrow> string \<Rightarrow> string \<Rightarrow> (string \<times> string \<times> string) option" where
  "createEncryptedSecretToken x pre rnd =
     (let token = createSecretToken pre rnd
      in map_option (\<lambda>sealed. (sealed, token, hashSecret x token)) (encrypt_secret x token))"

definition claim_open :: "time \<Rightarrow> claim_token \<Rightarrow> bool" where
  "claim_open now t \<longleftrightarrow> t_useCount t < t_maxUses t \<and> t_expiresAt t > now"

definition redeem_row :: "time \<Rightarrow> claim_token \<Rightarrow> claim_token" where
  "redeem_row now t = t\<lparr>t_useCount := t_useCount t + 1,
     t_usedAt := (if t_useCount t + 1 \<ge> t_maxUses t then Some now else t_usedAt t)\<rparr>"

definition redeemClaimToken :: "ext \<Rightarrow> string \<Rightarrow> time \<Rightarrow> db \<Rightarrow> db \<times> claim_token option" where
  "redeemClaimToken x claimToken now d =
     (let op = (\<lambda>t. t_tokenHash t = hashSecret x claimToken \<and> claim_open now t)
      in (d\<lparr>claimTokens := update_where op (redeem_row now) (claimTokens d)\<rparr>,
          map_option (redeem_row now) (select_one op (claimTokens d))))"

definition sweepExpiredClaimTokens :: "uuid \<Rightarrow> time \<Rightarrow> db \<Rightarrow> db" where
  "sweepExpiredClaimTokens accountId now d =
     d\<lparr>claimTokens := delete_where (\<lambda>t. t_accountId t = accountId \<and> t_useCount t < t_maxUses t \<and> t_expiresAt t < now)
        (claimTokens d)\<rparr>"

definition claim_evictable :: "uuid \<Rightarrow> time \<Rightarrow> claim_token \<Rightarrow> bool" where
  "claim_evictable accountId now t \<longleftrightarrow>
     t_accountId t = accountId \<and> t_maxUses t = 1 \<and> t_useCount t = 0 \<and> t_expiresAt t > now"

definition evictOldestUnusedClaimTokens :: "uuid \<Rightarrow> int \<Rightarrow> time \<Rightarrow> db \<Rightarrow> db \<times> nat" where
  "evictOldestUnusedClaimTokens accountId wanted now d =
     (if wanted < 1 then (d, 0)
      else (let evictable = take (nat wanted) (select_asc t_createdAt (claim_evictable accountId now) (claimTokens d))
            in if length evictable = 0 then (d, 0)
               else (d\<lparr>claimTokens := delete_where (\<lambda>t. t_id t \<in> set (map t_id evictable)) (claimTokens d)\<rparr>,
                     length evictable)))"

definition countActiveClaimTokens :: "uuid \<Rightarrow> time \<Rightarrow> db \<Rightarrow> nat" where
  "countActiveClaimTokens accountId now d = length (filter (\<lambda>t. t_accountId t = accountId \<and> claim_open now t) (claimTokens d))"

definition revokedFrameQuotaGraceMs :: int where "revokedFrameQuotaGraceMs = 24 * 60 * 60 * 1000"

definition countFramesForAccount :: "uuid \<Rightarrow> time \<Rightarrow> db \<Rightarrow> nat" where
  "countFramesForAccount accountId now d =
     length (filter (\<lambda>f. f_accountId f = accountId
       \<and> (f_status f \<noteq> FrameRevoked \<or> f_updatedAt f > now - revokedFrameQuotaGraceMs)) (frames d))"

section \<open>Minting\<close>

text \<open>\<open>max_uses\<close> of the body, \<open>None\<close> when refused.\<close>

definition mint_max_uses :: "web_env \<Rightarrow> fields \<Rightarrow> int option" where
  "mint_max_uses env body =
     (if map_of body ''multi_use'' = Some (JBool True) then Some (int (we_maxFrames env))
      else (case map_of body ''max_uses'' of
              None \<Rightarrow> Some 1
            | Some (JNum q) \<Rightarrow>
                if \<not> is_integer q \<or> q < 1 \<or> q > of_nat (we_maxFrames env) then None else Some \<lfloor>q\<rfloor>
            | Some _ \<Rightarrow> None))"

text \<open>The life of the token: refused, the default, or so many milliseconds.\<close>

definition mint_ttl :: "fields \<Rightarrow> int option option" where
  "mint_ttl body =
     (case map_of body ''ttl_days'' of
        None \<Rightarrow> Some None
      | Some (JStr s) \<Rightarrow> if s = ''forever'' then Some (Some (100 * 365 * 24 * 60 * 60 * 1000)) else None
      | Some (JNum q) \<Rightarrow>
          if \<not> is_integer q \<or> q < 1 \<or> q > 365 then None else Some (Some (\<lfloor>q\<rfloor> * 24 * 60 * 60 * 1000))
      | Some _ \<Rightarrow> None)"

text \<open>Room at the cap, by recycling: the database and how many codes are still active.\<close>

definition make_room :: "web_env \<Rightarrow> web_request \<Rightarrow> uuid \<Rightarrow> fields \<Rightarrow> db \<Rightarrow> db \<times> int" where
  "make_room env rq accountId profile d0 =
     (let d = sweepExpiredClaimTokens accountId (we_now env) d0;
          active = int (countActiveClaimTokens accountId (we_now env) d); cap = int (we_maxClaimTokens env)
      in if active \<ge> cap
         then (let (d', freed) = evictOldestUnusedClaimTokens accountId (active - cap + 1) (we_now env) d;
                   d'' = (if freed > 0
                          then recordAuditEvent rq (Some accountId) (session_actor accountId profile)
                                 ''frame.claim_tokens_recycled'' (JObj [(''freed'', num_of_int (int freed))]) JNull d'
                          else d')
               in (d'', active - int freed))
         else (d, active))"

definition mint_claim_token :: "ext \<Rightarrow> web_env \<Rightarrow> web_request \<Rightarrow> uuid \<Rightarrow> fields \<Rightarrow> db \<Rightarrow> db \<times> http_response" where
  "mint_claim_token x env rq accountId profile d0 =
     (let body = readJsonObject rq; name = map_option (take 256) (parseOptionalString (map_of body ''name''))
      in case mint_max_uses env body of
           None \<Rightarrow> (d0, jsonError ''invalid_max_uses'' 400 [])
         | Some maxUses \<Rightarrow>
             (let (d, active) = make_room env rq accountId profile d0
              in if active \<ge> int (we_maxClaimTokens env)
                 then (d, jsonError ''claim_token_quota_exceeded'' 403
                            [(''max_claim_tokens'', num_of_int (int (we_maxClaimTokens env)))])
                 else if countFramesForAccount accountId (we_now env) d \<ge> we_maxFrames env
                 then (d, jsonError ''frame_quota_exceeded'' 403 [(''max_frames'', num_of_int (int (we_maxFrames env)))])
                 else (case mint_ttl body of
                         None \<Rightarrow> (d, jsonError ''invalid_ttl_days'' 400 [])
                       | Some ttl \<Rightarrow>
                           (let token = createSecretToken claimTokenPrefix (we_random env 0);
                                expiresAt = we_now env + (case ttl of Some ms \<Rightarrow> ms | None \<Rightarrow> we_claimTokenTtlMs env);
                                d' = d\<lparr>claimTokens := claimTokens d @
                                  [\<lparr>t_id = we_uuid env 0, t_accountId = accountId, t_tokenHash = hashSecret x token,
                                    t_name = name, t_expiresAt = expiresAt, t_usedAt = None, t_maxUses = maxUses,
                                    t_useCount = 0, t_frameId = None, t_createdAt = we_now env\<rparr>]\<rparr>
                            in (recordAuditEvent rq (Some accountId) (session_actor accountId profile)
                                  ''frame.claim_token_created'' (JObj [(''maxUses'', num_of_int maxUses)])
                                  (JObj [(''claimTokenId'', JStr (we_uuid env 0))]) d',
                                jsonOk [(''claim_token'', JStr token), (''expires_at'', JStr (iso_text expiresAt)),
                                        (''max_uses'', num_of_int maxUses)])))))"

definition claim_tokens_route :: "ext \<Rightarrow> web_env \<Rightarrow> web_request \<Rightarrow> world \<Rightarrow> world \<times> http_response" where
  "claim_tokens_route x env rq =
     owner_route x env rq ''frames:claim-tokens'' (max 30 (int (we_maxClaimTokens env) + 10)) (15 * 60 * 1000)
       (mint_claim_token x env rq)"

section \<open>A budget of uses\<close>

interpretation claim_budget: budget_claim t_tokenHash claim_open redeem_row "\<lambda>t. nat (t_maxUses t - t_useCount t)"
  by unfold_locales (auto simp: redeem_row_def claim_open_def)

interpretation redeem: keyed_update t_id "redeem_row now" for now
  by unfold_locales (simp add: redeem_row_def)

lemma redeem_is_claim:
  "(claimTokens (fst (redeemClaimToken x s now d)), snd (redeemClaimToken x s now d) \<noteq> None)
   = claim_row t_tokenHash (claim_open now) (redeem_row now) (hashSecret x s) (claimTokens d)"
  by (auto simp: redeemClaimToken_def claim_row_def Let_def select_one_None split: option.splits)

text \<open>How often the token is redeemed along a run, each attempt at its own time.\<close>

fun redemptions :: "ext \<Rightarrow> string \<Rightarrow> time list \<Rightarrow> db \<Rightarrow> nat" where
  "redemptions x s [] d = 0"
| "redemptions x s (now # later) d =
     (let (d', t) = redeemClaimToken x s now d in (if t \<noteq> None then 1 else 0) + redemptions x s later d')"

lemma redemptions_claims:
  "redemptions x s attempts d = claim_all t_tokenHash claim_open redeem_row (hashSecret x s) attempts (claimTokens d)"
proof (induction attempts arbitrary: d)
  case (Cons now later)
  obtain d' t where r: "redeemClaimToken x s now d = (d', t)" by force
  with redeem_is_claim [of x s now d]
  have "claim_row t_tokenHash (claim_open now) (redeem_row now) (hashSecret x s) (claimTokens d) = (claimTokens d', t \<noteq> None)"
    by simp
  then show ?case by (simp add: r Cons.IH)
qed simp

text \<open>
  A claim token with a budget of \<open>max_uses\<close> admits at most what is left of it, however often and
  whenever devices try, and an expired one admits none.
\<close>

lemma claim_budget_bounded:
  assumes "keyed t_tokenHash (claimTokens d)" and "t \<in> set (claimTokens d)" and "t_tokenHash t = hashSecret x s"
  shows "redemptions x s attempts d \<le> (if \<forall>now\<in>set attempts. t_expiresAt t \<le> now then 0 else nat (t_maxUses t - t_useCount t))"
proof (cases "\<forall>now\<in>set attempts. t_expiresAt t \<le> now")
  case True
  then have "redemptions x s attempts d = 0"
  proof (induction attempts)
    case (Cons now later)
    have none: "\<forall>q\<in>set (claimTokens d). \<not> (t_tokenHash q = hashSecret x s \<and> claim_open now q)"
    proof (intro ballI notI)
      fix q
      assume q: "q \<in> set (claimTokens d)" "t_tokenHash q = hashSecret x s \<and> claim_open now q"
      with assms have "q = t" using keyed_eq [OF assms(1) q(1) assms(2)] by simp
      with q(2) Cons.prems show False by (simp add: claim_open_def)
    qed
    then have "select_one (\<lambda>t. t_tokenHash t = hashSecret x s \<and> claim_open now t) (claimTokens d) = None"
      by (simp only: select_one_None)
    then show ?case using Cons none by (simp add: redeemClaimToken_def Let_def update_where_noop)
  qed simp
  with True show ?thesis by simp
next
  case False
  show ?thesis unfolding redemptions_claims if_not_P [OF False] by (rule claim_budget.wins_bounded [OF assms])
qed

definition demo_claim :: claim_token where
  "demo_claim = \<lparr>t_id = ''t1'', t_accountId = ''a'', t_tokenHash = ''#FRCT_x'', t_name = None, t_expiresAt = 100,
     t_usedAt = None, t_maxUses = 2, t_useCount = 0, t_frameId = None, t_createdAt = 0\<rparr>"

section \<open>Minting within the cap\<close>

lemma length_filter_delete:
  assumes "keyed k rows" and "set es \<subseteq> {r \<in> set rows. A r}" and "distinct es"
  shows "length (filter A (delete_where (\<lambda>r. k r \<in> set (map k es)) rows)) + length es = length (filter A rows)"
proof -
  have dist: "distinct rows" using assms(1) by (simp add: keyed_def distinct_map)
  let ?A = "{r \<in> set rows. A r}"
  have "{r \<in> set rows. A r \<and> k r \<notin> k ` set es} = ?A - set es"
    using assms(2) keyed_eq [OF assms(1)] by blast
  moreover have "length (filter A rows) = card ?A"
    using distinct_length_filter [OF dist, of A] by (simp add: Int_def conj_commute)
  moreover have "length (filter A (delete_where (\<lambda>r. k r \<in> set (map k es)) rows)) = card {r \<in> set rows. A r \<and> k r \<notin> k ` set es}"
    using distinct_length_filter [OF dist, of "\<lambda>r. A r \<and> k r \<notin> k ` set es"]
    by (simp add: delete_where_def Int_def conj_commute)
  moreover have "card (?A - set es) + card (set es) = card ?A"
    using assms(2) by (simp add: card_Diff_subset card_mono)
  ultimately show ?thesis using assms(3) by (simp add: distinct_card)
qed

text \<open>Rows that minting may drop, and the rows it keeps.\<close>

definition claim_droppable :: "uuid \<Rightarrow> time \<Rightarrow> claim_token \<Rightarrow> bool" where
  "claim_droppable acc now t \<longleftrightarrow> t_accountId t = acc \<and>
     (t_useCount t < t_maxUses t \<and> t_expiresAt t < now \<or> claim_evictable acc now t)"

definition oldest_dropped :: "uuid \<Rightarrow> time \<Rightarrow> claim_token list \<Rightarrow> claim_token list \<Rightarrow> bool" where
  "oldest_dropped acc now rows kept \<longleftrightarrow> (\<exists>P. kept = filter P rows)
     \<and> (\<forall>t\<in>set rows. t \<notin> set kept \<longrightarrow> claim_droppable acc now t)
     \<and> (\<forall>t\<in>set rows. t \<notin> set kept \<longrightarrow> claim_evictable acc now t \<longrightarrow>
          (\<forall>q\<in>set kept. claim_evictable acc now q \<longrightarrow> t_createdAt t \<le> t_createdAt q))"

lemma sweep_claims:
  "claimTokens (sweepExpiredClaimTokens acc now d)
   = filter (\<lambda>t. \<not> (t_accountId t = acc \<and> t_useCount t < t_maxUses t \<and> t_expiresAt t < now)) (claimTokens d)"
  by (simp add: sweepExpiredClaimTokens_def delete_where_def)

lemma evict_count:
  assumes "evictOldestUnusedClaimTokens acc wanted now d = (d', freed)" and "keyed t_id (claimTokens d)"
  shows "countActiveClaimTokens acc now d' + freed = countActiveClaimTokens acc now d"
proof -
  let ?es = "take (nat wanted) (select_asc t_createdAt (claim_evictable acc now) (claimTokens d))"
  have "distinct (map t_id (select_asc t_createdAt (claim_evictable acc now) (claimTokens d)))"
    using assms(2) by (simp add: keyed_def distinct_select_asc)
  then have dist: "distinct ?es" by (simp add: distinct_map distinct_take)
  have sub: "set ?es \<subseteq> {t \<in> set (claimTokens d). t_accountId t = acc \<and> claim_open now t}"
    by (auto dest!: in_set_takeD simp: claim_evictable_def claim_open_def)
  from length_filter_delete [OF assms(2) sub dist] assms(1) show ?thesis
    by (auto simp: evictOldestUnusedClaimTokens_def countActiveClaimTokens_def Let_def split: if_splits)
qed

lemma evict_oldest:
  assumes "evictOldestUnusedClaimTokens acc wanted now d = (d', freed)" and "keyed t_id (claimTokens d)"
  shows "oldest_dropped acc now (claimTokens d) (claimTokens d')"
proof -
  let ?all = "select_asc t_createdAt (claim_evictable acc now) (claimTokens d)"
  let ?es = "take (nat wanted) ?all"
  have cases: "claimTokens d' = claimTokens d \<or> claimTokens d' = filter (\<lambda>t. t_id t \<notin> t_id ` set ?es) (claimTokens d)"
    using assms(1)
    by (auto simp: evictOldestUnusedClaimTokens_def Let_def delete_where_def split: if_splits)
  have es: "t \<in> set ?es" if "t \<in> set (claimTokens d)" "t_id t \<in> t_id ` set ?es" for t
  proof -
    from that obtain e where e: "e \<in> set ?es" "t_id e = t_id t" by auto
    then have "e \<in> set (claimTokens d)" by (auto dest!: in_set_takeD)
    with e that keyed_eq [OF assms(2)] show ?thesis by blast
  qed
  have old: "t_createdAt t \<le> t_createdAt q" if t: "t \<in> set ?es" and q: "q \<in> set ?all" "q \<notin> set ?es" for t q
  proof -
    have "q \<in> set (drop (nat wanted) ?all)" using q by (metis UnE append_take_drop_id set_append)
    moreover have "sorted (map t_createdAt (?es @ drop (nat wanted) ?all))" by (simp add: sorted_select_asc)
    ultimately show ?thesis using t by (auto simp only: map_append sorted_append set_map)
  qed
  from cases show ?thesis
  proof
    assume "claimTokens d' = claimTokens d"
    then show ?thesis by (auto simp: oldest_dropped_def intro: exI [of _ "\<lambda>_. True"])
  next
    assume k: "claimTokens d' = filter (\<lambda>t. t_id t \<notin> t_id ` set ?es) (claimTokens d)"
    have lost: "t \<in> set ?es" if "t \<in> set (claimTokens d)" "t \<notin> set (claimTokens d')" for t
      using that es unfolding k by simp
    have drop: "claim_evictable acc now t" if "t \<in> set ?es" for t using that by (auto dest!: in_set_takeD)
    have kept: "q \<in> set ?all \<and> q \<notin> set ?es" if "q \<in> set (claimTokens d')" "claim_evictable acc now q" for q
      using that unfolding k by auto
    show ?thesis unfolding oldest_dropped_def
    proof (intro conjI ballI impI)
      show "\<exists>P. claimTokens d' = filter P (claimTokens d)" using k by blast
    next
      fix t assume "t \<in> set (claimTokens d)" "t \<notin> set (claimTokens d')"
      from drop [OF lost [OF this]] show "claim_droppable acc now t"
        by (simp add: claim_droppable_def claim_evictable_def)
    next
      fix t q assume "t \<in> set (claimTokens d)" "t \<notin> set (claimTokens d')"
        and q: "q \<in> set (claimTokens d')" "claim_evictable acc now q"
      from lost [OF this(1,2)] kept [OF q] show "t_createdAt t \<le> t_createdAt q" using old by blast
    qed
  qed
qed

lemma oldest_dropped_refl: "oldest_dropped acc now rows rows"
  by (auto simp: oldest_dropped_def intro: exI [of _ "\<lambda>_. True"])

lemma oldest_dropped_sweep:
  assumes "oldest_dropped acc now (claimTokens (sweepExpiredClaimTokens acc now d)) kept"
  shows "oldest_dropped acc now (claimTokens d) kept"
proof -
  let ?stale = "\<lambda>t. t_accountId t = acc \<and> t_useCount t < t_maxUses t \<and> t_expiresAt t < now"
  let ?swept = "filter (\<lambda>t. \<not> ?stale t) (claimTokens d)"
  have o: "oldest_dropped acc now ?swept kept" using assms by (simp only: sweep_claims)
  then obtain P where "kept = filter P ?swept" unfolding oldest_dropped_def by blast
  then have sub: "kept = filter (\<lambda>t. P t \<and> \<not> ?stale t) (claimTokens d)" by (simp add: conj_commute)
  have split: "?stale t \<or> t \<in> set ?swept" if "t \<in> set (claimTokens d)" for t using that by auto
  have stale: "claim_droppable acc now t \<and> \<not> claim_evictable acc now t" if "?stale t" for t
    using that by (auto simp: claim_droppable_def claim_evictable_def)
  show ?thesis unfolding oldest_dropped_def
  proof (intro conjI ballI impI)
    show "\<exists>P. kept = filter P (claimTokens d)" using sub by blast
  next
    fix t assume "t \<in> set (claimTokens d)" "t \<notin> set kept"
    with split stale o show "claim_droppable acc now t" unfolding oldest_dropped_def by blast
  next
    fix t q assume "t \<in> set (claimTokens d)" "t \<notin> set kept" "claim_evictable acc now t"
      and "q \<in> set kept" "claim_evictable acc now q"
    with split stale o show "t_createdAt t \<le> t_createdAt q" unfolding oldest_dropped_def by blast
  qed
qed

lemma make_room_spec:
  assumes "make_room env rq acc profile d = (d', active)" and "keyed t_id (claimTokens d)"
  shows "active = int (countActiveClaimTokens acc (we_now env) d')"
    and "oldest_dropped acc (we_now env) (claimTokens d) (claimTokens d')" and "frames d' = frames d"
proof -
  let ?now = "we_now env" and ?swept = "sweepExpiredClaimTokens acc (we_now env) d"
  have keyed: "keyed t_id (claimTokens ?swept)"
    using assms(2) by (simp add: sweepExpiredClaimTokens_def keyed_delete)
  obtain e freed where ev: "evictOldestUnusedClaimTokens acc
      (int (countActiveClaimTokens acc ?now ?swept) - int (we_maxClaimTokens env) + 1) ?now ?swept = (e, freed)" by force
  note count = evict_count [OF ev keyed] and old = oldest_dropped_sweep [OF evict_oldest [OF ev keyed]]
  have eframes: "frames e = frames d"
    using ev by (auto simp: evictOldestUnusedClaimTokens_def Let_def sweepExpiredClaimTokens_def split: if_splits)
  have audit: "countActiveClaimTokens acc ?now (recordAuditEvent rq a actor ty m tg e) = countActiveClaimTokens acc ?now e" for a actor ty m tg
    by (simp add: countActiveClaimTokens_def)
  have swept: "oldest_dropped acc ?now (claimTokens d) (claimTokens ?swept)" "frames ?swept = frames d"
    by (simp_all add: oldest_dropped_sweep oldest_dropped_refl sweepExpiredClaimTokens_def)
  show "active = int (countActiveClaimTokens acc ?now d')"
    using assms(1) ev count audit by (auto simp: make_room_def Let_def split: if_splits)
  show "oldest_dropped acc ?now (claimTokens d) (claimTokens d')"
    using assms(1) ev old swept by (auto simp: make_room_def Let_def split: if_splits)
  show "frames d' = frames d"
    using assms(1) ev eframes swept by (auto simp: make_room_def Let_def split: if_splits)
qed

lemma mint_max_uses_bounds:
  "mint_max_uses env body = Some m \<Longrightarrow> 1 \<le> we_maxFrames env \<Longrightarrow> 1 \<le> m \<and> m \<le> int (we_maxFrames env)"
proof -
  assume m: "mint_max_uses env body = Some m" and f: "1 \<le> we_maxFrames env"
  have "1 \<le> \<lfloor>q\<rfloor> \<and> \<lfloor>q\<rfloor> \<le> int (we_maxFrames env)" if "\<not> q < 1" "\<not> q > of_nat (we_maxFrames env)" for q :: rat
    using that by (auto simp: floor_le_iff le_floor_iff)
  with m f show ?thesis by (auto simp: mint_max_uses_def split: if_splits option.splits json.splits)
qed

text \<open>
  Minting keeps the account within its cap.  Whatever the answer, the rows minting drops are the
  account's own: unspent codes that expired, and single-use codes never used, the oldest of these first;
  a multi-use code that still lives is kept.  A refusal adds no code; a minted code is the hash of the
  secret in the answer, with a budget within the frame quota, and with it the account's active codes are
  within the cap, its frames below the quota.
\<close>

lemma minting_respects_cap:
  assumes "mint_claim_token x env rq acc profile d = (d', r)" and "keyed t_id (claimTokens d)"
    and "1 \<le> we_maxClaimTokens env" and "1 \<le> we_maxFrames env"
  shows "\<exists>kept. oldest_dropped acc (we_now env) (claimTokens d) kept \<and>
    (if rs_status r = 200
     then (\<exists>t code. claimTokens d' = kept @ [t] \<and> rs_body r = JObj [(''claim_token'', JStr code),
              (''expires_at'', JStr (iso_text (t_expiresAt t))), (''max_uses'', num_of_int (t_maxUses t))]
            \<and> t_tokenHash t = hashSecret x code \<and> t_accountId t = acc \<and> t_useCount t = 0
            \<and> 1 \<le> t_maxUses t \<and> t_maxUses t \<le> int (we_maxFrames env))
          \<and> countActiveClaimTokens acc (we_now env) d' \<le> we_maxClaimTokens env
          \<and> countFramesForAccount acc (we_now env) d < we_maxFrames env
     else claimTokens d' = kept)"
proof -
  define body where "body = readJsonObject rq"
  show ?thesis
  proof (cases "mint_max_uses env body")
    case None
    then show ?thesis using assms(1) oldest_dropped_refl
      by (auto simp: mint_claim_token_def body_def Let_def)
  next
    case (Some m)
    obtain e active where room: "make_room env rq acc profile d = (e, active)" by force
    note spec = make_room_spec [OF room assms(2)]
    show ?thesis
    proof (cases "rs_status r = 200")
      case False
      then have "claimTokens d' = claimTokens e" using assms(1) Some room
        by (auto simp: mint_claim_token_def body_def Let_def split: if_splits option.splits)
      with False spec(2) show ?thesis by auto
    next
      case True
      then obtain t where t: "claimTokens d' = claimTokens e @ [t]" "t_accountId t = acc" "t_useCount t = 0"
          "t_tokenHash t = hashSecret x (createSecretToken claimTokenPrefix (we_random env 0))" "t_maxUses t = m"
          "rs_body r = JObj [(''claim_token'', JStr (createSecretToken claimTokenPrefix (we_random env 0))),
             (''expires_at'', JStr (iso_text (t_expiresAt t))), (''max_uses'', num_of_int m)]"
        and q: "\<not> active \<ge> int (we_maxClaimTokens env)" "\<not> countFramesForAccount acc (we_now env) e \<ge> we_maxFrames env"
        using assms(1) Some room
        by (auto simp: mint_claim_token_def body_def Let_def jsonOk_def split: if_splits option.splits)
      have "countActiveClaimTokens acc (we_now env) d' \<le> Suc (countActiveClaimTokens acc (we_now env) e)"
        by (simp add: countActiveClaimTokens_def t(1))
      then have "countActiveClaimTokens acc (we_now env) d' \<le> we_maxClaimTokens env" using q(1) spec(1) by simp
      moreover have "countFramesForAccount acc (we_now env) d < we_maxFrames env"
        using q(2) spec(3) by (simp add: countFramesForAccount_def)
      ultimately show ?thesis using True t spec(2) mint_max_uses_bounds [OF Some assms(4)] by auto
    qed
  qed
qed

end
