(* ===== verification/Enrollment.thy ===== *)
theory Enrollment imports ClaimTokens HubSessions begin

text \<open>
  Enrolling a frame (\<open>app/api/frames/enroll/route.ts\<close>): with a claim token, which creates a pending frame
  and its linked client in one transaction or replays a lost response, and with the link token of a
  frame that went through the device flow.
\<close>

section \<open>What a request says\<close>

definition wsPath :: string where "wsPath = ''/api/frames/ws''"

definition claimTokenGrantedScopes :: "string list" where
  "claimTokenGrantedScopes = [frameManagedScope, frameTelemetryLogsScope, frameTelemetryMetricsScope]"

definition claimTokenScopeString :: string where
  "claimTokenScopeString = js_join '' '' claimTokenGrantedScopes"

definition localHosts :: "string list" where
  "localHosts = [''localhost'', ''127.0.0.1'', ''[::1]'', ''::1'']"

definition frameWsUrl :: "web_env \<Rightarrow> web_request \<Rightarrow> string option" where
  "frameWsUrl env rq =
     (let configuredHub = (case we_frameHubPublicUrl env of
            None \<Rightarrow> []
          | Some v \<Rightarrow> (let t = js_trim v in if js_ends_with ''/'' t then butlast t else t));
          hubOrigin = (if configuredHub \<noteq> [] then Some configuredHub
            else if rq_hostname rq \<in> set localHosts then Some (''http://'' @ rq_hostname rq @ '':3100'') else None)
      in map_option (\<lambda>or. (if js_starts_with ''http'' or then ''ws'' @ drop 4 or else or) @ wsPath) hubOrigin)"

definition parseHardware :: "json option \<Rightarrow> json" where
  "parseHardware v =
     (case v of
        Some (JObj kvs) \<Rightarrow> if length (json_text (JObj kvs)) > 4096 then JNull else JObj kvs
      | _ \<Rightarrow> JNull)"

definition isValidEd25519PublicKey :: "ext \<Rightarrow> string \<Rightarrow> bool" where
  "isValidEd25519PublicKey x publicKeyBase64 =
     (let raw = base64_decode x publicKeyBase64 in length raw = 32 \<and> ed25519_key_ok x raw)"

record enroll_input =
  ei_frameosVersion :: "string option"
  ei_hardware :: json
  ei_name :: "string option"
  ei_publicKey :: string

section \<open>With a claim token\<close>

definition rotationGraceWindowSeconds :: int where "rotationGraceWindowSeconds = 5 * 60"

definition claim_enrolled :: "string \<Rightarrow> string option \<Rightarrow> frame \<Rightarrow> http_response" where
  "claim_enrolled accessToken wsUrl f =
     jsonOk ([(''access_token'', JStr accessToken), (''frame_id'', JStr (f_id f)), (''scope'', JStr claimTokenScopeString),
       (''status'', JStr (frame_status_text (f_status f))), (''token_type'', JStr ''Bearer''), (''ws_path'', JStr wsPath)]
       @ opt_field ''ws_url'' (map_option JStr wsUrl))"

definition rotate_row :: "time \<Rightarrow> string \<Rightarrow> linked_client \<Rightarrow> linked_client" where
  "rotate_row now reference l = l\<lparr>l_lastTokenRotationAt := Some now,
     l_previousTokenExpiresAt := Some (now + rotationGraceWindowSeconds * 1000),
     l_previousTokenReference := Some (l_tokenReference l), l_tokenReference := reference, l_updatedAt := now\<rparr>"

text \<open>The first still pending frame of the account with this key on a live linked client.\<close>

definition replay_frame :: "uuid \<Rightarrow> string \<Rightarrow> db \<Rightarrow> frame option" where
  "replay_frame accountId publicKey d =
     map_option fst (select_one (\<lambda>(f, l). l_id l = f_linkedClientId f \<and> f_accountId f = accountId
         \<and> f_publicKey f = publicKey \<and> f_status f = FramePending \<and> l_revokedAt l = None)
       (List.product (frames d) (linkedClients d)))"

definition replayEnrollment ::
  "ext \<Rightarrow> web_env \<Rightarrow> string option \<Rightarrow> enroll_input \<Rightarrow> string \<Rightarrow> string \<times> string \<times> string \<Rightarrow> db
   \<Rightarrow> (db \<times> http_response) option" where
  "replayEnrollment x env wsUrl input claimToken accessToken d =
     (case select_one (\<lambda>t. t_tokenHash t = hashSecret x claimToken) (claimTokens d) of
        None \<Rightarrow> None
      | Some token \<Rightarrow>
          if t_expiresAt token \<le> we_now env \<or> t_useCount token = 0 then None
          else (case replay_frame (t_accountId token) (ei_publicKey input) d of
                  None \<Rightarrow> None
                | Some existing \<Rightarrow>
                    (let (sealed, plain, reference) = accessToken
                     in Some (d\<lparr>linkedClients := update_where (\<lambda>l. l_id l = f_linkedClientId existing)
                                  (rotate_row (we_now env) reference) (linkedClients d)\<rparr>,
                              claim_enrolled plain wsUrl existing))))"

definition new_linked_client :: "uuid \<Rightarrow> uuid \<Rightarrow> string \<Rightarrow> json \<Rightarrow> string \<Rightarrow> string \<Rightarrow> time \<Rightarrow> linked_client" where
  "new_linked_client lid accountId kind metadata name reference now =
     \<lparr>l_id = lid, l_accountId = accountId, l_clientKind = kind, l_encryptedRefreshToken = None, l_lastSeenAt = None,
      l_lastTokenRotationAt = None, l_localOrigin = None, l_previousTokenExpiresAt = None,
      l_previousTokenReference = None, l_metadata = metadata, l_displayName = name, l_revokedAt = None,
      l_tokenReference = reference, l_createdAt = now, l_updatedAt = now\<rparr>"

definition new_frame ::
  "uuid \<Rightarrow> uuid \<Rightarrow> uuid \<Rightarrow> string \<Rightarrow> string \<Rightarrow> json \<Rightarrow> string option \<Rightarrow> frame_status \<Rightarrow> time \<Rightarrow> frame" where
  "new_frame fid accountId lid name publicKey hardware version status now =
     \<lparr>f_id = fid, f_accountId = accountId, f_linkedClientId = lid, f_name = name, f_publicKey = publicKey,
      f_hardware = hardware, f_frameosVersion = version, f_status = status, f_connected = False,
      f_hubSessionId = None, f_lastSeenAt = None, f_lastState = JNull, f_lastMetrics = JNull,
      f_assignedChecksum = None, f_scenesChecksum = None, f_createdAt = now, f_updatedAt = now\<rparr>"

definition claim_linked_client :: "web_env \<Rightarrow> claim_token \<Rightarrow> string \<Rightarrow> string \<Rightarrow> linked_client" where
  "claim_linked_client env token name reference =
     new_linked_client (we_uuid env 0) (t_accountId token) ''frame''
       (JObj [(''enrolledVia'', JStr ''claim_token''), (''requestedScopes'', JArr (map JStr claimTokenGrantedScopes))])
       name reference (we_now env)"

datatype enroll_result = QuotaExceeded | InvalidToken | Enrolled frame uuid

text \<open>The transaction: the redeemed token, the linked client and the frame, or no change at all.\<close>

definition enroll_transaction ::
  "ext \<Rightarrow> web_env \<Rightarrow> enroll_input \<Rightarrow> string \<Rightarrow> string \<Rightarrow> db \<Rightarrow> db \<times> enroll_result" where
  "enroll_transaction x env input claimToken reference d =
     (case redeemClaimToken x claimToken (we_now env) d of
        (d1, None) \<Rightarrow> (d1, InvalidToken)
      | (d1, Some token) \<Rightarrow>
          if countFramesForAccount (t_accountId token) (we_now env) d1 \<ge> we_maxFrames env then (d, QuotaExceeded)
          else (let name = (case t_name token of Some n \<Rightarrow> n | None \<Rightarrow>
                              (case ei_name input of Some n \<Rightarrow> n | None \<Rightarrow> ''FrameOS frame''));
                    l = claim_linked_client env token name reference;
                    f = new_frame (we_uuid env 1) (t_accountId token) (l_id l) name (ei_publicKey input)
                      (ei_hardware input) (ei_frameosVersion input) FramePending (we_now env)
                in (d1\<lparr>linkedClients := linkedClients d1 @ [l], frames := frames d1 @ [f],
                      claimTokens := update_where (\<lambda>t. t_id t = t_id token) (\<lambda>t. t\<lparr>t_frameId := Some (f_id f)\<rparr>)
                        (claimTokens d1)\<rparr>,
                    Enrolled f (t_id token))))"

definition enrollWithClaimToken ::
  "ext \<Rightarrow> web_env \<Rightarrow> web_request \<Rightarrow> string option \<Rightarrow> enroll_input \<Rightarrow> string \<Rightarrow> db \<Rightarrow> db \<times> http_response" where
  "enrollWithClaimToken x env rq wsUrl input claimToken d =
     (case createEncryptedSecretToken x ''fc_link'' (we_random env 0) of
        None \<Rightarrow> (d, jsonError ''encryption_not_configured'' 503 [])
      | Some (sealed, plain, reference) \<Rightarrow>
          (case replayEnrollment x env wsUrl input claimToken (sealed, plain, reference) d of
             Some replay \<Rightarrow> replay
           | None \<Rightarrow>
               (case enroll_transaction x env input claimToken reference d of
                  (d1, QuotaExceeded) \<Rightarrow>
                    (d1, jsonError ''frame_quota_exceeded'' 403 [(''max_frames'', num_of_int (int (we_maxFrames env)))])
                | (d1, InvalidToken) \<Rightarrow> (d1, jsonError ''invalid_claim_token'' 400 [])
                | (d1, Enrolled f tokenId) \<Rightarrow>
                    (recordAuditEvent rq (Some (f_accountId f))
                       [(''claimTokenId'', JStr tokenId), (''kind'', JStr ''frame_enrollment'')] ''frame.enrolled''
                       (JObj [(''via'', JStr ''claim_token'')])
                       (JObj [(''frameId'', JStr (f_id f)), (''linkedClientId'', JStr (f_linkedClientId f))]) d1,
                     claim_enrolled plain wsUrl f))))"

section \<open>With a link token\<close>

definition linked_enrolled :: "string option \<Rightarrow> linked_client \<Rightarrow> frame \<Rightarrow> http_response" where
  "linked_enrolled wsUrl l f =
     jsonOk ([(''frame_id'', JStr (f_id f)), (''scope'', JStr (js_join '' '' (linkedClientScopes l))),
       (''status'', JStr (frame_status_text (f_status f))), (''ws_path'', JStr wsPath)]
       @ opt_field ''ws_url'' (map_option JStr wsUrl))"

definition enrollLinkedFrame ::
  "ext \<Rightarrow> web_env \<Rightarrow> web_request \<Rightarrow> string option \<Rightarrow> enroll_input \<Rightarrow> db \<Rightarrow> db \<times> http_response" where
  "enrollLinkedFrame x env rq wsUrl input d0 =
     (case authenticateLinkedClient x (rq_authorization rq) (we_now env) d0 of
        (d, None) \<Rightarrow> (d, jsonError ''invalid_link_token'' 401 [])
      | (d, Some l) \<Rightarrow>
          if l_clientKind l \<noteq> ''frame'' \<or> \<not> linkedClientHasScope l frameManagedScope
          then (d, jsonError ''insufficient_scope'' 403 [])
          else (case frameForLinkedClient (l_id l) d of
                  Some existing \<Rightarrow>
                    if f_publicKey existing \<noteq> ei_publicKey input then (d, jsonError ''public_key_mismatch'' 409 [])
                    else (d\<lparr>frames := update_where (\<lambda>f. f_id f = f_id existing)
                              (\<lambda>f. f\<lparr>f_frameosVersion := (case ei_frameosVersion input of Some v \<Rightarrow> Some v
                                                              | None \<Rightarrow> f_frameosVersion existing),
                                     f_hardware := (if ei_hardware input \<noteq> JNull then ei_hardware input
                                                    else f_hardware existing),
                                     f_updatedAt := we_now env\<rparr>) (frames d)\<rparr>,
                          linked_enrolled wsUrl l existing)
                | None \<Rightarrow>
                    if countFramesForAccount (l_accountId l) (we_now env) d \<ge> we_maxFrames env
                    then (d, jsonError ''frame_quota_exceeded'' 403 [(''max_frames'', num_of_int (int (we_maxFrames env)))])
                    else (let f = new_frame (we_uuid env 0) (l_accountId l) (l_id l)
                                (case ei_name input of Some n \<Rightarrow> n | None \<Rightarrow> l_displayName l) (ei_publicKey input)
                                (ei_hardware input) (ei_frameosVersion input) FrameActive (we_now env)
                          in (recordAuditEvent rq (Some (l_accountId l))
                                [(''kind'', JStr ''frame_enrollment''), (''linkedClientId'', JStr (l_id l))]
                                ''frame.enrolled'' (JObj [(''via'', JStr ''device_flow'')])
                                (JObj [(''frameId'', JStr (f_id f)), (''linkedClientId'', JStr (l_id l))])
                                (d\<lparr>frames := frames d @ [f]\<rparr>),
                              linked_enrolled wsUrl l f))))"

section \<open>The route\<close>

definition enroll_input_of :: "fields \<Rightarrow> string \<Rightarrow> enroll_input" where
  "enroll_input_of body publicKey =
     \<lparr>ei_frameosVersion = map_option (take 64) (parseOptionalString (map_of body ''frameos_version'')),
      ei_hardware = parseHardware (map_of body ''hardware''),
      ei_name = map_option (take 256) (parseOptionalString (map_of body ''name'')), ei_publicKey = publicKey\<rparr>"

definition enroll :: "ext \<Rightarrow> web_env \<Rightarrow> web_request \<Rightarrow> db \<Rightarrow> db \<times> http_response" where
  "enroll x env rq d =
     (let body = readJsonObject rq
      in case parseOptionalString (map_of body ''public_key'') of
           None \<Rightarrow> (d, jsonError ''invalid_public_key'' 400 [])
         | Some publicKey \<Rightarrow>
             if \<not> isValidEd25519PublicKey x publicKey then (d, jsonError ''invalid_public_key'' 400 [])
             else (case parseOptionalString (map_of body ''claim_token'') of
                     Some claimToken \<Rightarrow>
                       enrollWithClaimToken x env rq (frameWsUrl env rq) (enroll_input_of body publicKey) claimToken d
                   | None \<Rightarrow>
                       (case rq_authorization rq of
                          None \<Rightarrow> (d, jsonError ''invalid_claim_token'' 400 [])
                        | Some h \<Rightarrow>
                            if h = [] then (d, jsonError ''invalid_claim_token'' 400 [])
                            else enrollLinkedFrame x env rq (frameWsUrl env rq) (enroll_input_of body publicKey) d)))"

definition enroll_route :: "ext \<Rightarrow> web_env \<Rightarrow> web_request \<Rightarrow> world \<Rightarrow> world \<times> http_response" where
  "enroll_route x env rq = limited_route env rq ''frames:enroll'' 30 (15 * 60 * 1000) (enroll x env rq)"

section \<open>All or nothing\<close>

lemma redeem_none: "redeemClaimToken x s now d = (d1, None) \<Longrightarrow> d1 = d"
  by (auto simp: redeemClaimToken_def Let_def select_one_None update_where_noop)

lemma redeem_some:
  assumes "redeemClaimToken x s now d = (d1, Some token)"
  shows "\<exists>t\<in>set (claimTokens d). t_tokenHash t = hashSecret x s \<and> claim_open now t \<and> token = redeem_row now t"
    and "d1 = d\<lparr>claimTokens := update_where (\<lambda>t. t_tokenHash t = hashSecret x s \<and> claim_open now t) (redeem_row now) (claimTokens d)\<rparr>"
  using assms by (auto simp: redeemClaimToken_def Let_def dest!: select_one_Some)

lemma claim_enrolled_fields [simp]:
  "rs_status (claim_enrolled a u f) = 200" "rs_status (linked_enrolled u l f) = 200"
  by (simp_all add: claim_enrolled_def linked_enrolled_def)

lemma transaction_refused:
  "enroll_transaction x env input s ref d = (d1, res) \<Longrightarrow> (\<And>f i. res \<noteq> Enrolled f i) \<Longrightarrow> d1 = d"
  by (auto simp: enroll_transaction_def Let_def dest: redeem_none split: prod.splits option.splits if_splits)

text \<open>What authentication by a link token writes.\<close>

lemma authenticate_effect:
  "fst (authenticateLinkedClient x hdr now d) = d
   \<or> (\<exists>l\<in>set (linkedClients d). \<exists>t. bearer_token hdr = Some t \<and> l_tokenReference l = hashSecret x t
        \<and> l_previousTokenReference l \<noteq> None \<and> l_revokedAt l = None
        \<and> fst (authenticateLinkedClient x hdr now d)
          = d\<lparr>linkedClients := update_where (\<lambda>q. l_id q = l_id l) (retire_previous now) (linkedClients d)\<rparr>)"
proof (cases "fst (authenticateLinkedClient x hdr now d) = d")
  case False
  then obtain t l where t: "bearer_token hdr = Some t" "select_one (token_matches now (hashSecret x t)) (linkedClients d) = Some l"
      "l_tokenReference l = hashSecret x t" "l_previousTokenReference l \<noteq> None"
      "fst (authenticateLinkedClient x hdr now d)
        = d\<lparr>linkedClients := update_where (\<lambda>q. l_id q = l_id l) (retire_previous now) (linkedClients d)\<rparr>"
    by (auto simp: authenticateLinkedClient_def Let_def split: option.splits if_splits)
  then have "l \<in> set (linkedClients d)" "l_revokedAt l = None"
    using select_one_Some [OF t(2)] by (auto simp: token_matches_def)
  with t show ?thesis by blast
qed simp

text \<open>
  C13.  An enrollment that fails changes nothing: no use of a claim token is spent and no linked client or frame is left
  behind.  The one exception is not an effect of the enrollment: a request without a claim token that a linked client
  authenticates with its rotated token retires the previous token of that client, as its first use does on any route.
\<close>

theorem enrollment_all_or_nothing:
  assumes "enroll_route x env rq w = (w', r)" and "rs_status r \<noteq> 200"
  shows "w_db w' = w_db w
       \<or> parseOptionalString (map_of (readJsonObject rq) ''claim_token'') = None
         \<and> (\<exists>l\<in>set (linkedClients (w_db w)). \<exists>t. bearer_token (rq_authorization rq) = Some t \<and> l_tokenReference l = hashSecret x t
              \<and> l_previousTokenReference l \<noteq> None \<and> l_revokedAt l = None
              \<and> w_db w' = (w_db w)\<lparr>linkedClients :=
                    update_where (\<lambda>q. l_id q = l_id l) (retire_previous (we_now env)) (linkedClients (w_db w))\<rparr>)"
proof (rule limited_route_cases [where env = env and rq = rq and action = "''frames:enroll''" and limit = 30
      and windowMs = "15 * 60 * 1000" and body = "enroll x env rq" and w = w])
  assume run: "w_db (fst (limited_route env rq ''frames:enroll'' 30 (15 * 60 * 1000) (enroll x env rq) w)) = fst (enroll x env rq (w_db w))"
    "snd (limited_route env rq ''frames:enroll'' 30 (15 * 60 * 1000) (enroll x env rq) w) = snd (enroll x env rq (w_db w))"
  let ?d = "w_db w"
  obtain d' where e: "enroll x env rq ?d = (d', r)" and d': "w_db w' = d'"
    using run assms(1) by (metis enroll_route_def fst_conv prod.collapse snd_conv)
  have claim: "d'' = ?d" if "enrollWithClaimToken x env rq u input s ?d = (d'', r)" for d'' u input s
    using that assms(2)
    by (auto simp: enrollWithClaimToken_def replayEnrollment_def Let_def dest: transaction_refused
        split: option.splits prod.splits enroll_result.splits if_splits)
  have linked: "d'' = fst (authenticateLinkedClient x (rq_authorization rq) (we_now env) ?d)"
    if "enrollLinkedFrame x env rq u input ?d = (d'', r)" for d'' u input
    using that assms(2) by (auto simp: enrollLinkedFrame_def Let_def split: option.splits prod.splits if_splits)
  have "d' = ?d \<or> parseOptionalString (map_of (readJsonObject rq) ''claim_token'') = None
      \<and> d' = fst (authenticateLinkedClient x (rq_authorization rq) (we_now env) ?d)"
    using e by (auto simp: enroll_def Let_def dest: claim linked split: option.splits if_splits)
  then show ?thesis unfolding d' using authenticate_effect [of x "rq_authorization rq" "we_now env" ?d] by metis
qed (use assms(1) in \<open>simp add: enroll_route_def\<close>)

lemma sample_ext_simps:
  "hashSecret sample_ext s = ''#'' @ s" "encrypt_secret sample_ext s = Some (''v1:'' @ s)"
  "base64_decode sample_ext s = s" "ed25519_key_ok sample_ext b"
  by (simp_all add: sample_ext_def hashSecret_def)

lemma demo_env_simps:
  "we_now (demo_env t) = t" "we_maxFrames (demo_env t) = 50" "we_maxClaimTokens (demo_env t) = 50"
  "we_hasDatabase (demo_env t)" "we_uuid (demo_env t) i = ''u'' @ dec_text (int i)"
  "we_random (demo_env t) i = ''r'' @ dec_text (int i)" "we_appOrigins (demo_env t) = [''https://cloud'']"
  by (simp_all add: demo_env_def)

definition demo_key :: string where
  "demo_key = replicate 32 (CHR ''k'')"

definition enroll_request :: web_request where
  "enroll_request = demo_web_request (Some (JObj [(''public_key'', JStr demo_key), (''claim_token'', JStr ''FRCT_x'')]))"

lemma trim_replicate [simp]: "\<not> js_ws c \<Longrightarrow> js_trim (replicate n c) = replicate n c"
proof -
  assume c: "\<not> js_ws c"
  then have "dropWhile js_ws (replicate n c) = replicate n c" by (cases n) auto
  then show ?thesis by (simp add: js_trim_def)
qed

lemma enroll_request_parses:
  "parseOptionalString (map_of (readJsonObject enroll_request) ''public_key'') = Some demo_key"
  "parseOptionalString (map_of (readJsonObject enroll_request) ''claim_token'') = Some ''FRCT_x''"
  "isValidEd25519PublicKey sample_ext demo_key"
  by (simp_all add: enroll_request_def demo_web_request_def readJsonObject_def parseOptionalString_def demo_key_def
      isValidEd25519PublicKey_def sample_ext_def js_ws_def) (simp add: js_trim_def js_ws_def)

lemma enroll_request_claims:
  "enroll sample_ext env enroll_request d = enrollWithClaimToken sample_ext env enroll_request (frameWsUrl env enroll_request)
     (enroll_input_of (readJsonObject enroll_request) demo_key) ''FRCT_x'' d"
  by (simp add: enroll_def enroll_request_parses)

theorem enrollment_all_or_nothing_witness:
  "w_db (fst (enroll_route sample_ext (demo_env 200) enroll_request
     \<lparr>w_db = empty_db\<lparr>claimTokens := [demo_claim]\<rparr>, w_limits = idle_limiter\<rparr>)) = empty_db\<lparr>claimTokens := [demo_claim]\<rparr>"
proof -
  let ?d = "empty_db\<lparr>claimTokens := [demo_claim]\<rparr>" and ?env = "demo_env 200"
  let ?w = "\<lparr>w_db = ?d, w_limits = idle_limiter\<rparr>"
  obtain w' r where e: "enroll_route sample_ext ?env enroll_request ?w = (w', r)" by force
  have "rs_status (snd (enroll sample_ext ?env enroll_request ?d)) \<noteq> 200"
    by (simp add: enroll_request_claims enrollWithClaimToken_def createEncryptedSecretToken_def Let_def sample_ext_simps
        demo_env_simps replayEnrollment_def select_one_def demo_claim_def enroll_transaction_def redeemClaimToken_def
        claim_open_def)
  then have "rs_status r \<noteq> 200"
    using limited_route_cases [of ?env enroll_request "''frames:enroll''" 30 "15 * 60 * 1000" "enroll sample_ext ?env enroll_request" ?w] e
    by (fastforce simp: enroll_route_def)
  from enrollment_all_or_nothing [OF e this] show ?thesis by (simp add: enroll_request_parses e)
qed

section \<open>What an enrollment creates\<close>

text \<open>
  The two outcomes of a successful enrollment with a claim token: a replay of a pending enrollment, or a
  new frame on a new linked client.
\<close>

definition claim_outcome ::
  "ext \<Rightarrow> web_env \<Rightarrow> string option \<Rightarrow> enroll_input \<Rightarrow> string \<Rightarrow> db \<Rightarrow> db \<Rightarrow> http_response \<Rightarrow> bool" where
  "claim_outcome x env u input s d d' r \<longleftrightarrow> (\<exists>token\<in>set (claimTokens d). \<exists>plain f l. t_tokenHash token = hashSecret x s \<and> we_now env < t_expiresAt token
    \<and> r = claim_enrolled plain u f \<and> f_status f = FramePending \<and> f_accountId f = t_accountId token
    \<and> f_publicKey f = ei_publicKey input \<and> l_id l = f_linkedClientId f \<and> l_revokedAt l = None
    \<and> (t_useCount token \<noteq> 0 \<and> f \<in> set (frames d) \<and> l \<in> set (linkedClients d)
         \<and> d' = d\<lparr>linkedClients := update_where (\<lambda>q. l_id q = l_id l) (rotate_row (we_now env) (hashSecret x plain)) (linkedClients d)\<rparr>
       \<or> claim_open (we_now env) token \<and> countFramesForAccount (t_accountId token) (we_now env) d < we_maxFrames env
         \<and> frames d' = frames d @ [f] \<and> linkedClients d' = linkedClients d @ [l]
         \<and> linkedClientScopes l = [''frame:managed'', ''telemetry:logs'', ''telemetry:metrics'']
         \<and> l_tokenReference l = hashSecret x plain
         \<and> claimTokens d' = update_where (\<lambda>t. t_id t = t_id token) (\<lambda>t. t\<lparr>t_frameId := Some (f_id f)\<rparr>)
             (update_where (\<lambda>t. t_tokenHash t = hashSecret x s \<and> claim_open (we_now env) t) (redeem_row (we_now env)) (claimTokens d))))"

lemma claim_enrollment_outcome:
  assumes "enrollWithClaimToken x env rq u input s d = (d', r)" and "rs_status r = 200"
  shows "claim_outcome x env u input s d d' r"
proof -
  obtain sealed plain ref where a: "createEncryptedSecretToken x ''fc_link'' (we_random env 0) = Some (sealed, plain, ref)"
    using assms by (auto simp: enrollWithClaimToken_def split: option.splits)
  then have ref: "ref = hashSecret x plain" by (auto simp: createEncryptedSecretToken_def Let_def)
  show ?thesis
  proof (cases "replayEnrollment x env u input s (sealed, plain, ref) d")
    case (Some out)
    then obtain token f where t: "select_one (\<lambda>t. t_tokenHash t = hashSecret x s) (claimTokens d) = Some token"
        "\<not> t_expiresAt token \<le> we_now env" "t_useCount token \<noteq> 0"
      and f: "replay_frame (t_accountId token) (ei_publicKey input) d = Some f"
      and out: "out = (d\<lparr>linkedClients := update_where (\<lambda>l. l_id l = f_linkedClientId f) (rotate_row (we_now env) ref)
          (linkedClients d)\<rparr>, claim_enrolled plain u f)"
      by (auto simp: replayEnrollment_def Let_def split: option.splits if_splits)
    from f obtain l where "f \<in> set (frames d)" "l \<in> set (linkedClients d)" "l_id l = f_linkedClientId f"
        "f_accountId f = t_accountId token" "f_publicKey f = ei_publicKey input" "f_status f = FramePending" "l_revokedAt l = None"
      by (auto simp: replay_frame_def dest!: select_one_Some)
    moreover have "(d', r) = out" using assms(1) a Some by (simp add: enrollWithClaimToken_def)
    ultimately show ?thesis using select_one_Some [OF t(1)] t(2,3) out ref unfolding claim_outcome_def
      by (intro bexI [of _ token] exI [of _ plain] exI [of _ f] exI [of _ l]) auto
  next
    case None
    obtain d1 res where tr: "enroll_transaction x env input s ref d = (d1, res)" by force
    then obtain f tid where res: "res = Enrolled f tid"
      using assms None a by (auto simp: enrollWithClaimToken_def split: enroll_result.splits)
    obtain e token' where red: "redeemClaimToken x s (we_now env) d = (e, Some token')"
      using tr res by (auto simp: enroll_transaction_def split: prod.splits option.splits)
    from redeem_some(1) [OF red] obtain token where t: "token \<in> set (claimTokens d)" "t_tokenHash token = hashSecret x s"
        "claim_open (we_now env) token" and token': "token' = redeem_row (we_now env) token" by blast
    have same: "t_accountId token' = t_accountId token" "t_id token' = t_id token" by (simp_all add: token' redeem_row_def)
    note e = redeem_some(2) [OF red]
    have quota: "countFramesForAccount (t_accountId token) (we_now env) d < we_maxFrames env"
      using tr res red same e by (auto simp: enroll_transaction_def countFramesForAccount_def split: if_splits)
    obtain l name where new: "l = claim_linked_client env token' name ref"
        "f = new_frame (we_uuid env 1) (t_accountId token') (l_id l) name (ei_publicKey input) (ei_hardware input)
           (ei_frameosVersion input) FramePending (we_now env)"
        "d1 = e\<lparr>linkedClients := linkedClients e @ [l], frames := frames e @ [f], claimTokens := update_where
           (\<lambda>t. t_id t = t_id token') (\<lambda>t. t\<lparr>t_frameId := Some (f_id f)\<rparr>) (claimTokens e)\<rparr>"
      using tr res red by (auto simp: enroll_transaction_def Let_def split: if_splits)
    have l: "linkedClients d1 = linkedClients d @ [l]" "frames d1 = frames d @ [f]" "l_tokenReference l = ref"
        "l_revokedAt l = None" "linkedClientScopes l = [''frame:managed'', ''telemetry:logs'', ''telemetry:metrics'']"
        "f_linkedClientId f = l_id l" "f_status f = FramePending" "f_accountId f = t_accountId token"
        "f_publicKey f = ei_publicKey input"
        "claimTokens d1 = update_where (\<lambda>t. t_id t = t_id token) (\<lambda>t. t\<lparr>t_frameId := Some (f_id f)\<rparr>) (claimTokens e)"
      unfolding new(3) e
      by (simp_all add: new(1,2) same claim_linked_client_def new_linked_client_def new_frame_def linkedClientScopes_def
          metadata_scopes_def claimTokenGrantedScopes_def frameManagedScope_def frameTelemetryLogsScope_def
          frameTelemetryMetricsScope_def)
    have out: "r = claim_enrolled plain u f" "frames d' = frames d1" "linkedClients d' = linkedClients d1" "claimTokens d' = claimTokens d1"
      using assms(1) a None tr res by (auto simp: enrollWithClaimToken_def)
    have "we_now env < t_expiresAt token" using t(3) by (simp add: claim_open_def)
    with t out l quota ref e show ?thesis unfolding claim_outcome_def
      by (intro bexI [of _ token] exI [of _ plain] exI [of _ f] exI [of _ l] conjI disjI2) simp_all
  qed
qed

lemma sample_enrollment:
  "rs_status (snd (enrollWithClaimToken sample_ext (demo_env 9) rq u input ''FRCT_x'' (empty_db\<lparr>claimTokens := [demo_claim]\<rparr>))) = 200"
  by (simp add: enrollWithClaimToken_def createEncryptedSecretToken_def Let_def sample_ext_simps demo_env_simps
      replayEnrollment_def select_one_def demo_claim_def enroll_transaction_def redeemClaimToken_def claim_open_def
      countFramesForAccount_def empty_db_def)

text \<open>
  A successful enrollment with a claim token is one of two things.  Either it replays: a use of the
  unexpired token was spent before, a pending frame of the token's account has this very key on a live
  linked client, no frame is added and no use spent, and only that client's access token is rotated.  Or
  it enrolls: the token was open and the account below its frame quota; one use is spent, one pending
  frame with this key is added to the token's account, on a new linked client whose access token is the
  one in the answer and whose scopes are those of the claim-token grant.
\<close>

lemma claim_enrollment_effect:
  assumes "enroll_route x env rq w = (w', r)" and "rs_status r = 200"
    and "parseOptionalString (map_of (readJsonObject rq) ''claim_token'') = Some s"
  shows "\<exists>publicKey. parseOptionalString (map_of (readJsonObject rq) ''public_key'') = Some publicKey
      \<and> isValidEd25519PublicKey x publicKey
      \<and> claim_outcome x env (frameWsUrl env rq) (enroll_input_of (readJsonObject rq) publicKey) s (w_db w) (w_db w') r"
proof (rule limited_route_cases [where env = env and rq = rq and action = "''frames:enroll''" and limit = 30
      and windowMs = "15 * 60 * 1000" and body = "enroll x env rq" and w = w])
  assume "w_db (fst (limited_route env rq ''frames:enroll'' 30 (15 * 60 * 1000) (enroll x env rq) w)) = fst (enroll x env rq (w_db w))"
    "snd (limited_route env rq ''frames:enroll'' 30 (15 * 60 * 1000) (enroll x env rq) w) = snd (enroll x env rq (w_db w))"
  then have e: "enroll x env rq (w_db w) = (w_db w', r)"
    using assms(1) by (metis enroll_route_def fst_conv prod.collapse snd_conv)
  show ?thesis using e assms(2,3) claim_enrollment_outcome [OF _ assms(2)]
    by (auto simp: enroll_def Let_def split: option.splits if_splits)
qed (use assms(1,2) in \<open>auto simp: enroll_route_def\<close>)

section \<open>The budget of a token\<close>

definition uses_left :: "string \<Rightarrow> claim_token list \<Rightarrow> nat" where
  "uses_left h rows = sum_list (map (\<lambda>t. if t_tokenHash t = h then nat (t_maxUses t - t_useCount t) else 0) rows)"

lemma uses_left_simps [simp]:
  "uses_left h [] = 0" "uses_left h (xs @ ys) = uses_left h xs + uses_left h ys"
  "uses_left h (t # rows) = (if t_tokenHash t = h then nat (t_maxUses t - t_useCount t) else 0) + uses_left h rows"
  by (simp_all add: uses_left_def)

lemma redeem_row_simps [simp]:
  "t_tokenHash (redeem_row now t) = t_tokenHash t" "t_maxUses (redeem_row now t) = t_maxUses t"
  "t_useCount (redeem_row now t) = t_useCount t + 1" "t_id (redeem_row now t) = t_id t"
  "t_accountId (redeem_row now t) = t_accountId t" "t_expiresAt (redeem_row now t) = t_expiresAt t"
  by (simp_all add: redeem_row_def)

lemma uses_left_redeem:
  assumes "t \<in> set rows" and "t_tokenHash t = h" and "claim_open now t"
  shows "Suc (uses_left h (update_where (\<lambda>t. t_tokenHash t = h \<and> claim_open now t) (redeem_row now) rows)) \<le> uses_left h rows"
    (is "Suc (uses_left h (?upd rows)) \<le> _")
proof -
  have le: "uses_left h (?upd qs) \<le> uses_left h qs" for qs
    by (induction qs) (auto simp: update_where_Cons)
  obtain xs ys where rows: "rows = xs @ t # ys" using split_list [OF assms(1)] by blast
  have "nat (t_maxUses t - t_useCount t) > nat (t_maxUses t - (t_useCount t + 1))"
    using assms(3) by (simp add: claim_open_def)
  then show ?thesis using le [of xs] le [of ys] assms(2,3)
    by (simp add: rows update_where_append update_where_Cons)
qed

lemma uses_left_frame: "uses_left h (update_where P (\<lambda>t. t\<lparr>t_frameId := v\<rparr>) rows) = uses_left h rows"
  by (induction rows) (simp_all add: update_where_Cons)

lemma claim_enrollment_step:
  "length (frames (fst (enrollWithClaimToken x env rq u input s d))) + uses_left (hashSecret x s) (claimTokens (fst (enrollWithClaimToken x env rq u input s d)))
   \<le> length (frames d) + uses_left (hashSecret x s) (claimTokens d)"
proof -
  obtain d' r where e: "enrollWithClaimToken x env rq u input s d = (d', r)" by force
  show ?thesis
  proof (cases "rs_status r = 200")
    case True
    from claim_enrollment_outcome [OF e True] show ?thesis unfolding claim_outcome_def
      using uses_left_redeem [where h = "hashSecret x s" and now = "we_now env" and rows = "claimTokens d"]
      by (fastforce simp: e uses_left_frame)
  next
    case False
    then have "d' = d" using e
      by (auto simp: enrollWithClaimToken_def replayEnrollment_def Let_def dest: transaction_refused
          split: option.splits prod.splits enroll_result.splits if_splits)
    then show ?thesis by (simp add: e)
  qed
qed

text \<open>A run of enrollment requests, each in its own environment.\<close>

fun enroll_all :: "ext \<Rightarrow> (web_env \<times> web_request) list \<Rightarrow> db \<Rightarrow> db" where
  "enroll_all x [] d = d"
| "enroll_all x ((env, rq) # later) d = enroll_all x later (fst (enroll x env rq d))"

text \<open>
  C23.  However many requests present a claim token, in whatever order, with whatever keys and replays,
  they add at most as many frames as the token has uses left.
\<close>

theorem enrollment_within_budget:
  assumes "keyed t_tokenHash (claimTokens d)" and "t \<in> set (claimTokens d)" and "t_tokenHash t = hashSecret x s"
    and "\<forall>(env, rq)\<in>set requests. parseOptionalString (map_of (readJsonObject rq) ''claim_token'') = Some s"
  shows "length (frames (enroll_all x requests d)) \<le> length (frames d) + nat (t_maxUses t - t_useCount t)"
proof -
  have run: "length (frames (enroll_all x requests d)) + uses_left (hashSecret x s) (claimTokens (enroll_all x requests d))
      \<le> length (frames d) + uses_left (hashSecret x s) (claimTokens d)"
    using assms(4)
  proof (induction requests arbitrary: d)
    case (Cons request later)
    obtain env rq where r: "request = (env, rq)" by force
    let ?d = "fst (enroll x env rq d)"
    have "?d = d \<or> (\<exists>u input. ?d = fst (enrollWithClaimToken x env rq u input s d))"
      using Cons.prems r by (auto simp: enroll_def Let_def split: option.splits)
    then have "length (frames ?d) + uses_left (hashSecret x s) (claimTokens ?d)
        \<le> length (frames d) + uses_left (hashSecret x s) (claimTokens d)"
      using claim_enrollment_step by auto
    with Cons.IH [of ?d] Cons.prems r show ?case by simp
  qed simp
  have "uses_left (hashSecret x s) (claimTokens d) = nat (t_maxUses t - t_useCount t)"
  proof -
    obtain xs ys where rows: "claimTokens d = xs @ t # ys" using split_list [OF assms(2)] by blast
    have "t_tokenHash q \<noteq> hashSecret x s" if "q \<in> set xs \<or> q \<in> set ys" for q
      using that assms(1,3) by (auto simp: rows keyed_def image_iff)
    then have "uses_left (hashSecret x s) xs = 0" "uses_left (hashSecret x s) ys = 0"
      by (simp_all add: uses_left_def)
    then show ?thesis using assms(3) by (simp add: rows)
  qed
  with run show ?thesis by simp
qed

theorem enrollment_within_budget_witness:
  "length (frames (enroll_all sample_ext [(demo_env 9, enroll_request), (demo_env 10, enroll_request), (demo_env 11, enroll_request)]
     (empty_db\<lparr>claimTokens := [demo_claim]\<rparr>))) \<le> 2"
proof -
  let ?d = "empty_db\<lparr>claimTokens := [demo_claim]\<rparr>"
  let ?rs = "[(demo_env 9, enroll_request), (demo_env 10, enroll_request), (demo_env 11, enroll_request)]"
  have "length (frames (enroll_all sample_ext ?rs ?d)) \<le> length (frames ?d) + nat (t_maxUses demo_claim - t_useCount demo_claim)"
    by (rule enrollment_within_budget [where s = "''FRCT_x''"])
      (simp_all add: keyed_def enroll_request_parses sample_ext_simps demo_claim_def)
  then show ?thesis by (simp add: demo_claim_def empty_db_def)
qed

section \<open>A lost response\<close>

lemma update_where_hit: "r \<in> set rows \<Longrightarrow> P r \<Longrightarrow> f r \<in> set (update_where P f rows)"
  by (auto simp: set_update_where)

lemma claim_row_spent:
  assumes "keyed t_tokenHash rows" and "t \<in> set rows" and "t_tokenHash t = h" and "claim_open now t" and "0 \<le> t_useCount t"
  shows "\<exists>q. select_one (\<lambda>t. t_tokenHash t = h) (update_where P (\<lambda>t. t\<lparr>t_frameId := v\<rparr>)
      (update_where (\<lambda>t. t_tokenHash t = h \<and> claim_open now t) (redeem_row now) rows)) = Some q
    \<and> t_accountId q = t_accountId t \<and> t_expiresAt q = t_expiresAt t \<and> t_useCount q \<noteq> 0"
proof -
  let ?new = "update_where P (\<lambda>t. t\<lparr>t_frameId := v\<rparr>) (update_where (\<lambda>t. t_tokenHash t = h \<and> claim_open now t) (redeem_row now) rows)"
  have "redeem_row now t \<in> set (update_where (\<lambda>t. t_tokenHash t = h \<and> claim_open now t) (redeem_row now) rows)"
    using assms(2,3,4) by (intro update_where_hit) simp_all
  then have "(if P (redeem_row now t) then (redeem_row now t)\<lparr>t_frameId := v\<rparr> else redeem_row now t) \<in> set ?new"
    unfolding set_update_where [of P] by (rule imageI)
  moreover have "t_tokenHash (if P (redeem_row now t) then (redeem_row now t)\<lparr>t_frameId := v\<rparr> else redeem_row now t) = h"
    using assms(3) by simp
  ultimately have "\<exists>q. select_one (\<lambda>t. t_tokenHash t = h) ?new = Some q"
    by (rule select_one_ex [where P = "\<lambda>t. t_tokenHash t = h"])
  then obtain q where q: "select_one (\<lambda>t. t_tokenHash t = h) ?new = Some q" ..
  from select_one_Some [OF q] obtain t' where t': "t' \<in> set rows" "t_tokenHash t' = h"
      "q = redeem_row now t' \<or> q = (redeem_row now t')\<lparr>t_frameId := v\<rparr> \<or> \<not> claim_open now t'"
    by (auto simp: set_update_where split: if_splits)
  have "t' = t" using keyed_eq [OF assms(1) t'(1) assms(2)] t'(2) assms(3) by simp
  with q t'(3) assms(4,5) show ?thesis by auto
qed

lemma replay_finds:
  assumes "f_status f = FramePending" and "l_id l = f_linkedClientId f" and "l_revokedAt l = None"
    and "frames d = old @ [f]" and "l \<in> set (linkedClients d)"
    and "\<forall>q\<in>set old. \<not> (f_publicKey q = f_publicKey f \<and> f_status q = FramePending)"
  shows "replay_frame (f_accountId f) (f_publicKey f) d = Some f"
proof -
  let ?P = "\<lambda>(q, l). l_id l = f_linkedClientId q \<and> f_accountId q = f_accountId f \<and> f_publicKey q = f_publicKey f
      \<and> f_status q = FramePending \<and> l_revokedAt l = None"
  have pair: "(f, l) \<in> set (List.product (frames d) (linkedClients d))" "?P (f, l)" using assms by simp_all
  from select_one_ex [of "(f, l)" _ ?P, OF this] obtain p where p: "select_one ?P (List.product (frames d) (linkedClients d)) = Some p" ..
  obtain q k where qk: "p = (q, k)" by force
  with select_one_Some [OF p] have "q \<in> set (frames d)" "f_publicKey q = f_publicKey f" "f_status q = FramePending" by auto
  then have "fst p = f" using assms(4,6) qk by auto
  then show ?thesis using p by (simp add: replay_frame_def)
qed

text \<open>
  A device whose enrollment answer was lost retries with the same token and key, while the owner has
  not confirmed the frame and the token has not expired: it gets the same frame and a fresh access token,
  no use is spent and no frame added, and for the grace window both access tokens belong to the client.
\<close>

lemma lost_enrollment_replayed:
  assumes e1: "enrollWithClaimToken x env1 rq1 u1 input1 s d = (d1, r1)" "frames d1 \<noteq> frames d"
    and e2: "enrollWithClaimToken x env2 rq2 u2 input2 s d1 = (d2, r2)" "ei_publicKey input2 = ei_publicKey input1"
      "rs_status r2 \<noteq> 503"
    and t: "keyed t_tokenHash (claimTokens d)" "t \<in> set (claimTokens d)" "t_tokenHash t = hashSecret x s" "0 \<le> t_useCount t"
      "we_now env2 < t_expiresAt t"
    and new_key: "\<forall>q\<in>set (frames d). \<not> (f_publicKey q = ei_publicKey input1 \<and> f_status q = FramePending)"
  shows "\<exists>f plain1 plain2. r1 = claim_enrolled plain1 u1 f \<and> r2 = claim_enrolled plain2 u2 f
    \<and> frames d2 = frames d1 \<and> claimTokens d2 = claimTokens d1
    \<and> (\<exists>l\<in>set (linkedClients d2). l_id l = f_linkedClientId f
         \<and> (\<forall>now < we_now env2 + rotationGraceWindowSeconds * 1000.
               token_matches now (hashSecret x plain1) l \<and> token_matches now (hashSecret x plain2) l))"
proof -
  have "rs_status r1 = 200"
  proof (rule ccontr)
    assume "rs_status r1 \<noteq> 200"
    with e1(1) have "d1 = d"
      by (auto simp: enrollWithClaimToken_def replayEnrollment_def Let_def dest: transaction_refused
          split: option.splits prod.splits enroll_result.splits if_splits)
    with e1(2) show False by simp
  qed
  from claim_enrollment_outcome [OF e1(1) this] e1(2) obtain token plain1 f l where
    tok: "token \<in> set (claimTokens d)" "t_tokenHash token = hashSecret x s" "claim_open (we_now env1) token"
    and f: "r1 = claim_enrolled plain1 u1 f" "f_status f = FramePending" "f_accountId f = t_accountId token"
      "f_publicKey f = ei_publicKey input1" "l_id l = f_linkedClientId f" "l_revokedAt l = None"
      "frames d1 = frames d @ [f]" "linkedClients d1 = linkedClients d @ [l]" "l_tokenReference l = hashSecret x plain1"
      "claimTokens d1 = update_where (\<lambda>t. t_id t = t_id token) (\<lambda>t. t\<lparr>t_frameId := Some (f_id f)\<rparr>)
         (update_where (\<lambda>t. t_tokenHash t = hashSecret x s \<and> claim_open (we_now env1) t) (redeem_row (we_now env1)) (claimTokens d))"
    by (auto simp: claim_outcome_def)
  have "token = t" using keyed_eq [OF t(1) tok(1) t(2)] tok(2) t(3) by simp
  with claim_row_spent [OF t(1,2,3) _ t(4), of "we_now env1" "\<lambda>q. t_id q = t_id token" "Some (f_id f)"] tok(3) f(10)
  obtain q where q: "select_one (\<lambda>t. t_tokenHash t = hashSecret x s) (claimTokens d1) = Some q"
    "t_accountId q = t_accountId t" "t_expiresAt q = t_expiresAt t" "t_useCount q \<noteq> 0" by auto
  have finds: "replay_frame (t_accountId t) (ei_publicKey input2) d1 = Some f"
    using replay_finds [OF f(2,5,6,7)] f(3,4,8) new_key e2(2) \<open>token = t\<close> by simp
  obtain sealed plain2 ref where a: "createEncryptedSecretToken x ''fc_link'' (we_random env2 0) = Some (sealed, plain2, ref)"
    using e2(1,3) by (auto simp: enrollWithClaimToken_def split: option.splits)
  then have ref: "ref = hashSecret x plain2" by (auto simp: createEncryptedSecretToken_def Let_def)
  have out: "d2 = d1\<lparr>linkedClients := update_where (\<lambda>l. l_id l = f_linkedClientId f) (rotate_row (we_now env2) ref) (linkedClients d1)\<rparr>"
    "r2 = claim_enrolled plain2 u2 f"
    using e2(1) a q finds t(5) by (auto simp: enrollWithClaimToken_def replayEnrollment_def)
  have "rotate_row (we_now env2) ref l \<in> set (linkedClients d2)"
    using f(5,8) by (simp add: out(1) set_update_where)
  moreover have "l_id (rotate_row (we_now env2) ref l) = f_linkedClientId f" by (simp add: rotate_row_def f(5))
  moreover have "token_matches now (hashSecret x plain1) (rotate_row (we_now env2) ref l)
      \<and> token_matches now (hashSecret x plain2) (rotate_row (we_now env2) ref l)"
    if "now < we_now env2 + rotationGraceWindowSeconds * 1000" for now
    using that f(6,9) ref by (simp add: token_matches_def rotate_row_def)
  ultimately show ?thesis using f(1) out by (intro exI conjI) auto
qed

end
