(* ===== verification/DeviceFlow.thy ===== *)
theory DeviceFlow imports Enrollment begin

text \<open>
  The device authorization flow (\<open>device-flow.ts\<close> and the routes under \<open>app/api/device\<close>): a device
  starts a request, the signed-in user approves or denies it by its user code, and the device polls with
  its device code until it may redeem the link token, once.  A handler reads the request row and later
  writes it; the second part takes the row it read as an argument, so that other handlers may run in
  between.
\<close>

section \<open>User codes\<close>

definition userCodeAlphabet :: string where
  "userCodeAlphabet = ''ABCDEFGHJKLMNPQRSTUVWXYZ23456789''"

definition normalizeUserCode :: "string \<Rightarrow> string" where
  "normalizeUserCode value = map ascii_upper_char (filter is_alnum value)"

definition formatUserCode :: "string \<Rightarrow> string" where
  "formatUserCode value =
     (let normalized = take 8 (normalizeUserCode value) in take 4 normalized @ ''-'' @ drop 4 normalized)"

definition maskUserCode :: "string \<Rightarrow> string" where
  "maskUserCode value = (let normalized = take 8 (normalizeUserCode value) in take 4 normalized @ ''-****'')"

definition hashUserCode :: "ext \<Rightarrow> string \<Rightarrow> string" where
  "hashUserCode x userCode = hmac_user_code x userCode"

definition code_row :: "ext \<Rightarrow> string \<Rightarrow> db \<Rightarrow> device_request option" where
  "code_row x userCode d = select_one (\<lambda>r. d_userCodeHash r = hashUserCode x userCode) (deviceRequests d)"

text \<open>\<open>draw i\<close> are the eight random indices of attempt \<open>i\<close>; \<open>None\<close> is the error after eight attempts.\<close>

fun unique_code_from :: "ext \<Rightarrow> (nat \<Rightarrow> nat list) \<Rightarrow> db \<Rightarrow> nat \<Rightarrow> nat \<Rightarrow> string option" where
  "unique_code_from x draw d attempt 0 = None"
| "unique_code_from x draw d attempt (Suc left) =
     (let display = formatUserCode (map (\<lambda>i. userCodeAlphabet ! i) (draw attempt))
      in case code_row x (normalizeUserCode display) d of
           None \<Rightarrow> Some display
         | Some _ \<Rightarrow> unique_code_from x draw d (attempt + 1) left)"

definition generateUniqueUserCode :: "ext \<Rightarrow> (nat \<Rightarrow> nat list) \<Rightarrow> db \<Rightarrow> string option" where
  "generateUniqueUserCode x draw d = unique_code_from x draw d 0 8"

section \<open>What the device says\<close>

definition isLocalHostname :: "string \<Rightarrow> bool" where
  "isLocalHostname hostname =
     (let h0 = js_lower (js_trim hostname); h1 = (if js_starts_with ''['' h0 then drop 1 h0 else h0);
          host = (if js_ends_with '']'' h1 then butlast h1 else h1)
      in if host = [] then False
         else if host = ''localhost'' \<or> js_ends_with ''.localhost'' host \<or> js_ends_with ''.local'' host then True
         else if host = ''::1'' \<or> js_starts_with ''fe80:'' host \<or> js_starts_with ''fc'' host \<or> js_starts_with ''fd'' host
         then True
         else (let parts = js_split (CHR ''.'') host
               in if \<not> (length parts = 4 \<and> list_all octet_text parts) then False
                  else (let octets = map digits_int parts; a = octets ! 0; b = octets ! 1
                        in if list_ex (\<lambda>n. n > 255) octets then False
                           else if a = 127 \<or> a = 10 then True
                           else if a = 192 \<and> b = 168 then True
                           else if a = 172 \<and> b \<ge> 16 \<and> b \<le> 31 then True
                           else a = 169 \<and> b = 254)))"

definition safeLocalOrigin :: "ext \<Rightarrow> json option \<Rightarrow> string option" where
  "safeLocalOrigin x value =
     (case value of
        Some (JStr s) \<Rightarrow>
          if js_trim s = [] then None
          else (case parse_url x (js_trim s) of
                  None \<Rightarrow> None
                | Some url \<Rightarrow>
                    if u_protocol url \<noteq> ''http:'' \<and> u_protocol url \<noteq> ''https:'' then None
                    else if u_username url \<noteq> [] \<or> u_password url \<noteq> [] then None
                    else if \<not> isLocalHostname (u_hostname url) then None
                    else Some (u_origin url))
      | _ \<Rightarrow> None)"

definition parseClientKind :: "json option \<Rightarrow> string list \<Rightarrow> string" where
  "parseClientKind value scopes =
     (if value = Some (JStr ''backend'') then ''backend'' else if value = Some (JStr ''frame'') then ''frame''
      else if ''frame:link'' \<in> set scopes then ''frame'' else ''backend'')"

definition parseScopes :: "json option \<Rightarrow> string list" where
  "parseScopes value =
     (case value of
        Some (JArr vs) \<Rightarrow>
          (let scopes = filter (\<lambda>s. s \<in> set allowedDeviceScopes) (map js_trim (strings_of vs))
           in if length scopes > 0 then scopes else defaultDeviceScopes)
      | _ \<Rightarrow> defaultDeviceScopes)"

definition metadataFromBody :: "fields \<Rightarrow> fields" where
  "metadataFromBody body =
     opt_field ''capabilities'' (map_of body ''capabilities'')
     @ opt_field ''reportedFrameosVersion'' (map_option JStr (parseOptionalString (map_of body ''reported_frameos_version'')))"

text \<open>\<open>replace("-", "")\<close> removes the first dash.\<close>

definition remove_dash :: "string \<Rightarrow> string" where
  "remove_dash s = takeWhile (\<lambda>c. c \<noteq> CHR ''-'') s @ drop 1 (dropWhile (\<lambda>c. c \<noteq> CHR ''-'') s)"

text \<open>\<open>a ?? b\<close>\<close>

definition nullish :: "json option \<Rightarrow> json option \<Rightarrow> json option" where
  "nullish a b = (case a of None \<Rightarrow> b | Some JNull \<Rightarrow> b | Some v \<Rightarrow> Some v)"

section \<open>Starting a request\<close>

definition deviceExpiresInSeconds :: int where "deviceExpiresInSeconds = 10 * 60"
definition deviceIntervalSeconds :: int where "deviceIntervalSeconds = 5"

text \<open>An exception that leaves the handler: the framework answers 500.\<close>

definition server_error :: http_response where
  "server_error = \<lparr>rs_status = 500, rs_body = JNull\<rparr>"

definition start_row :: "ext \<Rightarrow> web_env \<Rightarrow> fields \<Rightarrow> string \<Rightarrow> string \<Rightarrow> device_request" where
  "start_row x env body deviceCode userCode =
     (let requestedScopes = parseScopes (map_of body ''scopes'');
          clientKind = parseClientKind (map_of body ''client_kind'') requestedScopes;
          publicDisplayName = take 120 (parseString (nullish (map_of body ''public_display_name'') (map_of body ''display_name''))
            (if clientKind = ''frame'' then ''FrameOS frame'' else ''FrameOS backend''))
      in \<lparr>d_id = we_uuid env 0, d_approvedAt = None, d_approvedByAccountId = None,
           d_backendMetadata = JObj (metadataFromBody body), d_clientKind = clientKind, d_deniedAt = None,
           d_deviceCodeHash = hashSecret x deviceCode, d_expiresAt = we_now env + deviceExpiresInSeconds * 1000,
           d_intervalSeconds = deviceIntervalSeconds, d_lastPollAt = None, d_linkedClientId = None,
           d_localOrigin = safeLocalOrigin x (map_of body ''local_origin''), d_pollCount = 0,
           d_displayName = publicDisplayName, d_redeemedAt = None, d_requestedScopes = requestedScopes,
           d_status = AuthPending, d_tokenReference = None, d_upgradeLinkedClientId = None,
           d_userCodeDisplay = maskUserCode userCode, d_userCodeHash = hashUserCode x (remove_dash userCode),
           d_createdAt = we_now env, d_updatedAt = we_now env\<rparr>)"

definition device_start :: "ext \<Rightarrow> web_env \<Rightarrow> (nat \<Rightarrow> nat list) \<Rightarrow> string \<Rightarrow> web_request \<Rightarrow> db \<Rightarrow> db \<times> http_response" where
  "device_start x env draw verificationUri rq d =
     (let body = readJsonObject rq
      in case generateUniqueUserCode x draw d of
           None \<Rightarrow> (d, server_error)
         | Some userCode \<Rightarrow>
             (let deviceCode = createSecretToken ''fc_device'' (we_random env 0)
              in (d\<lparr>deviceRequests := deviceRequests d @ [start_row x env body deviceCode userCode]\<rparr>,
                  jsonOk [(''device_code'', JStr deviceCode), (''expires_in'', num_of_int deviceExpiresInSeconds),
                    (''interval'', num_of_int deviceIntervalSeconds), (''user_code'', JStr userCode),
                    (''verification_uri'', JStr verificationUri),
                    (''verification_uri_complete'', JStr (verificationUri @ ''?user_code='' @ userCode))])))"

definition device_start_route ::
  "ext \<Rightarrow> web_env \<Rightarrow> (nat \<Rightarrow> nat list) \<Rightarrow> string \<Rightarrow> web_request \<Rightarrow> world \<Rightarrow> world \<times> http_response" where
  "device_start_route x env draw uri rq =
     limited_route env rq ''device:start'' 20 (15 * 60 * 1000) (device_start x env draw uri rq)"

section \<open>Looking at a request\<close>

definition auth_status_text :: "auth_status \<Rightarrow> string" where
  "auth_status_text s = (case s of AuthPending \<Rightarrow> ''pending'' | AuthApproved \<Rightarrow> ''approved'' | AuthDenied \<Rightarrow> ''denied''
     | AuthExpired \<Rightarrow> ''expired'')"

definition expire_request :: "time \<Rightarrow> device_request \<Rightarrow> db \<Rightarrow> db" where
  "expire_request now dr d = d\<lparr>deviceRequests := update_where (\<lambda>r. d_id r = d_id dr)
     (\<lambda>r. r\<lparr>d_status := AuthExpired, d_updatedAt := now\<rparr>) (deviceRequests d)\<rparr>"

definition device_lookup :: "ext \<Rightarrow> web_env \<Rightarrow> web_request \<Rightarrow> db \<Rightarrow> db \<times> http_response" where
  "device_lookup x env rq d =
     (case readSession x env rq d of
        None \<Rightarrow> (d, jsonError ''login_required'' 401 [])
      | Some profile \<Rightarrow>
          if session_account profile = None then (d, jsonError ''login_required'' 401 [])
          else (let userCode = normalizeUserCode (case map_of (rq_query rq) ''user_code'' of None \<Rightarrow> [] | Some c \<Rightarrow> c)
                in if length userCode \<noteq> 8 then (d, jsonError ''invalid_user_code'' 400 [])
                   else (case code_row x userCode d of
                           None \<Rightarrow> (d, jsonError ''invalid_user_code'' 404 [])
                         | Some dr \<Rightarrow>
                             (let late = (d_status dr = AuthPending \<and> d_expiresAt dr \<le> we_now env);
                                  status = (if late then AuthExpired else d_status dr)
                              in (if late then expire_request (we_now env) dr d else d,
                                  jsonOk [(''client_kind'', JStr (d_clientKind dr)), (''expires_at'', JStr (iso_text (d_expiresAt dr))),
                                    (''local_origin'', json_of_str (d_localOrigin dr)),
                                    (''public_display_name'', JStr (d_displayName dr)),
                                    (''requested_scopes'', JArr (map JStr (d_requestedScopes dr))),
                                    (''scope_change'', JBool (case d_upgradeLinkedClientId dr of Some u \<Rightarrow> u \<noteq> [] | None \<Rightarrow> False)),
                                    (''signed_in'', JBool True), (''status'', JStr (auth_status_text status)),
                                    (''user_code'', JStr (formatUserCode userCode))])))))"

definition device_lookup_route :: "ext \<Rightarrow> web_env \<Rightarrow> web_request \<Rightarrow> world \<Rightarrow> world \<times> http_response" where
  "device_lookup_route x env rq = limited_route env rq ''device:request'' 60 (15 * 60 * 1000) (device_lookup x env rq)"

section \<open>Deciding a request\<close>

definition metadataRecord :: "json \<Rightarrow> fields" where
  "metadataRecord value = (case value of JObj kvs \<Rightarrow> kvs | _ \<Rightarrow> [])"

text \<open>The row is still pending, and unexpired, at the moment of the write.\<close>

definition decidable :: "time \<Rightarrow> device_request \<Rightarrow> device_request \<Rightarrow> bool" where
  "decidable now dr r \<longleftrightarrow> d_id r = d_id dr \<and> d_status r = AuthPending \<and> d_expiresAt r > now"

definition approve_row :: "time \<Rightarrow> uuid \<Rightarrow> device_request \<Rightarrow> device_request" where
  "approve_row now accountId r = r\<lparr>d_approvedAt := Some now, d_approvedByAccountId := Some accountId,
     d_status := AuthApproved, d_updatedAt := now\<rparr>"

definition deny_row :: "time \<Rightarrow> uuid \<Rightarrow> device_request \<Rightarrow> device_request" where
  "deny_row now accountId r = r\<lparr>d_approvedByAccountId := Some accountId, d_deniedAt := Some now,
     d_status := AuthDenied, d_updatedAt := now\<rparr>"

definition record_consent :: "uuid \<Rightarrow> consent_decision \<Rightarrow> uuid option \<Rightarrow> string list \<Rightarrow> db \<Rightarrow> db" where
  "record_consent accountId decision lid scopes d =
     d\<lparr>consentEvents := consentEvents d @ [\<lparr>ce_accountId = Some accountId, ce_decision = decision,
        ce_linkedClientId = lid, ce_scopes = scopes\<rparr>]\<rparr>"

definition set_scopes_row :: "time \<Rightarrow> json \<Rightarrow> string list \<Rightarrow> linked_client \<Rightarrow> linked_client" where
  "set_scopes_row now metadata scopes l =
     l\<lparr>l_metadata := JObj (obj_spread (metadataRecord metadata) [(''requestedScopes'', JArr (map JStr scopes))]),
       l_updatedAt := now\<rparr>"

text \<open>A request to change the scopes of the link \<open>lid\<close>.\<close>

definition approve_upgrade ::
  "ext \<Rightarrow> web_env \<Rightarrow> web_request \<Rightarrow> uuid \<Rightarrow> fields \<Rightarrow> device_request \<Rightarrow> uuid \<Rightarrow> db \<Rightarrow> db \<times> http_response" where
  "approve_upgrade x env rq accountId profile dr lid d =
     (case select_one (\<lambda>l. l_id l = lid) (linkedClients d) of
        None \<Rightarrow> (d, jsonError ''linked_client_required'' 403 [])
      | Some target \<Rightarrow>
          if l_accountId target \<noteq> accountId \<or> l_revokedAt target \<noteq> None
          then (d, jsonError ''linked_client_required'' 403 [])
          else if \<not> (\<exists>r\<in>set (deviceRequests d). decidable (we_now env) dr r)
          then (d, jsonError ''device_request_conflict'' 409 [])
          else (let d1 = d\<lparr>deviceRequests := update_where (decidable (we_now env) dr)
                        (\<lambda>r. (approve_row (we_now env) accountId r)\<lparr>d_linkedClientId := Some (l_id target)\<rparr>) (deviceRequests d),
                      linkedClients := update_where (\<lambda>l. l_id l = l_id target)
                        (set_scopes_row (we_now env) (l_metadata target) (d_requestedScopes dr)) (linkedClients d)\<rparr>;
                    d2 = record_consent accountId ConsentApproved (Some (l_id target)) (d_requestedScopes dr) d1
                in (recordAuditEvent rq (Some accountId) (session_actor accountId profile) ''linked_client.scopes_updated''
                      (JObj [(''scopes'', JArr (map JStr (d_requestedScopes dr)))])
                      (JObj [(''linkedClientId'', JStr (l_id target)), (''userCode'', JStr (d_userCodeDisplay dr))]) d2,
                    jsonOk [(''linked_client_id'', JStr (l_id target)), (''status'', JStr ''approved'')])))"

definition approver_metadata :: "uuid \<Rightarrow> fields \<Rightarrow> device_request \<Rightarrow> fields" where
  "approver_metadata accountId profile dr =
     obj_spread
       [(''approvedBy'', JObj ([(''accountId'', JStr accountId), (''email'', field_or_null profile ''email''),
           (''emailVerified'', case nullish (map_of profile ''emailVerified'') None of None \<Rightarrow> JBool False | Some v \<Rightarrow> v),
           (''name'', field_or_null profile ''name'')]
           @ opt_field ''providerIssuer'' (map_of profile ''providerIssuer'')
           @ opt_field ''providerSubject'' (map_of profile ''providerSubject''))),
        (''deviceAuthorizationRequestId'', JStr (d_id dr)),
        (''requestedScopes'', JArr (map JStr (d_requestedScopes dr)))]
       (metadataRecord (d_backendMetadata dr))"

definition device_linked_client ::
  "web_env \<Rightarrow> uuid \<Rightarrow> fields \<Rightarrow> device_request \<Rightarrow> string \<Rightarrow> string \<Rightarrow> linked_client" where
  "device_linked_client env accountId profile dr sealed reference =
     (new_linked_client (we_uuid env 0) accountId (d_clientKind dr) (JObj (approver_metadata accountId profile dr))
        (d_displayName dr) reference (we_now env))
       \<lparr>l_encryptedRefreshToken := Some sealed, l_lastTokenRotationAt := Some (we_now env), l_localOrigin := d_localOrigin dr\<rparr>"

text \<open>A request for a new link: the claim, the linked client and the request row in one transaction.\<close>

definition approve_link ::
  "ext \<Rightarrow> web_env \<Rightarrow> web_request \<Rightarrow> uuid \<Rightarrow> fields \<Rightarrow> device_request \<Rightarrow> db \<Rightarrow> db \<times> http_response" where
  "approve_link x env rq accountId profile dr d =
     (case createEncryptedSecretToken x ''fc_link'' (we_random env 0) of
        None \<Rightarrow> (d, jsonError ''encryption_not_configured'' 503 [])
      | Some (sealed, plain, reference) \<Rightarrow>
          if \<not> (\<exists>r\<in>set (deviceRequests d). decidable (we_now env) dr r)
          then (d, jsonError ''device_request_conflict'' 409 [])
          else (let metadata = metadataRecord (d_backendMetadata dr);
                    l = device_linked_client env accountId profile dr sealed reference;
                    backend = \<lparr>b_id = we_uuid env 1,
                      b_capabilities = (case nullish (map_of metadata ''capabilities'') None of None \<Rightarrow> JObj [] | Some c \<Rightarrow> c),
                      b_lastHealthPayload = JNull, b_lastSyncAt = None, b_linkedClientId = l_id l,
                      b_frameosVersion = str_of (map_of metadata ''reportedFrameosVersion''), b_updatedAt = we_now env\<rparr>;
                    d1 = d\<lparr>deviceRequests := update_where (\<lambda>r. d_id r = d_id dr)
                        (\<lambda>r. r\<lparr>d_linkedClientId := Some (l_id l), d_tokenReference := Some reference, d_updatedAt := we_now env\<rparr>)
                        (update_where (decidable (we_now env) dr) (approve_row (we_now env) accountId) (deviceRequests d)),
                      linkedClients := linkedClients d @ [l], connectedBackends := connectedBackends d @ [backend]\<rparr>;
                    d2 = record_consent accountId ConsentApproved (Some (l_id l)) (d_requestedScopes dr) d1
                in (recordAuditEvent rq (Some accountId) (session_actor accountId profile) ''device_authorization.approved''
                      (JObj [(''scopes'', JArr (map JStr (d_requestedScopes dr)))])
                      (JObj [(''linkedClientId'', JStr (l_id l)), (''userCode'', JStr (d_userCodeDisplay dr))]) d2,
                    jsonOk [(''linked_client_id'', JStr (l_id l)), (''status'', JStr ''approved'')])))"

definition authorize_request ::
  "ext \<Rightarrow> web_env \<Rightarrow> web_request \<Rightarrow> uuid \<Rightarrow> fields \<Rightarrow> device_request \<Rightarrow> db \<Rightarrow> db \<times> http_response" where
  "authorize_request x env rq accountId profile dr d =
     (if d_status dr \<noteq> AuthPending then (d, jsonError (''device_request_'' @ auth_status_text (d_status dr)) 409 [])
      else if d_expiresAt dr \<le> we_now env then (expire_request (we_now env) dr d, jsonError ''expired_token'' 400 [])
      else (case d_upgradeLinkedClientId dr of
              Some lid \<Rightarrow> if lid = [] then approve_link x env rq accountId profile dr d
                          else approve_upgrade x env rq accountId profile dr lid d
            | None \<Rightarrow> approve_link x env rq accountId profile dr d))"

definition deny_request ::
  "ext \<Rightarrow> web_env \<Rightarrow> web_request \<Rightarrow> uuid \<Rightarrow> fields \<Rightarrow> device_request \<Rightarrow> db \<Rightarrow> db \<times> http_response" where
  "deny_request x env rq accountId profile dr d =
     (if d_status dr \<noteq> AuthPending then (d, jsonError (''device_request_'' @ auth_status_text (d_status dr)) 409 [])
      else (let op = (\<lambda>r. d_id r = d_id dr \<and> d_status r = AuthPending)
            in if \<not> (\<exists>r\<in>set (deviceRequests d). op r) then (d, jsonError ''device_request_conflict'' 409 [])
               else (recordAuditEvent rq (Some accountId) (session_actor accountId profile) ''device_authorization.denied''
                       (JObj [(''scopes'', JArr (map JStr (d_requestedScopes dr)))])
                       (JObj [(''userCode'', JStr (d_userCodeDisplay dr))])
                       (record_consent accountId ConsentDenied None (d_requestedScopes dr)
                          (d\<lparr>deviceRequests := update_where op (deny_row (we_now env) accountId) (deviceRequests d)\<rparr>)),
                     jsonOk [(''status'', JStr ''denied'')])))"

text \<open>The body of both routes: the code of the body, its row, the decision on it.\<close>

definition decide_by_code ::
  "ext \<Rightarrow> web_request \<Rightarrow> (device_request \<Rightarrow> db \<Rightarrow> db \<times> http_response) \<Rightarrow> db \<Rightarrow> db \<times> http_response" where
  "decide_by_code x rq decide d =
     (let userCode = normalizeUserCode (case map_of (readJsonObject rq) ''user_code'' of Some (JStr c) \<Rightarrow> c | _ \<Rightarrow> [])
      in if length userCode \<noteq> 8 then (d, jsonError ''invalid_user_code'' 400 [])
         else (case code_row x userCode d of
                 None \<Rightarrow> (d, jsonError ''invalid_user_code'' 404 [])
               | Some dr \<Rightarrow> decide dr d))"

text \<open>The guards of both routes, which also cap the account.\<close>

definition decision_route ::
  "ext \<Rightarrow> web_env \<Rightarrow> web_request \<Rightarrow> string \<Rightarrow> (uuid \<Rightarrow> fields \<Rightarrow> db \<Rightarrow> db \<times> http_response) \<Rightarrow> world \<Rightarrow> world \<times> http_response" where
  "decision_route x env rq action body w =
     (case csrfResponse env rq of
        Some r \<Rightarrow> (w, r)
      | None \<Rightarrow>
          (case rateLimitResponse env rq action 30 (15 * 60 * 1000) w of
             (w1, Some r) \<Rightarrow> (w1, r)
           | (w1, None) \<Rightarrow>
               (case readSession x env rq (w_db w1) of
                  None \<Rightarrow> (w1, jsonError ''login_required'' 401 [])
                | Some profile \<Rightarrow>
                    (case session_account profile of
                       None \<Rightarrow> (w1, jsonError ''login_required'' 401 [])
                     | Some accountId \<Rightarrow>
                         (case identityRateLimitResponse env accountId action 30 (15 * 60 * 1000) w1 of
                            (w2, Some r) \<Rightarrow> (w2, r)
                          | (w2, None) \<Rightarrow>
                              (case requireDatabase env of
                                 Some r \<Rightarrow> (w2, r)
                               | None \<Rightarrow> (let (d, r) = body accountId profile (w_db w2) in (w2\<lparr>w_db := d\<rparr>, r))))))))"

definition device_authorize_route :: "ext \<Rightarrow> web_env \<Rightarrow> web_request \<Rightarrow> world \<Rightarrow> world \<times> http_response" where
  "device_authorize_route x env rq = decision_route x env rq ''device:authorize''
     (\<lambda>accountId profile. decide_by_code x rq (authorize_request x env rq accountId profile))"

definition device_deny_route :: "ext \<Rightarrow> web_env \<Rightarrow> web_request \<Rightarrow> world \<Rightarrow> world \<times> http_response" where
  "device_deny_route x env rq = decision_route x env rq ''device:deny''
     (\<lambda>accountId profile. decide_by_code x rq (deny_request x env rq accountId profile))"

section \<open>Polling\<close>

definition approvedByClaims :: "json \<Rightarrow> json" where
  "approvedByClaims metadata =
     (case metadata of
        JObj kvs \<Rightarrow>
          (case map_of kvs ''approvedBy'' of
             Some (JObj record) \<Rightarrow>
               (case (str_of (map_of record ''providerIssuer''), str_of (map_of record ''providerSubject'')) of
                  (Some issuer, Some subject) \<Rightarrow>
                    JObj [(''account_id'', json_of_str (str_of (map_of record ''accountId''))),
                      (''email'', json_of_str (str_of (map_of record ''email''))),
                      (''email_verified'', JBool (map_of record ''emailVerified'' = Some (JBool True))),
                      (''name'', json_of_str (str_of (map_of record ''name''))),
                      (''provider_issuer'', JStr issuer), (''provider_subject'', JStr subject), (''sub'', JStr subject)]
                | _ \<Rightarrow> JNull)
           | _ \<Rightarrow> JNull)
      | _ \<Rightarrow> JNull)"

definition present :: "string option \<Rightarrow> bool" where
  "present v \<longleftrightarrow> (case v of None \<Rightarrow> False | Some s \<Rightarrow> s \<noteq> [])"

definition redeemable_row :: "device_request \<Rightarrow> device_request \<Rightarrow> bool" where
  "redeemable_row dr r \<longleftrightarrow> d_id r = d_id dr \<and> d_redeemedAt r = None"

definition redeem_request :: "time \<Rightarrow> device_request \<Rightarrow> db \<Rightarrow> db" where
  "redeem_request now dr d = d\<lparr>deviceRequests := update_where (redeemable_row dr)
     (\<lambda>r. r\<lparr>d_redeemedAt := Some now, d_updatedAt := now\<rparr>) (deviceRequests d)\<rparr>"

text \<open>Handing out the link token, once the redemption is claimed.\<close>

definition hand_out :: "ext \<Rightarrow> web_env \<Rightarrow> device_request \<Rightarrow> string \<Rightarrow> string \<Rightarrow> db \<Rightarrow> db \<times> http_response" where
  "hand_out x env dr lid reference d =
     (case select_one (\<lambda>l. l_id l = lid \<and> l_revokedAt l = None) (linkedClients d) of
        None \<Rightarrow> (d, jsonError ''invalid_device_code'' 400 [])
      | Some l \<Rightarrow>
          (case l_encryptedRefreshToken l of
             None \<Rightarrow> (d, jsonError ''invalid_device_code'' 400 [])
           | Some sealed \<Rightarrow>
               if sealed = [] then (d, jsonError ''invalid_device_code'' 400 [])
               else (case decrypt_secret x sealed of
                       None \<Rightarrow> (d, server_error)
                     | Some accessToken \<Rightarrow>
                         (d\<lparr>linkedClients := update_where (\<lambda>q. l_id q = l_id l)
                             (\<lambda>q. q\<lparr>l_encryptedRefreshToken := None, l_lastSeenAt := Some (we_now env), l_updatedAt := we_now env\<rparr>)
                             (linkedClients d)\<rparr>,
                          jsonOk [(''access_token'', JStr accessToken), (''approved_by'', approvedByClaims (l_metadata l)),
                            (''linked_client_id'', JStr (l_id l)), (''scope'', JStr (js_join '' '' (d_requestedScopes dr))),
                            (''token_reference'', JStr reference), (''token_type'', JStr ''Bearer'')]))))"

definition poll_request :: "ext \<Rightarrow> web_env \<Rightarrow> device_request \<Rightarrow> db \<Rightarrow> db \<times> http_response" where
  "poll_request x env dr d =
     (if d_status dr = AuthPending \<and> d_expiresAt dr \<le> we_now env
      then (expire_request (we_now env) dr d, jsonError ''expired_token'' 400 [])
      else if d_status dr = AuthPending
      then (d\<lparr>deviceRequests := update_where (\<lambda>r. d_id r = d_id dr)
              (\<lambda>r. r\<lparr>d_lastPollAt := Some (we_now env), d_pollCount := d_pollCount dr + 1, d_updatedAt := we_now env\<rparr>)
              (deviceRequests d)\<rparr>,
            \<lparr>rs_status = 428, rs_body = JObj [(''error'', JStr ''authorization_pending''),
               (''interval'', num_of_int (d_intervalSeconds dr))]\<rparr>)
      else if d_status dr = AuthDenied then (d, jsonError ''access_denied'' 403 [])
      else if d_status dr = AuthExpired then (d, jsonError ''expired_token'' 400 [])
      else if present (d_upgradeLinkedClientId dr)
      then (if \<not> (\<exists>r\<in>set (deviceRequests d). redeemable_row dr r) then (d, jsonError ''expired_token'' 400 [])
            else (redeem_request (we_now env) dr d,
                  jsonOk [(''linked_client_id'', json_of_str (d_upgradeLinkedClientId dr)),
                    (''scope'', JStr (js_join '' '' (d_requestedScopes dr))), (''status'', JStr ''approved'')]))
      else (case (d_linkedClientId dr, d_tokenReference dr) of
              (Some lid, Some reference) \<Rightarrow>
                if lid = [] \<or> reference = [] then (d, jsonError ''invalid_device_code'' 400 [])
                else if \<not> (\<exists>r\<in>set (deviceRequests d). redeemable_row dr r) then (d, jsonError ''expired_token'' 400 [])
                else hand_out x env dr lid reference (redeem_request (we_now env) dr d)
            | _ \<Rightarrow> (d, jsonError ''invalid_device_code'' 400 [])))"

definition device_poll :: "ext \<Rightarrow> web_env \<Rightarrow> string \<Rightarrow> db \<Rightarrow> db \<times> http_response" where
  "device_poll x env deviceCode d =
     (case select_one (\<lambda>r. d_deviceCodeHash r = hashSecret x deviceCode) (deviceRequests d) of
        None \<Rightarrow> (d, jsonError ''invalid_device_code'' 400 [])
      | Some dr \<Rightarrow> poll_request x env dr d)"

definition device_poll_route :: "ext \<Rightarrow> web_env \<Rightarrow> web_request \<Rightarrow> world \<Rightarrow> world \<times> http_response" where
  "device_poll_route x env rq w =
     (case requireDatabase env of
        Some r \<Rightarrow> (w, r)
      | None \<Rightarrow>
          (let deviceCode = (case map_of (readJsonObject rq) ''device_code'' of Some (JStr c) \<Rightarrow> c | _ \<Rightarrow> [])
           in if deviceCode = [] then (w, jsonError ''invalid_device_code'' 400 [])
              else (case identityRateLimitResponse env (hashSecret x deviceCode) ''device:poll'' 240 (10 * 60 * 1000) w of
                      (w1, Some r) \<Rightarrow> (w1, r)
                    | (w1, None) \<Rightarrow> (let (d, r) = device_poll x env deviceCode (w_db w1) in (w1\<lparr>w_db := d\<rparr>, r)))))"

section \<open>Revoking a link\<close>

definition revoke_link :: "web_env \<Rightarrow> web_request \<Rightarrow> uuid \<Rightarrow> fields \<Rightarrow> db \<Rightarrow> db \<times> http_response" where
  "revoke_link env rq accountId profile d =
     (let linkedClientId = (case map_of (readJsonObject rq) ''linked_client_id'' of Some (JStr c) \<Rightarrow> c | _ \<Rightarrow> [])
      in if linkedClientId = [] then (d, jsonError ''invalid_linked_client'' 400 [])
         else (case select_one (\<lambda>l. l_id l = js_lower linkedClientId \<and> l_accountId l = accountId \<and> l_revokedAt l = None)
                      (linkedClients d) of
                 None \<Rightarrow> (d, jsonError ''invalid_linked_client'' 404 [])
               | Some l \<Rightarrow>
                   (recordAuditEvent rq (Some accountId) (session_actor accountId profile) ''linked_client.revoked'' JNull
                      (JObj [(''linkedClientId'', JStr (l_id l))])
                      (d\<lparr>linkedClients := update_where (\<lambda>q. l_id q = l_id l)
                          (\<lambda>q. q\<lparr>l_revokedAt := Some (we_now env), l_updatedAt := we_now env\<rparr>) (linkedClients d)\<rparr>),
                    jsonOk [(''status'', JStr ''revoked'')])))"

definition device_revoke_route :: "ext \<Rightarrow> web_env \<Rightarrow> web_request \<Rightarrow> world \<Rightarrow> world \<times> http_response" where
  "device_revoke_route x env rq = owner_route x env rq ''device:revoke'' 30 (15 * 60 * 1000) (revoke_link env rq)"

end
