(* ===== verification/DeviceDecisions.thy ===== *)
theory DeviceDecisions imports DeviceFlow begin

text \<open>
  Concurrent decisions and redemptions of the device flow.  The locale \<open>one_winner\<close> is the contract of an
  atomic claim under interference: a win needs the claim open and closes it, and nothing reopens it.  It
  is interpreted on the handlers' second halves, run in any order on whatever rows they had read before.
\<close>

section \<open>One winner\<close>

fun winners :: "('op \<Rightarrow> 's \<Rightarrow> 's \<times> 'r) \<Rightarrow> ('op \<Rightarrow> 'r \<Rightarrow> bool) \<Rightarrow> 'op list \<Rightarrow> 's \<Rightarrow> nat" where
  "winners step wins [] s = 0"
| "winners step wins (op # ops) s =
     (let (s', r) = step op s in (if wins op r then 1 else 0) + winners step wins ops s')"

locale one_winner =
  fixes step :: "'op \<Rightarrow> 's \<Rightarrow> 's \<times> 'r" and wins :: "'op \<Rightarrow> 'r \<Rightarrow> bool" and inv :: "'s \<Rightarrow> bool"
    and is_open :: "'s \<Rightarrow> bool"
  assumes inv_step: "inv s \<Longrightarrow> inv (fst (step op s))"
    and win_open: "inv s \<Longrightarrow> wins op (snd (step op s)) \<Longrightarrow> is_open s"
    and win_closes: "inv s \<Longrightarrow> wins op (snd (step op s)) \<Longrightarrow> \<not> is_open (fst (step op s))"
    and stays_closed: "inv s \<Longrightarrow> \<not> is_open s \<Longrightarrow> \<not> is_open (fst (step op s))"
begin

lemma winners_bounded: "inv s \<Longrightarrow> winners step wins ops s \<le> (if is_open s then 1 else 0)"
proof (induction ops arbitrary: s)
  case (Cons op ops)
  let ?s = "fst (step op s)"
  have "winners step wins ops ?s \<le> (if is_open ?s then 1 else 0)"
    using Cons.IH [OF inv_step [OF Cons.prems]] .
  with Cons.prems win_open [of s op] win_closes [of s op] stays_closed [of s op] show ?case
    by (cases "wins op (snd (step op s))") (auto simp: case_prod_beta Let_def split: if_splits)
qed simp

lemma at_most_one: "inv s \<Longrightarrow> winners step wins ops s \<le> 1"
  using winners_bounded [of s ops] by (simp split: if_splits)

end

section \<open>The steps of the flow\<close>

datatype flow_op =
    Start web_env "nat \<Rightarrow> nat list" string web_request
  | Authorize web_env web_request uuid fields device_request
  | Deny web_env web_request uuid fields device_request
  | Poll web_env device_request
  | Expire time device_request
  | Revoke web_env web_request uuid fields

text \<open>An INSERT whose id exists violates the primary key and throws.\<close>

fun flow_step :: "ext \<Rightarrow> flow_op \<Rightarrow> db \<Rightarrow> db \<times> http_response" where
  "flow_step x (Start env draw uri rq) d =
     (if we_uuid env 0 \<in> d_id ` set (deviceRequests d) then (d, server_error) else device_start x env draw uri rq d)"
| "flow_step x (Authorize env rq acc profile dr) d = authorize_request x env rq acc profile dr d"
| "flow_step x (Deny env rq acc profile dr) d = deny_request x env rq acc profile dr d"
| "flow_step x (Poll env dr) d = poll_request x env dr d"
| "flow_step x (Expire now dr) d = (expire_request now dr d, server_error)"
| "flow_step x (Revoke env rq acc profile) d = revoke_link env rq acc profile d"

fun decides :: "uuid \<Rightarrow> flow_op \<Rightarrow> http_response \<Rightarrow> bool" where
  "decides k (Authorize env rq acc profile dr) r \<longleftrightarrow> d_id dr = k \<and> rs_status r = 200"
| "decides k (Deny env rq acc profile dr) r \<longleftrightarrow> d_id dr = k \<and> rs_status r = 200"
| "decides k op r \<longleftrightarrow> False"

fun redeems :: "uuid \<Rightarrow> flow_op \<Rightarrow> http_response \<Rightarrow> bool" where
  "redeems k (Poll env dr) r \<longleftrightarrow> d_id dr = k \<and> rs_status r = 200"
| "redeems k op r \<longleftrightarrow> False"

text \<open>What every step keeps of a request row: its id, a decision, a redemption.\<close>

definition request_moves :: "device_request \<Rightarrow> device_request \<Rightarrow> bool" where
  "request_moves r r' \<longleftrightarrow> d_id r' = d_id r \<and> (d_status r \<noteq> AuthPending \<longrightarrow> d_status r' \<noteq> AuthPending)
     \<and> (d_redeemedAt r \<noteq> None \<longrightarrow> d_redeemedAt r' \<noteq> None)"

lemma moves_update: "(\<And>r. P r \<Longrightarrow> request_moves r (f r)) \<Longrightarrow> list_all2 request_moves rows (update_where P f rows)"
  by (induction rows) (auto simp: update_where_Cons request_moves_def)

lemma moves_refl: "list_all2 request_moves rows rows"
  by (simp add: list.rel_refl request_moves_def)

lemma moves_trans:
  assumes "list_all2 request_moves as bs" and "list_all2 request_moves bs cs"
  shows "list_all2 request_moves as cs"
  by (rule list_all2_trans [OF _ assms]) (auto simp: request_moves_def)

lemma expire_moves: "list_all2 request_moves (deviceRequests d) (deviceRequests (expire_request now dr d))"
  unfolding expire_request_def by (simp, rule moves_update) (simp add: request_moves_def)

lemma consent_tables [simp]:
  "deviceRequests (record_consent acc dec lid sc d) = deviceRequests d"
  "linkedClients (record_consent acc dec lid sc d) = linkedClients d"
  by (simp_all add: record_consent_def)

lemma upgrade_moves: "list_all2 request_moves (deviceRequests d) (deviceRequests (fst (approve_upgrade x env rq acc profile dr lid d)))"
  by (auto simp: approve_upgrade_def Let_def moves_refl split: option.split
      intro!: moves_update) (simp_all add: request_moves_def approve_row_def)

lemma link_moves: "list_all2 request_moves (deviceRequests d) (deviceRequests (fst (approve_link x env rq acc profile dr d)))"
  by (auto simp: approve_link_def Let_def moves_refl split: option.split prod.split
      intro!: moves_trans [OF moves_update moves_update]) (simp_all add: request_moves_def approve_row_def)

lemma hand_out_requests [simp]: "deviceRequests (fst (hand_out x env dr lid ref d)) = deviceRequests d"
  by (simp add: hand_out_def split: option.split)

lemma redeem_moves: "list_all2 request_moves (deviceRequests d) (deviceRequests (redeem_request now dr d))"
  unfolding redeem_request_def by (simp, rule moves_update) (simp add: request_moves_def)

lemma poll_moves: "list_all2 request_moves (deviceRequests d) (deviceRequests (fst (poll_request x env dr d)))"
proof -
  have "list_all2 request_moves (deviceRequests d) (update_where (\<lambda>r. d_id r = d_id dr)
      (\<lambda>r. r\<lparr>d_lastPollAt := Some (we_now env), d_pollCount := d_pollCount dr + 1, d_updatedAt := we_now env\<rparr>) (deviceRequests d))"
    by (rule moves_update) (simp add: request_moves_def)
  then show ?thesis
    by (auto simp: poll_request_def moves_refl expire_moves redeem_moves split: option.split)
qed

lemma step_moves:
  "\<exists>old new. deviceRequests (fst (flow_step x op d)) = old @ new \<and> list_all2 request_moves (deviceRequests d) old
     \<and> (\<forall>r\<in>set new. d_id r \<notin> d_id ` set (deviceRequests d)) \<and> length new \<le> 1"
proof (cases "\<exists>env draw uri rq. op = Start env draw uri rq")
  case True
  then obtain env draw uri rq where op: "op = Start env draw uri rq" by blast
  have "d_id (start_row x env b c u) = we_uuid env 0" for b c u by (simp add: start_row_def Let_def)
  then have "\<exists>new. deviceRequests (fst (flow_step x op d)) = deviceRequests d @ new
      \<and> (\<forall>r\<in>set new. d_id r \<notin> d_id ` set (deviceRequests d)) \<and> length new \<le> 1"
    by (auto simp: op device_start_def Let_def split: option.split)
  then show ?thesis using moves_refl by blast
next
  case False
  have deny: "list_all2 request_moves (deviceRequests d)
      (update_where (\<lambda>r. d_id r = d_id dr \<and> d_status r = AuthPending) (deny_row now acc) (deviceRequests d))" for dr now acc
    by (rule moves_update) (simp add: request_moves_def deny_row_def)
  have "list_all2 request_moves (deviceRequests d) (deviceRequests (fst (flow_step x op d)))"
  proof (cases op)
    case (Authorize env rq acc profile dr)
    then show ?thesis
      by (auto simp: authorize_request_def moves_refl expire_moves upgrade_moves link_moves split: option.split)
  next
    case (Deny env rq acc profile dr)
    then show ?thesis by (auto simp: deny_request_def Let_def moves_refl deny)
  next
    case (Revoke env rq acc profile)
    then show ?thesis by (auto simp: revoke_link_def Let_def moves_refl split: option.split)
  qed (use False in \<open>auto simp: poll_moves expire_moves\<close>)
  then show ?thesis by (intro exI [of _ "deviceRequests (fst (flow_step x op d))"] exI [of _ "[]"]) simp
qed

lemma moves_ids: "list_all2 request_moves rows rows' \<Longrightarrow> map d_id rows' = map d_id rows"
  by (induction rule: list_all2_induct) (simp_all add: request_moves_def)

lemma step_keyed: "keyed d_id (deviceRequests d) \<Longrightarrow> keyed d_id (deviceRequests (fst (flow_step x op d)))"
proof -
  assume k: "keyed d_id (deviceRequests d)"
  obtain old new where s: "deviceRequests (fst (flow_step x op d)) = old @ new" "list_all2 request_moves (deviceRequests d) old"
      "\<forall>r\<in>set new. d_id r \<notin> d_id ` set (deviceRequests d)" "length new \<le> 1" using step_moves by blast
  from k s(2) have "keyed d_id old" "set (map d_id old) = set (map d_id (deviceRequests d))"
    using moves_ids [OF s(2)] by (simp_all add: keyed_def)
  with s(1,3,4) show ?thesis by (cases new) (auto simp: keyed_def)
qed

text \<open>The row with id \<open>k\<close>, as an open claim: a property of rows that no step creates on an old row.\<close>

definition open_row :: "(device_request \<Rightarrow> bool) \<Rightarrow> uuid \<Rightarrow> db \<Rightarrow> bool" where
  "open_row P k d \<longleftrightarrow> (\<exists>r\<in>set (deviceRequests d). d_id r = k \<and> P r)"

definition known :: "uuid \<Rightarrow> db \<Rightarrow> bool" where
  "known k d \<longleftrightarrow> keyed d_id (deviceRequests d) \<and> k \<in> d_id ` set (deviceRequests d)"

lemma known_step: "known k d \<Longrightarrow> known k (fst (flow_step x op d))"
proof -
  assume k: "known k d"
  obtain old new where s: "deviceRequests (fst (flow_step x op d)) = old @ new" "list_all2 request_moves (deviceRequests d) old"
    using step_moves by blast
  have "set (map d_id old) = set (map d_id (deviceRequests d))" using moves_ids [OF s(2)] by simp
  with k s(1) step_keyed [of d x op] show ?thesis by (auto simp: known_def)
qed

lemma closed_moves:
  assumes "list_all2 request_moves rows rows'" and "\<not> (\<exists>r\<in>set rows. d_id r = k \<and> P r)"
    and "\<And>r r'. request_moves r r' \<Longrightarrow> \<not> P r \<Longrightarrow> \<not> P r'"
  shows "\<not> (\<exists>r\<in>set rows'. d_id r = k \<and> P r)"
proof
  assume "\<exists>r\<in>set rows'. d_id r = k \<and> P r"
  then obtain r' where r': "r' \<in> set rows'" "d_id r' = k" "P r'" by blast
  with assms(1) obtain r where r: "r \<in> set rows" "request_moves r r'"
    by (metis list_all2_conv_all_nth in_set_conv_nth)
  with r' assms(2,3) show False by (auto simp: request_moves_def)
qed

lemma closed_step:
  assumes "known k d" and "\<not> open_row P k d" and "\<And>r r'. request_moves r r' \<Longrightarrow> \<not> P r \<Longrightarrow> \<not> P r'"
  shows "\<not> open_row P k (fst (flow_step x op d))"
proof -
  obtain old new where s: "deviceRequests (fst (flow_step x op d)) = old @ new" "list_all2 request_moves (deviceRequests d) old"
      "\<forall>r\<in>set new. d_id r \<notin> d_id ` set (deviceRequests d)" using step_moves by blast
  have "\<not> (\<exists>r\<in>set old. d_id r = k \<and> P r)"
    by (rule closed_moves [OF s(2) _ assms(3)]) (use assms(2) in \<open>simp_all add: open_row_def\<close>)
  with s(1,3) assms(1) show ?thesis unfolding open_row_def known_def by auto
qed

lemma claim_closes:
  assumes "keyed d_id rows" and "r \<in> set rows" and "Q r" and "d_id r = k" and "\<And>r. d_id (f r) = d_id r" and "\<And>r. \<not> P (f r)"
  shows "\<not> (\<exists>r'\<in>set (update_where Q f rows). d_id r' = k \<and> P r')"
proof
  assume "\<exists>r'\<in>set (update_where Q f rows). d_id r' = k \<and> P r'"
  then obtain r' where r': "r' \<in> set (update_where Q f rows)" "d_id r' = k" "P r'" by blast
  from in_update_whereD [OF r'(1)] show False
  proof
    assume "r' \<in> set rows \<and> \<not> Q r'"
    with keyed_eq [OF assms(1), of r' r] assms(2-4) r'(2) show False by auto
  next
    assume "\<exists>q\<in>set rows. Q q \<and> r' = f q"
    with assms(6) r'(3) show False by blast
  qed
qed

section \<open>Decisions\<close>

definition undecided :: "device_request \<Rightarrow> bool" where "undecided r \<longleftrightarrow> d_status r = AuthPending"

lemma undecided_moves: "request_moves r r' \<Longrightarrow> \<not> undecided r \<Longrightarrow> \<not> undecided r'"
  by (simp add: request_moves_def undecided_def)

lemma decided_closes:
  assumes "keyed d_id (deviceRequests d)" and "r \<in> set (deviceRequests d)" and "decidable now dr r"
    and "\<And>r. d_id (f r) = d_id r \<and> d_status (f r) = AuthApproved"
  shows "\<not> (\<exists>r\<in>set (update_where (decidable now dr) f (deviceRequests d)). d_id r = d_id dr \<and> undecided r)"
  by (rule claim_closes [where r = r and Q = "decidable now dr", OF assms(1,2,3)])
    (use assms(3,4) in \<open>simp_all add: decidable_def undecided_def\<close>)

lemma upgrade_decides:
  assumes "rs_status (snd (approve_upgrade x env rq acc profile dr lid d)) = 200" and "keyed d_id (deviceRequests d)"
  shows "open_row undecided (d_id dr) d \<and> \<not> open_row undecided (d_id dr) (fst (approve_upgrade x env rq acc profile dr lid d))"
proof -
  obtain r where r: "r \<in> set (deviceRequests d)" "decidable (we_now env) dr r"
    using assms(1) by (auto simp: approve_upgrade_def Let_def split: option.splits if_splits)
  have "open_row undecided (d_id dr) d"
    using r by (auto simp: open_row_def decidable_def undecided_def)
  moreover have "\<not> (\<exists>r\<in>set (deviceRequests (fst (approve_upgrade x env rq acc profile dr lid d))). d_id r = d_id dr \<and> undecided r)"
  proof -
    obtain l where out: "deviceRequests (fst (approve_upgrade x env rq acc profile dr lid d)) = update_where (decidable (we_now env) dr)
        (\<lambda>r. (approve_row (we_now env) acc r)\<lparr>d_linkedClientId := Some l\<rparr>) (deviceRequests d)"
      using assms(1) by (auto simp: approve_upgrade_def Let_def split: option.splits if_splits)
    show ?thesis unfolding out by (rule decided_closes [OF assms(2) r]) (simp add: approve_row_def)
  qed
  ultimately show ?thesis by (simp add: open_row_def)
qed

lemma link_decides:
  assumes "rs_status (snd (approve_link x env rq acc profile dr d)) = 200" and "keyed d_id (deviceRequests d)"
  shows "open_row undecided (d_id dr) d \<and> \<not> open_row undecided (d_id dr) (fst (approve_link x env rq acc profile dr d))"
proof -
  obtain r where r: "r \<in> set (deviceRequests d)" "decidable (we_now env) dr r"
    using assms(1) by (auto simp: approve_link_def Let_def split: option.splits if_splits)
  have "open_row undecided (d_id dr) d"
    using r by (auto simp: open_row_def decidable_def undecided_def)
  moreover have "\<not> (\<exists>r\<in>set (deviceRequests (fst (approve_link x env rq acc profile dr d))). d_id r = d_id dr \<and> undecided r)"
  proof -
    let ?mid = "update_where (decidable (we_now env) dr) (approve_row (we_now env) acc) (deviceRequests d)"
    obtain l ref where out: "deviceRequests (fst (approve_link x env rq acc profile dr d)) = update_where (\<lambda>r. d_id r = d_id dr)
        (\<lambda>r. r\<lparr>d_linkedClientId := Some l, d_tokenReference := Some ref, d_updatedAt := we_now env\<rparr>) ?mid"
      using assms(1) by (auto simp: approve_link_def Let_def split: option.splits if_splits)
    have "\<not> (\<exists>r\<in>set ?mid. d_id r = d_id dr \<and> undecided r)"
      by (rule decided_closes [OF assms(2) r]) (simp add: approve_row_def)
    moreover have "list_all2 request_moves ?mid (update_where (\<lambda>r. d_id r = d_id dr)
        (\<lambda>r. r\<lparr>d_linkedClientId := Some l, d_tokenReference := Some ref, d_updatedAt := we_now env\<rparr>) ?mid)"
      by (rule moves_update) (simp add: request_moves_def)
    ultimately show ?thesis unfolding out using closed_moves undecided_moves by blast
  qed
  ultimately show ?thesis by (simp add: open_row_def)
qed

lemma deny_decides:
  assumes "rs_status (snd (deny_request x env rq acc profile dr d)) = 200" and "keyed d_id (deviceRequests d)"
  shows "open_row undecided (d_id dr) d \<and> \<not> open_row undecided (d_id dr) (fst (deny_request x env rq acc profile dr d))"
proof -
  let ?op = "\<lambda>r. d_id r = d_id dr \<and> d_status r = AuthPending"
  obtain r where r: "r \<in> set (deviceRequests d)" "?op r"
    using assms(1) by (auto simp: deny_request_def Let_def split: if_splits)
  have out: "deviceRequests (fst (deny_request x env rq acc profile dr d)) = update_where ?op (deny_row (we_now env) acc) (deviceRequests d)"
    using assms(1) by (auto simp: deny_request_def Let_def split: if_splits)
  have "\<not> (\<exists>r\<in>set (update_where ?op (deny_row (we_now env) acc) (deviceRequests d)). d_id r = d_id dr \<and> undecided r)"
    by (rule claim_closes [where r = r and Q = ?op, OF assms(2) r]) (use r(2) in \<open>simp_all add: deny_row_def undecided_def\<close>)
  with r show ?thesis unfolding open_row_def out by (auto simp: undecided_def)
qed

lemma decide_open_closes:
  assumes "known k d" and "decides k op (snd (flow_step x op d))"
  shows "open_row undecided k d \<and> \<not> open_row undecided k (fst (flow_step x op d))"
proof (cases op)
  case (Authorize env rq acc profile dr)
  with assms have k: "d_id dr = k" "rs_status (snd (authorize_request x env rq acc profile dr d)) = 200" by auto
  have keyed: "keyed d_id (deviceRequests d)" using assms(1) by (simp add: known_def)
  consider "authorize_request x env rq acc profile dr d = approve_link x env rq acc profile dr d"
    | lid where "authorize_request x env rq acc profile dr d = approve_upgrade x env rq acc profile dr lid d"
    using k(2) by (auto simp: authorize_request_def split: option.splits if_splits)
  then show ?thesis using upgrade_decides [OF _ keyed] link_decides [OF _ keyed] k Authorize by cases auto
next
  case (Deny env rq acc profile dr)
  with assms deny_decides [of x env rq acc profile dr d] show ?thesis by (auto simp: known_def)
qed (use assms in auto)

interpretation decision: one_winner "flow_step x" "decides k" "known k" "open_row undecided k" for x k
  by unfold_locales (auto simp: known_step decide_open_closes closed_step undecided_moves)

section \<open>Redemptions\<close>

definition unredeemed :: "device_request \<Rightarrow> bool" where "unredeemed r \<longleftrightarrow> d_redeemedAt r = None"

lemma unredeemed_moves: "request_moves r r' \<Longrightarrow> \<not> unredeemed r \<Longrightarrow> \<not> unredeemed r'"
  by (simp add: request_moves_def unredeemed_def)

lemma redeem_open_closes:
  assumes "known k d" and "redeems k op (snd (flow_step x op d))"
  shows "open_row unredeemed k d \<and> \<not> open_row unredeemed k (fst (flow_step x op d))"
proof (cases op)
  case (Poll env dr)
  with assms have k: "d_id dr = k" "rs_status (snd (poll_request x env dr d)) = 200" by auto
  then obtain r where r: "r \<in> set (deviceRequests d)" "redeemable_row dr r"
    by (auto simp: poll_request_def split: option.splits if_splits)
  have keyed: "keyed d_id (deviceRequests d)" using assms(1) by (simp add: known_def)
  have "\<not> (\<exists>r\<in>set (update_where (redeemable_row dr) (\<lambda>r. r\<lparr>d_redeemedAt := Some (we_now env), d_updatedAt := we_now env\<rparr>)
      (deviceRequests d)). d_id r = k \<and> unredeemed r)"
    by (rule claim_closes [where r = r and Q = "redeemable_row dr", OF keyed r])
      (use r(2) k(1) in \<open>simp_all add: redeemable_row_def unredeemed_def\<close>)
  moreover have "deviceRequests (fst (poll_request x env dr d)) = deviceRequests (redeem_request (we_now env) dr d)"
    using k(2) by (auto simp: poll_request_def split: option.splits if_splits)
  ultimately have "\<not> open_row unredeemed k (fst (poll_request x env dr d))"
    by (simp add: open_row_def redeem_request_def)
  moreover have "open_row unredeemed k d"
    using r k(1) by (auto simp: open_row_def redeemable_row_def unredeemed_def)
  ultimately show ?thesis using Poll by simp
qed (use assms in auto)

interpretation redemption: one_winner "flow_step x" "redeems k" "known k" "open_row unredeemed k" for x k
  by unfold_locales (auto simp: known_step redeem_open_closes closed_step unredeemed_moves)

text \<open>
  C15.  Of a device request there is one decision and one redemption: in any sequence of the handlers'
  second halves, run on whatever rows their first halves had read, at most one approval or denial of the
  request succeeds, none once it is no longer pending, and at most one poll receives the link.
\<close>

theorem one_decision_one_redemption:
  assumes "keyed d_id (deviceRequests d)" and "r \<in> set (deviceRequests d)" and "d_id r = k"
  shows "winners (flow_step x) (decides k) ops d \<le> (if d_status r = AuthPending then 1 else 0)
       \<and> winners (flow_step x) (redeems k) ops d \<le> (if d_redeemedAt r = None then 1 else 0)"
proof -
  have known: "known k d" using assms by (auto simp: known_def)
  have "open_row P k d \<longleftrightarrow> P r" for P using assms keyed_eq [OF assms(1)] by (auto simp: open_row_def)
  with decision.winners_bounded [OF known, of x ops] redemption.winners_bounded [OF known, of x ops] show ?thesis
    by (simp add: undecided_def unredeemed_def)
qed

definition demo_device_request :: device_request where
  "demo_device_request = \<lparr>d_id = ''k'', d_approvedAt = None, d_approvedByAccountId = None, d_backendMetadata = JObj [],
     d_clientKind = ''backend'', d_deniedAt = None, d_deviceCodeHash = ''#c'', d_expiresAt = 100, d_intervalSeconds = 5,
     d_lastPollAt = None, d_linkedClientId = None, d_localOrigin = None, d_pollCount = 0, d_displayName = ''b'',
     d_redeemedAt = None, d_requestedScopes = [''backend:link''], d_status = AuthPending, d_tokenReference = None,
     d_upgradeLinkedClientId = None, d_userCodeDisplay = ''ABCD-****'', d_userCodeHash = ''%ABCDEFGH'',
     d_createdAt = 0, d_updatedAt = 0\<rparr>"

theorem one_decision_one_redemption_witness:
  "winners (flow_step sample_ext) (decides ''k'')
     [Authorize (demo_env 1) (demo_web_request None) ''a'' [] demo_device_request,
      Deny (demo_env 2) (demo_web_request None) ''b'' [] demo_device_request]
     (empty_db\<lparr>deviceRequests := [demo_device_request]\<rparr>) \<le> 1"
  using one_decision_one_redemption [of "empty_db\<lparr>deviceRequests := [demo_device_request]\<rparr>" demo_device_request "''k''" sample_ext
    "[Authorize (demo_env 1) (demo_web_request None) ''a'' [] demo_device_request,
      Deny (demo_env 2) (demo_web_request None) ''b'' [] demo_device_request]"]
  by (simp add: keyed_def demo_device_request_def)

text \<open>
  The update that marks a request expired has no guard of its own: a handler that read the row pending and
  late in its life overwrites an approval made in between.
\<close>

lemma late_expiry_overwrites_approval:
  "deviceRequests (fst (flow_step sample_ext (Expire 100 demo_device_request)
     (fst (flow_step sample_ext (Authorize (demo_env 99) (demo_web_request None) ''a'' [] demo_device_request)
       (empty_db\<lparr>deviceRequests := [demo_device_request]\<rparr>))))) \<noteq> []
   \<and> filter (\<lambda>r. d_status r \<noteq> AuthExpired) (deviceRequests (fst (flow_step sample_ext (Expire 100 demo_device_request)
     (fst (flow_step sample_ext (Authorize (demo_env 99) (demo_web_request None) ''a'' [] demo_device_request)
       (empty_db\<lparr>deviceRequests := [demo_device_request]\<rparr>)))))) = []"
  by (simp add: authorize_request_def approve_link_def createEncryptedSecretToken_def sample_ext_simps Let_def
      demo_device_request_def demo_env_simps decidable_def expire_request_def update_where_def approve_row_def)

end
