(* ===== verification/DeviceLink.thy ===== *)
theory DeviceLink imports DeviceDecisions begin

text \<open>
  The device flow from end to end: what a device that started a request, was approved and polled holds,
  and the shape and uniqueness of user codes.
\<close>

section \<open>User codes\<close>

lemma select_one_append:
  "select_one P (xs @ ys) = (case select_one P xs of None \<Rightarrow> select_one P ys | Some r \<Rightarrow> Some r)"
  by (induction xs) (auto simp: select_one_def)

lemma update_where_last: "\<forall>r\<in>set rows. \<not> P r \<Longrightarrow> update_where P f (rows @ [r]) = rows @ [if P r then f r else r]"
  by (simp add: update_where_append update_where_Cons update_where_noop)

definition code_char :: "char \<Rightarrow> bool" where
  "code_char c \<longleftrightarrow> c \<in> set userCodeAlphabet"

lemma code_chars: "list_all (\<lambda>c. is_alnum c \<and> ascii_upper_char c = c \<and> c \<noteq> CHR ''-'') userCodeAlphabet"
  by code_simp

lemma code_char_facts: "code_char c \<Longrightarrow> is_alnum c \<and> ascii_upper_char c = c \<and> c \<noteq> CHR ''-''"
  using code_chars by (simp add: code_char_def list_all_iff)

lemma normalize_code: "\<forall>c\<in>set s. code_char c \<Longrightarrow> normalizeUserCode s = s"
  by (induction s) (auto simp: normalizeUserCode_def code_char_facts)

lemma normalize_append: "normalizeUserCode (a @ b) = normalizeUserCode a @ normalizeUserCode b"
  by (simp add: normalizeUserCode_def)

lemma normalize_dash: "normalizeUserCode (CHR ''-'' # b) = normalizeUserCode b"
proof -
  have "\<not> is_alnum (CHR ''-'')" by code_simp
  then show ?thesis by (simp add: normalizeUserCode_def)
qed

text \<open>The displayed form of a raw code.\<close>

definition display_code :: "string \<Rightarrow> string" where
  "display_code raw = take 4 raw @ ''-'' @ drop 4 raw"

lemma format_code: "\<forall>c\<in>set raw. code_char c \<Longrightarrow> length raw = 8 \<Longrightarrow> formatUserCode raw = display_code raw"
  by (simp add: formatUserCode_def normalize_code display_code_def)

lemma normalize_display:
  assumes "\<forall>c\<in>set raw. code_char c"
  shows "normalizeUserCode (display_code raw) = raw"
proof -
  have "\<forall>c\<in>set (take 4 raw). code_char c" "\<forall>c\<in>set (drop 4 raw). code_char c"
    using assms by (auto dest: in_set_takeD in_set_dropD)
  then show ?thesis
    by (simp add: display_code_def normalize_append normalize_dash normalize_code)
qed

lemma remove_dash_display:
  assumes "\<forall>c\<in>set raw. code_char c"
  shows "remove_dash (display_code raw) = raw"
proof -
  have "\<forall>c\<in>set (take 4 raw). c \<noteq> CHR ''-''" using assms code_char_facts by (auto dest: in_set_takeD)
  then show ?thesis by (simp add: remove_dash_def display_code_def takeWhile_append2 dropWhile_append2)
qed

lemma generated_code:
  assumes "generateUniqueUserCode x draw d = Some code"
    and "\<forall>i. length (draw i) = 8 \<and> (\<forall>j\<in>set (draw i). j < 32)"
  shows "\<exists>raw. (\<forall>c\<in>set raw. code_char c) \<and> length raw = 8 \<and> code = display_code raw \<and> code_row x raw d = None"
proof -
  have len: "length userCodeAlphabet = 32" by (simp add: userCodeAlphabet_def)
  have "unique_code_from x draw d i n = Some code \<Longrightarrow> ?thesis" for i n
  proof (induction n arbitrary: i)
    case (Suc n)
    let ?raw = "map (\<lambda>i. userCodeAlphabet ! i) (draw i)"
    have raw: "\<forall>c\<in>set ?raw. code_char c" "length ?raw = 8"
      using assms(2) len by (auto simp: code_char_def)
    show ?case
    proof (cases "code_row x ?raw d")
      case None
      with Suc.prems raw have "code = display_code ?raw" by (simp add: Let_def format_code normalize_display)
      with None raw show ?thesis by blast
    next
      case (Some r)
      with Suc raw show ?thesis by (simp add: Let_def format_code normalize_display)
    qed
  qed simp
  with assms(1) show ?thesis by (simp add: generateUniqueUserCode_def)
qed

section \<open>From start to token\<close>

lemma start_scopes [simp]:
  "linkedClientScopes (device_linked_client env acc profile (start_row x env' body dc uc) sealed ref) = parseScopes (map_of body ''scopes'')"
proof -
  have "map_of (metadataFromBody body) ''requestedScopes'' = None"
    by (cases "map_of body ''capabilities''"; cases "parseOptionalString (map_of body ''reported_frameos_version'')")
      (simp_all add: metadataFromBody_def)
  moreover have "distinct (map fst (metadataFromBody body))"
    by (cases "map_of body ''capabilities''"; cases "parseOptionalString (map_of body ''reported_frameos_version'')")
      (simp_all add: metadataFromBody_def)
  ultimately show ?thesis
    by (simp add: device_linked_client_def linkedClientScopes_def metadata_scopes_def new_linked_client_def
        approver_metadata_def start_row_def Let_def metadataRecord_def map_of_obj_spread map_add_def)
qed

lemma start_row_simps [simp]:
  "d_id (start_row x env body dc uc) = we_uuid env 0" "d_status (start_row x env body dc uc) = AuthPending"
  "d_deviceCodeHash (start_row x env body dc uc) = hashSecret x dc"
  "d_userCodeHash (start_row x env body dc uc) = hashUserCode x (remove_dash uc)"
  "d_upgradeLinkedClientId (start_row x env body dc uc) = None" "d_redeemedAt (start_row x env body dc uc) = None"
  "d_expiresAt (start_row x env body dc uc) = we_now env + deviceExpiresInSeconds * 1000"
  "d_requestedScopes (start_row x env body dc uc) = parseScopes (map_of body ''scopes'')"
  by (simp_all add: start_row_def Let_def)

lemma device_client_simps [simp]:
  "l_id (device_linked_client env acc profile dr sealed ref) = we_uuid env 0"
  "l_accountId (device_linked_client env acc profile dr sealed ref) = acc"
  "l_revokedAt (device_linked_client env acc profile dr sealed ref) = None"
  "l_tokenReference (device_linked_client env acc profile dr sealed ref) = ref"
  "l_encryptedRefreshToken (device_linked_client env acc profile dr sealed ref) = Some sealed"
  by (simp_all add: device_linked_client_def new_linked_client_def)

lemma parseScopes_allowed: "set (parseScopes v) \<subseteq> set allowedDeviceScopes"
proof -
  have "set defaultDeviceScopes \<subseteq> set allowedDeviceScopes" by (simp add: defaultDeviceScopes_def allowedDeviceScopes_def)
  then show ?thesis by (auto simp: parseScopes_def Let_def split: option.split json.split)
qed

text \<open>The request row after its approval.\<close>

definition approved_row :: "web_env \<Rightarrow> uuid \<Rightarrow> string \<Rightarrow> device_request \<Rightarrow> device_request" where
  "approved_row env acc ref r = (approve_row (we_now env) acc r)
     \<lparr>d_linkedClientId := Some (we_uuid env 0), d_tokenReference := Some ref, d_updatedAt := we_now env\<rparr>"

lemma approval_of_start:
  assumes ok: "rs_status (snd (authorize_request x env rq acc profile dr d)) = 200"
    and dr: "d_upgradeLinkedClientId dr = None" and rows: "deviceRequests d = old @ [dr]" "d_id dr \<notin> d_id ` set old"
  shows "\<exists>sealed plain. createEncryptedSecretToken x ''fc_link'' (we_random env 0) = Some (sealed, plain, hashSecret x plain)
    \<and> deviceRequests (fst (authorize_request x env rq acc profile dr d)) = old @ [approved_row env acc (hashSecret x plain) dr]
    \<and> linkedClients (fst (authorize_request x env rq acc profile dr d))
        = linkedClients d @ [device_linked_client env acc profile dr sealed (hashSecret x plain)]"
proof -
  have link: "authorize_request x env rq acc profile dr d = approve_link x env rq acc profile dr d"
    and pending: "d_status dr = AuthPending" "\<not> d_expiresAt dr \<le> we_now env"
    using ok dr by (auto simp: authorize_request_def split: if_splits)
  then obtain sealed plain ref where a: "createEncryptedSecretToken x ''fc_link'' (we_random env 0) = Some (sealed, plain, ref)"
    using ok by (auto simp: approve_link_def split: option.splits)
  then have ref: "ref = hashSecret x plain" by (auto simp: createEncryptedSecretToken_def Let_def)
  have other: "\<forall>r\<in>set old. d_id r \<noteq> d_id dr" using rows(2) by (metis imageI)
  have not_old: "\<forall>r\<in>set old. \<not> decidable (we_now env) dr r" "\<forall>r\<in>set old. \<not> d_id r = d_id dr"
    using other by (auto simp: decidable_def)
  have dec: "decidable (we_now env) dr dr" using pending by (simp add: decidable_def)
  have "update_where (decidable (we_now env) dr) (approve_row (we_now env) acc) (old @ [dr]) = old @ [approve_row (we_now env) acc dr]"
    using update_where_last [OF not_old(1)] dec by simp
  moreover have "d_id (approve_row (we_now env) acc dr) = d_id dr" by (simp add: approve_row_def)
  ultimately have rows': "update_where (\<lambda>r. d_id r = d_id dr)
      (\<lambda>r. r\<lparr>d_linkedClientId := Some (we_uuid env 0), d_tokenReference := Some ref, d_updatedAt := we_now env\<rparr>)
      (update_where (decidable (we_now env) dr) (approve_row (we_now env) acc) (old @ [dr])) = old @ [approved_row env acc ref dr]"
    using update_where_last [OF not_old(2)] by (simp add: approved_row_def)
  have "\<exists>r\<in>set (deviceRequests d). decidable (we_now env) dr r" using rows(1) dec by auto
  then show ?thesis using a rows rows' ref unfolding link
    by (simp add: approve_link_def Let_def)
qed


lemma poll_of_approved:
  assumes rows: "deviceRequests d = old @ [row]" "d_id row \<notin> d_id ` set old"
    and row: "d_status row = AuthApproved" "d_upgradeLinkedClientId row = None" "d_redeemedAt row = None"
      "d_linkedClientId row = Some lid" "d_tokenReference row = Some ref" "lid \<noteq> []" "ref \<noteq> []"
    and client: "linkedClients d = others @ [l]" "l_id l = lid" "lid \<notin> l_id ` set others" "l_revokedAt l = None"
      "l_encryptedRefreshToken l = Some sealed" "sealed \<noteq> []" "decrypt_secret x sealed = Some plain"
  shows "snd (poll_request x env row d) = jsonOk [(''access_token'', JStr plain), (''approved_by'', approvedByClaims (l_metadata l)),
      (''linked_client_id'', JStr lid), (''scope'', JStr (js_join '' '' (d_requestedScopes row))),
      (''token_reference'', JStr ref), (''token_type'', JStr ''Bearer'')]"
    and "linkedClients (fst (poll_request x env row d)) =
      others @ [l\<lparr>l_encryptedRefreshToken := None, l_lastSeenAt := Some (we_now env), l_updatedAt := we_now env\<rparr>]"
    and "deviceRequests (fst (poll_request x env row d)) = old @ [row\<lparr>d_redeemedAt := Some (we_now env), d_updatedAt := we_now env\<rparr>]"
proof -
  have other: "\<forall>r\<in>set old. \<not> redeemable_row row r" using rows(2) by (auto simp: redeemable_row_def intro: rev_image_eqI)
  have able: "redeemable_row row row" using row(3) by (simp add: redeemable_row_def)
  have ex: "\<exists>r\<in>set (deviceRequests d). redeemable_row row r" using rows(1) able by auto
  have red: "deviceRequests (redeem_request (we_now env) row d) = old @ [row\<lparr>d_redeemedAt := Some (we_now env), d_updatedAt := we_now env\<rparr>]"
    using update_where_last [OF other] able by (simp add: redeem_request_def rows(1))
  have not_l: "\<forall>q\<in>set others. l_id q \<noteq> lid" using client(3) by (metis imageI)
  then have none: "select_one (\<lambda>q. l_id q = lid \<and> l_revokedAt q = None) others = None" by (simp add: select_one_None)
  have sel: "select_one (\<lambda>q. l_id q = lid \<and> l_revokedAt q = None) (linkedClients (redeem_request (we_now env) row d)) = Some l"
    using client(2,4) none by (simp add: redeem_request_def client(1) select_one_append) (simp add: select_one_def)
  have upd: "update_where (\<lambda>q. l_id q = l_id l) f (linkedClients (redeem_request (we_now env) row d)) = others @ [f l]" for f
    using update_where_last [of others "\<lambda>q. l_id q = lid" f l] not_l client(1,2) by (simp add: redeem_request_def)
  have poll: "poll_request x env row d = hand_out x env row lid ref (redeem_request (we_now env) row d)"
    using row ex by (simp add: poll_request_def present_def)
  have out: "hand_out x env row lid ref (redeem_request (we_now env) row d) =
    ((redeem_request (we_now env) row d)\<lparr>linkedClients := others @ [l\<lparr>l_encryptedRefreshToken := None,
        l_lastSeenAt := Some (we_now env), l_updatedAt := we_now env\<rparr>]\<rparr>,
     jsonOk [(''access_token'', JStr plain), (''approved_by'', approvedByClaims (l_metadata l)),
      (''linked_client_id'', JStr lid), (''scope'', JStr (js_join '' '' (d_requestedScopes row))),
      (''token_reference'', JStr ref), (''token_type'', JStr ''Bearer'')])"
    using sel client(5,6,7) upd by (simp add: hand_out_def client(2))
  show "snd (poll_request x env row d) = jsonOk [(''access_token'', JStr plain), (''approved_by'', approvedByClaims (l_metadata l)),
      (''linked_client_id'', JStr lid), (''scope'', JStr (js_join '' '' (d_requestedScopes row))),
      (''token_reference'', JStr ref), (''token_type'', JStr ''Bearer'')]"
    "linkedClients (fst (poll_request x env row d)) =
      others @ [l\<lparr>l_encryptedRefreshToken := None, l_lastSeenAt := Some (we_now env), l_updatedAt := we_now env\<rparr>]"
    "deviceRequests (fst (poll_request x env row d)) = old @ [row\<lparr>d_redeemedAt := Some (we_now env), d_updatedAt := we_now env\<rparr>]"
    unfolding poll out using red by simp_all
qed

lemma poll_again:
  assumes "deviceRequests d = old @ [row]" "d_id row \<notin> d_id ` set old"
    and "d_status row = AuthApproved" "d_upgradeLinkedClientId row = None" "d_redeemedAt row \<noteq> None"
    and "d_linkedClientId row = Some lid" "d_tokenReference row = Some ref" "lid \<noteq> []" "ref \<noteq> []"
  shows "poll_request x env row d = (d, jsonError ''expired_token'' 400 [])"
proof -
  have "\<not> redeemable_row row r" if "r \<in> set (deviceRequests d)" for r
    using that assms(1,2,5) by (auto simp: redeemable_row_def intro: rev_image_eqI)
  then show ?thesis using assms by (simp add: poll_request_def present_def)
qed

text \<open>
  C32.  The flow links a device.  When a device starts a request, a signed-in user approves the user code
  it displays, and the device polls, the poll hands it an access token: the token of one live linked
  client of the approving account, with exactly the scopes asked for, all of them known ones, whatever
  else the device reported; the sealed copy is gone, and every later poll answers \<open>expired_token\<close>.
\<close>

theorem device_flow_links:
  assumes start: "device_start x env0 draw uri rq0 d0 = (d1, r0)" "rs_status r0 = 200"
      "\<forall>i. length (draw i) = 8 \<and> (\<forall>j\<in>set (draw i). j < 32)"
    and told: "rs_body r0 = JObj kvs" "map_of kvs ''user_code'' = Some (JStr code)" "map_of kvs ''device_code'' = Some (JStr deviceCode)"
    and approve: "decide_by_code x rq1 (authorize_request x env1 rq1 acc profile) d1 = (d2, r1)" "rs_status r1 = 200"
      "map_of (readJsonObject rq1) ''user_code'' = Some (JStr typed)" "normalizeUserCode typed = normalizeUserCode code"
    and poll: "device_poll x env2 deviceCode d2 = (d3, r2)"
    and fresh: "we_uuid env0 0 \<notin> d_id ` set (deviceRequests d0)" "hashSecret x deviceCode \<notin> d_deviceCodeHash ` set (deviceRequests d0)"
      "we_uuid env1 0 \<notin> l_id ` set (linkedClients d0)" "we_uuid env1 0 \<noteq> []"
    and crypto: "\<And>t sealed. encrypt_secret x t = Some sealed \<Longrightarrow> sealed \<noteq> [] \<and> decrypt_secret x sealed = Some t"
      "\<And>t. hashSecret x t \<noteq> []"
  shows "\<exists>token l. rs_status r2 = 200 \<and> (\<exists>kvs. rs_body r2 = JObj kvs \<and> map_of kvs ''access_token'' = Some (JStr token))
    \<and> linkedClients d3 = linkedClients d0 @ [l] \<and> l_accountId l = acc \<and> l_revokedAt l = None
    \<and> l_tokenReference l = hashSecret x token \<and> l_encryptedRefreshToken l = None
    \<and> linkedClientScopes l = parseScopes (map_of (readJsonObject rq0) ''scopes'') \<and> set (linkedClientScopes l) \<subseteq> set allowedDeviceScopes
    \<and> (\<forall>env3. device_poll x env3 deviceCode d3 = (d3, jsonError ''expired_token'' 400 []))"
proof -
  let ?dr = "start_row x env0 (readJsonObject rq0) deviceCode code" and ?old = "deviceRequests d0"
  have gen: "generateUniqueUserCode x draw d0 = Some code" and d1: "d1 = d0\<lparr>deviceRequests := ?old @ [?dr]\<rparr>"
    using start(1,2) told by (auto simp: device_start_def Let_def server_error_def jsonOk_def split: option.splits)
  from generated_code [OF gen start(3)] obtain raw where raw: "\<forall>c\<in>set raw. code_char c" "length raw = 8"
    "code = display_code raw" "code_row x raw d0 = None" by blast
  have lookup: "code_row x raw d1 = Some ?dr"
    using raw(4) by (simp add: code_row_def d1 select_one_append raw(3))
      (simp add: select_one_def remove_dash_display [OF raw(1)])
  have auth: "authorize_request x env1 rq1 acc profile ?dr d1 = (d2, r1)"
    using approve(1,3,4) raw lookup by (simp add: decide_by_code_def normalize_display)
  have rows1: "deviceRequests d1 = ?old @ [?dr]" "linkedClients d1 = linkedClients d0" by (simp_all add: d1)
  from approval_of_start [of x env1 rq1 acc profile ?dr d1 ?old] auth approve(2) rows1(1) fresh(1)
  obtain sealed plain where a: "createEncryptedSecretToken x ''fc_link'' (we_random env1 0) = Some (sealed, plain, hashSecret x plain)"
    and rows2: "deviceRequests d2 = ?old @ [approved_row env1 acc (hashSecret x plain) ?dr]"
      "linkedClients d2 = linkedClients d0 @ [device_linked_client env1 acc profile ?dr sealed (hashSecret x plain)]"
    by (auto simp: rows1(2))
  let ?row = "approved_row env1 acc (hashSecret x plain) ?dr" and ?l = "device_linked_client env1 acc profile ?dr sealed (hashSecret x plain)"
  have enc: "sealed \<noteq> []" "decrypt_secret x sealed = Some plain"
    using a crypto(1) by (auto simp: createEncryptedSecretToken_def Let_def)
  have row: "d_id ?row \<notin> d_id ` set ?old" "d_status ?row = AuthApproved" "d_upgradeLinkedClientId ?row = None"
      "d_redeemedAt ?row = None" "d_linkedClientId ?row = Some (we_uuid env1 0)" "d_tokenReference ?row = Some (hashSecret x plain)"
      "d_deviceCodeHash ?row = hashSecret x deviceCode"
    using fresh(1) by (simp_all add: approved_row_def approve_row_def)
  have by_code: "select_one (\<lambda>r. d_deviceCodeHash r = hashSecret x deviceCode) (?old @ [r]) = Some r"
    if "d_deviceCodeHash r = hashSecret x deviceCode" for r
  proof -
    have "select_one (\<lambda>r. d_deviceCodeHash r = hashSecret x deviceCode) ?old = None"
      using fresh(2) unfolding select_one_None by (metis imageI)
    then show ?thesis using that by (simp add: select_one_append) (simp add: select_one_def)
  qed
  have p: "poll_request x env2 ?row d2 = (d3, r2)"
    using poll by_code [OF row(7)] by (simp add: device_poll_def rows2(1))
  note polled = poll_of_approved [where d = d2 and l = ?l and env = env2 and x = x and plain = plain and sealed = sealed,
      OF rows2(1) row(1-6) fresh(4) crypto(2) rows2(2) _ fresh(3) _ _ enc]
  have r2: "rs_status r2 = 200" "\<exists>kvs. rs_body r2 = JObj kvs \<and> map_of kvs ''access_token'' = Some (JStr plain)"
    using polled(1) p by (simp_all add: jsonOk_def)
  define l where "l = ?l\<lparr>l_encryptedRefreshToken := None, l_lastSeenAt := Some (we_now env2), l_updatedAt := we_now env2\<rparr>"
  have l: "linkedClients d3 = linkedClients d0 @ [l]" using polled(2) p by (simp add: l_def)
  have rows3: "deviceRequests d3 = ?old @ [?row\<lparr>d_redeemedAt := Some (we_now env2), d_updatedAt := we_now env2\<rparr>]"
    using polled(3) p by simp
  have scopes: "linkedClientScopes l = parseScopes (map_of (readJsonObject rq0) ''scopes'')"
    using start_scopes by (simp add: l_def linkedClientScopes_def)
  have "device_poll x env3 deviceCode d3 = (d3, jsonError ''expired_token'' 400 [])" for env3
    using by_code [of "?row\<lparr>d_redeemedAt := Some (we_now env2), d_updatedAt := we_now env2\<rparr>"] row
      poll_again [OF rows3, where lid = "we_uuid env1 0" and ref = "hashSecret x plain"] fresh(4) crypto(2)
    by (simp add: device_poll_def rows3)
  then show ?thesis using r2 l scopes parseScopes_allowed
    by (intro exI [of _ plain] exI [of _ l] conjI) (simp_all add: l_def)
qed

definition demo_draw :: "nat \<Rightarrow> nat list" where
  "demo_draw i = [0, 1, 2, 3, 4, 5, 6, 7]"

definition type_code :: web_request where
  "type_code = demo_web_request (Some (JObj [(''user_code'', JStr ''abcd-efgh'')]))"

lemma demo_codes:
  "formatUserCode (map (\<lambda>i. userCodeAlphabet ! i) (demo_draw 0)) = ''ABCD-EFGH''"
  "normalizeUserCode ''ABCD-EFGH'' = ''ABCDEFGH''" "normalizeUserCode ''abcd-efgh'' = ''ABCDEFGH''"
  "remove_dash ''ABCD-EFGH'' = ''ABCDEFGH''"
  by code_simp+

lemma demo_start:
  "device_start sample_ext (demo_env 1) demo_draw uri (demo_web_request None) empty_db =
     (empty_db\<lparr>deviceRequests := [start_row sample_ext (demo_env 1) [] ''fc_device_r0'' ''ABCD-EFGH'']\<rparr>,
      jsonOk [(''device_code'', JStr ''fc_device_r0''), (''expires_in'', num_of_int deviceExpiresInSeconds),
        (''interval'', num_of_int deviceIntervalSeconds), (''user_code'', JStr ''ABCD-EFGH''),
        (''verification_uri'', JStr uri), (''verification_uri_complete'', JStr (uri @ ''?user_code=ABCD-EFGH''))])"
proof -
  have "dec_text 0 = ''0''" by code_simp
  moreover have "generateUniqueUserCode sample_ext demo_draw empty_db = Some ''ABCD-EFGH''"
    unfolding generateUniqueUserCode_def eval_nat_numeral unique_code_from.simps Let_def demo_codes
    by (simp add: code_row_def empty_db_def select_one_def)
  ultimately show ?thesis
    by (simp add: device_start_def readJsonObject_def demo_web_request_def demo_env_simps createSecretToken_def empty_db_def Let_def)
qed

theorem device_flow_links_witness:
  "rs_status (snd (device_poll sample_ext (demo_env 3) ''fc_device_r0'' (fst (decide_by_code sample_ext type_code
     (authorize_request sample_ext (demo_env 2) type_code ''a'' []) (fst (device_start sample_ext (demo_env 1) demo_draw ''u''
       (demo_web_request None) empty_db)))))) = 200"
proof -
  let ?row = "start_row sample_ext (demo_env 1) [] ''fc_device_r0'' ''ABCD-EFGH''"
  let ?d1 = "empty_db\<lparr>deviceRequests := [?row]\<rparr>"
  obtain d2 r1 where a: "decide_by_code sample_ext type_code (authorize_request sample_ext (demo_env 2) type_code ''a'' []) ?d1 = (d2, r1)"
    by force
  obtain d3 r2 where p: "device_poll sample_ext (demo_env 3) ''fc_device_r0'' d2 = (d3, r2)" by force
  have typed: "map_of (readJsonObject type_code) ''user_code'' = Some (JStr ''abcd-efgh'')"
    by (simp add: type_code_def readJsonObject_def demo_web_request_def)
  have "rs_status (snd (decide_by_code sample_ext type_code (authorize_request sample_ext (demo_env 2) type_code ''a'' []) ?d1)) = 200"
    by (simp add: decide_by_code_def typed demo_codes code_row_def select_one_def authorize_request_def demo_env_simps
        deviceExpiresInSeconds_def approve_link_def createEncryptedSecretToken_def sample_ext_simps Let_def decidable_def)
  then have ok: "rs_status r1 = 200" by (simp add: a)
  have same: "normalizeUserCode ''abcd-efgh'' = normalizeUserCode ''ABCD-EFGH''" by (simp add: demo_codes)
  have dec: "encrypt_secret sample_ext t = Some sealed \<Longrightarrow> sealed \<noteq> [] \<and> decrypt_secret sample_ext sealed = Some t" for t sealed
    by (auto simp: sample_ext_def)
  have "rs_status r2 = 200"
    using device_flow_links [OF demo_start _ _ _ _ _ a ok typed same p, where kvs = "[(''device_code'', JStr ''fc_device_r0''),
        (''expires_in'', num_of_int deviceExpiresInSeconds), (''interval'', num_of_int deviceIntervalSeconds),
        (''user_code'', JStr ''ABCD-EFGH''), (''verification_uri'', JStr ''u''),
        (''verification_uri_complete'', JStr (''u'' @ ''?user_code=ABCD-EFGH''))]"] dec
    by (auto simp: demo_draw_def jsonOk_def empty_db_def sample_ext_simps demo_env_simps)
  then show ?thesis by (simp add: demo_start a p)
qed

end
