(* ===== verification/FrameScenes.thy ===== *)
theory FrameScenes imports DeviceLink begin

text \<open>
  What a frame renders: the scenes assigned to it (\<open>app/api/frames/[frameId]/scenes/route.ts\<close>) and the
  payload built from their pinned versions (\<open>extractScenesJson\<close>, \<open>pinnedSceneVersion\<close>,
  \<open>buildScenesPayloadForFrame\<close> of \<open>frames.ts\<close>).
\<close>

section \<open>Frames of the account\<close>

text \<open>The frame of the path, or the answer 404; for most operations it must be active.\<close>

definition with_frame :: "uuid \<Rightarrow> string \<Rightarrow> (frame \<Rightarrow> db \<Rightarrow> db \<times> http_response) \<Rightarrow> db \<Rightarrow> db \<times> http_response" where
  "with_frame accountId frameId body d =
     (case frameForAccount accountId frameId d of
        None \<Rightarrow> (d, jsonError ''invalid_frame'' 404 [])
      | Some f \<Rightarrow> body f d)"

definition with_active_frame :: "uuid \<Rightarrow> string \<Rightarrow> (frame \<Rightarrow> db \<Rightarrow> db \<times> http_response) \<Rightarrow> db \<Rightarrow> db \<times> http_response" where
  "with_active_frame accountId frameId body =
     with_frame accountId frameId (\<lambda>f d.
       if f_status f \<noteq> FrameActive then (d, jsonError ''frame_not_active'' 409 []) else body f d)"

section \<open>The scenes of a zip\<close>

definition maxSceneZipUncompressedBytes :: nat where "maxSceneZipUncompressedBytes = 32 * 1024 * 1024"
definition maxSceneZipEntries :: nat where "maxSceneZipEntries = 200"
definition maxScenesPayloadBytes :: nat where "maxScenesPayloadBytes = 3 * 1024 * 1024"

text \<open>The running bounds the filter checks at every entry.\<close>

fun zip_within :: "nat \<Rightarrow> nat \<Rightarrow> zip_entry list \<Rightarrow> bool" where
  "zip_within entryCount unpacked [] \<longleftrightarrow> True"
| "zip_within entryCount unpacked (e # es) \<longleftrightarrow>
     (let entryCount' = entryCount + 1; unpacked' = unpacked + (case z_originalSize e of None \<Rightarrow> 0 | Some n \<Rightarrow> n)
      in \<not> (entryCount' > maxSceneZipEntries \<or> unpacked' > maxSceneZipUncompressedBytes)
         \<and> zip_within entryCount' unpacked' es)"

text \<open>The entries a filter keeps, inflated, by name; \<open>None\<close> when inflating one throws.\<close>

fun inflated :: "(string \<Rightarrow> bool) \<Rightarrow> (string \<times> bytes) list \<Rightarrow> zip_entry list \<Rightarrow> (string \<times> bytes) list option" where
  "inflated keep files [] = Some files"
| "inflated keep files (e # es) =
     (if keep (z_name e)
      then (case z_data e of None \<Rightarrow> None | Some data \<Rightarrow> inflated keep (AList.update (z_name e) data files) es)
      else inflated keep files es)"

definition unzipSync :: "ext \<Rightarrow> (string \<Rightarrow> bool) \<Rightarrow> bytes \<Rightarrow> (string \<times> bytes) list option" where
  "unzipSync x keep content =
     (case unzip_entries x content of
        None \<Rightarrow> None
      | Some es \<Rightarrow> if zip_within 0 0 es then inflated keep [] es else None)"

definition named_file :: "string \<Rightarrow> string \<Rightarrow> bool" where
  "named_file file path \<longleftrightarrow> path = file \<or> js_ends_with (''/'' @ file) path"

fun shallowest :: "(string \<times> bytes) option \<Rightarrow> (string \<times> bytes) list \<Rightarrow> (string \<times> bytes) option" where
  "shallowest best [] = best"
| "shallowest best ((path, data) # files) =
     shallowest (case best of
         None \<Rightarrow> Some (path, data)
       | Some (bestPath, _) \<Rightarrow>
           if length (js_split (CHR ''/'') path) < length (js_split (CHR ''/'') bestPath) then Some (path, data) else best)
       files"

definition extractScenesJson :: "ext \<Rightarrow> bytes \<Rightarrow> (nat \<times> json list) option" where
  "extractScenesJson x content =
     (case unzipSync x (named_file ''scenes.json'') content of
        None \<Rightarrow> None
      | Some files \<Rightarrow>
          (case shallowest None files of
             None \<Rightarrow> None
           | Some (path, data) \<Rightarrow>
               if length data > maxSceneZipUncompressedBytes then None
               else (case json_parse (utf8_decode data) of
                       Some (JArr scenes) \<Rightarrow> Some (length data, scenes)
                     | _ \<Rightarrow> None)))"

section \<open>The payload of a frame\<close>

definition riskFlagShell :: string where "riskFlagShell = ''shell''"

text \<open>(A version number beyond 32 bits makes Postgres throw; here no row has it.)\<close>

definition pinnedSceneVersion :: "uuid \<Rightarrow> int option \<Rightarrow> db \<Rightarrow> scene_version option" where
  "pinnedSceneVersion sceneId sceneVersion d =
     (case select_desc sv_version (\<lambda>v. sv_sceneId v = sceneId \<and> sv_yankedAt v = None
             \<and> (case sceneVersion of None \<Rightarrow> True | Some n \<Rightarrow> sv_version v = n)) (sceneVersions d) of
        [] \<Rightarrow> None
      | v # _ \<Rightarrow> Some v)"

fun collect_scenes ::
  "ext \<Rightarrow> db \<Rightarrow> nat \<Rightarrow> json list \<Rightarrow> string list \<Rightarrow> (assignment \<times> store_scene) list \<Rightarrow> string + (json list \<times> string list)" where
  "collect_scenes x d rawBytes scenes names [] = Inr (scenes, names)"
| "collect_scenes x d rawBytes scenes names ((g, s) # rest) =
     (if ss_status s \<noteq> ''active'' then Inl ''scene_pulled''
      else (case pinnedSceneVersion (g_sceneId g) (g_sceneVersion g) d of
              None \<Rightarrow> Inl ''scene_version_missing''
            | Some v \<Rightarrow>
                if riskFlagShell \<in> set (sv_riskFlags v) then Inl ''scene_not_allowed''
                else (case extractScenesJson x (sv_content v) of
                        None \<Rightarrow> Inl ''invalid_scene_payload''
                      | Some (n, vs) \<Rightarrow>
                          if rawBytes + n > maxScenesPayloadBytes then Inl ''scenes_payload_too_large''
                          else collect_scenes x d (rawBytes + n) (scenes @ vs) (names @ [ss_name s]) rest)))"

definition assigned_scenes :: "uuid \<Rightarrow> db \<Rightarrow> (assignment \<times> store_scene) list" where
  "assigned_scenes frameId d =
     select_asc (\<lambda>(g, s). g_position g) (\<lambda>(g, s). ss_id s = g_sceneId g \<and> g_frameId g = frameId)
       (List.product (assignments d) (storeScenes d))"

definition buildScenesPayloadForFrame :: "ext \<Rightarrow> uuid \<Rightarrow> db \<Rightarrow> string + (json list \<times> string \<times> string list)" where
  "buildScenesPayloadForFrame x frameId d =
     (case collect_scenes x d 0 [] [] (assigned_scenes frameId d) of
        Inl error \<Rightarrow> Inl error
      | Inr (scenes, names) \<Rightarrow>
          (let serialized = json_text (JArr scenes)
           in if utf8_bytes serialized > maxScenesPayloadBytes then Inl ''scenes_payload_too_large''
              else Inr (scenes, sha256_hex x serialized, names)))"

section \<open>Assigning scenes\<close>

definition maxScenesPerFrame :: nat where "maxScenesPerFrame = 20"

definition requested_version :: "json option \<Rightarrow> int option option" where
  "requested_version v =
     (case v of
        None \<Rightarrow> Some None
      | Some JNull \<Rightarrow> Some None
      | Some (JNum q) \<Rightarrow> if \<not> is_integer q \<or> q < 1 then None else Some (Some \<lfloor>q\<rfloor>)
      | Some _ \<Rightarrow> None)"

fun requested_scenes :: "(uuid \<times> int option) list \<Rightarrow> json list \<Rightarrow> string + (uuid \<times> int option) list" where
  "requested_scenes requested [] = Inr requested"
| "requested_scenes requested (entry # entries) =
     (case str_of (map_of (obj_fields (Some entry)) ''scene_id'') of
        None \<Rightarrow> Inl ''invalid_scenes''
      | Some sceneId \<Rightarrow>
          if \<not> is_frame_id_text sceneId then Inl ''invalid_scenes''
          else (case requested_version (map_of (obj_fields (Some entry)) ''scene_version'') of
                  None \<Rightarrow> Inl ''invalid_scenes''
                | Some v \<Rightarrow>
                    if sceneId \<in> fst ` set requested then Inl ''duplicate_scene''
                    else requested_scenes (requested @ [(sceneId, v)]) entries))"

definition json_of_version :: "int option \<Rightarrow> json" where
  "json_of_version v = (case v of None \<Rightarrow> JNull | Some n \<Rightarrow> num_of_int n)"

text \<open>The gates on the requested scenes, the first refusal if any.\<close>

fun scene_gate :: "uuid \<Rightarrow> db \<Rightarrow> (uuid \<times> int option) list \<Rightarrow> http_response option" where
  "scene_gate accountId d [] = None"
| "scene_gate accountId d ((sceneId, v) # rest) =
     (case select_one (\<lambda>s. ss_id s = sceneId) (storeScenes d) of
        None \<Rightarrow> Some (jsonError ''invalid_scene'' 400 [(''scene_id'', JStr sceneId)])
      | Some s \<Rightarrow>
          if ss_status s \<noteq> ''active'' then Some (jsonError ''invalid_scene'' 400 [(''scene_id'', JStr sceneId)])
          else if \<not> (ss_accountId s = accountId \<or> ss_visibility s = ''public'')
          then Some (jsonError ''invalid_scene'' 400 [(''scene_id'', JStr sceneId)])
          else (case pinnedSceneVersion sceneId v d of
                  None \<Rightarrow> Some (jsonError ''scene_version_missing'' 400
                             [(''scene_id'', JStr sceneId), (''scene_version'', json_of_version v)])
                | Some row \<Rightarrow>
                    if riskFlagShell \<in> set (sv_riskFlags row)
                    then Some (jsonError ''scene_not_allowed'' 403 [(''reason'', JStr ''shell''), (''scene_id'', JStr sceneId),
                                 (''scene_version'', num_of_int (sv_version row))])
                    else scene_gate accountId d rest))"

text \<open>The assignments of the frame are replaced.\<close>

definition replace_assignments :: "uuid \<Rightarrow> (uuid \<times> int option) list \<Rightarrow> db \<Rightarrow> db" where
  "replace_assignments frameId requested d =
     d\<lparr>assignments := delete_where (\<lambda>g. g_frameId g = frameId) (assignments d)
        @ map (\<lambda>(i, sceneId, v). \<lparr>g_frameId = frameId, g_sceneId = sceneId, g_sceneVersion = v, g_position = int i\<rparr>)
            (enumerate 0 requested)\<rparr>"

definition active_scene_id :: "fields \<Rightarrow> string option" where
  "active_scene_id body =
     (case map_of body ''scene_id'' of
        Some (JStr s) \<Rightarrow> if length s > 0 \<and> length s \<le> 256 then Some s else None
      | _ \<Rightarrow> None)"

definition push_scenes ::
  "ext \<Rightarrow> web_env \<Rightarrow> web_request \<Rightarrow> uuid \<Rightarrow> fields \<Rightarrow> (uuid \<times> int option) list \<Rightarrow> frame \<Rightarrow> db \<Rightarrow> db \<times> http_response" where
  "push_scenes x env rq accountId profile requested f d =
     (let d1 = replace_assignments (f_id f) requested d
      in case buildScenesPayloadForFrame x (f_id f) d1 of
           Inl error \<Rightarrow> (d, jsonError error 400 [])
         | Inr (scenes, checksum, names) \<Rightarrow>
             (let d2 = d1\<lparr>frames := update_where (\<lambda>q. f_id q = f_id f)
                    (\<lambda>q. q\<lparr>f_assignedChecksum := Some checksum, f_updatedAt := we_now env\<rparr>) (frames d1)\<rparr>;
                  (d3, c) = enqueueFrameCommand (we_uuid env 0) (f_id f) ''set_scenes''
                    (Some (JObj ([(''checksum'', JStr checksum), (''scenes'', JArr scenes)]
                      @ opt_field ''scene_id'' (map_option JStr (active_scene_id (readJsonObject rq))))))
                    (Some accountId) None (we_now env) (supersedePendingCommands (f_id f) ''set_scenes'' d2)
              in (recordAuditEvent rq (Some accountId) (session_actor accountId profile) ''frame.scenes_assigned''
                    (JObj [(''checksum'', JStr checksum), (''sceneCount'', num_of_int (int (length requested))),
                           (''sceneNames'', JArr (map JStr names))])
                    (JObj [(''commandId'', JStr (c_id c)), (''frameId'', JStr (f_id f))]) d3,
                  jsonOk [(''assigned_checksum'', JStr checksum), (''command_id'', JStr (c_id c)), (''status'', JStr ''queued'')])))"

definition assign_scenes :: "ext \<Rightarrow> web_env \<Rightarrow> web_request \<Rightarrow> string \<Rightarrow> uuid \<Rightarrow> fields \<Rightarrow> db \<Rightarrow> db \<times> http_response" where
  "assign_scenes x env rq frameId accountId profile =
     with_active_frame accountId frameId (\<lambda>f d.
       case map_of (readJsonObject rq) ''scenes'' of
         Some (JArr entries) \<Rightarrow>
           if length entries > maxScenesPerFrame then (d, jsonError ''invalid_scenes'' 400 [])
           else (case requested_scenes [] entries of
                   Inl error \<Rightarrow> (d, jsonError error 400 [])
                 | Inr requested \<Rightarrow>
                     (case scene_gate accountId d requested of
                        Some refusal \<Rightarrow> (d, refusal)
                      | None \<Rightarrow> push_scenes x env rq accountId profile requested f d))
       | _ \<Rightarrow> (d, jsonError ''invalid_scenes'' 400 []))"

definition assign_scenes_route :: "ext \<Rightarrow> web_env \<Rightarrow> string \<Rightarrow> web_request \<Rightarrow> world \<Rightarrow> world \<times> http_response" where
  "assign_scenes_route x env frameId rq =
     owner_route x env rq ''frames:scenes'' 120 (15 * 60 * 1000) (assign_scenes x env rq frameId)"

section \<open>The payload is the requested scenes, in order\<close>

definition new_assignments :: "uuid \<Rightarrow> (uuid \<times> int option) list \<Rightarrow> assignment list" where
  "new_assignments fid requested =
     map (\<lambda>(i, sceneId, v). \<lparr>g_frameId = fid, g_sceneId = sceneId, g_sceneVersion = v, g_position = int i\<rparr>) (enumerate 0 requested)"

lemma new_assignments_facts:
  "map (\<lambda>g. (g_sceneId g, g_sceneVersion g)) (new_assignments fid requested) = requested"
  "g \<in> set (new_assignments fid requested) \<Longrightarrow> g_frameId g = fid"
  "sorted (map g_position (new_assignments fid requested))"
proof -
  have "map snd (enumerate 0 requested) = requested" by (simp add: enumerate_eq_zip)
  then show "map (\<lambda>g. (g_sceneId g, g_sceneVersion g)) (new_assignments fid requested) = requested"
    by (simp add: new_assignments_def comp_def case_prod_beta)
  show "g \<in> set (new_assignments fid requested) \<Longrightarrow> g_frameId g = fid" by (auto simp: new_assignments_def)
  have "map g_position (new_assignments fid requested) = map (\<lambda>p. int (fst p)) (enumerate 0 requested)"
    by (simp add: new_assignments_def case_prod_beta comp_def)
  also have "\<dots> = map int (map fst (enumerate 0 requested))" by (simp only: map_map comp_def)
  also have "\<dots> = map int [0..<length requested]" by simp
  finally show "sorted (map g_position (new_assignments fid requested))"
    by (simp add: sorted_iff_nth_mono)
qed

lemma join_row:
  assumes "keyed ss_id rows" and "s \<in> set rows" and "ss_id s = k"
  shows "filter (\<lambda>q. ss_id q = k) rows = [s]"
  using assms by (induction rows) (auto simp: keyed_def filter_empty_conv image_iff)

lemma assigned_after_replace:
  assumes "keyed ss_id (storeScenes d)" and scene: "\<And>k v. (k, v) \<in> set requested \<Longrightarrow> sc k \<in> set (storeScenes d) \<and> ss_id (sc k) = k"
  shows "assigned_scenes fid (replace_assignments fid requested d) = map (\<lambda>g. (g, sc (g_sceneId g))) (new_assignments fid requested)"
proof -
  let ?new = "new_assignments fid requested" and ?old = "delete_where (\<lambda>g. g_frameId g = fid) (assignments d)"
  let ?P = "\<lambda>(g, s). ss_id s = g_sceneId g \<and> g_frameId g = fid"
  have rows: "assignments (replace_assignments fid requested d) = ?old @ ?new" "storeScenes (replace_assignments fid requested d) = storeScenes d"
    by (simp_all add: replace_assignments_def new_assignments_def)
  have one: "filter ?P (map (Pair g) (storeScenes d)) = (if g_frameId g = fid then map (Pair g) (filter (\<lambda>s. ss_id s = g_sceneId g) (storeScenes d)) else [])" for g
    by (simp add: filter_map comp_def)
  have "filter ?P (List.product ?old (storeScenes d)) = []"
    by (auto simp: filter_empty_conv)
  moreover have "filter ?P (List.product gs (storeScenes d)) = map (\<lambda>g. (g, sc (g_sceneId g))) gs" if "set gs \<subseteq> set ?new" for gs
    using that
  proof (induction gs)
    case (Cons g gs)
    then have mem: "g \<in> set ?new" by simp
    then have "(g_sceneId g, g_sceneVersion g) \<in> set (map (\<lambda>g. (g_sceneId g, g_sceneVersion g)) ?new)" by (simp add: image_iff) blast
    then have "(g_sceneId g, g_sceneVersion g) \<in> set requested" by (simp only: new_assignments_facts(1))
    moreover have g: "g_frameId g = fid" using mem by (rule new_assignments_facts(2))
    ultimately have "filter (\<lambda>s. ss_id s = g_sceneId g) (storeScenes d) = [sc (g_sceneId g)]"
      using join_row [OF assms(1)] scene by blast
    with Cons g one [of g] show ?case by simp
  qed simp
  ultimately have f: "filter ?P (List.product (?old @ ?new) (storeScenes d)) = map (\<lambda>g. (g, sc (g_sceneId g))) ?new"
    by (simp add: product_concat_map)
  have "sorted (map (\<lambda>(g, s). g_position g) (map (\<lambda>g. (g, sc (g_sceneId g))) ?new))"
    using new_assignments_facts(3) by (simp add: comp_def)
  then show ?thesis unfolding assigned_scenes_def rows select_asc_def f by (rule sort_key_id_if_sorted)
qed

section \<open>What may be pushed\<close>

text \<open>The version the scene \<open>s\<close> serves to the account, and the scenes in it.\<close>

definition served_scene :: "ext \<Rightarrow> uuid \<Rightarrow> db \<Rightarrow> uuid \<times> int option \<Rightarrow> store_scene \<times> scene_version \<times> json list \<Rightarrow> bool" where
  "served_scene x accountId d request part \<longleftrightarrow>
     (case (request, part) of ((sceneId, pinned), (s, v, scenes)) \<Rightarrow>
        s \<in> set (storeScenes d) \<and> ss_id s = sceneId \<and> ss_status s = ''active''
        \<and> (ss_accountId s = accountId \<or> ss_visibility s = ''public'')
        \<and> v \<in> set (sceneVersions d) \<and> sv_sceneId v = sceneId \<and> sv_yankedAt v = None
        \<and> (case pinned of Some n \<Rightarrow> sv_version v = n
            | None \<Rightarrow> \<forall>w\<in>set (sceneVersions d). sv_sceneId w = sceneId \<and> sv_yankedAt w = None \<longrightarrow> sv_version w \<le> sv_version v)
        \<and> ''shell'' \<notin> set (sv_riskFlags v) \<and> (\<exists>n. extractScenesJson x (sv_content v) = Some (n, scenes)))"

lemma pinned_version:
  assumes "pinnedSceneVersion sceneId pinned d = Some v"
  shows "v \<in> set (sceneVersions d) \<and> sv_sceneId v = sceneId \<and> sv_yankedAt v = None
    \<and> (case pinned of Some n \<Rightarrow> sv_version v = n
        | None \<Rightarrow> \<forall>w\<in>set (sceneVersions d). sv_sceneId w = sceneId \<and> sv_yankedAt w = None \<longrightarrow> sv_version w \<le> sv_version v)"
proof -
  let ?P = "\<lambda>v. sv_sceneId v = sceneId \<and> sv_yankedAt v = None \<and> (case pinned of None \<Rightarrow> True | Some n \<Rightarrow> sv_version v = n)"
  obtain vs where vs: "select_desc sv_version ?P (sceneVersions d) = v # vs"
    using assms by (auto simp: pinnedSceneVersion_def split: list.splits)
  have in_all: "set (v # vs) = {w \<in> set (sceneVersions d). ?P w}" unfolding vs [symmetric] by simp
  have "sorted (map sv_version (rev (v # vs)))" unfolding vs [symmetric] by (simp add: select_desc_def)
  then have top: "\<forall>w\<in>set (v # vs). sv_version w \<le> sv_version v" by (auto simp: sorted_append)
  have v: "v \<in> set (sceneVersions d) \<and> ?P v" using in_all by auto
  have "sv_version w \<le> sv_version v" if "w \<in> set (sceneVersions d)" "?P w" for w using that top in_all by blast
  with v show ?thesis by (auto split: option.splits)
qed

lemma gate_passes:
  "scene_gate acc d requested = None \<Longrightarrow> (k, v) \<in> set requested \<Longrightarrow>
   \<exists>s. select_one (\<lambda>s. ss_id s = k) (storeScenes d) = Some s \<and> (ss_accountId s = acc \<or> ss_visibility s = ''public'')"
  by (induction acc d requested rule: scene_gate.induct) (auto split: option.splits if_splits)

lemma collected:
  "collect_scenes x d raw scenes names rows = Inr (out, names') \<Longrightarrow>
   \<exists>parts. out = scenes @ concat (map (\<lambda>(s, v, vs). vs) parts)
     \<and> list_all2 (\<lambda>(g, s) (s', v, vs). s' = s \<and> ss_status s = ''active'' \<and> pinnedSceneVersion (g_sceneId g) (g_sceneVersion g) d = Some v
          \<and> ''shell'' \<notin> set (sv_riskFlags v) \<and> (\<exists>n. extractScenesJson x (sv_content v) = Some (n, vs))) rows parts"
proof (induction x d raw scenes names rows rule: collect_scenes.induct)
  case (2 x d raw scenes names g s rest)
  then obtain v n vs where v: "ss_status s = ''active''" "pinnedSceneVersion (g_sceneId g) (g_sceneVersion g) d = Some v"
      "riskFlagShell \<notin> set (sv_riskFlags v)" "extractScenesJson x (sv_content v) = Some (n, vs)"
      "\<not> raw + n > maxScenesPayloadBytes"
      "collect_scenes x d (raw + n) (scenes @ vs) (names @ [ss_name s]) rest = Inr (out, names')"
    by (auto split: if_splits option.splits)
  from "2.IH" [OF _ v(2,3,4) refl v(5,6)] v(1) obtain parts where
    "out = (scenes @ vs) @ concat (map (\<lambda>(s, v, vs). vs) parts)"
    "list_all2 (\<lambda>(g, s) (s', v, vs). s' = s \<and> ss_status s = ''active'' \<and> pinnedSceneVersion (g_sceneId g) (g_sceneVersion g) d = Some v
          \<and> ''shell'' \<notin> set (sv_riskFlags v) \<and> (\<exists>n. extractScenesJson x (sv_content v) = Some (n, vs))) rest parts"
    by auto
  with v show ?case by (intro exI [of _ "(s, v, vs) # parts"]) (auto simp: riskFlagShell_def)
qed simp

lemma payload_served:
  assumes gate: "scene_gate acc d requested = None" and keyed: "keyed ss_id (storeScenes d)"
    and built: "buildScenesPayloadForFrame x fid (replace_assignments fid requested d) = Inr (scenes, checksum, names)"
  shows "\<exists>parts. list_all2 (served_scene x acc d) requested parts \<and> scenes = concat (map (\<lambda>(s, v, vs). vs) parts)
    \<and> checksum = sha256_hex x (json_text (JArr scenes)) \<and> utf8_bytes (json_text (JArr scenes)) \<le> maxScenesPayloadBytes"
proof -
  let ?d = "replace_assignments fid requested d" and ?new = "new_assignments fid requested"
  define sc where "sc k = the (select_one (\<lambda>s. ss_id s = k) (storeScenes d))" for k
  have sc: "sc k \<in> set (storeScenes d) \<and> ss_id (sc k) = k \<and> (ss_accountId (sc k) = acc \<or> ss_visibility (sc k) = ''public'')"
    if "(k, v) \<in> set requested" for k v
    using gate_passes [OF gate that] by (auto simp: sc_def dest: select_one_Some)
  have rows: "assigned_scenes fid ?d = map (\<lambda>g. (g, sc (g_sceneId g))) ?new"
    by (rule assigned_after_replace [OF keyed]) (use sc in blast)
  have same: "pinnedSceneVersion k v ?d = pinnedSceneVersion k v d" for k v
    by (simp add: pinnedSceneVersion_def replace_assignments_def)
  obtain out where c: "collect_scenes x ?d 0 [] [] (assigned_scenes fid ?d) = Inr (scenes, out)"
    and small: "checksum = sha256_hex x (json_text (JArr scenes))" "utf8_bytes (json_text (JArr scenes)) \<le> maxScenesPayloadBytes"
    using built by (auto simp: buildScenesPayloadForFrame_def Let_def split: sum.splits if_splits)
  from collected [OF c] obtain parts where parts: "scenes = concat (map (\<lambda>(s, v, vs). vs) parts)"
    "list_all2 (\<lambda>g (s', v, vs). s' = sc (g_sceneId g) \<and> ss_status (sc (g_sceneId g)) = ''active''
       \<and> pinnedSceneVersion (g_sceneId g) (g_sceneVersion g) d = Some v
       \<and> ''shell'' \<notin> set (sv_riskFlags v) \<and> (\<exists>n. extractScenesJson x (sv_content v) = Some (n, vs))) ?new parts"
    by (auto simp: rows list_all2_map1 same)
  have "list_all2 (\<lambda>g part. served_scene x acc d (g_sceneId g, g_sceneVersion g) part) ?new parts"
  proof (rule list.rel_mono_strong [OF parts(2)])
    fix g part
    assume "g \<in> set ?new" "part \<in> set parts" and p: "case part of (s', v, vs) \<Rightarrow> s' = sc (g_sceneId g) \<and> ss_status (sc (g_sceneId g)) = ''active''
       \<and> pinnedSceneVersion (g_sceneId g) (g_sceneVersion g) d = Some v
       \<and> ''shell'' \<notin> set (sv_riskFlags v) \<and> (\<exists>n. extractScenesJson x (sv_content v) = Some (n, vs))"
    then have "(g_sceneId g, g_sceneVersion g) \<in> set (map (\<lambda>g. (g_sceneId g, g_sceneVersion g)) ?new)" by (simp add: image_iff) blast
    then have "(g_sceneId g, g_sceneVersion g) \<in> set requested" by (simp only: new_assignments_facts(1))
    with p sc pinned_version show "served_scene x acc d (g_sceneId g, g_sceneVersion g) part"
      by (fastforce simp: served_scene_def)
  qed
  then have "list_all2 (served_scene x acc d) (map (\<lambda>g. (g_sceneId g, g_sceneVersion g)) ?new) parts"
    by (simp add: list_all2_map1)
  then show ?thesis using parts(1) small by (auto simp: new_assignments_facts(1))
qed

text \<open>What an entry of the request asks for: a scene, and the version it names or the newest one.\<close>

definition asks_for :: "json \<Rightarrow> uuid \<times> int option \<Rightarrow> bool" where
  "asks_for entry = (\<lambda>(sceneId, v). map_of (obj_fields (Some entry)) ''scene_id'' = Some (JStr sceneId)
     \<and> (case v of
          None \<Rightarrow> map_of (obj_fields (Some entry)) ''scene_version'' \<in> {None, Some JNull}
        | Some n \<Rightarrow> 1 \<le> n \<and> map_of (obj_fields (Some entry)) ''scene_version'' = Some (JNum (of_int n))))"

lemma integer_floor: "is_integer q \<Longrightarrow> of_int \<lfloor>q\<rfloor> = q"
proof -
  assume "is_integer q"
  then have "quotient_of q = (fst (quotient_of q), 1)" by (simp add: is_integer_def prod_eq_iff)
  from quotient_of_div [OF this] show ?thesis by (metis div_by_1 floor_of_int of_int_1)
qed

lemma requested_version_asked:
  "requested_version j = Some v \<Longrightarrow>
    (case v of None \<Rightarrow> j \<in> {None, Some JNull} | Some n \<Rightarrow> 1 \<le> n \<and> j = Some (JNum (of_int n)))"
  by (auto simp: requested_version_def integer_floor le_floor_iff not_less split: option.splits json.splits if_splits)

lemma requested_as_asked:
  "requested_scenes seen entries = Inr requested \<Longrightarrow> distinct (map fst seen) \<Longrightarrow>
    \<exists>new. requested = seen @ new \<and> list_all2 asks_for entries new \<and> distinct (map fst requested)"
proof (induction seen entries rule: requested_scenes.induct)
  case (2 seen entry entries)
  then obtain sceneId v where e: "map_of (obj_fields (Some entry)) ''scene_id'' = Some (JStr sceneId)" "is_frame_id_text sceneId"
      "requested_version (map_of (obj_fields (Some entry)) ''scene_version'') = Some v" "sceneId \<notin> fst ` set seen"
    and r: "requested_scenes (seen @ [(sceneId, v)]) entries = Inr requested"
    by (auto elim!: str_of.elims split: option.splits json.splits if_splits)
  have "asks_for entry (sceneId, v)" using e(1) requested_version_asked [OF e(3)] by (simp add: asks_for_def)
  moreover obtain new where "requested = (seen @ [(sceneId, v)]) @ new" "list_all2 asks_for entries new" "distinct (map fst requested)"
    using "2.IH" [OF _ _ e(3,4) r] e(1,2) "2.prems"(2) e(4) by auto
  ultimately show ?case by (intro exI [of _ "(sceneId, v) # new"]) simp
qed simp

text \<open>
  C20.  What a frame is told to render.  When an assignment succeeds, the frame of the path is an active frame of the
  account, its outstanding scene pushes are superseded by one new pending command, and the scenes of that
  command are those of the entries of the request, in their order and at the versions they name: each of an active scene the account
  owns or that is public, the newest unyanked version when none is pinned, and never one flagged
  \<open>shell\<close>.  The command and the frame carry the digest of this payload, which fits its bound.  Any
  refusal leaves the database as it was.
\<close>

theorem assigned_scenes_safe:
  assumes "assign_scenes x env rq frameId acc profile d = (d', r)" and "keyed ss_id (storeScenes d)"
  shows "if rs_status r = 200
    then (\<exists>f entries requested parts c payload checksum. f \<in> set (frames d) \<and> f_accountId f = acc \<and> f_status f = FrameActive
        \<and> f_id f = js_lower frameId
        \<and> map_of (readJsonObject rq) ''scenes'' = Some (JArr entries) \<and> list_all2 asks_for entries requested
        \<and> distinct (map fst requested)
        \<and> list_all2 (served_scene x acc d) requested parts
        \<and> map (\<lambda>g. (g_sceneId g, g_sceneVersion g)) (filter (\<lambda>g. g_frameId g = f_id f) (assignments d')) = requested
        \<and> commands d' = commands (supersedePendingCommands (f_id f) ''set_scenes'' d) @ [c]
        \<and> c_frameId c = f_id f \<and> c_type c = ''set_scenes'' \<and> c_status c = CmdPending \<and> c_payload c = JObj payload
        \<and> map_of payload ''scenes'' = Some (JArr (concat (map (\<lambda>(s, v, vs). vs) parts)))
        \<and> checksum = sha256_hex x (json_text (JArr (concat (map (\<lambda>(s, v, vs). vs) parts))))
        \<and> utf8_bytes (json_text (JArr (concat (map (\<lambda>(s, v, vs). vs) parts)))) \<le> maxScenesPayloadBytes
        \<and> map_of payload ''checksum'' = Some (JStr checksum)
        \<and> frames d' = update_where (\<lambda>q. f_id q = f_id f) (\<lambda>q. q\<lparr>f_assignedChecksum := Some checksum, f_updatedAt := we_now env\<rparr>) (frames d))
    else d' = d"
proof (cases "rs_status r = 200")
  case False
  have push: "e = q" if "push_scenes x env rq acc profile req f q = (e, r)" for req f e q
    using that False by (auto simp: push_scenes_def Let_def enqueueFrameCommand_def split: sum.splits)
  have "d' = d" using assms(1) False
    by (auto simp: assign_scenes_def with_active_frame_def with_frame_def dest: push
        split: option.splits if_splits json.splits sum.splits)
  with False show ?thesis by simp
next
  case True
  have gate_status: "scene_gate acc d req = Some r' \<Longrightarrow> rs_status r' \<noteq> 200" for req r'
    by (induction acc d req rule: scene_gate.induct) (auto split: option.splits if_splits)
  obtain f entries requested where f: "frameForAccount acc frameId d = Some f" "f_status f = FrameActive"
    and asked: "map_of (readJsonObject rq) ''scenes'' = Some (JArr entries)" "requested_scenes [] entries = Inr requested"
    and gate: "scene_gate acc d requested = None" and push: "push_scenes x env rq acc profile requested f d = (d', r)"
    using assms(1) True gate_status
    by (auto simp: assign_scenes_def with_active_frame_def with_frame_def
        split: option.splits if_splits json.splits sum.splits)
  obtain scenes checksum names where b: "buildScenesPayloadForFrame x (f_id f) (replace_assignments (f_id f) requested d) = Inr (scenes, checksum, names)"
    using push True by (auto simp: push_scenes_def Let_def split: sum.splits)
  from payload_served [OF gate assms(2) b] obtain parts where parts: "list_all2 (served_scene x acc d) requested parts"
    "scenes = concat (map (\<lambda>(s, v, vs). vs) parts)" "checksum = sha256_hex x (json_text (JArr scenes))"
    "utf8_bytes (json_text (JArr scenes)) \<le> maxScenesPayloadBytes" by blast
  define payload where "payload = [(''checksum'', JStr checksum), (''scenes'', JArr scenes)]
      @ opt_field ''scene_id'' (map_option JStr (active_scene_id (readJsonObject rq)))"
  define c where "c = new_command (we_uuid env 0) (f_id f) ''set_scenes'' (Some (JObj payload)) (Some acc) None (we_now env)"
  have d': "frames d' = update_where (\<lambda>q. f_id q = f_id f) (\<lambda>q. q\<lparr>f_assignedChecksum := Some checksum, f_updatedAt := we_now env\<rparr>) (frames d)"
    "commands d' = commands (supersedePendingCommands (f_id f) ''set_scenes'' d) @ [c]"
    "assignments d' = assignments (replace_assignments (f_id f) requested d)"
    using push b
    by (auto simp: push_scenes_def Let_def enqueueFrameCommand_def supersedePendingCommands_def replace_assignments_def
        c_def payload_def)
  have "filter (\<lambda>g. g_frameId g = f_id f) (delete_where (\<lambda>g. g_frameId g = f_id f) (assignments d)) = []"
    by (simp add: delete_where_def)
  moreover have "filter (\<lambda>g. g_frameId g = f_id f) (new_assignments (f_id f) requested) = new_assignments (f_id f) requested"
    using new_assignments_facts(2) by (auto intro: filter_True)
  ultimately have asg: "map (\<lambda>g. (g_sceneId g, g_sceneVersion g)) (filter (\<lambda>g. g_frameId g = f_id f) (assignments d')) = requested"
    unfolding d'(3) using new_assignments_facts(1) by (simp add: replace_assignments_def flip: new_assignments_def)
  have c: "c_frameId c = f_id f" "c_type c = ''set_scenes''" "c_status c = CmdPending" "c_payload c = JObj payload"
    by (simp_all add: c_def new_command_def)
  have req: "list_all2 asks_for entries requested" "distinct (map fst requested)"
    using requested_as_asked [OF asked(2)] by auto
  have fs: "f \<in> set (frames d)" "f_accountId f = acc" "f_id f = js_lower frameId"
    using f(1) by (auto simp: frameForAccount_def split: if_splits dest!: select_one_Some)
  have pl: "map_of payload ''scenes'' = Some (JArr scenes)" "map_of payload ''checksum'' = Some (JStr checksum)"
    by (simp_all add: payload_def)
  show ?thesis unfolding if_P [OF True]
    by (intro exI [of _ f] exI [of _ entries] exI [of _ requested] exI [of _ parts] exI [of _ c] exI [of _ payload] exI [of _ checksum] conjI
        fs f(2) asked(1) req parts(1) asg d'(2) c pl(2) d'(1))
      (use pl(1) parts in simp_all)
qed

definition demo_uuid :: string where "demo_uuid = replicate 36 (CHR ''0'')"

definition demo_scene_frame :: frame where
  "demo_scene_frame = new_frame demo_uuid ''a'' ''l'' ''n'' ''k'' JNull None FrameActive 0"

definition demo_scene :: store_scene where
  "demo_scene = \<lparr>ss_id = demo_uuid, ss_accountId = ''b'', ss_category = None, ss_description = None, ss_downloadCount = 0,
     ss_featuredAt = None, ss_frameosVersion = None, ss_linkedClientId = None, ss_latestVersion = 1, ss_name = ''Clock'',
     ss_previewImage = None, ss_previewImageHeight = None, ss_previewImageType = None, ss_previewImageWidth = None,
     ss_pulledAt = None, ss_pulledReason = None, ss_riskFlags = [], ss_shareToken = ''t'', ss_slug = ''clock'',
     ss_status = ''active'', ss_tags = [], ss_visibility = ''public'', ss_createdAt = 0, ss_updatedAt = 0\<rparr>"

definition demo_version :: scene_version where
  "demo_version = \<lparr>sv_id = ''v'', sv_content = ''[1]'', sv_contentType = ''application/zip'', sv_frameosVersion = None,
     sv_publishedBy = None, sv_riskFlags = [], sv_sceneId = demo_uuid, sv_sha256 = ''h[1]'', sv_sizeBytes = 3,
     sv_version = 1, sv_yankedAt = None, sv_createdAt = 0\<rparr>"

definition scenes_db :: db where
  "scenes_db = empty_db\<lparr>frames := [demo_scene_frame], storeScenes := [demo_scene], sceneVersions := [demo_version]\<rparr>"

definition scenes_request :: web_request where
  "scenes_request = demo_web_request (Some (JObj [(''scenes'', JArr [JObj [(''scene_id'', JStr demo_uuid)]])]))"

lemma demo_uuid_facts: "is_frame_id_text demo_uuid" "js_lower demo_uuid = demo_uuid"
  by code_simp+

lemma demo_extract: "extractScenesJson sample_ext ''[1]'' = Some (3, [JNum 1])"
proof -
  have "json_parse (utf8_decode ''[1]'') = Some (JArr [JNum 1])" by code_simp
  moreover have "named_file ''scenes.json'' ''scenes.json''" by (simp add: named_file_def)
  ultimately show ?thesis
    by (simp add: extractScenesJson_def unzipSync_def sample_ext_def maxSceneZipEntries_def maxSceneZipUncompressedBytes_def)
qed

lemma demo_assignment:
  "rs_status (snd (assign_scenes sample_ext (demo_env 1) scenes_request demo_uuid ''a'' [] scenes_db)) = 200"
proof -
  have f: "frameForAccount ''a'' demo_uuid scenes_db = Some demo_scene_frame"
    by (simp add: frameForAccount_def isFrameId_def demo_uuid_facts scenes_db_def select_one_def demo_scene_frame_def new_frame_def)
  have body: "map_of (readJsonObject scenes_request) ''scenes'' = Some (JArr [JObj [(''scene_id'', JStr demo_uuid)]])"
    by (simp add: scenes_request_def demo_web_request_def readJsonObject_def)
  have v: "pinnedSceneVersion demo_uuid None d = Some demo_version" if "sceneVersions d = [demo_version]" for d
    by (simp add: pinnedSceneVersion_def select_desc_def that demo_version_def)
  have gate: "scene_gate ''a'' scenes_db [(demo_uuid, None)] = None"
    using v [of scenes_db] by (simp add: scenes_db_def select_one_def demo_scene_def demo_version_def)
  have rows: "assigned_scenes demo_uuid (replace_assignments demo_uuid [(demo_uuid, None)] scenes_db)
      = [(\<lparr>g_frameId = demo_uuid, g_sceneId = demo_uuid, g_sceneVersion = None, g_position = 0\<rparr>, demo_scene)]"
    by (simp add: assigned_scenes_def replace_assignments_def scenes_db_def empty_db_def select_asc_def demo_scene_def)
  have size: "utf8_bytes (json_text (JArr [JNum 1])) = 3" by code_simp
  have "sceneVersions (replace_assignments demo_uuid [(demo_uuid, None)] scenes_db) = [demo_version]"
    by (simp add: replace_assignments_def scenes_db_def)
  note v = v [OF this]
  have "\<exists>p. buildScenesPayloadForFrame sample_ext demo_uuid (replace_assignments demo_uuid [(demo_uuid, None)] scenes_db) = Inr p"
    using v demo_extract size
    by (simp add: buildScenesPayloadForFrame_def rows demo_scene_def demo_version_def maxScenesPayloadBytes_def Let_def)
  then obtain p where p: "buildScenesPayloadForFrame sample_ext demo_uuid (replace_assignments demo_uuid [(demo_uuid, None)] scenes_db) = Inr p" ..
  have fid: "f_id demo_scene_frame = demo_uuid" "f_status demo_scene_frame = FrameActive"
    by (simp_all add: demo_scene_frame_def new_frame_def)
  have "rs_status (snd (push_scenes sample_ext (demo_env 1) scenes_request ''a'' [] [(demo_uuid, None)] demo_scene_frame scenes_db)) = 200"
    by (cases p) (simp add: push_scenes_def fid p Let_def enqueueFrameCommand_def)
  then show ?thesis
    by (simp add: assign_scenes_def with_active_frame_def with_frame_def f fid body maxScenesPerFrame_def demo_uuid_facts
        requested_version_def gate del: scene_gate.simps)
qed

theorem assigned_scenes_safe_witness:
  "\<exists>c. c \<in> set (commands (fst (assign_scenes sample_ext (demo_env 1) scenes_request demo_uuid ''a'' [] scenes_db)))
     \<and> c_type c = ''set_scenes'' \<and> c_status c = CmdPending"
proof -
  obtain d' r where a: "assign_scenes sample_ext (demo_env 1) scenes_request demo_uuid ''a'' [] scenes_db = (d', r)" by force
  have "rs_status r = 200" using demo_assignment by (simp add: a)
  moreover have "keyed ss_id (storeScenes scenes_db)" by (simp add: scenes_db_def keyed_def)
  ultimately show ?thesis using assigned_scenes_safe [OF a] by (auto simp: a)
qed

end
