(* ===== verification/FrameVerbs.thy ===== *)
theory FrameVerbs imports FrameScenes begin

text \<open>
  What the owner of a frame can ask of it: confirmation, revocation, deletion
  (\<open>app/api/frames/[frameId]/confirm\<close>, \<open>revoke\<close>, \<open>route.ts\<close>), the declarative settings push
  (\<open>validateFrameSettings\<close> of \<open>frames.ts\<close>, \<open>settings/route.ts\<close>), the one-shot verbs
  (\<open>command/route.ts\<close>) and the event surface of the workspace (\<open>event/[eventName]/route.ts\<close>).
\<close>

section \<open>Settings\<close>

text \<open>The \<open>Map\<close> of the settings a push may carry, each with its check.\<close>

definition one_of_strings :: "string list \<Rightarrow> json \<Rightarrow> bool" where
  "one_of_strings ss v = (case v of JStr s \<Rightarrow> s \<in> set ss | _ \<Rightarrow> False)"

definition allowedFrameSettings :: "(string \<times> (json \<Rightarrow> bool)) list" where
  "allowedFrameSettings =
     [(''debug'', \<lambda>v. case v of JBool _ \<Rightarrow> True | _ \<Rightarrow> False),
      (''interval'', \<lambda>v. case v of JNum q \<Rightarrow> q \<ge> 1 \<and> q \<le> 60 * 60 * 24 | _ \<Rightarrow> False),
      (''name'', \<lambda>v. case v of JStr s \<Rightarrow> length s > 0 \<and> length s \<le> 256 | _ \<Rightarrow> False),
      (''rotate'', \<lambda>v. v = JNum 0 \<or> v = JNum 90 \<or> v = JNum 180 \<or> v = JNum 270),
      (''scaling_mode'', one_of_strings [''contain'', ''cover'', ''stretch'', ''center'']),
      (''timezone'', \<lambda>v. case v of JStr s \<Rightarrow> length s \<le> 64 | _ \<Rightarrow> False)]"

definition setting_ok :: "string \<times> json \<Rightarrow> bool" where
  "setting_ok kv = (case map_of allowedFrameSettings (fst kv) of None \<Rightarrow> False | Some check \<Rightarrow> check (snd kv))"

definition validateFrameSettings :: "json option \<Rightarrow> string + fields" where
  "validateFrameSettings v =
     (case v of
        Some (JObj entries) \<Rightarrow>
          if entries = [] then Inl ''invalid_settings''
          else if list_all setting_ok entries then Inr entries else Inl ''setting_not_allowed''
      | _ \<Rightarrow> Inl ''invalid_settings'')"

definition is_esp32 :: "frame \<Rightarrow> bool" where
  "is_esp32 f =
     (case map_of (obj_fields (Some (f_hardware f))) ''platform'' of
        Some (JStr platform) \<Rightarrow> js_starts_with ''esp32'' (js_lower platform)
      | _ \<Rightarrow> False)"

definition esp32SettableKeys :: "string list" where "esp32SettableKeys = [''interval'', ''name'']"

definition rename_frame :: "time \<Rightarrow> uuid \<Rightarrow> fields \<Rightarrow> db \<Rightarrow> db" where
  "rename_frame now fid settings d =
     (case map_of settings ''name'' of
        Some (JStr name) \<Rightarrow>
          d\<lparr>frames := update_where (\<lambda>q. f_id q = fid) (\<lambda>q. q\<lparr>f_name := name, f_updatedAt := now\<rparr>) (frames d)\<rparr>
      | _ \<Rightarrow> d)"

definition push_settings ::
  "web_env \<Rightarrow> web_request \<Rightarrow> uuid \<Rightarrow> fields \<Rightarrow> fields \<Rightarrow> frame \<Rightarrow> db \<Rightarrow> db \<times> http_response" where
  "push_settings env rq accountId profile settings f d =
     (let needsDevicePush = (\<not> is_esp32 f \<or> (\<exists>key\<in>set (map fst settings). key \<noteq> ''name''));
          d1 = rename_frame (we_now env) (f_id f) settings d;
          (d2, cid) = (if needsDevicePush
                       then let (d', c) = enqueueFrameCommand (we_uuid env 0) (f_id f) ''set_settings''
                                  (Some (JObj [(''settings'', JObj settings)])) (Some accountId) None (we_now env)
                                  (supersedePendingCommands (f_id f) ''set_settings'' d1)
                            in (d', Some (c_id c))
                       else (d1, None))
      in (recordAuditEvent rq (Some accountId) (session_actor accountId profile) ''frame.settings_pushed''
            (JObj [(''keys'', JArr (map (\<lambda>(k, v). JStr k) settings))])
            (JObj (opt_field ''commandId'' (map_option JStr cid) @ [(''frameId'', JStr (f_id f))])) d2,
          jsonOk [(''command_id'', json_of_str cid),
                  (''status'', JStr (if cid = None then ''applied'' else ''queued''))]))"

definition frame_settings :: "web_env \<Rightarrow> web_request \<Rightarrow> string \<Rightarrow> uuid \<Rightarrow> fields \<Rightarrow> db \<Rightarrow> db \<times> http_response" where
  "frame_settings env rq frameId accountId profile =
     with_active_frame accountId frameId (\<lambda>f d.
       case validateFrameSettings (map_of (readJsonObject rq) ''settings'') of
         Inl error \<Rightarrow> (d, jsonError error 400 [])
       | Inr settings \<Rightarrow>
           if is_esp32 f \<and> (\<exists>key\<in>set (map fst settings). key \<notin> set esp32SettableKeys)
           then (d, jsonError ''settings_not_supported_by_device'' 400 [])
           else push_settings env rq accountId profile settings f d)"

definition settings_route :: "ext \<Rightarrow> web_env \<Rightarrow> string \<Rightarrow> web_request \<Rightarrow> world \<Rightarrow> world \<times> http_response" where
  "settings_route x env frameId rq =
     owner_route x env rq ''frames:settings'' 120 (15 * 60 * 1000) (frame_settings env rq frameId)"

section \<open>Confirming, revoking and deleting\<close>

definition confirm_frame :: "web_env \<Rightarrow> web_request \<Rightarrow> string \<Rightarrow> uuid \<Rightarrow> fields \<Rightarrow> db \<Rightarrow> db \<times> http_response" where
  "confirm_frame env rq frameId accountId profile =
     with_frame accountId frameId (\<lambda>f d.
       if f_status f = FrameRevoked then (d, jsonError ''frame_revoked'' 409 [])
       else
         (if f_status f \<noteq> FrameActive
          then recordAuditEvent rq (Some accountId) (session_actor accountId profile) ''frame.confirmed'' JNull
                 (JObj [(''frameId'', JStr (f_id f))])
                 (d\<lparr>frames := update_where (\<lambda>q. f_id q = f_id f)
                     (\<lambda>q. q\<lparr>f_status := FrameActive, f_updatedAt := we_now env\<rparr>) (frames d)\<rparr>)
          else d,
          jsonOk [(''frame'', JObj (obj_spread (frameSummary f) [(''status'', JStr ''active'')])),
                  (''status'', JStr ''active'')]))"

definition confirm_route :: "ext \<Rightarrow> web_env \<Rightarrow> string \<Rightarrow> web_request \<Rightarrow> world \<Rightarrow> world \<times> http_response" where
  "confirm_route x env frameId rq =
     owner_route x env rq ''frames:confirm'' 60 (15 * 60 * 1000) (confirm_frame env rq frameId)"

definition frame_target :: "frame \<Rightarrow> json" where
  "frame_target f = JObj [(''frameId'', JStr (f_id f)), (''linkedClientId'', JStr (f_linkedClientId f))]"

definition revoke_frame :: "web_env \<Rightarrow> web_request \<Rightarrow> string \<Rightarrow> uuid \<Rightarrow> fields \<Rightarrow> db \<Rightarrow> db \<times> http_response" where
  "revoke_frame env rq frameId accountId profile =
     with_frame accountId frameId (\<lambda>f d.
       (recordAuditEvent rq (Some accountId) (session_actor accountId profile) ''frame.revoked'' JNull (frame_target f)
          (revokeFrame (f_id f) (f_linkedClientId f) (we_now env) d),
        jsonOk [(''status'', JStr ''revoked'')]))"

definition revoke_route :: "ext \<Rightarrow> web_env \<Rightarrow> string \<Rightarrow> web_request \<Rightarrow> world \<Rightarrow> world \<times> http_response" where
  "revoke_route x env frameId rq =
     owner_route x env rq ''frames:revoke'' 60 (15 * 60 * 1000) (revoke_frame env rq frameId)"

text \<open>
  \<open>DELETE FROM frames\<close> with its foreign keys: what references the frame goes, claim tokens keep their
  row without it.
\<close>

definition delete_frame_rows :: "uuid \<Rightarrow> db \<Rightarrow> db" where
  "delete_frame_rows fid d =
     d\<lparr>frames := delete_where (\<lambda>q. f_id q = fid) (frames d),
       claimTokens := update_where (\<lambda>t. t_frameId t = Some fid) (\<lambda>t. t\<lparr>t_frameId := None\<rparr>) (claimTokens d),
       assignments := delete_where (\<lambda>g. g_frameId g = fid) (assignments d),
       commands := delete_where (\<lambda>c. c_frameId c = fid) (commands d),
       assetListings := delete_where (\<lambda>r. al_frameId r = fid) (assetListings d),
       assetFiles := delete_where (\<lambda>r. af_frameId r = fid) (assetFiles d),
       frameLogs := delete_where (\<lambda>r. tr_frameId r = fid) (frameLogs d),
       frameMetrics := delete_where (\<lambda>r. tr_frameId r = fid) (frameMetrics d)\<rparr>"

definition delete_frame :: "web_env \<Rightarrow> web_request \<Rightarrow> string \<Rightarrow> uuid \<Rightarrow> fields \<Rightarrow> db \<Rightarrow> db \<times> http_response" where
  "delete_frame env rq frameId accountId profile =
     with_frame accountId frameId (\<lambda>f d.
       let d1 = (if f_status f \<noteq> FrameRevoked then revokeFrame (f_id f) (f_linkedClientId f) (we_now env) d else d)
       in (recordAuditEvent rq (Some accountId) (session_actor accountId profile) ''frame.deleted''
             (JObj [(''name'', JStr (f_name f))]) (frame_target f) (delete_frame_rows (f_id f) d1),
           jsonOk [(''status'', JStr ''deleted'')]))"

definition delete_route :: "ext \<Rightarrow> web_env \<Rightarrow> string \<Rightarrow> web_request \<Rightarrow> world \<Rightarrow> world \<times> http_response" where
  "delete_route x env frameId rq =
     owner_route x env rq ''frames:delete'' 60 (15 * 60 * 1000) (delete_frame env rq frameId)"

section \<open>One-shot verbs\<close>

definition allowedFrameCommandTypes :: "string list" where
  "allowedFrameCommandTypes =
     [''notify_update_available'', ''reboot'', ''render'', ''restart_runtime'', ''set_current_scene'']"

definition commandTtlMs :: int where "commandTtlMs = 5 * 60 * 1000"
definition updateNotifyTtlMs :: int where "updateNotifyTtlMs = 24 * 60 * 60 * 1000"

definition command_payload :: "string \<Rightarrow> fields \<Rightarrow> json option option" where
  "command_payload type body =
     (if type = ''set_current_scene''
      then (case parseOptionalString (map_of body ''scene_id'') of
              None \<Rightarrow> None
            | Some sceneId \<Rightarrow>
                if length sceneId > 256 then None else Some (Some (JObj [(''scene_id'', JStr sceneId)])))
      else Some None)"

definition frame_command :: "web_env \<Rightarrow> web_request \<Rightarrow> string \<Rightarrow> uuid \<Rightarrow> fields \<Rightarrow> db \<Rightarrow> db \<times> http_response" where
  "frame_command env rq frameId accountId profile =
     with_active_frame accountId frameId (\<lambda>f d.
       let body = readJsonObject rq;
           type = (case parseOptionalString (map_of body ''type'') of None \<Rightarrow> [] | Some s \<Rightarrow> s)
       in if type \<notin> set allowedFrameCommandTypes then (d, jsonError ''invalid_command'' 400 [])
          else (case command_payload type body of
                  None \<Rightarrow> (d, jsonError ''invalid_command'' 400 [])
                | Some payload \<Rightarrow>
                    (let notify = (type = ''notify_update_available'');
                         d1 = (if notify then supersedePendingCommands (f_id f) type d else d);
                         (d2, c) = enqueueFrameCommand (we_uuid env 0) (f_id f) type payload (Some accountId)
                           (Some (if notify then updateNotifyTtlMs else commandTtlMs)) (we_now env) d1
                     in (recordAuditEvent rq (Some accountId) (session_actor accountId profile) ''frame.command_sent''
                           (JObj [(''type'', JStr type)])
                           (JObj [(''commandId'', JStr (c_id c)), (''frameId'', JStr (f_id f))]) d2,
                         jsonOk [(''command_id'', JStr (c_id c)), (''status'', JStr ''queued'')]))))"

definition command_route :: "ext \<Rightarrow> web_env \<Rightarrow> string \<Rightarrow> web_request \<Rightarrow> world \<Rightarrow> world \<times> http_response" where
  "command_route x env frameId rq =
     owner_route x env rq ''frames:command'' 120 (15 * 60 * 1000) (frame_command env rq frameId)"

section \<open>Events of the workspace\<close>

definition eventCommandTtlMs :: int where "eventCommandTtlMs = 5 * 60 * 1000"
definition maxEventSceneIdChars :: nat where "maxEventSceneIdChars = 256"
definition maxEventStateBytes :: nat where "maxEventStateBytes = 16 * 1024"
definition maxScenesPerUpload :: nat where "maxScenesPerUpload = 20"

definition event_scene_id :: "fields \<Rightarrow> string option" where
  "event_scene_id body =
     (case parseOptionalString (map_of body ''sceneId'') of
        None \<Rightarrow> parseOptionalString (map_of body ''scene_id'')
      | Some s \<Rightarrow> Some s)"

definition event_state :: "fields \<Rightarrow> json option" where
  "event_state body =
     (case map_of body ''state'' of
        Some v \<Rightarrow> if isRecord (Some v) \<and> json_bytes v \<le> maxEventStateBytes then Some v else None
      | None \<Rightarrow> None)"

text \<open>The verb an event becomes with its payload, or the refusal.\<close>

definition event_verb :: "ext \<Rightarrow> string \<Rightarrow> fields \<Rightarrow> http_response + (string \<times> json option)" where
  "event_verb x eventName body =
     (let sceneId = event_scene_id body;
          too_long = (case sceneId of None \<Rightarrow> False | Some s \<Rightarrow> length s > maxEventSceneIdChars);
          state = opt_field ''state'' (event_state body)
      in if eventName = ''render'' then Inr (''render'', None)
         else if eventName = ''setCurrentScene''
         then (case sceneId of
                 None \<Rightarrow> Inl (jsonError ''invalid_scene_id'' 400 [])
               | Some s \<Rightarrow>
                   if too_long then Inl (jsonError ''invalid_scene_id'' 400 [])
                   else Inr (''set_current_scene'', Some (JObj ([(''scene_id'', JStr s)] @ state))))
         else if eventName = ''uploadScenes''
         then (case map_of body ''scenes'' of
                 Some (JArr scenes) \<Rightarrow>
                   if scenes = [] \<or> length scenes > maxScenesPerUpload then Inl (jsonError ''invalid_scenes'' 400 [])
                   else
                     (let serialized = json_text (JArr scenes)
                      in if utf8_bytes serialized > maxScenesPayloadBytes
                         then Inl (jsonError ''scenes_payload_too_large'' 400 [])
                         else if too_long then Inl (jsonError ''invalid_scene_id'' 400 [])
                         else Inr (''set_scenes'', Some (JObj ([(''checksum'', JStr (sha256_hex x serialized)),
                                (''scenes'', JArr scenes)] @ opt_field ''scene_id'' (map_option JStr sceneId) @ state))))
               | _ \<Rightarrow> Inl (jsonError ''invalid_scenes'' 400 []))
         else Inl (jsonError ''unsupported_event'' 404 []))"

definition frame_event ::
  "ext \<Rightarrow> web_env \<Rightarrow> web_request \<Rightarrow> string \<Rightarrow> string \<Rightarrow> uuid \<Rightarrow> fields \<Rightarrow> db \<Rightarrow> db \<times> http_response" where
  "frame_event x env rq frameId eventName accountId profile =
     with_active_frame accountId frameId (\<lambda>f d.
       case event_verb x eventName (readJsonObject rq) of
         Inl refusal \<Rightarrow> (d, refusal)
       | Inr (type, payload) \<Rightarrow>
           (let d1 = (if type = ''set_scenes'' then supersedePendingCommands (f_id f) ''set_scenes'' d else d);
                (d2, c) = enqueueFrameCommand (we_uuid env 0) (f_id f) type payload (Some accountId)
                  (if type = ''set_scenes'' then None else Some eventCommandTtlMs) (we_now env) d1
            in (recordAuditEvent rq (Some accountId) (session_actor accountId profile) ''frame.command_sent''
                  (JObj [(''event'', JStr eventName), (''type'', JStr type)])
                  (JObj [(''commandId'', JStr (c_id c)), (''frameId'', JStr (f_id f))]) d2,
                jsonOk [(''command_id'', JStr (c_id c)), (''status'', JStr ''queued'')])))"

definition event_route :: "ext \<Rightarrow> web_env \<Rightarrow> string \<Rightarrow> string \<Rightarrow> web_request \<Rightarrow> world \<Rightarrow> world \<times> http_response" where
  "event_route x env frameId eventName rq =
     owner_route x env rq ''frames:event'' 120 (15 * 60 * 1000) (frame_event x env rq frameId eventName)"


section \<open>The guards\<close>

lemma owner_guard_refused:
  "owner_guard x env rq action limit windowMs w = (w1, Inl r) \<Longrightarrow> w_db w1 = w_db w \<and> rs_status r \<in> {401, 403, 429, 503}"
  by (auto simp: owner_guard_def session_guard_def csrfResponse_def requireDatabase_def rateLimitResponse_def limit_key_def
      tooManyRequests_def Let_def split: option.splits if_splits prod.splits)

lemma owner_guard_passed:
  "owner_guard x env rq action limit windowMs w = (w1, Inr (acc, profile)) \<Longrightarrow>
   w_db w1 = w_db w \<and> readSession x env rq (w_db w) = Some profile \<and> session_account profile = Some acc
   \<and> csrfResponse env rq = None"
  by (auto simp: owner_guard_def session_guard_def split: option.splits prod.splits dest: rateLimit_db)

lemma frameForAccount_owned: "frameForAccount acc fid d = Some f \<Longrightarrow> f \<in> set (frames d) \<and> f_accountId f = acc"
  by (auto simp: frameForAccount_def split: if_splits dest!: select_one_Some)

end
