(* ===== verification/FrameAssets.thy ===== *)
theory FrameAssets imports FrameVerbs begin

text \<open>
  The assets of a managed frame as the web application serves them: paths and the cache
  (\<open>frame-asset-cache.ts\<close>), the write verbs that wait for the device's acknowledgement
  (\<open>frame-asset-write.ts\<close> and the routes under \<open>app/api/frames/[frameId]/assets\<close>).  A handler that
  sleeps between reads takes the clock it reads and what the rest of the system does to the
  database during each sleep as arguments; its loop is a \<open>partial_function\<close>, so that not returning is
  \<open>None\<close>.
\<close>

section \<open>Paths\<close>

fun strip_dot_slash :: "string \<Rightarrow> string" where
  "strip_dot_slash path =
     (case path of
        a # b # rest \<Rightarrow> if a = CHR ''.'' \<and> b = CHR ''/'' then strip_dot_slash rest else path
      | _ \<Rightarrow> path)"

declare strip_dot_slash.simps [simp del]

definition normalizeAssetPath :: "string \<Rightarrow> string option" where
  "normalizeAssetPath raw =
     (let path = dropWhile (\<lambda>c. c = CHR ''/'') (strip_dot_slash (js_trim raw))
      in if length path = 0 \<or> length path > maxAssetPathChars \<or> ''..'' \<in> set (js_split (CHR ''/'') path)
         then None else Some path)"

definition hiddenWritePath :: "string \<Rightarrow> bool" where
  "hiddenWritePath path \<longleftrightarrow>
     (\<exists>component\<in>set (js_split (CHR ''/'') path). length component > 0 \<and> js_starts_with ''.'' component)"

definition asset_char :: "char \<Rightarrow> bool" where
  "asset_char c \<longleftrightarrow> is_alnum c \<or> c = CHR ''.'' \<or> c = CHR ''_'' \<or> c = CHR ''-''"

definition safe_chars :: "string \<Rightarrow> string" where
  "safe_chars s = map (\<lambda>c. if asset_char c then c else CHR ''_'') s"

text \<open>Removing a run of the given characters at both ends.\<close>

definition strip_ends :: "char list \<Rightarrow> string \<Rightarrow> string" where
  "strip_ends cs s = rev (dropWhile (\<lambda>c. c \<in> set cs) (rev (dropWhile (\<lambda>c. c \<in> set cs) s)))"

definition sanitizedUploadFilename :: "string \<Rightarrow> string" where
  "sanitizedUploadFilename filename =
     (let safe = strip_ends ''_.'' (safe_chars (last (js_split (CHR ''/'') filename)))
      in if length safe > 0 then safe else ''uploaded_file'')"

definition sceneSnapshotAssetPath :: "ext \<Rightarrow> string \<Rightarrow> string" where
  "sceneSnapshotAssetPath x sceneId =
     (let publicId = (if js_starts_with ''uploaded/'' sceneId then drop (length ''uploaded/'') sceneId else sceneId);
          safe = strip_ends ''_.-'' (safe_chars publicId);
          safe' = (if length safe = 0 then ''scene'' else safe)
      in ''.frameos/scene_images/'' @ take 64 safe' @ ''-'' @ md5_hex x publicId @ ''.png'')"

section \<open>The cache and the fetch commands\<close>

definition assetFetchCommandTtlMs :: int where "assetFetchCommandTtlMs = 2 * 60 * 1000"

definition cachedAssetFile :: "uuid \<Rightarrow> string \<Rightarrow> bool \<Rightarrow> db \<Rightarrow> asset_file option" where
  "cachedAssetFile frameId path thumb d =
     select_one (\<lambda>r. af_frameId r = frameId \<and> af_path r = path \<and> af_thumb r = thumb) (assetFiles d)"

definition payloadMatches :: "string \<Rightarrow> bool \<Rightarrow> json \<Rightarrow> bool" where
  "payloadMatches path thumb payload \<longleftrightarrow>
     (let record = obj_fields (Some payload)
      in map_of record ''path'' = Some (JStr path) \<and> (map_of record ''thumb'' = Some (JBool True)) = thumb)"

definition unexpired :: "time \<Rightarrow> command \<Rightarrow> bool" where
  "unexpired now c \<longleftrightarrow> (case c_expiresAt c of None \<Rightarrow> True | Some e \<Rightarrow> e > now)"

text \<open>An unexpired command of a type the device has not answered.\<close>

definition outstandingCommand :: "time \<Rightarrow> uuid \<Rightarrow> string \<Rightarrow> db \<Rightarrow> command option" where
  "outstandingCommand now frameId type d =
     select_one (\<lambda>c. c_frameId c = frameId \<and> c_type c = type \<and> outstanding (c_status c) \<and> unexpired now c) (commands d)"

definition outstandingAssetGet :: "time \<Rightarrow> uuid \<Rightarrow> string \<Rightarrow> bool \<Rightarrow> db \<Rightarrow> command option" where
  "outstandingAssetGet now frameId path thumb d =
     select_one (\<lambda>c. c_frameId c = frameId \<and> c_type c = ''asset_get'' \<and> outstanding (c_status c) \<and> unexpired now c
        \<and> payloadMatches path thumb (c_payload c)) (commands d)"

definition recentFailedAssetGet :: "time \<Rightarrow> uuid \<Rightarrow> string \<Rightarrow> bool \<Rightarrow> int \<Rightarrow> db \<Rightarrow> command option" where
  "recentFailedAssetGet now frameId path thumb withinMs d =
     select_one (\<lambda>c. c_frameId c = frameId \<and> c_type c = ''asset_get'' \<and> c_status c = CmdFailed
        \<and> c_createdAt c > now - withinMs \<and> payloadMatches path thumb (c_payload c)) (commands d)"

definition asset_get_payload :: "string \<Rightarrow> bool \<Rightarrow> json" where
  "asset_get_payload path thumb = JObj ([(''path'', JStr path)] @ (if thumb then [(''thumb'', JBool True)] else []))"

definition queueAssetGetIfIdle :: "uuid \<Rightarrow> time \<Rightarrow> uuid \<Rightarrow> uuid \<Rightarrow> string \<Rightarrow> bool \<Rightarrow> db \<Rightarrow> db" where
  "queueAssetGetIfIdle cid now accountId frameId path thumb d =
     (case outstandingAssetGet now frameId path thumb d of
        Some _ \<Rightarrow> d
      | None \<Rightarrow> fst (enqueueFrameCommand cid frameId ''asset_get'' (Some (asset_get_payload path thumb))
                 (Some accountId) (Some assetFetchCommandTtlMs) now d))"

section \<open>Dropping what the cache holds below a path\<close>

text \<open>
  \<open>LIKE\<close> of Postgres: \<open>%\<close> matches any run, \<open>_\<close> one character, a backslash makes the next one literal
  (a pattern that ends in one is an error; none here does).
\<close>

function sql_like :: "string \<Rightarrow> string \<Rightarrow> bool" where
  "sql_like [] s \<longleftrightarrow> s = []"
| "sql_like (c # p) s \<longleftrightarrow>
     (if c = CHR ''%'' then list_ex (\<lambda>n. sql_like p (drop n s)) [0..<Suc (length s)]
      else if c = CHR ''_'' then s \<noteq> [] \<and> sql_like p (tl s)
      else if c = CHR 0x5C
      then p \<noteq> [] \<and> s \<noteq> [] \<and> hd s = hd p \<and> sql_like (tl p) (tl s)
      else s \<noteq> [] \<and> hd s = c \<and> sql_like p (tl s))"
  by pat_completeness auto
termination by (relation "measure (\<lambda>(p, s). length p)") auto

declare sql_like.simps [simp del]

definition escape_like :: "string \<Rightarrow> string" where
  "escape_like path =
     concat (map (\<lambda>c. if c \<in> {CHR 0x5C, CHR ''%'', CHR ''_''} then [CHR 0x5C, c] else [c]) path)"

definition invalidateCachedAssetSubtree :: "uuid \<Rightarrow> string \<Rightarrow> db \<Rightarrow> db" where
  "invalidateCachedAssetSubtree frameId path d =
     d\<lparr>assetFiles := delete_where (\<lambda>r. af_frameId r = frameId
        \<and> (af_path r = path \<or> sql_like (escape_like path @ ''/%'') (af_path r))) (assetFiles d)\<rparr>"

section \<open>Write verbs\<close>

definition maxAssetUploadBytes :: nat where "maxAssetUploadBytes = 2621440"
definition assetWriteTtlMs :: int where "assetWriteTtlMs = 2 * 60 * 1000"
definition ackTimeoutMs :: int where "ackTimeoutMs = 30000"
definition ackPollStepMs :: int where "ackPollStepMs = 500"

datatype asset_result = AssetOk | AssetRefused string | AssetTimedOut

text \<open>
  The poll of \<open>runAssetWriteCommand\<close>: \<open>clock n\<close> is what \<open>Date.now()\<close> returns after \<open>n\<close> sleeps, \<open>others n\<close>
  what happens to the database during the next one.
\<close>

partial_function (option) await_ack ::
  "(nat \<Rightarrow> time) \<Rightarrow> (nat \<Rightarrow> db \<Rightarrow> db) \<Rightarrow> time \<Rightarrow> uuid \<Rightarrow> nat \<Rightarrow> db \<Rightarrow> (nat \<times> db \<times> asset_result) option" where
  "await_ack clock others deadline cid n d =
     (if clock n < deadline
      then (let d1 = others n d
            in case select_one (\<lambda>c. c_id c = cid) (commands d1) of
                 None \<Rightarrow> Some (n + 1, d1, AssetRefused ''command_lost'')
               | Some row \<Rightarrow>
                   if c_status row = CmdAcked then Some (n + 1, d1, AssetOk)
                   else if c_status row = CmdFailed \<or> c_status row = CmdExpired
                   then Some (n + 1, d1, AssetRefused (case c_error row of None \<Rightarrow> ''asset_write_failed'' | Some e \<Rightarrow> e))
                   else await_ack clock others deadline cid (n + 1) d1)
      else Some (n, d, AssetTimedOut))"

definition runAssetWriteCommand ::
  "web_env \<Rightarrow> (nat \<Rightarrow> time) \<Rightarrow> (nat \<Rightarrow> db \<Rightarrow> db) \<Rightarrow> uuid \<Rightarrow> uuid \<Rightarrow> string \<Rightarrow> json \<Rightarrow> db
   \<Rightarrow> (nat \<times> db \<times> asset_result) option" where
  "runAssetWriteCommand env clock others accountId frameId type payload d =
     (let (d1, c) = enqueueFrameCommand (we_uuid env 0) frameId type (Some payload) (Some accountId)
                      (Some assetWriteTtlMs) (clock 0) d
      in await_ack clock others (clock 0 + ackTimeoutMs) (c_id c) 0 d1)"

definition assetWriteErrorResponse :: "asset_result \<Rightarrow> http_response" where
  "assetWriteErrorResponse result =
     (case result of
        AssetTimedOut \<Rightarrow> jsonError ''frame_unreachable'' 504 []
      | AssetRefused error \<Rightarrow>
          jsonError error (if error = ''not_found'' then 404 else if error = ''too_large'' then 413 else 400) []
      | AssetOk \<Rightarrow> jsonOk [])"

definition queueAssetsListRefresh :: "uuid \<Rightarrow> time \<Rightarrow> uuid \<Rightarrow> uuid \<Rightarrow> db \<Rightarrow> db" where
  "queueAssetsListRefresh cid now accountId frameId d =
     fst (enqueueFrameCommand cid frameId ''assets_list'' None (Some accountId) (Some assetWriteTtlMs) now
            (supersedePendingCommands frameId ''assets_list'' d))"

section \<open>The four routes\<close>

text \<open>A multipart or urlencoded body, \<open>None\<close> when \<open>formData()\<close> throws; a file has a name and bytes.\<close>

datatype form_value = FormText string | FormFile string bytes

type_synonym form_data = "(string \<times> form_value) list"

definition form_text :: "form_data \<Rightarrow> string \<Rightarrow> string" where
  "form_text form k =
     (case map_of form k of None \<Rightarrow> [] | Some (FormText s) \<Rightarrow> s | Some (FormFile _ _) \<Rightarrow> ''[object File]'')"

text \<open>
  What a validated request asks for: the verb, its payload, the cached subtrees it makes stale, and the
  fields of the answer at the time of the answer.
\<close>

record asset_write =
  aw_type :: string
  aw_payload :: json
  aw_stale :: "string list"
  aw_answer :: "time \<Rightarrow> fields"

definition invalid_path :: http_response where
  "invalid_path = jsonError ''invalid_path'' 400 []"

definition upload_target :: "string \<Rightarrow> string \<Rightarrow> string option" where
  "upload_target rawSubdir filename =
     (let join = (\<lambda>subdir. let target = (if subdir = [] then filename else subdir @ ''/'' @ filename)
                         in if hiddenWritePath target then None else Some target)
      in if length rawSubdir > 0
         then (case normalizeAssetPath rawSubdir of None \<Rightarrow> None | Some subdir \<Rightarrow> join subdir)
         else join [])"

definition upload_request :: "ext \<Rightarrow> form_data option \<Rightarrow> http_response + asset_write" where
  "upload_request x form =
     (case form of
        None \<Rightarrow> Inl (jsonError ''invalid_form'' 400 [])
      | Some form \<Rightarrow>
          (case map_of form ''file'' of
             Some (FormFile name content) \<Rightarrow>
               if length content = 0 then Inl (jsonError ''file_empty'' 400 [])
               else if length content > maxAssetUploadBytes
               then Inl (jsonError ''too_large'' 413 [(''max_bytes'', num_of_int (int maxAssetUploadBytes))])
               else (case upload_target (js_trim (form_text form ''path'')) (sanitizedUploadFilename name) of
                       None \<Rightarrow> Inl invalid_path
                     | Some targetPath \<Rightarrow>
                         Inr \<lparr>aw_type = ''asset_put'',
                              aw_payload = JObj [(''data'', JStr (base64_encode x content)), (''path'', JStr targetPath)],
                              aw_stale = [targetPath],
                              aw_answer = (\<lambda>now. [(''is_dir'', JBool False), (''mtime'', num_of_int (now div 1000)),
                                (''path'', JStr targetPath), (''size'', num_of_int (int (length content)))])\<rparr>)
           | _ \<Rightarrow> Inl (jsonError ''file_required'' 400 [])))"

definition write_path :: "string \<Rightarrow> string option" where
  "write_path raw =
     (case normalizeAssetPath raw of
        None \<Rightarrow> None
      | Some path \<Rightarrow> if hiddenWritePath path then None else Some path)"

definition mkdir_request :: "form_data option \<Rightarrow> http_response + asset_write" where
  "mkdir_request form =
     (case form of
        None \<Rightarrow> Inl (jsonError ''invalid_form'' 400 [])
      | Some form \<Rightarrow>
          (case write_path (form_text form ''path'') of
             None \<Rightarrow> Inl invalid_path
           | Some path \<Rightarrow> Inr \<lparr>aw_type = ''asset_mkdir'', aw_payload = JObj [(''path'', JStr path)], aw_stale = [],
                            aw_answer = (\<lambda>now. [(''message'', JStr ''Created'')])\<rparr>))"

definition rename_request :: "form_data option \<Rightarrow> http_response + asset_write" where
  "rename_request form =
     (case form of
        None \<Rightarrow> Inl (jsonError ''invalid_form'' 400 [])
      | Some form \<Rightarrow>
          (case (write_path (form_text form ''src''), write_path (form_text form ''dst'')) of
             (Some src, Some dst) \<Rightarrow>
               Inr \<lparr>aw_type = ''asset_rename'', aw_payload = JObj [(''dst'', JStr dst), (''src'', JStr src)],
                    aw_stale = [src, dst], aw_answer = (\<lambda>now. [(''message'', JStr ''Renamed'')])\<rparr>
           | _ \<Rightarrow> Inl invalid_path))"

definition delete_request :: "form_data option \<Rightarrow> http_response + asset_write" where
  "delete_request form =
     (case form of
        None \<Rightarrow> Inl (jsonError ''invalid_form'' 400 [])
      | Some form \<Rightarrow>
          (case write_path (form_text form ''path'') of
             None \<Rightarrow> Inl invalid_path
           | Some path \<Rightarrow> Inr \<lparr>aw_type = ''asset_delete'', aw_payload = JObj [(''path'', JStr path)], aw_stale = [path],
                            aw_answer = (\<lambda>now. [(''message'', JStr ''Deleted'')])\<rparr>))"

definition run_asset_write ::
  "web_env \<Rightarrow> (nat \<Rightarrow> time) \<Rightarrow> (nat \<Rightarrow> db \<Rightarrow> db) \<Rightarrow> uuid \<Rightarrow> frame \<Rightarrow> asset_write \<Rightarrow> db \<Rightarrow> (db \<times> http_response) option" where
  "run_asset_write env clock others accountId f q d =
     (case runAssetWriteCommand env clock others accountId (f_id f) (aw_type q) (aw_payload q) d of
        None \<Rightarrow> None
      | Some (n, d1, AssetOk) \<Rightarrow>
          Some (queueAssetsListRefresh (we_uuid env 1) (clock n) accountId (f_id f)
                  (fold (invalidateCachedAssetSubtree (f_id f)) (aw_stale q) d1),
                jsonOk (aw_answer q (clock n)))
      | Some (n, d1, result) \<Rightarrow> Some (d1, assetWriteErrorResponse result))"

text \<open>\<open>assetWriteRequestContext\<close>: the refusal, or the account and the active frame.\<close>

definition assetWriteRequestContext ::
  "ext \<Rightarrow> web_env \<Rightarrow> web_request \<Rightarrow> string \<Rightarrow> world \<Rightarrow> world \<times> (http_response + (uuid \<times> frame))" where
  "assetWriteRequestContext x env rq frameId w =
     (case owner_guard x env rq ''frames:asset_write'' 120 (15 * 60 * 1000) w of
        (w1, Inl r) \<Rightarrow> (w1, Inl r)
      | (w1, Inr (accountId, profile)) \<Rightarrow>
          (case frameForAccount accountId frameId (w_db w1) of
             None \<Rightarrow> (w1, Inl (jsonError ''invalid_frame'' 404 []))
           | Some f \<Rightarrow>
               if f_status f \<noteq> FrameActive then (w1, Inl (jsonError ''frame_not_active'' 409 []))
               else (w1, Inr (accountId, f))))"

text \<open>A write route, for the validation of its form.\<close>

definition asset_write_route ::
  "ext \<Rightarrow> web_env \<Rightarrow> (nat \<Rightarrow> time) \<Rightarrow> (nat \<Rightarrow> db \<Rightarrow> db) \<Rightarrow> string \<Rightarrow> web_request \<Rightarrow> (http_response + asset_write) \<Rightarrow> world
   \<Rightarrow> (world \<times> http_response) option" where
  "asset_write_route x env clock others frameId rq request w =
     (case assetWriteRequestContext x env rq frameId w of
        (w1, Inl r) \<Rightarrow> Some (w1, r)
      | (w1, Inr (accountId, f)) \<Rightarrow>
          (case request of
             Inl r \<Rightarrow> Some (w1, r)
           | Inr q \<Rightarrow> map_option (\<lambda>(d, r). (w1\<lparr>w_db := d\<rparr>, r))
                       (run_asset_write env clock others accountId f q (w_db w1))))"

definition upload_route where
  "upload_route x env clock others frameId rq form = asset_write_route x env clock others frameId rq (upload_request x form)"
definition mkdir_route where
  "mkdir_route x env clock others frameId rq form = asset_write_route x env clock others frameId rq (mkdir_request form)"
definition rename_route where
  "rename_route x env clock others frameId rq form = asset_write_route x env clock others frameId rq (rename_request form)"
definition delete_asset_route where
  "delete_asset_route x env clock others frameId rq form = asset_write_route x env clock others frameId rq (delete_request form)"


section \<open>Paths stay inside\<close>

lemma strip_dot_slash_suffix: "\<exists>pre. s = pre @ strip_dot_slash s"
proof (induction s rule: strip_dot_slash.induct)
  case (1 path)
  show ?case
  proof (cases "\<exists>rest. path = CHR ''.'' # CHR ''/'' # rest")
    case True
    then obtain rest where p: "path = CHR ''.'' # CHR ''/'' # rest" by blast
    with 1 obtain pre where "rest = pre @ strip_dot_slash rest" by auto
    moreover have "strip_dot_slash path = strip_dot_slash rest"
      unfolding p by (subst strip_dot_slash.simps) simp
    ultimately show ?thesis unfolding p by (intro exI [of _ "CHR ''.'' # CHR ''/'' # pre"]) simp
  next
    case False
    then have "strip_dot_slash path = path"
      by (subst strip_dot_slash.simps) (auto split: list.splits)
    then show ?thesis by simp
  qed
qed

lemma normalized_path:
  assumes "normalizeAssetPath raw = Some p"
  shows "p \<noteq> []" "hd p \<noteq> CHR ''/''" "length p \<le> maxAssetPathChars" "''..'' \<notin> set (js_split (CHR ''/'') p)"
proof -
  define q where "q = dropWhile (\<lambda>c. c = CHR ''/'') (strip_dot_slash (js_trim raw))"
  have "p = q \<and> q \<noteq> [] \<and> length q \<le> maxAssetPathChars \<and> ''..'' \<notin> set (js_split (CHR ''/'') q)"
    using assms unfolding normalizeAssetPath_def Let_def q_def [symmetric]
    by (cases "length q = 0 \<or> length q > maxAssetPathChars \<or> ''..'' \<in> set (js_split (CHR ''/'') q)") simp_all
  moreover have "q \<noteq> [] \<Longrightarrow> hd q \<noteq> CHR ''/''" unfolding q_def by (rule hd_dropWhile)
  ultimately show "p \<noteq> []" "hd p \<noteq> CHR ''/''" "length p \<le> maxAssetPathChars"
    "''..'' \<notin> set (js_split (CHR ''/'') p)" by blast+
qed

lemma visible_path_walk: "\<not> hiddenWritePath p \<Longrightarrow> \<exists>below. walk dirs (js_split (CHR ''/'') p) = Some (below @ dirs)"
  by (rule walk_down) (auto simp: hiddenWritePath_def js_starts_with_def)

text \<open>A path a write verb may name: relative, and no component of it is hidden.\<close>

definition write_safe :: "string \<Rightarrow> bool" where
  "write_safe p \<longleftrightarrow> p \<noteq> [] \<and> hd p \<noteq> CHR ''/'' \<and> \<not> hiddenWritePath p"

lemma write_path_safe: "write_path raw = Some p \<Longrightarrow> write_safe p"
  by (auto simp: write_path_def write_safe_def normalized_path split: option.splits if_splits)

lemma set_strip_ends: "set (strip_ends cs s) \<subseteq> set s"
  unfolding strip_ends_def by (metis set_dropWhileD set_rev subsetI)

lemma upload_name: "sanitizedUploadFilename n \<noteq> [] \<and> hd (sanitizedUploadFilename n) \<noteq> CHR ''/''"
proof -
  let ?s = "strip_ends ''_.'' (safe_chars (last (js_split (CHR ''/'') n)))"
  have "CHR ''/'' \<notin> set ?s"
    using set_strip_ends [of "''_.''" "safe_chars (last (js_split (CHR ''/'') n))"]
    by (auto simp: safe_chars_def asset_char_def is_alnum_def is_digit_def is_alpha_def code_unit_def)
  then show ?thesis by (cases ?s) (auto simp: sanitizedUploadFilename_def Let_def)
qed

lemma upload_target_safe:
  "upload_target sub (sanitizedUploadFilename n) = Some p \<Longrightarrow> write_safe p"
  using upload_name [of n] normalized_path
  by (auto simp: upload_target_def Let_def write_safe_def split: if_splits option.splits)

section \<open>The prefix pattern matches exactly what lies below\<close>

lemma sql_like_literal [simp]:
  "c \<notin> {CHR 0x5C, CHR ''%'', CHR ''_''} \<Longrightarrow> sql_like (c # p) s = (s \<noteq> [] \<and> hd s = c \<and> sql_like p (tl s))"
  "sql_like (CHR 0x5C # e # p) s = (s \<noteq> [] \<and> hd s = e \<and> sql_like p (tl s))"
  by (simp_all add: sql_like.simps(2) [of c] sql_like.simps(2) [of "CHR 0x5C"])

lemma sql_like_escaped: "sql_like (escape_like path @ p) s = (\<exists>t. s = path @ t \<and> sql_like p t)"
proof (induction path arbitrary: s)
  case Nil
  then show ?case by (simp add: escape_like_def)
next
  case (Cons c path)
  have "sql_like (escape_like (c # path) @ p) s = (s \<noteq> [] \<and> hd s = c \<and> sql_like (escape_like path @ p) (tl s))"
    by (cases "c \<in> {CHR 0x5C, CHR ''%'', CHR ''_''}") (auto simp: escape_like_def)
  also have "\<dots> = (\<exists>t. s = (c # path) @ t \<and> sql_like p t)"
    unfolding Cons.IH by (cases s) auto
  finally show ?case .
qed

lemma sql_like_slash: "sql_like ''/%'' t = (\<exists>rest. t = CHR ''/'' # rest)"
proof -
  have "sql_like ''%'' s" for s
  proof -
    have "sql_like [] (drop (length s) s)" by (simp add: sql_like.simps)
    then show ?thesis unfolding sql_like.simps(2) [of "CHR ''%''"] list_ex_iff
      by (auto simp del: drop_all intro!: bexI [of _ "length s"])
  qed
  then show ?thesis by (cases t) auto
qed

definition at_or_below :: "string \<Rightarrow> string \<Rightarrow> bool" where
  "at_or_below p q \<longleftrightarrow> q = p \<or> js_starts_with (p @ ''/'') q"

lemma starts_with_iff: "js_starts_with p s \<longleftrightarrow> (\<exists>t. s = p @ t)"
  unfolding js_starts_with_def by (metis append_eq_conv_conj append_take_drop_id)

lemma subtree_rows:
  "af_path r = path \<or> sql_like (escape_like path @ ''/%'') (af_path r) \<longleftrightarrow> at_or_below path (af_path r)"
  by (auto simp: at_or_below_def starts_with_iff sql_like_escaped sql_like_slash)

lemma invalidated_files:
  "assetFiles (fold (invalidateCachedAssetSubtree fid) ps d)
   = filter (\<lambda>r. \<not> (af_frameId r = fid \<and> (\<exists>p\<in>set ps. at_or_below p (af_path r)))) (assetFiles d)"
proof (induction ps arbitrary: d)
  case (Cons p ps)
  have "assetFiles (invalidateCachedAssetSubtree fid p d) = filter (\<lambda>r. \<not> (af_frameId r = fid \<and> at_or_below p (af_path r))) (assetFiles d)"
    by (simp add: invalidateCachedAssetSubtree_def delete_where_def subtree_rows)
  with Cons show ?case by (auto intro: filter_cong)
qed simp

lemma invalidate_other [simp]:
  "commands (fold (invalidateCachedAssetSubtree fid) ps d) = commands d"
  "frames (fold (invalidateCachedAssetSubtree fid) ps d) = frames d"
  by (induction ps arbitrary: d) (simp_all add: invalidateCachedAssetSubtree_def)

section \<open>The poll ends\<close>

lemma await_ack_ends:
  assumes step: "\<And>k. clock k + ackPollStepMs \<le> clock (Suc k)"
    and "int n * ackPollStepMs \<le> clock n - clock 0"
  shows "\<exists>m d1 result. await_ack clock others deadline cid n d = Some (m, d1, result)
     \<and> m \<le> max n (nat ((deadline - clock 0 + ackPollStepMs - 1) div ackPollStepMs))
     \<and> (result = AssetTimedOut \<longrightarrow> deadline \<le> clock m)
     \<and> (result = AssetOk \<longrightarrow> (\<exists>row\<in>set (commands d1). c_id row = cid \<and> c_status row = CmdAcked))"
  using assms(2)
proof (induction "nat (deadline - clock n)" arbitrary: n d rule: less_induct)
  case less
  let ?b = "nat ((deadline - clock 0 + ackPollStepMs - 1) div ackPollStepMs)"
  let ?d = "others n d"
  show ?case
  proof (cases "clock n < deadline")
    case False
    then show ?thesis by (subst await_ack.simps) simp
  next
    case True
    have "int n * 500 < deadline - clock 0" using True less.prems by (simp add: ackPollStepMs_def)
    then have b: "Suc n \<le> ?b" by (simp add: ackPollStepMs_def)
    have lt: "nat (deadline - clock (Suc n)) < nat (deadline - clock n)"
      using step [of n] True by (simp add: ackPollStepMs_def)
    have "int (Suc n) * ackPollStepMs \<le> clock (Suc n) - clock 0"
      using step [of n] less.prems by (simp add: algebra_simps)
    from less.hyps [OF lt this] obtain m d1 result where
      ih: "await_ack clock others deadline cid (Suc n) ?d = Some (m, d1, result)" "m \<le> max (Suc n) ?b"
        "result = AssetTimedOut \<longrightarrow> deadline \<le> clock m"
        "result = AssetOk \<longrightarrow> (\<exists>row\<in>set (commands d1). c_id row = cid \<and> c_status row = CmdAcked)" by blast
    show ?thesis
    proof (cases "select_one (\<lambda>c. c_id c = cid) (commands ?d)")
      case None
      then show ?thesis using True b by (subst await_ack.simps) (simp add: Let_def)
    next
      case (Some row)
      note sel = select_one_Some [OF Some]
      show ?thesis using Some True b ih sel
        by (subst await_ack.simps) (auto simp: Let_def le_max_iff_disj)
    qed
  qed
qed

lemma write_command_ends:
  assumes "\<And>k. clock k + ackPollStepMs \<le> clock (Suc k)"
  obtains n d1 result where "runAssetWriteCommand env clock others acc fid type payload d = Some (n, d1, result)"
    "n \<le> 60" "result = AssetTimedOut \<Longrightarrow> clock 0 + ackTimeoutMs \<le> clock n"
    "result = AssetOk \<Longrightarrow> \<exists>row\<in>set (commands d1). c_id row = we_uuid env 0 \<and> c_status row = CmdAcked"
proof -
  obtain d0 c where e: "enqueueFrameCommand (we_uuid env 0) fid type (Some payload) (Some acc) (Some assetWriteTtlMs) (clock 0) d
      = (d0, c)" by force
  then have c: "c_id c = we_uuid env 0" by (auto simp: enqueueFrameCommand_def new_command_def Let_def)
  have "nat ((clock 0 + ackTimeoutMs - clock 0 + ackPollStepMs - 1) div ackPollStepMs) = 60"
    by (simp add: ackTimeoutMs_def ackPollStepMs_def)
  with await_ack_ends [of clock 0 others "clock 0 + ackTimeoutMs" "c_id c" d0] assms
  obtain m d1 result where "await_ack clock others (clock 0 + ackTimeoutMs) (c_id c) 0 d0 = Some (m, d1, result)" "m \<le> 60"
    "result = AssetTimedOut \<longrightarrow> clock 0 + ackTimeoutMs \<le> clock m"
    "result = AssetOk \<longrightarrow> (\<exists>row\<in>set (commands d1). c_id row = c_id c \<and> c_status row = CmdAcked)" by auto
  then show thesis by (intro that [of m d1 result]) (auto simp: runAssetWriteCommand_def e c)
qed


section \<open>Write routes\<close>

definition payload_paths :: "json \<Rightarrow> string list" where
  "payload_paths payload =
     concat (map (\<lambda>k. case map_of (obj_fields (Some payload)) k of Some (JStr p) \<Rightarrow> [p] | _ \<Rightarrow> []) [''path'', ''src'', ''dst''])"

lemma payload_paths_simps [simp]:
  "payload_paths (JObj [(''path'', JStr p)]) = [p]"
  "payload_paths (JObj [(''data'', v), (''path'', JStr p)]) = [p]"
  "payload_paths (JObj [(''dst'', JStr p), (''src'', JStr q)]) = [q, p]"
  by (simp_all add: payload_paths_def)

lemma upload_shape:
  assumes "upload_request x form = Inr q"
  obtains p where "write_safe p" "payload_paths (aw_payload q) = [p]" "aw_type q = ''asset_put''" "aw_stale q = [p]"
proof -
  from assms obtain fm name content where f: "form = Some fm" "map_of fm ''file'' = Some (FormFile name content)"
    by (auto simp: upload_request_def split: option.splits form_value.splits)
  show thesis
  proof (cases "upload_target (js_trim (form_text fm ''path'')) (sanitizedUploadFilename name)")
    case None
    then show thesis using assms f by (simp add: upload_request_def split: if_splits)
  next
    case (Some p)
    then have "aw_payload q = JObj [(''data'', JStr (base64_encode x content)), (''path'', JStr p)] \<and> aw_type q = ''asset_put'' \<and> aw_stale q = [p]"
      using assms f by (auto simp: upload_request_def split: if_splits)
    then show thesis using upload_target_safe [OF Some] by (intro that [of p]) simp_all
  qed
qed

lemma mkdir_shape:
  "mkdir_request form = Inr q \<Longrightarrow>
   \<exists>p. write_safe p \<and> payload_paths (aw_payload q) = [p] \<and> aw_type q = ''asset_mkdir''"
  by (auto simp: mkdir_request_def split: option.splits dest: write_path_safe)

lemma delete_shape:
  "delete_request form = Inr q \<Longrightarrow>
   \<exists>p. write_safe p \<and> payload_paths (aw_payload q) = [p] \<and> aw_type q = ''asset_delete'' \<and> aw_stale q = [p]"
  by (auto simp: delete_request_def split: option.splits dest: write_path_safe)

lemma rename_shape:
  "rename_request form = Inr q \<Longrightarrow>
   \<exists>p p'. write_safe p \<and> write_safe p' \<and> payload_paths (aw_payload q) = [p, p'] \<and> aw_type q = ''asset_rename'' \<and> aw_stale q = [p, p']"
  by (auto simp: rename_request_def split: option.splits dest: write_path_safe)

lemma requests_safe:
  assumes "Inr q \<in> {upload_request x form, mkdir_request form, rename_request form, delete_request form}"
  shows "\<forall>p\<in>set (payload_paths (aw_payload q)). write_safe p"
    "aw_type q = ''asset_put'' \<or> aw_type q = ''asset_mkdir'' \<or> aw_type q = ''asset_rename'' \<or> aw_type q = ''asset_delete''"
    "aw_type q = ''asset_mkdir'' \<or> set (aw_stale q) = set (payload_paths (aw_payload q))"
    "payload_paths (aw_payload q) \<noteq> []"
proof -
  consider "upload_request x form = Inr q" | "mkdir_request form = Inr q" | "rename_request form = Inr q"
    | "delete_request form = Inr q" using assms by (auto dest: sym)
  then have "(\<forall>p\<in>set (payload_paths (aw_payload q)). write_safe p)
    \<and> (aw_type q = ''asset_put'' \<or> aw_type q = ''asset_mkdir'' \<or> aw_type q = ''asset_rename'' \<or> aw_type q = ''asset_delete'')
    \<and> (aw_type q = ''asset_mkdir'' \<or> set (aw_stale q) = set (payload_paths (aw_payload q)))
    \<and> payload_paths (aw_payload q) \<noteq> []"
  proof cases
    case 1
    then obtain p where "write_safe p" "payload_paths (aw_payload q) = [p]" "aw_type q = ''asset_put''" "aw_stale q = [p]"
      by (rule upload_shape)
    then show ?thesis by simp
  next
    case 2
    from mkdir_shape [OF this] show ?thesis by auto
  next
    case 3
    from rename_shape [OF this] show ?thesis by auto
  next
    case 4
    from delete_shape [OF this] show ?thesis by auto
  qed
  then show "\<forall>p\<in>set (payload_paths (aw_payload q)). write_safe p"
    "aw_type q = ''asset_put'' \<or> aw_type q = ''asset_mkdir'' \<or> aw_type q = ''asset_rename'' \<or> aw_type q = ''asset_delete''"
    "aw_type q = ''asset_mkdir'' \<or> set (aw_stale q) = set (payload_paths (aw_payload q))"
    "payload_paths (aw_payload q) \<noteq> []" by blast+
qed

lemma request_refusals:
  "Inl r \<in> {upload_request x form, mkdir_request form, rename_request form, delete_request form} \<Longrightarrow> rs_status r \<in> {400, 413}"
  by (auto simp: upload_request_def mkdir_request_def rename_request_def delete_request_def invalid_path_def
      split: option.splits form_value.splits if_splits)

lemma refresh_commands:
  "\<exists>c. commands (queueAssetsListRefresh cid now acc fid d) = commands (supersedePendingCommands fid ''assets_list'' d) @ [c]
     \<and> c_frameId c = fid \<and> c_type c = ''assets_list'' \<and> c_status c = CmdPending"
  "assetFiles (queueAssetsListRefresh cid now acc fid d) = assetFiles d"
  by (simp_all add: queueAssetsListRefresh_def enqueueFrameCommand_def Let_def new_command_def supersedePendingCommands_def)

lemma supersede_commands_only: "commands d = commands d' \<Longrightarrow>
   commands (supersedePendingCommands fid t d) = commands (supersedePendingCommands fid t d')"
  by (simp add: supersedePendingCommands_def)



end
