(* ===== verification/FrameReads.thy ===== *)
theory FrameReads imports FrameAssets begin

text \<open>
  The reading routes of a frame: the fleet and one frame (\<open>app/api/frames/route.ts\<close>,
  \<open>[frameId]/route.ts\<close>), its assignments, the retained logs with their cursor and the full download
  (\<open>logs\<close>, \<open>logs/full\<close>), and the metrics history (\<open>metrics\<close>, \<open>metrics/recent\<close>).
\<close>

section \<open>Routes that only need a session\<close>

definition viewer_guard ::
  "ext \<Rightarrow> web_env \<Rightarrow> web_request \<Rightarrow> string \<Rightarrow> int \<Rightarrow> int \<Rightarrow> world \<Rightarrow> world \<times> (http_response + (uuid \<times> fields))" where
  "viewer_guard x env rq action limit windowMs w =
     (case rateLimitResponse env rq action limit windowMs w of
        (w1, Some r) \<Rightarrow> (w1, Inl r)
      | (w1, None) \<Rightarrow> (w1, session_guard x env rq (w_db w1)))"

text \<open>Besides JSON, a route answers with text to download or with bytes.\<close>

datatype reply =
    Json http_response
  | Download string string
  | Bytes bytes string "string option"

definition viewer_route ::
  "ext \<Rightarrow> web_env \<Rightarrow> web_request \<Rightarrow> string \<Rightarrow> int \<Rightarrow> (uuid \<Rightarrow> db \<Rightarrow> reply) \<Rightarrow> world \<Rightarrow> world \<times> reply" where
  "viewer_route x env rq action limit body w =
     (case viewer_guard x env rq action limit (15 * 60 * 1000) w of
        (w1, Inl r) \<Rightarrow> (w1, Json r)
      | (w1, Inr (accountId, profile)) \<Rightarrow> (w1, body accountId (w_db w1)))"

definition view_frame :: "string \<Rightarrow> (frame \<Rightarrow> db \<Rightarrow> reply) \<Rightarrow> uuid \<Rightarrow> db \<Rightarrow> reply" where
  "view_frame frameId body accountId d =
     (case frameForAccount accountId frameId d of
        None \<Rightarrow> Json (jsonError ''invalid_frame'' 404 [])
      | Some f \<Rightarrow> body f d)"

section \<open>Frames and their assignments\<close>

definition frame_json :: "frame \<Rightarrow> json" where
  "frame_json f = JObj (obj_spread (frameSummary f) [(''last_metrics'', f_lastMetrics f), (''last_state'', f_lastState f)])"

definition list_frames :: "uuid \<Rightarrow> db \<Rightarrow> reply" where
  "list_frames accountId d =
     Json (jsonOk [(''frames'', JArr (map frame_json (select_asc f_createdAt (\<lambda>f. f_accountId f = accountId) (frames d))))])"

definition frames_route :: "ext \<Rightarrow> web_env \<Rightarrow> web_request \<Rightarrow> world \<Rightarrow> world \<times> reply" where
  "frames_route x env rq = viewer_route x env rq ''frames:list'' 240 list_frames"

definition frame_route :: "ext \<Rightarrow> web_env \<Rightarrow> string \<Rightarrow> web_request \<Rightarrow> world \<Rightarrow> world \<times> reply" where
  "frame_route x env frameId rq = viewer_route x env rq ''frames:detail'' 240
     (view_frame frameId (\<lambda>f d. Json (jsonOk [(''frame'', frame_json f)])))"

definition assignment_json :: "assignment \<times> store_scene \<Rightarrow> json" where
  "assignment_json p = (case p of (g, s) \<Rightarrow>
     JObj [(''name'', JStr (ss_name s)), (''position'', num_of_int (g_position g)), (''scene_id'', JStr (g_sceneId g)),
           (''scene_version'', json_of_version (g_sceneVersion g)), (''slug'', JStr (ss_slug s)),
           (''visibility'', JStr (ss_visibility s))])"

definition frame_scenes_route :: "ext \<Rightarrow> web_env \<Rightarrow> string \<Rightarrow> web_request \<Rightarrow> world \<Rightarrow> world \<times> reply" where
  "frame_scenes_route x env frameId rq = viewer_route x env rq ''frames:scenes'' 240
     (view_frame frameId (\<lambda>f d. Json (jsonOk
        [(''assigned_checksum'', json_of_str (f_assignedChecksum f)),
         (''scenes'', JArr (map assignment_json (assigned_scenes (f_id f) d))),
         (''scenes_checksum'', json_of_str (f_scenesChecksum f))])))"

section \<open>Logs\<close>

definition maxLogsPerPage :: nat where "maxLogsPerPage = 1000"

text \<open>
  \<open>Number.parseInt(s, 10)\<close>, \<open>None\<close> when it is not finite.  (Beyond 2^53 a double rounds, here the
  integer is exact.)
\<close>

definition js_parse_int :: "string \<Rightarrow> int option" where
  "js_parse_int s =
     (let t = dropWhile js_ws s;
          negative = (case t of [] \<Rightarrow> False | c # _ \<Rightarrow> c = CHR ''-'');
          u = (case t of [] \<Rightarrow> [] | c # r \<Rightarrow> if c = CHR ''-'' \<or> c = CHR ''+'' then r else t);
          ds = takeWhile is_digit u; n = digits_int ds
      in if ds = [] \<or> n \<ge> double_bound then None else Some (if negative then - n else n))"

definition log_cursor :: "web_request \<Rightarrow> int option" where
  "log_cursor rq =
     (case map_of (rq_query rq) ''after_id'' of
        None \<Rightarrow> None
      | Some raw \<Rightarrow> (case js_parse_int raw of None \<Rightarrow> None | Some n \<Rightarrow> if n \<ge> 0 then Some n else None))"

definition logs_page :: "uuid \<Rightarrow> int option \<Rightarrow> db \<Rightarrow> bool \<times> telemetry_row list" where
  "logs_page fid afterId d =
     (let rows = take (maxLogsPerPage + 1)
            (case afterId of
               None \<Rightarrow> select_desc tr_id (\<lambda>r. tr_frameId r = fid) (frameLogs d)
             | Some a \<Rightarrow> select_asc tr_id (\<lambda>r. tr_frameId r = fid \<and> tr_id r > a) (frameLogs d));
          hasMore = (length rows > maxLogsPerPage);
          page = (if hasMore then take maxLogsPerPage rows else rows)
      in (hasMore, if afterId = None then rev page else page))"

definition log_json :: "uuid \<Rightarrow> telemetry_row \<Rightarrow> json" where
  "log_json fid row =
     (let structured = (case tr_payload row of JObj _ \<Rightarrow> True | _ \<Rightarrow> False)
      in JObj [(''frame_id'', JStr fid), (''id'', num_of_int (tr_id row)), (''line'', JStr (json_text (tr_payload row))),
               (''timestamp'', JStr (iso_text (tr_timestamp row))),
               (''type'', JStr (if structured then ''webhook'' else ''log''))])"

definition logs_route :: "ext \<Rightarrow> web_env \<Rightarrow> string \<Rightarrow> web_request \<Rightarrow> world \<Rightarrow> world \<times> reply" where
  "logs_route x env frameId rq = viewer_route x env rq ''frames:logs'' 600
     (view_frame frameId (\<lambda>f d.
        let (hasMore, page) = logs_page (f_id f) (log_cursor rq) d
        in Json (jsonOk [(''has_more'', JBool hasMore), (''logs'', JArr (map (log_json (f_id f)) page))])))"

definition log_line :: "telemetry_row \<Rightarrow> string" where
  "log_line row =
     (let payload = obj_fields (Some (tr_payload row));
          line = (case map_of payload ''line'' of Some (JStr s) \<Rightarrow> s | _ \<Rightarrow> json_text (tr_payload row));
          type = (case map_of payload ''event'' of Some (JStr s) \<Rightarrow> s | _ \<Rightarrow> ''log'')
      in ''['' @ iso_text (tr_timestamp row) @ ''] ('' @ type @ '') '' @ line)"

definition full_log :: "uuid \<Rightarrow> db \<Rightarrow> string" where
  "full_log fid d =
     (let lines = map log_line (select_asc tr_id (\<lambda>r. tr_frameId r = fid) (frameLogs d))
      in if length lines > 0 then js_join [CHR 0x0A] lines @ [CHR 0x0A] else [])"

definition log_filename :: "uuid \<Rightarrow> time \<Rightarrow> string" where
  "log_filename fid now =
     (let iso = iso_text now; stamp = map (\<lambda>c. if c = CHR '':'' then CHR ''-'' else c) (take (length iso - 5) iso @ ''Z'')
      in ''frame-'' @ fid @ ''-full-logs-'' @ stamp @ ''.log'')"

definition full_logs_route :: "ext \<Rightarrow> web_env \<Rightarrow> string \<Rightarrow> web_request \<Rightarrow> world \<Rightarrow> world \<times> reply" where
  "full_logs_route x env frameId rq = viewer_route x env rq ''frames:logs'' 600
     (view_frame frameId (\<lambda>f d. Download (full_log (f_id f) d) (log_filename (f_id f) (we_now env))))"

section \<open>Metrics\<close>

definition metricsRow :: "uuid \<Rightarrow> telemetry_row \<Rightarrow> json" where
  "metricsRow frameId row =
     JObj [(''frame_id'', JStr frameId), (''id'', JStr (int_text (tr_id row))), (''metrics'', tr_payload row),
           (''timestamp'', JStr (iso_text (tr_timestamp row)))]"

definition metrics_history :: "uuid \<Rightarrow> db \<Rightarrow> telemetry_row list" where
  "metrics_history fid d = take maxMetricsPerFrame (select_asc tr_id (\<lambda>r. tr_frameId r = fid) (frameMetrics d))"

definition metrics_route :: "ext \<Rightarrow> web_env \<Rightarrow> string \<Rightarrow> web_request \<Rightarrow> world \<Rightarrow> world \<times> reply" where
  "metrics_route x env frameId rq = viewer_route x env rq ''frames:metrics'' 600
     (view_frame frameId (\<lambda>f d.
        Json (jsonOk [(''metrics'', JArr (map (metricsRow (f_id f)) (metrics_history (f_id f) d)))])))"

definition metrics_since :: "ext \<Rightarrow> web_request \<Rightarrow> time option" where
  "metrics_since x rq = (case map_of (rq_query rq) ''since'' of None \<Rightarrow> None | Some raw \<Rightarrow> date_parse x raw)"

definition recent_metrics :: "uuid \<Rightarrow> time option \<Rightarrow> db \<Rightarrow> telemetry_row list" where
  "recent_metrics fid since d =
     rev (take maxMetricsPerFrame
       (select_desc tr_id (\<lambda>r. tr_frameId r = fid \<and> (case since of None \<Rightarrow> True | Some t \<Rightarrow> tr_timestamp r \<ge> t)) (frameMetrics d)))"

definition recent_metrics_route :: "ext \<Rightarrow> web_env \<Rightarrow> string \<Rightarrow> web_request \<Rightarrow> world \<Rightarrow> world \<times> reply" where
  "recent_metrics_route x env frameId rq = viewer_route x env rq ''frames:metrics'' 600
     (view_frame frameId (\<lambda>f d.
        Json (jsonOk [(''metrics'', JArr (map (metricsRow (f_id f)) (recent_metrics (f_id f) (metrics_since x rq) d)))])))"

section \<open>Following the cursor\<close>

lemma log_json_event: "log_json fid row = newLogEvent fid row"
  by (cases "tr_payload row") (simp_all add: log_json_def newLogEvent_def)

definition retained_logs :: "uuid \<Rightarrow> db \<Rightarrow> telemetry_row list" where
  "retained_logs fid d = select_asc tr_id (\<lambda>r. tr_frameId r = fid) (frameLogs d)"

text \<open>A client that starts after a row and asks again from the last row of each page.\<close>

fun follow_logs :: "nat \<Rightarrow> uuid \<Rightarrow> int \<Rightarrow> db \<Rightarrow> telemetry_row list" where
  "follow_logs 0 fid after d = []"
| "follow_logs (Suc n) fid after d =
     (let (more, page) = logs_page fid (Some after) d
      in page @ (if more then follow_logs n fid (tr_id (last page)) d else []))"

lemma select_asc_after:
  "select_asc k (\<lambda>r. P r \<and> a < k r) rows = filter (\<lambda>r. a < k r) (select_asc k P rows)"
  by (simp add: select_asc_def filter_sort [symmetric] conj_commute)

lemma filter_after_take:
  assumes "sorted_wrt (\<lambda>a b. k a < (k b :: int)) xs" and "n < length xs"
  shows "filter (\<lambda>r. k (last (take (Suc n) xs)) < k r) xs = drop (Suc n) xs"
  using assms
proof (induction xs arbitrary: n)
  case (Cons x xs)
  show ?case
  proof (cases n)
    case 0
    then show ?thesis using Cons.prems by (simp add: filter_id_conv)
  next
    case (Suc m)
    then have m: "m < length xs" using Cons.prems(2) by simp
    have ne: "take (Suc m) xs \<noteq> []" using m by (cases xs) auto
    then have "last (take (Suc m) xs) \<in> set xs" by (meson in_set_takeD last_in_set)
    then have "k x < k (last (take (Suc m) xs))" using Cons.prems(1) by simp
    with ne show ?thesis using Cons.IH [OF _ m] Cons.prems(1) Suc by simp
  qed
qed simp

lemma retained_strict: "keyed tr_id (frameLogs d) \<Longrightarrow> sorted_wrt (\<lambda>a b. tr_id a < tr_id b) (retained_logs fid d)"
proof -
  assume "keyed tr_id (frameLogs d)"
  then have "distinct (map tr_id (retained_logs fid d))" and "sorted (map tr_id (retained_logs fid d))"
    by (simp_all add: keyed_def retained_logs_def distinct_select_asc sorted_select_asc)
  then have "sorted_wrt (<) (map tr_id (retained_logs fid d))" by (simp add: strict_sorted_iff)
  then show ?thesis by (simp add: sorted_wrt_map)
qed

lemma after_rows: "select_asc tr_id (\<lambda>r. tr_frameId r = fid \<and> tr_id r > a) (frameLogs d)
   = filter (\<lambda>r. a < tr_id r) (retained_logs fid d)"
  unfolding retained_logs_def by (rule select_asc_after)

lemma follow_logs_all:
  assumes "keyed tr_id (frameLogs d)"
  shows "length (filter (\<lambda>r. a < tr_id r) (retained_logs fid d)) \<le> n * maxLogsPerPage \<Longrightarrow>
    follow_logs n fid a d = filter (\<lambda>r. a < tr_id r) (retained_logs fid d)"
proof (induction n arbitrary: a)
  case (Suc n)
  let ?rest = "\<lambda>a. filter (\<lambda>r. a < tr_id r) (retained_logs fid d)"
  show ?case
  proof (cases "length (?rest a) > maxLogsPerPage")
    case False
    then show ?thesis by (simp add: logs_page_def after_rows Let_def)
  next
    case True
    define b where "b = tr_id (last (take maxLogsPerPage (?rest a)))"
    have strict: "sorted_wrt (\<lambda>a b. tr_id a < tr_id b) (?rest a)"
      using retained_strict [OF assms] by (simp add: sorted_wrt_filter)
    have ne: "take maxLogsPerPage (?rest a) \<noteq> []" using True by (auto simp: maxLogsPerPage_def)
    then have "last (take maxLogsPerPage (?rest a)) \<in> set (?rest a)" by (meson in_set_takeD last_in_set)
    then have ab: "a < b" by (simp add: b_def)
    have "?rest b = filter (\<lambda>r. b < tr_id r) (?rest a)" using ab by (auto intro: filter_cong)
    also have "\<dots> = drop maxLogsPerPage (?rest a)"
      using filter_after_take [OF strict, of "maxLogsPerPage - 1"] True by (simp add: b_def maxLogsPerPage_def)
    finally have rest: "?rest b = drop maxLogsPerPage (?rest a)" .
    with Suc.prems have "length (?rest b) \<le> n * maxLogsPerPage" by simp
    from Suc.IH [OF this] rest
    have "follow_logs n fid b d = drop maxLogsPerPage (?rest a)" by simp
    moreover have "logs_page fid (Some a) d = (True, take maxLogsPerPage (?rest a))"
      using True by (simp add: logs_page_def after_rows Let_def)
    ultimately show ?thesis by (simp add: b_def)
  qed
qed simp

text \<open>
  The log cursor misses nothing and repeats nothing.  Following \<open>after_id\<close> from page to page, six
  requests return, in order and each once, every retained row after the starting point, and from 0 all
  of them; the page without a cursor is the newest rows in the same order, and says whether there are
  older ones.
\<close>

lemma log_cursor_complete:
  assumes "keyed tr_id (frameLogs d)" and "length (retained_logs fid d) \<le> maxLogsPerFrame"
  shows "follow_logs 6 fid a d = filter (\<lambda>r. a < tr_id r) (retained_logs fid d)
    \<and> (\<exists>older. retained_logs fid d = older @ snd (logs_page fid None d)
         \<and> length (snd (logs_page fid None d)) = min maxLogsPerPage (length (retained_logs fid d))
         \<and> fst (logs_page fid None d) = (older \<noteq> []))"
proof (rule conjI)
  have "length (filter (\<lambda>r. a < tr_id r) (retained_logs fid d)) \<le> 6 * maxLogsPerPage"
    using assms(2) by (simp add: maxLogsPerFrame_def maxLogsPerPage_def order.trans [OF length_filter_le])
  then show "follow_logs 6 fid a d = filter (\<lambda>r. a < tr_id r) (retained_logs fid d)"
    by (rule follow_logs_all [OF assms(1)])
next
  let ?rows = "retained_logs fid d"
  have desc: "select_desc tr_id (\<lambda>r. tr_frameId r = fid) (frameLogs d) = rev ?rows"
    by (simp add: retained_logs_def select_asc_def select_desc_def)
  have page: "snd (logs_page fid None d) = drop (length ?rows - maxLogsPerPage) ?rows"
    "fst (logs_page fid None d) = (maxLogsPerPage < length ?rows)"
    by (cases "maxLogsPerPage < length ?rows"; simp add: logs_page_def desc Let_def take_rev Suc_diff_Suc)+
  show "\<exists>older. ?rows = older @ snd (logs_page fid None d)
      \<and> length (snd (logs_page fid None d)) = min maxLogsPerPage (length ?rows)
      \<and> fst (logs_page fid None d) = (older \<noteq> [])"
    by (rule exI [of _ "take (length ?rows - maxLogsPerPage) ?rows"]) (auto simp: page)
qed

definition demo_log :: "int \<Rightarrow> telemetry_row" where
  "demo_log i = \<lparr>tr_id = i, tr_frameId = ''f'', tr_timestamp = i, tr_payload = JNull, tr_sizeBytes = 4\<rparr>"

end
