(* ===== verification/FrameImages.thy ===== *)
theory FrameImages imports FrameReads begin

text \<open>
  What the workspace shows of a frame's files: the cached listing (\<open>assets/route.ts\<close>), one file
  (\<open>asset/route.ts\<close>), the rendered image (\<open>image/route.ts\<close>) and the preview of a scene
  (\<open>scene_images/[sceneId]/route.ts\<close> with \<open>scene-images.ts\<close> and its module-level cache).  A miss queues
  a fetch and polls; the loop is a \<open>partial_function\<close> as in \<open>FrameAssets\<close>.
\<close>

section \<open>The listing\<close>

definition listCommandTtlMs :: int where "listCommandTtlMs = 2 * 60 * 1000"

definition list_assets :: "web_env \<Rightarrow> web_request \<Rightarrow> uuid \<Rightarrow> frame \<Rightarrow> db \<Rightarrow> db \<times> http_response" where
  "list_assets env rq accountId f d =
     (let listing = select_one (\<lambda>r. al_frameId r = f_id f) (assetListings d);
          wantRefresh = (map_of (rq_query rq) ''refresh'' = Some ''1'');
          waiting = (outstandingCommand (we_now env) (f_id f) ''assets_list'' d \<noteq> None);
          enqueued = (\<not> waiting \<and> f_status f = FrameActive \<and> f_connected f \<and> (wantRefresh \<or> listing = None));
          d1 = (if enqueued
                then fst (enqueueFrameCommand (we_uuid env 0) (f_id f) ''assets_list'' None (Some accountId)
                            (Some listCommandTtlMs) (we_now env) (supersedePendingCommands (f_id f) ''assets_list'' d))
                else d);
          refreshing = (f_connected f \<and> (enqueued \<or> waiting))
      in (d1, jsonOk ([(''assets'', case listing of None \<Rightarrow> JArr [] | Some r \<Rightarrow> al_payload r)]
            @ (case listing of Some r \<Rightarrow> if al_truncated r then [(''truncated'', JBool True)] else [] | None \<Rightarrow> [])
            @ (if refreshing then [(''cache'', JObj [(''refreshing'', JBool True), (''retry_after'', JNum 2)])] else []))))"

definition assets_route :: "ext \<Rightarrow> web_env \<Rightarrow> string \<Rightarrow> web_request \<Rightarrow> world \<Rightarrow> world \<times> http_response" where
  "assets_route x env frameId rq w =
     (case viewer_guard x env rq ''frames:assets'' 600 (15 * 60 * 1000) w of
        (w1, Inl r) \<Rightarrow> (w1, r)
      | (w1, Inr (accountId, profile)) \<Rightarrow>
          (let (d, r) = with_frame accountId frameId (list_assets env rq accountId) (w_db w1)
           in (w1\<lparr>w_db := d\<rparr>, r)))"

section \<open>Waiting for the device\<close>

text \<open>
  After each sleep: what was looked for, or a refusal of the device, until the deadline.  The result is
  the database, and the row (\<open>Inl\<close>) or the refused command, if any (\<open>Inr\<close>).
\<close>

partial_function (option) poll_asset ::
  "(nat \<Rightarrow> time) \<Rightarrow> (nat \<Rightarrow> db \<Rightarrow> db) \<Rightarrow> time \<Rightarrow> (db \<Rightarrow> asset_file option) \<Rightarrow> (time \<Rightarrow> db \<Rightarrow> command option) \<Rightarrow> nat \<Rightarrow> db
   \<Rightarrow> (db \<times> (asset_file + command option)) option" where
  "poll_asset clock others deadline found refused n d =
     (if clock n < deadline
      then (let d1 = others n d
            in case found d1 of
                 Some row \<Rightarrow> Some (d1, Inl row)
               | None \<Rightarrow>
                   (case refused (clock (n + 1)) d1 of
                      Some c \<Rightarrow> Some (d1, Inr (Some c))
                    | None \<Rightarrow> poll_asset clock others deadline found refused (n + 1) d1))
      else Some (d, Inr None))"

definition cacheStaleAfterMs :: int where "cacheStaleAfterMs = 15 * 60 * 1000"
definition assetPollTotalMs :: int where "assetPollTotalMs = 25000"
definition assetPollStepMs :: int where "assetPollStepMs = 750"

text \<open>\<open>[^\w. -]\<close> becomes an underscore.\<close>

definition contentDisposition :: "string \<Rightarrow> string \<Rightarrow> string" where
  "contentDisposition kind filename =
     (let safe = take 255 (map (\<lambda>c. if is_alnum c \<or> c \<in> {CHR ''_'', CHR ''.'', CHR '' '', CHR ''-''} then c else CHR ''_'') filename)
      in kind @ ''; filename='' @ [CHR 0x22] @ (if safe = [] then ''asset'' else safe) @ [CHR 0x22])"

definition content_type_or :: "string \<Rightarrow> string \<Rightarrow> string" where
  "content_type_or fallback contentType = (if contentType = [] then fallback else contentType)"

definition assetResponse :: "asset_file \<Rightarrow> string option \<Rightarrow> string option \<Rightarrow> reply" where
  "assetResponse row mode filename =
     Bytes (af_content row) (content_type_or ''application/octet-stream'' (af_contentType row))
       (if mode = Some ''download''
        then Some (contentDisposition ''attachment'' (case filename of None \<Rightarrow> ''asset'' | Some n \<Rightarrow> n))
        else case filename of None \<Rightarrow> None | Some n \<Rightarrow> if n = [] then None else Some (contentDisposition ''inline'' n))"

definition stale :: "int \<Rightarrow> time \<Rightarrow> asset_file option \<Rightarrow> bool" where
  "stale afterMs now cached \<longleftrightarrow> (case cached of None \<Rightarrow> True | Some row \<Rightarrow> now - af_updatedAt row > afterMs)"

definition get_asset ::
  "web_env \<Rightarrow> (nat \<Rightarrow> time) \<Rightarrow> (nat \<Rightarrow> db \<Rightarrow> db) \<Rightarrow> web_request \<Rightarrow> uuid \<Rightarrow> frame \<Rightarrow> db \<Rightarrow> (db \<times> reply) option" where
  "get_asset env clock others rq accountId f d =
     (case normalizeAssetPath (case map_of (rq_query rq) ''path'' of None \<Rightarrow> [] | Some p \<Rightarrow> p) of
        None \<Rightarrow> Some (d, Json invalid_path)
      | Some path \<Rightarrow>
          (let thumb = (map_of (rq_query rq) ''thumb'' = Some ''1''); mode = map_of (rq_query rq) ''mode'';
               filename = map_of (rq_query rq) ''filename'';
               cached = cachedAssetFile (f_id f) path thumb d; now = clock 0;
               d1 = (if stale cacheStaleAfterMs now cached \<and> f_status f = FrameActive
                     then queueAssetGetIfIdle (we_uuid env 0) now accountId (f_id f) path thumb d else d)
           in case cached of
                Some row \<Rightarrow> Some (d1, assetResponse row mode filename)
              | None \<Rightarrow>
                  if f_status f \<noteq> FrameActive then Some (d1, Json (jsonError ''frame_not_active'' 409 []))
                  else map_option (\<lambda>(d2, outcome). (d2, case outcome of
                           Inl row \<Rightarrow> assetResponse row mode filename
                         | Inr (Some c) \<Rightarrow> Json (jsonError (case c_error c of None \<Rightarrow> ''asset_fetch_failed'' | Some e \<Rightarrow> e) 404 [])
                         | Inr None \<Rightarrow> Json (jsonError ''asset_unavailable'' 504 [])))
                       (poll_asset clock others (now + assetPollTotalMs) (cachedAssetFile (f_id f) path thumb)
                          (\<lambda>t. recentFailedAssetGet t (f_id f) path thumb 60000) 0 d1)))"

text \<open>A viewer's route whose body may wait.\<close>

definition waiting_route ::
  "ext \<Rightarrow> web_env \<Rightarrow> web_request \<Rightarrow> string \<Rightarrow> string \<Rightarrow> int \<Rightarrow> (uuid \<Rightarrow> frame \<Rightarrow> db \<Rightarrow> (db \<times> reply) option) \<Rightarrow> world
   \<Rightarrow> (world \<times> reply) option" where
  "waiting_route x env rq frameId action limit body w =
     (case viewer_guard x env rq action limit (15 * 60 * 1000) w of
        (w1, Inl r) \<Rightarrow> Some (w1, Json r)
      | (w1, Inr (accountId, profile)) \<Rightarrow>
          (case frameForAccount accountId frameId (w_db w1) of
             None \<Rightarrow> Some (w1, Json (jsonError ''invalid_frame'' 404 []))
           | Some f \<Rightarrow> map_option (\<lambda>(d, r). (w1\<lparr>w_db := d\<rparr>, r)) (body accountId f (w_db w1))))"

definition asset_route where
  "asset_route x env clock others frameId rq =
     waiting_route x env rq frameId ''frames:asset'' 1200 (get_asset env clock others rq)"

section \<open>The rendered image\<close>

definition fetchCommandTtlMs :: int where "fetchCommandTtlMs = 2 * 60 * 1000"
definition imageStaleAfterMs :: int where "imageStaleAfterMs = 30000"

definition cachedImage :: "uuid \<Rightarrow> db \<Rightarrow> asset_file option" where
  "cachedImage frameId d = cachedAssetFile frameId frameImageAssetPath False d"

definition refused_image :: "uuid \<Rightarrow> time \<Rightarrow> db \<Rightarrow> command option" where
  "refused_image frameId since d =
     select_one (\<lambda>c. c_frameId c = frameId \<and> c_type c = ''image_get'' \<and> c_status c = CmdFailed \<and> c_createdAt c > since)
       (commands d)"

definition frameImageResponse :: "asset_file \<Rightarrow> reply" where
  "frameImageResponse row = Bytes (af_content row) (content_type_or ''application/octet-stream'' (af_contentType row)) None"

definition get_image :: "web_env \<Rightarrow> (nat \<Rightarrow> time) \<Rightarrow> (nat \<Rightarrow> db \<Rightarrow> db) \<Rightarrow> uuid \<Rightarrow> frame \<Rightarrow> db \<Rightarrow> (db \<times> reply) option" where
  "get_image env clock others accountId f d =
     (let cached = cachedImage (f_id f) d; now = clock 0;
          d1 = (if stale imageStaleAfterMs now cached \<and> f_status f = FrameActive
                   \<and> outstandingCommand now (f_id f) ''image_get'' d = None
                then fst (enqueueFrameCommand (we_uuid env 0) (f_id f) ''image_get'' None (Some accountId)
                            (Some fetchCommandTtlMs) now d)
                else d)
      in case cached of
           Some row \<Rightarrow> Some (d1, frameImageResponse row)
         | None \<Rightarrow>
             if f_status f \<noteq> FrameActive then Some (d1, Json (jsonError ''frame_not_active'' 409 []))
             else map_option (\<lambda>(d2, outcome). (d2, case outcome of
                      Inl row \<Rightarrow> frameImageResponse row
                    | Inr (Some c) \<Rightarrow> Json (jsonError (case c_error c of None \<Rightarrow> ''image_unavailable'' | Some e \<Rightarrow> e) 404 [])
                    | Inr None \<Rightarrow> Json (jsonError ''image_unavailable'' 504 [])))
                  (poll_asset clock others (now + assetPollTotalMs) (cachedImage (f_id f))
                     (\<lambda>t. refused_image (f_id f) (now - 60000)) 0 d1))"

definition image_route where
  "image_route x env clock others frameId rq =
     waiting_route x env rq frameId ''frames:image'' 600 (get_image env clock others)"

section \<open>Which store scene a runtime id belongs to\<close>

type_synonym runtime_ids = "(string \<times> string list) list"

definition runtimeIdCacheMaxEntries :: nat where "runtimeIdCacheMaxEntries = 512"

definition cacheKey :: "uuid \<Rightarrow> int \<Rightarrow> string" where
  "cacheKey sceneId version = sceneId @ '':'' @ int_text version"

definition rememberRuntimeIds :: "string \<Rightarrow> string list \<Rightarrow> runtime_ids \<Rightarrow> runtime_ids" where
  "rememberRuntimeIds key ids cache =
     AList.update key ids (if length cache \<ge> runtimeIdCacheMaxEntries then tl cache else cache)"

fun scene_ids :: "json list \<Rightarrow> string list" where
  "scene_ids [] = []"
| "scene_ids (scene # scenes) =
     (case map_of (obj_fields (Some scene)) ''id'' of
        Some (JStr i) \<Rightarrow> List.insert i (scene_ids scenes)
      | _ \<Rightarrow> scene_ids scenes)"

definition runtimeIdsFromZip :: "ext \<Rightarrow> bytes \<Rightarrow> string list" where
  "runtimeIdsFromZip x content = (case extractScenesJson x content of None \<Rightarrow> [] | Some (n, scenes) \<Rightarrow> scene_ids scenes)"

definition pinnedVersionNumber :: "uuid \<Rightarrow> int option \<Rightarrow> db \<Rightarrow> int option" where
  "pinnedVersionNumber sceneId sceneVersion d = map_option sv_version (pinnedSceneVersion sceneId sceneVersion d)"

definition runtimeIdsForVersion :: "ext \<Rightarrow> db \<Rightarrow> uuid \<Rightarrow> int \<Rightarrow> runtime_ids \<Rightarrow> runtime_ids \<times> string list" where
  "runtimeIdsForVersion x d sceneId version cache =
     (case map_of cache (cacheKey sceneId version) of
        Some ids \<Rightarrow> (cache, ids)
      | None \<Rightarrow>
          (let ids = (case select_one (\<lambda>v. sv_sceneId v = sceneId \<and> sv_version v = version) (sceneVersions d) of
                        None \<Rightarrow> []
                      | Some row \<Rightarrow> runtimeIdsFromZip x (sv_content row))
           in (rememberRuntimeIds (cacheKey sceneId version) ids cache, ids)))"

fun owner_by_runtime_id :: "ext \<Rightarrow> db \<Rightarrow> string \<Rightarrow> assignment list \<Rightarrow> runtime_ids \<Rightarrow> runtime_ids \<times> uuid option" where
  "owner_by_runtime_id x d sceneId [] cache = (cache, None)"
| "owner_by_runtime_id x d sceneId (g # gs) cache =
     (case pinnedVersionNumber (g_sceneId g) (g_sceneVersion g) d of
        None \<Rightarrow> owner_by_runtime_id x d sceneId gs cache
      | Some version \<Rightarrow>
          (let (cache', ids) = runtimeIdsForVersion x d (g_sceneId g) version cache
           in if sceneId \<in> set ids then (cache', Some (g_sceneId g))
              else owner_by_runtime_id x d sceneId gs cache'))"

definition resolveStoreSceneForFrameScene :: "ext \<Rightarrow> db \<Rightarrow> uuid \<Rightarrow> string \<Rightarrow> runtime_ids \<Rightarrow> runtime_ids \<times> uuid option" where
  "resolveStoreSceneForFrameScene x d frameId sceneId cache =
     (if sceneId = [] then (cache, None)
      else
        (let gs = select_asc g_position (\<lambda>g. g_frameId g = frameId) (assignments d)
         in case select_one (\<lambda>g. js_lower (g_sceneId g) = js_lower sceneId) gs of
              Some g \<Rightarrow> (cache, Some (g_sceneId g))
            | None \<Rightarrow> owner_by_runtime_id x d sceneId gs cache))"

definition storeSceneCoverImage :: "uuid \<Rightarrow> db \<Rightarrow> (bytes \<times> string) option" where
  "storeSceneCoverImage storeSceneId d =
     (case select_one (\<lambda>s. ss_id s = storeSceneId) (storeScenes d) of
        None \<Rightarrow> None
      | Some s \<Rightarrow>
          if ss_status s \<noteq> ''active'' then None
          else (case select_asc (\<lambda>i. (si_position i, si_createdAt i)) (\<lambda>i. si_sceneId i = storeSceneId) (sceneImages d) of
                  i # _ \<Rightarrow> Some (si_content i, content_type_or ''image/jpeg'' (si_contentType i))
                | [] \<Rightarrow>
                    (case ss_previewImage s of
                       None \<Rightarrow> None
                     | Some b \<Rightarrow> Some (b, case ss_previewImageType s of None \<Rightarrow> ''image/jpeg'' | Some t \<Rightarrow> t))))"

section \<open>The preview of a scene\<close>

definition snapshotStaleAfterMs :: int where "snapshotStaleAfterMs = 5 * 60 * 1000"
definition refusalMemoryMs :: int where "refusalMemoryMs = 5 * 60 * 1000"
definition snapshotPollTotalMs :: int where "snapshotPollTotalMs = 10000"

definition previewResponse :: "bytes \<Rightarrow> string \<Rightarrow> reply" where
  "previewResponse content contentType = Bytes content (content_type_or ''image/png'' contentType) None"

definition get_scene_image ::
  "ext \<Rightarrow> web_env \<Rightarrow> (nat \<Rightarrow> time) \<Rightarrow> (nat \<Rightarrow> db \<Rightarrow> db) \<Rightarrow> web_request \<Rightarrow> string \<Rightarrow> uuid \<Rightarrow> frame \<Rightarrow> db \<Rightarrow> runtime_ids
   \<Rightarrow> runtime_ids \<times> (db \<times> reply) option" where
  "get_scene_image x env clock others rq sceneId accountId f d cache =
     (let thumb = (map_of (rq_query rq) ''thumb'' = Some ''1''); path = sceneSnapshotAssetPath x sceneId;
          cached = cachedAssetFile (f_id f) path thumb d; now = clock 0;
          needsFetch = stale snapshotStaleAfterMs now cached;
          refused = (needsFetch \<and> recentFailedAssetGet now (f_id f) path thumb refusalMemoryMs d \<noteq> None);
          d1 = (if needsFetch \<and> \<not> refused \<and> f_status f = FrameActive
                then queueAssetGetIfIdle (we_uuid env 0) now accountId (f_id f) path thumb d else d);
          no_image = Json (jsonError ''no_image'' 404 [])
      in case cached of
           Some row \<Rightarrow> (cache, Some (d1, previewResponse (af_content row) (af_contentType row)))
         | None \<Rightarrow>
             (let (cache', owner) = resolveStoreSceneForFrameScene x d1 (f_id f) sceneId cache
              in (cache',
                  case (case owner of None \<Rightarrow> None | Some s \<Rightarrow> if s = [] then None else storeSceneCoverImage s d1) of
                    Some (content, contentType) \<Rightarrow> Some (d1, previewResponse content contentType)
                  | None \<Rightarrow>
                      if refused \<or> f_status f \<noteq> FrameActive \<or> \<not> f_connected f then Some (d1, no_image)
                      else map_option (\<lambda>(d2, outcome). (d2, case outcome of
                               Inl row \<Rightarrow> previewResponse (af_content row) (af_contentType row)
                             | Inr _ \<Rightarrow> no_image))
                           (poll_asset clock others (now + snapshotPollTotalMs) (cachedAssetFile (f_id f) path thumb)
                              (\<lambda>t. recentFailedAssetGet t (f_id f) path thumb 60000) 0 d1))))"

definition scene_image_route ::
  "ext \<Rightarrow> web_env \<Rightarrow> (nat \<Rightarrow> time) \<Rightarrow> (nat \<Rightarrow> db \<Rightarrow> db) \<Rightarrow> string \<Rightarrow> string \<Rightarrow> web_request \<Rightarrow> world \<Rightarrow> runtime_ids
   \<Rightarrow> runtime_ids \<times> (world \<times> reply) option" where
  "scene_image_route x env clock others frameId sceneId rq w cache =
     (case viewer_guard x env rq ''frames:scene_image'' 600 (15 * 60 * 1000) w of
        (w1, Inl r) \<Rightarrow> (cache, Some (w1, Json r))
      | (w1, Inr (accountId, profile)) \<Rightarrow>
          (case frameForAccount accountId frameId (w_db w1) of
             None \<Rightarrow> (cache, Some (w1, Json (jsonError ''invalid_frame'' 404 [])))
           | Some f \<Rightarrow>
               (let (cache', result) = get_scene_image x env clock others rq sceneId accountId f (w_db w1) cache
                in (cache', map_option (\<lambda>(d, r). (w1\<lparr>w_db := d\<rparr>, r)) result))))"


section \<open>Keys of the runtime-id cache\<close>

lemma digit_code: "0 \<le> n \<Longrightarrow> n < 10 \<Longrightarrow> code_unit (digit_char n) = 48 + n"
  by (simp add: code_unit_def digit_char_def)

lemma digits_int_snoc: "digits_int (ds @ [c]) = digits_int ds * 10 + (code_unit c - 48)"
  by (simp add: digits_int_def)

lemma digits_of_dec: "0 \<le> n \<Longrightarrow> digits_int (dec_text n) = n \<and> list_all is_digit (dec_text n) \<and> dec_text n \<noteq> []"
proof (induction n rule: dec_text.induct)
  case (1 n)
  show ?case
  proof (cases "n < 10")
    case True
    then show ?thesis using 1 by (simp add: dec_text.simps [of n] digits_int_def digit_code is_digit_def)
  next
    case False
    with 1 have ih: "digits_int (dec_text (n div 10)) = n div 10" "list_all is_digit (dec_text (n div 10))" by auto
    have c: "code_unit (digit_char (n mod 10)) = 48 + n mod 10" by (rule digit_code) auto
    then have "is_digit (digit_char (n mod 10))" by (simp add: is_digit_def)
    with c ih False show ?thesis by (simp add: dec_text.simps [of n] digits_int_snoc)
  qed
qed

lemma int_text_inj: "int_text i = int_text j \<Longrightarrow> i = j"
proof -
  have minus: "\<not> is_digit CHR ''-''" by (simp add: is_digit_def code_unit_def)
  have first: "\<exists>c r. dec_text n = c # r \<and> is_digit c" if "0 \<le> n" for n
    using digits_of_dec [OF that] by (cases "dec_text n") auto
  assume eq: "int_text i = int_text j"
  have clash: "''-'' @ dec_text m \<noteq> dec_text n" if "0 \<le> n" for m n
    using first [OF that] minus by auto
  consider "i < 0" "j < 0" "dec_text (- i) = dec_text (- j)" | "0 \<le> i" "0 \<le> j" "dec_text i = dec_text j"
  proof (cases "i < 0")
    case True
    then have "j < 0" using eq clash [of j "- i"] by (cases "j < 0") (simp_all add: int_text_def)
    then show thesis using True eq that(1) by (simp add: int_text_def)
  next
    case False
    then have "\<not> j < 0" using eq clash [of i "- j"] by (cases "j < 0") (simp_all add: int_text_def)
    then show thesis using False eq that(2) by (simp add: int_text_def)
  qed
  then show "i = j"
  proof cases
    case 1
    then have "digits_int (dec_text (- i)) = - i" "digits_int (dec_text (- j)) = - j"
      using digits_of_dec [of "- i"] digits_of_dec [of "- j"] by linarith+
    with 1(3) have "- i = - j" by metis
    then show ?thesis by simp
  next
    case 2
    then have "digits_int (dec_text i) = i" "digits_int (dec_text j) = j"
      using digits_of_dec [of i] digits_of_dec [of j] by blast+
    with 2(3) show ?thesis by metis
  qed
qed

lemma int_text_no_colon: "CHR '':'' \<notin> set (int_text i)"
proof -
  have "\<not> is_digit CHR '':''" by (simp add: is_digit_def code_unit_def)
  then show ?thesis using digits_of_dec [of i] digits_of_dec [of "- i"]
    by (auto simp: int_text_def list_all_iff)
qed

lemma cacheKey_inj: "cacheKey s v = cacheKey s' v' \<Longrightarrow> s = s' \<and> v = v'"
proof -
  assume k: "cacheKey s v = cacheKey s' v'"
  have tail: "takeWhile (\<lambda>c. c \<noteq> CHR '':'') (rev (cacheKey s v)) = rev (int_text v)" for s v
  proof -
    have "\<forall>c\<in>set (rev (int_text v)). c \<noteq> CHR '':''" using int_text_no_colon [of v] by auto
    then show ?thesis unfolding cacheKey_def rev_append append_assoc
      by (subst takeWhile_append2) auto
  qed
  from k have "int_text v = int_text v'" using tail by (metis rev_rev_ident)
  with k show ?thesis by (simp add: cacheKey_def int_text_inj)
qed

section \<open>The cache does not change the answer\<close>

definition ids_consistent :: "ext \<Rightarrow> db \<Rightarrow> runtime_ids \<Rightarrow> bool" where
  "ids_consistent x d cache \<longleftrightarrow>
     (\<forall>(key, ids)\<in>set cache. \<forall>v\<in>set (sceneVersions d).
        key = cacheKey (sv_sceneId v) (sv_version v) \<longrightarrow> ids = runtimeIdsFromZip x (sv_content v))"

definition version_key :: "scene_version \<Rightarrow> uuid \<times> int" where
  "version_key v = (sv_sceneId v, sv_version v)"

lemma ids_consistentD: "ids_consistent x d cache \<Longrightarrow> v \<in> set (sceneVersions d) \<Longrightarrow>
   map_of cache (cacheKey (sv_sceneId v) (sv_version v)) = Some ids \<Longrightarrow> ids = runtimeIdsFromZip x (sv_content v)"
  by (drule map_of_SomeD) (auto simp: ids_consistent_def)

lemma version_ids:
  assumes "ids_consistent x d cache" "keyed version_key (sceneVersions d)" "v \<in> set (sceneVersions d)"
    and "length cache \<le> runtimeIdCacheMaxEntries"
  shows "\<exists>cache'. runtimeIdsForVersion x d (sv_sceneId v) (sv_version v) cache = (cache', runtimeIdsFromZip x (sv_content v))
     \<and> ids_consistent x d cache' \<and> length cache' \<le> runtimeIdCacheMaxEntries"
proof (cases "map_of cache (cacheKey (sv_sceneId v) (sv_version v))")
  case (Some ids)
  then show ?thesis using assms ids_consistentD [OF assms(1,3) Some] by (simp add: runtimeIdsForVersion_def)
next
  case None
  have only: "q = v" if "q \<in> set (sceneVersions d)" "sv_sceneId q = sv_sceneId v" "sv_version q = sv_version v" for q
    using keyed_eq [OF assms(2) that(1) assms(3)] that by (simp add: version_key_def)
  obtain row where row: "select_one (\<lambda>q. sv_sceneId q = sv_sceneId v \<and> sv_version q = sv_version v) (sceneVersions d) = Some row"
    using select_one_ex [OF assms(3), of "\<lambda>q. sv_sceneId q = sv_sceneId v \<and> sv_version q = sv_version v"] by auto
  then have "row = v" using only select_one_Some [OF row] by blast
  define cache' where "cache' = rememberRuntimeIds (cacheKey (sv_sceneId v) (sv_version v)) (runtimeIdsFromZip x (sv_content v)) cache"
  have run: "runtimeIdsForVersion x d (sv_sceneId v) (sv_version v) cache = (cache', runtimeIdsFromZip x (sv_content v))"
    using None row \<open>row = v\<close> by (simp add: runtimeIdsForVersion_def cache'_def Let_def)
  have "length cache' \<le> runtimeIdCacheMaxEntries"
    using assms(4) length_alist_update_le [of "cacheKey (sv_sceneId v) (sv_version v)" "runtimeIdsFromZip x (sv_content v)"
        "if runtimeIdCacheMaxEntries \<le> length cache then tl cache else cache"]
    by (auto simp: cache'_def rememberRuntimeIds_def runtimeIdCacheMaxEntries_def split: if_splits)
  moreover have "ids_consistent x d cache'"
    unfolding ids_consistent_def
  proof (clarify)
    fix key ids q
    assume "(key, ids) \<in> set cache'" and q: "q \<in> set (sceneVersions d)"
      and ck: "(cacheKey (sv_sceneId q) (sv_version q), ids) \<in> set cache'"
    show "ids = runtimeIdsFromZip x (sv_content q)"
    proof (cases "(cacheKey (sv_sceneId q) (sv_version q), ids) \<in> set cache")
      case True
      with assms(1) q show ?thesis by (auto simp: ids_consistent_def)
    next
      case False
      have tl: "set (tl cache) \<subseteq> set cache" by (cases cache) auto
      from False in_alist_update [OF ck [unfolded cache'_def rememberRuntimeIds_def]]
      have "cacheKey (sv_sceneId q) (sv_version q) = cacheKey (sv_sceneId v) (sv_version v)"
        and ids: "ids = runtimeIdsFromZip x (sv_content v)"
        using tl by (auto split: if_splits)
      with cacheKey_inj only q show ?thesis by blast
    qed
  qed
  ultimately show ?thesis using run by blast
qed

fun owning_scene :: "ext \<Rightarrow> db \<Rightarrow> string \<Rightarrow> assignment list \<Rightarrow> uuid option" where
  "owning_scene x d sceneId [] = None"
| "owning_scene x d sceneId (g # gs) =
     (case pinnedSceneVersion (g_sceneId g) (g_sceneVersion g) d of
        Some v \<Rightarrow> if sceneId \<in> set (runtimeIdsFromZip x (sv_content v)) then Some (g_sceneId g) else owning_scene x d sceneId gs
      | None \<Rightarrow> owning_scene x d sceneId gs)"

definition resolve_uncached :: "ext \<Rightarrow> db \<Rightarrow> uuid \<Rightarrow> string \<Rightarrow> uuid option" where
  "resolve_uncached x d frameId sceneId =
     (if sceneId = [] then None
      else
        (let gs = select_asc g_position (\<lambda>g. g_frameId g = frameId) (assignments d)
         in case select_one (\<lambda>g. js_lower (g_sceneId g) = js_lower sceneId) gs of
              Some g \<Rightarrow> Some (g_sceneId g)
            | None \<Rightarrow> owning_scene x d sceneId gs))"

lemma pinned_row: "pinnedSceneVersion s n d = Some v \<Longrightarrow> v \<in> set (sceneVersions d) \<and> sv_sceneId v = s"
proof -
  assume p: "pinnedSceneVersion s n d = Some v"
  let ?P = "\<lambda>v. sv_sceneId v = s \<and> sv_yankedAt v = None \<and> (case n of None \<Rightarrow> True | Some k \<Rightarrow> sv_version v = k)"
  from p obtain vs where "select_desc sv_version ?P (sceneVersions d) = v # vs"
    by (auto simp: pinnedSceneVersion_def split: list.splits)
  then have "v \<in> set (select_desc sv_version ?P (sceneVersions d))" by simp
  then show ?thesis by simp
qed

lemma owner_cached:
  assumes "keyed version_key (sceneVersions d)"
  shows "ids_consistent x d cache \<Longrightarrow> length cache \<le> runtimeIdCacheMaxEntries \<Longrightarrow>
    \<exists>cache'. owner_by_runtime_id x d sceneId gs cache = (cache', owning_scene x d sceneId gs)
      \<and> ids_consistent x d cache' \<and> length cache' \<le> runtimeIdCacheMaxEntries"
proof (induction gs arbitrary: cache)
  case (Cons g gs)
  show ?case
  proof (cases "pinnedSceneVersion (g_sceneId g) (g_sceneVersion g) d")
    case None
    then show ?thesis using Cons by (simp add: pinnedVersionNumber_def)
  next
    case (Some v)
    note row = pinned_row [OF Some]
    obtain c where c: "runtimeIdsForVersion x d (g_sceneId g) (sv_version v) cache = (c, runtimeIdsFromZip x (sv_content v))"
      "ids_consistent x d c" "length c \<le> runtimeIdCacheMaxEntries"
      using version_ids [OF Cons.prems(1) assms conjunct1 [OF row] Cons.prems(2)] row by auto
    show ?thesis
    proof (cases "sceneId \<in> set (runtimeIdsFromZip x (sv_content v))")
      case True
      then show ?thesis using Some c by (simp add: pinnedVersionNumber_def)
    next
      case False
      then show ?thesis using Some c(1) Cons.IH [OF c(2,3)] by (simp add: pinnedVersionNumber_def)
    qed
  qed
qed simp

text \<open>
  The module-level cache of runtime ids is invisible.  While its entries agree with the rows of the
  same scene and version, resolving a runtime scene id gives what unpacking the pinned versions of the
  frame's assignments afresh gives, in their order; the cache stays in agreement and within its 512
  entries.  It stays in agreement when versions are pruned and when versions whose keys it does not
  hold are published, so stored bytes need only be immutable.
\<close>

lemma runtime_id_cache_transparent:
  assumes "keyed version_key (sceneVersions d)" and "ids_consistent x d cache"
    and "length cache \<le> runtimeIdCacheMaxEntries"
  shows "\<exists>cache'. resolveStoreSceneForFrameScene x d frameId sceneId cache = (cache', resolve_uncached x d frameId sceneId)
      \<and> ids_consistent x d cache' \<and> length cache' \<le> runtimeIdCacheMaxEntries
      \<and> (set (sceneVersions d') \<subseteq> set (sceneVersions d)
            \<union> {v. cacheKey (sv_sceneId v) (sv_version v) \<notin> fst ` set cache'} \<longrightarrow> ids_consistent x d' cache')"
proof -
  obtain cache' where c: "resolveStoreSceneForFrameScene x d frameId sceneId cache = (cache', resolve_uncached x d frameId sceneId)"
    "ids_consistent x d cache'" "length cache' \<le> runtimeIdCacheMaxEntries"
  proof (cases "sceneId = [] \<or> select_one (\<lambda>g. js_lower (g_sceneId g) = js_lower sceneId)
      (select_asc g_position (\<lambda>g. g_frameId g = frameId) (assignments d)) \<noteq> None")
    case True
    then show thesis using assms
      by (intro that [of cache]) (auto simp: resolveStoreSceneForFrameScene_def resolve_uncached_def Let_def)
  next
    case False
    obtain c' where "owner_by_runtime_id x d sceneId (select_asc g_position (\<lambda>g. g_frameId g = frameId) (assignments d)) cache
        = (c', owning_scene x d sceneId (select_asc g_position (\<lambda>g. g_frameId g = frameId) (assignments d)))"
      "ids_consistent x d c'" "length c' \<le> runtimeIdCacheMaxEntries"
      using owner_cached [OF assms(1,2,3)] by blast
    then show thesis using False
      by (intro that [of c']) (auto simp: resolveStoreSceneForFrameScene_def resolve_uncached_def Let_def)
  qed
  have "ids_consistent x d' cache'"
    if "set (sceneVersions d') \<subseteq> set (sceneVersions d) \<union> {v. cacheKey (sv_sceneId v) (sv_version v) \<notin> fst ` set cache'}"
    using that c(2) unfolding ids_consistent_def by force
  with c show ?thesis by blast
qed

end
