(* ===== verification/FrameOwner.thy ===== *)
theory FrameOwner imports FrameImages begin

text \<open>
  What an owner's requests may do to the fleet, as one contract.  The locale \<open>owner_operation\<close> states
  it for one step of a route: frames of other accounts and commands of other accounts' frames stay as
  they are, and a command that appears is pending, for an active frame of the account, and carries a
  verb and a payload from a closed list.  It is interpreted on every step of the routes that writes
  commands or frames.
\<close>

section \<open>The contract\<close>

text \<open>The verbs the web application may queue, with what their payload must satisfy.\<close>

definition permitted :: "ext \<Rightarrow> string \<Rightarrow> json \<Rightarrow> bool" where
  "permitted x type payload \<longleftrightarrow>
     (type \<in> {''notify_update_available'', ''reboot'', ''render'', ''restart_runtime'', ''assets_list'', ''image_get''}
        \<and> payload = JNull)
     \<or> (type = ''set_current_scene''
        \<and> (\<exists>s. map_of (obj_fields (Some payload)) ''scene_id'' = Some (JStr s) \<and> s \<noteq> [] \<and> length s \<le> 256))
     \<or> (type = ''set_settings'' \<and> (\<exists>kvs. payload = JObj [(''settings'', JObj kvs)] \<and> kvs \<noteq> [] \<and> list_all setting_ok kvs))
     \<or> (type = ''set_scenes''
        \<and> (\<exists>vs. map_of (obj_fields (Some payload)) ''scenes'' = Some (JArr vs)
             \<and> map_of (obj_fields (Some payload)) ''checksum'' = Some (JStr (sha256_hex x (json_text (JArr vs))))
             \<and> utf8_bytes (json_text (JArr vs)) \<le> maxScenesPayloadBytes))
     \<or> (type = ''asset_get''
        \<and> (\<exists>p. payload_paths payload = [p] \<and> (\<forall>dirs. \<exists>below. walk dirs (js_split (CHR ''/'') p) = Some (below @ dirs))))
     \<or> (type \<in> {''asset_put'', ''asset_mkdir'', ''asset_rename'', ''asset_delete''}
        \<and> payload_paths payload \<noteq> [] \<and> list_all write_safe (payload_paths payload))"

definition own_frame :: "uuid \<Rightarrow> db \<Rightarrow> uuid \<Rightarrow> bool" where
  "own_frame acc d fid \<longleftrightarrow> (\<exists>f\<in>set (frames d). f_id f = fid \<and> f_accountId f = acc)"

definition queued_by_owner :: "ext \<Rightarrow> uuid \<Rightarrow> db \<Rightarrow> command \<Rightarrow> bool" where
  "queued_by_owner x acc d c \<longleftrightarrow> c_status c = CmdPending \<and> c_createdByAccountId c = Some acc
     \<and> permitted x (c_type c) (c_payload c)
     \<and> (\<exists>f\<in>set (frames d). f_id f = c_frameId c \<and> f_accountId f = acc \<and> f_status f = FrameActive)"

definition owner_effect :: "ext \<Rightarrow> uuid \<Rightarrow> db \<Rightarrow> db \<Rightarrow> bool" where
  "owner_effect x acc d d' \<longleftrightarrow>
     filter (\<lambda>f. f_accountId f \<noteq> acc) (frames d') = filter (\<lambda>f. f_accountId f \<noteq> acc) (frames d)
     \<and> filter (\<lambda>c. \<not> own_frame acc d (c_frameId c)) (commands d') = filter (\<lambda>c. \<not> own_frame acc d (c_frameId c)) (commands d)
     \<and> (\<forall>c\<in>set (commands d'). (\<exists>c0\<in>set (commands d). cmd_moves c0 c) \<or> queued_by_owner x acc d c)"

locale owner_operation =
  fixes x :: ext and operation :: "uuid \<Rightarrow> db \<Rightarrow> db"
  assumes effect: "keyed f_id (frames d) \<Longrightarrow> owner_effect x acc d (operation acc d)"
begin

lemma others_kept:
  "keyed f_id (frames d) \<Longrightarrow> f \<in> set (frames d) \<Longrightarrow> f_accountId f \<noteq> acc \<Longrightarrow> f \<in> set (frames (operation acc d))"
proof -
  assume "keyed f_id (frames d)" and f: "f \<in> set (frames d)" "f_accountId f \<noteq> acc"
  then have "filter (\<lambda>f. f_accountId f \<noteq> acc) (frames (operation acc d)) = filter (\<lambda>f. f_accountId f \<noteq> acc) (frames d)"
    using effect by (simp add: owner_effect_def)
  then have "f \<in> set (filter (\<lambda>f. f_accountId f \<noteq> acc) (frames (operation acc d)))" using f by simp
  then show ?thesis by simp
qed

lemma nothing_for_unconfirmed:
  assumes "keyed f_id (frames d)" "f \<in> set (frames d)" "f_status f \<noteq> FrameActive"
    and "c \<in> set (commands (operation acc d))" "c_frameId c = f_id f"
  shows "\<exists>c0\<in>set (commands d). cmd_moves c0 c"
  using effect [OF assms(1), of acc] assms keyed_eq [OF assms(1)]
  by (fastforce simp: owner_effect_def queued_by_owner_def)

end

section \<open>Building blocks\<close>

lemma owner_effect_tables:
  "frames d1 = frames d' \<Longrightarrow> commands d1 = commands d' \<Longrightarrow> owner_effect x acc d d1 = owner_effect x acc d d'"
  by (simp add: owner_effect_def)

lemma owner_effect_audit [simp]:
  "owner_effect x acc d (recordAuditEvent rq a actor ev m tg d') = owner_effect x acc d d'"
  by (simp add: owner_effect_def)

lemma owner_effect_refl [simp]: "owner_effect x acc d d"
  by (auto simp: owner_effect_def)

definition moved_by_owner :: "uuid \<Rightarrow> db \<Rightarrow> command \<Rightarrow> command \<Rightarrow> bool" where
  "moved_by_owner acc d c c' \<longleftrightarrow> cmd_moves c c' \<and> (own_frame acc d (c_frameId c) \<or> c' = c)"

lemma owner_effectI:
  assumes "filter (\<lambda>f. f_accountId f \<noteq> acc) (frames d') = filter (\<lambda>f. f_accountId f \<noteq> acc) (frames d)"
    and "commands d' = old @ new" and "list_all2 (moved_by_owner acc d) (commands d) old"
    and "\<forall>c\<in>set new. queued_by_owner x acc d c"
  shows "owner_effect x acc d d'"
proof -
  have "filter (\<lambda>c. \<not> own_frame acc d (c_frameId c)) old = filter (\<lambda>c. \<not> own_frame acc d (c_frameId c)) (commands d)"
    using assms(3) by (induction rule: list_all2_induct) (auto simp: moved_by_owner_def cmd_moves_def)
  moreover have "filter (\<lambda>c. \<not> own_frame acc d (c_frameId c)) new = []"
    using assms(4) by (auto simp: filter_empty_conv queued_by_owner_def own_frame_def)
  moreover have "\<exists>c0\<in>set (commands d). cmd_moves c0 c" if "c \<in> set old" for c
    using list_all2_origin [OF assms(3) that] by (auto simp: moved_by_owner_def)
  ultimately show ?thesis using assms by (auto simp: owner_effect_def)
qed

lemma own_moves_update:
  assumes "\<And>c. P c \<Longrightarrow> cmd_moves c (g c)" and "\<And>c. P c \<Longrightarrow> own_frame acc d (c_frameId c)"
  shows "list_all2 (moved_by_owner acc d) cs (update_where P g cs)"
  by (induction cs) (auto simp: update_where_Cons moved_by_owner_def assms)

lemma own_moves_refl: "list_all2 (moved_by_owner acc d) cs cs"
  by (simp add: list_all2_same moved_by_owner_def)

lemma own_moves_supersede:
  assumes "own_frame acc d fid"
  shows "list_all2 (moved_by_owner acc d) (commands d0) (commands (supersedePendingCommands fid t d0))"
  unfolding supersedePendingCommands_def
  by (simp, rule own_moves_update) (auto simp: moves_defs assms)

lemma enqueue_tables:
  "frames (fst (enqueueFrameCommand cid fid t p a ttl now d)) = frames d"
  "commands (fst (enqueueFrameCommand cid fid t p a ttl now d)) = commands d @ [new_command cid fid t p a ttl now]"
  by (simp_all add: enqueueFrameCommand_def Let_def)

lemma supersede_frames [simp]: "frames (supersedePendingCommands fid t d) = frames d"
  by (simp add: supersedePendingCommands_def)

lemma frames_update_own:
  assumes "keyed f_id (frames d)" "f \<in> set (frames d)" "f_accountId f = acc" "\<And>q. f_accountId (g q) = f_accountId q"
  shows "filter (\<lambda>q. f_accountId q \<noteq> acc) (update_where (\<lambda>q. f_id q = f_id f) g (frames d))
       = filter (\<lambda>q. f_accountId q \<noteq> acc) (frames d)"
  using keyed_eq [OF assms(1) assms(2)] assms(3,4)
  by (intro filter_update_where_other) (metis (mono_tags))

text \<open>A step that supersedes and queues on an active frame of the account, whatever else it stores.\<close>

lemma owner_queue:
  assumes "f \<in> set (frames d)" "f_accountId f = acc" "f_status f = FrameActive"
    and "permitted x t (case p of None \<Rightarrow> JNull | Some v \<Rightarrow> v)"
    and "filter (\<lambda>f. f_accountId f \<noteq> acc) (frames d') = filter (\<lambda>f. f_accountId f \<noteq> acc) (frames d)"
    and "commands d' = cs @ [new_command cid (f_id f) t p (Some acc) ttl now]"
    and "cs = commands d \<or> cs = commands (supersedePendingCommands (f_id f) t d)"
  shows "owner_effect x acc d d'"
proof (rule owner_effectI [OF assms(5,6)])
  have "own_frame acc d (f_id f)" using assms(1,2) by (auto simp: own_frame_def)
  then show "list_all2 (moved_by_owner acc d) (commands d) cs" using assms(7) own_moves_refl own_moves_supersede by auto
  show "\<forall>c\<in>set [new_command cid (f_id f) t p (Some acc) ttl now]. queued_by_owner x acc d c"
    using assms(1-4) by (auto simp: queued_by_owner_def new_command_def)
qed

lemma with_frame_effect:
  assumes "keyed f_id (frames d)"
    and "\<And>f. f \<in> set (frames d) \<Longrightarrow> f_accountId f = acc \<Longrightarrow> owner_effect x acc d (fst (body f d))"
  shows "owner_effect x acc d (fst (with_frame acc fid body d))"
  using assms(2) by (auto simp: with_frame_def dest!: frameForAccount_owned split: option.split)

lemma with_active_effect:
  assumes "keyed f_id (frames d)"
    and "\<And>f. f \<in> set (frames d) \<Longrightarrow> f_accountId f = acc \<Longrightarrow> f_status f = FrameActive \<Longrightarrow> owner_effect x acc d (fst (body f d))"
  shows "owner_effect x acc d (fst (with_active_frame acc fid body d))"
  unfolding with_active_frame_def by (rule with_frame_effect [OF assms(1)]) (simp add: assms(2))

section \<open>Every step meets it\<close>

lemma rename_tables:
  "commands (rename_frame now fid settings d) = commands d"
  "keyed f_id (frames d) \<Longrightarrow> f \<in> set (frames d) \<Longrightarrow> f_accountId f = acc \<Longrightarrow>
   filter (\<lambda>q. f_accountId q \<noteq> acc) (frames (rename_frame now (f_id f) settings d)) = filter (\<lambda>q. f_accountId q \<noteq> acc) (frames d)"
  by (auto simp: rename_frame_def intro!: frames_update_own split: option.split json.split)

lemma settings_valid: "validateFrameSettings v = Inr kvs \<Longrightarrow> kvs \<noteq> [] \<and> list_all setting_ok kvs"
  by (auto simp: validateFrameSettings_def split: option.splits json.splits if_splits)

interpretation settings_op: owner_operation x "\<lambda>acc d. fst (frame_settings env rq fid acc profile d)" for x env rq fid profile
proof (unfold_locales, unfold frame_settings_def, rule with_active_effect, goal_cases)
  case (2 d acc f)
  show ?case
  proof (cases "validateFrameSettings (map_of (readJsonObject rq) ''settings'')")
    case (Inr settings)
    note ok = settings_valid [OF Inr]
    have "owner_effect x acc d (fst (push_settings env rq acc profile settings f d))"
    proof (cases "\<not> is_esp32 f \<or> (\<exists>key\<in>set (map fst settings). key \<noteq> ''name'')")
      case True
      have "owner_effect x acc d (fst (enqueueFrameCommand (we_uuid env 0) (f_id f) ''set_settings''
          (Some (JObj [(''settings'', JObj settings)])) (Some acc) None (we_now env)
          (supersedePendingCommands (f_id f) ''set_settings'' (rename_frame (we_now env) (f_id f) settings d))))"
        by (rule owner_queue [OF 2(2-4), where t = "''set_settings''" and p = "Some (JObj [(''settings'', JObj settings)])"])
          (use ok 2 in \<open>auto simp: permitted_def enqueue_tables rename_tables supersedePendingCommands_def\<close>)
      with True show ?thesis by (simp add: push_settings_def Let_def case_prod_beta)
    next
      case False
      have "owner_effect x acc d (rename_frame (we_now env) (f_id f) settings d)"
        by (rule owner_effectI [where new = "[]"]) (use 2 in \<open>auto simp: rename_tables own_moves_refl\<close>)
      with False show ?thesis by (simp add: push_settings_def Let_def)
    qed
    with Inr show ?thesis by simp
  qed simp
qed

interpretation command_op: owner_operation x "\<lambda>acc d. fst (frame_command env rq fid acc profile d)" for x env rq fid profile
proof (unfold_locales, unfold frame_command_def, rule with_active_effect, goal_cases)
  case (2 d acc f)
  let ?body = "readJsonObject rq"
  define type where "type = (case parseOptionalString (map_of ?body ''type'') of None \<Rightarrow> [] | Some s \<Rightarrow> s)"
  show ?case
  proof (cases "type \<in> set allowedFrameCommandTypes \<and> command_payload type ?body \<noteq> None")
    case True
    then obtain payload where p: "command_payload type ?body = Some payload" by auto
    have perm: "permitted x type (case payload of None \<Rightarrow> JNull | Some v \<Rightarrow> v)"
      using True p
      by (auto simp: permitted_def allowedFrameCommandTypes_def command_payload_def parseOptionalString_def Let_def
          split: option.splits json.splits if_splits)
    have enq: "owner_effect x acc d (fst (enqueueFrameCommand (we_uuid env 0) (f_id f) type payload (Some acc) (Some ttl) (we_now env)
        (if notify then supersedePendingCommands (f_id f) type d else d)))" for ttl notify
      by (rule owner_queue [OF 2(2-4) perm]) (auto simp: enqueue_tables)
    show ?thesis using True p enq [of updateNotifyTtlMs True] enq [of commandTtlMs False]
      by (cases "type = ''notify_update_available''") (simp_all add: Let_def case_prod_beta flip: type_def)
  next
    case False
    then show ?thesis by (auto simp: Let_def simp flip: type_def split: option.split)
  qed
qed

lemma permittedI:
  "t \<in> {''notify_update_available'', ''reboot'', ''render'', ''restart_runtime'', ''assets_list'', ''image_get''} \<Longrightarrow> permitted x t JNull"
  "map_of kvs ''scene_id'' = Some (JStr s) \<Longrightarrow> s \<noteq> [] \<Longrightarrow> length s \<le> 256 \<Longrightarrow> permitted x ''set_current_scene'' (JObj kvs)"
  "map_of kvs ''scenes'' = Some (JArr vs) \<Longrightarrow> map_of kvs ''checksum'' = Some (JStr (sha256_hex x (json_text (JArr vs)))) \<Longrightarrow>
   utf8_bytes (json_text (JArr vs)) \<le> maxScenesPayloadBytes \<Longrightarrow> permitted x ''set_scenes'' (JObj kvs)"
  by (simp_all add: permitted_def del: json_text.simps) blast?

lemma event_scene_id_nonempty: "event_scene_id body = Some s \<Longrightarrow> s \<noteq> []"
  by (auto simp: event_scene_id_def parseOptionalString_def Let_def split: option.splits json.splits if_splits)

lemma event_permitted:
  assumes "event_verb x ev body = Inr (t, p)"
  shows "permitted x t (case p of None \<Rightarrow> JNull | Some v \<Rightarrow> v)"
proof -
  consider "ev = ''render''" | "ev = ''setCurrentScene''" | "ev = ''uploadScenes''"
    using assms by (auto simp: event_verb_def Let_def split: if_splits)
  then show ?thesis
  proof cases
    case 1
    then have "t = ''render''" "p = None" using assms by (simp_all add: event_verb_def)
    then show ?thesis by (simp add: permittedI(1))
  next
    case 2
    then obtain s where s: "event_scene_id body = Some s" using assms by (auto simp: event_verb_def Let_def split: option.splits)
    with 2 assms have "length s \<le> 256" "t = ''set_current_scene''"
      "p = Some (JObj ([(''scene_id'', JStr s)] @ opt_field ''state'' (event_state body)))"
      by (auto simp: event_verb_def maxEventSceneIdChars_def split: if_splits)
    then show ?thesis using event_scene_id_nonempty [OF s] by (simp add: permittedI(2))
  next
    case 3
    then obtain vs where vs: "map_of body ''scenes'' = Some (JArr vs)"
      using assms by (auto simp: event_verb_def Let_def split: option.splits json.splits)
    with 3 assms have "utf8_bytes (json_text (JArr vs)) \<le> maxScenesPayloadBytes" "t = ''set_scenes''"
      "p = Some (JObj ([(''checksum'', JStr (sha256_hex x (json_text (JArr vs)))), (''scenes'', JArr vs)]
         @ opt_field ''scene_id'' (map_option JStr (event_scene_id body)) @ opt_field ''state'' (event_state body)))"
      by (simp_all add: event_verb_def Let_def del: json_text.simps split: if_splits)
    then show ?thesis by (simp add: permittedI(3) del: json_text.simps)
  qed
qed

interpretation event_op: owner_operation x "\<lambda>acc d. fst (frame_event x env rq fid ev acc profile d)" for x env rq fid ev profile
proof (unfold_locales, unfold frame_event_def, rule with_active_effect, goal_cases)
  case (2 d acc f)
  show ?case
  proof (cases "event_verb x ev (readJsonObject rq)")
    case (Inr tp)
    then obtain t p where v: "event_verb x ev (readJsonObject rq) = Inr (t, p)" by (cases tp) simp
    have "owner_effect x acc d (fst (enqueueFrameCommand (we_uuid env 0) (f_id f) t p (Some acc) ttl (we_now env)
        (if t = ''set_scenes'' then supersedePendingCommands (f_id f) ''set_scenes'' d else d)))" for ttl
      by (rule owner_queue [OF 2(2-4) event_permitted [OF v]]) (auto simp: enqueue_tables)
    then show ?thesis using v by (simp add: Let_def case_prod_beta)
  qed simp
qed

lemma built_payload:
  "buildScenesPayloadForFrame x fid d = Inr (scenes, checksum, names) \<Longrightarrow>
   checksum = sha256_hex x (json_text (JArr scenes)) \<and> utf8_bytes (json_text (JArr scenes)) \<le> maxScenesPayloadBytes"
  unfolding buildScenesPayloadForFrame_def Let_def by (auto simp del: json_text.simps split: sum.splits if_splits)

interpretation scenes_op: owner_operation x "\<lambda>acc d. fst (assign_scenes x env rq fid acc profile d)" for x env rq fid profile
proof (unfold_locales, unfold assign_scenes_def, rule with_active_effect, goal_cases)
  case (2 d acc f)
  have push: "owner_effect x acc d (fst (push_scenes x env rq acc profile requested f d))" for requested
  proof (cases "buildScenesPayloadForFrame x (f_id f) (replace_assignments (f_id f) requested d)")
    case (Inr p)
    obtain scenes checksum names where b: "buildScenesPayloadForFrame x (f_id f) (replace_assignments (f_id f) requested d)
        = Inr (scenes, checksum, names)" using Inr by (cases p) auto
    define payload where "payload = JObj ([(''checksum'', JStr checksum), (''scenes'', JArr scenes)]
        @ opt_field ''scene_id'' (map_option JStr (active_scene_id (readJsonObject rq))))"
    have perm: "permitted x ''set_scenes'' (case Some payload of None \<Rightarrow> JNull | Some v \<Rightarrow> v)"
      unfolding payload_def option.case by (rule permittedI(3)) (use built_payload [OF b] in \<open>auto simp del: json_text.simps\<close>)
    obtain d' r where p: "push_scenes x env rq acc profile requested f d = (d', r)" by force
    have "frames d' = update_where (\<lambda>q. f_id q = f_id f) (\<lambda>q. q\<lparr>f_assignedChecksum := Some checksum, f_updatedAt := we_now env\<rparr>) (frames d)"
      "commands d' = commands (supersedePendingCommands (f_id f) ''set_scenes'' d)
         @ [new_command (we_uuid env 0) (f_id f) ''set_scenes'' (Some payload) (Some acc) None (we_now env)]"
      using p b by (auto simp: push_scenes_def Let_def enqueueFrameCommand_def supersedePendingCommands_def
          replace_assignments_def payload_def)
    with owner_queue [OF 2(2-4) perm] frames_update_own [OF 2(1-3)]
    show ?thesis by (simp add: p)
  qed (simp add: push_scenes_def Let_def)
  show ?case by (auto simp: push split: option.split json.split sum.split)
qed

lemma revoke_moves:
  assumes "own_frame acc d (f_id f)"
  shows "list_all2 (moved_by_owner acc d) (commands d0) (commands (revokeFrame (f_id f) lid now d0))"
  unfolding revokeFrame_def by (simp, rule own_moves_update) (auto simp: moves_defs assms)

lemma revoke_effect:
  assumes "keyed f_id (frames d)" "f \<in> set (frames d)" "f_accountId f = acc"
  shows "owner_effect x acc d (revokeFrame (f_id f) lid now d)"
proof (rule owner_effectI [where new = "[]"])
  show "list_all2 (moved_by_owner acc d) (commands d) (commands (revokeFrame (f_id f) lid now d))"
    by (rule revoke_moves) (use assms in \<open>auto simp: own_frame_def\<close>)
  show "filter (\<lambda>q. f_accountId q \<noteq> acc) (frames (revokeFrame (f_id f) lid now d)) = filter (\<lambda>q. f_accountId q \<noteq> acc) (frames d)"
    using frames_update_own [OF assms] by (simp add: revokeFrame_def)
qed simp_all

interpretation confirm_op: owner_operation x "\<lambda>acc d. fst (confirm_frame env rq fid acc profile d)" for x env rq fid profile
proof (unfold_locales, unfold confirm_frame_def, rule with_frame_effect, goal_cases)
  case (2 d acc f)
  have "owner_effect x acc d (d\<lparr>frames := update_where (\<lambda>q. f_id q = f_id f) (\<lambda>q. q\<lparr>f_status := FrameActive, f_updatedAt := we_now env\<rparr>) (frames d)\<rparr>)"
    by (rule owner_effectI [where new = "[]"]) (use frames_update_own [OF 2] in \<open>auto simp: own_moves_refl\<close>)
  then show ?case by simp
qed

interpretation revoke_op: owner_operation x "\<lambda>acc d. fst (revoke_frame env rq fid acc profile d)" for x env rq fid profile
proof (unfold_locales, unfold revoke_frame_def, rule with_frame_effect, goal_cases)
  case (2 d acc f)
  then show ?case by (simp add: revoke_effect)
qed

lemma delete_effect:
  assumes e: "owner_effect x acc d d1" and own: "own_frame acc d fid"
    and ids: "\<And>q. q \<in> set (frames d1) \<Longrightarrow> f_id q = fid \<Longrightarrow> f_accountId q = acc"
  shows "owner_effect x acc d (delete_frame_rows fid d1)"
proof -
  have "filter (\<lambda>f. f_accountId f \<noteq> acc) (delete_where (\<lambda>q. f_id q = fid) (frames d1)) = filter (\<lambda>f. f_accountId f \<noteq> acc) (frames d1)"
    using ids unfolding delete_where_def filter_filter by (intro filter_cong) auto
  moreover have "filter (\<lambda>c. \<not> own_frame acc d (c_frameId c)) (delete_where (\<lambda>c. c_frameId c = fid) (commands d1))
      = filter (\<lambda>c. \<not> own_frame acc d (c_frameId c)) (commands d1)"
    using own unfolding delete_where_def filter_filter by (intro filter_cong) auto
  ultimately show ?thesis using e by (auto simp: owner_effect_def delete_frame_rows_def)
qed

interpretation delete_op: owner_operation x "\<lambda>acc d. fst (delete_frame env rq fid acc profile d)" for x env rq fid profile
proof (unfold_locales, unfold delete_frame_def, rule with_frame_effect, goal_cases)
  case (2 d acc f)
  let ?d1 = "if f_status f \<noteq> FrameRevoked then revokeFrame (f_id f) (f_linkedClientId f) (we_now env) d else d"
  have "owner_effect x acc d ?d1" using revoke_effect [OF 2] by simp
  moreover have "own_frame acc d (f_id f)" using 2 by (auto simp: own_frame_def)
  moreover have "f_accountId q = acc" if "q \<in> set (frames ?d1)" "f_id q = f_id f" for q
  proof -
    from that(1) obtain p where "p \<in> set (frames d)" "f_id q = f_id p" "f_accountId q = f_accountId p"
      by (auto simp: revokeFrame_def set_update_where split: if_splits)
    with that(2) keyed_eq [OF 2(1) _ 2(2)] 2(3) show ?thesis by metis
  qed
  ultimately have "owner_effect x acc d (delete_frame_rows (f_id f) ?d1)" by (rule delete_effect)
  then show ?case by (simp add: Let_def)
qed

interpretation listing_op: owner_operation x "\<lambda>acc d. fst (with_frame acc fid (list_assets env rq acc) d)" for x env rq fid
proof (unfold_locales, rule with_frame_effect, goal_cases)
  case (2 d acc f)
  have "owner_effect x acc d (fst (enqueueFrameCommand (we_uuid env 0) (f_id f) ''assets_list'' None (Some acc)
      (Some listCommandTtlMs) (we_now env) (supersedePendingCommands (f_id f) ''assets_list'' d)))" if "f_status f = FrameActive"
    by (rule owner_queue [OF 2(2,3) that, where t = "''assets_list''" and p = None]) (auto simp: permittedI(1) enqueue_tables)
  then show ?case by (simp add: list_assets_def Let_def)
qed

section \<open>Handlers that wait\<close>

text \<open>Run alone, a poll leaves the database as it was.\<close>

lemma poll_quiet:
  assumes "poll_asset clock (\<lambda>n d. d) deadline found refused n d = Some y"
  shows "fst y = d"
proof -
  have "(\<lambda>n d. d) = (\<lambda>(n::nat) (d::db). d) \<longrightarrow> fst y = d"
    by (rule poll_asset.raw_induct [where P = "\<lambda>clock others deadline found refused n d y. others = (\<lambda>n d. d) \<longrightarrow> fst y = d", OF _ assms])
      (auto simp: Let_def split: if_splits option.splits)
  then show ?thesis by simp
qed

lemma await_quiet:
  assumes "await_ack clock (\<lambda>n d. d) deadline cid n d = Some y"
  shows "fst (snd y) = d"
proof -
  have "(\<lambda>n d. d) = (\<lambda>(n::nat) (d::db). d) \<longrightarrow> fst (snd y) = d"
    by (rule await_ack.raw_induct [where P = "\<lambda>clock others deadline cid n d y. others = (\<lambda>n d. d) \<longrightarrow> fst (snd y) = d", OF _ assms])
      (auto simp: Let_def split: if_splits option.splits)
  then show ?thesis by simp
qed

lemma active_own: "f \<in> set (frames d) \<Longrightarrow> f_accountId f = acc \<Longrightarrow> own_frame acc d (f_id f)"
  by (auto simp: own_frame_def)

lemma fetch_effect:
  assumes "f \<in> set (frames d)" "f_accountId f = acc" "f_status f = FrameActive" "''..'' \<notin> set (js_split (CHR ''/'') path)"
  shows "owner_effect x acc d (queueAssetGetIfIdle cid now acc (f_id f) path thumb d)"
proof -
  have "payload_paths (asset_get_payload path thumb) = [path]" by (simp add: payload_paths_def asset_get_payload_def)
  then have perm: "permitted x ''asset_get'' (case Some (asset_get_payload path thumb) of None \<Rightarrow> JNull | Some v \<Rightarrow> v)"
    using walk_down [OF assms(4)] by (simp add: permitted_def)
  have "owner_effect x acc d (fst (enqueueFrameCommand cid (f_id f) ''asset_get'' (Some (asset_get_payload path thumb))
      (Some acc) (Some assetFetchCommandTtlMs) now d))"
    by (rule owner_queue [OF assms(1-3) perm]) (auto simp: enqueue_tables)
  then show ?thesis by (simp add: queueAssetGetIfIdle_def split: option.split)
qed

lemma get_asset_effect:
  assumes "get_asset env clock (\<lambda>n d. d) rq acc f d = Some (d', r)" "f \<in> set (frames d)" "f_accountId f = acc"
  shows "owner_effect x acc d d'"
proof (cases "normalizeAssetPath (case map_of (rq_query rq) ''path'' of None \<Rightarrow> [] | Some p \<Rightarrow> p)")
  case None
  then show ?thesis using assms(1) by (simp add: get_asset_def)
next
  case (Some path)
  define thumb where "thumb = (map_of (rq_query rq) ''thumb'' = Some ''1'')"
  define cached where "cached = cachedAssetFile (f_id f) path thumb d"
  define d1 where "d1 = (if stale cacheStaleAfterMs (clock 0) cached \<and> f_status f = FrameActive
      then queueAssetGetIfIdle (we_uuid env 0) (clock 0) acc (f_id f) path thumb d else d)"
  have "owner_effect x acc d d1" using fetch_effect [OF assms(2,3) _ normalized_path(4) [OF Some]] by (simp add: d1_def)
  moreover have "d' = d1"
    using assms(1) Some unfolding d1_def cached_def thumb_def
    by (auto simp: get_asset_def Let_def dest!: poll_quiet split: option.splits if_splits)
  ultimately show ?thesis by simp
qed

lemma get_image_effect:
  assumes "get_image env clock (\<lambda>n d. d) acc f d = Some (d', r)" "f \<in> set (frames d)" "f_accountId f = acc"
  shows "owner_effect x acc d d'"
proof -
  define d1 where "d1 = (if stale imageStaleAfterMs (clock 0) (cachedImage (f_id f) d) \<and> f_status f = FrameActive
      \<and> outstandingCommand (clock 0) (f_id f) ''image_get'' d = None
      then fst (enqueueFrameCommand (we_uuid env 0) (f_id f) ''image_get'' None (Some acc) (Some fetchCommandTtlMs) (clock 0) d) else d)"
  have "owner_effect x acc d (fst (enqueueFrameCommand (we_uuid env 0) (f_id f) ''image_get'' None (Some acc)
      (Some fetchCommandTtlMs) (clock 0) d))" if "f_status f = FrameActive"
    by (rule owner_queue [OF assms(2,3) that, where t = "''image_get''" and p = None]) (auto simp: permittedI(1) enqueue_tables)
  then have "owner_effect x acc d d1" by (simp add: d1_def)
  moreover have "d' = d1"
    using assms(1) unfolding d1_def by (auto simp: get_image_def Let_def dest!: poll_quiet split: option.splits if_splits)
  ultimately show ?thesis by simp
qed

text \<open>A write verb, and after its acknowledgement the fresh listing.\<close>

lemma write_effect:
  assumes "run_asset_write env clock (\<lambda>n d. d) acc f q d = Some (d', r)"
    and f: "f \<in> set (frames d)" "f_accountId f = acc" "f_status f = FrameActive"
    and "Inr q \<in> {upload_request x form, mkdir_request form, rename_request form, delete_request form}"
  shows "owner_effect x acc d d'"
proof -
  note safe = requests_safe [OF assms(5)]
  let ?c = "new_command (we_uuid env 0) (f_id f) (aw_type q) (Some (aw_payload q)) (Some acc) (Some assetWriteTtlMs) (clock 0)"
  define d1 where "d1 = fst (enqueueFrameCommand (we_uuid env 0) (f_id f) (aw_type q) (Some (aw_payload q)) (Some acc)
      (Some assetWriteTtlMs) (clock 0) d)"
  have t: "aw_type q \<noteq> ''assets_list''" using safe(2) by auto
  have perm: "permitted x (aw_type q) (case Some (aw_payload q) of None \<Rightarrow> JNull | Some v \<Rightarrow> v)"
    using safe(1,2,4) by (auto simp: permitted_def list_all_iff)
  have e1: "owner_effect x acc d d1"
    by (rule owner_queue [OF f perm]) (auto simp: d1_def enqueue_tables)
  obtain n d2 result where run: "runAssetWriteCommand env clock (\<lambda>n d. d) acc (f_id f) (aw_type q) (aw_payload q) d = Some (n, d2, result)"
    using assms(1) by (auto simp: run_asset_write_def split: option.splits)
  then have d2: "d2 = d1"
    by (auto simp: runAssetWriteCommand_def d1_def Let_def case_prod_beta dest: await_quiet)
  show ?thesis
  proof (cases "result = AssetOk")
    case False
    then have "d' = d1" using assms(1) run d2 by (cases result) (auto simp: run_asset_write_def)
    with e1 show ?thesis by simp
  next
    case True
    define d3 where "d3 = fold (invalidateCachedAssetSubtree (f_id f)) (aw_stale q) d1"
    have d': "d' = queueAssetsListRefresh (we_uuid env 1) (clock n) acc (f_id f) d3"
      using assms(1) run True by (simp add: run_asset_write_def d2 d3_def)
    let ?c2 = "new_command (we_uuid env 1) (f_id f) ''assets_list'' None (Some acc) (Some assetWriteTtlMs) (clock n)"
    have cs: "commands d' = commands (supersedePendingCommands (f_id f) ''assets_list'' d) @ [?c, ?c2]"
      using t by (simp add: d' d3_def d1_def queueAssetsListRefresh_def enqueue_tables supersedePendingCommands_def
          update_where_append update_where_Cons new_command_def)
    show ?thesis
    proof (rule owner_effectI [OF _ cs])
      show "list_all2 (moved_by_owner acc d) (commands d) (commands (supersedePendingCommands (f_id f) ''assets_list'' d))"
        by (rule own_moves_supersede) (rule active_own [OF f(1,2)])
      show "\<forall>c\<in>set [?c, ?c2]. queued_by_owner x acc d c"
        using f perm by (auto simp: queued_by_owner_def new_command_def permittedI(1))
    qed (simp add: d' d3_def d1_def queueAssetsListRefresh_def enqueue_tables)
  qed
qed

lemma js_split_word: "CHR ''/'' \<notin> set w \<Longrightarrow> js_split (CHR ''/'') w = [w]"
  using js_split_join [of "[w]" "CHR ''/''"] by simp

lemma js_split_dir: "CHR ''/'' \<notin> set w \<Longrightarrow> js_split (CHR ''/'') (w @ CHR ''/'' # rest) = w # js_split (CHR ''/'') rest"
  by (induction w) auto

lemma snapshot_path_inside:
  assumes "CHR ''/'' \<notin> set (md5_hex x (if js_starts_with ''uploaded/'' s then drop (length ''uploaded/'') s else s))"
  shows "''..'' \<notin> set (js_split (CHR ''/'') (sceneSnapshotAssetPath x s))"
proof -
  define p where "p = (if js_starts_with ''uploaded/'' s then drop (length ''uploaded/'') s else s)"
  define safe where "safe = (let t = strip_ends ''_.-'' (safe_chars p) in if length t = 0 then ''scene'' else t)"
  have "CHR ''/'' \<notin> set safe"
    using set_strip_ends [of "''_.-''" "safe_chars p"]
    by (auto simp: safe_def Let_def safe_chars_def asset_char_def is_alnum_def is_digit_def is_alpha_def code_unit_def)
  then have name: "CHR ''/'' \<notin> set (take 64 safe @ ''-'' @ md5_hex x p @ ''.png'')"
    using assms by (auto simp: p_def dest: in_set_takeD)
  have "sceneSnapshotAssetPath x s = ''.frameos'' @ CHR ''/'' # ''scene_images'' @ CHR ''/'' # (take 64 safe @ ''-'' @ md5_hex x p @ ''.png'')"
    by (simp add: sceneSnapshotAssetPath_def Let_def safe_def p_def)
  then have "js_split (CHR ''/'') (sceneSnapshotAssetPath x s)
      = [''.frameos'', ''scene_images'', take 64 safe @ ''-'' @ md5_hex x p @ ''.png'']"
    using js_split_dir [of "''.frameos''"] js_split_dir [of "''scene_images''"] js_split_word [OF name] by simp
  moreover have "take 64 safe @ ''-'' @ md5_hex x p @ ''.png'' \<noteq> ''..''"
    by (auto dest: arg_cong [where f = last])
  ultimately show ?thesis by auto
qed

lemma get_scene_image_effect:
  assumes "get_scene_image x env clock (\<lambda>n d. d) rq sceneId acc f d cache = (cache', Some (d', r))"
    and f: "f \<in> set (frames d)" "f_accountId f = acc" and md5: "\<And>s. CHR ''/'' \<notin> set (md5_hex x s)"
  shows "owner_effect x acc d d'"
proof -
  define path where "path = sceneSnapshotAssetPath x sceneId"
  define thumb where "thumb = (map_of (rq_query rq) ''thumb'' = Some ''1'')"
  define q where "q = queueAssetGetIfIdle (we_uuid env 0) (clock 0) acc (f_id f) path thumb d"
  have "owner_effect x acc d q" if "f_status f = FrameActive"
    using fetch_effect [OF f that snapshot_path_inside [OF md5, of sceneId]] by (simp add: q_def path_def)
  moreover have "d' = d \<or> (f_status f = FrameActive \<and> d' = q)"
    using assms(1) unfolding q_def path_def thumb_def
    by (auto simp: get_scene_image_def Let_def dest!: poll_quiet split: option.splits if_splits prod.splits)
  ultimately show ?thesis by auto
qed

section \<open>All requests\<close>

datatype owner_request = ConfirmFrame | RevokeFrame | DeleteFrame | PushSettings | SendCommand | SendEvent string
  | AssignScenes | ListAssets | FetchAsset | FetchImage | FetchSceneImage string | WriteAsset asset_write

definition when_found :: "uuid \<Rightarrow> string \<Rightarrow> (frame \<Rightarrow> db \<Rightarrow> (db \<times> 'r) option) \<Rightarrow> db \<Rightarrow> db option" where
  "when_found acc fid body d =
     (case frameForAccount acc fid d of None \<Rightarrow> Some d | Some f \<Rightarrow> map_option fst (body f d))"

text \<open>What a request of an account leaves behind when it runs alone; \<open>None\<close> would be a poll without end.\<close>

fun owner_handler ::
  "ext \<Rightarrow> web_env \<Rightarrow> (nat \<Rightarrow> time) \<Rightarrow> web_request \<Rightarrow> string \<Rightarrow> fields \<Rightarrow> runtime_ids \<Rightarrow> owner_request \<Rightarrow> uuid \<Rightarrow> db \<Rightarrow> db option" where
  "owner_handler x env clock rq fid profile cache ConfirmFrame acc d = Some (fst (confirm_frame env rq fid acc profile d))"
| "owner_handler x env clock rq fid profile cache RevokeFrame acc d = Some (fst (revoke_frame env rq fid acc profile d))"
| "owner_handler x env clock rq fid profile cache DeleteFrame acc d = Some (fst (delete_frame env rq fid acc profile d))"
| "owner_handler x env clock rq fid profile cache PushSettings acc d = Some (fst (frame_settings env rq fid acc profile d))"
| "owner_handler x env clock rq fid profile cache SendCommand acc d = Some (fst (frame_command env rq fid acc profile d))"
| "owner_handler x env clock rq fid profile cache (SendEvent ev) acc d = Some (fst (frame_event x env rq fid ev acc profile d))"
| "owner_handler x env clock rq fid profile cache AssignScenes acc d = Some (fst (assign_scenes x env rq fid acc profile d))"
| "owner_handler x env clock rq fid profile cache ListAssets acc d = Some (fst (with_frame acc fid (list_assets env rq acc) d))"
| "owner_handler x env clock rq fid profile cache FetchAsset acc d =
     when_found acc fid (get_asset env clock (\<lambda>n d. d) rq acc) d"
| "owner_handler x env clock rq fid profile cache FetchImage acc d =
     when_found acc fid (get_image env clock (\<lambda>n d. d) acc) d"
| "owner_handler x env clock rq fid profile cache (FetchSceneImage sceneId) acc d =
     when_found acc fid (\<lambda>f d. snd (get_scene_image x env clock (\<lambda>n d. d) rq sceneId acc f d cache)) d"
| "owner_handler x env clock rq fid profile cache (WriteAsset q) acc d =
     when_found acc fid (\<lambda>f d. if f_status f \<noteq> FrameActive then Some (d, jsonOk [])
                            else run_asset_write env clock (\<lambda>n d. d) acc f q d) d"

definition validated :: "ext \<Rightarrow> form_data option \<Rightarrow> owner_request \<Rightarrow> bool" where
  "validated x form request \<longleftrightarrow>
     (case request of
        WriteAsset q \<Rightarrow> Inr q \<in> {upload_request x form, mkdir_request form, rename_request form, delete_request form}
      | _ \<Rightarrow> True)"

lemma when_found_effect:
  assumes "when_found acc fid body d = Some d'"
    and "\<And>f r. f \<in> set (frames d) \<Longrightarrow> f_accountId f = acc \<Longrightarrow> body f d = Some (d', r) \<Longrightarrow> owner_effect x acc d d'"
  shows "owner_effect x acc d d'"
  using assms by (auto simp: when_found_def dest!: frameForAccount_owned split: option.splits)

lemma owner_handler_effect:
  assumes "keyed f_id (frames d)" and md5: "\<And>s. CHR ''/'' \<notin> set (md5_hex x s)"
    and "owner_handler x env clock rq fid profile cache request acc d = Some d'" and "validated x form request"
  shows "owner_effect x acc d d'"
proof (cases request)
  case FetchAsset
  with assms(3) show ?thesis by (auto intro: when_found_effect get_asset_effect)
next
  case FetchImage
  with assms(3) show ?thesis by (auto intro: when_found_effect get_image_effect)
next
  case (FetchSceneImage s)
  have found: "when_found acc fid (\<lambda>f d. snd (get_scene_image x env clock (\<lambda>n d. d) rq s acc f d cache)) d = Some d'"
    using assms(3) FetchSceneImage by simp
  show ?thesis
  proof (rule when_found_effect [OF found])
    fix f r assume f: "f \<in> set (frames d)" "f_accountId f = acc"
      and "snd (get_scene_image x env clock (\<lambda>n d. d) rq s acc f d cache) = Some (d', r)"
    then obtain c where "get_scene_image x env clock (\<lambda>n d. d) rq s acc f d cache = (c, Some (d', r))"
      by (metis prod.collapse)
    then show "owner_effect x acc d d'" using f md5 by (rule get_scene_image_effect)
  qed
next
  case (WriteAsset q)
  have found: "when_found acc fid (\<lambda>f d. if f_status f \<noteq> FrameActive then Some (d, jsonOk [])
      else run_asset_write env clock (\<lambda>n d. d) acc f q d) d = Some d'"
    using assms(3) WriteAsset by simp
  show ?thesis
    by (rule when_found_effect [OF found])
      (use assms(4) WriteAsset in \<open>auto simp: validated_def split: if_splits intro: write_effect [where form = form]\<close>)
qed (use assms(1,3) in \<open>auto intro: confirm_op.effect revoke_op.effect delete_op.effect settings_op.effect command_op.effect
      event_op.effect scenes_op.effect listing_op.effect\<close>)

text \<open>
  C6.  What an owner's requests may do.  Whatever request a signed-in account makes for whatever frame
  id, frames of other accounts and the commands of their frames are left exactly as they were, in
  order; a command that appears is pending, made by that account for an active frame of its own, and
  carries one of the permitted verbs with a payload that passes its checks; and the queue of a frame
  that is not active receives nothing.
\<close>

theorem owner_requests_confined:
  assumes "keyed f_id (frames d)" and "\<And>s. CHR ''/'' \<notin> set (md5_hex x s)"
    and "owner_handler x env clock rq fid profile cache request acc d = Some d'" and "validated x form request"
  shows "owner_effect x acc d d'
    \<and> (f \<in> set (frames d) \<and> f_status f \<noteq> FrameActive \<and> c \<in> set (commands d') \<and> c_frameId c = f_id f
         \<longrightarrow> list_ex (\<lambda>c0. cmd_moves c0 c) (commands d))"
proof -
  note eff = owner_handler_effect [OF assms]
  have "list_ex (\<lambda>c0. cmd_moves c0 c) (commands d)"
    if "f \<in> set (frames d)" "f_status f \<noteq> FrameActive" "c \<in> set (commands d')" "c_frameId c = f_id f"
    using eff that keyed_eq [OF assms(1)]
    by (fastforce simp: owner_effect_def queued_by_owner_def list_ex_iff)
  with eff show ?thesis by blast
qed

theorem owner_requests_confined_witness:
  "owner_effect (sample_ext\<lparr>md5_hex := (\<lambda>s. ''0'')\<rparr>) ''a'' scenes_db
     (fst (frame_event (sample_ext\<lparr>md5_hex := (\<lambda>s. ''0'')\<rparr>) (demo_env 1) (demo_web_request None) demo_uuid ''render'' ''a'' [] scenes_db))"
proof -
  have "keyed f_id (frames scenes_db)" by (simp add: scenes_db_def keyed_def)
  then show ?thesis
    using owner_requests_confined [of scenes_db "sample_ext\<lparr>md5_hex := (\<lambda>s. ''0'')\<rparr>" "demo_env 1" "\<lambda>k. 0"
        "demo_web_request None" demo_uuid "[]" "[]" "SendEvent ''render''" "''a''" _ None]
    by (simp add: validated_def)
qed

end
