(* ===== verification/StoreVersions.thy ===== *)
theory StoreVersions imports FrameOwner "HOL-Library.Option_ord" begin

text \<open>
  FrameOS version numbers: their order (\<open>store-versions.ts\<close>), its SQL form (\<open>store-versions-sql.ts\<close>), the
  sort of \<open>Array.prototype\<close> they are listed with, and the version field of a listing (\<open>store.ts\<close>).
\<close>

section \<open>Arrays and sets of the language\<close>

text \<open>
  \<open>Array.prototype.sort\<close>, which is stable, on a consistent comparator; \<open>[...new Set(values)]\<close>, which
  keeps the first of equal values.
\<close>

fun js_insert :: "('a \<Rightarrow> 'a \<Rightarrow> int) \<Rightarrow> 'a \<Rightarrow> 'a list \<Rightarrow> 'a list" where
  "js_insert cmp v [] = [v]"
| "js_insert cmp v (w # ws) = (if cmp v w \<le> 0 then v # w # ws else w # js_insert cmp v ws)"

definition js_sort :: "('a \<Rightarrow> 'a \<Rightarrow> int) \<Rightarrow> 'a list \<Rightarrow> 'a list" where
  "js_sort cmp vs = foldr (js_insert cmp) vs []"

definition js_set :: "'a list \<Rightarrow> 'a list" where
  "js_set vs = foldl (\<lambda>seen v. if v \<in> set seen then seen else seen @ [v]) [] vs"

lemma set_js_insert [simp]: "set (js_insert cmp v ws) = insert v (set ws)"
  by (induction ws) auto

lemma length_js_insert [simp]: "length (js_insert cmp v ws) = Suc (length ws)"
  by (induction ws) auto

lemma js_sort_Nil [simp]: "js_sort cmp [] = []"
  by (simp add: js_sort_def)

lemma js_sort_Cons: "js_sort cmp (v # vs) = js_insert cmp v (js_sort cmp vs)"
  by (simp add: js_sort_def)

lemma set_js_sort [simp]: "set (js_sort cmp vs) = set vs"
  by (induction vs) (auto simp: js_sort_Cons)

lemma length_js_sort [simp]: "length (js_sort cmp vs) = length vs"
  by (induction vs) (auto simp: js_sort_Cons)

lemma js_sort_eq_Nil [simp]: "js_sort cmp vs = [] \<longleftrightarrow> vs = []"
  by (metis length_0_conv length_js_sort)

lemma distinct_js_insert: "distinct (js_insert cmp v ws) \<longleftrightarrow> v \<notin> set ws \<and> distinct ws"
  by (induction ws) auto

lemma distinct_js_sort [simp]: "distinct (js_sort cmp vs) \<longleftrightarrow> distinct vs"
  by (induction vs) (auto simp: js_sort_Cons distinct_js_insert)

lemma js_sort_sorted:
  assumes "\<And>a b. cmp a b \<le> 0 \<longleftrightarrow> (k a :: 'k :: linorder) \<le> k b"
  shows "sorted (map k (js_sort cmp vs))"
proof -
  have "sorted (map k ws) \<Longrightarrow> sorted (map k (js_insert cmp v ws))" for v ws
    by (induction ws) (use assms in \<open>force simp: not_le less_imp_le\<close>)+
  then show ?thesis by (induction vs) (auto simp: js_sort_Cons)
qed

lemma js_set_props: "set (js_set vs) = set vs \<and> distinct (js_set vs)"
proof -
  have "distinct seen \<Longrightarrow> set (foldl (\<lambda>seen v. if v \<in> set seen then seen else seen @ [v]) seen vs) = set seen \<union> set vs
     \<and> distinct (foldl (\<lambda>seen v. if v \<in> set seen then seen else seen @ [v]) seen vs)" for seen
    by (induction vs arbitrary: seen) auto
  from this [of "[]"] show ?thesis by (simp add: js_set_def)
qed

section \<open>Version numbers\<close>

definition MAX_SAFE_INTEGER :: int where "MAX_SAFE_INTEGER = 2 ^ 53 - 1"

definition frameosVersionComponents :: nat where "frameosVersionComponents = 4"

text \<open>
  The digit groups of the longest prefix that matches \<open>[0-9]+(\.[0-9]+)*\<close>, i.e. that prefix split at
  the dots; no group when nothing matches.
\<close>

function numericPrefix :: "string \<Rightarrow> string list" where
  "numericPrefix s =
     (let ds = takeWhile is_digit s
      in if ds = [] then []
         else case dropWhile is_digit s of
             [] \<Rightarrow> [ds]
           | c # rest \<Rightarrow> if c = CHR ''.'' then ds # numericPrefix rest else [ds])"
  by pat_completeness auto
termination
  by (relation "measure length") (auto, metis Suc_le_lessD length_Cons length_dropWhile_le)

declare numericPrefix.simps [simp del]

text \<open>\<open>parseInt\<close> of a group of digits; a number that is not a safe integer is clamped.\<close>

definition version_component :: "string \<Rightarrow> int" where
  "version_component part = (let parsed = digits_value part in if parsed \<le> MAX_SAFE_INTEGER then parsed else MAX_SAFE_INTEGER)"

definition frameosVersionKey :: "string option \<Rightarrow> int list option" where
  "frameosVersionKey v =
     (case v of
        None \<Rightarrow> None
      | Some s \<Rightarrow>
          (let parts = numericPrefix (js_trim s)
           in if parts = [] then None
              else let key = map version_component (take frameosVersionComponents parts)
                   in Some (key @ replicate (frameosVersionComponents - length key) 0)))"

fun compare_keys :: "int list \<Rightarrow> int list \<Rightarrow> int" where
  "compare_keys (a # as) (b # bs) =
     (let diff = a - b in if diff \<noteq> 0 then (if diff < 0 then - 1 else 1) else compare_keys as bs)"
| "compare_keys _ _ = 0"

definition compareFrameosVersions :: "string option \<Rightarrow> string option \<Rightarrow> int" where
  "compareFrameosVersions a b =
     (case (frameosVersionKey a, frameosVersionKey b) of
        (Some ka, Some kb) \<Rightarrow> compare_keys ka kb
      | (Some _, None) \<Rightarrow> 1
      | (None, Some _) \<Rightarrow> - 1
      | (None, None) \<Rightarrow> 0)"

definition frameosVersionSatisfies :: "string option \<Rightarrow> string option \<Rightarrow> bool" where
  "frameosVersionSatisfies minimum target =
     (if frameosVersionKey minimum = None \<or> frameosVersionKey target = None then True
      else compareFrameosVersions minimum target \<le> 0)"

definition sortFrameosVersionsDesc :: "string list \<Rightarrow> string list" where
  "sortFrameosVersionsDesc vs = js_sort (\<lambda>a b. compareFrameosVersions (Some b) (Some a)) (js_set vs)"

definition requestedVersionPattern :: "string \<Rightarrow> bool" where
  "requestedVersionPattern s \<longleftrightarrow>
     (let groups = js_split (CHR ''.'') s
      in length groups \<le> 4 \<and> list_all (\<lambda>g. 1 \<le> length g \<and> length g \<le> 10 \<and> list_all is_digit g) groups)"

definition normalizeRequestedFrameosVersion :: "string option \<Rightarrow> string option" where
  "normalizeRequestedFrameosVersion v =
     (case v of None \<Rightarrow> None
      | Some s \<Rightarrow> let trimmed = js_trim s in if requestedVersionPattern trimmed then Some trimmed else None)"

text \<open>The SQL filter: \<open>btrim\<close> takes off spaces only, \<open>numeric\<close> is exact, arrays compare element by element.\<close>

definition pg_btrim :: "string \<Rightarrow> string" where
  "pg_btrim s = rev (dropWhile ((=) (CHR '' '')) (rev (dropWhile ((=) (CHR '' '')) s)))"

definition frameosVersionSatisfiesSql :: "string option \<Rightarrow> string \<Rightarrow> bool" where
  "frameosVersionSatisfiesSql column target =
     (case frameosVersionKey (Some target) of
        None \<Rightarrow> True
      | Some targetArray \<Rightarrow>
          (case column of
             None \<Rightarrow> True
           | Some c \<Rightarrow>
               takeWhile is_digit (pg_btrim c) = []
               \<or> take frameosVersionComponents (map digits_value (numericPrefix (pg_btrim c)) @ [0, 0, 0, 0]) \<le> targetArray))"

text \<open>\<open>normalizeFrameosVersion\<close> of \<open>store.ts\<close>: what a stored scene may declare.\<close>

definition version_token :: "string \<Rightarrow> bool" where
  "version_token s \<longleftrightarrow> 1 \<le> length s \<and> length s \<le> 32 \<and> is_alnum (hd s)
     \<and> list_all (\<lambda>c. is_alnum c \<or> c \<in> {CHR ''.'', CHR ''+'', CHR ''-''}) s"

definition normalizeFrameosVersion :: "json option \<Rightarrow> string option" where
  "normalizeFrameosVersion v =
     (case v of Some (JStr s) \<Rightarrow> if version_token (js_trim s) then Some (js_trim s) else None | _ \<Rightarrow> None)"

section \<open>The order of versions\<close>

lemma key_shape:
  assumes "frameosVersionKey v = Some k"
  shows "length k = frameosVersionComponents \<and> list_all (\<lambda>n. 0 \<le> n \<and> n \<le> MAX_SAFE_INTEGER) k"
proof -
  have nonneg: "0 \<le> digits_value ds" if "list_all is_digit ds" for ds
  proof -
    have "0 \<le> n \<Longrightarrow> 0 \<le> foldl (\<lambda>n c. n * 10 + (code_unit c - 48)) n ds" for n
      using that by (induction ds arbitrary: n) (auto simp: is_digit_def)
    then show ?thesis by (simp add: digits_value_def)
  qed
  have groups: "list_all (list_all is_digit) (numericPrefix s)" for s
  proof (induction s rule: numericPrefix.induct)
    case (1 s)
    have "list_all is_digit (takeWhile is_digit s)" by (auto simp: list_all_iff dest: set_takeWhileD)
    with 1 show ?case by (subst numericPrefix.simps) (auto simp: Let_def split: list.split)
  qed
  obtain s where s: "k = map version_component (take frameosVersionComponents (numericPrefix (js_trim s)))
      @ replicate (frameosVersionComponents - length (take frameosVersionComponents (numericPrefix (js_trim s)))) 0"
    using assms by (auto simp: frameosVersionKey_def Let_def split: option.splits if_splits)
  have "list_all (\<lambda>n. 0 \<le> n \<and> n \<le> MAX_SAFE_INTEGER) (map version_component (take frameosVersionComponents (numericPrefix (js_trim s))))"
    using groups [of "js_trim s"] nonneg
    by (auto simp: list_all_iff version_component_def Let_def MAX_SAFE_INTEGER_def dest!: in_set_takeD)
  with s show ?thesis by (auto simp: list_all_iff MAX_SAFE_INTEGER_def)
qed

lemma compare_keys_lex:
  "length as = length bs \<Longrightarrow> compare_keys as bs = (if as < bs then - 1 else if as = bs then 0 else 1)"
  by (induction as bs rule: compare_keys.induct) (auto simp: Let_def)

lemma compare_rank:
  "compareFrameosVersions a b =
     (if frameosVersionKey a < frameosVersionKey b then - 1
      else if frameosVersionKey a = frameosVersionKey b then 0 else 1)"
  by (cases "frameosVersionKey a"; cases "frameosVersionKey b")
    (auto simp: compareFrameosVersions_def compare_keys_lex key_shape)

text \<open>
  The comparator of the store is a total preorder: it is antisymmetric in its sign, transitive, 0
  exactly on versions with the same key, and puts unreadable versions first; the newest-first listing
  of the version picker holds every given version once, in descending order of the keys.
\<close>

lemma versions_totally_ordered:
  "compareFrameosVersions a b = - compareFrameosVersions b a
   \<and> (compareFrameosVersions a b \<le> 0 \<longrightarrow> compareFrameosVersions b c \<le> 0 \<longrightarrow> compareFrameosVersions a c \<le> 0)
   \<and> (compareFrameosVersions a b = 0 \<longleftrightarrow> frameosVersionKey a = frameosVersionKey b)
   \<and> (frameosVersionKey a = None \<longrightarrow> compareFrameosVersions a b \<le> 0)
   \<and> set (sortFrameosVersionsDesc vs) = set vs \<and> distinct (sortFrameosVersionsDesc vs)
   \<and> sorted_wrt (\<lambda>v w. compareFrameosVersions (Some v) (Some w) \<ge> 0) (sortFrameosVersionsDesc vs)"
proof -
  have order: "compareFrameosVersions v w \<le> 0 \<longleftrightarrow> frameosVersionKey v \<le> frameosVersionKey w" for v w
    by (auto simp: compare_rank)
  have *: "sorted_wrt (\<lambda>v w. compareFrameosVersions (Some w) (Some v) \<le> 0) (js_sort (\<lambda>a b. compareFrameosVersions (Some b) (Some a)) ws)" for ws
  proof -
    let ?ge = "\<lambda>v w. compareFrameosVersions (Some w) (Some v) \<le> 0"
    have "sorted_wrt ?ge us \<Longrightarrow> sorted_wrt ?ge (js_insert (\<lambda>a b. compareFrameosVersions (Some b) (Some a)) v us)" for v us
      by (induction us) (force simp: order not_le less_imp_le)+
    then show ?thesis by (induction ws) (auto simp: js_sort_Cons)
  qed
  have flip: "compareFrameosVersions (Some w) (Some v) \<le> 0 \<longleftrightarrow> compareFrameosVersions (Some v) (Some w) \<ge> 0" for v w
    by (auto simp: compare_rank)
  have sorted: "sorted_wrt (\<lambda>v w. compareFrameosVersions (Some v) (Some w) \<ge> 0) (sortFrameosVersionsDesc vs)"
    using * [of "js_set vs"] unfolding sortFrameosVersionsDesc_def flip .
  have "compareFrameosVersions a b = - compareFrameosVersions b a"
    "compareFrameosVersions a b = 0 \<longleftrightarrow> frameosVersionKey a = frameosVersionKey b"
    by (auto simp: compare_rank)
  moreover have "compareFrameosVersions a b \<le> 0 \<longrightarrow> compareFrameosVersions b c \<le> 0 \<longrightarrow> compareFrameosVersions a c \<le> 0"
    by (auto simp: order)
  moreover have "frameosVersionKey a = None \<longrightarrow> compareFrameosVersions a b \<le> 0" by (simp add: order)
  moreover have "set (sortFrameosVersionsDesc vs) = set vs \<and> distinct (sortFrameosVersionsDesc vs)"
    using js_set_props [of vs] by (simp add: sortFrameosVersionsDesc_def)
  ultimately show ?thesis using sorted by blast
qed

section \<open>The SQL filter\<close>

lemma digits_value_bound: "list_all is_digit ds \<Longrightarrow> digits_value ds < 10 ^ length ds"
proof -
  assume d: "list_all is_digit ds"
  have "foldl (\<lambda>n c. n * 10 + (code_unit c - 48)) n ds < (n + 1) * 10 ^ length ds" if "0 \<le> n" for n
    using d that
  proof (induction ds arbitrary: n)
    case (Cons c ds)
    then have c: "0 \<le> code_unit c - 48" "code_unit c - 48 \<le> 9" by (auto simp: is_digit_def)
    then have "foldl (\<lambda>n c. n * 10 + (code_unit c - 48)) n (c # ds) < (n * 10 + (code_unit c - 48) + 1) * 10 ^ length ds"
      using Cons.IH [of "n * 10 + (code_unit c - 48)"] Cons.prems by simp
    also have "\<dots> \<le> (n + 1) * 10 * 10 ^ length ds" by (intro mult_right_mono) (use c in auto)
    finally show ?case by (simp add: algebra_simps)
  qed simp
  from this [of 0] show ?thesis by (simp add: digits_value_def)
qed

lemma clamped_order:
  "length as = length bs \<Longrightarrow> list_all (\<lambda>n. n < m) bs \<Longrightarrow>
   map (\<lambda>n. if n \<le> m then n else m) as \<le> bs \<longleftrightarrow> as \<le> (bs :: int list)"
proof (induction as bs rule: list_induct2)
  case (Cons a as b bs)
  then show ?case by (auto split: if_splits)
qed simp

lemma numericPrefix_split:
  "list_all (\<lambda>g. g \<noteq> [] \<and> list_all is_digit g) (js_split (CHR ''.'') s) \<Longrightarrow> numericPrefix s = js_split (CHR ''.'') s"
proof (induction s rule: numericPrefix.induct)
  case (1 s)
  have dot: "\<not> is_digit (CHR ''.'')" by code_simp
  obtain g gs where g: "js_split (CHR ''.'') s = g # gs" by (cases "js_split (CHR ''.'') s") auto
  with 1 have d: "list_all is_digit g" "g \<noteq> []" by auto
  have s: "s = g @ (if gs = [] then [] else CHR ''.'' # js_join [CHR ''.''] gs)"
  proof -
    have "s = js_join [CHR ''.''] (g # gs)" using js_join_split [of "CHR ''.''" s] g by simp
    then show ?thesis by (simp add: js_join_Cons)
  qed
  have t: "takeWhile is_digit s = g" "dropWhile is_digit s = (if gs = [] then [] else CHR ''.'' # js_join [CHR ''.''] gs)"
    using d dot by (cases "gs = []"; simp add: s list_all_iff takeWhile_append2 dropWhile_append2)+
  show ?case
  proof (cases "gs = []")
    case True
    show ?thesis by (subst numericPrefix.simps) (simp add: d t g True)
  next
    case False
    have sub: "js_split (CHR ''.'') (js_join [CHR ''.''] gs) = gs"
      using False g js_split_no_sep [of _ "CHR ''.''" s] by (intro js_split_join) auto
    from 1(1) [OF refl _ _ refl] d t False 1(2) g sub
    have "numericPrefix (js_join [CHR ''.''] gs) = gs" by auto
    then show ?thesis by (subst numericPrefix.simps) (simp add: d t g False)
  qed
qed

lemma numericPrefix_Nil: "numericPrefix s = [] \<longleftrightarrow> takeWhile is_digit s = []"
  by (subst numericPrefix.simps) (auto simp: Let_def split: list.split)

lemma token_trim:
  assumes "version_token s" shows "js_trim s = s" "pg_btrim s = s"
proof -
  have "\<not> js_ws c \<and> CHR '' '' \<noteq> c" if "c \<in> set s" for c
    using assms that by (auto simp: version_token_def list_all_iff is_alnum_def is_alpha_def is_digit_def js_ws_def code_unit_def)
  moreover from this have "\<not> js_ws c \<and> CHR '' '' \<noteq> c" if "c \<in> set (rev s)" for c using that by simp
  ultimately have "dropWhile js_ws s = s" "dropWhile js_ws (rev s) = rev s"
    "dropWhile ((=) (CHR '' '')) s = s" "dropWhile ((=) (CHR '' '')) (rev s) = rev s"
    by (metis dropWhile_eq_self_iff list.set_sel(1))+
  then show "js_trim s = s" "pg_btrim s = s" by (simp_all add: js_trim_def pg_btrim_def)
qed

lemma no_ws_trim:
  assumes "\<And>c. c \<in> set t \<Longrightarrow> \<not> js_ws c" shows "js_trim t = t"
proof -
  have "dropWhile js_ws t = t" using assms by (cases t) auto
  moreover have "dropWhile js_ws (rev t) = rev t" using assms by (cases "rev t") (auto simp: rev_eq_Cons_iff)
  ultimately show ?thesis by (simp add: js_trim_def)
qed

lemma requested_trim:
  assumes "requestedVersionPattern t" shows "js_trim t = t"
proof (rule no_ws_trim)
  fix c assume c: "c \<in> set t"
  let ?gs = "js_split (CHR ''.'') t"
  have ws: "\<not> js_ws c" if "is_digit c \<or> c = CHR ''.''" for c
    using that by (auto simp: js_ws_def is_digit_def code_unit_def)
  have "set (js_join [CHR ''.''] gs) \<subseteq> insert (CHR ''.'') (\<Union>g\<in>set gs. set g)" for gs
    by (induction "[CHR ''.'']" gs rule: js_join.induct) auto
  from this [of ?gs] have "set t \<subseteq> insert (CHR ''.'') (\<Union>g\<in>set ?gs. set g)" unfolding js_join_split .
  then have "is_digit c \<or> c = CHR ''.''" using c assms
    by (fastforce simp: requestedVersionPattern_def Let_def list_all_iff)
  then show "\<not> js_ws c" by (rule ws)
qed

lemma requested_key:
  assumes "requestedVersionPattern t"
  shows "\<exists>k. frameosVersionKey (Some t) = Some k \<and> length k = 4 \<and> list_all (\<lambda>n. n < MAX_SAFE_INTEGER) k"
proof -
  let ?gs = "js_split (CHR ''.'') t"
  have gs: "g \<noteq> [] \<and> length g \<le> 10 \<and> list_all is_digit g" if "g \<in> set ?gs" for g
    using assms that by (auto simp: requestedVersionPattern_def Let_def list_all_iff)
  note trim = requested_trim [OF assms]
  have np: "numericPrefix t = ?gs" using gs by (intro numericPrefix_split) (auto simp: list_all_iff)
  have "n < MAX_SAFE_INTEGER" if n: "n \<in> set (map version_component (take frameosVersionComponents ?gs))" for n
  proof -
    obtain g where g: "g \<in> set ?gs" "n = version_component g" using n by (auto dest!: in_set_takeD)
    with gs have "digits_value g < 10 ^ length g" by (auto intro: digits_value_bound)
    also have "(10::int) ^ length g \<le> 10 ^ 10" using gs g by (intro power_increasing) auto
    finally show ?thesis using g by (simp add: version_component_def MAX_SAFE_INTEGER_def)
  qed
  then show ?thesis
    by (auto simp: frameosVersionKey_def trim np Let_def list_all_iff frameosVersionComponents_def MAX_SAFE_INTEGER_def)
qed

text \<open>
  C40.  The listing filtered in SQL and the comparison in TypeScript agree: for every minimum version a
  scene can carry and every version the listing can be asked for, the SQL condition holds exactly when
  \<open>frameosVersionSatisfies\<close> does, whatever the size of the version components.
\<close>

theorem version_filter_agrees:
  assumes "normalizeFrameosVersion declared = column" and "normalizeRequestedFrameosVersion requested = Some target"
  shows "frameosVersionSatisfiesSql column target = frameosVersionSatisfies column (Some target)"
proof (cases column)
  case None
  then show ?thesis by (simp add: frameosVersionSatisfiesSql_def frameosVersionSatisfies_def frameosVersionKey_def split: option.split)
next
  case (Some c)
  with assms have tok: "version_token c"
    by (auto simp: normalizeFrameosVersion_def split: option.splits json.splits if_splits)
  from assms have "requestedVersionPattern target"
    by (auto simp: normalizeRequestedFrameosVersion_def Let_def split: option.splits if_splits)
  then obtain k where k: "frameosVersionKey (Some target) = Some k" "length k = 4" "list_all (\<lambda>n. n < MAX_SAFE_INTEGER) k"
    using requested_key by blast
  let ?gs = "numericPrefix c"
  let ?exact = "take 4 (map digits_value ?gs @ [0, 0, 0, 0])"
  show ?thesis
  proof (cases "?gs = []")
    case True
    then show ?thesis using Some k tok
      by (simp add: frameosVersionSatisfiesSql_def frameosVersionSatisfies_def frameosVersionKey_def token_trim numericPrefix_Nil)
  next
    case False
    have zeros: "take n [0, 0, 0, 0] = replicate n (0::int)" if "n \<le> 4" for n
      using that by (auto simp: le_Suc_eq numeral_eq_Suc)
    have vc: "version_component = (\<lambda>p. if digits_value p \<le> MAX_SAFE_INTEGER then digits_value p else MAX_SAFE_INTEGER)"
      by (simp add: fun_eq_iff version_component_def Let_def)
    have m0: "0 \<le> MAX_SAFE_INTEGER" by (simp add: MAX_SAFE_INTEGER_def)
    have key: "frameosVersionKey (Some c) = Some (map (\<lambda>n. if n \<le> MAX_SAFE_INTEGER then n else MAX_SAFE_INTEGER) ?exact)"
      using False tok zeros [of "4 - length ?gs"]
      by (auto simp: frameosVersionKey_def token_trim Let_def vc frameosVersionComponents_def take_map min_def m0)
    have "frameosVersionSatisfies column (Some target) \<longleftrightarrow> frameosVersionKey (Some c) \<le> Some k"
      using Some k key by (auto simp: frameosVersionSatisfies_def compare_rank)
    also have "\<dots> \<longleftrightarrow> ?exact \<le> k"
    proof -
      have "length ?exact = length k" using k by simp
      from clamped_order [OF this k(3)] show ?thesis unfolding key less_eq_option_Some .
    qed
    finally show ?thesis using Some k tok False
      by (simp add: frameosVersionSatisfiesSql_def token_trim numericPrefix_Nil frameosVersionComponents_def)
  qed
qed

theorem version_filter_agrees_witness:
  "frameosVersionSatisfiesSql (Some ''2026.10.0-rc1'') ''2026.9.0''
     = frameosVersionSatisfies (Some ''2026.10.0-rc1'') (Some ''2026.9.0'')
   \<and> \<not> frameosVersionSatisfies (Some ''2026.10.0-rc1'') (Some ''2026.9.0'')"
proof -
  have "normalizeFrameosVersion (Some (JStr '' 2026.10.0-rc1'')) = Some ''2026.10.0-rc1''" by code_simp
  moreover have "normalizeRequestedFrameosVersion (Some ''2026.9.0 '') = Some ''2026.9.0''" by code_simp
  moreover have "\<not> frameosVersionSatisfies (Some ''2026.10.0-rc1'') (Some ''2026.9.0'')" by code_simp
  ultimately show ?thesis using version_filter_agrees by blast
qed

end
