(* ===== verification/StoreFilters.thy ===== *)
theory StoreFilters imports StoreVersions begin

text \<open>
  What the store can be filtered by: the category taxonomy (\<open>categories.ts\<close>), the browse filters with
  their canonical URLs (\<open>store-filters.ts\<close>), and the tags of a scene (\<open>normalizeTags\<close> and
  \<open>sanitizeTagCandidates\<close> of \<open>store.ts\<close>).
\<close>

section \<open>Categories\<close>

text \<open>Slug and title; the shelf copy and the hints for the classifier are plain text.\<close>

definition storeCategories :: "(string \<times> string) list" where
  "storeCategories =
     [(''photos'', ''Photos''), (''art'', ''Art & galleries''), (''calendar'', ''Calendars & agendas''),
      (''weather'', ''Weather''), (''ai'', ''AI & generative''), (''dashboards'', ''Data & dashboards''),
      (''fun'', ''Fun & comics''), (''utilities'', ''Tools & utilities''), (''demos'', ''Demos & examples'')]"

definition getStoreCategory :: "string option \<Rightarrow> (string \<times> string) option" where
  "getStoreCategory slug =
     (case slug of None \<Rightarrow> None
      | Some s \<Rightarrow> if s = [] then None else map_option (Pair s) (map_of storeCategories s))"

text \<open>\<open>None\<close> is the invalid input, \<open>Some None\<close> clears the category.\<close>

definition normalizeCategory :: "json \<Rightarrow> string option option" where
  "normalizeCategory v =
     (case v of
        JNull \<Rightarrow> Some None
      | JStr s \<Rightarrow>
          (let slug = js_lower (js_trim s)
           in if slug = [] then Some None
              else if map_of storeCategories slug \<noteq> None then Some (Some slug) else None)
      | _ \<Rightarrow> None)"

section \<open>Browse filters\<close>

definition storePageSize :: nat where "storePageSize = 48"
definition maxStorePage :: int where "maxStorePage = 200"

record browse_filters =
  bf_category :: string
  bf_query :: string
  bf_tag :: string
  bf_version :: string

record browse_params =
  bp_category :: "string option"
  bp_q :: "string option"
  bp_tag :: "string option"
  bp_version :: "string option"

definition or_empty :: "string option \<Rightarrow> string" where
  "or_empty v = (case v of None \<Rightarrow> [] | Some s \<Rightarrow> s)"

definition parseStoreBrowseFilters :: "browse_params \<Rightarrow> browse_filters" where
  "parseStoreBrowseFilters params =
     \<lparr>bf_category = or_empty (map_option fst (getStoreCategory (map_option (\<lambda>s. js_lower (js_trim s)) (bp_category params)))),
      bf_query = or_empty (map_option (\<lambda>s. take 100 (js_trim s)) (bp_q params)),
      bf_tag = or_empty (map_option (\<lambda>s. take 24 (js_lower (js_trim s))) (bp_tag params)),
      bf_version = or_empty (normalizeRequestedFrameosVersion (bp_version params))\<rparr>"

definition parseStorePage :: "string option \<Rightarrow> int" where
  "parseStorePage value =
     (let parsed = parse_int (case value of None \<Rightarrow> ''1'' | Some s \<Rightarrow> s);
          page = max 1 (case parsed of None \<Rightarrow> 1 | Some n \<Rightarrow> if n = 0 then 1 else n)
      in min page maxStorePage)"

definition storeBrowseSearchParams :: "browse_filters \<Rightarrow> int \<Rightarrow> (string \<times> string) list" where
  "storeBrowseSearchParams filters page =
     (if bf_query filters \<noteq> [] then [(''q'', bf_query filters)] else [])
     @ (if bf_tag filters \<noteq> [] then [(''tag'', bf_tag filters)] else [])
     @ (if bf_category filters \<noteq> [] then [(''category'', bf_category filters)] else [])
     @ (if bf_version filters \<noteq> [] then [(''version'', bf_version filters)] else [])
     @ (if page > 1 then [(''page'', int_text page)] else [])"

text \<open>\<open>URLSearchParams.toString\<close>: the \<open>application/x-www-form-urlencoded\<close> serializer.\<close>

definition percent_byte :: "int \<Rightarrow> string" where
  "percent_byte n = [CHR ''%'', ascii_upper_char (hex_digit (n div 16)), ascii_upper_char (hex_digit (n mod 16))]"

definition form_char :: "char \<Rightarrow> string" where
  "form_char c =
     (let u = code_unit c
      in if c = CHR '' '' then ''+''
         else if is_alnum c \<or> c \<in> {CHR ''*'', CHR ''-'', CHR ''.'', CHR ''_''} then [c]
         else if u < 128 then percent_byte u
         else percent_byte (192 + u div 64) @ percent_byte (128 + u mod 64))"

definition query_text :: "(string \<times> string) list \<Rightarrow> string" where
  "query_text kvs =
     js_join ''&'' (map (\<lambda>(k, v). concat (map form_char k) @ ''='' @ concat (map form_char v)) kvs)"

definition storeBrowseHref :: "browse_filters \<Rightarrow> int \<Rightarrow> string" where
  "storeBrowseHref filters page =
     (let suffix = query_text (storeBrowseSearchParams filters page)
      in if suffix \<noteq> [] then ''/?'' @ suffix else ''/'')"

text \<open>The change is a \<open>Partial\<close>: a field that is present replaces the filter.\<close>

definition storeFilterHref :: "browse_filters \<Rightarrow> (string \<times> string) list \<Rightarrow> string" where
  "storeFilterHref filters change =
     (let keep = (\<lambda>k old. case map_of change k of None \<Rightarrow> old | Some v \<Rightarrow> v)
      in storeBrowseHref
           \<lparr>bf_category = keep ''category'' (bf_category filters), bf_query = keep ''query'' (bf_query filters),
            bf_tag = keep ''tag'' (bf_tag filters), bf_version = keep ''version'' (bf_version filters)\<rparr> 1)"

definition storeHasFilters :: "browse_filters \<Rightarrow> bool" where
  "storeHasFilters filters \<longleftrightarrow>
     bf_category filters \<noteq> [] \<or> bf_query filters \<noteq> [] \<or> bf_tag filters \<noteq> [] \<or> bf_version filters \<noteq> []"

text \<open>What the browse route reads off the query of its URL.\<close>

definition browse_params_of :: "(string \<times> string) list \<Rightarrow> browse_params" where
  "browse_params_of query =
     \<lparr>bp_category = map_of query ''category'', bp_q = map_of query ''q'', bp_tag = map_of query ''tag'',
      bp_version = map_of query ''version''\<rparr>"

section \<open>Tags\<close>

definition maxTagsPerScene :: nat where "maxTagsPerScene = 5"

definition slug_char :: "char \<Rightarrow> bool" where
  "slug_char c \<longleftrightarrow> is_digit c \<or> (97 \<le> code_unit c \<and> code_unit c \<le> 122)"

definition tagPattern :: "string \<Rightarrow> bool" where
  "tagPattern s \<longleftrightarrow> 1 \<le> length s \<and> length s \<le> 24 \<and> slug_char (hd s) \<and> list_all (\<lambda>c. slug_char c \<or> c = CHR ''-'') s"

fun collect_tags :: "string list \<Rightarrow> json list \<Rightarrow> string list option" where
  "collect_tags tags [] = Some tags"
| "collect_tags tags (raw # rest) =
     (case raw of
        JStr s \<Rightarrow>
          (let tag = js_lower (js_trim s)
           in if \<not> tagPattern tag then None
              else collect_tags (if tag \<in> set tags then tags else tags @ [tag]) rest)
      | _ \<Rightarrow> None)"

definition normalizeTags :: "json option \<Rightarrow> string list option" where
  "normalizeTags v =
     (case v of
        Some (JArr vs) \<Rightarrow> if length vs > maxTagsPerScene then None else collect_tags [] vs
      | _ \<Rightarrow> None)"

text \<open>The replacements of the sanitizer: runs of other characters to one dash, runs of dashes to one.\<close>

fun dash_runs :: "(char \<Rightarrow> bool) \<Rightarrow> bool \<Rightarrow> string \<Rightarrow> string" where
  "dash_runs ok in_run [] = []"
| "dash_runs ok in_run (c # cs) =
     (if ok c then c # dash_runs ok False cs
      else if in_run then dash_runs ok True cs else CHR ''-'' # dash_runs ok True cs)"

definition strip_dashes :: "string \<Rightarrow> string" where
  "strip_dashes s = rev (dropWhile ((=) (CHR ''-'')) (rev (dropWhile ((=) (CHR ''-'')) s)))"

definition tag_candidate :: "string \<Rightarrow> string" where
  "tag_candidate raw =
     take 24 (strip_dashes (dash_runs (\<lambda>c. c \<noteq> CHR ''-'') False
       (dash_runs (\<lambda>c. slug_char c \<or> c = CHR ''-'') False (js_lower (js_trim raw)))))"

fun sanitize_tags :: "string list \<Rightarrow> json list \<Rightarrow> string list" where
  "sanitize_tags tags [] = tags"
| "sanitize_tags tags (raw # rest) =
     (case raw of
        JStr s \<Rightarrow>
          (let tag = tag_candidate s;
               tags' = (if tagPattern tag \<and> tag \<notin> set tags then tags @ [tag] else tags)
           in if length tags' \<ge> maxTagsPerScene then tags' else sanitize_tags tags' rest)
      | _ \<Rightarrow> sanitize_tags tags rest)"

definition sanitizeTagCandidates :: "json option \<Rightarrow> string list" where
  "sanitizeTagCandidates v = (case v of Some (JArr vs) \<Rightarrow> sanitize_tags [] vs | _ \<Rightarrow> [])"

section \<open>Tag lists\<close>

definition tags_ok :: "string list \<Rightarrow> bool" where
  "tags_ok tags \<longleftrightarrow> length tags \<le> maxTagsPerScene \<and> distinct tags \<and> list_all tagPattern tags"

lemma lower_char_fixed: "slug_char c \<or> c = CHR ''-'' \<Longrightarrow> js_lower_char c = c"
  by (auto simp: js_lower_char_def slug_char_def is_digit_def code_unit_def Let_def)

lemma tag_fixed: assumes "tagPattern t" shows "js_lower (js_trim t) = t"
proof -
  have "js_trim t = t" using assms
    by (intro no_ws_trim) (auto simp: tagPattern_def list_all_iff js_ws_def slug_char_def is_digit_def code_unit_def)
  moreover have "map js_lower_char t = t" using assms
    by (intro map_idI) (auto simp: tagPattern_def list_all_iff lower_char_fixed)
  ultimately show ?thesis by (simp add: js_lower_def)
qed

lemma collect_tags_ok:
  "collect_tags tags vs = Some ts \<Longrightarrow> distinct tags \<Longrightarrow> list_all tagPattern tags \<Longrightarrow>
   distinct ts \<and> list_all tagPattern ts \<and> length ts \<le> length tags + length vs"
proof (induction tags vs rule: collect_tags.induct)
  case (2 tags raw rest)
  then show ?case by (fastforce simp: Let_def split: json.splits if_splits)
qed simp

lemma collect_tags_same:
  "distinct (tags @ ts) \<Longrightarrow> list_all tagPattern ts \<Longrightarrow> collect_tags tags (map JStr ts) = Some (tags @ ts)"
  by (induction ts arbitrary: tags) (auto simp: Let_def tag_fixed)

lemma normalizeTags_ok: "normalizeTags v = Some ts \<Longrightarrow> tags_ok ts"
  by (auto simp: normalizeTags_def tags_ok_def dest!: collect_tags_ok split: option.splits json.splits if_splits)

lemma normalizeTags_same: "tags_ok ts \<Longrightarrow> normalizeTags (Some (JArr (map JStr ts))) = Some ts"
  by (simp add: normalizeTags_def tags_ok_def collect_tags_same)

lemma sanitize_tags_ok:
  "tags_ok tags \<Longrightarrow> length tags < maxTagsPerScene \<Longrightarrow> tags_ok (sanitize_tags tags vs)"
proof (induction tags vs rule: sanitize_tags.induct)
  case (2 tags raw rest)
  then show ?case by (auto simp: Let_def tags_ok_def split: json.split)
qed simp

lemma sanitize_ok: "tags_ok (sanitizeTagCandidates v)"
  by (auto simp: sanitizeTagCandidates_def tags_ok_def [of "[]"] maxTagsPerScene_def
      intro!: sanitize_tags_ok split: option.split json.split)

text \<open>
  Tag lists are well typed: what the store accepts, and what it keeps of the classifier's
  suggestions, is at most five different lower-case slugs; an accepted list, sent again, is accepted
  unchanged.
\<close>

lemma tag_lists_typed:
  "tags_ok (sanitizeTagCandidates v)
   \<and> (case normalizeTags v of
        None \<Rightarrow> True
      | Some ts \<Rightarrow> tags_ok ts \<and> normalizeTags (Some (JArr (map JStr ts))) = Some ts)"
  by (auto simp: sanitize_ok normalizeTags_ok normalizeTags_same split: option.split)

section \<open>Canonical URLs\<close>

lemma categories_fixed: "map_of storeCategories s = Some t \<Longrightarrow> js_lower (js_trim s) = s \<and> s \<noteq> []"
proof -
  assume "map_of storeCategories s = Some t"
  then have "s \<in> set (map fst storeCategories)" by (force dest: map_of_SomeD)
  moreover have "list_all (\<lambda>s. js_lower (js_trim s) = s \<and> s \<noteq> []) (map fst storeCategories)" by code_simp
  ultimately show ?thesis by (auto simp: list_all_iff)
qed

lemma page_text: assumes "1 < n" shows "parse_int (int_text n) = Some n"
proof -
  have d: "digits_int (dec_text n) = n" "list_all is_digit (dec_text n)" "dec_text n \<noteq> []"
    using digits_of_dec [of n] assms by auto
  have no_ws: "\<not> js_ws c" if "is_digit c" for c using that by (auto simp: js_ws_def is_digit_def code_unit_def)
  have sign: "\<not> is_digit (CHR ''-'')" "\<not> is_digit (CHR ''+'')" by code_simp+
  obtain c cs where c: "dec_text n = c # cs" using d by (cases "dec_text n") auto
  have "dropWhile js_ws (dec_text n) = dec_text n" "c \<noteq> CHR ''-''" "c \<noteq> CHR ''+''"
    using c d no_ws sign by auto
  moreover have tw: "takeWhile is_digit cs = cs" using d c by (simp add: list_all_iff takeWhile_eq_all_conv)
  ultimately show ?thesis using assms d(1) c d(2)
    by (simp add: parse_int_def int_text_def Let_def digits_value_def digits_int_def tw)
qed

lemma page_roundtrip:
  assumes "1 \<le> page" and "page \<le> maxStorePage"
  shows "parseStorePage (map_of (storeBrowseSearchParams f page) ''page'') = page"
proof (cases "page = 1")
  case True
  have "parse_int ''1'' = Some 1" by code_simp
  with True show ?thesis by (simp add: storeBrowseSearchParams_def parseStorePage_def maxStorePage_def)
next
  case False
  with assms show ?thesis
    by (simp add: storeBrowseSearchParams_def parseStorePage_def page_text)
qed

lemma lower_trim_take: "js_lower (js_trim (take n (js_lower s))) = js_trim (take n (js_lower s))"
proof -
  have fixed: "js_lower_char (js_lower_char c) = js_lower_char c" for c
    by (auto simp: js_lower_char_def code_unit_def Let_def)
  have "set (js_trim (take n (js_lower s))) \<subseteq> js_lower_char ` set s"
    using set_js_trim [of "take n (js_lower s)"] set_take_subset [of n "js_lower s"] by (auto simp: js_lower_def)
  then show ?thesis unfolding js_lower_def by (intro map_idI) (auto simp: fixed)
qed

lemma js_trim_idem [simp]: "js_trim (js_trim s) = js_trim s"
proof -
  let ?d = "dropWhile js_ws"
  have *: "?d (rev (?d (rev t))) = rev (?d (rev t))" if "?d t = t" for t
  proof (cases "rev (?d (rev t))")
    case (Cons c cs)
    then obtain zs where "t = rev (?d (rev t)) @ zs"
      by (metis rev_append rev_rev_ident takeWhile_dropWhile_id)
    with Cons that have "\<not> js_ws c" by (metis append_Cons dropWhile_eq_self_iff list.sel(1) list.simps(3))
    with Cons show ?thesis by simp
  next
    case Nil
    show ?thesis unfolding Nil by simp
  qed
  have "?d (?d s) = ?d s" by (induction s) auto
  from * [OF this] show ?thesis by (simp add: js_trim_def)
qed

lemma reparse_category:
  "f = parseStoreBrowseFilters p \<Longrightarrow>
   or_empty (map_option fst (getStoreCategory (map_option (\<lambda>s. js_lower (js_trim s))
     (if bf_category f = [] then None else Some (bf_category f))))) = bf_category f"
proof -
  assume f: "f = parseStoreBrowseFilters p"
  show ?thesis
  proof (cases "bf_category f = []")
    case True
    then show ?thesis by (simp add: getStoreCategory_def or_empty_def)
  next
    case False
    with f obtain t where t: "map_of storeCategories (bf_category f) = Some t"
      by (auto simp: parseStoreBrowseFilters_def getStoreCategory_def or_empty_def split: option.splits if_splits)
    with categories_fixed [OF t] show ?thesis by (simp add: getStoreCategory_def or_empty_def)
  qed
qed

lemma reparse_version:
  "f = parseStoreBrowseFilters p \<Longrightarrow>
   or_empty (normalizeRequestedFrameosVersion (if bf_version f = [] then None else Some (bf_version f))) = bf_version f"
proof -
  assume f: "f = parseStoreBrowseFilters p"
  have "requestedVersionPattern (bf_version f)" if "bf_version f \<noteq> []"
    using f that by (auto simp: parseStoreBrowseFilters_def normalizeRequestedFrameosVersion_def or_empty_def Let_def
        split: option.splits if_splits)
  then show ?thesis
    by (auto simp: normalizeRequestedFrameosVersion_def or_empty_def requested_trim)
qed

lemma params_of_search:
  "browse_params_of (storeBrowseSearchParams f page) =
     \<lparr>bp_category = (if bf_category f = [] then None else Some (bf_category f)),
      bp_q = (if bf_query f = [] then None else Some (bf_query f)),
      bp_tag = (if bf_tag f = [] then None else Some (bf_tag f)),
      bp_version = (if bf_version f = [] then None else Some (bf_version f))\<rparr>"
  by (simp add: browse_params_of_def storeBrowseSearchParams_def)

lemma take_trim: "length s \<le> n \<Longrightarrow> take n (js_trim s) = js_trim s"
  using length_js_trim [of s] by simp

text \<open>
  Canonical store URLs round-trip: the query parameters written for filters that were read from a
  request read back as the same category and version, and as the same text and tag up to the white
  space that cutting them to length can leave at their end; the page reads back exactly; the bare URL
  is written exactly when nothing filters.
\<close>

lemma store_url_roundtrip:
  assumes "f = parseStoreBrowseFilters p" and "1 \<le> page" and "page \<le> maxStorePage"
  shows "parseStoreBrowseFilters (browse_params_of (storeBrowseSearchParams f page))
           = f\<lparr>bf_query := js_trim (bf_query f), bf_tag := js_trim (bf_tag f)\<rparr>
         \<and> parseStorePage (map_of (storeBrowseSearchParams f page) ''page'') = page
         \<and> (storeBrowseHref f 1 = ''/'') = (\<not> storeHasFilters f)"
proof -
  have tag: "\<exists>t. bf_tag f = take 24 (js_lower t)"
  proof (cases "bp_tag p")
    case None
    with assms(1) show ?thesis by (intro exI [of _ "[]"]) (simp add: parseStoreBrowseFilters_def or_empty_def js_lower_def)
  next
    case (Some s)
    with assms(1) show ?thesis by (intro exI [of _ "js_trim s"]) (simp add: parseStoreBrowseFilters_def or_empty_def)
  qed
  then have tag': "js_lower (js_trim (bf_tag f)) = js_trim (bf_tag f)" "length (bf_tag f) \<le> 24"
    using lower_trim_take by auto
  have q: "length (bf_query f) \<le> 100"
    using assms(1) by (auto simp: parseStoreBrowseFilters_def or_empty_def split: option.split)
  have "parseStoreBrowseFilters (browse_params_of (storeBrowseSearchParams f page))
      = f\<lparr>bf_query := js_trim (bf_query f), bf_tag := js_trim (bf_tag f)\<rparr>"
    unfolding parseStoreBrowseFilters_def params_of_search browse_params.simps
      reparse_category [OF assms(1)] reparse_version [OF assms(1)]
    using q tag' by (cases f) (auto simp: or_empty_def take_trim)
  moreover have "(storeBrowseHref f 1 = ''/'') = (\<not> storeHasFilters f)"
  proof -
    have "query_text (storeBrowseSearchParams f 1) = [] \<longleftrightarrow> storeBrowseSearchParams f 1 = []"
      by (cases "storeBrowseSearchParams f 1") (auto simp: query_text_def js_join_Cons split: prod.splits)
    moreover have "storeBrowseSearchParams f 1 = [] \<longleftrightarrow> \<not> storeHasFilters f"
      by (auto simp: storeBrowseSearchParams_def storeHasFilters_def)
    ultimately show ?thesis by (auto simp: storeBrowseHref_def Let_def)
  qed
  ultimately show ?thesis using page_roundtrip [OF assms(2,3)] by simp
qed

end
