(* ===== verification/StoreZip.thy ===== *)
theory StoreZip imports StoreFilters begin

text \<open>
  The template interchange zip of a published scene (\<open>store.ts\<close>, \<open>scene-title.ts\<close>): its structural
  validation, the risk flags and app keywords read from its scenes, the rebuilding of a zip with other
  scenes, another minimum version or another preview, and the names derived from it.
\<close>

section \<open>Limits\<close>

definition maxSceneZipBytes :: nat where "maxSceneZipBytes = 8 * 1024 * 1024"
definition maxPreviewImageBytes :: nat where "maxPreviewImageBytes = 4 * 1024 * 1024"
definition maxSceneNameLength :: nat where "maxSceneNameLength = 128"

section \<open>Risk flags and keywords\<close>

definition array_of :: "json option \<Rightarrow> json list option" where
  "array_of v = (case v of Some (JArr vs) \<Rightarrow> Some vs | _ \<Rightarrow> None)"

text \<open>The string \<open>data.keyword\<close> of each node of a scene.\<close>

definition node_keywords :: "json \<Rightarrow> string list" where
  "node_keywords scene =
     (case array_of (map_of (obj_fields (Some scene)) ''nodes'') of
        None \<Rightarrow> []
      | Some nodes \<Rightarrow>
          List.map_filter (\<lambda>node. str_of (map_of (obj_fields (map_of (obj_fields (Some node)) ''data'')) ''keyword'')) nodes)"

fun has_substring :: "string \<Rightarrow> string \<Rightarrow> bool" where
  "has_substring w [] \<longleftrightarrow> w = []"
| "has_substring w (c # cs) \<longleftrightarrow> js_starts_with w (c # cs) \<or> has_substring w cs"

definition shellAppKeywordPattern :: "string \<Rightarrow> bool" where
  "shellAppKeywordPattern s \<longleftrightarrow>
     list_ex (\<lambda>w. has_substring w (js_lower s))
       [''shell'', ''exec'', ''terminal'', ''command'', ''chromiumscreenshot'', ''rstpsnapshot'']"

definition word_char :: "char \<Rightarrow> bool" where
  "word_char c \<longleftrightarrow> is_alnum c \<or> c = CHR ''_''"

definition shell_words :: "string list" where
  "shell_words =
     [''execShellCmd'', ''execCmdEx'', ''execCmd'', ''execProcess'', ''startProcess'', ''runShellWithParentStreams'',
      ''runShellCapture'', ''osproc'', ''quoteShell'', ''child_process'']"

text \<open>One of the words as a whole word; the flag tells that a word character precedes.\<close>

fun shell_code_from :: "bool \<Rightarrow> string \<Rightarrow> bool" where
  "shell_code_from after_word [] \<longleftrightarrow> False"
| "shell_code_from after_word (c # cs) \<longleftrightarrow>
     (\<not> after_word \<and> list_ex (\<lambda>w. js_starts_with w (c # cs)
        \<and> (case drop (length w) (c # cs) of [] \<Rightarrow> True | d # _ \<Rightarrow> \<not> word_char d)) shell_words)
     \<or> shell_code_from (word_char c) cs"

definition shellCodePattern :: "string \<Rightarrow> bool" where
  "shellCodePattern s = shell_code_from False s"

definition scene_is_risky :: "json \<Rightarrow> bool" where
  "scene_is_risky scene \<longleftrightarrow> list_ex shellAppKeywordPattern (node_keywords scene) \<or> shellCodePattern (json_text scene)"

definition detectRiskFlags :: "json option \<Rightarrow> string list" where
  "detectRiskFlags scenes =
     (case array_of scenes of None \<Rightarrow> [] | Some vs \<Rightarrow> if list_ex scene_is_risky vs then [riskFlagShell] else [])"

definition extractAppKeywords :: "json option \<Rightarrow> string list" where
  "extractAppKeywords scenes =
     (case array_of scenes of None \<Rightarrow> []
      | Some vs \<Rightarrow>
          take 40 (sort (js_set (map (\<lambda>k. take 64 (js_trim k))
            (filter (\<lambda>k. js_trim k \<noteq> []) (concat (map node_keywords vs)))))))"

section \<open>Images and names\<close>

definition detectImageContentType :: "bytes \<Rightarrow> string option" where
  "detectImageContentType content =
     (if length content < 12 then None
      else if take 3 content = [CHR 0xFF, CHR 0xD8, CHR 0xFF] then Some ''image/jpeg''
      else if take 8 content = [CHR 0x89, CHR ''P'', CHR ''N'', CHR ''G'', CHR 0x0D, CHR 0x0A, CHR 0x1A, CHR 0x0A]
        then Some ''image/png''
      else if take 4 content = ''RIFF'' \<and> take 4 (drop 8 content) = ''WEBP'' then Some ''image/webp''
      else if take 6 content = ''GIF87a'' \<or> take 6 content = ''GIF89a'' then Some ''image/gif''
      else None)"

definition strip_trailing_dashes :: "string \<Rightarrow> string" where
  "strip_trailing_dashes s = rev (dropWhile ((=) (CHR ''-'')) (rev s))"

definition slugifyName :: "ext \<Rightarrow> string \<Rightarrow> string" where
  "slugifyName x name =
     (let slug = strip_trailing_dashes (take 64 (strip_dashes (dash_runs slug_char False (ascii_fold x (js_lower name)))))
      in if slug = [] then ''scene'' else slug)"

section \<open>Texts and files\<close>

definition utf8_encode :: "string \<Rightarrow> bytes" where
  "utf8_encode s = concat (map (\<lambda>c. let u = code_unit c in if u < 128 then [c] else [char_of (192 + u div 64), char_of (128 + u mod 64)]) s)"

text \<open>\<open>JSON.stringify(value, null, 2)\<close>, at a level of indentation.\<close>

definition new_line :: "nat \<Rightarrow> string" where
  "new_line level = CHR 0x0A # replicate (2 * level) (CHR '' '')"

fun json_pretty :: "nat \<Rightarrow> json \<Rightarrow> string" where
  "json_pretty level (JArr vs) =
     (if vs = [] then ''[]''
      else ''['' @ js_join '','' (map (\<lambda>v. new_line (Suc level) @ json_pretty (Suc level) v) vs) @ new_line level @ '']'')"
| "json_pretty level (JObj kvs) =
     (if kvs = [] then ''{}''
      else ''{'' @ js_join '','' (map (\<lambda>(k, v). new_line (Suc level) @ quote_text k @ '': '' @ json_pretty (Suc level) v) kvs)
           @ new_line level @ ''}'')"
| "json_pretty level v = json_text v"

definition parseJson :: "bytes \<Rightarrow> json option" where
  "parseJson data = json_parse (utf8_decode data)"

text \<open>\<open>unzipSync\<close> with a filter that only selects.\<close>

definition unzip_files :: "ext \<Rightarrow> (string \<Rightarrow> bool) \<Rightarrow> bytes \<Rightarrow> (string \<times> bytes) list option" where
  "unzip_files x keep content = (case unzip_entries x content of None \<Rightarrow> None | Some es \<Rightarrow> inflated keep [] es)"

definition template_file :: "string \<Rightarrow> bool" where
  "template_file path \<longleftrightarrow> named_file ''template.json'' path \<or> named_file ''scenes.json'' path \<or> named_file ''image.jpg'' path"

definition path_depth :: "string \<Rightarrow> int" where
  "path_depth path = int (length (js_split (CHR ''/'') path)) - 1"

definition by_depth :: "ext \<Rightarrow> string \<Rightarrow> string \<Rightarrow> int" where
  "by_depth x a b = (let diff = path_depth a - path_depth b in if diff \<noteq> 0 then diff else locale_compare x a b)"

definition manifest_path :: "ext \<Rightarrow> (string \<times> bytes) list \<Rightarrow> string option" where
  "manifest_path x files =
     (case js_sort (by_depth x) (filter (named_file ''template.json'') (map fst files)) of [] \<Rightarrow> None | p # _ \<Rightarrow> Some p)"

definition folder_of :: "string \<Rightarrow> string" where
  "folder_of manifestPath = take (length manifestPath - length ''template.json'') manifestPath"

section \<open>Validation\<close>

record validated_zip =
  vz_appKeywords :: "string list"
  vz_frameosVersion :: "string option"
  vz_imageHeight :: "int option"
  vz_imageWidth :: "int option"
  vz_manifestDescription :: "string option"
  vz_manifestName :: "string option"
  vz_previewImage :: "bytes option"
  vz_riskFlags :: "string list"
  vz_sceneCount :: nat

definition dimension :: "json option \<Rightarrow> int option" where
  "dimension v = (case v of Some (JNum q) \<Rightarrow> if q > 0 then Some \<lfloor>q + 1 / 2\<rfloor> else None | _ \<Rightarrow> None)"

definition trimmed_text :: "nat \<Rightarrow> json option \<Rightarrow> string option" where
  "trimmed_text n v =
     (case v of Some (JStr s) \<Rightarrow> if js_trim s = [] then None else Some (take n (js_trim s)) | _ \<Rightarrow> None)"

definition validateSceneZip :: "ext \<Rightarrow> bytes \<Rightarrow> string + validated_zip" where
  "validateSceneZip x content =
     (if length content > maxSceneZipBytes then Inl ''zip_too_large''
      else
        (case unzipSync x template_file content of
           None \<Rightarrow> Inl ''invalid_zip''
         | Some files \<Rightarrow>
             (case manifest_path x files of
                None \<Rightarrow> Inl ''missing_template_json''
              | Some manifestPath \<Rightarrow>
                  if path_depth manifestPath > 1 then Inl ''missing_template_json''
                  else
                    (let folder = folder_of manifestPath
                     in case Option.bind (map_of files manifestPath) parseJson of
                          Some (JObj manifest) \<Rightarrow>
                            (case array_of (Option.bind (map_of files (folder @ ''scenes.json'')) parseJson) of
                               None \<Rightarrow> Inl ''missing_scenes''
                             | Some scenes \<Rightarrow>
                                 if scenes = [] then Inl ''missing_scenes''
                                 else
                                   (let imageRaw = map_of files (folder @ ''image.jpg'')
                                    in if (case imageRaw of None \<Rightarrow> False | Some b \<Rightarrow> length b > maxPreviewImageBytes)
                                       then Inl ''preview_image_too_large''
                                       else Inr \<lparr>vz_appKeywords = extractAppKeywords (Some (JArr scenes)),
                                              vz_frameosVersion = normalizeFrameosVersion (map_of manifest ''frameosVersion''),
                                              vz_imageHeight = dimension (map_of manifest ''imageHeight''),
                                              vz_imageWidth = dimension (map_of manifest ''imageWidth''),
                                              vz_manifestDescription = trimmed_text 2000 (map_of manifest ''description''),
                                              vz_manifestName = trimmed_text 128 (map_of manifest ''name''),
                                              vz_previewImage = imageRaw,
                                              vz_riskFlags = detectRiskFlags (Some (JArr scenes)),
                                              vz_sceneCount = length scenes\<rparr>))
                        | _ \<Rightarrow> Inl ''invalid_template_json''))))"

section \<open>Rebuilding a zip\<close>

text \<open>
  The three rebuilders open the zip alike: the files by name and the path and bytes of the manifest.
\<close>

definition open_template :: "ext \<Rightarrow> bytes \<Rightarrow> ((string \<times> bytes) list \<times> string \<times> bytes) option" where
  "open_template x zipBytes =
     (case unzip_files x template_file zipBytes of
        None \<Rightarrow> None
      | Some files \<Rightarrow>
          (case manifest_path x files of
             None \<Rightarrow> None
           | Some manifestPath \<Rightarrow> map_option (\<lambda>manifest. (files, manifestPath, manifest)) (map_of files manifestPath)))"

definition file_entry :: "string \<Rightarrow> bytes option \<Rightarrow> (string \<times> bytes) list" where
  "file_entry path data = (case data of None \<Rightarrow> [] | Some b \<Rightarrow> [(path, b)])"

definition rebuildZipWithScenes :: "ext \<Rightarrow> bytes \<Rightarrow> string \<Rightarrow> string option \<Rightarrow> bytes option" where
  "rebuildZipWithScenes x zipBytes scenesJson renameTo =
     (case open_template x zipBytes of
        None \<Rightarrow> None
      | Some (files, manifestPath, manifest) \<Rightarrow>
          (let folder = folder_of manifestPath;
               build = (\<lambda>manifest. zip_sync x ([(manifestPath, manifest), (folder @ ''scenes.json'', utf8_encode scenesJson)]
                          @ file_entry (folder @ ''image.jpg'') (map_of files (folder @ ''image.jpg''))))
           in case renameTo of
                None \<Rightarrow> build manifest
              | Some name \<Rightarrow>
                  if name = [] then build manifest
                  else (case parseJson manifest of
                          Some (JObj parsed) \<Rightarrow> build (utf8_encode (json_pretty 0 (JObj (obj_spread parsed [(''name'', JStr name)]))))
                        | _ \<Rightarrow> None)))"

text \<open>The manifest with some keys changed, the scenes byte for byte, and the given preview.\<close>

definition rebuild_with :: "ext \<Rightarrow> (fields \<Rightarrow> fields) \<Rightarrow> (bytes option \<Rightarrow> bytes option) \<Rightarrow> bytes \<Rightarrow> bytes option" where
  "rebuild_with x edit preview zipBytes =
     (case open_template x zipBytes of
        None \<Rightarrow> None
      | Some (files, manifestPath, manifest) \<Rightarrow>
          (case parseJson manifest of
             Some (JObj parsed) \<Rightarrow>
               (let folder = folder_of manifestPath
                in case map_of files (folder @ ''scenes.json'') of
                     None \<Rightarrow> None
                   | Some scenes \<Rightarrow>
                       zip_sync x ([(manifestPath, utf8_encode (json_pretty 0 (JObj (edit parsed)))), (folder @ ''scenes.json'', scenes)]
                         @ file_entry (folder @ ''image.jpg'') (preview (map_of files (folder @ ''image.jpg'')))))
           | _ \<Rightarrow> None))"

definition delete_key :: "string \<Rightarrow> fields \<Rightarrow> fields" where
  "delete_key k kvs = filter (\<lambda>(k', v). k' \<noteq> k) kvs"

definition rebuildZipWithFrameosVersion :: "ext \<Rightarrow> bytes \<Rightarrow> string option \<Rightarrow> bytes option" where
  "rebuildZipWithFrameosVersion x zipBytes frameosVersion =
     rebuild_with x
       (\<lambda>manifest. case frameosVersion of
           None \<Rightarrow> delete_key ''frameosVersion'' manifest
         | Some v \<Rightarrow> if v = [] then delete_key ''frameosVersion'' manifest
                     else obj_spread manifest [(''frameosVersion'', JStr v)])
       (\<lambda>image. image) zipBytes"

definition rebuildZipWithPreview :: "ext \<Rightarrow> bytes \<Rightarrow> bytes option \<Rightarrow> bytes option" where
  "rebuildZipWithPreview x zipBytes previewImage =
     rebuild_with x
       (\<lambda>manifest.
          let m = delete_key ''imageWidth'' (delete_key ''imageHeight'' manifest)
          in if previewImage \<noteq> None then obj_spread m [(''image'', JStr ''./image.jpg'')] else delete_key ''image'' m)
       (\<lambda>image. previewImage) zipBytes"

section \<open>Titles\<close>

definition extractScenesFromZip :: "ext \<Rightarrow> bytes \<Rightarrow> json list option" where
  "extractScenesFromZip x content =
     (case unzip_files x (named_file ''scenes.json'') content of
        None \<Rightarrow> None
      | Some files \<Rightarrow>
          (case js_sort (by_depth x) (map fst files) of
             [] \<Rightarrow> None
           | path # _ \<Rightarrow> array_of (Option.bind (map_of files path) parseJson)))"

definition sceneDisplayName :: "json option \<Rightarrow> string option" where
  "sceneDisplayName scenes =
     (case array_of scenes of
        None \<Rightarrow> None
      | Some [] \<Rightarrow> None
      | Some (first # rest) \<Rightarrow>
          (let candidate = (case List.find (\<lambda>s. map_of (obj_fields (Some s)) ''default'' = Some (JBool True)) (first # rest) of
                              None \<Rightarrow> first | Some s \<Rightarrow> s)
           in case map_of (obj_fields (Some candidate)) ''name'' of
                Some (JStr n) \<Rightarrow> (let name = take maxSceneNameLength (js_trim n) in if name = [] then None else Some name)
              | _ \<Rightarrow> None))"

section \<open>What rebuilding keeps\<close>

text \<open>
  The documented behaviour of \<open>fflate\<close>: unzipping what \<open>zipSync\<close> packed gives the same files, with
  their sizes.
\<close>

definition zip_law :: "ext \<Rightarrow> bool" where
  "zip_law x \<longleftrightarrow> (\<forall>files zipped. distinct (map fst files) \<longrightarrow> zip_sync x files = Some zipped \<longrightarrow>
     unzip_entries x zipped = Some (map (\<lambda>(n, b). \<lparr>z_name = n, z_originalSize = Some (length b), z_data = Some b\<rparr>) files))"

lemma ends_with_iff: "js_ends_with p s \<longleftrightarrow> (\<exists>q. s = q @ p)"
proof -
  have "take (length p) (rev s) = rev p \<longleftrightarrow> (\<exists>r. rev s = rev p @ r)"
    by (metis append_eq_conv_conj append_take_drop_id length_rev)
  also have "\<dots> \<longleftrightarrow> (\<exists>q. s = q @ p)" by (metis rev_append rev_rev_ident)
  finally show ?thesis by (simp add: js_ends_with_def js_starts_with_def)
qed

lemma folder_split:
  assumes "named_file ''template.json'' path"
  shows "path = folder_of path @ ''template.json'' \<and> (folder_of path = [] \<or> (\<exists>q. folder_of path = q @ ''/''))"
proof (cases "path = ''template.json''")
  case True
  then show ?thesis by (simp add: folder_of_def)
next
  case False
  then obtain q where "path = q @ ''/template.json''" using assms by (auto simp: named_file_def ends_with_iff)
  then show ?thesis by (simp add: folder_of_def)
qed

lemma in_folder: "folder = [] \<or> (\<exists>q. folder = q @ ''/'') \<Longrightarrow> named_file file (folder @ file)"
  by (auto simp: named_file_def ends_with_iff)

lemma manifest_path_named:
  assumes "manifest_path x files = Some p" shows "named_file ''template.json'' p \<and> p \<in> fst ` set files"
proof -
  let ?names = "filter (named_file ''template.json'') (map fst files)"
  obtain rest where "js_sort (by_depth x) ?names = p # rest"
    using assms by (auto simp: manifest_path_def split: list.splits)
  then have "p \<in> set (js_sort (by_depth x) ?names)" by simp
  then have "p \<in> set ?names" by (simp only: set_js_sort)
  then show ?thesis by simp
qed

lemma inflated_all:
  "distinct (map fst (acc @ files)) \<Longrightarrow> (\<And>n b. (n, b) \<in> set files \<Longrightarrow> keep n) \<Longrightarrow>
   inflated keep acc (map (\<lambda>(n, b). \<lparr>z_name = n, z_originalSize = Some (length b), z_data = Some b\<rparr>) files) = Some (acc @ files)"
proof (induction files arbitrary: acc)
  case (Cons f files)
  obtain n b where f: "f = (n, b)" by (cases f)
  have new: "n \<notin> fst ` set acc" using Cons.prems(1) f by auto
  then have "AList.update n b acc = acc @ [(n, b)]" by (induction acc) auto
  with Cons.IH [of "acc @ [(n, b)]"] Cons.prems f show ?case by auto
qed simp

lemma unzip_of_zip:
  assumes "zip_law x" and "zip_sync x files = Some zipped" and "distinct (map fst files)"
    and "\<And>n b. (n, b) \<in> set files \<Longrightarrow> keep n"
  shows "unzip_files x keep zipped = Some files"
proof -
  have "unzip_entries x zipped = Some (map (\<lambda>(n, b). \<lparr>z_name = n, z_originalSize = Some (length b), z_data = Some b\<rparr>) files)"
    using assms(1-3) by (simp add: zip_law_def)
  moreover have "inflated keep [] (map (\<lambda>(n, b). \<lparr>z_name = n, z_originalSize = Some (length b), z_data = Some b\<rparr>) files) = Some ([] @ files)"
    by (rule inflated_all) (use assms(3,4) in auto)
  ultimately show ?thesis by (simp add: unzip_files_def)
qed

lemma unzipSync_files: "unzipSync x keep content = Some files \<Longrightarrow> unzip_files x keep content = Some files"
  by (auto simp: unzipSync_def unzip_files_def split: option.splits if_splits)

text \<open>A rebuilt archive holds the manifest at its old path, the given scenes and the given preview beside it.\<close>

definition template_files :: "string \<Rightarrow> bytes \<Rightarrow> bytes \<Rightarrow> bytes option \<Rightarrow> (string \<times> bytes) list" where
  "template_files path manifest scenes picture =
     [(path, manifest), (folder_of path @ ''scenes.json'', scenes)] @ file_entry (folder_of path @ ''image.jpg'') picture"

lemma template_files_props:
  assumes "named_file ''template.json'' path"
  shows "distinct (map fst (template_files path m s i))"
    and "\<And>n b. (n, b) \<in> set (template_files path m s i) \<Longrightarrow> template_file n"
    and "manifest_path x (template_files path m s i) = Some path"
    and "map_of (template_files path m s i) path = Some m"
    and "map_of (template_files path m s i) (folder_of path @ ''scenes.json'') = Some s"
    and "map_of (template_files path m s i) (folder_of path @ ''image.jpg'') = i"
proof -
  let ?f = "folder_of path"
  note f = folder_split [OF assms]
  have "?f @ ''template.json'' \<noteq> ?f @ ''scenes.json''" "?f @ ''template.json'' \<noteq> ?f @ ''image.jpg''" by simp_all
  with f have ne: "path \<noteq> ?f @ ''scenes.json''" "path \<noteq> ?f @ ''image.jpg''" by auto
  show "distinct (map fst (template_files path m s i))" using ne
    by (auto simp: template_files_def file_entry_def split: option.split)
  show "\<And>n b. (n, b) \<in> set (template_files path m s i) \<Longrightarrow> template_file n"
    using assms in_folder [of ?f "''scenes.json''"] in_folder [of ?f "''image.jpg''"] f
    by (auto simp: template_files_def file_entry_def template_file_def split: option.splits)
  have "\<not> named_file ''template.json'' (?f @ ''scenes.json'')" "\<not> named_file ''template.json'' (?f @ ''image.jpg'')"
    by (auto simp: named_file_def ends_with_iff dest!: arg_cong [of _ _ rev])
  then show "manifest_path x (template_files path m s i) = Some path"
    using assms by (auto simp: manifest_path_def template_files_def file_entry_def js_sort_Cons split: option.split)
  show "map_of (template_files path m s i) path = Some m" by (simp add: template_files_def)
  show "map_of (template_files path m s i) (?f @ ''scenes.json'') = Some s" using ne by (simp add: template_files_def)
  show "map_of (template_files path m s i) (?f @ ''image.jpg'') = i"
    using ne by (simp add: template_files_def file_entry_def split: option.split)
qed

lemma validate_parts:
  assumes "validateSceneZip x content = Inr z"
  obtains files path manifest scenes where
    "length content \<le> maxSceneZipBytes" "unzip_files x template_file content = Some files"
    "manifest_path x files = Some path" "Option.bind (map_of files path) parseJson = Some (JObj manifest)"
    "array_of (Option.bind (map_of files (folder_of path @ ''scenes.json'')) parseJson) = Some scenes" "scenes \<noteq> []"
    "vz_appKeywords z = extractAppKeywords (Some (JArr scenes))" "vz_riskFlags z = detectRiskFlags (Some (JArr scenes))"
    "vz_sceneCount z = length scenes" "vz_previewImage z = map_of files (folder_of path @ ''image.jpg'')"
    "vz_frameosVersion z = normalizeFrameosVersion (map_of manifest ''frameosVersion'')"
    "vz_manifestName z = trimmed_text 128 (map_of manifest ''name'')"
    "vz_manifestDescription z = trimmed_text 2000 (map_of manifest ''description'')"
  using assms
  by (auto simp: validateSceneZip_def Let_def dest!: unzipSync_files split: if_splits option.splits json.splits)

lemma rebuild_parts:
  assumes "rebuild_with x edit preview zipped = Some zipped'" and "zip_law x"
  obtains files path manifest scenes where
    "unzip_files x template_file zipped = Some files" "manifest_path x files = Some path"
    "Option.bind (map_of files path) parseJson = Some (JObj manifest)"
    "map_of files (folder_of path @ ''scenes.json'') = Some scenes"
    "unzip_files x template_file zipped' = Some (template_files path (utf8_encode (json_pretty 0 (JObj (edit manifest)))) scenes
       (preview (map_of files (folder_of path @ ''image.jpg''))))"
    "named_file ''template.json'' path"
proof -
  obtain files path m where o: "open_template x zipped = Some (files, path, m)"
    using assms(1) by (auto simp: rebuild_with_def split: option.splits)
  then obtain manifest scenes where r: "parseJson m = Some (JObj manifest)" "map_of files (folder_of path @ ''scenes.json'') = Some scenes"
      "zip_sync x (template_files path (utf8_encode (json_pretty 0 (JObj (edit manifest)))) scenes
         (preview (map_of files (folder_of path @ ''image.jpg'')))) = Some zipped'"
    using assms(1) by (auto simp: rebuild_with_def Let_def template_files_def split: option.splits json.splits)
  from o have u: "unzip_files x template_file zipped = Some files" "manifest_path x files = Some path" "map_of files path = Some m"
    by (auto simp: open_template_def split: option.splits)
  from manifest_path_named [OF u(2)] have named: "named_file ''template.json'' path" by blast
  have "unzip_files x template_file zipped' = Some (template_files path (utf8_encode (json_pretty 0 (JObj (edit manifest)))) scenes
       (preview (map_of files (folder_of path @ ''image.jpg''))))"
    by (rule unzip_of_zip [OF assms(2) r(3)]) (use template_files_props [OF named] in auto)
  then show thesis using that [OF u(1,2) _ r(2) _ named] u r(1) by simp
qed

text \<open>Whatever the manifest becomes, the scenes and what is read from them stay.\<close>

lemma rebuild_keeps_scenes:
  assumes "rebuild_with x edit preview zipped = Some zipped'" and "zip_law x"
    and "validateSceneZip x zipped = Inr z" and "validateSceneZip x zipped' = Inr z'"
  shows "vz_riskFlags z' = vz_riskFlags z \<and> vz_appKeywords z' = vz_appKeywords z \<and> vz_sceneCount z' = vz_sceneCount z
    \<and> vz_previewImage z' = preview (vz_previewImage z)"
proof -
  from assms(1,2) obtain files path manifest scenes where r: "unzip_files x template_file zipped = Some files"
    "manifest_path x files = Some path" "map_of files (folder_of path @ ''scenes.json'') = Some scenes"
    "unzip_files x template_file zipped' = Some (template_files path (utf8_encode (json_pretty 0 (JObj (edit manifest)))) scenes
       (preview (map_of files (folder_of path @ ''image.jpg''))))" "named_file ''template.json'' path"
    by (rule rebuild_parts)
  note t = template_files_props [OF r(5)]
  obtain f1 p1 s1 where z: "unzip_files x template_file zipped = Some f1" "manifest_path x f1 = Some p1"
    "array_of (Option.bind (map_of f1 (folder_of p1 @ ''scenes.json'')) parseJson) = Some s1"
    "vz_appKeywords z = extractAppKeywords (Some (JArr s1))" "vz_riskFlags z = detectRiskFlags (Some (JArr s1))"
    "vz_sceneCount z = length s1" "vz_previewImage z = map_of f1 (folder_of p1 @ ''image.jpg'')"
    by (rule validate_parts [OF assms(3)]) blast
  obtain f2 p2 s2 where z': "unzip_files x template_file zipped' = Some f2" "manifest_path x f2 = Some p2"
    "array_of (Option.bind (map_of f2 (folder_of p2 @ ''scenes.json'')) parseJson) = Some s2"
    "vz_appKeywords z' = extractAppKeywords (Some (JArr s2))" "vz_riskFlags z' = detectRiskFlags (Some (JArr s2))"
    "vz_sceneCount z' = length s2" "vz_previewImage z' = map_of f2 (folder_of p2 @ ''image.jpg'')"
    by (rule validate_parts [OF assms(4)]) blast
  have p: "f1 = files" "p1 = path" using z(1,2) r(1,2) by simp_all
  have f2: "f2 = template_files path (utf8_encode (json_pretty 0 (JObj (edit manifest)))) scenes
       (preview (map_of files (folder_of path @ ''image.jpg'')))"
    using z'(1) r(4) by simp
  have p2: "p2 = path" using z'(2) t(3) unfolding f2 by simp
  have "map_of f2 (folder_of path @ ''scenes.json'') = Some scenes" unfolding f2 by (rule t(5))
  then have "s1 = s2" using z(3) z'(3) r(3) p p2 by simp
  moreover have "map_of f2 (folder_of path @ ''image.jpg'') = preview (map_of files (folder_of path @ ''image.jpg''))"
    unfolding f2 by (rule t(6))
  ultimately show ?thesis using z z' p p2 by simp
qed

lemmas rebuilders = rebuildZipWithFrameosVersion_def rebuildZipWithPreview_def

section \<open>A concrete archive format\<close>

text \<open>
  For examples: files are stored one after another, each character behind a marker, names and data
  closed by another; it satisfies the law.
\<close>

fun store_text :: "string \<Rightarrow> bytes" where
  "store_text [] = [CHR 0x00]"
| "store_text (c # cs) = CHR 0x01 # c # store_text cs"

fun load_text :: "bytes \<Rightarrow> string \<times> bytes" where
  "load_text (m # c # r) = (if m = CHR 0x00 then ([], c # r) else map_prod ((#) c) id (load_text r))"
| "load_text _ = ([], [])"

fun store_files :: "(string \<times> bytes) list \<Rightarrow> bytes" where
  "store_files [] = []"
| "store_files ((n, b) # files) = store_text n @ store_text b @ store_files files"

fun load_files :: "nat \<Rightarrow> bytes \<Rightarrow> zip_entry list" where
  "load_files 0 s = []"
| "load_files (Suc k) s =
     (if s = [] then []
      else (let (n, r) = load_text s; (b, r') = load_text r
            in \<lparr>z_name = n, z_originalSize = Some (length b), z_data = Some b\<rparr> # load_files k r'))"

definition archive_ext :: ext where
  "archive_ext = sample_ext\<lparr>zip_sync := (\<lambda>files. Some (store_files files)),
     unzip_entries := (\<lambda>s. Some (load_files (length s) s))\<rparr>"

lemma load_store_text: "load_text (store_text s @ r) = (s, r)"
proof (induction s)
  case Nil
  then show ?case by (cases r) auto
qed simp

lemma load_store_files: "length files \<le> k \<Longrightarrow>
   load_files k (store_files files) = map (\<lambda>(n, b). \<lparr>z_name = n, z_originalSize = Some (length b), z_data = Some b\<rparr>) files"
proof (induction files arbitrary: k)
  case Nil
  then show ?case by (cases k) auto
next
  case (Cons f files)
  obtain n b where f: "f = (n, b)" by (cases f)
  obtain j where k: "k = Suc j" using Cons.prems by (cases k) auto
  have "store_text n \<noteq> []" by (cases n) auto
  then show ?case using Cons.IH [of j] Cons.prems f k by (simp add: load_store_text)
qed

lemma archive_law: "zip_law archive_ext"
proof -
  have "length files \<le> length (store_files files)" for files
  proof (induction files)
    case (Cons f files)
    obtain n b where f: "f = (n, b)" by (cases f)
    have "1 \<le> length (store_text n)" by (cases n) auto
    with Cons.IH have "Suc (length files) \<le> length (store_text n) + (length (store_text b) + length (store_files files))" by linarith
    with f show ?case by simp
  qed simp
  then show ?thesis by (simp add: zip_law_def archive_ext_def load_store_files)
qed

definition demo_zip :: bytes where
  "demo_zip = store_files [(''a/template.json'', ''{\"name\":\"Clock\"}''), (''a/scenes.json'', ''[{\"id\":\"s\",\"name\":\"Clock\"}]'')]"

lemma demo_zip_valid:
  "\<exists>z. validateSceneZip archive_ext demo_zip = Inr z \<and> vz_riskFlags z = []"
proof -
  let ?m = "''{\"name\":\"Clock\"}''" and ?s = "''[{\"id\":\"s\",\"name\":\"Clock\"}]''"
  have e: "unzip_entries archive_ext demo_zip =
      Some [\<lparr>z_name = ''a/template.json'', z_originalSize = Some (length ?m), z_data = Some ?m\<rparr>,
            \<lparr>z_name = ''a/scenes.json'', z_originalSize = Some (length ?s), z_data = Some ?s\<rparr>]"
    by code_simp
  have k: "template_file ''a/template.json''" "template_file ''a/scenes.json''"
    "manifest_path archive_ext [(''a/template.json'', ?m), (''a/scenes.json'', ?s)] = Some ''a/template.json''"
    "path_depth ''a/template.json'' = 1" "folder_of ''a/template.json'' = ''a/''"
    "parseJson ?m = Some (JObj [(''name'', JStr ''Clock'')])"
    "parseJson ?s = Some (JArr [JObj [(''id'', JStr ''s''), (''name'', JStr ''Clock'')]])"
    "detectRiskFlags (Some (JArr [JObj [(''id'', JStr ''s''), (''name'', JStr ''Clock'')]])) = []"
    by code_simp+
  have "length demo_zip < 200" by code_simp
  then have l: "\<not> maxSceneZipBytes < length demo_zip" by (simp add: maxSceneZipBytes_def)
  show ?thesis
    by (simp add: validateSceneZip_def unzipSync_def e k l Let_def maxSceneZipEntries_def
        maxSceneZipUncompressedBytes_def array_of_def)
qed

end
