(* ===== verification/StorePublish.thy ===== *)
theory StorePublish imports StoreZip begin

text \<open>
  Publishing a scene: moderation (\<open>moderation.ts\<close>) and classification (\<open>store-classify.ts\<close>) of its
  texts, the account's byte usage (\<open>usage.ts\<close>), the shared publishing path (\<open>store-publish.ts\<close>) and the
  resynchronised preview version (\<open>store-image-sync.ts\<close>).

  The two services of \<open>store_env\<close> answer an attempt with the parsed payload of a successful response,
  or \<open>None\<close> when the call fails, times out or does not answer JSON.  \<open>lower\<close> of the database is taken to
  agree with \<open>toLowerCase\<close>.
\<close>

record store_env =
  se_apiKey :: bool
  se_moderate :: "nat \<Rightarrow> json list \<Rightarrow> json option"
  se_classify :: "nat \<Rightarrow> string \<Rightarrow> json option"
  se_scenesBaseUrl :: string

section \<open>Moderation\<close>

datatype moderation_result =
    ModerationOk bool
  | ContentRejected "string list"
  | ModerationUnavailable

definition blockedCategories :: "string list" where
  "blockedCategories =
     [''harassment'', ''harassment/threatening'', ''hate'', ''hate/threatening'', ''self-harm'',
      ''self-harm/instructions'', ''self-harm/intent'', ''sexual'', ''sexual/minors'', ''violence/graphic'']"

fun js_truthy :: "json \<Rightarrow> bool" where
  "js_truthy JNull = False"
| "js_truthy (JBool b) = b"
| "js_truthy (JNum q) = (q \<noteq> 0)"
| "js_truthy (JStr s) = (s \<noteq> [])"
| "js_truthy _ = True"

text \<open>The categories one result flags; reading a field of \<open>null\<close> throws.\<close>

definition flagged_of :: "json \<Rightarrow> string list option" where
  "flagged_of result =
     (if result = JNull then None
      else Some (map fst (filter (\<lambda>(category, value). js_truthy value \<and> category \<in> set blockedCategories)
                   (obj_fields (map_of (obj_fields (Some result)) ''categories'')))))"

definition moderation_attempt :: "json \<Rightarrow> moderation_result option" where
  "moderation_attempt payload =
     (case array_of (map_of (obj_fields (Some payload)) ''results'') of
        None \<Rightarrow> None
      | Some results \<Rightarrow>
          if results = [] then None
          else (case those (map flagged_of results) of
                  None \<Rightarrow> None
                | Some flagged \<Rightarrow>
                    (let categories = js_set (concat flagged)
                     in Some (if categories \<noteq> [] then ContentRejected (sort categories) else ModerationOk True))))"

definition moderation_parts :: "ext \<Rightarrow> string option list \<Rightarrow> (bytes \<times> string) option \<Rightarrow> json list" where
  "moderation_parts x texts picture =
     map (\<lambda>t. JObj [(''text'', JStr (take 10000 t)), (''type'', JStr ''text'')])
         (filter (\<lambda>t. t \<noteq> []) (map js_trim (List.map_filter (\<lambda>t. t) texts)))
     @ (case picture of None \<Rightarrow> []
        | Some (content, contentType) \<Rightarrow>
            [JObj [(''image_url'', JObj [(''url'', JStr (''data:'' @ contentType @ '';base64,'' @ base64_encode x content))]),
                   (''type'', JStr ''image_url'')]])"

definition moderateStoreContent ::
  "ext \<Rightarrow> store_env \<Rightarrow> string option list \<Rightarrow> (bytes \<times> string) option \<Rightarrow> moderation_result" where
  "moderateStoreContent x se texts picture =
     (if \<not> se_apiKey se then ModerationOk False
      else
        (let parts = moderation_parts x texts picture
         in if parts = [] then ModerationOk True
            else (case Option.bind (se_moderate se 0 parts) moderation_attempt of
                    Some r \<Rightarrow> r
                  | None \<Rightarrow>
                      (case Option.bind (se_moderate se 1 parts) moderation_attempt of
                         Some r \<Rightarrow> r
                       | None \<Rightarrow> ModerationUnavailable))))"

section \<open>Classification\<close>

definition or_text :: "string \<Rightarrow> string \<Rightarrow> string" where
  "or_text s fallback = (if s = [] then fallback else s)"

definition classify_prompt :: "string \<Rightarrow> string option \<Rightarrow> string list \<Rightarrow> string list \<Rightarrow> string" where
  "classify_prompt name description appKeywords existingTags =
     js_join [CHR 0x0A]
       ([''Scene name: '' @ take 200 name,
         ''Description: '' @ or_text (case description of None \<Rightarrow> [] | Some t \<Rightarrow> take 1000 (js_trim t)) ''(none)'',
         ''Apps used in the node graph: '' @ (if appKeywords \<noteq> [] then js_join '', '' appKeywords else ''(unknown)'')]
        @ (if existingTags \<noteq> [] then [''Current tags: '' @ js_join '', '' existingTags] else []))"

text \<open>The message of the first choice, parsed; its category must be one of the taxonomy.\<close>

definition classify_attempt :: "json \<Rightarrow> (string \<times> string list) option" where
  "classify_attempt payload =
     (let choice = Option.bind (array_of (map_of (obj_fields (Some payload)) ''choices'')) (\<lambda>cs. case cs of [] \<Rightarrow> None | c # _ \<Rightarrow> Some c);
          content = map_of (obj_fields (map_of (obj_fields choice) ''message'')) ''content''
      in case content of
           Some (JStr text) \<Rightarrow>
             if text = [] then None
             else
               (let parsed = obj_fields (json_parse text)
                in case map_of parsed ''category'' of
                     Some (JStr category) \<Rightarrow>
                       if category \<in> set (map fst storeCategories)
                       then Some (category, filter (\<lambda>tag. tag \<noteq> category) (sanitizeTagCandidates (map_of parsed ''tags'')))
                       else None
                   | _ \<Rightarrow> None)
         | _ \<Rightarrow> None)"

definition classifyStoreScene ::
  "store_env \<Rightarrow> string \<Rightarrow> string option \<Rightarrow> string list \<Rightarrow> string list \<Rightarrow> (string \<times> string list) option" where
  "classifyStoreScene se name description appKeywords existingTags =
     (if \<not> se_apiKey se then None
      else
        (let prompt = classify_prompt name description appKeywords existingTags
         in case Option.bind (se_classify se 0 prompt) classify_attempt of
              Some r \<Rightarrow> Some r
            | None \<Rightarrow> Option.bind (se_classify se 1 prompt) classify_attempt))"

section \<open>Usage\<close>

definition maxPrivateSceneBytesPerAccount :: nat where "maxPrivateSceneBytesPerAccount = 100 * 1024 * 1024"
definition maxBackupBytesPerAccount :: nat where "maxBackupBytesPerAccount = 100 * 1024 * 1024"

definition is_public :: "store_scene \<Rightarrow> bool" where
  "is_public s \<longleftrightarrow> ss_visibility s = ''public''"

definition preview_bytes :: "store_scene \<Rightarrow> nat" where
  "preview_bytes s = (case ss_previewImage s of None \<Rightarrow> 0 | Some b \<Rightarrow> length b)"

text \<open>
  The sums of the three joins over the scenes of the account that a visibility test selects.
\<close>

definition version_bytes :: "(store_scene \<Rightarrow> bool) \<Rightarrow> uuid \<Rightarrow> db \<Rightarrow> nat" where
  "version_bytes P accountId d =
     sum_list (map (\<lambda>(v, s). if P s then sv_sizeBytes v else 0)
       (filter (\<lambda>(v, s). ss_id s = sv_sceneId v \<and> ss_accountId s = accountId)
         (List.product (sceneVersions d) (storeScenes d))))"

definition image_bytes :: "(store_scene \<Rightarrow> bool) \<Rightarrow> uuid \<Rightarrow> db \<Rightarrow> nat" where
  "image_bytes P accountId d =
     sum_list (map (\<lambda>(i, s). if P s then length (si_content i) else 0)
       (filter (\<lambda>(i, s). ss_id s = si_sceneId i \<and> ss_accountId s = accountId)
         (List.product (sceneImages d) (storeScenes d))))"

definition preview_image_bytes :: "(store_scene \<Rightarrow> bool) \<Rightarrow> uuid \<Rightarrow> db \<Rightarrow> nat" where
  "preview_image_bytes P accountId d =
     sum_list (map (\<lambda>s. if P s then preview_bytes s else 0) (filter (\<lambda>s. ss_accountId s = accountId) (storeScenes d)))"

definition sceneBytesForAccount :: "uuid \<Rightarrow> db \<Rightarrow> nat \<times> nat" where
  "sceneBytesForAccount accountId d =
     (let bytes = (\<lambda>P. version_bytes P accountId d + image_bytes P accountId d + preview_image_bytes P accountId d)
      in (bytes (\<lambda>s. \<not> is_public s), bytes is_public))"

definition privateSceneBytesForAccount :: "uuid \<Rightarrow> db \<Rightarrow> nat" where
  "privateSceneBytesForAccount accountId d = fst (sceneBytesForAccount accountId d)"

definition sceneBytesTotal :: "uuid \<Rightarrow> db \<Rightarrow> nat" where
  "sceneBytesTotal sceneId d =
     sum_list (map sv_sizeBytes (filter (\<lambda>v. sv_sceneId v = sceneId) (sceneVersions d)))
     + sum_list (map (\<lambda>i. length (si_content i)) (filter (\<lambda>i. si_sceneId i = sceneId) (sceneImages d)))
     + (case select_one (\<lambda>s. ss_id s = sceneId) (storeScenes d) of None \<Rightarrow> 0 | Some s \<Rightarrow> preview_bytes s)"

definition backupBytesForAccount :: "uuid \<Rightarrow> db \<Rightarrow> nat" where
  "backupBytesForAccount accountId d =
     sum_list (map cb_sizeBytes (filter (\<lambda>b. cb_accountId b = accountId) (clientBackups d)))"

definition json_nat :: "nat \<Rightarrow> json" where
  "json_nat n = num_of_int (int n)"

definition accountUsage :: "uuid \<Rightarrow> db \<Rightarrow> json" where
  "accountUsage accountId d =
     (let (privateBytes, publicBytes) = sceneBytesForAccount accountId d
      in JObj [(''backups'', JObj [(''bytes'', json_nat (backupBytesForAccount accountId d)),
                  (''max_bytes'', json_nat maxBackupBytesPerAccount)]),
               (''frame_logs'', JObj [(''bytes'', json_nat (frameLogBytesForAccount d accountId)),
                  (''max_bytes'', json_nat maxFrameLogBytesPerAccount)]),
               (''scenes'', JObj [(''private_bytes'', json_nat privateBytes),
                  (''private_max_bytes'', json_nat maxPrivateSceneBytesPerAccount),
                  (''public_bytes'', json_nat publicBytes)])])"

section \<open>Versions of a scene\<close>

definition maxVersionsPerScene :: int where "maxVersionsPerScene = 20"

text \<open>
  A new row of \<open>store_scene_versions\<close>; its unique index on scene and version makes a second insert of
  the same number throw (\<open>None\<close>).  Pruning keeps the newest \<open>maxVersionsPerScene\<close> numbers.
\<close>

definition version_row ::
  "ext \<Rightarrow> uuid \<Rightarrow> time \<Rightarrow> bytes \<Rightarrow> string option \<Rightarrow> uuid option \<Rightarrow> string list \<Rightarrow> uuid \<Rightarrow> int \<Rightarrow> scene_version" where
  "version_row x vid now content frameosVersion publishedBy riskFlags sceneId version =
     \<lparr>sv_id = vid, sv_content = content, sv_contentType = ''application/zip'', sv_frameosVersion = frameosVersion,
      sv_publishedBy = publishedBy, sv_riskFlags = riskFlags, sv_sceneId = sceneId, sv_sha256 = sha256_hex x content,
      sv_sizeBytes = length content, sv_version = version, sv_yankedAt = None, sv_createdAt = now\<rparr>"

definition insert_version :: "scene_version \<Rightarrow> db \<Rightarrow> db option" where
  "insert_version v d =
     (if list_ex (\<lambda>u. sv_sceneId u = sv_sceneId v \<and> sv_version u = sv_version v) (sceneVersions d) then None
      else Some (d\<lparr>sceneVersions := sceneVersions d @ [v]\<rparr>))"

definition prune_versions :: "uuid \<Rightarrow> int \<Rightarrow> db \<Rightarrow> db" where
  "prune_versions sceneId nextVersion d =
     d\<lparr>sceneVersions := delete_where (\<lambda>v. sv_sceneId v = sceneId \<and> sv_version v < nextVersion - maxVersionsPerScene + 1)
        (sceneVersions d)\<rparr>"

definition append_version :: "scene_version \<Rightarrow> db \<Rightarrow> db option" where
  "append_version v d = map_option (prune_versions (sv_sceneId v) (sv_version v)) (insert_version v d)"

definition update_scene :: "uuid \<Rightarrow> (store_scene \<Rightarrow> store_scene) \<Rightarrow> db \<Rightarrow> db" where
  "update_scene sceneId f d = d\<lparr>storeScenes := update_where (\<lambda>s. ss_id s = sceneId) f (storeScenes d)\<rparr>"

definition latest_unyanked :: "uuid \<Rightarrow> db \<Rightarrow> scene_version option" where
  "latest_unyanked sceneId d =
     (case select_desc sv_version (\<lambda>v. sv_sceneId v = sceneId \<and> sv_yankedAt v = None) (sceneVersions d) of
        [] \<Rightarrow> None | v # _ \<Rightarrow> Some v)"

text \<open>The images of a scene, the lead first.\<close>

definition gallery :: "uuid \<Rightarrow> db \<Rightarrow> scene_image list" where
  "gallery sceneId d = select_asc (\<lambda>i. (si_position i, si_createdAt i)) (\<lambda>i. si_sceneId i = sceneId) (sceneImages d)"

definition gallery_lead :: "uuid \<Rightarrow> db \<Rightarrow> bytes option" where
  "gallery_lead sceneId d = (case gallery sceneId d of [] \<Rightarrow> None | i # _ \<Rightarrow> Some (si_content i))"

definition sceneSummary :: "store_scene \<Rightarrow> fields" where
  "sceneSummary s =
     [(''category'', json_of_str (ss_category s)), (''created_at'', JStr (iso_text (ss_createdAt s))),
      (''description'', json_of_str (ss_description s)), (''download_count'', num_of_int (ss_downloadCount s)),
      (''featured'', JBool (ss_featuredAt s \<noteq> None)), (''frameos_version'', json_of_str (ss_frameosVersion s)),
      (''id'', JStr (ss_id s)), (''latest_version'', num_of_int (ss_latestVersion s)), (''name'', JStr (ss_name s)),
      (''risk_flags'', JArr (map JStr (ss_riskFlags s))), (''slug'', JStr (ss_slug s)), (''status'', JStr (ss_status s)),
      (''tags'', JArr (map JStr (ss_tags s))), (''updated_at'', JStr (iso_text (ss_updatedAt s))),
      (''visibility'', JStr (ss_visibility s))]"

section \<open>The checks of a publish\<close>

definition maxScenesPerAccount :: nat where "maxScenesPerAccount = 200"
definition maxNewScenesPerDay :: nat where "maxNewScenesPerDay = 20"

record publish_input =
  pi_accountId :: uuid
  pi_actor :: fields
  pi_content :: bytes
  pi_description :: "string option"
  pi_linkedClientId :: "uuid option"
  pi_name :: "string option"
  pi_visibility :: "string option"

record publish_plan =
  pp_content :: bytes
  pp_zip :: validated_zip
  pp_uploaded :: validated_zip
  pp_name :: string
  pp_description :: "string option"
  pp_existing :: "store_scene option"
  pp_classified :: "(string \<times> string list) option"

definition scene_too_large :: http_response where
  "scene_too_large = jsonError ''scene_too_large'' 413 [(''max_bytes'', json_nat maxSceneZipBytes)]"

definition storage_quota_exceeded :: "nat \<Rightarrow> fields \<Rightarrow> http_response" where
  "storage_quota_exceeded privateBytes extra =
     jsonError ''storage_quota_exceeded'' 403
       ([(''max_bytes'', json_nat maxPrivateSceneBytesPerAccount), (''private_bytes'', json_nat privateBytes)] @ extra)"

definition scene_named :: "uuid \<Rightarrow> string \<Rightarrow> store_scene \<Rightarrow> bool" where
  "scene_named accountId name s \<longleftrightarrow> ss_accountId s = accountId \<and> js_lower (ss_name s) = js_lower name"

text \<open>A republished zip without an image of its own takes the gallery lead.\<close>

definition publish_effective ::
  "ext \<Rightarrow> store_scene option \<Rightarrow> bytes \<Rightarrow> validated_zip \<Rightarrow> db \<Rightarrow> http_response + (bytes \<times> validated_zip)" where
  "publish_effective x existing content zipv d =
     (case Option.bind existing (\<lambda>s. if vz_previewImage zipv = None then gallery_lead (ss_id s) d else None) of
        None \<Rightarrow> Inr (content, zipv)
      | Some lead \<Rightarrow>
          (case rebuildZipWithPreview x content (Some lead) of
             None \<Rightarrow> Inl (jsonError ''invalid_scene_zip'' 500 [])
           | Some rebuilt \<Rightarrow>
               if length rebuilt > maxSceneZipBytes then Inl scene_too_large
               else (case validateSceneZip x rebuilt of
                       Inl e \<Rightarrow> Inl (jsonError e 400 [])
                     | Inr v \<Rightarrow> Inr (rebuilt, v))))"

definition publish_quota :: "web_env \<Rightarrow> publish_input \<Rightarrow> store_scene option \<Rightarrow> nat \<Rightarrow> db \<Rightarrow> http_response option" where
  "publish_quota env pin existing contentBytes d =
     (let accountId = pi_accountId pin;
          resultingVisibility = (case pi_visibility pin of Some v \<Rightarrow> v
            | None \<Rightarrow> (case existing of Some s \<Rightarrow> ss_visibility s | None \<Rightarrow> ''private''));
          privateBytes = privateSceneBytesForAccount accountId d;
          flippingPrivateBytes = (case existing of Some s \<Rightarrow> if is_public s then sceneBytesTotal (ss_id s) d else 0 | None \<Rightarrow> 0)
      in if existing = None \<and> length (filter (\<lambda>s. ss_accountId s = accountId) (storeScenes d)) \<ge> maxScenesPerAccount
         then Some (jsonError ''scene_quota_exceeded'' 403 [(''max_scenes'', json_nat maxScenesPerAccount)])
         else if resultingVisibility \<noteq> ''public''
           \<and> privateBytes + flippingPrivateBytes + contentBytes > maxPrivateSceneBytesPerAccount
         then Some (storage_quota_exceeded privateBytes [])
         else if existing = None
           \<and> length (filter (\<lambda>s. ss_accountId s = accountId \<and> ss_createdAt s > we_now env - 24 * 60 * 60 * 1000)
                (storeScenes d)) \<ge> maxNewScenesPerDay
         then Some (jsonError ''daily_scene_limit_exceeded'' 429 [(''max_new_scenes_per_day'', json_nat maxNewScenesPerDay)])
         else None)"

text \<open>The answers to a moderation that did not pass; a rejection is audited first.\<close>

definition moderation_refusal ::
  "web_request \<Rightarrow> uuid \<Rightarrow> fields \<Rightarrow> string \<Rightarrow> fields \<Rightarrow> json \<Rightarrow> moderation_result \<Rightarrow> db \<Rightarrow> (db \<times> http_response) option" where
  "moderation_refusal rq accountId actor eventType extra target result d =
     (case result of
        ModerationOk _ \<Rightarrow> None
      | ContentRejected categories \<Rightarrow>
          (let cs = JArr (map JStr categories)
           in Some (recordAuditEvent rq (Some accountId) actor eventType (JObj ((''categories'', cs) # extra)) target d,
                    jsonError ''content_rejected'' 422 [(''categories'', cs)]))
      | ModerationUnavailable \<Rightarrow> Some (d, jsonError ''moderation_unavailable'' 503 []))"

definition publish_checks ::
  "ext \<Rightarrow> store_env \<Rightarrow> web_env \<Rightarrow> web_request \<Rightarrow> publish_input \<Rightarrow> db \<Rightarrow> (db \<times> http_response) + publish_plan" where
  "publish_checks x se env rq pin d =
     (let accountId = pi_accountId pin; content = pi_content pin
      in if (case select_one (\<lambda>a. a_id a = accountId) (accounts d) of Some a \<Rightarrow> a_storeBannedAt a \<noteq> None | None \<Rightarrow> False)
         then Inl (d, jsonError ''store_banned'' 403 [])
         else if content = [] then Inl (d, jsonError ''invalid_content'' 400 [])
         else if length content > maxSceneZipBytes then Inl (d, scene_too_large)
         else
           (case validateSceneZip x content of
              Inl e \<Rightarrow> Inl (d, jsonError e 400 [])
            | Inr uploaded \<Rightarrow>
                (let name = (case (case pi_name pin of Some n \<Rightarrow> Some n | None \<Rightarrow> vz_manifestName uploaded) of
                       None \<Rightarrow> [] | Some n \<Rightarrow> take 128 (js_trim n));
                     description = (case pi_description pin of Some t \<Rightarrow> Some (take 2000 (js_trim t))
                       | None \<Rightarrow> vz_manifestDescription uploaded);
                     existing = select_one (scene_named accountId name) (storeScenes d)
                 in if name = [] then Inl (d, jsonError ''invalid_name'' 400 [])
                    else if (case existing of Some s \<Rightarrow> ss_status s = ''pulled'' | None \<Rightarrow> False)
                      then Inl (d, jsonError ''scene_pulled'' 403 [])
                    else
                      (case publish_effective x existing content uploaded d of
                         Inl r \<Rightarrow> Inl (d, r)
                       | Inr (content', zipv) \<Rightarrow>
                           (case publish_quota env pin existing (length content') d of
                              Some r \<Rightarrow> Inl (d, r)
                            | None \<Rightarrow>
                                (case moderation_refusal rq accountId (pi_actor pin) ''store.publish_rejected'' [(''name'', JStr name)] JNull
                                        (moderateStoreContent x se [Some name, description]
                                           (map_option (\<lambda>p. (p, ''image/jpeg'')) (vz_previewImage uploaded))) d of
                                   Some refusal \<Rightarrow> Inl refusal
                                 | None \<Rightarrow>
                                     Inr \<lparr>pp_content = content', pp_zip = zipv, pp_uploaded = uploaded, pp_name = name,
                                          pp_description = description, pp_existing = existing,
                                          pp_classified =
                                            (if (case existing of Some s \<Rightarrow> (case ss_category s of Some c \<Rightarrow> c \<noteq> [] | None \<Rightarrow> False) | None \<Rightarrow> False)
                                             then None
                                             else classifyStoreScene se name description (vz_appKeywords zipv)
                                                    (case existing of Some s \<Rightarrow> ss_tags s | None \<Rightarrow> []))\<rparr>))))))"

section \<open>The writes of a publish\<close>

definition new_scene :: "uuid \<Rightarrow> uuid \<Rightarrow> time \<Rightarrow> uuid \<Rightarrow> string \<Rightarrow> string \<Rightarrow> store_scene" where
  "new_scene sid shareToken now accountId name slug =
     \<lparr>ss_id = sid, ss_accountId = accountId, ss_category = None, ss_description = None, ss_downloadCount = 0,
      ss_featuredAt = None, ss_frameosVersion = None, ss_linkedClientId = None, ss_latestVersion = 0, ss_name = name,
      ss_previewImage = None, ss_previewImageHeight = None, ss_previewImageType = None, ss_previewImageWidth = None,
      ss_pulledAt = None, ss_pulledReason = None, ss_riskFlags = [], ss_shareToken = shareToken, ss_slug = slug,
      ss_status = ''active'', ss_tags = [], ss_visibility = ''private'', ss_createdAt = now, ss_updatedAt = now\<rparr>"

text \<open>The first candidate slug no scene has; \<open>slugSuffix\<close> draws from the environment.\<close>

definition free_slug :: "ext \<Rightarrow> web_env \<Rightarrow> nat \<Rightarrow> string \<Rightarrow> db \<Rightarrow> string option" where
  "free_slug x env tries name d =
     (let base = slugifyName x name
      in List.find (\<lambda>slug. slug \<notin> ss_slug ` set (storeScenes d))
           (base # map (\<lambda>i. base @ ''-'' @ we_random env i) [0..<tries]))"

definition createScene :: "ext \<Rightarrow> web_env \<Rightarrow> uuid \<Rightarrow> string \<Rightarrow> db \<Rightarrow> (db \<times> store_scene) option" where
  "createScene x env accountId name d =
     map_option (\<lambda>slug. let s = new_scene (we_uuid env 0) (we_uuid env 1) (we_now env) accountId name slug
                        in (d\<lparr>storeScenes := storeScenes d @ [s]\<rparr>, s))
       (free_slug x env 3 name d)"

definition published_row :: "web_env \<Rightarrow> publish_input \<Rightarrow> publish_plan \<Rightarrow> int \<Rightarrow> store_scene \<Rightarrow> store_scene" where
  "published_row env pin plan nextVersion s =
     s\<lparr>ss_category := (case pp_classified plan of Some (category, _) \<Rightarrow> Some category | None \<Rightarrow> ss_category s),
       ss_tags := (case pp_classified plan of
           Some (_, tags) \<Rightarrow>
             if (case pp_existing plan of Some e \<Rightarrow> ss_tags e = [] | None \<Rightarrow> True) \<and> tags \<noteq> [] then tags else ss_tags s
         | None \<Rightarrow> ss_tags s),
       ss_description := pp_description plan, ss_frameosVersion := vz_frameosVersion (pp_zip plan),
       ss_latestVersion := nextVersion, ss_linkedClientId := pi_linkedClientId pin, ss_name := pp_name plan,
       ss_previewImage := vz_previewImage (pp_uploaded plan), ss_previewImageHeight := vz_imageHeight (pp_uploaded plan),
       ss_previewImageType := (if vz_previewImage (pp_uploaded plan) = None then None else Some ''image/jpeg''),
       ss_previewImageWidth := vz_imageWidth (pp_uploaded plan), ss_riskFlags := vz_riskFlags (pp_zip plan),
       ss_updatedAt := we_now env,
       ss_visibility := (case pi_visibility pin of Some v \<Rightarrow> if v = [] then ss_visibility s else v | None \<Rightarrow> ss_visibility s)\<rparr>"

definition publish_commit ::
  "ext \<Rightarrow> store_env \<Rightarrow> web_env \<Rightarrow> web_request \<Rightarrow> publish_input \<Rightarrow> publish_plan \<Rightarrow> db \<Rightarrow> db \<times> http_response" where
  "publish_commit x se env rq pin plan d =
     (case (case pp_existing plan of Some s \<Rightarrow> Some (d, s) | None \<Rightarrow> createScene x env (pi_accountId pin) (pp_name plan) d) of
        None \<Rightarrow> (d, jsonError ''scene_create_failed'' 500 [])
      | Some (d1, scene) \<Rightarrow>
          (let nextVersion = ss_latestVersion scene + 1
           in case append_version (version_row x (we_uuid env 2) (we_now env) (pp_content plan) (vz_frameosVersion (pp_zip plan))
                     (pi_linkedClientId pin) (vz_riskFlags (pp_zip plan)) (ss_id scene) nextVersion) d1 of
                None \<Rightarrow> (d1, server_error)
              | Some d2 \<Rightarrow>
                  (let d3 = update_scene (ss_id scene) (published_row env pin plan nextVersion) d2
                   in case select_one (\<lambda>s. ss_id s = ss_id scene) (storeScenes d3) of
                        None \<Rightarrow> (d3, jsonError ''scene_publish_failed'' 500 [])
                      | Some updated \<Rightarrow>
                          (recordAuditEvent rq (Some (pi_accountId pin)) (pi_actor pin) ''store.scene_published''
                             (JObj [(''name'', JStr (ss_name updated)), (''sceneCount'', json_nat (vz_sceneCount (pp_zip plan))),
                                    (''sizeBytes'', json_nat (length (pp_content plan))), (''version'', num_of_int nextVersion),
                                    (''visibility'', JStr (ss_visibility updated))])
                             (JObj [(''sceneId'', JStr (ss_id updated))]) d3,
                           jsonOk [(''scene'', JObj (sceneSummary updated
                                      @ [(''url'', JStr (se_scenesBaseUrl se @ ''/s/'' @ ss_slug updated)), (''version'', num_of_int nextVersion)])),
                                   (''status'', JStr ''published'')]))))"

definition publishStoreScene ::
  "ext \<Rightarrow> store_env \<Rightarrow> web_env \<Rightarrow> web_request \<Rightarrow> publish_input \<Rightarrow> db \<Rightarrow> db \<times> http_response" where
  "publishStoreScene x se env rq pin d =
     (case publish_checks x se env rq pin d of
        Inl refusal \<Rightarrow> refusal
      | Inr plan \<Rightarrow> publish_commit x se env rq pin plan d)"

section \<open>A new preview version\<close>

text \<open>An error answer, \<open>None\<close> for an exception, or the new database and version.\<close>

definition syncLatestSceneZipPreview ::
  "ext \<Rightarrow> web_env \<Rightarrow> store_scene \<Rightarrow> bytes option \<Rightarrow> db \<Rightarrow> http_response option + (db \<times> int)" where
  "syncLatestSceneZipPreview x env scene previewImage d =
     (case latest_unyanked (ss_id scene) d of
        None \<Rightarrow> Inl (Some (jsonError ''version_not_found'' 404 []))
      | Some latest \<Rightarrow>
          (case rebuildZipWithPreview x (sv_content latest) previewImage of
             None \<Rightarrow> Inl (Some (jsonError ''invalid_scene_zip'' 500 []))
           | Some content \<Rightarrow>
               if length content > maxSceneZipBytes then Inl (Some scene_too_large)
               else
                 (case validateSceneZip x content of
                    Inl e \<Rightarrow> Inl (Some (jsonError ''invalid_scene_zip'' 500 []))
                  | Inr zipv \<Rightarrow>
                      (let nextVersion = ss_latestVersion scene + 1
                       in case append_version (version_row x (we_uuid env 2) (we_now env) content
                                 (case vz_frameosVersion zipv of Some v \<Rightarrow> Some v | None \<Rightarrow> sv_frameosVersion latest)
                                 None (vz_riskFlags zipv) (ss_id scene) nextVersion) d of
                            None \<Rightarrow> Inl None
                          | Some d1 \<Rightarrow>
                              Inr (update_scene (ss_id scene)
                                     (\<lambda>s. s\<lparr>ss_latestVersion := nextVersion, ss_riskFlags := vz_riskFlags zipv,
                                            ss_updatedAt := we_now env\<rparr>) d1, nextVersion)))))"

end
