(* ===== verification/StoreOwner.thy ===== *)
theory StoreOwner imports StorePublish begin

text \<open>
  An owner's management of a published scene: the guard of \<open>store-owner.ts\<close> and the routes under
  \<open>app/api/account/scenes/[sceneId]/\<close> that edit the listing, delete it and save new contents.  A body runs on
  one database; the calls to moderation lie between its reads and its writes.
\<close>

section \<open>Guards\<close>

text \<open>A route whose body also draws on the rate limiter.\<close>

definition owner_world_route ::
  "ext \<Rightarrow> web_env \<Rightarrow> web_request \<Rightarrow> string \<Rightarrow> int \<Rightarrow> int \<Rightarrow> (uuid \<Rightarrow> fields \<Rightarrow> world \<Rightarrow> world \<times> http_response) \<Rightarrow> world
   \<Rightarrow> world \<times> http_response" where
  "owner_world_route x env rq action limit windowMs body w =
     (case owner_guard x env rq action limit windowMs w of
        (w1, Inl r) \<Rightarrow> (w1, r)
      | (w1, Inr (accountId, profile)) \<Rightarrow> body accountId profile w1)"

definition in_db :: "(db \<Rightarrow> db \<times> http_response) \<Rightarrow> world \<Rightarrow> world \<times> http_response" where
  "in_db body w = (let (d, r) = body (w_db w) in (w\<lparr>w_db := d\<rparr>, r))"

definition owned_scene :: "uuid \<Rightarrow> string \<Rightarrow> db \<Rightarrow> store_scene option" where
  "owned_scene accountId sceneId d =
     (if \<not> is_frame_id_text sceneId then None
      else select_one (\<lambda>s. ss_id s = js_lower sceneId \<and> ss_accountId s = accountId) (storeScenes d))"

definition with_owned_scene ::
  "uuid \<Rightarrow> string \<Rightarrow> (store_scene \<Rightarrow> db \<Rightarrow> db \<times> http_response) \<Rightarrow> db \<Rightarrow> db \<times> http_response" where
  "with_owned_scene accountId sceneId body d =
     (case owned_scene accountId sceneId d of
        None \<Rightarrow> (d, jsonError ''scene_not_found'' 404 [])
      | Some s \<Rightarrow> body s d)"

text \<open>\<open>loadOwnedScene\<close> with its default limit.\<close>

definition owned_scene_route ::
  "ext \<Rightarrow> web_env \<Rightarrow> web_request \<Rightarrow> string \<Rightarrow> (uuid \<Rightarrow> fields \<Rightarrow> store_scene \<Rightarrow> db \<Rightarrow> db \<times> http_response) \<Rightarrow> world
   \<Rightarrow> world \<times> http_response" where
  "owned_scene_route x env rq sceneId body =
     owner_route x env rq ''account:scenes'' 60 (15 * 60 * 1000)
       (\<lambda>accountId profile. with_owned_scene accountId sceneId (body accountId profile))"

section \<open>Editing the listing\<close>

definition sceneVisibilities :: "string list" where "sceneVisibilities = [''private'', ''public'']"

text \<open>\<open>Partial\<close> of the editable columns: a field is \<open>None\<close> when it is absent from the changes.\<close>

record scene_changes =
  ch_category :: "string option option"
  ch_description :: "string option option"
  ch_frameosVersion :: "string option option"
  ch_tags :: "string list option"
  ch_visibility :: "string option"

definition visibility_change :: "uuid \<Rightarrow> fields \<Rightarrow> store_scene \<Rightarrow> db \<Rightarrow> http_response + string option" where
  "visibility_change accountId body scene d =
     (case parseOptionalString (map_of body ''visibility'') of
        None \<Rightarrow> Inr None
      | Some visibility \<Rightarrow>
          if visibility \<notin> set sceneVisibilities then Inl (jsonError ''invalid_visibility'' 400 [])
          else if ss_status scene = ''pulled'' then Inl (jsonError ''scene_pulled'' 403 [])
          else if visibility = ''private'' \<and> is_public scene
            \<and> privateSceneBytesForAccount accountId d + sceneBytesTotal (ss_id scene) d > maxPrivateSceneBytesPerAccount
          then Inl (storage_quota_exceeded (privateSceneBytesForAccount accountId d)
                      [(''scene_bytes'', json_nat (sceneBytesTotal (ss_id scene) d))])
          else Inr (Some visibility))"

definition description_change :: "fields \<Rightarrow> string option option" where
  "description_change body =
     (case map_of body ''description'' of
        Some (JStr s) \<Rightarrow> Some (Some (take 2000 s))
      | Some JNull \<Rightarrow> Some None
      | _ \<Rightarrow> None)"

definition frameos_version_change :: "fields \<Rightarrow> http_response + string option option" where
  "frameos_version_change body =
     (case map_of body ''frameosVersion'' of
        None \<Rightarrow> Inr None
      | Some v \<Rightarrow>
          if v = JNull \<or> v = JStr [] then Inr (Some None)
          else (case normalizeFrameosVersion (Some v) of
                  None \<Rightarrow> Inl (jsonError ''invalid_frameos_version'' 400 [])
                | Some s \<Rightarrow> Inr (Some (Some s))))"

definition tags_change :: "fields \<Rightarrow> http_response + string list option" where
  "tags_change body =
     (case map_of body ''tags'' of
        None \<Rightarrow> Inr None
      | Some v \<Rightarrow> (case normalizeTags (Some v) of None \<Rightarrow> Inl (jsonError ''invalid_tags'' 400 []) | Some tags \<Rightarrow> Inr (Some tags)))"

definition category_change :: "fields \<Rightarrow> http_response + string option option" where
  "category_change body =
     (case map_of body ''category'' of
        None \<Rightarrow> Inr None
      | Some v \<Rightarrow> (case normalizeCategory v of None \<Rightarrow> Inl (jsonError ''invalid_category'' 400 []) | Some c \<Rightarrow> Inr (Some c)))"

definition scene_changes_of :: "uuid \<Rightarrow> fields \<Rightarrow> store_scene \<Rightarrow> db \<Rightarrow> http_response + scene_changes" where
  "scene_changes_of accountId body scene d =
     (case visibility_change accountId body scene d of
        Inl r \<Rightarrow> Inl r
      | Inr visibility \<Rightarrow>
          (case tags_change body of
             Inl r \<Rightarrow> Inl r
           | Inr tags \<Rightarrow>
               (case category_change body of
                  Inl r \<Rightarrow> Inl r
                | Inr category \<Rightarrow>
                    (case frameos_version_change body of
                       Inl r \<Rightarrow> Inl r
                     | Inr version \<Rightarrow>
                         (let changes = \<lparr>ch_category = category, ch_description = description_change body,
                                ch_frameosVersion = version, ch_tags = tags, ch_visibility = visibility\<rparr>
                          in if changes = \<lparr>ch_category = None, ch_description = None, ch_frameosVersion = None,
                                  ch_tags = None, ch_visibility = None\<rparr>
                             then Inl (jsonError ''nothing_to_update'' 400 []) else Inr changes)))))"

text \<open>What of the edit is shown in public, and is moderated: \<open>None\<close> when nothing is.\<close>

definition edit_moderation :: "scene_changes \<Rightarrow> store_scene \<Rightarrow> (string option list \<times> (bytes \<times> string) option) option" where
  "edit_moderation changes scene =
     (let makingPublic = (ch_visibility changes = Some ''public'' \<and> \<not> is_public scene);
          editedDescription = (case ch_description changes of Some v \<Rightarrow> v | None \<Rightarrow> None);
          editedTags = (case ch_tags changes of Some tags \<Rightarrow> if tags = [] then None else Some (js_join '' '' tags) | None \<Rightarrow> None)
      in if makingPublic then
           Some ([Some (ss_name scene),
                  case editedDescription of Some t \<Rightarrow> Some t | None \<Rightarrow> ss_description scene, editedTags],
                 map_option (\<lambda>p. (p, case ss_previewImageType scene of Some t \<Rightarrow> t | None \<Rightarrow> ''image/jpeg'')) (ss_previewImage scene))
         else if editedDescription \<noteq> None \<or> editedTags \<noteq> None then Some ([editedDescription, editedTags], None)
         else None)"

text \<open>The bytes of the version that carries a changed minimum: \<open>Inr None\<close> when it did not change.\<close>

definition new_minimum_content :: "ext \<Rightarrow> scene_changes \<Rightarrow> store_scene \<Rightarrow> db \<Rightarrow> http_response + (string option \<times> bytes) option" where
  "new_minimum_content x changes scene d =
     (case ch_frameosVersion changes of
        None \<Rightarrow> Inr None
      | Some requested \<Rightarrow>
          if requested = ss_frameosVersion scene then Inr None
          else
            (case select_one (\<lambda>v. sv_sceneId v = ss_id scene \<and> sv_version v = ss_latestVersion scene) (sceneVersions d) of
               None \<Rightarrow> Inl (jsonError ''version_not_found'' 404 [])
             | Some latest \<Rightarrow>
                 (case rebuildZipWithFrameosVersion x (sv_content latest) requested of
                    None \<Rightarrow> Inl (jsonError ''invalid_scene_zip'' 500 [])
                  | Some content \<Rightarrow>
                      if length content > maxSceneZipBytes then Inl scene_too_large
                      else (case validateSceneZip x content of
                              Inl e \<Rightarrow> Inl (jsonError e 400 [])
                            | Inr _ \<Rightarrow> Inr (Some (requested, content))))))"

definition changed_scene :: "web_env \<Rightarrow> scene_changes \<Rightarrow> int option \<Rightarrow> store_scene \<Rightarrow> store_scene" where
  "changed_scene env changes latestVersion s =
     s\<lparr>ss_category := (case ch_category changes of Some c \<Rightarrow> c | None \<Rightarrow> ss_category s),
       ss_description := (case ch_description changes of Some t \<Rightarrow> t | None \<Rightarrow> ss_description s),
       ss_frameosVersion := (case ch_frameosVersion changes of Some v \<Rightarrow> v | None \<Rightarrow> ss_frameosVersion s),
       ss_latestVersion := (case latestVersion of Some n \<Rightarrow> n | None \<Rightarrow> ss_latestVersion s),
       ss_tags := (case ch_tags changes of Some tags \<Rightarrow> tags | None \<Rightarrow> ss_tags s),
       ss_visibility := (case ch_visibility changes of Some v \<Rightarrow> v | None \<Rightarrow> ss_visibility s),
       ss_updatedAt := we_now env\<rparr>"

definition scene_target :: "store_scene \<Rightarrow> json" where
  "scene_target s = JObj [(''sceneId'', JStr (ss_id s))]"

text \<open>The transaction: an exception of its insert rolls it back.\<close>

definition commit_edit ::
  "ext \<Rightarrow> web_env \<Rightarrow> scene_changes \<Rightarrow> (string option \<times> bytes) option \<Rightarrow> store_scene \<Rightarrow> db \<Rightarrow> db option" where
  "commit_edit x env changes newContent scene d =
     (let next = ss_latestVersion scene + 1
      in case newContent of
           None \<Rightarrow> Some (update_scene (ss_id scene) (changed_scene env changes None) d)
         | Some (requested, content) \<Rightarrow>
             map_option (update_scene (ss_id scene) (changed_scene env changes (Some next)))
               (append_version (version_row x (we_uuid env 2) (we_now env) content requested None (ss_riskFlags scene)
                  (ss_id scene) next) d))"

definition patch_scene ::
  "ext \<Rightarrow> store_env \<Rightarrow> web_env \<Rightarrow> web_request \<Rightarrow> uuid \<Rightarrow> fields \<Rightarrow> store_scene \<Rightarrow> db \<Rightarrow> db \<times> http_response" where
  "patch_scene x se env rq accountId profile scene d =
     (let actor = session_actor accountId profile; body = readJsonObject rq
      in case scene_changes_of accountId body scene d of
           Inl r \<Rightarrow> (d, r)
         | Inr changes \<Rightarrow>
             (case Option.bind (edit_moderation changes scene) (\<lambda>(texts, picture).
                     moderation_refusal rq accountId actor ''store.publish_rejected'' [(''name'', JStr (ss_name scene))]
                       (scene_target scene) (moderateStoreContent x se texts picture) d) of
                Some refusal \<Rightarrow> refusal
              | None \<Rightarrow>
                  (case new_minimum_content x changes scene d of
                     Inl r \<Rightarrow> (d, r)
                   | Inr newContent \<Rightarrow>
                       (case commit_edit x env changes newContent scene d of
                          None \<Rightarrow> (d, server_error)
                        | Some d1 \<Rightarrow>
                            (case select_one (\<lambda>s. ss_id s = ss_id scene) (storeScenes d1) of
                               None \<Rightarrow> (d1, jsonError ''scene_update_failed'' 500 [])
                             | Some updated \<Rightarrow>
                                 (let d2 = (case ch_visibility changes of
                                        Some v \<Rightarrow>
                                          if v \<noteq> ss_visibility scene
                                          then recordAuditEvent rq (Some accountId) actor ''store.visibility_changed''
                                                 (JObj [(''name'', JStr (ss_name scene)), (''visibility'', JStr v)]) (scene_target scene) d1
                                          else d1
                                      | None \<Rightarrow> d1);
                                      d3 = (case newContent of
                                        Some (requested, _) \<Rightarrow>
                                          recordAuditEvent rq (Some accountId) actor ''store.frameos_version_changed''
                                            (JObj [(''frameosVersion'', json_of_str requested), (''name'', JStr (ss_name scene)),
                                                   (''version'', num_of_int (ss_latestVersion scene + 1))]) (scene_target scene) d2
                                      | None \<Rightarrow> d2)
                                  in (d3, jsonOk [(''scene'', JObj (sceneSummary updated)), (''status'', JStr ''updated'')])))))))"

definition patch_scene_route ::
  "ext \<Rightarrow> store_env \<Rightarrow> web_env \<Rightarrow> string \<Rightarrow> web_request \<Rightarrow> world \<Rightarrow> world \<times> http_response" where
  "patch_scene_route x se env sceneId rq = owned_scene_route x env rq sceneId (patch_scene x se env rq)"

section \<open>Deleting\<close>

text \<open>The foreign keys cascade to the versions, the images and the assignments to frames.\<close>

definition delete_scene_rows :: "uuid \<Rightarrow> db \<Rightarrow> db" where
  "delete_scene_rows sceneId d =
     d\<lparr>storeScenes := delete_where (\<lambda>s. ss_id s = sceneId) (storeScenes d),
       sceneVersions := delete_where (\<lambda>v. sv_sceneId v = sceneId) (sceneVersions d),
       sceneImages := delete_where (\<lambda>i. si_sceneId i = sceneId) (sceneImages d),
       assignments := delete_where (\<lambda>g. g_sceneId g = sceneId) (assignments d)\<rparr>"

definition delete_scene :: "web_request \<Rightarrow> uuid \<Rightarrow> fields \<Rightarrow> store_scene \<Rightarrow> db \<Rightarrow> db \<times> http_response" where
  "delete_scene rq accountId profile scene d =
     (recordAuditEvent rq (Some accountId) (session_actor accountId profile) ''store.scene_deleted''
        (JObj [(''name'', JStr (ss_name scene)), (''visibility'', JStr (ss_visibility scene))]) (scene_target scene)
        (delete_scene_rows (ss_id scene) d),
      jsonOk [(''status'', JStr ''deleted'')])"

definition delete_scene_route :: "ext \<Rightarrow> web_env \<Rightarrow> string \<Rightarrow> web_request \<Rightarrow> world \<Rightarrow> world \<times> http_response" where
  "delete_scene_route x env sceneId rq = owned_scene_route x env rq sceneId (delete_scene rq)"

section \<open>Saving contents\<close>

definition maxSceneEditsPer15Minutes :: int where "maxSceneEditsPer15Minutes = 120"
definition maxSceneEditsPerHour :: int where "maxSceneEditsPerHour = 200"

text \<open>The new title: only when listing and scene carried the same one before.\<close>

definition rename_of :: "ext \<Rightarrow> json list \<Rightarrow> scene_version \<Rightarrow> store_scene \<Rightarrow> string option" where
  "rename_of x scenes latest scene =
     (case (sceneDisplayName (Some (JArr scenes)), sceneDisplayName (map_option JArr (extractScenesFromZip x (sv_content latest)))) of
        (Some next, Some previous) \<Rightarrow> if next \<noteq> previous \<and> previous = ss_name scene then Some next else None
      | _ \<Rightarrow> None)"

definition name_clash :: "store_scene \<Rightarrow> string \<Rightarrow> db \<Rightarrow> bool" where
  "name_clash scene name d \<longleftrightarrow>
     select_one (\<lambda>s. scene_named (ss_accountId scene) name s \<and> ss_id s \<noteq> ss_id scene) (storeScenes d) \<noteq> None"

definition edited_row :: "web_env \<Rightarrow> string option \<Rightarrow> validated_zip \<Rightarrow> int \<Rightarrow> store_scene \<Rightarrow> store_scene" where
  "edited_row env renameTo zipv nextVersion s =
     s\<lparr>ss_latestVersion := nextVersion, ss_name := (case renameTo of Some n \<Rightarrow> n | None \<Rightarrow> ss_name s),
       ss_riskFlags := vz_riskFlags zipv, ss_updatedAt := we_now env\<rparr>"

definition store_content ::
  "ext \<Rightarrow> web_env \<Rightarrow> web_request \<Rightarrow> uuid \<Rightarrow> fields \<Rightarrow> store_scene \<Rightarrow> json list \<Rightarrow> scene_version \<Rightarrow> string option \<Rightarrow> db \<Rightarrow> db \<times> http_response" where
  "store_content x env rq accountId profile scene scenes latest renameTo d =
     (case rebuildZipWithScenes x (sv_content latest) (json_pretty 0 (JArr scenes)) renameTo of
        None \<Rightarrow> (d, jsonError ''invalid_scene_zip'' 500 [])
      | Some content \<Rightarrow>
          if length content > maxSceneZipBytes then (d, scene_too_large)
          else if \<not> is_public scene
            \<and> privateSceneBytesForAccount accountId d + length content > maxPrivateSceneBytesPerAccount
          then (d, storage_quota_exceeded (privateSceneBytesForAccount accountId d) [])
          else
            (case validateSceneZip x content of
               Inl e \<Rightarrow> (d, jsonError e 400 [])
             | Inr zipv \<Rightarrow>
                 (let nextVersion = ss_latestVersion scene + 1
                  in case append_version (version_row x (we_uuid env 2) (we_now env) content
                            (case vz_frameosVersion zipv of Some v \<Rightarrow> Some v | None \<Rightarrow> sv_frameosVersion latest)
                            None (vz_riskFlags zipv) (ss_id scene) nextVersion) d of
                       None \<Rightarrow> (d, server_error)
                     | Some d1 \<Rightarrow>
                         (let d2 = update_scene (ss_id scene) (edited_row env renameTo zipv nextVersion) d1
                          in case select_one (\<lambda>s. ss_id s = ss_id scene) (storeScenes d2) of
                               None \<Rightarrow> (d2, jsonError ''scene_update_failed'' 500 [])
                             | Some updated \<Rightarrow>
                                 (recordAuditEvent rq (Some accountId) (session_actor accountId profile) ''store.scene_content_edited''
                                    (JObj ([(''name'', JStr (case renameTo of Some n \<Rightarrow> n | None \<Rightarrow> ss_name scene))]
                                       @ (case renameTo of Some _ \<Rightarrow> [(''renamedFrom'', JStr (ss_name scene))] | None \<Rightarrow> [])
                                       @ [(''sceneCount'', json_nat (vz_sceneCount zipv)), (''version'', num_of_int nextVersion)]))
                                    (scene_target scene) d2,
                                  jsonOk [(''scene'', JObj (sceneSummary updated @ [(''version'', num_of_int nextVersion)])),
                                          (''status'', JStr ''published'')])))))"

definition save_content ::
  "ext \<Rightarrow> store_env \<Rightarrow> web_env \<Rightarrow> web_request \<Rightarrow> uuid \<Rightarrow> fields \<Rightarrow> store_scene \<Rightarrow> db \<Rightarrow> db \<times> http_response" where
  "save_content x se env rq accountId profile scene d =
     (case array_of (map_of (readJsonObject rq) ''scenes'') of
        None \<Rightarrow> (d, jsonError ''invalid_scenes'' 400 [])
      | Some scenes \<Rightarrow>
          if scenes = [] then (d, jsonError ''invalid_scenes'' 400 [])
          else
            (case latest_unyanked (ss_id scene) d of
               None \<Rightarrow> (d, jsonError ''version_not_found'' 404 [])
             | Some latest \<Rightarrow>
                 (let renameTo = rename_of x scenes latest scene
                  in case Option.bind renameTo (\<lambda>name.
                            if name_clash scene name d
                            then Some (d, jsonError ''scene_name_taken'' 409 [(''name'', JStr name)])
                            else moderation_refusal rq accountId (session_actor accountId profile) ''store.publish_rejected''
                                   [(''name'', JStr name)] (scene_target scene) (moderateStoreContent x se [Some name] None) d) of
                       Some refusal \<Rightarrow> refusal
                     | None \<Rightarrow> store_content x env rq accountId profile scene scenes latest renameTo d)))"

definition content_route ::
  "ext \<Rightarrow> store_env \<Rightarrow> web_env \<Rightarrow> string \<Rightarrow> web_request \<Rightarrow> world \<Rightarrow> world \<times> http_response" where
  "content_route x se env sceneId rq =
     owner_world_route x env rq ''account:scene-content'' maxSceneEditsPer15Minutes (15 * 60 * 1000)
       (\<lambda>accountId profile w.
          case owned_scene accountId sceneId (w_db w) of
            None \<Rightarrow> (w, jsonError ''scene_not_found'' 404 [])
          | Some scene \<Rightarrow>
              if ss_status scene = ''pulled'' then (w, jsonError ''scene_pulled'' 403 [])
              else
                (case identityRateLimitResponse env accountId ''store:scene-edit'' maxSceneEditsPerHour (60 * 60 * 1000) w of
                   (w1, Some r) \<Rightarrow> (w1, r)
                 | (w1, None) \<Rightarrow> in_db (save_content x se env rq accountId profile scene) w1))"

end
