(* ===== verification/StoreRoutes.thy ===== *)
theory StoreRoutes imports StoreOwner begin

text \<open>
  The other routes of an owned scene under \<open>app/api/account/scenes/[sceneId]/\<close>: yanking a version, its gallery and
  its primary preview; with \<open>Number\<close> of a path parameter and the base64 decoder the uploads share.
\<close>

section \<open>Number(text)\<close>

text \<open>
  \<open>Number(s)\<close>: the empty text is 0, the prefixes 0x, 0o and 0b, and a signed decimal; \<open>None\<close> when the result is
  not finite.
\<close>

definition radix_value :: "int \<Rightarrow> string \<Rightarrow> int option" where
  "radix_value b s =
     (if s \<noteq> [] \<and> list_all (\<lambda>c. is_hex c \<and> hex_value c < b) s
      then Some (foldl (\<lambda>n c. n * b + hex_value c) 0 s) else None)"

definition unsigned_decimal :: "string \<Rightarrow> rat option" where
  "unsigned_decimal s =
     (let ip = takeWhile is_digit s; r1 = dropWhile is_digit s;
          (fp, r2) = (case r1 of [] \<Rightarrow> ([], []) | c # r \<Rightarrow> if c = CHR ''.'' then (takeWhile is_digit r, dropWhile is_digit r) else ([], r1))
      in if ip = [] \<and> fp = [] then None
         else (case parse_exponent r2 of
                 Some (ex, []) \<Rightarrow> (case number_json False ip fp ex of JNum q \<Rightarrow> Some q | _ \<Rightarrow> None)
               | _ \<Rightarrow> None))"

definition js_Number :: "string \<Rightarrow> rat option" where
  "js_Number raw =
     (let s = js_trim raw
      in case s of
           [] \<Rightarrow> Some 0
         | c # r \<Rightarrow>
             if c = CHR ''+'' then unsigned_decimal r
             else if c = CHR ''-'' then map_option uminus (unsigned_decimal r)
             else if c = CHR ''0'' \<and> r \<noteq> [] \<and> js_lower_char (hd r) \<in> {CHR ''x'', CHR ''o'', CHR ''b''}
               then map_option of_int (radix_value
                      (if js_lower_char (hd r) = CHR ''x'' then 16 else if js_lower_char (hd r) = CHR ''o'' then 8 else 2) (tl r))
             else unsigned_decimal s)"

definition positive_integer :: "string \<Rightarrow> int option" where
  "positive_integer raw =
     (case js_Number raw of Some q \<Rightarrow> if is_integer q \<and> q > 0 then Some \<lfloor>q\<rfloor> else None | None \<Rightarrow> None)"

definition max_int4 :: int where "max_int4 = 2147483647"

section \<open>Yanking\<close>

definition set_yanked :: "uuid \<Rightarrow> int \<Rightarrow> time option \<Rightarrow> db \<Rightarrow> db" where
  "set_yanked sceneId version yankedAt d =
     d\<lparr>sceneVersions := update_where (\<lambda>v. sv_sceneId v = sceneId \<and> sv_version v = version)
        (\<lambda>v. v\<lparr>sv_yankedAt := yankedAt\<rparr>) (sceneVersions d)\<rparr>"

definition yank_version ::
  "web_env \<Rightarrow> web_request \<Rightarrow> string \<Rightarrow> string \<Rightarrow> uuid \<Rightarrow> fields \<Rightarrow> db \<Rightarrow> db \<times> http_response" where
  "yank_version env rq sceneId rawVersion accountId profile d =
     (case (if is_frame_id_text sceneId then positive_integer rawVersion else None) of
        None \<Rightarrow> (d, jsonError ''version_not_found'' 404 [])
      | Some versionNumber \<Rightarrow>
          (case owned_scene accountId sceneId d of
             None \<Rightarrow> (d, jsonError ''scene_not_found'' 404 [])
           | Some scene \<Rightarrow>
               (case map_of (readJsonObject rq) ''yanked'' of
                  Some (JBool yanked) \<Rightarrow>
                    (let alive = filter (\<lambda>v. sv_sceneId v = ss_id scene \<and> sv_yankedAt v = None) (sceneVersions d);
                         target = (\<lambda>v. sv_sceneId v = ss_id scene \<and> sv_version v = versionNumber)
                     in if yanked \<and> length alive \<le> 1 \<and> map sv_version (take 1 alive) = [versionNumber]
                        then (d, jsonError ''cannot_yank_last_version'' 400 [])
                        else if versionNumber > max_int4 then (d, server_error)
                        else if select_one target (sceneVersions d) = None then (d, jsonError ''version_not_found'' 404 [])
                        else
                          (recordAuditEvent rq (Some accountId) (session_actor accountId profile)
                             (if yanked then ''store.version_yanked'' else ''store.version_unyanked'')
                             (JObj [(''name'', JStr (ss_name scene)), (''version'', num_of_int versionNumber)]) (scene_target scene)
                             (set_yanked (ss_id scene) versionNumber (if yanked then Some (we_now env) else None) d),
                           jsonOk [(''status'', JStr (if yanked then ''yanked'' else ''unyanked'')), (''version'', num_of_int versionNumber)]))
                | _ \<Rightarrow> (d, jsonError ''invalid_yanked'' 400 []))))"

definition yank_route :: "ext \<Rightarrow> web_env \<Rightarrow> string \<Rightarrow> string \<Rightarrow> web_request \<Rightarrow> world \<Rightarrow> world \<times> http_response" where
  "yank_route x env sceneId rawVersion rq =
     owner_route x env rq ''account:scenes'' 60 (15 * 60 * 1000) (yank_version env rq sceneId rawVersion)"

section \<open>The gallery\<close>

definition maxImagesPerScene :: nat where "maxImagesPerScene = 10"

definition strip_padding :: "string \<Rightarrow> string" where
  "strip_padding s = rev (dropWhile ((=) (CHR ''='')) (rev s))"

definition decodeBackupContent :: "ext \<Rightarrow> json option \<Rightarrow> bytes option" where
  "decodeBackupContent x v =
     (case v of
        Some (JStr s) \<Rightarrow>
          if s = [] then None
          else (let content = base64_decode x s
                in if strip_padding (base64_encode x content) \<noteq> strip_padding s then None else Some content)
      | _ \<Rightarrow> None)"

definition image_audit :: "web_request \<Rightarrow> uuid \<Rightarrow> fields \<Rightarrow> string \<Rightarrow> fields \<Rightarrow> store_scene \<Rightarrow> db \<Rightarrow> db" where
  "image_audit rq accountId profile eventType metadata scene =
     recordAuditEvent rq (Some accountId) (session_actor accountId profile) eventType (JObj metadata) (scene_target scene)"

definition version_field :: "int option \<Rightarrow> fields" where
  "version_field v = (case v of None \<Rightarrow> [] | Some n \<Rightarrow> [(''version'', num_of_int n)])"

definition sync_failure :: "http_response option \<Rightarrow> http_response" where
  "sync_failure r = (case r of Some response \<Rightarrow> response | None \<Rightarrow> server_error)"

text \<open>The insert, and the new preview version when the image is the first; its failure takes the image out again.\<close>

definition insert_image ::
  "ext \<Rightarrow> web_env \<Rightarrow> web_request \<Rightarrow> uuid \<Rightarrow> fields \<Rightarrow> store_scene \<Rightarrow> bytes \<Rightarrow> string \<Rightarrow> db \<Rightarrow> db \<times> http_response" where
  "insert_image x env rq accountId profile scene content contentType d =
     (let images = filter (\<lambda>i. si_sceneId i = ss_id scene) (sceneImages d);
          position = foldl max 0 (map si_position images) + 1;
          row = \<lparr>si_id = we_uuid env 0, si_content = content, si_contentType = contentType, si_position = position,
                 si_sceneId = ss_id scene, si_createdAt = we_now env\<rparr>;
          d1 = d\<lparr>sceneImages := sceneImages d @ [row]\<rparr>;
          finish = (\<lambda>version d.
            (image_audit rq accountId profile ''store.image_added''
               ([(''imageId'', JStr (we_uuid env 0)), (''sizeBytes'', json_nat (length content))] @ version_field version) scene d,
             jsonOk ([(''image'', JObj [(''id'', JStr (we_uuid env 0))]), (''status'', JStr ''added'')] @ version_field version)))
      in if ss_previewImage scene = None \<and> images = [] then
           (case syncLatestSceneZipPreview x env scene (Some content) d1 of
              Inl None \<Rightarrow> (d1, server_error)
            | Inl (Some r) \<Rightarrow> (d1\<lparr>sceneImages := delete_where (\<lambda>i. si_id i = we_uuid env 0) (sceneImages d1)\<rparr>, r)
            | Inr (d2, version) \<Rightarrow> finish (Some version) d2)
         else finish None d1)"

definition add_image ::
  "ext \<Rightarrow> store_env \<Rightarrow> web_env \<Rightarrow> web_request \<Rightarrow> uuid \<Rightarrow> fields \<Rightarrow> store_scene \<Rightarrow> db \<Rightarrow> db \<times> http_response" where
  "add_image x se env rq accountId profile scene d =
     (if ss_status scene = ''pulled'' then (d, jsonError ''scene_pulled'' 403 [])
      else
        (case decodeBackupContent x (map_of (readJsonObject rq) ''content_base64'') of
           None \<Rightarrow> (d, jsonError ''invalid_content'' 400 [])
         | Some content \<Rightarrow>
             if content = [] then (d, jsonError ''invalid_content'' 400 [])
             else if length content > maxPreviewImageBytes
             then (d, jsonError ''image_too_large'' 413 [(''max_bytes'', json_nat maxPreviewImageBytes)])
             else
               (case detectImageContentType content of
                  None \<Rightarrow> (d, jsonError ''unsupported_image'' 400 [])
                | Some contentType \<Rightarrow>
                    if length (filter (\<lambda>i. si_sceneId i = ss_id scene) (sceneImages d)) \<ge> maxImagesPerScene
                    then (d, jsonError ''image_quota_exceeded'' 403 [(''max_images'', json_nat maxImagesPerScene)])
                    else if \<not> is_public scene
                      \<and> privateSceneBytesForAccount accountId d + length content > maxPrivateSceneBytesPerAccount
                    then (d, storage_quota_exceeded (privateSceneBytesForAccount accountId d) [])
                    else
                      (case moderation_refusal rq accountId (session_actor accountId profile) ''store.image_rejected'' []
                              (scene_target scene) (moderateStoreContent x se [] (Some (content, contentType))) d of
                         Some refusal \<Rightarrow> refusal
                       | None \<Rightarrow> insert_image x env rq accountId profile scene content contentType d))))"

definition add_image_route ::
  "ext \<Rightarrow> store_env \<Rightarrow> web_env \<Rightarrow> string \<Rightarrow> web_request \<Rightarrow> world \<Rightarrow> world \<times> http_response" where
  "add_image_route x se env sceneId rq = owned_scene_route x env rq sceneId (add_image x se env rq)"

text \<open>The path names the lead when its spelling is the stored id.\<close>

definition remove_image ::
  "ext \<Rightarrow> web_env \<Rightarrow> web_request \<Rightarrow> string \<Rightarrow> uuid \<Rightarrow> fields \<Rightarrow> store_scene \<Rightarrow> db \<Rightarrow> db \<times> http_response" where
  "remove_image x env rq imageId accountId profile scene d =
     (let target = (\<lambda>i. si_id i = js_lower imageId \<and> si_sceneId i = ss_id scene);
          finish = (\<lambda>version d.
            (image_audit rq accountId profile ''store.image_removed''
               ([(''imageId'', JStr imageId)] @ version_field version) scene
               (d\<lparr>sceneImages := delete_where target (sceneImages d)\<rparr>),
             jsonOk ([(''status'', JStr ''removed'')] @ version_field version)))
      in if ss_status scene = ''pulled'' then (d, jsonError ''scene_pulled'' 403 [])
         else if \<not> is_frame_id_text imageId \<or> select_one target (sceneImages d) = None
         then (d, jsonError ''image_not_found'' 404 [])
         else if ss_previewImage scene = None \<and> map si_id (take 1 (gallery (ss_id scene) d)) = [imageId] then
           (let nextLead = (case filter (\<lambda>i. si_id i \<noteq> js_lower imageId) (gallery (ss_id scene) d) of
                [] \<Rightarrow> None | i # _ \<Rightarrow> Some (si_content i))
            in case syncLatestSceneZipPreview x env scene nextLead d of
                 Inl r \<Rightarrow> (d, sync_failure r)
               | Inr (d1, version) \<Rightarrow> finish (Some version) d1)
         else finish None d)"

definition remove_image_route ::
  "ext \<Rightarrow> web_env \<Rightarrow> string \<Rightarrow> string \<Rightarrow> web_request \<Rightarrow> world \<Rightarrow> world \<times> http_response" where
  "remove_image_route x env sceneId imageId rq = owned_scene_route x env rq sceneId (remove_image x env rq imageId)"

definition remove_preview ::
  "ext \<Rightarrow> web_env \<Rightarrow> web_request \<Rightarrow> uuid \<Rightarrow> fields \<Rightarrow> store_scene \<Rightarrow> db \<Rightarrow> db \<times> http_response" where
  "remove_preview x env rq accountId profile scene d =
     (if ss_status scene = ''pulled'' then (d, jsonError ''scene_pulled'' 403 [])
      else if ss_previewImage scene = None then (d, jsonError ''image_not_found'' 404 [])
      else
        (case syncLatestSceneZipPreview x env scene (gallery_lead (ss_id scene) d) d of
           Inl r \<Rightarrow> (d, sync_failure r)
         | Inr (d1, version) \<Rightarrow>
             (image_audit rq accountId profile ''store.image_removed''
                [(''kind'', JStr ''primary preview''), (''name'', JStr (ss_name scene)), (''version'', num_of_int version)] scene
                (update_scene (ss_id scene)
                   (\<lambda>s. s\<lparr>ss_previewImage := None, ss_previewImageHeight := None, ss_previewImageType := None,
                          ss_previewImageWidth := None, ss_updatedAt := we_now env\<rparr>) d1),
              jsonOk [(''status'', JStr ''removed''), (''version'', num_of_int version)])))"

definition remove_preview_route :: "ext \<Rightarrow> web_env \<Rightarrow> string \<Rightarrow> web_request \<Rightarrow> world \<Rightarrow> world \<times> http_response" where
  "remove_preview_route x env sceneId rq = owned_scene_route x env rq sceneId (remove_preview x env rq)"

end
