(* ===== verification/StoreLibrary.thy ===== *)
theory StoreLibrary imports StoreRoutes begin

text \<open>
  Where scenes come from and go to: forking (\<open>account/scenes/[sceneId]/fork\<close>), the upload of a zip
  (\<open>account/scenes/upload\<close>), a scene saved from the workspace (\<open>account/scenes\<close>), publishing by a linked
  backend (\<open>store/publish\<close>), and the downloads of \<open>store/scenes/[sceneId]/\<close> with the access rules of
  \<open>store-auth.ts\<close>.
\<close>

section \<open>Forking\<close>

definition visible_source :: "uuid \<Rightarrow> store_scene \<Rightarrow> bool" where
  "visible_source accountId s \<longleftrightarrow> ss_accountId s = accountId \<or> (is_public s \<and> ss_status s = ''active'')"

text \<open>\<open>name (copy)\<close>, then \<open>name (copy 2)\<close> up to 50, the first the account does not own.\<close>

definition copy_name :: "string \<Rightarrow> nat \<Rightarrow> string" where
  "copy_name name counter =
     take 128 (name @ (if counter = 1 then '' (copy)'' else '' (copy '' @ int_text (int counter) @ '')''))"

definition fork_name :: "string \<Rightarrow> uuid \<Rightarrow> db \<Rightarrow> string option" where
  "fork_name name accountId d =
     (let ownedNames = (\<lambda>s. js_lower (ss_name s)) ` set (filter (\<lambda>s. ss_accountId s = accountId) (storeScenes d))
      in List.find (\<lambda>candidate. js_lower candidate \<notin> ownedNames) (map (copy_name name) [1..<51]))"

definition forked_row :: "web_env \<Rightarrow> store_scene \<Rightarrow> validated_zip \<Rightarrow> scene_version \<Rightarrow> store_scene \<Rightarrow> store_scene" where
  "forked_row env source zipv latest s =
     s\<lparr>ss_description := ss_description source,
       ss_frameosVersion := (case vz_frameosVersion zipv of Some v \<Rightarrow> Some v | None \<Rightarrow> sv_frameosVersion latest),
       ss_latestVersion := 1, ss_previewImage := ss_previewImage source,
       ss_previewImageHeight := ss_previewImageHeight source, ss_previewImageType := ss_previewImageType source,
       ss_previewImageWidth := ss_previewImageWidth source, ss_riskFlags := vz_riskFlags zipv, ss_tags := ss_tags source,
       ss_updatedAt := we_now env, ss_visibility := ''private''\<rparr>"

text \<open>The copies of the gallery; their ids follow those of the scene and its version.\<close>

definition copied_images :: "web_env \<Rightarrow> uuid \<Rightarrow> scene_image list \<Rightarrow> scene_image list" where
  "copied_images env sceneId images =
     map (\<lambda>(k, i). i\<lparr>si_id := we_uuid env k, si_sceneId := sceneId\<rparr>) (zip [3..<3 + length images] images)"

text \<open>The transaction, rolled back (\<open>None\<close>) when its insert throws.\<close>

definition fork_commit ::
  "ext \<Rightarrow> web_env \<Rightarrow> web_request \<Rightarrow> uuid \<Rightarrow> fields \<Rightarrow> store_scene \<Rightarrow> scene_version \<Rightarrow> bytes \<Rightarrow> validated_zip \<Rightarrow> string \<Rightarrow> db
   \<Rightarrow> db \<times> http_response" where
  "fork_commit x env rq accountId profile source latest content zipv name d =
     (case free_slug x env 2 name d of
        None \<Rightarrow> (d, jsonError ''scene_create_failed'' 500 [])
      | Some slug \<Rightarrow>
          (let sid = we_uuid env 0;
               images = gallery (ss_id source) d;
               d1 = d\<lparr>storeScenes := storeScenes d @ [new_scene sid (we_uuid env 1) (we_now env) accountId name slug]\<rparr>;
               version = version_row x (we_uuid env 2) (we_now env) content
                 (case vz_frameosVersion zipv of Some v \<Rightarrow> Some v | None \<Rightarrow> sv_frameosVersion latest) None (vz_riskFlags zipv) sid 1
           in case insert_version version d1 of
                None \<Rightarrow> (d, server_error)
              | Some d2 \<Rightarrow>
                  (let d3 = update_scene sid (forked_row env source zipv latest) d2;
                       d4 = d3\<lparr>sceneImages := sceneImages d3 @ copied_images env sid images\<rparr>
                   in case select_one (\<lambda>s. ss_id s = sid) (storeScenes d4) of
                        None \<Rightarrow> (d, jsonError ''scene_fork_failed'' 500 [])
                      | Some updated \<Rightarrow>
                          (recordAuditEvent rq (Some accountId) (session_actor accountId profile) ''store.scene_forked''
                             (JObj [(''name'', JStr (ss_name updated)), (''imageCount'', json_nat (length images)),
                                    (''sceneCount'', json_nat (vz_sceneCount zipv)), (''sourceSceneId'', JStr (ss_id source)),
                                    (''sourceSceneName'', JStr (ss_name source))]) (scene_target updated) d4,
                           jsonOk [(''scene'', JObj (sceneSummary (updated\<lparr>ss_latestVersion := 1\<rparr>))), (''status'', JStr ''forked'')]))))"

definition fork_answer :: "moderation_result \<Rightarrow> http_response option" where
  "fork_answer result =
     (case result of
        ModerationOk _ \<Rightarrow> None
      | ContentRejected categories \<Rightarrow> Some (jsonError ''content_rejected'' 422 [(''categories'', JArr (map JStr categories))])
      | ModerationUnavailable \<Rightarrow> Some (jsonError ''moderation_unavailable'' 503 []))"

definition fork_content ::
  "ext \<Rightarrow> store_env \<Rightarrow> web_env \<Rightarrow> web_request \<Rightarrow> uuid \<Rightarrow> fields \<Rightarrow> store_scene \<Rightarrow> json list \<Rightarrow> nat \<Rightarrow> db \<Rightarrow> db \<times> http_response" where
  "fork_content x se env rq accountId profile source scenes privateBytes d =
     (case latest_unyanked (ss_id source) d of
        None \<Rightarrow> (d, jsonError ''version_not_found'' 404 [])
      | Some latest \<Rightarrow>
          (case fork_name (ss_name source) accountId d of
             None \<Rightarrow> (d, jsonError ''too_many_copies'' 400 [])
           | Some name \<Rightarrow>
               (case rebuildZipWithScenes x (sv_content latest) (json_pretty 0 (JArr scenes)) (Some name) of
                  None \<Rightarrow> (d, jsonError ''invalid_scene_zip'' 500 [])
                | Some content \<Rightarrow>
                    if length content > maxSceneZipBytes then (d, scene_too_large)
                    else if privateBytes + length content > maxPrivateSceneBytesPerAccount
                    then (d, storage_quota_exceeded privateBytes [])
                    else
                      (case validateSceneZip x content of
                         Inl e \<Rightarrow> (d, jsonError e 400 [])
                       | Inr zipv \<Rightarrow>
                           (case fork_answer (moderateStoreContent x se [Some name, ss_description source] None) of
                              Some r \<Rightarrow> (d, r)
                            | None \<Rightarrow> fork_commit x env rq accountId profile source latest content zipv name d)))))"

definition fork_scene ::
  "ext \<Rightarrow> store_env \<Rightarrow> web_env \<Rightarrow> string \<Rightarrow> web_request \<Rightarrow> uuid \<Rightarrow> fields \<Rightarrow> world \<Rightarrow> world \<times> http_response" where
  "fork_scene x se env sceneId rq accountId profile w =
     (case (if is_frame_id_text sceneId then select_one (\<lambda>s. ss_id s = js_lower sceneId) (storeScenes (w_db w)) else None) of
        None \<Rightarrow> (w, jsonError ''scene_not_found'' 404 [])
      | Some source \<Rightarrow>
          if \<not> visible_source accountId source then (w, jsonError ''scene_not_found'' 404 [])
          else
            (case array_of (map_of (readJsonObject rq) ''scenes'') of
               None \<Rightarrow> (w, jsonError ''invalid_scenes'' 400 [])
             | Some scenes \<Rightarrow>
                 if scenes = [] then (w, jsonError ''invalid_scenes'' 400 [])
                 else if length (filter (\<lambda>s. ss_accountId s = accountId) (storeScenes (w_db w))) \<ge> maxScenesPerAccount
                 then (w, jsonError ''scene_quota_exceeded'' 403 [(''max_scenes'', json_nat maxScenesPerAccount)])
                 else
                   (case identityRateLimitResponse env accountId ''store:fork'' (int maxNewScenesPerDay) (24 * 60 * 60 * 1000) w of
                      (w1, Some r) \<Rightarrow> (w1, r)
                    | (w1, None) \<Rightarrow>
                        in_db (fork_content x se env rq accountId profile source scenes
                                (privateSceneBytesForAccount accountId (w_db w))) w1)))"

definition fork_route :: "ext \<Rightarrow> store_env \<Rightarrow> web_env \<Rightarrow> string \<Rightarrow> web_request \<Rightarrow> world \<Rightarrow> world \<times> http_response" where
  "fork_route x se env sceneId rq =
     owner_world_route x env rq ''account:scenes'' 60 (15 * 60 * 1000) (fork_scene x se env sceneId rq)"

section \<open>Publishing\<close>

definition maxPublishesPerHour :: int where "maxPublishesPerHour = 30"
definition maxMultipartOverheadBytes :: nat where "maxMultipartOverheadBytes = 128 * 1024"

definition declared_too_large :: "string option \<Rightarrow> bool" where
  "declared_too_large contentLength =
     (case js_Number (or_empty contentLength) of
        Some n \<Rightarrow> n > of_nat (maxSceneZipBytes + maxMultipartOverheadBytes) | None \<Rightarrow> False)"

text \<open>A route that looks for the database only later.\<close>

definition account_route ::
  "ext \<Rightarrow> web_env \<Rightarrow> web_request \<Rightarrow> string \<Rightarrow> int \<Rightarrow> int \<Rightarrow> (uuid \<Rightarrow> fields \<Rightarrow> world \<Rightarrow> world \<times> http_response) \<Rightarrow> world
   \<Rightarrow> world \<times> http_response" where
  "account_route x env rq action limit windowMs body w =
     (case csrfResponse env rq of
        Some r \<Rightarrow> (w, r)
      | None \<Rightarrow>
          (case rateLimitResponse env rq action limit windowMs w of
             (w1, Some r) \<Rightarrow> (w1, r)
           | (w1, None) \<Rightarrow>
               (case readSession x env rq (w_db w1) of
                  None \<Rightarrow> (w1, jsonError ''login_required'' 401 [])
                | Some profile \<Rightarrow>
                    (case session_account profile of
                       None \<Rightarrow> (w1, jsonError ''login_required'' 401 [])
                     | Some accountId \<Rightarrow> body accountId profile w1))))"

definition db_step :: "web_env \<Rightarrow> (db \<Rightarrow> db \<times> http_response) \<Rightarrow> world \<Rightarrow> world \<times> http_response" where
  "db_step env body w = (case requireDatabase env of Some r \<Rightarrow> (w, r) | None \<Rightarrow> in_db body w)"

text \<open>
  The upload: its \<open>content-length\<close> header and the uploaded file, \<open>None\<close> when the body is no form or its
  field \<open>file\<close> is no file.
\<close>

definition upload_scene ::
  "ext \<Rightarrow> store_env \<Rightarrow> web_env \<Rightarrow> string option \<Rightarrow> bytes option \<Rightarrow> web_request \<Rightarrow> uuid \<Rightarrow> fields \<Rightarrow> world
   \<Rightarrow> world \<times> http_response" where
  "upload_scene x se env contentLength upload rq accountId profile w =
     (case identityRateLimitResponse env accountId ''store:publish'' maxPublishesPerHour (60 * 60 * 1000) w of
        (w1, Some r) \<Rightarrow> (w1, r)
      | (w1, None) \<Rightarrow>
          if declared_too_large contentLength then (w1, scene_too_large)
          else
            (case upload of
               None \<Rightarrow> (w1, jsonError ''invalid_upload'' 400 [])
             | Some content \<Rightarrow>
                 if length content > maxSceneZipBytes then (w1, scene_too_large)
                 else db_step env (publishStoreScene x se env rq
                        \<lparr>pi_accountId = accountId, pi_actor = session_actor accountId profile, pi_content = content,
                         pi_description = None, pi_linkedClientId = None, pi_name = None, pi_visibility = None\<rparr>) w1))"

definition scene_upload_route ::
  "ext \<Rightarrow> store_env \<Rightarrow> web_env \<Rightarrow> string option \<Rightarrow> bytes option \<Rightarrow> web_request \<Rightarrow> world \<Rightarrow> world \<times> http_response" where
  "scene_upload_route x se env contentLength upload rq =
     account_route x env rq ''account:scene-upload'' 60 (15 * 60 * 1000) (upload_scene x se env contentLength upload rq)"

definition maxNameAttempts :: nat where "maxNameAttempts = 20"

definition zipFolderName :: "string \<Rightarrow> string" where
  "zipFolderName name =
     (let safe = js_trim (map (\<lambda>c. if is_alnum c \<or> c \<in> {CHR '' '', CHR ''_'', CHR ''-''} then c else CHR ''_'') name)
      in take 64 (if safe \<noteq> [] then safe else ''scene''))"

definition nameIsTaken :: "uuid \<Rightarrow> string \<Rightarrow> db \<Rightarrow> bool" where
  "nameIsTaken accountId name d \<longleftrightarrow> select_one (scene_named accountId name) (storeScenes d) \<noteq> None"

definition free_name :: "uuid \<Rightarrow> string \<Rightarrow> db \<Rightarrow> string option" where
  "free_name accountId name d =
     List.find (\<lambda>n. \<not> nameIsTaken accountId n d)
       (name # map (\<lambda>suffix. take (maxSceneNameLength - 4) name @ '' '' @ int_text (int suffix)) [2..<Suc maxNameAttempts])"

definition create_scene ::
  "ext \<Rightarrow> store_env \<Rightarrow> web_env \<Rightarrow> web_request \<Rightarrow> uuid \<Rightarrow> fields \<Rightarrow> db \<Rightarrow> db \<times> http_response" where
  "create_scene x se env rq accountId profile d =
     (let body = readJsonObject rq;
          requestedName = (case map_of body ''name'' of Some (JStr s) \<Rightarrow> take maxSceneNameLength (js_trim s) | _ \<Rightarrow> []);
          name = or_text requestedName ''Untitled scene'';
          description = (case map_of body ''description'' of Some (JStr s) \<Rightarrow> Some (take 2000 (js_trim s)) | _ \<Rightarrow> None)
      in case array_of (map_of body ''scenes'') of
           None \<Rightarrow> (d, jsonError ''invalid_scenes'' 400 [])
         | Some scenes \<Rightarrow>
             if scenes = [] then (d, jsonError ''invalid_scenes'' 400 [])
             else
               (case free_name accountId name d of
                  None \<Rightarrow> (d, jsonError ''scene_name_taken'' 409 [(''name'', JStr name)])
                | Some finalName \<Rightarrow>
                    (let folder = zipFolderName finalName;
                         manifest = JObj ([(''name'', JStr finalName)]
                           @ (case description of Some t \<Rightarrow> if t = [] then [] else [(''description'', JStr t)] | None \<Rightarrow> [])
                           @ [(''scenes'', JStr ''./scenes.json'')])
                     in case zip_sync x [(folder @ ''/template.json'', utf8_encode (json_pretty 0 manifest)),
                                         (folder @ ''/scenes.json'', utf8_encode (json_pretty 0 (JArr scenes)))] of
                          None \<Rightarrow> (d, server_error)
                        | Some content \<Rightarrow>
                            if length content > maxSceneZipBytes then (d, scene_too_large)
                            else publishStoreScene x se env rq
                                   \<lparr>pi_accountId = accountId, pi_actor = session_actor accountId profile, pi_content = content,
                                    pi_description = description, pi_linkedClientId = None, pi_name = Some finalName,
                                    pi_visibility = Some ''private''\<rparr> d)))"

definition create_scene_route :: "ext \<Rightarrow> store_env \<Rightarrow> web_env \<Rightarrow> web_request \<Rightarrow> world \<Rightarrow> world \<times> http_response" where
  "create_scene_route x se env rq =
     account_route x env rq ''account:scene-create'' 60 (15 * 60 * 1000)
       (\<lambda>accountId profile w.
          case identityRateLimitResponse env accountId ''store:publish'' maxPublishesPerHour (60 * 60 * 1000) w of
            (w1, Some r) \<Rightarrow> (w1, r)
          | (w1, None) \<Rightarrow> db_step env (create_scene x se env rq accountId profile) w1)"

definition storePublishScope :: string where "storePublishScope = ''store:publish''"

definition backend_publish ::
  "ext \<Rightarrow> store_env \<Rightarrow> web_env \<Rightarrow> web_request \<Rightarrow> linked_client \<Rightarrow> db \<Rightarrow> db \<times> http_response" where
  "backend_publish x se env rq client d =
     (let body = readJsonObject rq;
          requestedVisibility = parseOptionalString (map_of body ''visibility'')
      in case parseOptionalString (map_of body ''name'') of
           None \<Rightarrow> (d, jsonError ''invalid_name'' 400 [])
         | Some name \<Rightarrow>
             if (case requestedVisibility of Some v \<Rightarrow> v \<notin> set sceneVisibilities | None \<Rightarrow> False)
             then (d, jsonError ''invalid_visibility'' 400 [])
             else (case decodeBackupContent x (map_of body ''content_base64'') of
                     None \<Rightarrow> (d, jsonError ''invalid_content'' 400 [])
                   | Some content \<Rightarrow>
                       publishStoreScene x se env rq
                         \<lparr>pi_accountId = l_accountId client, pi_actor = [(''linkedClientId'', JStr (l_id client))],
                          pi_content = content,
                          pi_description = map_option (take 2000) (parseOptionalString (map_of body ''description'')),
                          pi_linkedClientId = Some (l_id client), pi_name = Some (take 128 name),
                          pi_visibility = requestedVisibility\<rparr> d))"

definition backend_publish_route :: "ext \<Rightarrow> store_env \<Rightarrow> web_env \<Rightarrow> web_request \<Rightarrow> world \<Rightarrow> world \<times> http_response" where
  "backend_publish_route x se env rq w =
     (case rateLimitResponse env rq ''store:publish'' 60 (15 * 60 * 1000) w of
        (w1, Some r) \<Rightarrow> (w1, r)
      | (w1, None) \<Rightarrow>
          (case requireDatabase env of
             Some r \<Rightarrow> (w1, r)
           | None \<Rightarrow>
               (case authenticateLinkedClient x (rq_authorization rq) (we_now env) (w_db w1) of
                  (d1, None) \<Rightarrow> (w1\<lparr>w_db := d1\<rparr>, jsonError ''invalid_link_token'' 401 [])
                | (d1, Some client) \<Rightarrow>
                    if \<not> linkedClientHasScope client storePublishScope
                    then (w1\<lparr>w_db := d1\<rparr>, jsonError ''insufficient_scope'' 403 [])
                    else
                      (case identityRateLimitResponse env (l_accountId client) ''store:publish'' maxPublishesPerHour (60 * 60 * 1000)
                              (w1\<lparr>w_db := d1\<rparr>) of
                         (w2, Some r) \<Rightarrow> (w2, r)
                       | (w2, None) \<Rightarrow> in_db (backend_publish x se env rq client) w2))))"

section \<open>Reading a scene\<close>

text \<open>\<open>timingSafeEqual\<close> on texts of equal length; an absent or empty token grants nothing.\<close>

definition shareTokenGrantsAccess :: "string \<Rightarrow> string option \<Rightarrow> bool" where
  "shareTokenGrantsAccess sceneShareToken provided \<longleftrightarrow>
     sceneShareToken \<noteq> [] \<and> (case provided of None \<Rightarrow> False | Some p \<Rightarrow> p \<noteq> [] \<and> p = sceneShareToken)"

definition canAccessPrivateScene :: "ext \<Rightarrow> web_env \<Rightarrow> web_request \<Rightarrow> uuid \<Rightarrow> db \<Rightarrow> db \<times> bool" where
  "canAccessPrivateScene x env rq ownerAccountId d =
     (if Option.bind (readSession x env rq d) session_account = Some ownerAccountId then (d, True)
      else
        (let (d1, client) = authenticateLinkedClient x (rq_authorization rq) (we_now env) d
         in (d1, case client of None \<Rightarrow> False
              | Some l \<Rightarrow> l_accountId l = ownerAccountId \<and> linkedClientHasScope l storePublishScope)))"

text \<open>The scene a reader may read, or the refusal.\<close>

definition readable_scene ::
  "ext \<Rightarrow> web_env \<Rightarrow> web_request \<Rightarrow> string \<Rightarrow> db \<Rightarrow> db \<times> (http_response + store_scene)" where
  "readable_scene x env rq sceneId d =
     (case (if is_frame_id_text sceneId then select_one (\<lambda>s. ss_id s = js_lower sceneId) (storeScenes d) else None) of
        None \<Rightarrow> (d, Inl (jsonError ''scene_not_found'' 404 []))
      | Some s \<Rightarrow>
          if ss_status s = ''pulled'' then (d, Inl (jsonError ''scene_pulled'' 410 []))
          else if is_public s \<or> shareTokenGrantsAccess (ss_shareToken s) (map_of (rq_query rq) ''share'') then (d, Inr s)
          else (let (d1, allowed) = canAccessPrivateScene x env rq (ss_accountId s) d
                in (d1, if allowed then Inr s else Inl (jsonError ''scene_not_found'' 404 []))))"

text \<open>\<open>None\<close> is an invalid version, \<open>Some None\<close> no version asked for.\<close>

definition versionParam :: "web_request \<Rightarrow> int option option" where
  "versionParam rq =
     (case map_of (rq_query rq) ''version'' of
        None \<Rightarrow> Some None
      | Some raw \<Rightarrow> if raw = [] then Some None else (case positive_integer raw of None \<Rightarrow> None | Some n \<Rightarrow> Some (Some n)))"

definition requested_scene_version :: "uuid \<Rightarrow> int option \<Rightarrow> db \<Rightarrow> scene_version option" where
  "requested_scene_version sceneId requested d =
     (case requested of
        None \<Rightarrow> latest_unyanked sceneId d
      | Some n \<Rightarrow> select_one (\<lambda>v. sv_sceneId v = sceneId \<and> sv_version v = n) (sceneVersions d))"

text \<open>The download counter is raised without waiting; here the increment is not lost.\<close>

definition count_download :: "uuid \<Rightarrow> db \<Rightarrow> db" where
  "count_download sceneId = update_scene sceneId (\<lambda>s. s\<lparr>ss_downloadCount := ss_downloadCount s + 1\<rparr>)"

definition downloadDisposition :: "store_scene \<Rightarrow> scene_version \<Rightarrow> string" where
  "downloadDisposition s v =
     ''attachment; filename='' @ [CHR 0x22] @ ss_slug s @ ''-v'' @ dec_text (sv_version v) @ ''.zip'' @ [CHR 0x22]"

definition download_scene :: "ext \<Rightarrow> web_env \<Rightarrow> string \<Rightarrow> web_request \<Rightarrow> db \<Rightarrow> db \<times> reply" where
  "download_scene x env sceneId rq d =
     (case readable_scene x env rq sceneId d of
        (d1, Inl r) \<Rightarrow> (d1, Json r)
      | (d1, Inr s) \<Rightarrow>
          (case versionParam rq of
             None \<Rightarrow> (d1, Json (jsonError ''invalid_version'' 400 []))
           | Some requested \<Rightarrow>
               if (case requested of Some n \<Rightarrow> n > max_int4 | None \<Rightarrow> False) then (d1, Json server_error)
               else
                 (case requested_scene_version (ss_id s) requested d1 of
                    None \<Rightarrow> (d1, Json (jsonError ''version_not_found'' 404 []))
                  | Some v \<Rightarrow> (count_download (ss_id s) d1, Bytes (sv_content v) (sv_contentType v) (Some (downloadDisposition s v))))))"

text \<open>The text of the scenes file, when it parses to an array.\<close>

definition scenes_text :: "ext \<Rightarrow> bytes \<Rightarrow> string option" where
  "scenes_text x content =
     (case unzip_files x (named_file ''scenes.json'') content of
        None \<Rightarrow> None
      | Some files \<Rightarrow>
          (case js_sort (by_depth x) (map fst files) of
             [] \<Rightarrow> None
           | path # _ \<Rightarrow>
               (case map_of files path of
                  None \<Rightarrow> None
                | Some data \<Rightarrow> if array_of (json_parse (utf8_decode data)) = None then None else Some (utf8_decode data))))"

definition scenes_json :: "ext \<Rightarrow> web_env \<Rightarrow> string \<Rightarrow> web_request \<Rightarrow> db \<Rightarrow> db \<times> reply" where
  "scenes_json x env sceneId rq d =
     (case readable_scene x env rq sceneId d of
        (d1, Inl r) \<Rightarrow> (d1, Json r)
      | (d1, Inr s) \<Rightarrow>
          (case latest_unyanked (ss_id s) d1 of
             None \<Rightarrow> (d1, Json (jsonError ''version_not_found'' 404 []))
           | Some v \<Rightarrow>
               (case scenes_text x (sv_content v) of
                  None \<Rightarrow> (d1, Json (jsonError ''invalid_scene_zip'' 500 []))
                | Some text \<Rightarrow> (d1, Bytes (utf8_encode text) ''application/json'' None))))"

definition store_read_route ::
  "web_env \<Rightarrow> web_request \<Rightarrow> string \<Rightarrow> int \<Rightarrow> (db \<Rightarrow> db \<times> reply) \<Rightarrow> world \<Rightarrow> world \<times> reply" where
  "store_read_route env rq action limit body w =
     (case rateLimitResponse env rq action limit (15 * 60 * 1000) w of
        (w1, Some r) \<Rightarrow> (w1, Json r)
      | (w1, None) \<Rightarrow>
          (case requireDatabase env of
             Some r \<Rightarrow> (w1, Json r)
           | None \<Rightarrow> (let (d, r) = body (w_db w1) in (w1\<lparr>w_db := d\<rparr>, r))))"

definition download_route :: "ext \<Rightarrow> web_env \<Rightarrow> string \<Rightarrow> web_request \<Rightarrow> world \<Rightarrow> world \<times> reply" where
  "download_route x env sceneId rq = store_read_route env rq ''store:download'' 600 (download_scene x env sceneId rq)"

definition scenes_json_route :: "ext \<Rightarrow> web_env \<Rightarrow> string \<Rightarrow> web_request \<Rightarrow> world \<Rightarrow> world \<times> reply" where
  "scenes_json_route x env sceneId rq = store_read_route env rq ''store:scenes-json'' 240 (scenes_json x env sceneId rq)"

section \<open>The public listing\<close>

definition storeRepositoryLimit :: nat where "storeRepositoryLimit = 500"

text \<open>\<open>ilike\<close> of a pattern whose wild cards are escaped and that is put between two per cent signs.\<close>

definition ilike_contains :: "string \<Rightarrow> string option \<Rightarrow> bool" where
  "ilike_contains q column = (case column of None \<Rightarrow> False | Some c \<Rightarrow> has_substring (js_lower q) (js_lower c))"

definition listed :: "store_scene \<Rightarrow> bool" where
  "listed s \<longleftrightarrow> is_public s \<and> ss_status s = ''active'' \<and> ss_latestVersion s > 0"

definition storeBrowseConditions :: "browse_filters \<Rightarrow> store_scene \<times> account \<Rightarrow> bool" where
  "storeBrowseConditions filters = (\<lambda>(s, a).
     listed s
     \<and> (bf_query filters = [] \<or> ilike_contains (bf_query filters) (Some (ss_name s))
        \<or> ilike_contains (bf_query filters) (ss_description s) \<or> ilike_contains (bf_query filters) (a_displayName a)
        \<or> ilike_contains (bf_query filters) (Some (js_join '' '' (ss_tags s))))
     \<and> (bf_tag filters = [] \<or> bf_tag filters \<in> set (ss_tags s))
     \<and> (bf_category filters = [] \<or> ss_category s = Some (bf_category filters))
     \<and> (bf_version filters = [] \<or> frameosVersionSatisfiesSql (ss_frameosVersion s) (bf_version filters)))"

text \<open>\<open>featuredAt desc nulls last, downloadCount desc, updatedAt desc\<close>, as an ascending key.\<close>

definition shelf_order :: "store_scene \<Rightarrow> (bool \<times> int) \<times> int \<times> int" where
  "shelf_order s =
     ((case ss_featuredAt s of None \<Rightarrow> (True, 0) | Some t \<Rightarrow> (False, - t)), - ss_downloadCount s, - ss_updatedAt s)"

definition listStoreScenes :: "browse_filters \<Rightarrow> int \<Rightarrow> db \<Rightarrow> (store_scene \<times> account) list" where
  "listStoreScenes filters page d =
     take storePageSize (drop (nat (page - 1) * storePageSize)
       (select_asc (\<lambda>(s, a). shelf_order s) (\<lambda>(s, a). a_id a = ss_accountId s \<and> storeBrowseConditions filters (s, a))
         (List.product (storeScenes d) (accounts d))))"

definition countStoreScenes :: "browse_filters \<Rightarrow> db \<Rightarrow> nat" where
  "countStoreScenes filters d =
     length (filter (\<lambda>(s, a). a_id a = ss_accountId s \<and> storeBrowseConditions filters (s, a))
       (List.product (storeScenes d) (accounts d)))"

definition serializeStoreScene :: "store_scene \<times> account \<Rightarrow> json" where
  "serializeStoreScene = (\<lambda>(s, a).
     JObj [(''category'', json_of_str (ss_category s)), (''description'', json_of_str (ss_description s)),
           (''downloadCount'', num_of_int (ss_downloadCount s)), (''frameosVersion'', json_of_str (ss_frameosVersion s)),
           (''hasPreview'', JBool (ss_previewImage s \<noteq> None)), (''id'', JStr (ss_id s)), (''name'', JStr (ss_name s)),
           (''publisher'', json_of_str (a_displayName a)), (''riskFlags'', JArr (map JStr (ss_riskFlags s))),
           (''slug'', JStr (ss_slug s)), (''tags'', JArr (map JStr (ss_tags s))),
           (''updatedAt'', JStr (iso_text (ss_updatedAt s)))])"

definition browse_store :: "web_request \<Rightarrow> db \<Rightarrow> db \<times> reply" where
  "browse_store rq d =
     (let filters = parseStoreBrowseFilters (browse_params_of (rq_query rq));
          page = parseStorePage (map_of (rq_query rq) ''page'');
          rows = listStoreScenes filters page d
      in (d, Json (jsonOk [(''hasMore'', JBool (length rows = storePageSize)), (''page'', num_of_int page),
                           (''scenes'', JArr (map serializeStoreScene rows))])))"

definition browse_route :: "web_env \<Rightarrow> web_request \<Rightarrow> world \<Rightarrow> world \<times> reply" where
  "browse_route env rq = store_read_route env rq ''store:browse'' 600 (browse_store rq)"

end
