(* ===== verification/StoreInvariant.thy ===== *)
theory StoreInvariant imports StoreLibrary begin

text \<open>
  What the store keeps true.  \<open>scene_move\<close> is the step relation of the store tables: every handler of the
  store is a sequence of such moves for one account.  The invariant \<open>store_inv\<close> types the rows, keeps the
  keys apart and ties each scene to its versions.
\<close>

section \<open>The invariant\<close>

definition listing_typed :: "store_scene \<Rightarrow> bool" where
  "listing_typed s \<longleftrightarrow>
     tags_ok (ss_tags s)
     \<and> (case ss_category s of None \<Rightarrow> True | Some c \<Rightarrow> c \<in> set (map fst storeCategories))
     \<and> ss_visibility s \<in> set sceneVisibilities
     \<and> ss_name s \<noteq> [] \<and> length (ss_name s) \<le> 128
     \<and> (case ss_description s of None \<Rightarrow> True | Some t \<Rightarrow> length t \<le> 2000)
     \<and> (case ss_frameosVersion s of None \<Rightarrow> True | Some v \<Rightarrow> version_token v)
     \<and> set (ss_riskFlags s) \<subseteq> {riskFlagShell}"

definition version_sound :: "ext \<Rightarrow> scene_version \<Rightarrow> bool" where
  "version_sound x v \<longleftrightarrow>
     sv_sizeBytes v = length (sv_content v) \<and> length (sv_content v) \<le> maxSceneZipBytes
     \<and> sv_sha256 v = sha256_hex x (sv_content v)
     \<and> (case sv_frameosVersion v of None \<Rightarrow> True | Some t \<Rightarrow> version_token t)
     \<and> (case validateSceneZip x (sv_content v) of Inr z \<Rightarrow> sv_riskFlags v = vz_riskFlags z | Inl _ \<Rightarrow> False)"

definition scene_names :: "db \<Rightarrow> (uuid \<times> string) list" where
  "scene_names d = map (\<lambda>s. (ss_accountId s, js_lower (ss_name s))) (storeScenes d)"

definition has_latest :: "db \<Rightarrow> store_scene \<Rightarrow> bool" where
  "has_latest d s \<longleftrightarrow>
     (\<exists>v\<in>set (sceneVersions d). sv_sceneId v = ss_id s \<and> sv_version v = ss_latestVersion s \<and> sv_riskFlags v = ss_riskFlags s)
     \<and> (\<exists>v\<in>set (sceneVersions d). sv_sceneId v = ss_id s \<and> sv_yankedAt v = None)"

definition in_window :: "db \<Rightarrow> scene_version \<Rightarrow> bool" where
  "in_window d v \<longleftrightarrow>
     (\<exists>s\<in>set (storeScenes d). ss_id s = sv_sceneId v \<and> 1 \<le> sv_version v \<and> sv_version v \<le> ss_latestVersion s
        \<and> ss_latestVersion s - maxVersionsPerScene < sv_version v)"

definition store_inv :: "ext \<Rightarrow> db \<Rightarrow> bool" where
  "store_inv x d \<longleftrightarrow>
     distinct (map ss_id (storeScenes d)) \<and> distinct (map ss_slug (storeScenes d)) \<and> distinct (scene_names d)
     \<and> distinct (map (\<lambda>v. (sv_sceneId v, sv_version v)) (sceneVersions d))
     \<and> (\<forall>s\<in>set (storeScenes d). listing_typed s \<and> 0 \<le> ss_latestVersion s \<and> (0 < ss_latestVersion s \<longrightarrow> has_latest d s))
     \<and> (\<forall>v\<in>set (sceneVersions d). version_sound x v \<and> in_window d v)"

section \<open>The moves\<close>

text \<open>The id \<open>fid\<close> is the one the database draws for a scene that is created.\<close>

text \<open>What an edit of the listing leaves of a row.\<close>

definition same_identity :: "store_scene \<Rightarrow> store_scene \<Rightarrow> bool" where
  "same_identity s s' \<longleftrightarrow>
     ss_id s' = ss_id s \<and> ss_accountId s' = ss_accountId s \<and> ss_slug s' = ss_slug s \<and> ss_shareToken s' = ss_shareToken s
     \<and> ss_status s' = ss_status s \<and> ss_createdAt s' = ss_createdAt s"

definition name_free :: "db \<Rightarrow> store_scene \<Rightarrow> string \<Rightarrow> bool" where
  "name_free d s n \<longleftrightarrow>
     js_lower n = js_lower (ss_name s)
     \<or> (\<forall>r\<in>set (storeScenes d). ss_accountId r = ss_accountId s \<longrightarrow> ss_id r \<noteq> ss_id s \<longrightarrow> js_lower (ss_name r) \<noteq> js_lower n)"

definition foreign_images_kept :: "uuid \<Rightarrow> db \<Rightarrow> db \<Rightarrow> bool" where
  "foreign_images_kept acc d d' \<longleftrightarrow>
     (\<forall>s\<in>set (storeScenes d). ss_accountId s \<noteq> acc \<longrightarrow>
        filter (\<lambda>i. si_sceneId i = ss_id s) (sceneImages d') = filter (\<lambda>i. si_sceneId i = ss_id s) (sceneImages d))"

inductive scene_move :: "ext \<Rightarrow> uuid \<Rightarrow> uuid \<Rightarrow> db \<Rightarrow> db \<Rightarrow> bool" for x acc fid where
  same: "storeScenes d' = storeScenes d \<Longrightarrow> sceneVersions d' = sceneVersions d \<Longrightarrow> foreign_images_kept acc d d' \<Longrightarrow>
    scene_move x acc fid d d'"
| counted: "s \<in> set (storeScenes d) \<Longrightarrow> storeScenes d' = storeScenes (count_download (ss_id s) d) \<Longrightarrow>
    sceneVersions d' = sceneVersions d \<Longrightarrow> sceneImages d' = sceneImages d \<Longrightarrow> scene_move x acc fid d d'"
| edited: "s \<in> set (storeScenes d) \<Longrightarrow> ss_accountId s = acc \<Longrightarrow>
    storeScenes d' = update_where (\<lambda>r. ss_id r = ss_id s) f (storeScenes d) \<Longrightarrow> same_identity s (f s) \<Longrightarrow>
    ss_latestVersion (f s) = ss_latestVersion s \<Longrightarrow> ss_riskFlags (f s) = ss_riskFlags s \<Longrightarrow> ss_name (f s) = ss_name s \<Longrightarrow>
    listing_typed (f s) \<Longrightarrow> sceneVersions d' = sceneVersions d \<Longrightarrow> foreign_images_kept acc d d' \<Longrightarrow> scene_move x acc fid d d'"
| published: "s \<in> set (storeScenes d) \<Longrightarrow> ss_accountId s = acc \<Longrightarrow>
    storeScenes d' = update_where (\<lambda>r. ss_id r = ss_id s) f (storeScenes d) \<Longrightarrow> same_identity s (f s) \<Longrightarrow>
    ss_latestVersion (f s) = ss_latestVersion s + 1 \<Longrightarrow> ss_riskFlags (f s) = sv_riskFlags v \<Longrightarrow> name_free d s (ss_name (f s)) \<Longrightarrow>
    listing_typed (f s) \<Longrightarrow> version_sound x v \<Longrightarrow> sv_sceneId v = ss_id s \<Longrightarrow> sv_version v = ss_latestVersion s + 1 \<Longrightarrow>
    sv_yankedAt v = None \<Longrightarrow>
    sceneVersions d' = delete_where (\<lambda>u. sv_sceneId u = ss_id s \<and> sv_version u < ss_latestVersion s + 1 - maxVersionsPerScene + 1)
      (sceneVersions d @ [v]) \<Longrightarrow> foreign_images_kept acc d d' \<Longrightarrow> scene_move x acc fid d d'"
| created: "storeScenes d' = storeScenes d @ [s] \<Longrightarrow> ss_accountId s = acc \<Longrightarrow> ss_id s = fid \<Longrightarrow> ss_id s \<notin> ss_id ` set (storeScenes d) \<Longrightarrow>
    ss_slug s \<notin> ss_slug ` set (storeScenes d) \<Longrightarrow>
    (\<And>r. r \<in> set (storeScenes d) \<Longrightarrow> ss_accountId r = acc \<Longrightarrow> js_lower (ss_name r) \<noteq> js_lower (ss_name s)) \<Longrightarrow>
    listing_typed s \<Longrightarrow> ss_latestVersion s = 1 \<Longrightarrow> ss_riskFlags s = sv_riskFlags v \<Longrightarrow> version_sound x v \<Longrightarrow>
    sv_sceneId v = ss_id s \<Longrightarrow> sv_version v = 1 \<Longrightarrow> sv_yankedAt v = None \<Longrightarrow> sceneVersions d' = sceneVersions d @ [v] \<Longrightarrow>
    foreign_images_kept acc d d' \<Longrightarrow> scene_move x acc fid d d'"
| yanked: "s \<in> set (storeScenes d) \<Longrightarrow> ss_accountId s = acc \<Longrightarrow> storeScenes d' = storeScenes d \<Longrightarrow>
    sceneVersions d' = sceneVersions (set_yanked (ss_id s) n t d) \<Longrightarrow>
    (t = None \<or> (\<exists>v\<in>set (sceneVersions d). sv_sceneId v = ss_id s \<and> sv_yankedAt v = None \<and> sv_version v \<noteq> n)) \<Longrightarrow>
    sceneImages d' = sceneImages d \<Longrightarrow> scene_move x acc fid d d'"
| removed: "s \<in> set (storeScenes d) \<Longrightarrow> ss_accountId s = acc \<Longrightarrow> storeScenes d' = storeScenes (delete_scene_rows (ss_id s) d) \<Longrightarrow>
    sceneVersions d' = sceneVersions (delete_scene_rows (ss_id s) d) \<Longrightarrow> foreign_images_kept acc d d' \<Longrightarrow> scene_move x acc fid d d'"

inductive_cases scene_moveE: "scene_move x acc fid d d'"

section \<open>Moves keep the invariant\<close>

lemma keyed_split:
  assumes "distinct (map ss_id rows)" and "s \<in> set rows"
  obtains xs ys where "rows = xs @ s # ys" "update_where (\<lambda>r. ss_id r = ss_id s) f rows = xs @ f s # ys"
    "\<And>r. r \<in> set xs \<union> set ys \<Longrightarrow> ss_id r \<noteq> ss_id s"
proof -
  obtain xs ys where r: "rows = xs @ s # ys" using assms(2) by (metis split_list)
  with assms(1) have n: "ss_id r \<noteq> ss_id s" if "r \<in> set xs \<union> set ys" for r
    using that by (auto simp: image_iff)
  then have "update_where (\<lambda>r. ss_id r = ss_id s) f rows = xs @ f s # ys"
    by (auto simp: r update_where_def intro!: map_idI)
  with r n show thesis using that by blast
qed

lemma inv_unique:
  "store_inv x d \<Longrightarrow> s \<in> set (storeScenes d) \<Longrightarrow> r \<in> set (storeScenes d) \<Longrightarrow> ss_id r = ss_id s \<Longrightarrow> r = s"
  by (auto simp: store_inv_def distinct_map dest: inj_onD)

lemma inv_window:
  assumes "store_inv x d" and "v \<in> set (sceneVersions d)" and "s \<in> set (storeScenes d)" and "sv_sceneId v = ss_id s"
  shows "1 \<le> sv_version v \<and> sv_version v \<le> ss_latestVersion s \<and> ss_latestVersion s - maxVersionsPerScene < sv_version v"
proof -
  obtain r where "r \<in> set (storeScenes d)" "ss_id r = sv_sceneId v" "1 \<le> sv_version v" "sv_version v \<le> ss_latestVersion r"
    "ss_latestVersion r - maxVersionsPerScene < sv_version v"
    using assms(1,2) by (auto simp: store_inv_def in_window_def)
  with inv_unique [OF assms(1,3)] assms(4) show ?thesis by auto
qed

text \<open>Replacing one row: keys stay apart when the new row keeps its keys or takes free ones.\<close>

lemma replaced_rows:
  assumes inv: "store_inv x d" and s: "s \<in> set (storeScenes d)"
    and upd: "storeScenes d' = update_where (\<lambda>r. ss_id r = ss_id s) f (storeScenes d)"
    and same: "same_identity s (f s)" and name: "name_free d s (ss_name (f s))"
  shows "distinct (map ss_id (storeScenes d')) \<and> distinct (map ss_slug (storeScenes d')) \<and> distinct (scene_names d')"
    and "r \<in> set (storeScenes d') \<Longrightarrow> r = f s \<or> (r \<in> set (storeScenes d) \<and> ss_id r \<noteq> ss_id s)"
    and "r \<in> set (storeScenes d) \<Longrightarrow> ss_id r \<noteq> ss_id s \<Longrightarrow> r \<in> set (storeScenes d')"
    and "f s \<in> set (storeScenes d')"
proof -
  have ids: "distinct (map ss_id (storeScenes d))" using inv by (simp add: store_inv_def)
  obtain xs ys where rows: "storeScenes d = xs @ s # ys" "storeScenes d' = xs @ f s # ys"
    and n: "\<And>r. r \<in> set xs \<union> set ys \<Longrightarrow> ss_id r \<noteq> ss_id s"
    using keyed_split [OF ids s, of f] upd by metis
  have keys: "ss_id (f s) = ss_id s" "ss_slug (f s) = ss_slug s" "ss_accountId (f s) = ss_accountId s"
    using same by (simp_all add: same_identity_def)
  let ?k = "\<lambda>s. (ss_accountId s, js_lower (ss_name s))"
  have "?k r \<noteq> ?k (f s)" if "r \<in> set xs \<union> set ys" for r
  proof (cases "js_lower (ss_name (f s)) = js_lower (ss_name s)")
    case True
    have "distinct (map ?k (xs @ s # ys))" using inv rows(1) by (simp add: store_inv_def scene_names_def)
    then have "?k r \<noteq> ?k s" using that by (auto simp: image_iff)
    then show ?thesis using True keys by simp
  next
    case False
    then have "ss_accountId r = ss_accountId s \<Longrightarrow> js_lower (ss_name r) \<noteq> js_lower (ss_name (f s))"
      using name n [OF that] that rows(1) by (auto simp: name_free_def)
    then show ?thesis using keys by auto
  qed
  then have nk: "?k (f s) \<notin> set (map ?k xs) \<union> set (map ?k ys)" by (auto simp: image_iff) metis+
  have swap: "distinct (us @ a # vs) \<Longrightarrow> b \<notin> set us \<union> set vs \<Longrightarrow> distinct (us @ b # vs)" for us vs and a b :: "uuid \<times> string"
    by auto
  have "distinct (map ?k xs @ ?k s # map ?k ys)" using inv rows(1) by (simp add: store_inv_def scene_names_def)
  from swap [OF this nk] have "distinct (scene_names d')" using rows(2) by (simp add: scene_names_def)
  moreover have "map ss_id (storeScenes d') = map ss_id (storeScenes d)" "map ss_slug (storeScenes d') = map ss_slug (storeScenes d)"
    using rows keys by simp_all
  ultimately show "distinct (map ss_id (storeScenes d')) \<and> distinct (map ss_slug (storeScenes d')) \<and> distinct (scene_names d')"
    using inv by (simp add: store_inv_def)
  show "r \<in> set (storeScenes d') \<Longrightarrow> r = f s \<or> (r \<in> set (storeScenes d) \<and> ss_id r \<noteq> ss_id s)"
    using rows n by auto
  show "r \<in> set (storeScenes d) \<Longrightarrow> ss_id r \<noteq> ss_id s \<Longrightarrow> r \<in> set (storeScenes d')" using rows by auto
  show "f s \<in> set (storeScenes d')" using rows by simp
qed

lemma same_rows_inv:
  "store_inv x d \<Longrightarrow> storeScenes d' = storeScenes d \<Longrightarrow> sceneVersions d' = sceneVersions d \<Longrightarrow> store_inv x d'"
  by (simp add: store_inv_def scene_names_def has_latest_def in_window_def)

lemma edited_inv:
  assumes inv: "store_inv x d" and s: "s \<in> set (storeScenes d)"
    and upd: "storeScenes d' = update_where (\<lambda>r. ss_id r = ss_id s) f (storeScenes d)"
    and same: "same_identity s (f s)" and f: "ss_latestVersion (f s) = ss_latestVersion s" "ss_riskFlags (f s) = ss_riskFlags s"
      "ss_name (f s) = ss_name s" "listing_typed (f s)"
    and v: "sceneVersions d' = sceneVersions d"
  shows "store_inv x d'"
proof -
  have nf: "name_free d s (ss_name (f s))" using f by (simp add: name_free_def)
  note rows = replaced_rows [OF inv s upd same nf]
  have id: "ss_id (f s) = ss_id s" using same by (simp add: same_identity_def)
  have "has_latest d' (f s) = has_latest d s" by (simp add: has_latest_def v f id)
  moreover have "has_latest d' r = has_latest d r" for r by (simp add: has_latest_def v)
  ultimately have "listing_typed r \<and> 0 \<le> ss_latestVersion r \<and> (0 < ss_latestVersion r \<longrightarrow> has_latest d' r)"
    if "r \<in> set (storeScenes d')" for r
    using rows(2) [OF that] inv s f by (auto simp: store_inv_def)
  moreover have "in_window d' u" if u: "u \<in> set (sceneVersions d)" for u
  proof -
    obtain r where r: "r \<in> set (storeScenes d)" "ss_id r = sv_sceneId u" using inv u by (auto simp: store_inv_def in_window_def)
    note w = inv_window [OF inv u r(1) r(2) [symmetric]]
    show ?thesis
    proof (cases "ss_id r = ss_id s")
      case True
      then have "r = s" using inv_unique [OF inv s r(1)] by simp
      then show ?thesis using rows(4) w r f id by (auto simp: in_window_def intro!: bexI [of _ "f s"])
    next
      case False
      then show ?thesis using rows(3) [OF r(1)] w r by (auto simp: in_window_def)
    qed
  qed
  ultimately show ?thesis using rows(1) inv v by (simp add: store_inv_def)
qed

lemma published_inv:
  assumes inv: "store_inv x d" and s: "s \<in> set (storeScenes d)"
    and upd: "storeScenes d' = update_where (\<lambda>r. ss_id r = ss_id s) f (storeScenes d)"
    and same: "same_identity s (f s)" and nf: "name_free d s (ss_name (f s))"
    and f: "ss_latestVersion (f s) = ss_latestVersion s + 1" "ss_riskFlags (f s) = sv_riskFlags v" "listing_typed (f s)"
    and v: "version_sound x v" "sv_sceneId v = ss_id s" "sv_version v = ss_latestVersion s + 1" "sv_yankedAt v = None"
    and d': "sceneVersions d' = delete_where (\<lambda>u. sv_sceneId u = ss_id s
      \<and> sv_version u < ss_latestVersion s + 1 - maxVersionsPerScene + 1) (sceneVersions d @ [v])"
  shows "store_inv x d'"
proof -
  note rows = replaced_rows [OF inv s upd same nf]
  have id: "ss_id (f s) = ss_id s" using same by (simp add: same_identity_def)
  have nonneg: "0 \<le> ss_latestVersion s" using inv s by (simp add: store_inv_def)
  have vin: "v \<in> set (sceneVersions d')" using v by (simp add: d' maxVersionsPerScene_def)
  have others: "{u \<in> set (sceneVersions d'). sv_sceneId u = ss_id r} = {u \<in> set (sceneVersions d). sv_sceneId u = ss_id r}"
    if "ss_id r \<noteq> ss_id s" for r
    using that v by (auto simp: d')
  have "listing_typed r \<and> 0 \<le> ss_latestVersion r \<and> (0 < ss_latestVersion r \<longrightarrow> has_latest d' r)"
    if r: "r \<in> set (storeScenes d')" for r
  proof (cases "r = f s")
    case True
    then show ?thesis using f nonneg vin v id by (auto simp: has_latest_def)
  next
    case False
    with rows(2) [OF r] have old: "r \<in> set (storeScenes d)" "ss_id r \<noteq> ss_id s" by auto
    have "has_latest d' r = has_latest d r" using others [OF old(2)] by (auto simp: has_latest_def)
    then show ?thesis using inv old by (simp add: store_inv_def)
  qed
  moreover have "version_sound x u \<and> in_window d' u" if u: "u \<in> set (sceneVersions d')" for u
  proof (cases "u = v")
    case True
    then show ?thesis using v f nonneg rows(4) id
      by (auto simp: in_window_def maxVersionsPerScene_def intro!: bexI [of _ "f s"])
  next
    case False
    then have old: "u \<in> set (sceneVersions d)"
      and keep: "sv_sceneId u = ss_id s \<Longrightarrow> ss_latestVersion s + 1 - maxVersionsPerScene + 1 \<le> sv_version u"
      using u by (auto simp: d')
    obtain r where r: "r \<in> set (storeScenes d)" "ss_id r = sv_sceneId u" using inv old by (auto simp: store_inv_def in_window_def)
    note w = inv_window [OF inv old r(1) r(2) [symmetric]]
    have "in_window d' u"
    proof (cases "ss_id r = ss_id s")
      case True
      then have "r = s" using inv_unique [OF inv s r(1)] by simp
      then show ?thesis using rows(4) w r f id keep by (auto simp: in_window_def intro!: bexI [of _ "f s"])
    next
      case False
      then show ?thesis using rows(3) [OF r(1)] w r by (auto simp: in_window_def)
    qed
    then show ?thesis using inv old by (simp add: store_inv_def)
  qed
  moreover have "distinct (map (\<lambda>v. (sv_sceneId v, sv_version v)) (sceneVersions d'))"
  proof -
    have "(sv_sceneId v, sv_version v) \<notin> (\<lambda>v. (sv_sceneId v, sv_version v)) ` set (sceneVersions d)"
      using inv_window [OF inv _ s] v by force
    then have "distinct (map (\<lambda>v. (sv_sceneId v, sv_version v)) (sceneVersions d @ [v]))"
      using inv by (auto simp: store_inv_def)
    then show ?thesis unfolding d' by (rule map_delete_where_distinct)
  qed
  ultimately show ?thesis using rows(1) by (simp add: store_inv_def)
qed

lemma created_inv:
  assumes inv: "store_inv x d" and d': "storeScenes d' = storeScenes d @ [s]" "sceneVersions d' = sceneVersions d @ [v]"
    and s: "ss_id s \<notin> ss_id ` set (storeScenes d)" "ss_slug s \<notin> ss_slug ` set (storeScenes d)"
      "\<And>r. r \<in> set (storeScenes d) \<Longrightarrow> ss_accountId r = ss_accountId s \<Longrightarrow> js_lower (ss_name r) \<noteq> js_lower (ss_name s)"
      "listing_typed s" "ss_latestVersion s = 1" "ss_riskFlags s = sv_riskFlags v"
    and v: "version_sound x v" "sv_sceneId v = ss_id s" "sv_version v = 1" "sv_yankedAt v = None"
  shows "store_inv x d'"
proof -
  have old: "sv_sceneId u \<noteq> ss_id s" if u: "u \<in> set (sceneVersions d)" for u
  proof -
    obtain r where "r \<in> set (storeScenes d)" "ss_id r = sv_sceneId u" using inv u by (auto simp: store_inv_def in_window_def)
    then show ?thesis using s(1) by (auto simp: image_iff)
  qed
  have "distinct (map ss_id (storeScenes d'))" "distinct (map ss_slug (storeScenes d'))"
    using inv s d' by (auto simp: store_inv_def)
  moreover have "distinct (scene_names d')"
  proof -
    have "(ss_accountId s, js_lower (ss_name s)) \<notin> set (scene_names d)"
    proof
      assume "(ss_accountId s, js_lower (ss_name s)) \<in> set (scene_names d)"
      then obtain r where "r \<in> set (storeScenes d)" "ss_accountId r = ss_accountId s" "js_lower (ss_name r) = js_lower (ss_name s)"
        by (auto simp: scene_names_def)
      with s(3) [of r] show False by simp
    qed
    then show ?thesis using inv d' by (auto simp: store_inv_def scene_names_def)
  qed
  moreover have "distinct (map (\<lambda>v. (sv_sceneId v, sv_version v)) (sceneVersions d'))"
  proof -
    have "(sv_sceneId v, sv_version v) \<notin> (\<lambda>v. (sv_sceneId v, sv_version v)) ` set (sceneVersions d)"
      by (auto simp: v(2) dest: old)
    then show ?thesis using inv d' by (auto simp: store_inv_def)
  qed
  moreover have "listing_typed r \<and> 0 \<le> ss_latestVersion r \<and> (0 < ss_latestVersion r \<longrightarrow> has_latest d' r)"
    if "r \<in> set (storeScenes d')" for r
  proof (cases "r = s")
    case True
    then show ?thesis using s v d' by (auto simp: has_latest_def)
  next
    case False
    then have r: "r \<in> set (storeScenes d)" using that d' by auto
    have "has_latest d r \<Longrightarrow> has_latest d' r" by (auto simp: has_latest_def d')
    then show ?thesis using inv r by (auto simp: store_inv_def)
  qed
  moreover have "version_sound x u \<and> in_window d' u" if "u \<in> set (sceneVersions d')" for u
  proof (cases "u = v")
    case True
    then show ?thesis using v s d' by (auto simp: in_window_def maxVersionsPerScene_def)
  next
    case False
    then have u: "u \<in> set (sceneVersions d)" using that d' by auto
    have "in_window d u \<Longrightarrow> in_window d' u" by (auto simp: in_window_def d')
    then show ?thesis using inv u by (auto simp: store_inv_def)
  qed
  ultimately show ?thesis by (simp add: store_inv_def)
qed

lemma yanked_inv:
  assumes inv: "store_inv x d" and d': "storeScenes d' = storeScenes d" "sceneVersions d' = sceneVersions (set_yanked sid n t d)"
    and alive: "t = None \<or> (\<exists>v\<in>set (sceneVersions d). sv_sceneId v = sid \<and> sv_yankedAt v = None \<and> sv_version v \<noteq> n)"
  shows "store_inv x d'"
proof -
  let ?y = "\<lambda>v. if sv_sceneId v = sid \<and> sv_version v = n then v\<lparr>sv_yankedAt := t\<rparr> else v"
  have vs: "sceneVersions d' = map ?y (sceneVersions d)" by (simp add: d' set_yanked_def update_where_def)
  have keys: "sv_sceneId (?y v) = sv_sceneId v" "sv_version (?y v) = sv_version v" "sv_riskFlags (?y v) = sv_riskFlags v" for v
    by simp_all
  have "distinct (map (\<lambda>v. (sv_sceneId v, sv_version v)) (sceneVersions d'))"
  proof -
    have "map (\<lambda>v. (sv_sceneId v, sv_version v)) (sceneVersions d') = map (\<lambda>v. (sv_sceneId v, sv_version v)) (sceneVersions d)"
      by (simp add: vs)
    then show ?thesis using inv by (simp add: store_inv_def)
  qed
  moreover have "has_latest d' r" if h: "has_latest d r" for r
  proof -
    from h obtain v where v: "v \<in> set (sceneVersions d)" "sv_sceneId v = ss_id r" "sv_version v = ss_latestVersion r"
      "sv_riskFlags v = ss_riskFlags r" by (auto simp: has_latest_def)
    have "?y v \<in> set (sceneVersions d')" using v(1) by (auto simp: vs)
    moreover have "sv_sceneId (?y v) = ss_id r" "sv_version (?y v) = ss_latestVersion r" "sv_riskFlags (?y v) = ss_riskFlags r"
      using v by (simp_all add: keys)
    moreover obtain u where u: "u \<in> set (sceneVersions d')" "sv_sceneId u = ss_id r" "sv_yankedAt u = None"
    proof -
      from h obtain u where u: "u \<in> set (sceneVersions d)" "sv_sceneId u = ss_id r" "sv_yankedAt u = None"
        by (auto simp: has_latest_def)
      show thesis
      proof (cases "sid = ss_id r \<and> t \<noteq> None")
        case True
        with alive obtain w where w: "w \<in> set (sceneVersions d)" "sv_sceneId w = sid" "sv_yankedAt w = None" "sv_version w \<noteq> n"
          by auto
        then have "?y w = w" by simp
        then have "w \<in> set (sceneVersions d')" using w(1) by (force simp: vs)
        then show thesis by (rule that) (use w True in simp_all)
      next
        case False
        show thesis
        proof (rule that)
          show "?y u \<in> set (sceneVersions d')" using u(1) by (auto simp: vs)
          show "sv_sceneId (?y u) = ss_id r" using u(2) by simp
          show "sv_yankedAt (?y u) = None" using False u(2,3) by auto
        qed
      qed
    qed
    ultimately show ?thesis unfolding has_latest_def by blast
  qed
  moreover have "version_sound x u \<and> in_window d' u" if u': "u \<in> set (sceneVersions d')" for u
  proof -
    obtain v where v: "v \<in> set (sceneVersions d)" "u = ?y v" using u' by (auto simp: vs)
    have "version_sound x v \<and> in_window d v" using inv v by (simp add: store_inv_def)
    moreover have "version_sound x (?y v) = version_sound x v" by (simp add: version_sound_def split: sum.split)
    moreover have "in_window d' (?y v) = in_window d v" by (simp add: in_window_def d')
    ultimately show ?thesis using v by simp
  qed
  ultimately show ?thesis using inv by (simp add: store_inv_def d' scene_names_def)
qed

lemma removed_inv:
  assumes inv: "store_inv x d" and d': "storeScenes d' = storeScenes (delete_scene_rows sid d)"
    "sceneVersions d' = sceneVersions (delete_scene_rows sid d)"
  shows "store_inv x d'"
proof -
  have rows: "storeScenes d' = delete_where (\<lambda>s. ss_id s = sid) (storeScenes d)"
    "sceneVersions d' = delete_where (\<lambda>v. sv_sceneId v = sid) (sceneVersions d)"
    by (simp_all add: d' delete_scene_rows_def)
  have "has_latest d' r = has_latest d r" if "ss_id r \<noteq> sid" for r using that by (auto simp: has_latest_def rows)
  moreover have "in_window d' u" if "in_window d u" "sv_sceneId u \<noteq> sid" for u
    using that by (auto simp: in_window_def rows)
  ultimately show ?thesis using inv
    by (auto simp: store_inv_def rows scene_names_def intro: map_delete_where_distinct)
qed

lemma typed_count: "listing_typed (s\<lparr>ss_downloadCount := n\<rparr>) = listing_typed s"
  by (simp add: listing_typed_def)

lemma scene_move_inv:
  assumes "scene_move x acc fid d d'" and inv: "store_inv x d" shows "store_inv x d'"
  using assms(1)
proof (cases rule: scene_move.cases)
  case same
  then show ?thesis using same_rows_inv [OF inv] by blast
next
  case (counted s)
  then show ?thesis
    by (intro edited_inv [OF inv, of s _ "\<lambda>s. s\<lparr>ss_downloadCount := ss_downloadCount s + 1\<rparr>"])
      (use inv in \<open>auto simp: count_download_def update_scene_def same_identity_def typed_count store_inv_def\<close>)
next
  case (edited s f)
  show ?thesis by (rule edited_inv [OF inv edited(1,3-9)])
next
  case (published s f v)
  show ?thesis by (rule published_inv [OF inv published(1,3,4,7,5,6,8-13)])
next
  case (created s v)
  have "\<And>r. r \<in> set (storeScenes d) \<Longrightarrow> ss_accountId r = ss_accountId s \<Longrightarrow> js_lower (ss_name r) \<noteq> js_lower (ss_name s)"
    using created(2,6) by simp
  then show ?thesis by (rule created_inv [OF inv created(1,14,4,5) _ created(7-13)])
next
  case (yanked s n t)
  show ?thesis by (rule yanked_inv [OF inv yanked(3-5)])
next
  case (removed s)
  show ?thesis by (rule removed_inv [OF inv removed(3,4)])
qed

section \<open>Version numbers have no gaps\<close>

definition version_numbers :: "db \<Rightarrow> uuid \<Rightarrow> int set" where
  "version_numbers d sid = sv_version ` set (filter (\<lambda>v. sv_sceneId v = sid) (sceneVersions d))"

lemma in_version_numbers: "n \<in> version_numbers d sid \<longleftrightarrow> (\<exists>v. v \<in> set (sceneVersions d) \<and> sv_sceneId v = sid \<and> sv_version v = n)"
  by (auto simp: version_numbers_def)

text \<open>A scene has exactly its newest versions: all of them, or the last twenty.\<close>

definition versions_consecutive :: "db \<Rightarrow> bool" where
  "versions_consecutive d \<longleftrightarrow>
     (\<forall>s\<in>set (storeScenes d). version_numbers d (ss_id s) = {max 1 (ss_latestVersion s - maxVersionsPerScene + 1)..ss_latestVersion s})"

lemma consecutive_kept:
  assumes "versions_consecutive d" and "\<And>sid. sid \<in> ss_id ` set (storeScenes d') \<Longrightarrow> version_numbers d' sid = version_numbers d sid"
    and "\<And>r. r \<in> set (storeScenes d') \<Longrightarrow> \<exists>q\<in>set (storeScenes d). ss_id q = ss_id r \<and> ss_latestVersion q = ss_latestVersion r"
  shows "versions_consecutive d'"
  unfolding versions_consecutive_def
proof
  fix r assume r: "r \<in> set (storeScenes d')"
  obtain q where q: "q \<in> set (storeScenes d)" "ss_id q = ss_id r" "ss_latestVersion q = ss_latestVersion r" using assms(3) [OF r] by blast
  have "version_numbers d' (ss_id r) = version_numbers d (ss_id q)" using assms(2) r q by simp
  also have "\<dots> = {max 1 (ss_latestVersion q - maxVersionsPerScene + 1)..ss_latestVersion q}"
    using assms(1) q(1) by (simp only: versions_consecutive_def)
  finally show "version_numbers d' (ss_id r) = {max 1 (ss_latestVersion r - maxVersionsPerScene + 1)..ss_latestVersion r}"
    by (simp only: q(3))
qed

lemma version_numbers_same: "sceneVersions d' = sceneVersions d \<Longrightarrow> version_numbers d' sid = version_numbers d sid"
  by (simp add: version_numbers_def)

lemma published_consecutive:
  assumes inv: "store_inv x d" and c: "versions_consecutive d" and s: "s \<in> set (storeScenes d)"
    and upd: "storeScenes d' = update_where (\<lambda>r. ss_id r = ss_id s) f (storeScenes d)"
    and same: "same_identity s (f s)" and nf: "name_free d s (ss_name (f s))"
    and f: "ss_latestVersion (f s) = ss_latestVersion s + 1"
    and v: "sv_sceneId v = ss_id s" "sv_version v = ss_latestVersion s + 1"
    and d': "sceneVersions d' = delete_where (\<lambda>u. sv_sceneId u = ss_id s
      \<and> sv_version u < ss_latestVersion s + 1 - maxVersionsPerScene + 1) (sceneVersions d @ [v])"
  shows "versions_consecutive d'"
  unfolding versions_consecutive_def
proof
  let ?L = "ss_latestVersion s" and ?M = maxVersionsPerScene
  fix r assume r: "r \<in> set (storeScenes d')"
  show "version_numbers d' (ss_id r) = {max 1 (ss_latestVersion r - ?M + 1)..ss_latestVersion r}"
  proof (cases "r = f s")
    case True
    have "version_numbers d' (ss_id s) = {n \<in> insert (?L + 1) (version_numbers d (ss_id s)). \<not> n < ?L + 1 - ?M + 1}"
      using v by (auto simp: set_eq_iff in_version_numbers d' maxVersionsPerScene_def conj_disj_distribR conj_disj_distribL ex_disj_distrib)
    moreover have "version_numbers d (ss_id s) = {max 1 (?L - ?M + 1)..?L}" "0 \<le> ?L"
      using c s inv by (simp_all add: versions_consecutive_def store_inv_def)
    ultimately have "version_numbers d' (ss_id s) = {max 1 (?L + 1 - ?M + 1)..?L + 1}"
      by (auto simp: maxVersionsPerScene_def)
    then show ?thesis using True f same by (simp add: same_identity_def)
  next
    case False
    with replaced_rows(2) [OF inv s upd same nf r] have old: "r \<in> set (storeScenes d)" "ss_id r \<noteq> ss_id s" by auto
    have "version_numbers d' (ss_id r) = version_numbers d (ss_id r)"
      unfolding version_numbers_def d' using v old(2) by auto
    then show ?thesis using c old(1) by (simp add: versions_consecutive_def)
  qed
qed

lemma created_consecutive:
  assumes inv: "store_inv x d" and c: "versions_consecutive d"
    and d': "storeScenes d' = storeScenes d @ [s]" "sceneVersions d' = sceneVersions d @ [v]"
    and s: "ss_id s \<notin> ss_id ` set (storeScenes d)" "ss_latestVersion s = 1" and v: "sv_sceneId v = ss_id s" "sv_version v = 1"
  shows "versions_consecutive d'"
  unfolding versions_consecutive_def
proof
  fix r assume r: "r \<in> set (storeScenes d')"
  have "sv_sceneId u \<noteq> ss_id s" if "u \<in> set (sceneVersions d)" for u
    using that inv s(1) by (fastforce simp: store_inv_def in_window_def image_iff)
  then have one: "version_numbers d' (ss_id s) = {1}" unfolding version_numbers_def d' using v by auto
  show "version_numbers d' (ss_id r) = {max 1 (ss_latestVersion r - maxVersionsPerScene + 1)..ss_latestVersion r}"
  proof (cases "r = s")
    case True
    then show ?thesis using one s(2) by (simp add: maxVersionsPerScene_def)
  next
    case False
    then have old: "r \<in> set (storeScenes d)" using r by (auto simp: d')
    then have other: "ss_id r \<noteq> ss_id s" using s(1) by (metis image_eqI)
    have "version_numbers d' (ss_id r) = version_numbers d (ss_id r)" unfolding version_numbers_def d' using v other by auto
    then show ?thesis using c old by (simp add: versions_consecutive_def)
  qed
qed

lemma scene_move_consecutive:
  assumes "scene_move x acc fid d d'" and inv: "store_inv x d" and c: "versions_consecutive d"
  shows "versions_consecutive d'"
  using assms(1)
proof (cases rule: scene_move.cases)
  case same
  then show ?thesis by (intro consecutive_kept [OF c] version_numbers_same) auto
next
  case (counted s)
  then show ?thesis
    by (intro consecutive_kept [OF c] version_numbers_same) (auto simp: count_download_def update_scene_def dest!: in_update_whereD)
next
  case (edited s f)
  show ?thesis
  proof (rule consecutive_kept [OF c version_numbers_same [OF edited(9)]])
    fix r assume "r \<in> set (storeScenes d')"
    moreover have "name_free d s (ss_name (f s))" using edited(7) by (simp add: name_free_def)
    ultimately have "r = f s \<or> r \<in> set (storeScenes d)" using replaced_rows(2) [OF inv edited(1,3,4)] by blast
    then show "\<exists>q\<in>set (storeScenes d). ss_id q = ss_id r \<and> ss_latestVersion q = ss_latestVersion r"
      using edited(1,4,5) by (auto simp: same_identity_def)
  qed
next
  case (published s f v)
  show ?thesis by (rule published_consecutive [OF inv c published(1,3,4,7,5,10,11,13)])
next
  case (created s v)
  show ?thesis by (rule created_consecutive [OF inv c created(1,14,4,8,11,12)])
next
  case (yanked s n t)
  have "map (\<lambda>v. (sv_sceneId v, sv_version v)) (sceneVersions d') = map (\<lambda>v. (sv_sceneId v, sv_version v)) (sceneVersions d)"
    unfolding yanked(4) by (simp add: set_yanked_def update_where_def)
  from arg_cong [OF this, of "\<lambda>ps. set (map snd (filter (\<lambda>p. fst p = sid) ps))" for sid]
  have "version_numbers d' sid = version_numbers d sid" for sid
    by (simp add: version_numbers_def filter_map comp_def image_image)
  then show ?thesis using yanked(3) by (intro consecutive_kept [OF c]) auto
next
  case (removed s)
  then show ?thesis
    by (intro consecutive_kept [OF c]) (auto simp: version_numbers_def delete_scene_rows_def)
qed

end
