(* ===== verification/StoreMoves.thy ===== *)
theory StoreMoves imports StoreInvariant begin

text \<open>
  Every handler of the store is a sequence of moves of its account (\<open>StoreInvariant\<close>), provided the ids the
  database draws are new and \<open>fflate\<close> unzips what it zips.
\<close>

abbreviation store_moves :: "ext \<Rightarrow> uuid \<Rightarrow> uuid \<Rightarrow> db \<Rightarrow> db \<Rightarrow> bool" where
  "store_moves x acc fid \<equiv> (scene_move x acc fid)\<^sup>*\<^sup>*"

definition fresh_ids :: "web_env \<Rightarrow> db \<Rightarrow> bool" where
  "fresh_ids env d \<longleftrightarrow>
     we_uuid env 0 \<notin> ss_id ` set (storeScenes d) \<and> we_uuid env 0 \<notin> si_id ` set (sceneImages d)
     \<and> we_uuid env 0 \<notin> si_sceneId ` set (sceneImages d)"

lemma same_move:
  "storeScenes d' = storeScenes d \<Longrightarrow> sceneVersions d' = sceneVersions d \<Longrightarrow> sceneImages d' = sceneImages d \<Longrightarrow>
   store_moves x acc fid d d'"
  by (intro r_into_rtranclp scene_move.same) (simp_all add: foreign_images_kept_def)

lemma audit_images [simp]: "sceneImages (recordAuditEvent rq a actor ev m tg d) = sceneImages d"
  by (simp add: recordAuditEvent_def)

lemma audit_move: "store_moves x acc fid d (recordAuditEvent rq a actor ev m tg d)"
  by (rule same_move) simp_all

lemma refusal_move: "moderation_refusal rq a actor ev extra tg r d = Some (d', resp) \<Longrightarrow> store_moves x acc fid d d'"
  by (auto simp: moderation_refusal_def Let_def intro: audit_move split: moderation_result.splits)

lemma update_scene_tables [simp]:
  "storeScenes (update_scene sid f d) = update_where (\<lambda>s. ss_id s = sid) f (storeScenes d)"
  "sceneVersions (update_scene sid f d) = sceneVersions d" "sceneImages (update_scene sid f d) = sceneImages d"
  by (simp_all add: update_scene_def)

lemma append_version_tables:
  assumes "append_version v d = Some d'"
  shows "storeScenes d' = storeScenes d" "sceneImages d' = sceneImages d"
    "sceneVersions d' = delete_where (\<lambda>u. sv_sceneId u = sv_sceneId v \<and> sv_version u < sv_version v - maxVersionsPerScene + 1)
       (sceneVersions d @ [v])"
  using assms by (auto simp: append_version_def insert_version_def prune_versions_def split: if_splits)

lemma foreign_same [simp]: "sceneImages d' = sceneImages d \<Longrightarrow> foreign_images_kept acc d d'"
  by (simp add: foreign_images_kept_def)

section \<open>Validated zips\<close>

lemma validated_typed:
  assumes "validateSceneZip x content = Inr z"
  shows "length content \<le> maxSceneZipBytes" "set (vz_riskFlags z) \<subseteq> {riskFlagShell}"
    "case vz_frameosVersion z of None \<Rightarrow> True | Some v \<Rightarrow> version_token v"
    "case vz_manifestDescription z of None \<Rightarrow> True | Some t \<Rightarrow> length t \<le> 2000"
proof -
  obtain scenes manifest where "length content \<le> maxSceneZipBytes" "vz_riskFlags z = detectRiskFlags (Some (JArr scenes))"
    "vz_frameosVersion z = normalizeFrameosVersion (map_of manifest ''frameosVersion'')"
    "vz_manifestDescription z = trimmed_text 2000 (map_of manifest ''description'')"
    by (rule validate_parts [OF assms]) blast
  then show "length content \<le> maxSceneZipBytes" "set (vz_riskFlags z) \<subseteq> {riskFlagShell}"
    "case vz_frameosVersion z of None \<Rightarrow> True | Some v \<Rightarrow> version_token v"
    "case vz_manifestDescription z of None \<Rightarrow> True | Some t \<Rightarrow> length t \<le> 2000"
    by (auto simp: detectRiskFlags_def normalizeFrameosVersion_def trimmed_text_def split: option.splits json.splits if_splits)
qed

lemma version_row_sound:
  assumes "validateSceneZip x content = Inr z" and "case fv of None \<Rightarrow> True | Some t \<Rightarrow> version_token t"
  shows "version_sound x (version_row x vid now content fv who (vz_riskFlags z) sid n)"
  using assms validated_typed(1) [OF assms(1)] by (simp add: version_sound_def version_row_def)

lemma version_row_fields [simp]:
  "sv_sceneId (version_row x vid now content fv who flags sid n) = sid"
  "sv_version (version_row x vid now content fv who flags sid n) = n"
  "sv_yankedAt (version_row x vid now content fv who flags sid n) = None"
  "sv_riskFlags (version_row x vid now content fv who flags sid n) = flags"
  "sv_sizeBytes (version_row x vid now content fv who flags sid n) = length content"
  "sv_content (version_row x vid now content fv who flags sid n) = content"
  by (simp_all add: version_row_def)

lemma append_published:
  assumes "append_version v d = Some d1" and "s \<in> set (storeScenes d)" "ss_accountId s = acc"
    and "version_sound x v" "sv_sceneId v = ss_id s" "sv_version v = ss_latestVersion s + 1" "sv_yankedAt v = None"
    and "same_identity s (f s)" "ss_latestVersion (f s) = ss_latestVersion s + 1" "ss_riskFlags (f s) = sv_riskFlags v"
      "name_free d s (ss_name (f s))" "listing_typed (f s)"
  shows "scene_move x acc fid d (update_scene (ss_id s) f d1)"
  by (rule scene_move.published [of s d acc _ f v])
    (use assms append_version_tables [OF assms(1)] in simp_all)

section \<open>Publishing\<close>

definition visibility_ok :: "publish_input \<Rightarrow> bool" where
  "visibility_ok pin \<longleftrightarrow> (case pi_visibility pin of None \<Rightarrow> True | Some v \<Rightarrow> v \<in> set sceneVisibilities)"

lemma classified_typed:
  assumes "classifyStoreScene se name description keywords tags = Some (c, ts)"
  shows "c \<in> set (map fst storeCategories) \<and> tags_ok ts"
proof -
  have attempt: "c \<in> set (map fst storeCategories) \<and> tags_ok ts" if "classify_attempt p = Some (c, ts)" for p
  proof -
    have "tags_ok (filter P (sanitizeTagCandidates v))" for P v
      using sanitize_ok [of v] by (auto simp: tags_ok_def list_all_iff intro: le_trans [OF length_filter_le])
    then show ?thesis using that
      by (auto simp: classify_attempt_def Let_def split: option.splits json.splits if_splits)
  qed
  then show ?thesis using assms
    by (auto simp: classifyStoreScene_def Let_def split: option.splits if_splits bind_splits)
qed

text \<open>What the checks of a publish establish about its plan.\<close>

definition plan_ok :: "ext \<Rightarrow> publish_input \<Rightarrow> db \<Rightarrow> publish_plan \<Rightarrow> bool" where
  "plan_ok x pin d plan \<longleftrightarrow>
     validateSceneZip x (pp_content plan) = Inr (pp_zip plan)
     \<and> validateSceneZip x (pi_content pin) = Inr (pp_uploaded plan)
     \<and> pp_name plan \<noteq> [] \<and> length (pp_name plan) \<le> 128
     \<and> (case pp_description plan of None \<Rightarrow> True | Some t \<Rightarrow> length t \<le> 2000)
     \<and> pp_existing plan = select_one (scene_named (pi_accountId pin) (pp_name plan)) (storeScenes d)
     \<and> (case pp_classified plan of None \<Rightarrow> True | Some (c, ts) \<Rightarrow> c \<in> set (map fst storeCategories) \<and> tags_ok ts)"

text \<open>The steps a publish has passed when it gets to its writes.\<close>

definition publish_name :: "publish_input \<Rightarrow> validated_zip \<Rightarrow> string" where
  "publish_name pin u =
     (case (case pi_name pin of Some n \<Rightarrow> Some n | None \<Rightarrow> vz_manifestName u) of None \<Rightarrow> [] | Some n \<Rightarrow> take 128 (js_trim n))"

definition publish_description :: "publish_input \<Rightarrow> validated_zip \<Rightarrow> string option" where
  "publish_description pin u =
     (case pi_description pin of Some t \<Rightarrow> Some (take 2000 (js_trim t)) | None \<Rightarrow> vz_manifestDescription u)"

lemma publish_checks_parts:
  assumes "publish_checks x se env rq pin d = Inr plan"
  obtains u c z where "validateSceneZip x (pi_content pin) = Inr u" "publish_name pin u \<noteq> []"
    "pp_existing plan = select_one (scene_named (pi_accountId pin) (publish_name pin u)) (storeScenes d)"
    "publish_effective x (pp_existing plan) (pi_content pin) u d = Inr (c, z)"
    "publish_quota env pin (pp_existing plan) (length c) d = None"
    "moderation_refusal rq (pi_accountId pin) (pi_actor pin) ''store.publish_rejected'' [(''name'', JStr (publish_name pin u))] JNull
       (moderateStoreContent x se [Some (publish_name pin u), publish_description pin u]
          (map_option (\<lambda>p. (p, ''image/jpeg'')) (vz_previewImage u))) d = None"
    "pp_content plan = c" "pp_zip plan = z" "pp_uploaded plan = u" "pp_name plan = publish_name pin u"
    "pp_description plan = publish_description pin u"
    "pp_classified plan = (if (case pp_existing plan of Some s \<Rightarrow> (case ss_category s of Some c \<Rightarrow> c \<noteq> [] | None \<Rightarrow> False) | None \<Rightarrow> False)
       then None else classifyStoreScene se (publish_name pin u) (publish_description pin u) (vz_appKeywords z)
         (case pp_existing plan of Some s \<Rightarrow> ss_tags s | None \<Rightarrow> []))"
proof -
  note fold = publish_name_def [symmetric] publish_description_def [symmetric]
  note checks = assms [unfolded publish_checks_def Let_def fold]
  let ?e = "\<lambda>u. select_one (scene_named (pi_accountId pin) (publish_name pin u)) (storeScenes d)"
  obtain u where u: "validateSceneZip x (pi_content pin) = Inr u"
    using checks by (auto split: if_splits sum.splits)
  obtain c z where e: "publish_effective x (?e u) (pi_content pin) u d = Inr (c, z)"
    using checks by (cases "publish_effective x (?e u) (pi_content pin) u d") (auto simp: u fold split: if_splits)
  have q: "publish_quota env pin (?e u) (length c) d = None"
    using checks by (cases "publish_quota env pin (?e u) (length c) d") (auto simp: u e fold split: if_splits)
  let ?m = "moderation_refusal rq (pi_accountId pin) (pi_actor pin) ''store.publish_rejected'' [(''name'', JStr (publish_name pin u))] JNull
     (moderateStoreContent x se [Some (publish_name pin u), publish_description pin u]
        (map_option (\<lambda>p. (p, ''image/jpeg'')) (vz_previewImage u))) d"
  have m: "?m = None" using checks by (cases ?m) (auto simp: u e q fold split: if_splits)
  have n: "publish_name pin u \<noteq> []" using checks by (auto simp: u fold simp del: take_eq_Nil split: if_splits)
  have "plan = \<lparr>pp_content = c, pp_zip = z, pp_uploaded = u, pp_name = publish_name pin u, pp_description = publish_description pin u,
     pp_existing = ?e u,
     pp_classified = (if (case ?e u of Some s \<Rightarrow> (case ss_category s of Some c \<Rightarrow> c \<noteq> [] | None \<Rightarrow> False) | None \<Rightarrow> False) then None
       else classifyStoreScene se (publish_name pin u) (publish_description pin u) (vz_appKeywords z)
              (case ?e u of Some s \<Rightarrow> ss_tags s | None \<Rightarrow> []))\<rparr>"
    using checks by (simp add: u e q m fold split: if_splits)
  then show thesis using that [OF u n] e q m by simp
qed

lemma publish_checks_refused:
  assumes "publish_checks x se env rq pin d = Inl r"
  shows "fst r = d \<or> (\<exists>name m. moderation_refusal rq (pi_accountId pin) (pi_actor pin) ''store.publish_rejected''
    [(''name'', JStr name)] JNull m d = Some r)"
proof -
  note fold = publish_name_def [symmetric] publish_description_def [symmetric]
  note checks = assms [unfolded publish_checks_def Let_def fold]
  let ?e = "\<lambda>u. select_one (scene_named (pi_accountId pin) (publish_name pin u)) (storeScenes d)"
  let ?m = "\<lambda>u. moderation_refusal rq (pi_accountId pin) (pi_actor pin) ''store.publish_rejected'' [(''name'', JStr (publish_name pin u))] JNull
     (moderateStoreContent x se [Some (publish_name pin u), publish_description pin u]
        (map_option (\<lambda>p. (p, ''image/jpeg'')) (vz_previewImage u))) d"
  show ?thesis
  proof (cases "validateSceneZip x (pi_content pin)")
    case (Inl e)
    then show ?thesis using checks by (auto split: if_splits)
  next
    case u: (Inr u)
    show ?thesis
    proof (cases "publish_effective x (?e u) (pi_content pin) u d")
      case (Inl e)
      then show ?thesis using checks by (auto simp: u split: if_splits)
    next
      case (Inr e)
      obtain c z where e: "publish_effective x (?e u) (pi_content pin) u d = Inr (c, z)" using Inr by (cases e) simp
      show ?thesis
      proof (cases "publish_quota env pin (?e u) (length c) d")
        case (Some q)
        then show ?thesis using checks by (auto simp: u e split: if_splits)
      next
        case q: None
        show ?thesis
        proof (cases "?m u")
          case None
          then show ?thesis using checks by (auto simp: u e q split: if_splits)
        next
          case (Some refusal)
          then have "fst r = d \<or> r = refusal" using checks by (auto simp: u e q split: if_splits)
          then show ?thesis using Some by blast
        qed
      qed
    qed
  qed
qed

lemma publish_checks_plan:
  assumes "publish_checks x se env rq pin d = Inr plan" shows "plan_ok x pin d plan"
  using assms
proof (rule publish_checks_parts)
  fix u c z assume u: "validateSceneZip x (pi_content pin) = Inr u" and n: "publish_name pin u \<noteq> []"
    and e: "publish_effective x (pp_existing plan) (pi_content pin) u d = Inr (c, z)"
    and p: "pp_existing plan = select_one (scene_named (pi_accountId pin) (publish_name pin u)) (storeScenes d)"
      "pp_content plan = c" "pp_zip plan = z" "pp_uploaded plan = u" "pp_name plan = publish_name pin u"
      "pp_description plan = publish_description pin u"
      "pp_classified plan = (if (case pp_existing plan of Some s \<Rightarrow> (case ss_category s of Some c \<Rightarrow> c \<noteq> [] | None \<Rightarrow> False) | None \<Rightarrow> False)
       then None else classifyStoreScene se (publish_name pin u) (publish_description pin u) (vz_appKeywords z)
         (case pp_existing plan of Some s \<Rightarrow> ss_tags s | None \<Rightarrow> []))"
  have "validateSceneZip x c = Inr z"
    using e u by (auto simp: publish_effective_def split: option.splits sum.splits if_splits)
  moreover have "case publish_description pin u of None \<Rightarrow> True | Some t \<Rightarrow> length t \<le> 2000"
    using validated_typed(4) [OF u] by (auto simp: publish_description_def split: option.splits)
  moreover have "length (publish_name pin u) \<le> 128" by (auto simp: publish_name_def split: option.split)
  moreover have "case pp_classified plan of None \<Rightarrow> True | Some (c, ts) \<Rightarrow> c \<in> set (map fst storeCategories) \<and> tags_ok ts"
    using p(7) classified_typed by (auto split: option.split)
  ultimately show ?thesis using u n p(1-6) by (simp add: plan_ok_def)
qed

lemma published_row_typed:
  assumes "plan_ok x pin d plan" and "visibility_ok pin" and "listing_typed s"
  shows "listing_typed (published_row env pin plan n s)"
proof -
  have z: "validateSceneZip x (pp_content plan) = Inr (pp_zip plan)" using assms(1) by (simp add: plan_ok_def)
  have s: "tags_ok (ss_tags s)" "case ss_category s of None \<Rightarrow> True | Some c \<Rightarrow> c \<in> set (map fst storeCategories)"
    "ss_visibility s \<in> set sceneVisibilities"
    using assms(3) by (simp_all add: listing_typed_def)
  have p: "pp_name plan \<noteq> []" "length (pp_name plan) \<le> 128"
    "case pp_description plan of None \<Rightarrow> True | Some t \<Rightarrow> length t \<le> 2000"
    "case pp_classified plan of None \<Rightarrow> True | Some (c, ts) \<Rightarrow> c \<in> set (map fst storeCategories) \<and> tags_ok ts"
    using assms(1) by (simp_all add: plan_ok_def)
  let ?r = "published_row env pin plan n s"
  have "tags_ok (ss_tags ?r) \<and> (case ss_category ?r of None \<Rightarrow> True | Some c \<Rightarrow> c \<in> set (map fst storeCategories))"
    using s p(4) by (cases "pp_classified plan") (auto simp: published_row_def rev_image_eqI)
  moreover have "ss_visibility ?r \<in> set sceneVisibilities"
    using s assms(2) by (cases "pi_visibility pin") (auto simp: published_row_def visibility_ok_def)
  ultimately show ?thesis using p(1-3) validated_typed(2,3) [OF z]
    by (simp add: listing_typed_def published_row_def)
qed

lemma published_row_fields [simp]:
  "same_identity s (published_row env pin plan n s)" "ss_latestVersion (published_row env pin plan n s) = n"
  "ss_riskFlags (published_row env pin plan n s) = vz_riskFlags (pp_zip plan)"
  "ss_name (published_row env pin plan n s) = pp_name plan" "ss_id (published_row env pin plan n s) = ss_id s"
  by (simp_all add: published_row_def same_identity_def)

lemma new_scene_typed: "n \<noteq> [] \<Longrightarrow> length n \<le> 128 \<Longrightarrow> listing_typed (new_scene i t now acc n slug)"
  by (simp add: listing_typed_def new_scene_def tags_ok_def maxTagsPerScene_def sceneVisibilities_def)

lemma new_scene_fields [simp]:
  "ss_id (new_scene i t now acc n slug) = i" "ss_accountId (new_scene i t now acc n slug) = acc"
  "ss_slug (new_scene i t now acc n slug) = slug" "ss_name (new_scene i t now acc n slug) = n"
  "ss_latestVersion (new_scene i t now acc n slug) = 0"
  by (simp_all add: new_scene_def)

lemma free_slug_free: "free_slug x env k n d = Some slug \<Longrightarrow> slug \<notin> ss_slug ` set (storeScenes d)"
  by (auto simp: free_slug_def Let_def find_Some_iff split: if_splits)

lemma update_new_row:
  "i \<notin> ss_id ` set rows \<Longrightarrow> ss_id s = i \<Longrightarrow> update_where (\<lambda>r. ss_id r = i) f (rows @ [s]) = rows @ [f s]"
  by (auto simp: update_where_def image_iff intro!: map_idI)

lemma prune_nothing:
  assumes inv: "store_inv x d" and fresh: "i \<notin> ss_id ` set (storeScenes d)" and n: "sv_version v = 1"
  shows "delete_where (\<lambda>u. sv_sceneId u = i \<and> sv_version u < 1 - maxVersionsPerScene + 1) (sceneVersions d @ [v]) = sceneVersions d @ [v]"
proof -
  have "sv_sceneId u \<noteq> i" if "u \<in> set (sceneVersions d)" for u
    using inv fresh that by (force simp: store_inv_def in_window_def)
  then show ?thesis using n by (auto simp: delete_where_def filter_id_conv maxVersionsPerScene_def)
qed

text \<open>The scene a publish or a fork creates, with its first version.\<close>

lemma created_move:
  assumes inv: "store_inv x d" and fresh: "fresh_ids env d" and slug: "slug \<notin> ss_slug ` set (storeScenes d)"
    and names: "\<And>r. r \<in> set (storeScenes d) \<Longrightarrow> ss_accountId r = acc \<Longrightarrow> js_lower (ss_name r) \<noteq> js_lower n"
    and f: "listing_typed (f s)" "same_identity s (f s)" "ss_latestVersion (f s) = 1" "ss_riskFlags (f s) = sv_riskFlags v" "ss_name (f s) = n"
    and s: "s = new_scene (we_uuid env 0) t now acc n slug"
    and v: "version_sound x v" "sv_sceneId v = we_uuid env 0" "sv_version v = 1" "sv_yankedAt v = None"
    and d': "storeScenes d' = update_where (\<lambda>r. ss_id r = we_uuid env 0) f (storeScenes d @ [s])"
      "sceneVersions d' = sceneVersions d @ [v]" "foreign_images_kept acc d d'"
  shows "scene_move x acc (we_uuid env 0) d d'"
proof -
  have rows: "storeScenes d' = storeScenes d @ [f s]"
    using fresh d'(1) by (simp add: fresh_ids_def s update_new_row)
  have "ss_id (f s) = we_uuid env 0" "ss_slug (f s) = slug" "ss_accountId (f s) = acc" using f s by (simp_all add: same_identity_def)
  then show ?thesis using fresh slug names f v d'(2,3) rows
    by (intro scene_move.created [where s = "f s" and v = v]) (simp_all add: fresh_ids_def)
qed

lemma publish_commit_move:
  assumes inv: "store_inv x d" and fresh: "fresh_ids env d" and plan: "plan_ok x pin d plan" and vis: "visibility_ok pin"
  shows "store_moves x (pi_accountId pin) (we_uuid env 0) d (fst (publish_commit x se env rq pin plan d))"
proof -
  let ?acc = "pi_accountId pin"
  have zip: "validateSceneZip x (pp_content plan) = Inr (pp_zip plan)" using plan by (simp add: plan_ok_def)
  note typed = validated_typed [OF zip]
  have sound: "version_sound x (version_row x i now (pp_content plan) (vz_frameosVersion (pp_zip plan)) w (vz_riskFlags (pp_zip plan)) sid n)"
    for i now w sid n
    using version_row_sound [OF zip typed(3)] .
  have finish: "store_moves x ?acc (we_uuid env 0) d d2 \<Longrightarrow>
      store_moves x ?acc (we_uuid env 0) d (recordAuditEvent rq a actor ev m tg d2)" for d2 a actor ev m tg
    by (rule rtranclp_trans [OF _ audit_move])
  show ?thesis
  proof (cases "pp_existing plan")
    case (Some s)
    then have "select_one (scene_named ?acc (pp_name plan)) (storeScenes d) = Some s" using plan by (simp add: plan_ok_def)
    from select_one_Some [OF this] have s: "s \<in> set (storeScenes d)" "ss_accountId s = ?acc"
      "js_lower (ss_name s) = js_lower (pp_name plan)"
      by (simp_all add: scene_named_def)
    let ?v = "version_row x (we_uuid env 2) (we_now env) (pp_content plan) (vz_frameosVersion (pp_zip plan))
      (pi_linkedClientId pin) (vz_riskFlags (pp_zip plan)) (ss_id s) (ss_latestVersion s + 1)"
    show ?thesis
    proof (cases "append_version ?v d")
      case None
      then show ?thesis using Some by (simp add: publish_commit_def Let_def)
    next
      case (Some d2)
      let ?f = "published_row env pin plan (ss_latestVersion s + 1)"
      have "scene_move x ?acc (we_uuid env 0) d (update_scene (ss_id s) ?f d2)"
      proof (rule append_published [OF Some s(1,2) sound])
        show "listing_typed (?f s)" using published_row_typed [OF plan vis] inv s(1) by (simp add: store_inv_def)
        show "name_free d s (ss_name (?f s))" using s(3) by (simp add: name_free_def)
      qed simp_all
      then have "store_moves x ?acc (we_uuid env 0) d (update_scene (ss_id s) ?f d2)" by (rule r_into_rtranclp)
      then show ?thesis using \<open>pp_existing plan = Some s\<close> Some finish
        by (auto simp: publish_commit_def Let_def split: option.split)
    qed
  next
    case None
    show ?thesis
    proof (cases "free_slug x env 3 (pp_name plan) d")
      case None
      then show ?thesis using \<open>pp_existing plan = None\<close> by (simp add: publish_commit_def createScene_def)
    next
      case (Some slug)
      let ?s = "new_scene (we_uuid env 0) (we_uuid env 1) (we_now env) ?acc (pp_name plan) slug"
      let ?d1 = "d\<lparr>storeScenes := storeScenes d @ [?s]\<rparr>"
      let ?v = "version_row x (we_uuid env 2) (we_now env) (pp_content plan) (vz_frameosVersion (pp_zip plan))
        (pi_linkedClientId pin) (vz_riskFlags (pp_zip plan)) (we_uuid env 0) 1"
      let ?f = "published_row env pin plan 1"
      have "u \<in> set (sceneVersions d) \<Longrightarrow> sv_sceneId u \<noteq> we_uuid env 0" for u
        using inv fresh by (force simp: store_inv_def in_window_def fresh_ids_def)
      then have "insert_version ?v ?d1 = Some (?d1\<lparr>sceneVersions := sceneVersions d @ [?v]\<rparr>)"
        by (auto simp: insert_version_def list_ex_iff)
      then have app: "append_version ?v ?d1 = Some (?d1\<lparr>sceneVersions := sceneVersions d @ [?v]\<rparr>)"
        using prune_nothing [OF inv, of "we_uuid env 0" ?v] fresh
        by (simp add: append_version_def prune_versions_def fresh_ids_def)
      have named: "js_lower (ss_name r) \<noteq> js_lower (pp_name plan)" if "r \<in> set (storeScenes d)" "ss_accountId r = ?acc" for r
      proof -
        have "select_one (scene_named ?acc (pp_name plan)) (storeScenes d) = None" using plan None by (simp add: plan_ok_def)
        then show ?thesis using that by (simp add: select_one_None scene_named_def)
      qed
      have "scene_move x ?acc (we_uuid env 0) d (update_scene (we_uuid env 0) ?f (?d1\<lparr>sceneVersions := sceneVersions d @ [?v]\<rparr>))"
      proof (rule created_move [where s = ?s and v = ?v and f = ?f, OF inv fresh free_slug_free [OF Some] named])
        show "listing_typed (?f ?s)"
          using published_row_typed [OF plan vis] new_scene_typed plan by (simp add: plan_ok_def)
      qed (simp_all add: sound)
      then have "store_moves x ?acc (we_uuid env 0) d (update_scene (we_uuid env 0) ?f (?d1\<lparr>sceneVersions := sceneVersions d @ [?v]\<rparr>))"
        by (rule r_into_rtranclp)
      then show ?thesis using None Some app finish
        by (auto simp: publish_commit_def createScene_def Let_def split: option.split)
    qed
  qed
qed

lemma publish_move:
  assumes "store_inv x d" and "fresh_ids env d" and "visibility_ok pin"
  shows "store_moves x (pi_accountId pin) (we_uuid env 0) d (fst (publishStoreScene x se env rq pin d))"
proof (cases "publish_checks x se env rq pin d")
  case (Inl r)
  have "store_moves x (pi_accountId pin) (we_uuid env 0) d (fst r)"
    using publish_checks_refused [OF Inl] by (cases r) (auto dest: refusal_move)
  then show ?thesis using Inl by (simp add: publishStoreScene_def)
next
  case (Inr plan)
  then show ?thesis using publish_commit_move [OF assms(1,2) publish_checks_plan [OF Inr] assms(3)] by (simp add: publishStoreScene_def)
qed

end
