(* ===== verification/StoreHandlers.thy ===== *)
theory StoreHandlers imports StoreMoves begin

text \<open>
  The handlers of an owned scene and of forks as moves of their account, continuing \<open>StoreMoves\<close>.
\<close>

section \<open>Versions by key\<close>

lemma version_key_unique:
  assumes "store_inv x d" and "u \<in> set (sceneVersions d)" "v \<in> set (sceneVersions d)"
    and "sv_sceneId u = sv_sceneId v" "sv_version u = sv_version v"
  shows "u = v"
  using assms by (auto simp: store_inv_def distinct_map inj_on_def)

lemma latest_unyanked_in:
  assumes "latest_unyanked sid d = Some v"
  shows "v \<in> set (sceneVersions d) \<and> sv_sceneId v = sid \<and> sv_yankedAt v = None"
proof -
  let ?rows = "select_desc sv_version (\<lambda>v. sv_sceneId v = sid \<and> sv_yankedAt v = None) (sceneVersions d)"
  obtain rest where "?rows = v # rest" using assms by (auto simp: latest_unyanked_def split: list.splits)
  then have "v \<in> set ?rows" by simp
  then show ?thesis by (simp only: set_select_desc mem_Collect_eq)
qed

lemma sound_version:
  assumes "store_inv x d" and "v \<in> set (sceneVersions d)"
  shows "version_sound x v" "\<exists>z. validateSceneZip x (sv_content v) = Inr z \<and> sv_riskFlags v = vz_riskFlags z"
    "case sv_frameosVersion v of None \<Rightarrow> True | Some t \<Rightarrow> version_token t"
proof -
  show "version_sound x v" using assms by (simp add: store_inv_def)
  then show "\<exists>z. validateSceneZip x (sv_content v) = Inr z \<and> sv_riskFlags v = vz_riskFlags z"
    "case sv_frameosVersion v of None \<Rightarrow> True | Some t \<Rightarrow> version_token t"
    by (auto simp: version_sound_def split: sum.splits)
qed

lemma fallback_version_typed:
  "case a of None \<Rightarrow> True | Some t \<Rightarrow> version_token t \<Longrightarrow> case b of None \<Rightarrow> True | Some t \<Rightarrow> version_token t \<Longrightarrow>
   case (case a of Some v \<Rightarrow> Some v | None \<Rightarrow> b) of None \<Rightarrow> True | Some t \<Rightarrow> version_token t"
  by (auto split: option.splits)

section \<open>The preview version\<close>

lemma sync_move:
  assumes inv: "store_inv x d" and s: "s \<in> set (storeScenes d)" "ss_accountId s = acc"
    and r: "syncLatestSceneZipPreview x env s p d = Inr (d', n)"
  shows "scene_move x acc fid d d' \<and> n = ss_latestVersion s + 1
    \<and> sceneImages d' = sceneImages d \<and> map ss_id (storeScenes d') = map ss_id (storeScenes d)"
proof -
  obtain latest where l0: "latest_unyanked (ss_id s) d = Some latest"
    using r by (cases "latest_unyanked (ss_id s) d") (simp_all add: syncLatestSceneZipPreview_def)
  obtain content where c: "rebuildZipWithPreview x (sv_content latest) p = Some content"
    using r l0 by (cases "rebuildZipWithPreview x (sv_content latest) p") (simp_all add: syncLatestSceneZipPreview_def)
  obtain z where z: "validateSceneZip x content = Inr z"
    using r l0 c by (cases "validateSceneZip x content") (simp_all add: syncLatestSceneZipPreview_def split: if_splits)
  let ?fv = "case vz_frameosVersion z of Some v \<Rightarrow> Some v | None \<Rightarrow> sv_frameosVersion latest"
  let ?v = "version_row x (we_uuid env 2) (we_now env) content ?fv None (vz_riskFlags z) (ss_id s) (ss_latestVersion s + 1)"
  obtain d1 where app: "append_version ?v d = Some d1"
    using r l0 c z by (cases "append_version ?v d") (simp_all add: syncLatestSceneZipPreview_def Let_def split: if_splits)
  have d': "d' = update_scene (ss_id s) (\<lambda>r. r\<lparr>ss_latestVersion := ss_latestVersion s + 1, ss_riskFlags := vz_riskFlags z,
        ss_updatedAt := we_now env\<rparr>) d1" "n = ss_latestVersion s + 1"
    using r l0 c z app by (auto simp: syncLatestSceneZipPreview_def Let_def split: if_splits)
  note l = l0 z
  have lv: "latest \<in> set (sceneVersions d)" using latest_unyanked_in [OF l(1)] by blast
  have sound: "version_sound x (version_row x (we_uuid env 2) (we_now env) content
      (case vz_frameosVersion z of Some v \<Rightarrow> Some v | None \<Rightarrow> sv_frameosVersion latest) None (vz_riskFlags z) (ss_id s) (ss_latestVersion s + 1))"
    by (rule version_row_sound [OF l(2) fallback_version_typed [OF validated_typed(3) [OF l(2)] sound_version(3) [OF inv lv]]])
  have typed: "listing_typed s" using inv s by (simp add: store_inv_def)
  have "scene_move x acc fid d d'" unfolding d'(1)
    by (rule append_published [OF app s sound])
      (use typed validated_typed(2) [OF l(2)] in \<open>simp_all add: same_identity_def name_free_def listing_typed_def\<close>)
  moreover have "map ss_id (storeScenes d') = map ss_id (storeScenes d)" "sceneImages d' = sceneImages d"
    unfolding d'(1) using append_version_tables [OF app] by (simp_all add: map_update_where)
  ultimately show ?thesis using d'(2) by simp
qed

section \<open>Editing the listing\<close>

definition changes_typed :: "scene_changes \<Rightarrow> bool" where
  "changes_typed ch \<longleftrightarrow>
     (case ch_category ch of Some (Some c) \<Rightarrow> c \<in> set (map fst storeCategories) | _ \<Rightarrow> True)
     \<and> (case ch_description ch of Some (Some t) \<Rightarrow> length t \<le> 2000 | _ \<Rightarrow> True)
     \<and> (case ch_frameosVersion ch of Some (Some v) \<Rightarrow> version_token v | _ \<Rightarrow> True)
     \<and> (case ch_tags ch of Some tags \<Rightarrow> tags_ok tags | None \<Rightarrow> True)
     \<and> (case ch_visibility ch of Some v \<Rightarrow> v \<in> set sceneVisibilities | None \<Rightarrow> True)"

lemma category_in: "normalizeCategory v = Some (Some c) \<Longrightarrow> c \<in> set (map fst storeCategories)"
proof -
  assume "normalizeCategory v = Some (Some c)"
  then obtain t where "map_of storeCategories c = Some t"
    by (auto simp: normalizeCategory_def Let_def split: json.splits if_splits)
  then show ?thesis by (force dest: map_of_SomeD)
qed

lemma changes_of_typed:
  assumes "scene_changes_of acc body s d = Inr ch" shows "changes_typed ch"
proof -
  obtain v t c f where p: "visibility_change acc body s d = Inr v" "tags_change body = Inr t" "category_change body = Inr c"
    "frameos_version_change body = Inr f"
    and ch: "ch = \<lparr>ch_category = c, ch_description = description_change body, ch_frameosVersion = f, ch_tags = t, ch_visibility = v\<rparr>"
    using assms by (auto simp: scene_changes_of_def Let_def split: sum.splits if_splits)
  have "case v of Some v \<Rightarrow> v \<in> set sceneVisibilities | None \<Rightarrow> True"
    using p(1) by (auto simp: visibility_change_def split: option.splits if_splits)
  moreover have "case t of Some tags \<Rightarrow> tags_ok tags | None \<Rightarrow> True"
    using p(2) by (auto simp: tags_change_def normalizeTags_ok split: option.splits)
  moreover have "case c of Some (Some c) \<Rightarrow> c \<in> set (map fst storeCategories) | _ \<Rightarrow> True"
    using p(3) by (auto simp: category_change_def simp del: set_map dest: category_in split: option.splits)
  moreover have "case f of Some (Some v) \<Rightarrow> version_token v | _ \<Rightarrow> True"
    using p(4) by (auto simp: frameos_version_change_def normalizeFrameosVersion_def split: option.splits json.splits if_splits)
  moreover have "case description_change body of Some (Some t) \<Rightarrow> length t \<le> 2000 | _ \<Rightarrow> True"
    by (auto simp: description_change_def split: option.splits json.splits)
  ultimately show ?thesis by (simp add: changes_typed_def ch)
qed

lemma changed_scene_typed:
  assumes "changes_typed ch" and "listing_typed s" shows "listing_typed (changed_scene env ch l s)"
proof -
  have "(case ss_category (changed_scene env ch l s) of None \<Rightarrow> True | Some c \<Rightarrow> c \<in> set (map fst storeCategories))"
    using assms by (cases "ch_category ch") (auto simp: changes_typed_def listing_typed_def changed_scene_def simp del: set_map split: option.splits)
  moreover have "(case ss_description (changed_scene env ch l s) of None \<Rightarrow> True | Some t \<Rightarrow> length t \<le> 2000)"
    using assms by (cases "ch_description ch") (auto simp: changes_typed_def listing_typed_def changed_scene_def split: option.splits)
  moreover have "(case ss_frameosVersion (changed_scene env ch l s) of None \<Rightarrow> True | Some v \<Rightarrow> version_token v)"
    using assms by (cases "ch_frameosVersion ch") (auto simp: changes_typed_def listing_typed_def changed_scene_def split: option.splits)
  moreover have "tags_ok (ss_tags (changed_scene env ch l s))" "ss_visibility (changed_scene env ch l s) \<in> set sceneVisibilities"
    using assms by (cases "ch_tags ch"; cases "ch_visibility ch"; simp add: changes_typed_def listing_typed_def changed_scene_def)+
  ultimately show ?thesis using assms(2) by (simp add: listing_typed_def changed_scene_def)
qed

lemma changed_scene_fields [simp]:
  "same_identity s (changed_scene env ch l s)" "ss_name (changed_scene env ch l s) = ss_name s"
  "ss_riskFlags (changed_scene env ch l s) = ss_riskFlags s"
  "ss_latestVersion (changed_scene env ch (Some n) s) = n" "ss_latestVersion (changed_scene env ch None s) = ss_latestVersion s"
  by (simp_all add: changed_scene_def same_identity_def)

lemma minimum_content_flags:
  assumes inv: "store_inv x d" and law: "zip_law x" and s: "s \<in> set (storeScenes d)" and ch: "changes_typed ch"
    and c: "new_minimum_content x ch s d = Inr (Some (requested, content))"
  shows "version_sound x (version_row x i now content requested None (ss_riskFlags s) (ss_id s) n)"
proof -
  obtain latest z' where l: "select_one (\<lambda>v. sv_sceneId v = ss_id s \<and> sv_version v = ss_latestVersion s) (sceneVersions d) = Some latest"
    and r: "rebuildZipWithFrameosVersion x (sv_content latest) requested = Some content" "validateSceneZip x content = Inr z'"
      "ch_frameosVersion ch = Some requested"
    using c by (auto simp: new_minimum_content_def split: option.splits if_splits sum.splits)
  from select_one_Some [OF l] have lv: "latest \<in> set (sceneVersions d)" "sv_sceneId latest = ss_id s" "sv_version latest = ss_latestVersion s"
    by auto
  then have "1 \<le> ss_latestVersion s" using inv_window [OF inv lv(1) s] by simp
  then have "has_latest d s" using inv s by (simp add: store_inv_def)
  then obtain v where v: "v \<in> set (sceneVersions d)" "sv_sceneId v = ss_id s" "sv_version v = ss_latestVersion s" "sv_riskFlags v = ss_riskFlags s"
    by (auto simp: has_latest_def)
  have "v = latest" using version_key_unique [OF inv v(1) lv(1)] v lv by simp
  moreover obtain z where z: "validateSceneZip x (sv_content latest) = Inr z" "sv_riskFlags latest = vz_riskFlags z"
    using sound_version(2) [OF inv lv(1)] by blast
  moreover have "vz_riskFlags z' = vz_riskFlags z"
    using rebuild_keeps_scenes [OF r(1) [unfolded rebuilders] law z(1) r(2)] by blast
  ultimately have "ss_riskFlags s = vz_riskFlags z'" using v(4) by simp
  moreover have "case requested of None \<Rightarrow> True | Some t \<Rightarrow> version_token t"
    using ch r(3) by (auto simp: changes_typed_def split: option.splits)
  ultimately show ?thesis using version_row_sound [OF r(2)] by simp
qed

lemma commit_edit_move:
  assumes inv: "store_inv x d" and law: "zip_law x" and s: "s \<in> set (storeScenes d)" "ss_accountId s = acc"
    and ch: "changes_typed ch" and c: "new_minimum_content x ch s d = Inr newContent"
    and d1: "commit_edit x env ch newContent s d = Some d1"
  shows "scene_move x acc fid d d1"
proof -
  have typed: "listing_typed (changed_scene env ch l s)" for l
    using changed_scene_typed [OF ch] inv s by (simp add: store_inv_def)
  show ?thesis
  proof (cases newContent)
    case None
    then have "d1 = update_scene (ss_id s) (changed_scene env ch None) d" using d1 by (simp add: commit_edit_def Let_def)
    then show ?thesis using s typed by (intro scene_move.edited [of s d acc d1 "changed_scene env ch None"]) simp_all
  next
    case (Some rc)
    obtain requested content where rc: "rc = (requested, content)" by (cases rc)
    let ?v = "version_row x (we_uuid env 2) (we_now env) content requested None (ss_riskFlags s) (ss_id s) (ss_latestVersion s + 1)"
    obtain d2 where app: "append_version ?v d = Some d2"
      and d1': "d1 = update_scene (ss_id s) (changed_scene env ch (Some (ss_latestVersion s + 1))) d2"
      using d1 Some rc by (auto simp: commit_edit_def Let_def)
    have "version_sound x ?v" using minimum_content_flags [OF inv law s(1) ch] c Some rc by simp
    from append_published [OF app s this] show ?thesis using typed by (simp add: d1' name_free_def)
  qed
qed

lemma patch_move:
  assumes inv: "store_inv x d" and law: "zip_law x" and s: "s \<in> set (storeScenes d)" "ss_accountId s = acc"
  shows "store_moves x acc fid d (fst (patch_scene x se env rq acc profile s d))"
proof (cases "scene_changes_of acc (readJsonObject rq) s d")
  case (Inl r)
  then show ?thesis by (simp add: patch_scene_def Let_def)
next
  case (Inr ch)
  note ch = changes_of_typed [OF Inr]
  let ?m = "Option.bind (edit_moderation ch s) (\<lambda>(texts, picture). moderation_refusal rq acc (session_actor acc profile)
     ''store.publish_rejected'' [(''name'', JStr (ss_name s))] (scene_target s) (moderateStoreContent x se texts picture) d)"
  show ?thesis
  proof (cases ?m)
    case (Some refusal)
    then have "store_moves x acc fid d (fst refusal)"
      by (cases refusal) (auto simp: bind_eq_Some_conv dest: refusal_move)
    then show ?thesis using Inr Some by (simp add: patch_scene_def Let_def)
  next
    case m: None
    show ?thesis
    proof (cases "new_minimum_content x ch s d")
      case (Inl r)
      then show ?thesis using Inr m by (simp add: patch_scene_def Let_def)
    next
      case n: (Inr newContent)
      show ?thesis
      proof (cases "commit_edit x env ch newContent s d")
        case None
        then show ?thesis using Inr m n by (simp add: patch_scene_def Let_def)
      next
        case (Some d1)
        have "store_moves x acc fid d d1" using commit_edit_move [OF inv law s ch n Some] by (rule r_into_rtranclp)
        moreover have "storeScenes (fst (patch_scene x se env rq acc profile s d)) = storeScenes d1"
          "sceneVersions (fst (patch_scene x se env rq acc profile s d)) = sceneVersions d1"
          "sceneImages (fst (patch_scene x se env rq acc profile s d)) = sceneImages d1"
          using Inr m n Some by (auto simp: patch_scene_def Let_def split: option.split)
        ultimately show ?thesis by (meson rtranclp_trans same_move)
      qed
    qed
  qed
qed

section \<open>Deleting, saving, yanking\<close>

lemma delete_move:
  assumes inv: "store_inv x d" and s: "s \<in> set (storeScenes d)" "ss_accountId s = acc"
  shows "store_moves x acc fid d (fst (delete_scene rq acc profile s d))"
proof -
  have "foreign_images_kept acc d (delete_scene_rows (ss_id s) d)"
  proof -
    have "filter (\<lambda>i. si_sceneId i = ss_id r) (delete_where (\<lambda>i. si_sceneId i = ss_id s) (sceneImages d))
        = filter (\<lambda>i. si_sceneId i = ss_id r) (sceneImages d)" if r: "r \<in> set (storeScenes d)" "ss_accountId r \<noteq> acc" for r
    proof -
      have "ss_id r \<noteq> ss_id s" using inv_unique [OF inv s(1) r(1)] r s by auto
      then show ?thesis by (auto simp: delete_where_def intro!: filter_cong)
    qed
    then show ?thesis by (simp add: foreign_images_kept_def delete_scene_rows_def)
  qed
  then have "scene_move x acc fid d (delete_scene_rows (ss_id s) d)"
    by (intro scene_move.removed [OF s]) simp_all
  then show ?thesis by (auto simp: delete_scene_def intro: rtranclp_trans [OF r_into_rtranclp audit_move])
qed

lemma display_name: "sceneDisplayName v = Some n \<Longrightarrow> n \<noteq> [] \<and> length n \<le> 128"
  by (auto simp: sceneDisplayName_def Let_def maxSceneNameLength_def split: option.splits list.splits json.splits if_splits)

lemma store_content_move:
  assumes inv: "store_inv x d" and s: "s \<in> set (storeScenes d)" "ss_accountId s = acc"
    and latest: "latest_unyanked (ss_id s) d = Some latest"
    and rename: "\<And>n. renameTo = Some n \<Longrightarrow> n \<noteq> [] \<and> length n \<le> 128 \<and> \<not> name_clash s n d"
  shows "store_moves x acc fid d (fst (store_content x env rq acc profile s scenes latest renameTo d))"
proof (cases "rebuildZipWithScenes x (sv_content latest) (json_pretty 0 (JArr scenes)) renameTo")
  case None
  then show ?thesis by (simp add: store_content_def)
next
  case c: (Some content)
  show ?thesis
  proof (cases "validateSceneZip x content")
    case (Inl e)
    then show ?thesis using c by (simp add: store_content_def)
  next
    case z: (Inr z)
    let ?fv = "case vz_frameosVersion z of Some v \<Rightarrow> Some v | None \<Rightarrow> sv_frameosVersion latest"
    let ?v = "version_row x (we_uuid env 2) (we_now env) content ?fv None (vz_riskFlags z) (ss_id s) (ss_latestVersion s + 1)"
    let ?f = "edited_row env renameTo z (ss_latestVersion s + 1)"
    show ?thesis
    proof (cases "append_version ?v d")
      case None
      then show ?thesis using c z by (simp add: store_content_def Let_def)
    next
      case (Some d1)
      have lv: "latest \<in> set (sceneVersions d)" using latest_unyanked_in [OF latest] by blast
      have "version_sound x ?v"
        by (rule version_row_sound [OF z fallback_version_typed [OF validated_typed(3) [OF z] sound_version(3) [OF inv lv]]])
      moreover have "listing_typed (?f s)"
        using inv s(1) validated_typed(2) [OF z] rename
        by (cases renameTo) (auto simp: store_inv_def listing_typed_def edited_row_def)
      moreover have "name_free d s (ss_name (?f s))"
        using rename s(2)
        by (cases renameTo) (auto simp: edited_row_def name_free_def name_clash_def select_one_None scene_named_def)
      ultimately have "scene_move x acc fid d (update_scene (ss_id s) ?f d1)"
        by (intro append_published [OF Some s]) (simp_all add: edited_row_def same_identity_def)
      then have "store_moves x acc fid d (update_scene (ss_id s) ?f d1)" by (rule r_into_rtranclp)
      then show ?thesis using c z Some
        by (auto simp: store_content_def Let_def split: option.split intro: rtranclp_trans [OF _ audit_move])
    qed
  qed
qed

lemma save_move:
  assumes inv: "store_inv x d" and s: "s \<in> set (storeScenes d)" "ss_accountId s = acc"
  shows "store_moves x acc fid d (fst (save_content x se env rq acc profile s d))"
proof (cases "array_of (map_of (readJsonObject rq) ''scenes'')")
  case None
  then show ?thesis by (simp add: save_content_def)
next
  case sc: (Some scenes)
  show ?thesis
  proof (cases "latest_unyanked (ss_id s) d")
    case None
    then show ?thesis using sc by (simp add: save_content_def)
  next
    case l: (Some latest)
    let ?b = "Option.bind (rename_of x scenes latest s) (\<lambda>name.
       if name_clash s name d then Some (d, jsonError ''scene_name_taken'' 409 [(''name'', JStr name)])
       else moderation_refusal rq acc (session_actor acc profile) ''store.publish_rejected''
              [(''name'', JStr name)] (scene_target s) (moderateStoreContent x se [Some name] None) d)"
    show ?thesis
    proof (cases ?b)
      case (Some refusal)
      then have "store_moves x acc fid d (fst refusal)"
        by (cases refusal) (auto simp: bind_eq_Some_conv dest: refusal_move split: if_splits)
      then show ?thesis using sc l Some by (simp add: save_content_def Let_def)
    next
      case None
      have "n \<noteq> [] \<and> length n \<le> 128 \<and> \<not> name_clash s n d" if "rename_of x scenes latest s = Some n" for n
      proof -
        have "sceneDisplayName (Some (JArr scenes)) = Some n"
          using that by (auto simp: rename_of_def split: option.splits if_splits)
        then show ?thesis using display_name None that by (auto split: if_splits)
      qed
      then show ?thesis using sc l None store_content_move [OF inv s l] by (simp add: save_content_def Let_def)
    qed
  qed
qed

lemma owned_scene_in:
  "owned_scene acc sid d = Some s \<Longrightarrow> s \<in> set (storeScenes d) \<and> ss_accountId s = acc"
  by (auto simp: owned_scene_def dest: select_one_Some split: if_splits)

lemma yank_move:
  assumes inv: "store_inv x d"
  shows "store_moves x acc fid d (fst (yank_version env rq sid raw acc profile d))"
proof (cases "fst (yank_version env rq sid raw acc profile d) = d")
  case True
  then show ?thesis by simp
next
  case False
  then obtain n s yanked where n: "(if is_frame_id_text sid then positive_integer raw else None) = Some n"
    and s: "owned_scene acc sid d = Some s" and y: "map_of (readJsonObject rq) ''yanked'' = Some (JBool yanked)"
    by (auto simp: yank_version_def split: option.splits json.splits)
  let ?alive = "filter (\<lambda>v. sv_sceneId v = ss_id s \<and> sv_yankedAt v = None) (sceneVersions d)"
  let ?target = "\<lambda>v. sv_sceneId v = ss_id s \<and> sv_version v = n"
  let ?d = "set_yanked (ss_id s) n (if yanked then Some (we_now env) else None) d"
  have g: "\<not> (yanked \<and> length ?alive \<le> 1 \<and> map sv_version (take 1 ?alive) = [n])" "select_one ?target (sceneVersions d) \<noteq> None"
    "\<not> n > max_int4"
    using False by (simp_all add: yank_version_def n s y Let_def split: if_splits)
  note own = owned_scene_in [OF s]
  obtain u where u: "u \<in> set (sceneVersions d)" "sv_sceneId u = ss_id s"
    using g(2) by (auto dest: select_one_Some)
  then have "0 < ss_latestVersion s" using inv_window [OF inv u(1), of s] own by simp
  then obtain v where v: "v \<in> set (sceneVersions d)" "sv_sceneId v = ss_id s" "sv_yankedAt v = None"
    using inv own by (auto simp: store_inv_def has_latest_def)
  have "yanked \<Longrightarrow> \<exists>v\<in>set (sceneVersions d). sv_sceneId v = ss_id s \<and> sv_yankedAt v = None \<and> sv_version v \<noteq> n"
  proof (rule ccontr)
    assume yanked and none: "\<not> (\<exists>v\<in>set (sceneVersions d). sv_sceneId v = ss_id s \<and> sv_yankedAt v = None \<and> sv_version v \<noteq> n)"
    have all: "w = v" if "w \<in> set ?alive" for w
    proof -
      have "sv_version w = n" "sv_version v = n" using that none v by auto
      then show ?thesis using that v by (intro version_key_unique [OF inv]) auto
    qed
    have va: "v \<in> set ?alive" using v by simp
    have "distinct (map (\<lambda>v. (sv_sceneId v, sv_version v)) ?alive)"
      using inv by (simp add: store_inv_def distinct_map_filter)
    then have dis: "distinct ?alive" by (simp add: distinct_map)
    have "?alive = [v]"
    proof (cases ?alive)
      case Nil
      then show ?thesis using va by simp
    next
      case (Cons a as)
      have "set (a # as) \<subseteq> {v}" using all by (subst Cons [symmetric]) auto
      with dis Cons show ?thesis by (cases as) auto
    qed
    then show False using g(1) \<open>yanked\<close> none v by auto
  qed
  then have "scene_move x acc fid d ?d"
    using own by (intro scene_move.yanked [of s d acc ?d n]) (auto simp: set_yanked_def)
  then have m: "store_moves x acc fid d ?d" by (rule r_into_rtranclp)
  have e: "fst (yank_version env rq sid raw acc profile d) = recordAuditEvent rq (Some acc) (session_actor acc profile)
      (if yanked then ''store.version_yanked'' else ''store.version_unyanked'')
      (JObj [(''name'', JStr (ss_name s)), (''version'', num_of_int n)]) (scene_target s) ?d"
    by (simp only: yank_version_def n s y Let_def option.case json.case if_not_P [OF g(1)] if_not_P [OF g(2)] if_not_P [OF g(3)] fst_conv)
  show ?thesis unfolding e by (rule rtranclp_trans [OF m audit_move])
qed

section \<open>Images\<close>

lemma own_images_kept:
  assumes inv: "store_inv x d" and s: "s \<in> set (storeScenes d)" "ss_accountId s = acc"
    and other: "\<And>sid. sid \<noteq> ss_id s \<Longrightarrow>
      filter (\<lambda>i. si_sceneId i = sid) (sceneImages d') = filter (\<lambda>i. si_sceneId i = sid) (sceneImages d)"
  shows "foreign_images_kept acc d d'"
proof -
  have "ss_id r \<noteq> ss_id s" if "r \<in> set (storeScenes d)" "ss_accountId r \<noteq> acc" for r
    using inv_unique [OF inv s(1) that(1)] that s by auto
  then show ?thesis using other by (simp add: foreign_images_kept_def)
qed

lemma images_move:
  assumes "store_inv x d" and "s \<in> set (storeScenes d)" "ss_accountId s = acc"
    and "storeScenes d' = storeScenes d" "sceneVersions d' = sceneVersions d"
    and "\<And>sid. sid \<noteq> ss_id s \<Longrightarrow>
      filter (\<lambda>i. si_sceneId i = sid) (sceneImages d') = filter (\<lambda>i. si_sceneId i = sid) (sceneImages d)"
  shows "scene_move x acc fid d d'"
  by (rule scene_move.same [OF assms(4,5) own_images_kept [OF assms(1-3,6)]])

lemma image_audit_move: "store_moves x acc fid d (image_audit rq a profile ev m s d)"
  by (simp add: image_audit_def audit_move)

lemma insert_image_move:
  assumes inv: "store_inv x d" and fresh: "fresh_ids env d" and s: "s \<in> set (storeScenes d)" "ss_accountId s = acc"
  shows "store_moves x acc fid d (fst (insert_image x env rq acc profile s content contentType d))"
proof -
  let ?row = "\<lparr>si_id = we_uuid env 0, si_content = content, si_contentType = contentType,
     si_position = foldl max 0 (map si_position (filter (\<lambda>i. si_sceneId i = ss_id s) (sceneImages d))) + 1,
     si_sceneId = ss_id s, si_createdAt = we_now env\<rparr>"
  let ?d1 = "d\<lparr>sceneImages := sceneImages d @ [?row]\<rparr>"
  have m1: "store_moves x acc fid d ?d1" by (rule r_into_rtranclp, rule images_move [OF inv s]) simp_all
  have inv1: "store_inv x ?d1" by (rule same_rows_inv [OF inv]) simp_all
  have s1: "s \<in> set (storeScenes ?d1)" using s(1) by simp
  show ?thesis
  proof (cases "ss_previewImage s = None \<and> filter (\<lambda>i. si_sceneId i = ss_id s) (sceneImages d) = []")
    case False
    then have "fst (insert_image x env rq acc profile s content contentType d)
        = image_audit rq acc profile ''store.image_added''
            ([(''imageId'', JStr (we_uuid env 0)), (''sizeBytes'', json_nat (length content))] @ version_field None) s ?d1"
      by (simp only: insert_image_def Let_def if_not_P [OF False] if_False fst_conv)
    then show ?thesis using rtranclp_trans [OF m1 image_audit_move] by (simp only:)
  next
    case True
    show ?thesis
    proof (cases "syncLatestSceneZipPreview x env s (Some content) ?d1")
      case (Inr r)
      obtain d2 n where r: "r = (d2, n)" by (cases r)
      have "scene_move x acc fid ?d1 d2" using sync_move [OF inv1 s1 s(2)] Inr r by blast
      then have m2: "store_moves x acc fid d d2" using m1 by (rule rtranclp.rtrancl_into_rtrancl [rotated])
      have "fst (insert_image x env rq acc profile s content contentType d)
          = image_audit rq acc profile ''store.image_added''
            ([(''imageId'', JStr (we_uuid env 0)), (''sizeBytes'', json_nat (length content))] @ version_field (Some n)) s d2"
        using True Inr r by (simp add: insert_image_def Let_def)
      then show ?thesis using rtranclp_trans [OF m2 image_audit_move] by (simp only:)
    next
      case (Inl r)
      show ?thesis
      proof (cases r)
        case None
        then show ?thesis using True Inl m1 by (simp add: insert_image_def Let_def)
      next
        case (Some resp)
        let ?d2 = "?d1\<lparr>sceneImages := delete_where (\<lambda>i. si_id i = we_uuid env 0) (sceneImages ?d1)\<rparr>"
        have "fst (insert_image x env rq acc profile s content contentType d) = ?d2"
          using True Inl Some by (simp add: insert_image_def Let_def)
        moreover have "delete_where (\<lambda>i. si_id i = we_uuid env 0) (sceneImages ?d1) = sceneImages d"
          using fresh by (auto simp: delete_where_def fresh_ids_def image_iff filter_id_conv)
        ultimately show ?thesis by (intro same_move) simp_all
      qed
    qed
  qed
qed

lemma add_image_move:
  assumes "store_inv x d" and "fresh_ids env d" and "s \<in> set (storeScenes d)" "ss_accountId s = acc"
  shows "store_moves x acc fid d (fst (add_image x se env rq acc profile s d))"
  using insert_image_move [OF assms] refusal_move [of rq _ _ _ _ _ _ d]
  by (auto simp: add_image_def Let_def split: if_splits option.splits)

text \<open>Where a row after a move comes from.\<close>

lemma move_rows:
  assumes m: "scene_move x acc fid d d'" and inv: "store_inv x d" and q: "q \<in> set (storeScenes d')"
  shows "(\<exists>r\<in>set (storeScenes d). same_identity r q
            \<and> (r = q \<or> ss_accountId r = acc \<or> q = r\<lparr>ss_downloadCount := ss_downloadCount r + 1\<rparr>))
       \<or> (ss_accountId q = acc \<and> ss_id q \<notin> ss_id ` set (storeScenes d))"
proof -
  have refl: "same_identity r r" for r by (simp add: same_identity_def)
  have upd: "\<exists>r\<in>set (storeScenes d). same_identity r q \<and> (r = q \<or> (r = s \<and> q = f s))"
    if "s \<in> set (storeScenes d)" "storeScenes d' = update_where (\<lambda>r. ss_id r = ss_id s) f (storeScenes d)" "same_identity s (f s)" for s f
  proof -
    from q that(2) have "(q \<in> set (storeScenes d) \<and> ss_id q \<noteq> ss_id s) \<or> (\<exists>r\<in>set (storeScenes d). ss_id r = ss_id s \<and> q = f r)"
      by (auto dest: in_update_whereD)
    then show ?thesis using inv_unique [OF inv that(1)] that(1,3) refl by blast
  qed
  show ?thesis using m
  proof (cases rule: scene_move.cases)
    case (counted s)
    then have "storeScenes d' = update_where (\<lambda>r. ss_id r = ss_id s) (\<lambda>s. s\<lparr>ss_downloadCount := ss_downloadCount s + 1\<rparr>) (storeScenes d)"
      by (simp add: count_download_def update_scene_def)
    from upd [OF counted(1) this] show ?thesis by (auto simp: same_identity_def)
  next
    case (edited s f)
    from upd [OF edited(1,3,4)] edited(2) show ?thesis by blast
  next
    case (published s f v)
    from upd [OF published(1,3,4)] published(2) show ?thesis by blast
  next
    case same
    then show ?thesis using q refl by (intro disjI1 bexI [of _ q]) simp_all
  next
    case (created s v)
    then have "q \<in> set (storeScenes d) \<or> q = s" using q by auto
    then show ?thesis
    proof
      assume "q \<in> set (storeScenes d)"
      then show ?thesis using refl by (intro disjI1 bexI [of _ q]) simp_all
    next
      assume "q = s"
      then show ?thesis using created(2,4) by simp
    qed
  next
    case (yanked s n t)
    then show ?thesis using q refl by (intro disjI1 bexI [of _ q]) simp_all
  next
    case (removed s)
    then show ?thesis using q refl by (intro disjI1 bexI [of _ q]) (simp_all add: delete_scene_rows_def)
  qed
qed

lemma move_owner_kept:
  assumes inv: "store_inv x d" and s: "s \<in> set (storeScenes d)" "ss_accountId s = acc" and m: "scene_move x acc fid d d'"
    and q: "q \<in> set (storeScenes d')" "ss_id q = ss_id s"
  shows "ss_accountId q = acc"
proof -
  have "ss_id q \<in> ss_id ` set (storeScenes d)" using s(1) q(2) by simp
  with move_rows [OF m inv q(1)] obtain r where r: "r \<in> set (storeScenes d)" "same_identity r q" by blast
  then have "ss_id r = ss_id s" using q(2) by (simp add: same_identity_def)
  then have "r = s" by (rule inv_unique [OF inv s(1) r(1)])
  then show ?thesis using r(2) s(2) by (simp add: same_identity_def)
qed

lemma remove_image_move:
  assumes inv: "store_inv x d" and s: "s \<in> set (storeScenes d)" "ss_accountId s = acc"
  shows "store_moves x acc fid d (fst (remove_image x env rq imageId acc profile s d))"
proof -
  let ?target = "\<lambda>i. si_id i = js_lower imageId \<and> si_sceneId i = ss_id s"
  have del: "store_moves x acc fid e (image_audit rq acc profile ev m s (e\<lparr>sceneImages := delete_where ?target (sceneImages e)\<rparr>))"
    if "store_inv x e" "r \<in> set (storeScenes e)" "ss_accountId r = acc" "ss_id r = ss_id s" for e r ev m
  proof -
    have "filter (\<lambda>i. si_sceneId i = sid) (delete_where ?target (sceneImages e)) = filter (\<lambda>i. si_sceneId i = sid) (sceneImages e)"
      if "sid \<noteq> ss_id s" for sid
      using that by (auto simp: delete_where_def intro!: filter_cong)
    then have "scene_move x acc fid e (e\<lparr>sceneImages := delete_where ?target (sceneImages e)\<rparr>)"
      by (intro images_move [OF that(1-3)]) (simp_all add: that(4))
    then show ?thesis using image_audit_move by (meson r_into_rtranclp rtranclp_trans)
  qed
  show ?thesis
  proof (cases "ss_status s = ''pulled'' \<or> \<not> is_frame_id_text imageId \<or> select_one ?target (sceneImages d) = None")
    case True
    then show ?thesis by (auto simp: remove_image_def Let_def)
  next
    case ok: False
    show ?thesis
    proof (cases "ss_previewImage s = None \<and> map si_id (take 1 (gallery (ss_id s) d)) = [imageId]")
      case False
      then show ?thesis using ok del [OF inv s refl] by (auto simp: remove_image_def Let_def)
    next
      case True
      let ?p = "case filter (\<lambda>i. si_id i \<noteq> js_lower imageId) (gallery (ss_id s) d) of [] \<Rightarrow> None | i # _ \<Rightarrow> Some (si_content i)"
      show ?thesis
      proof (cases "syncLatestSceneZipPreview x env s ?p d")
        case (Inl r)
        then show ?thesis using ok True by (simp add: remove_image_def Let_def)
      next
        case (Inr r)
        obtain d1 n where r: "r = (d1, n)" by (cases r)
        have m: "scene_move x acc fid d d1" "map ss_id (storeScenes d1) = map ss_id (storeScenes d)"
          using sync_move [OF inv s] Inr r by blast+
        note inv1 = scene_move_inv [OF m(1) inv]
        obtain q where q: "q \<in> set (storeScenes d1)" "ss_id q = ss_id s"
          using m(2) s(1) by (metis (no_types, lifting) imageE image_eqI list.set_map)
        have "ss_accountId q = acc" by (rule move_owner_kept [OF inv s m(1) q])
        then show ?thesis using ok True Inr r del [OF inv1 q(1) _ q(2)] m(1)
          by (auto simp: remove_image_def Let_def intro: converse_rtranclp_into_rtranclp)
      qed
    qed
  qed
qed

lemma remove_preview_move:
  assumes inv: "store_inv x d" and s: "s \<in> set (storeScenes d)" "ss_accountId s = acc"
  shows "store_moves x acc fid d (fst (remove_preview x env rq acc profile s d))"
proof (cases "ss_status s = ''pulled'' \<or> ss_previewImage s = None")
  case True
  then show ?thesis by (auto simp: remove_preview_def)
next
  case ok: False
  show ?thesis
  proof (cases "syncLatestSceneZipPreview x env s (gallery_lead (ss_id s) d) d")
    case (Inl r)
    then show ?thesis using ok by (simp add: remove_preview_def)
  next
    case (Inr r)
    obtain d1 n where r: "r = (d1, n)" by (cases r)
    have m: "scene_move x acc fid d d1" "map ss_id (storeScenes d1) = map ss_id (storeScenes d)"
      using sync_move [OF inv s] Inr r by blast+
    note inv1 = scene_move_inv [OF m(1) inv]
    have "ss_id s \<in> set (map ss_id (storeScenes d1))" unfolding m(2) using s(1) by simp
    then obtain q where q: "q \<in> set (storeScenes d1)" "ss_id q = ss_id s" by auto
    note acc = move_owner_kept [OF inv s m(1) q]
    let ?f = "\<lambda>s. s\<lparr>ss_previewImage := None, ss_previewImageHeight := None, ss_previewImageType := None,
      ss_previewImageWidth := None, ss_updatedAt := we_now env\<rparr>"
    have "listing_typed q" using inv1 q by (simp add: store_inv_def)
    then have "scene_move x acc fid d1 (update_scene (ss_id s) ?f d1)"
      using q acc by (intro scene_move.edited [of q d1 acc _ ?f]) (simp_all add: same_identity_def listing_typed_def)
    then have m2: "store_moves x acc fid d (update_scene (ss_id s) ?f d1)" using m(1) by auto
    have e: "fst (remove_preview x env rq acc profile s d) = image_audit rq acc profile ''store.image_removed''
        [(''kind'', JStr ''primary preview''), (''name'', JStr (ss_name s)), (''version'', num_of_int n)] s
        (update_scene (ss_id s) ?f d1)"
      using ok Inr r by (auto simp: remove_preview_def)
    show ?thesis unfolding e by (rule rtranclp_trans [OF m2 image_audit_move])
  qed
qed

section \<open>Forking\<close>

lemma fork_name_free:
  assumes "fork_name n acc d = Some m" and "n \<noteq> []"
  shows "m \<noteq> [] \<and> length m \<le> 128
    \<and> (\<forall>r\<in>set (storeScenes d). ss_accountId r = acc \<longrightarrow> js_lower (ss_name r) \<noteq> js_lower m)"
proof -
  obtain k where "m = copy_name n k"
    and "js_lower m \<notin> (\<lambda>s. js_lower (ss_name s)) ` set (filter (\<lambda>s. ss_accountId s = acc) (storeScenes d))"
    using assms(1) by (auto simp: fork_name_def Let_def find_Some_iff)
  then show ?thesis using assms(2) by (auto simp: copy_name_def image_iff)
qed

lemma fork_commit_move:
  assumes inv: "store_inv x d" and fresh: "fresh_ids env d" and src: "source \<in> set (storeScenes d)"
    and latest: "latest_unyanked (ss_id source) d = Some latest" and z: "validateSceneZip x content = Inr z"
    and name: "fork_name (ss_name source) acc d = Some n"
  shows "store_moves x acc (we_uuid env 0) d (fst (fork_commit x env rq acc profile source latest content z n d))"
proof (cases "free_slug x env 2 n d")
  case None
  then show ?thesis by (simp add: fork_commit_def)
next
  case (Some slug)
  have typed: "listing_typed source" using inv src by (simp add: store_inv_def)
  then have nf: "n \<noteq> []" "length n \<le> 128"
    "\<And>r. r \<in> set (storeScenes d) \<Longrightarrow> ss_accountId r = acc \<Longrightarrow> js_lower (ss_name r) \<noteq> js_lower n"
    using fork_name_free [OF name] by (auto simp: listing_typed_def)
  have lv: "latest \<in> set (sceneVersions d)" using latest_unyanked_in [OF latest] by blast
  let ?fv = "case vz_frameosVersion z of Some v \<Rightarrow> Some v | None \<Rightarrow> sv_frameosVersion latest"
  have fv: "case ?fv of None \<Rightarrow> True | Some t \<Rightarrow> version_token t"
    by (rule fallback_version_typed [OF validated_typed(3) [OF z] sound_version(3) [OF inv lv]])
  let ?sid = "we_uuid env 0"
  let ?s = "new_scene ?sid (we_uuid env 1) (we_now env) acc n slug"
  let ?v = "version_row x (we_uuid env 2) (we_now env) content ?fv None (vz_riskFlags z) ?sid 1"
  let ?f = "forked_row env source z latest"
  let ?d1 = "d\<lparr>storeScenes := storeScenes d @ [?s]\<rparr>"
  let ?d2 = "?d1\<lparr>sceneVersions := sceneVersions d @ [?v]\<rparr>"
  let ?d3 = "update_scene ?sid ?f ?d2"
  let ?d4 = "?d3\<lparr>sceneImages := sceneImages ?d3 @ copied_images env ?sid (gallery (ss_id source) d)\<rparr>"
  have "u \<in> set (sceneVersions d) \<Longrightarrow> sv_sceneId u \<noteq> ?sid" for u
    using inv fresh by (force simp: store_inv_def in_window_def fresh_ids_def)
  then have app: "insert_version ?v ?d1 = Some ?d2" by (auto simp: insert_version_def list_ex_iff)
  have "scene_move x acc (we_uuid env 0) d ?d4"
  proof (rule created_move [where s = ?s and v = ?v and f = ?f, OF inv fresh free_slug_free [OF Some] nf(3)])
    show "listing_typed (?f ?s)"
      using typed nf validated_typed(2) [OF z] fv
      by (simp add: listing_typed_def forked_row_def new_scene_def sceneVisibilities_def)
    show "foreign_images_kept acc d ?d4"
    proof -
      have copies: "filter (\<lambda>i. si_sceneId i = sid) (copied_images env ?sid images) = []" if "sid \<noteq> ?sid" for sid images
        using that by (auto simp: copied_images_def filter_empty_conv)
      have "ss_id r \<noteq> ?sid" if "r \<in> set (storeScenes d)" for r using fresh that by (auto simp: fresh_ids_def image_iff)
      then show ?thesis by (simp add: foreign_images_kept_def copies)
    qed
    show "version_sound x ?v" by (rule version_row_sound [OF z fv])
  qed (simp_all add: forked_row_def same_identity_def new_scene_def)
  then have m: "store_moves x acc (we_uuid env 0) d ?d4" by (rule r_into_rtranclp)
  have "fst (fork_commit x env rq acc profile source latest content z n d) = d
      \<or> (\<exists>m t. fst (fork_commit x env rq acc profile source latest content z n d)
            = recordAuditEvent rq (Some acc) (session_actor acc profile) ''store.scene_forked'' m t ?d4)"
    using Some app by (auto simp: fork_commit_def Let_def split: option.split)
  then show ?thesis using rtranclp_trans [OF m audit_move] by fastforce
qed

lemma fork_move:
  assumes inv: "store_inv x d" and fresh: "fresh_ids env d" and src: "source \<in> set (storeScenes d)"
  shows "store_moves x acc (we_uuid env 0) d (fst (fork_content x se env rq acc profile source scenes n d))"
proof (cases "latest_unyanked (ss_id source) d")
  case None
  then show ?thesis by (simp add: fork_content_def)
next
  case l: (Some latest)
  show ?thesis
  proof (cases "fork_name (ss_name source) acc d")
    case None
    then show ?thesis using l by (simp add: fork_content_def)
  next
    case m: (Some m)
    show ?thesis
      using l m fork_commit_move [OF inv fresh src l _ m]
      by (auto simp: fork_content_def split: option.splits sum.splits if_splits)
  qed
qed

lemma count_move: "s \<in> set (storeScenes d) \<Longrightarrow> store_moves x acc fid d (count_download (ss_id s) d)"
  by (intro r_into_rtranclp scene_move.counted [of s]) (simp_all add: count_download_def)

end
