(* ===== verification/StoreRequests.thy ===== *)
theory StoreRequests imports StoreHandlers begin

text \<open>
  The requests of the store as a whole, and what holds of them: the invariant of its rows, the immutability
  of published versions, the isolation of accounts.  The locale \<open>store_handler\<close> states the contract once; it
  is interpreted on every handler.
\<close>

section \<open>Sequences of moves\<close>

lemma moves_inv: "store_moves x acc fid d d' \<Longrightarrow> store_inv x d \<Longrightarrow> store_inv x d'"
  by (induction rule: rtranclp_induct) (auto intro: scene_move_inv)

lemma moves_consecutive:
  "store_moves x acc fid d d' \<Longrightarrow> store_inv x d \<Longrightarrow> versions_consecutive d \<Longrightarrow> versions_consecutive d'"
  by (induction rule: rtranclp_induct) (auto intro: scene_move_consecutive moves_inv)

text \<open>Published versions stay as they are, up to the yank mark; new ones are numbered beyond the latest.\<close>

definition versions_stable :: "uuid \<Rightarrow> db \<Rightarrow> db \<Rightarrow> bool" where
  "versions_stable fid d d' \<longleftrightarrow>
     (\<forall>r\<in>set (storeScenes d'). ss_id r = fid \<or>
        (\<exists>s\<in>set (storeScenes d). ss_id s = ss_id r \<and> ss_accountId s = ss_accountId r \<and> ss_slug s = ss_slug r
           \<and> ss_latestVersion s \<le> ss_latestVersion r))
     \<and> (\<forall>v\<in>set (sceneVersions d'). sv_sceneId v = fid
        \<or> (\<exists>u\<in>set (sceneVersions d). \<exists>t. v = u\<lparr>sv_yankedAt := t\<rparr>)
        \<or> (\<exists>s\<in>set (storeScenes d). ss_id s = sv_sceneId v \<and> ss_latestVersion s < sv_version v))"

lemma yank_self: "u = u\<lparr>sv_yankedAt := sv_yankedAt u\<rparr>"
  by simp

lemma versions_stable_refl: "versions_stable fid d d"
  by (auto simp: versions_stable_def intro: yank_self)

lemma move_stable:
  assumes m: "scene_move x acc fid d d'" and inv: "store_inv x d" shows "versions_stable fid d d'"
proof -
  have rows: "\<forall>r\<in>set (storeScenes d'). ss_id r = fid \<or>
        (\<exists>s\<in>set (storeScenes d). ss_id s = ss_id r \<and> ss_accountId s = ss_accountId r \<and> ss_slug s = ss_slug r
           \<and> ss_latestVersion s \<le> ss_latestVersion r)"
    if upd: "storeScenes d' = update_where (\<lambda>r. ss_id r = ss_id s) f (storeScenes d)" and s: "s \<in> set (storeScenes d)"
      and f: "same_identity s (f s)" "ss_latestVersion s \<le> ss_latestVersion (f s)" for s f
  proof
    fix r assume "r \<in> set (storeScenes d')"
    then have "r \<in> set (storeScenes d) \<or> (\<exists>q\<in>set (storeScenes d). ss_id q = ss_id s \<and> r = f q)"
      unfolding upd by (auto dest: in_update_whereD)
    then show "ss_id r = fid \<or> (\<exists>s\<in>set (storeScenes d). ss_id s = ss_id r \<and> ss_accountId s = ss_accountId r
        \<and> ss_slug s = ss_slug r \<and> ss_latestVersion s \<le> ss_latestVersion r)"
    proof
      assume "\<exists>q\<in>set (storeScenes d). ss_id q = ss_id s \<and> r = f q"
      then have "r = f s" using inv_unique [OF inv s] by blast
      then show ?thesis using s f by (auto simp: same_identity_def)
    qed auto
  qed
  have kept: "\<exists>u\<in>set (sceneVersions d). \<exists>t. v = u\<lparr>sv_yankedAt := t\<rparr>" if "v \<in> set (sceneVersions d)" for v
    using that by (metis yank_self)
  show ?thesis using m
  proof (cases rule: scene_move.cases)
    case (counted s)
    then have "storeScenes d' = update_where (\<lambda>r. ss_id r = ss_id s) (\<lambda>s. s\<lparr>ss_downloadCount := ss_downloadCount s + 1\<rparr>) (storeScenes d)"
      by (simp add: count_download_def update_scene_def)
    from rows [OF this counted(1)] counted(3) kept show ?thesis by (auto simp: versions_stable_def same_identity_def)
  next
    case (edited s f)
    then show ?thesis using rows [OF edited(3,1,4)] kept by (auto simp: versions_stable_def)
  next
    case (published s f v)
    have "\<forall>w\<in>set (sceneVersions d'). (\<exists>u\<in>set (sceneVersions d). \<exists>t. w = u\<lparr>sv_yankedAt := t\<rparr>)
        \<or> (\<exists>s\<in>set (storeScenes d). ss_id s = sv_sceneId w \<and> ss_latestVersion s < sv_version w)"
    proof
      fix w assume "w \<in> set (sceneVersions d')"
      then have "w \<in> set (sceneVersions d) \<or> w = v" using published(13) by auto
      then show "(\<exists>u\<in>set (sceneVersions d). \<exists>t. w = u\<lparr>sv_yankedAt := t\<rparr>)
        \<or> (\<exists>s\<in>set (storeScenes d). ss_id s = sv_sceneId w \<and> ss_latestVersion s < sv_version w)"
      proof
        assume "w = v"
        then have "ss_id s = sv_sceneId w \<and> ss_latestVersion s < sv_version w" using published(10,11) by simp
        then show ?thesis using published(1) by blast
      qed (use kept in blast)
    qed
    moreover have "ss_latestVersion s \<le> ss_latestVersion (f s)" using published(5) by simp
    ultimately show ?thesis using rows [OF published(3,1,4)] unfolding versions_stable_def by blast
  next
    case (yanked s n t)
    have "\<forall>w\<in>set (sceneVersions d'). \<exists>u\<in>set (sceneVersions d). \<exists>t. w = u\<lparr>sv_yankedAt := t\<rparr>"
      unfolding yanked(4) set_yanked_def
      using kept by (auto simp: set_update_where)
    then show ?thesis using yanked(3) by (auto simp: versions_stable_def)
  qed (use kept in \<open>auto simp: versions_stable_def delete_scene_rows_def\<close>)
qed

lemma versions_stable_trans:
  assumes "versions_stable fid d d'" and "versions_stable fid d' d''" shows "versions_stable fid d d''"
  unfolding versions_stable_def
proof (intro conjI ballI)
  fix r assume "r \<in> set (storeScenes d'')"
  then show "ss_id r = fid \<or> (\<exists>s\<in>set (storeScenes d). ss_id s = ss_id r \<and> ss_accountId s = ss_accountId r
      \<and> ss_slug s = ss_slug r \<and> ss_latestVersion s \<le> ss_latestVersion r)"
  proof -
    have "ss_id r = fid \<or> (\<exists>s\<in>set (storeScenes d'). ss_id s = ss_id r \<and> ss_accountId s = ss_accountId r
        \<and> ss_slug s = ss_slug r \<and> ss_latestVersion s \<le> ss_latestVersion r)"
      using assms(2) \<open>r \<in> set (storeScenes d'')\<close> by (auto simp: versions_stable_def)
    then show ?thesis
    proof
      assume "\<exists>s\<in>set (storeScenes d'). ss_id s = ss_id r \<and> ss_accountId s = ss_accountId r
        \<and> ss_slug s = ss_slug r \<and> ss_latestVersion s \<le> ss_latestVersion r"
      then obtain s where s: "s \<in> set (storeScenes d')" "ss_id s = ss_id r" "ss_accountId s = ss_accountId r"
        "ss_slug s = ss_slug r" "ss_latestVersion s \<le> ss_latestVersion r" by blast
      have "ss_id s = fid \<or> (\<exists>q\<in>set (storeScenes d). ss_id q = ss_id s \<and> ss_accountId q = ss_accountId s
        \<and> ss_slug q = ss_slug s \<and> ss_latestVersion q \<le> ss_latestVersion s)"
        using assms(1) s(1) by (auto simp: versions_stable_def)
      then show ?thesis using s by force
    qed simp
  qed
next
  fix v assume "v \<in> set (sceneVersions d'')"
  then consider "sv_sceneId v = fid" | u t where "u \<in> set (sceneVersions d')" "v = u\<lparr>sv_yankedAt := t\<rparr>"
    | r where "r \<in> set (storeScenes d')" "ss_id r = sv_sceneId v" "ss_latestVersion r < sv_version v"
    using assms(2) unfolding versions_stable_def by blast
  then show "sv_sceneId v = fid \<or> (\<exists>u\<in>set (sceneVersions d). \<exists>t. v = u\<lparr>sv_yankedAt := t\<rparr>)
      \<or> (\<exists>s\<in>set (storeScenes d). ss_id s = sv_sceneId v \<and> ss_latestVersion s < sv_version v)"
  proof cases
    case (2 u t)
    then have "sv_sceneId u = fid \<or> (\<exists>w\<in>set (sceneVersions d). \<exists>t. u = w\<lparr>sv_yankedAt := t\<rparr>)
      \<or> (\<exists>s\<in>set (storeScenes d). ss_id s = sv_sceneId u \<and> ss_latestVersion s < sv_version u)"
      using assms(1) by (auto simp: versions_stable_def)
    then show ?thesis using 2(2) by force
  next
    case (3 r)
    have "ss_id r = fid \<or> (\<exists>s\<in>set (storeScenes d). ss_id s = ss_id r \<and> ss_latestVersion s \<le> ss_latestVersion r)"
      using assms(1) 3(1) by (auto simp: versions_stable_def)
    then show ?thesis
    proof
      assume "\<exists>s\<in>set (storeScenes d). ss_id s = ss_id r \<and> ss_latestVersion s \<le> ss_latestVersion r"
      then obtain s where "s \<in> set (storeScenes d)" "ss_id s = sv_sceneId v" "ss_latestVersion s < sv_version v"
        using 3(2,3) by fastforce
      then show ?thesis by blast
    qed (use 3(2) in simp)
  qed simp
qed

lemma moves_stable: "store_moves x acc fid d d' \<Longrightarrow> store_inv x d \<Longrightarrow> versions_stable fid d d'"
  by (induction rule: rtranclp_induct) (blast intro: versions_stable_refl versions_stable_trans move_stable moves_inv)+

section \<open>Isolation\<close>

text \<open>What a request of one account leaves of the scene of another: all but the download counter.\<close>

definition scene_untouched :: "store_scene \<Rightarrow> db \<Rightarrow> db \<Rightarrow> bool" where
  "scene_untouched s d d' \<longleftrightarrow>
     (\<exists>n. s\<lparr>ss_downloadCount := n\<rparr> \<in> set (storeScenes d'))
     \<and> filter (\<lambda>v. sv_sceneId v = ss_id s) (sceneVersions d') = filter (\<lambda>v. sv_sceneId v = ss_id s) (sceneVersions d)
     \<and> filter (\<lambda>i. si_sceneId i = ss_id s) (sceneImages d') = filter (\<lambda>i. si_sceneId i = ss_id s) (sceneImages d)"

lemma untouched_rows:
  assumes inv: "store_inv x d" and s: "s \<in> set (storeScenes d)" "ss_accountId s \<noteq> acc"
    and r: "r \<in> set (storeScenes d)" "ss_accountId r = acc"
    and upd: "storeScenes d' = update_where (\<lambda>q. ss_id q = ss_id r) f (storeScenes d)"
  shows "s \<in> set (storeScenes d')" "ss_id s \<noteq> ss_id r"
proof -
  show "ss_id s \<noteq> ss_id r" using inv_unique [OF inv s(1) r(1)] s r by auto
  then show "s \<in> set (storeScenes d')" using s(1) unfolding upd by (force simp: set_update_where)
qed

lemma untouchedI:
  "s \<in> set (storeScenes d') \<Longrightarrow>
   filter (\<lambda>v. sv_sceneId v = ss_id s) (sceneVersions d') = filter (\<lambda>v. sv_sceneId v = ss_id s) (sceneVersions d) \<Longrightarrow>
   filter (\<lambda>i. si_sceneId i = ss_id s) (sceneImages d') = filter (\<lambda>i. si_sceneId i = ss_id s) (sceneImages d) \<Longrightarrow>
   scene_untouched s d d'"
  unfolding scene_untouched_def
  by (intro conjI exI [of _ "ss_downloadCount s"]) simp_all

lemma move_untouched:
  assumes m: "scene_move x acc fid d d'" and inv: "store_inv x d" and s: "s \<in> set (storeScenes d)" "ss_accountId s \<noteq> acc"
  shows "scene_untouched s d d'"
  using m
proof (cases rule: scene_move.cases)
  case same
  then show ?thesis using s by (intro untouchedI) (simp_all add: foreign_images_kept_def)
next
  case (counted r)
  have "(if ss_id s = ss_id r then s\<lparr>ss_downloadCount := ss_downloadCount s + 1\<rparr> else s) \<in> set (storeScenes d')"
    using s(1) unfolding counted(2) count_download_def update_scene_tables set_update_where by (rule imageI)
  then have "\<exists>n. s\<lparr>ss_downloadCount := n\<rparr> \<in> set (storeScenes d')"
    by (cases "ss_id s = ss_id r") (auto intro: exI [of _ "ss_downloadCount s"])
  then show ?thesis using counted(3,4) by (simp add: scene_untouched_def)
next
  case (edited r f)
  note u = untouched_rows [OF inv s edited(1,2,3)]
  then show ?thesis using edited s by (intro untouchedI) (simp_all add: foreign_images_kept_def)
next
  case (published r f v)
  note u = untouched_rows [OF inv s published(1,2,3)]
  have "filter (\<lambda>v. sv_sceneId v = ss_id s) (sceneVersions d') = filter (\<lambda>v. sv_sceneId v = ss_id s) (sceneVersions d)"
    unfolding published(13) delete_where_def using u(2) published(10) by (auto intro!: filter_cong)
  then show ?thesis using u(1) published(14) s by (intro untouchedI) (simp_all add: foreign_images_kept_def)
next
  case (created r v)
  have "ss_id s \<noteq> ss_id r" using created(4) s(1) by (auto simp: image_iff)
  then show ?thesis using created s by (intro untouchedI) (simp_all add: foreign_images_kept_def)
next
  case (yanked r n t)
  have ne: "ss_id s \<noteq> ss_id r" using inv_unique [OF inv s(1) yanked(1)] s yanked(2) by auto
  have "filter (\<lambda>v. sv_sceneId v = ss_id s) (sceneVersions d') = filter (\<lambda>v. sv_sceneId v = ss_id s) (sceneVersions d)"
    unfolding yanked(4) set_yanked_def using ne by (simp, intro filter_update_where_other) auto
  then show ?thesis using s yanked(3,6) by (intro untouchedI) simp_all
next
  case (removed r)
  have ne: "ss_id s \<noteq> ss_id r" using inv_unique [OF inv s(1) removed(1)] s removed(2) by auto
  have "filter (\<lambda>v. sv_sceneId v = ss_id s) (sceneVersions d') = filter (\<lambda>v. sv_sceneId v = ss_id s) (sceneVersions d)"
    unfolding removed(4) delete_scene_rows_def using ne by (auto simp: delete_where_def intro!: filter_cong)
  then show ?thesis using s ne removed(3,5) by (intro untouchedI) (simp_all add: foreign_images_kept_def delete_scene_rows_def)
qed

lemma untouched_trans:
  assumes "scene_untouched s d d'" and "\<And>n. s\<lparr>ss_downloadCount := n\<rparr> \<in> set (storeScenes d') \<Longrightarrow> scene_untouched (s\<lparr>ss_downloadCount := n\<rparr>) d' d''"
  shows "scene_untouched s d d''"
proof -
  obtain n where n: "s\<lparr>ss_downloadCount := n\<rparr> \<in> set (storeScenes d')" using assms(1) by (auto simp: scene_untouched_def)
  show ?thesis using assms(1) assms(2) [OF n] by (auto simp: scene_untouched_def)
qed

lemma moves_untouched:
  "store_moves x acc fid d d' \<Longrightarrow> store_inv x d \<Longrightarrow> s \<in> set (storeScenes d) \<Longrightarrow> ss_accountId s \<noteq> acc \<Longrightarrow> scene_untouched s d d'"
proof (induction rule: rtranclp_induct)
  case base
  then show ?case by (intro untouchedI) simp_all
next
  case (step d' d'')
  note inv = moves_inv [OF step(1,4)]
  show ?case
  proof (rule untouched_trans [OF step.IH [OF step.prems]])
    fix n assume "s\<lparr>ss_downloadCount := n\<rparr> \<in> set (storeScenes d')"
    then show "scene_untouched (s\<lparr>ss_downloadCount := n\<rparr>) d' d''"
      by (rule move_untouched [OF step(2) inv]) (use step.prems(3) in simp)
  qed
qed

section \<open>The contract of a handler\<close>

locale store_handler =
  fixes x :: ext and fid :: uuid and ready :: "uuid \<Rightarrow> db \<Rightarrow> bool" and run :: "uuid \<Rightarrow> db \<Rightarrow> db"
  assumes moves: "store_inv x d \<Longrightarrow> ready acc d \<Longrightarrow> store_moves x acc fid d (run acc d)"
begin

lemma keeps_inv: "store_inv x d \<Longrightarrow> ready acc d \<Longrightarrow> store_inv x (run acc d)"
  using moves moves_inv by blast

lemma keeps_versions: "store_inv x d \<Longrightarrow> ready acc d \<Longrightarrow> versions_stable fid d (run acc d)"
  using moves moves_stable by blast

lemma keeps_others:
  "store_inv x d \<Longrightarrow> ready acc d \<Longrightarrow> s \<in> set (storeScenes d) \<Longrightarrow> ss_accountId s \<noteq> acc \<Longrightarrow> scene_untouched s d (run acc d)"
  using moves moves_untouched by blast

end

text \<open>A handler of an owned scene, behind its lookup.\<close>

definition on_owned :: "string \<Rightarrow> (uuid \<Rightarrow> store_scene \<Rightarrow> db \<Rightarrow> db \<times> http_response) \<Rightarrow> uuid \<Rightarrow> db \<Rightarrow> db" where
  "on_owned sceneId handler acc d = fst (with_owned_scene acc sceneId (handler acc) d)"

lemma on_owned_moves:
  assumes "\<And>s. s \<in> set (storeScenes d) \<Longrightarrow> ss_accountId s = acc \<Longrightarrow> store_moves x acc fid d (fst (handler acc s d))"
  shows "store_moves x acc fid d (on_owned sceneId handler acc d)"
  using assms owned_scene_in [of acc sceneId d] by (auto simp: on_owned_def with_owned_scene_def split: option.split)

abbreviation with_law :: "ext \<Rightarrow> web_env \<Rightarrow> uuid \<Rightarrow> db \<Rightarrow> bool" where
  "with_law x env acc d \<equiv> zip_law x \<and> fresh_ids env d"

interpretation publish_op: store_handler x "we_uuid env 0" "\<lambda>acc d. acc = pi_accountId pin \<and> visibility_ok pin \<and> fresh_ids env d"
  "\<lambda>acc d. fst (publishStoreScene x se env rq pin d)" for x se env rq pin
  by unfold_locales (auto intro: publish_move)

interpretation patch_op: store_handler x fid "with_law x env" "on_owned sceneId (\<lambda>acc. patch_scene x se env rq acc profile)"
  for x fid se env rq profile sceneId
  by unfold_locales (intro on_owned_moves patch_move; simp)

interpretation delete_op: store_handler x fid "with_law x env" "on_owned sceneId (\<lambda>acc. delete_scene rq acc profile)"
  for x fid env rq profile sceneId
  by unfold_locales (intro on_owned_moves delete_move; simp)

interpretation save_op: store_handler x fid "with_law x env" "on_owned sceneId (\<lambda>acc. save_content x se env rq acc profile)"
  for x fid se env rq profile sceneId
  by unfold_locales (intro on_owned_moves save_move; simp)

interpretation yank_op: store_handler x fid "with_law x env" "\<lambda>acc d. fst (yank_version env rq sceneId raw acc profile d)"
  for x fid env rq profile sceneId raw
  by unfold_locales (simp add: yank_move)

interpretation add_image_op: store_handler x fid "with_law x env" "on_owned sceneId (\<lambda>acc. add_image x se env rq acc profile)"
  for x fid se env rq profile sceneId
  by unfold_locales (intro on_owned_moves add_image_move; simp)

interpretation remove_image_op: store_handler x fid "with_law x env"
  "on_owned sceneId (\<lambda>acc. remove_image x env rq imageId acc profile)" for x fid env rq profile sceneId imageId
  by unfold_locales (intro on_owned_moves remove_image_move; simp)

interpretation remove_preview_op: store_handler x fid "with_law x env"
  "on_owned sceneId (\<lambda>acc. remove_preview x env rq acc profile)" for x fid env rq profile sceneId
  by unfold_locales (intro on_owned_moves remove_preview_move; simp)

interpretation fork_op: store_handler x "we_uuid env 0" "\<lambda>acc d. source \<in> set (storeScenes d) \<and> fresh_ids env d"
  "\<lambda>acc d. fst (fork_content x se env rq acc profile source scenes n d)" for x se env rq profile source scenes n
  by unfold_locales (simp add: fork_move)

interpretation download_op: store_handler x fid "\<lambda>acc d. s \<in> set (storeScenes d)" "\<lambda>acc. count_download (ss_id s)" for x fid s
  by unfold_locales (simp add: count_move)

end
