(* ===== verification/StoreService.thy ===== *)
theory StoreService imports StoreRequests begin

text \<open>
  The store as a service: its requests, the accounts they act for, and sequences of them.
\<close>

section \<open>Requests\<close>

datatype store_verb =
    Patch | Delete | Save | Yank string | AddImage | RemoveImage string | RemovePreview | Fork
  | Upload "string option" "bytes option" | Create | BackendPublish | Download | ScenesJson | Browse

record store_request =
  sr_verb :: store_verb
  sr_scene :: string
  sr_http :: web_request
  sr_env :: web_env

definition answer :: "world \<times> http_response \<Rightarrow> world \<times> reply" where
  "answer = (\<lambda>(w, r). (w, Json r))"

definition store_service :: "ext \<Rightarrow> store_env \<Rightarrow> store_request \<Rightarrow> world \<Rightarrow> world \<times> reply" where
  "store_service x se r w =
     (let env = sr_env r; rq = sr_http r; sceneId = sr_scene r
      in case sr_verb r of
           Patch \<Rightarrow> answer (patch_scene_route x se env sceneId rq w)
         | Delete \<Rightarrow> answer (delete_scene_route x env sceneId rq w)
         | Save \<Rightarrow> answer (content_route x se env sceneId rq w)
         | Yank version \<Rightarrow> answer (yank_route x env sceneId version rq w)
         | AddImage \<Rightarrow> answer (add_image_route x se env sceneId rq w)
         | RemoveImage imageId \<Rightarrow> answer (remove_image_route x env sceneId imageId rq w)
         | RemovePreview \<Rightarrow> answer (remove_preview_route x env sceneId rq w)
         | Fork \<Rightarrow> answer (fork_route x se env sceneId rq w)
         | Upload contentLength file \<Rightarrow> answer (scene_upload_route x se env contentLength file rq w)
         | Create \<Rightarrow> answer (create_scene_route x se env rq w)
         | BackendPublish \<Rightarrow> answer (backend_publish_route x se env rq w)
         | Download \<Rightarrow> download_route x env sceneId rq w
         | ScenesJson \<Rightarrow> scenes_json_route x env sceneId rq w
         | Browse \<Rightarrow> browse_route env rq w)"

fun serve_store :: "ext \<Rightarrow> store_env \<Rightarrow> store_request list \<Rightarrow> world \<Rightarrow> world" where
  "serve_store x se [] w = w"
| "serve_store x se (r # rs) w = serve_store x se rs (fst (store_service x se r w))"

text \<open>What holds of each request and the database it finds.\<close>

fun each_request ::
  "ext \<Rightarrow> store_env \<Rightarrow> (store_request \<Rightarrow> db \<Rightarrow> bool) \<Rightarrow> store_request list \<Rightarrow> world \<Rightarrow> bool" where
  "each_request x se P [] w = True"
| "each_request x se P (r # rs) w = (P r (w_db w) \<and> each_request x se P rs (fst (store_service x se r w)))"

definition ids_fresh :: "store_request \<Rightarrow> db \<Rightarrow> bool" where
  "ids_fresh r = fresh_ids (sr_env r)"

text \<open>The accounts a request acts for: that of its session, and that of a linked client allowed to publish.\<close>

definition acts_as :: "ext \<Rightarrow> store_request \<Rightarrow> db \<Rightarrow> uuid \<Rightarrow> bool" where
  "acts_as x r d acc \<longleftrightarrow>
     Option.bind (readSession x (sr_env r) (sr_http r) d) session_account = Some acc
     \<or> (case snd (authenticateLinkedClient x (rq_authorization (sr_http r)) (we_now (sr_env r)) d) of
          None \<Rightarrow> False | Some l \<Rightarrow> l_accountId l = acc \<and> linkedClientHasScope l storePublishScope)"

section \<open>The effects of a request\<close>

text \<open>What a request may do to the store once the guards of its route have let it through.\<close>

definition same_store :: "db \<Rightarrow> db \<Rightarrow> bool" where
  "same_store d d' \<longleftrightarrow>
     storeScenes d' = storeScenes d \<and> sceneVersions d' = sceneVersions d \<and> sceneImages d' = sceneImages d
     \<and> accounts d' = accounts d"

fun publishes :: "store_verb \<Rightarrow> bool" where
  "publishes (Upload _ _) = True"
| "publishes Create = True"
| "publishes BackendPublish = True"
| "publishes _ = False"

inductive store_effect :: "ext \<Rightarrow> store_env \<Rightarrow> store_request \<Rightarrow> db \<Rightarrow> db \<Rightarrow> bool" for x se r d where
  idle: "same_store d d' \<Longrightarrow> store_effect x se r d d'"
| patched: "sr_verb r = Patch \<Longrightarrow> acts_as x r d (ss_accountId s) \<Longrightarrow> s \<in> set (storeScenes d) \<Longrightarrow>
    store_effect x se r d (fst (patch_scene x se (sr_env r) (sr_http r) (ss_accountId s) profile s d))"
| deleted: "sr_verb r = Delete \<Longrightarrow> acts_as x r d (ss_accountId s) \<Longrightarrow> s \<in> set (storeScenes d) \<Longrightarrow>
    store_effect x se r d (fst (delete_scene (sr_http r) (ss_accountId s) profile s d))"
| saved: "sr_verb r = Save \<Longrightarrow> acts_as x r d (ss_accountId s) \<Longrightarrow> s \<in> set (storeScenes d) \<Longrightarrow>
    store_effect x se r d (fst (save_content x se (sr_env r) (sr_http r) (ss_accountId s) profile s d))"
| yanked: "sr_verb r = Yank version \<Longrightarrow> acts_as x r d acc \<Longrightarrow>
    store_effect x se r d (fst (yank_version (sr_env r) (sr_http r) sceneId version acc profile d))"
| image_added: "sr_verb r = AddImage \<Longrightarrow> acts_as x r d (ss_accountId s) \<Longrightarrow> s \<in> set (storeScenes d) \<Longrightarrow>
    store_effect x se r d (fst (add_image x se (sr_env r) (sr_http r) (ss_accountId s) profile s d))"
| image_removed: "sr_verb r = RemoveImage imageId \<Longrightarrow> acts_as x r d (ss_accountId s) \<Longrightarrow> s \<in> set (storeScenes d) \<Longrightarrow>
    store_effect x se r d (fst (remove_image x (sr_env r) (sr_http r) imageId (ss_accountId s) profile s d))"
| preview_removed: "sr_verb r = RemovePreview \<Longrightarrow> acts_as x r d (ss_accountId s) \<Longrightarrow> s \<in> set (storeScenes d) \<Longrightarrow>
    store_effect x se r d (fst (remove_preview x (sr_env r) (sr_http r) (ss_accountId s) profile s d))"
| forked: "sr_verb r = Fork \<Longrightarrow> acts_as x r d acc \<Longrightarrow> source \<in> set (storeScenes d) \<Longrightarrow> visible_source acc source \<Longrightarrow>
    store_effect x se r d (fst (fork_content x se (sr_env r) (sr_http r) acc profile source scenes
      (privateSceneBytesForAccount acc d) d))"
| published: "publishes (sr_verb r) \<Longrightarrow> acts_as x r d (pi_accountId pin) \<Longrightarrow> visibility_ok pin \<Longrightarrow> same_store d d1 \<Longrightarrow>
    store_effect x se r d (fst (publishStoreScene x se (sr_env r) (sr_http r) pin d1))"
| downloaded: "sr_verb r = Download \<Longrightarrow> s \<in> set (storeScenes d) \<Longrightarrow> same_store d d1 \<Longrightarrow> store_effect x se r d (count_download (ss_id s) d1)"

inductive_cases store_effectE: "store_effect x se r d d'"

lemma same_store_refl [simp]: "same_store d d"
  by (simp add: same_store_def)

lemma effect_refl [simp]: "store_effect x se r d d"
  by (rule store_effect.idle) simp

lemma identity_limit_db: "identityRateLimitResponse env i action limit windowMs w = (w1, r) \<Longrightarrow> w_db w1 = w_db w"
  by (metis fst_conv limit_key_db identityRateLimitResponse_def)

lemma fst_in_db [simp]: "w_db (fst (in_db body w)) = fst (body (w_db w))"
  by (simp add: in_db_def split: prod.split)

lemma fst_answer [simp]: "fst (answer wr) = fst wr"
  by (simp add: answer_def split: prod.split)

lemma session_acts:
  "readSession x (sr_env r) (sr_http r) d = Some profile \<Longrightarrow> session_account profile = Some acc \<Longrightarrow> acts_as x r d acc"
  by (simp add: acts_as_def)

text \<open>Owner routes, with and without a further rate limit in their body.\<close>

lemma owner_world_effect:
  assumes "\<And>acc profile w1. w_db w1 = w_db w \<Longrightarrow> acts_as x r (w_db w) acc \<Longrightarrow>
      store_effect x se r (w_db w) (w_db (fst (body acc profile w1)))"
  shows "store_effect x se r (w_db w) (w_db (fst (owner_world_route x (sr_env r) (sr_http r) action limit windowMs body w)))"
proof -
  obtain w1 g where g: "owner_guard x (sr_env r) (sr_http r) action limit windowMs w = (w1, g)" by force
  show ?thesis
  proof (cases g)
    case (Inl resp)
    then show ?thesis using owner_guard_refused [OF g [unfolded Inl]] g by (simp add: owner_world_route_def)
  next
    case (Inr p)
    obtain acc profile where p: "p = (acc, profile)" by force
    from owner_guard_passed [OF g [unfolded Inr p]]
    have "w_db w1 = w_db w" "acts_as x r (w_db w) acc" by (auto intro: session_acts)
    from assms [OF this, of profile] show ?thesis using g Inr p by (simp add: owner_world_route_def)
  qed
qed

lemma owner_route_world:
  "owner_route x env rq action limit windowMs body =
   owner_world_route x env rq action limit windowMs (\<lambda>acc profile. in_db (body acc profile))"
  by (rule ext) (simp add: owner_route_def owner_world_route_def in_db_def split: prod.split sum.split)

lemma owner_route_effect:
  assumes "\<And>acc profile. acts_as x r (w_db w) acc \<Longrightarrow> store_effect x se r (w_db w) (fst (body acc profile (w_db w)))"
  shows "store_effect x se r (w_db w) (w_db (fst (owner_route x (sr_env r) (sr_http r) action limit windowMs body w)))"
  unfolding owner_route_world by (rule owner_world_effect) (simp add: assms)

lemma owned_effect:
  assumes "\<And>s profile. s \<in> set (storeScenes (w_db w)) \<Longrightarrow> acts_as x r (w_db w) (ss_accountId s) \<Longrightarrow>
      store_effect x se r (w_db w) (fst (body (ss_accountId s) profile s (w_db w)))"
  shows "store_effect x se r (w_db w) (w_db (fst (owned_scene_route x (sr_env r) (sr_http r) sceneId body w)))"
  unfolding owned_scene_route_def
proof (rule owner_route_effect)
  fix acc profile assume a: "acts_as x r (w_db w) acc"
  show "store_effect x se r (w_db w) (fst (with_owned_scene acc sceneId (body acc profile) (w_db w)))"
  proof (cases "owned_scene acc sceneId (w_db w)")
    case (Some s)
    then show ?thesis using owned_scene_in [OF Some] assms [of s profile] a by (auto simp: with_owned_scene_def)
  qed (simp add: with_owned_scene_def)
qed

lemma account_effect:
  assumes "\<And>acc profile w1. w_db w1 = w_db w \<Longrightarrow> acts_as x r (w_db w) acc \<Longrightarrow>
      store_effect x se r (w_db w) (w_db (fst (body acc profile w1)))"
  shows "store_effect x se r (w_db w) (w_db (fst (account_route x (sr_env r) (sr_http r) action limit windowMs body w)))"
proof (cases "csrfResponse (sr_env r) (sr_http r)")
  case None
  obtain w1 g where g: "rateLimitResponse (sr_env r) (sr_http r) action limit windowMs w = (w1, g)" by force
  note db = rateLimit_db [OF g]
  show ?thesis
    using None g db assms [OF db session_acts] by (auto simp: account_route_def split: option.split)
qed (simp add: account_route_def)

lemma save_effect:
  assumes verb: "sr_verb r = Save"
  shows "store_effect x se r (w_db w) (w_db (fst (content_route x se (sr_env r) sceneId (sr_http r) w)))"
  unfolding content_route_def
proof (rule owner_world_effect, goal_cases)
  case (1 acc profile w1)
  show ?case
  proof (cases "owned_scene acc sceneId (w_db w)")
    case None
    then show ?thesis using 1(1) by simp
  next
    case (Some s)
    obtain w2 g where g: "identityRateLimitResponse (sr_env r) acc ''store:scene-edit'' maxSceneEditsPerHour (60 * 60 * 1000) w1 = (w2, g)"
      by force
    have "store_effect x se r (w_db w) (fst (save_content x se (sr_env r) (sr_http r) acc profile s (w_db w)))"
      using owned_scene_in [OF Some] 1(2) store_effect.saved [OF verb, of x "w_db w" s] by auto
    then show ?thesis using Some 1(1) g identity_limit_db [OF g] by (simp split: option.split)
  qed
qed

lemma fork_effect:
  assumes verb: "sr_verb r = Fork"
  shows "store_effect x se r (w_db w) (w_db (fst (fork_route x se (sr_env r) sceneId (sr_http r) w)))"
  unfolding fork_route_def
proof (rule owner_world_effect, goal_cases)
  case (1 acc profile w1)
  note db = 1(1)
  obtain w2 g where g: "identityRateLimitResponse (sr_env r) acc ''store:fork'' (int maxNewScenesPerDay) (24 * 60 * 60 * 1000) w1 = (w2, g)"
    by force
  show ?case
  proof (cases "if is_frame_id_text sceneId then select_one (\<lambda>s. ss_id s = js_lower sceneId) (storeScenes (w_db w)) else None")
    case None
    then show ?thesis using db by (simp add: fork_scene_def split: if_splits)
  next
    case (Some s)
    then have found: "is_frame_id_text sceneId" "select_one (\<lambda>s. ss_id s = js_lower sceneId) (storeScenes (w_db w)) = Some s"
      by (auto split: if_splits)
    then have "s \<in> set (storeScenes (w_db w))" by (auto dest!: select_one_Some)
    note m = store_effect.forked [OF verb 1(2) this]
    have f: "fst (fork_scene x se (sr_env r) sceneId (sr_http r) acc profile w1)
        = (if visible_source acc s then
             case array_of (map_of (readJsonObject (sr_http r)) ''scenes'') of None \<Rightarrow> w1
             | Some scenes \<Rightarrow>
                 if scenes = [] \<or> length (filter (\<lambda>s. ss_accountId s = acc) (storeScenes (w_db w1))) \<ge> maxScenesPerAccount then w1
                 else case g of Some _ \<Rightarrow> w2
                      | None \<Rightarrow> fst (in_db (fork_content x se (sr_env r) (sr_http r) acc profile s scenes
                                  (privateSceneBytesForAccount acc (w_db w1))) w2)
           else w1)"
      using found g db by (simp add: fork_scene_def split: option.split)
    show ?thesis unfolding f using m db identity_limit_db [OF g] by (simp split: option.split)
  qed
qed

text \<open>Publishing.\<close>

lemma db_step_effect:
  assumes "w_db w2 = d" and "store_effect x se r d (fst (body d))"
  shows "store_effect x se r d (w_db (fst (db_step env body w2)))"
  using assms by (simp add: db_step_def split: option.split)

lemma publish_effect:
  "publishes (sr_verb r) \<Longrightarrow> acts_as x r d acc \<Longrightarrow> pi_accountId pin = acc \<Longrightarrow> visibility_ok pin \<Longrightarrow>
   store_effect x se r d (fst (publishStoreScene x se (sr_env r) (sr_http r) pin d))"
  using store_effect.published [OF _ _ _ same_store_refl] by blast

lemma upload_effect:
  assumes verb: "publishes (sr_verb r)"
  shows "store_effect x se r (w_db w) (w_db (fst (scene_upload_route x se (sr_env r) contentLength file (sr_http r) w)))"
  unfolding scene_upload_route_def
proof (rule account_effect, goal_cases)
  case (1 acc profile w1)
  obtain w2 g where g: "identityRateLimitResponse (sr_env r) acc ''store:publish'' maxPublishesPerHour (60 * 60 * 1000) w1 = (w2, g)"
    by force
  then have db: "w_db w2 = w_db w" using 1(1) identity_limit_db by metis
  have "store_effect x se r (w_db w) (w_db (fst (db_step (sr_env r) (publishStoreScene x se (sr_env r) (sr_http r)
      \<lparr>pi_accountId = acc, pi_actor = session_actor acc profile, pi_content = content, pi_description = None,
       pi_linkedClientId = None, pi_name = None, pi_visibility = None\<rparr>) w2)))" for content
    by (rule db_step_effect [OF db], rule publish_effect [OF verb 1(2)]) (simp_all add: visibility_ok_def)
  then show ?case using g db by (simp add: upload_scene_def split: option.split)
qed

lemma create_scene_effect:
  assumes "publishes (sr_verb r)" and "acts_as x r d acc"
  shows "store_effect x se r d (fst (create_scene x se (sr_env r) (sr_http r) acc profile d))"
proof -
  have m: "store_effect x se r d (fst (publishStoreScene x se (sr_env r) (sr_http r)
      \<lparr>pi_accountId = acc, pi_actor = session_actor acc profile, pi_content = content, pi_description = t,
       pi_linkedClientId = None, pi_name = n, pi_visibility = Some ''private''\<rparr> d))" for content t n
    by (rule publish_effect [OF assms]) (simp_all add: visibility_ok_def sceneVisibilities_def)
  show ?thesis by (simp add: create_scene_def Let_def m split: option.split)
qed

lemma create_effect:
  assumes verb: "publishes (sr_verb r)"
  shows "store_effect x se r (w_db w) (w_db (fst (create_scene_route x se (sr_env r) (sr_http r) w)))"
  unfolding create_scene_route_def
proof (rule account_effect, goal_cases)
  case (1 acc profile w1)
  obtain w2 g where g: "identityRateLimitResponse (sr_env r) acc ''store:publish'' maxPublishesPerHour (60 * 60 * 1000) w1 = (w2, g)"
    by force
  then have db: "w_db w2 = w_db w" using 1(1) identity_limit_db by metis
  have "store_effect x se r (w_db w) (w_db (fst (db_step (sr_env r) (create_scene x se (sr_env r) (sr_http r) acc profile) w2)))"
    by (rule db_step_effect [OF db]) (rule create_scene_effect [OF verb 1(2)])
  then show ?case using g db by (simp split: option.split)
qed

text \<open>Authentication of a linked client leaves the store as it is.\<close>

lemma authenticate_store [simp]: "same_store d (fst (authenticateLinkedClient x h now d))"
  by (auto simp: same_store_def authenticateLinkedClient_def Let_def split: option.splits)

lemma backend_effect:
  assumes "same_store d d1" and "acts_as x r d (l_accountId l)" and "publishes (sr_verb r)"
  shows "store_effect x se r d (fst (backend_publish x se (sr_env r) (sr_http r) l d1))"
proof -
  have m: "store_effect x se r d (fst (publishStoreScene x se (sr_env r) (sr_http r)
      \<lparr>pi_accountId = l_accountId l, pi_actor = actor, pi_content = content, pi_description = t,
       pi_linkedClientId = i, pi_name = n, pi_visibility = v\<rparr> d1))"
    if "case v of None \<Rightarrow> True | Some s \<Rightarrow> s \<in> set sceneVisibilities" for actor content t i n v
    by (rule store_effect.published) (use that assms in \<open>simp_all add: visibility_ok_def\<close>)
  show ?thesis by (auto simp: backend_publish_def Let_def m store_effect.idle [OF assms(1)] split: option.splits)
qed

lemma backend_publish_effect:
  assumes verb: "publishes (sr_verb r)"
  shows "store_effect x se r (w_db w) (w_db (fst (backend_publish_route x se (sr_env r) (sr_http r) w)))"
proof -
  let ?env = "sr_env r" and ?rq = "sr_http r"
  obtain w1 g where g: "rateLimitResponse ?env ?rq ''store:publish'' 60 (15 * 60 * 1000) w = (w1, g)" by force
  note db = rateLimit_db [OF g]
  obtain d1 a where a: "authenticateLinkedClient x (rq_authorization ?rq) (we_now ?env) (w_db w) = (d1, a)" by force
  have t: "same_store (w_db w) d1" using a by (metis authenticate_store fst_conv)
  note refused = store_effect.idle [OF t]
  show ?thesis
  proof (cases "g = None \<and> requireDatabase ?env = None \<and> (\<exists>l. a = Some l \<and> linkedClientHasScope l storePublishScope)")
    case True
    then obtain l where l: "a = Some l" "linkedClientHasScope l storePublishScope" by blast
    obtain w2 h where h: "identityRateLimitResponse ?env (l_accountId l) ''store:publish'' maxPublishesPerHour (60 * 60 * 1000)
        (w1\<lparr>w_db := d1\<rparr>) = (w2, h)" by force
    have db2: "w_db w2 = d1" using identity_limit_db [OF h] by simp
    have "acts_as x r (w_db w) (l_accountId l)" using a l by (simp add: acts_as_def)
    from backend_effect [OF t this verb] have "store_effect x se r (w_db w) (fst (backend_publish x se ?env ?rq l d1))" .
    then show ?thesis using True g a l h db db2 refused
      by (cases h) (simp_all add: backend_publish_route_def)
  next
    case False
    then show ?thesis using g a db refused
      by (auto simp: backend_publish_route_def split: option.split)
  qed
qed

text \<open>Reading.\<close>

lemma access_same [simp]: "same_store d (fst (canAccessPrivateScene x env rq o' d))"
  by (simp add: canAccessPrivateScene_def split_beta)

lemma readable_same [simp]: "same_store d (fst (readable_scene x env rq sid d))"
  by (auto simp: readable_scene_def split_beta split: option.split)

lemma readable_in: "readable_scene x env rq sid d = (d1, Inr s) \<Longrightarrow> s \<in> set (storeScenes d)"
  by (auto simp: readable_scene_def split_beta split: option.splits if_splits dest!: select_one_Some)

lemma store_read_effect:
  assumes "store_effect x se r (w_db w) (fst (body (w_db w)))"
  shows "store_effect x se r (w_db w) (w_db (fst (store_read_route (sr_env r) (sr_http r) action limit body w)))"
proof -
  obtain w1 g where g: "rateLimitResponse (sr_env r) (sr_http r) action limit (15 * 60 * 1000) w = (w1, g)" by force
  show ?thesis using assms g rateLimit_db [OF g] by (simp add: store_read_route_def split_beta split: option.split)
qed

lemma download_effect:
  assumes verb: "sr_verb r = Download"
  shows "store_effect x se r d (fst (download_scene x (sr_env r) sceneId (sr_http r) d))"
proof -
  obtain d1 g where g: "readable_scene x (sr_env r) (sr_http r) sceneId d = (d1, g)" by force
  have t: "same_store d d1" using g by (metis readable_same fst_conv)
  note idle = store_effect.idle [OF t]
  show ?thesis
  proof (cases g)
    case (Inl resp)
    then show ?thesis using g idle by (simp add: download_scene_def)
  next
    case (Inr s)
    note counted = store_effect.downloaded [OF verb readable_in [OF g [unfolded Inr]] t]
    show ?thesis using g Inr idle counted by (simp add: download_scene_def split: option.split)
  qed
qed

lemma scenes_json_effect: "store_effect x se r d (fst (scenes_json x (sr_env r) sceneId (sr_http r) d))"
  by (rule store_effect.idle) (simp add: scenes_json_def split_beta split: sum.split option.split)

theorem service_effect: "store_effect x se r (w_db w) (w_db (fst (store_service x se r w)))"
proof (cases "sr_verb r")
  case Patch
  then show ?thesis by (simp add: store_service_def Let_def patch_scene_route_def) (rule owned_effect, rule store_effect.patched [OF Patch])
next
  case Delete
  then show ?thesis by (simp add: store_service_def Let_def delete_scene_route_def) (rule owned_effect, rule store_effect.deleted [OF Delete])
next
  case AddImage
  then show ?thesis by (simp add: store_service_def Let_def add_image_route_def) (rule owned_effect, rule store_effect.image_added [OF AddImage])
next
  case (RemoveImage i)
  then show ?thesis by (simp add: store_service_def Let_def remove_image_route_def) (rule owned_effect, rule store_effect.image_removed [OF RemoveImage])
next
  case RemovePreview
  then show ?thesis by (simp add: store_service_def Let_def remove_preview_route_def) (rule owned_effect, rule store_effect.preview_removed [OF RemovePreview])
next
  case (Yank v)
  then show ?thesis by (simp add: store_service_def Let_def yank_route_def) (rule owner_route_effect, rule store_effect.yanked [OF Yank])
qed (simp_all add: store_service_def Let_def save_effect fork_effect upload_effect create_effect backend_publish_effect
    download_route_def scenes_json_route_def browse_route_def browse_store_def store_read_effect download_effect scenes_json_effect)

section \<open>Every request is a sequence of moves\<close>

definition lawful :: "ext \<Rightarrow> store_request \<Rightarrow> db \<Rightarrow> db \<Rightarrow> bool" where
  "lawful x r d d' \<longleftrightarrow>
     (\<exists>acc. acts_as x r d acc \<and> store_moves x acc (we_uuid (sr_env r) 0) d d')
     \<or> (\<forall>acc. store_moves x acc (we_uuid (sr_env r) 0) d d')"

lemma same_store_moves: "same_store d d' \<Longrightarrow> store_moves x acc fid d d'"
  by (rule same_move) (simp_all add: same_store_def)

lemma client_moves: "same_store d d1 \<Longrightarrow> store_moves x acc fid d1 d2 \<Longrightarrow> store_moves x acc fid d d2"
  by (rule rtranclp_trans [OF same_store_moves])

lemma inv_same: "store_inv x d \<Longrightarrow> same_store d d1 \<Longrightarrow> store_inv x d1"
  by (simp add: same_store_def store_inv_def scene_names_def has_latest_def in_window_def)

lemma fresh_same: "fresh_ids env d \<Longrightarrow> same_store d d1 \<Longrightarrow> fresh_ids env d1"
  by (simp add: same_store_def fresh_ids_def)

lemma effect_lawful:
  assumes "store_effect x se r d d'" and law: "zip_law x" and inv: "store_inv x d" and fresh: "ids_fresh r d"
  shows "lawful x r d d'"
proof -
  note f = fresh [unfolded ids_fresh_def]
  have by_actor: "acts_as x r d acc \<Longrightarrow> store_moves x acc (we_uuid (sr_env r) 0) d d' \<Longrightarrow> lawful x r d d'" for acc
    by (auto simp: lawful_def)
  from assms(1) show ?thesis
  proof (cases rule: store_effect.cases)
    case idle
    then show ?thesis by (simp add: lawful_def same_store_moves)
  next
    case (patched s profile)
    then show ?thesis using by_actor patch_move [OF inv law patched(4) refl] by simp
  next
    case (deleted s profile)
    then show ?thesis using by_actor delete_move [OF inv deleted(4) refl] by simp
  next
    case (saved s profile)
    then show ?thesis using by_actor save_move [OF inv saved(4) refl] by simp
  next
    case (yanked acc)
    then show ?thesis using by_actor yank_move [OF inv] by simp
  next
    case (image_added s profile)
    then show ?thesis using by_actor add_image_move [OF inv f image_added(4) refl] by simp
  next
    case (image_removed s)
    then show ?thesis using by_actor remove_image_move [OF inv image_removed(4) refl] by simp
  next
    case (preview_removed s)
    then show ?thesis using by_actor remove_preview_move [OF inv preview_removed(4) refl] by simp
  next
    case (forked acc source)
    then show ?thesis using by_actor fork_move [OF inv f forked(4)] by simp
  next
    case (published pin d1)
    note d1 = inv_same [OF inv published(5)] fresh_same [OF f published(5)]
    have "store_moves x (pi_accountId pin) (we_uuid (sr_env r) 0) d d'"
      unfolding published(1)
      by (rule client_moves [OF published(5) publish_op.moves [OF d1(1)]]) (use published(4) d1(2) in simp)
    then show ?thesis by (rule by_actor [OF published(3)])
  next
    case (downloaded s d1)
    then have "s \<in> set (storeScenes d1)" by (simp add: same_store_def)
    from client_moves [OF downloaded(4) count_move [OF this]] downloaded(1) show ?thesis by (simp add: lawful_def)
  qed
qed

lemma service_lawful:
  assumes "zip_law x" and "store_inv x (w_db w)" and "ids_fresh r (w_db w)"
  shows "lawful x r (w_db w) (w_db (fst (store_service x se r w)))"
  by (rule effect_lawful [OF service_effect assms])

section \<open>Sequences of requests\<close>

lemma serve_invariant:
  assumes "zip_law x" and "store_inv x (w_db w)" and "each_request x se P rs w"
    and "\<And>r d. P r d \<Longrightarrow> ids_fresh r d" and "Q (w_db w)"
    and "\<And>r w. P r (w_db w) \<Longrightarrow> store_inv x (w_db w) \<Longrightarrow> Q (w_db w) \<Longrightarrow>
      lawful x r (w_db w) (w_db (fst (store_service x se r w))) \<Longrightarrow> Q (w_db (fst (store_service x se r w)))"
  shows "store_inv x (w_db (serve_store x se rs w)) \<and> Q (w_db (serve_store x se rs w))"
  using assms(2,3,5)
proof (induction rs arbitrary: w)
  case (Cons r rs)
  have p: "P r (w_db w)" and rest: "each_request x se P rs (fst (store_service x se r w))" using Cons.prems(2) by simp_all
  note law = service_lawful [OF assms(1) Cons.prems(1) assms(4) [OF p], of se]
  have "store_inv x (w_db (fst (store_service x se r w)))"
    using law Cons.prems(1) unfolding lawful_def by (blast intro: moves_inv)
  moreover have "Q (w_db (fst (store_service x se r w)))" by (rule assms(6) [OF p Cons.prems(1,3) law])
  ultimately show ?case using Cons.IH [OF _ rest] by simp
qed simp

text \<open>
  C3.  The store stays well formed.  Whatever sequence of edits, saves, yanks, gallery changes, forks,
  uploads, publishes, deletes and downloads the accounts send, every scene keeps typed listing fields (name,
  description, tags, category, visibility, minimum version), ids, slugs and the names within an account stay
  unique, each version row records the size, digest and risk flags of its own bytes, version numbers lie in
  the window of the newest twenty, and a published scene keeps its latest version and an unyanked one.  Where the
  numbers of every scene have no gap up to the latest within that window, this stays so.
\<close>

theorem store_stays_well_formed:
  assumes "zip_law x" and "store_inv x (w_db w)" and "each_request x se ids_fresh rs w"
  shows "store_inv x (w_db (serve_store x se rs w))
       \<and> (versions_consecutive (w_db w) \<longrightarrow> versions_consecutive (w_db (serve_store x se rs w)))"
proof (cases "versions_consecutive (w_db w)")
  case True
  have step: "versions_consecutive d'" if "versions_consecutive d" "store_inv x d" "lawful x r d d'" for r d d'
    using that unfolding lawful_def by (blast intro: moves_consecutive)
  show ?thesis
    using serve_invariant [OF assms, where Q = versions_consecutive] True step by blast
next
  case False
  then show ?thesis using serve_invariant [OF assms, where Q = "\<lambda>_. True"] by simp
qed

text \<open>What becomes of the versions of a scene.\<close>

definition history_kept :: "store_scene \<Rightarrow> db \<Rightarrow> db \<Rightarrow> bool" where
  "history_kept s d d' \<longleftrightarrow>
     (\<forall>r\<in>set (storeScenes d'). ss_id r = ss_id s \<longrightarrow>
        ss_accountId r = ss_accountId s \<and> ss_slug r = ss_slug s \<and> ss_latestVersion s \<le> ss_latestVersion r)
     \<and> (\<forall>v\<in>set (sceneVersions d'). sv_sceneId v = ss_id s \<longrightarrow>
          (\<exists>u\<in>set (sceneVersions d). \<exists>t. v = u\<lparr>sv_yankedAt := t\<rparr>) \<or> ss_latestVersion s < sv_version v)"

lemma history_refl:
  assumes "store_inv x d" and "s \<in> set (storeScenes d)" shows "history_kept s d d"
  using inv_unique [OF assms] by (auto simp: history_kept_def intro: yank_self)

lemma history_step:
  assumes h: "history_kept s d d'" and v: "versions_stable fid d' d''" and "ss_id s \<noteq> fid"
  shows "history_kept s d d''"
  unfolding history_kept_def
proof (intro conjI ballI impI, goal_cases)
  case (1 r)
  with v assms(3) obtain q where q: "q \<in> set (storeScenes d')" "ss_id q = ss_id r" "ss_accountId q = ss_accountId r"
    by (auto simp: versions_stable_def)
  with h 1 show ?case by (auto simp: history_kept_def)
next
  case (2 r)
  with v assms(3) obtain q where q: "q \<in> set (storeScenes d')" "ss_id q = ss_id r" "ss_slug q = ss_slug r"
    by (auto simp: versions_stable_def)
  with h 2 show ?case by (auto simp: history_kept_def)
next
  case (3 r)
  with v assms(3) obtain q where q: "q \<in> set (storeScenes d')" "ss_id q = ss_id r" "ss_latestVersion q \<le> ss_latestVersion r"
    by (auto simp: versions_stable_def)
  with h 3 show ?case by (auto simp: history_kept_def)
next
  case (4 w)
  with v assms(3) consider u t where "u \<in> set (sceneVersions d')" "w = u\<lparr>sv_yankedAt := t\<rparr>"
    | q where "q \<in> set (storeScenes d')" "ss_id q = sv_sceneId w" "ss_latestVersion q < sv_version w"
    unfolding versions_stable_def by fastforce
  then show ?case
  proof cases
    case (1 u t)
    then have "(\<exists>w\<in>set (sceneVersions d). \<exists>t. u = w\<lparr>sv_yankedAt := t\<rparr>) \<or> ss_latestVersion s < sv_version u"
      using h 4(2) by (auto simp: history_kept_def)
    then show ?thesis using 1 by force
  next
    case (2 q)
    then have "ss_latestVersion s \<le> ss_latestVersion q" using h 4(2) by (auto simp: history_kept_def)
    then show ?thesis using 2 by simp
  qed
qed

text \<open>
  C9.  Published versions are immutable.  Through any sequence of requests a scene that survives keeps its
  owner and slug, and a version of it that is found later is, but for its yank mark, one that was there before,
  byte for byte, or has a number beyond the latest one before: no request rewrites or reuses a number.
\<close>

theorem published_versions_immutable:
  assumes "zip_law x" and "store_inv x (w_db w)" and "s \<in> set (storeScenes (w_db w))"
    and "each_request x se (\<lambda>r d. ids_fresh r d \<and> we_uuid (sr_env r) 0 \<noteq> ss_id s) rs w"
  shows "history_kept s (w_db w) (w_db (serve_store x se rs w))"
proof -
  have "history_kept s (w_db w) (w_db (fst (store_service x se r w')))"
    if "ids_fresh r (w_db w') \<and> we_uuid (sr_env r) 0 \<noteq> ss_id s" "store_inv x (w_db w')" "history_kept s (w_db w) (w_db w')"
      "lawful x r (w_db w') (w_db (fst (store_service x se r w')))" for r w'
  proof -
    have "versions_stable (we_uuid (sr_env r) 0) (w_db w') (w_db (fst (store_service x se r w')))"
      using that(4) moves_stable [OF _ that(2)] unfolding lawful_def by blast
    then show ?thesis using history_step [OF that(3)] that(1) by auto
  qed
  from serve_invariant [where Q = "history_kept s (w_db w)", OF assms(1,2,4) _ history_refl [OF assms(2,3)] this] show ?thesis by blast
qed

lemma lawful_as:
  assumes "lawful x r d d'" and "\<not> acts_as x r d owner"
  shows "\<exists>acc. acc \<noteq> owner \<and> store_moves x acc (we_uuid (sr_env r) 0) d d'"
proof -
  from assms(1) consider acc where "acts_as x r d acc" "store_moves x acc (we_uuid (sr_env r) 0) d d'"
    | "\<forall>acc. store_moves x acc (we_uuid (sr_env r) 0) d d'"
    unfolding lawful_def by blast
  then show ?thesis
  proof cases
    case (1 acc)
    then show ?thesis using assms(2) by (intro exI [of _ acc]) auto
  next
    case 2
    then show ?thesis by (intro exI [of _ "CHR ''x'' # owner"]) simp
  qed
qed

text \<open>
  C16.  Accounts are isolated.  Requests none of which acts for the owner of a scene, be they sessions of
  others, linked clients of others, or of others without the publishing scope, leave the scene as it was, its
  versions and its gallery included; only its download counter may rise.
\<close>

theorem scenes_of_others_untouched:
  assumes "zip_law x" and "store_inv x (w_db w)" and "s \<in> set (storeScenes (w_db w))"
    and "each_request x se (\<lambda>r d. ids_fresh r d \<and> \<not> acts_as x r d (ss_accountId s)) rs w"
  shows "scene_untouched s (w_db w) (w_db (serve_store x se rs w))"
proof -
  have "scene_untouched s (w_db w) (w_db (fst (store_service x se r w')))"
    if "ids_fresh r (w_db w') \<and> \<not> acts_as x r (w_db w') (ss_accountId s)" "store_inv x (w_db w')"
      "scene_untouched s (w_db w) (w_db w')" "lawful x r (w_db w') (w_db (fst (store_service x se r w')))" for r w'
  proof (rule untouched_trans [OF that(3)])
    fix n assume s: "s\<lparr>ss_downloadCount := n\<rparr> \<in> set (storeScenes (w_db w'))"
    from lawful_as [OF that(4) conjunct2 [OF that(1)]] obtain acc where "acc \<noteq> ss_accountId s"
      "store_moves x acc (we_uuid (sr_env r) 0) (w_db w') (w_db (fst (store_service x se r w')))" by blast
    then show "scene_untouched (s\<lparr>ss_downloadCount := n\<rparr>) (w_db w') (w_db (fst (store_service x se r w')))"
      using moves_untouched [OF _ \<open>store_inv x (w_db w')\<close> s] by simp
  qed
  moreover have "scene_untouched s (w_db w) (w_db w)" using assms(3) by (intro untouchedI) simp_all
  ultimately show ?thesis
    using serve_invariant [where Q = "scene_untouched s (w_db w)", OF assms(1,2,4)] by blast
qed

section \<open>Examples\<close>

definition demo_listing :: "string \<Rightarrow> store_scene" where
  "demo_listing owner = (new_scene demo_uuid ''t'' 1 owner ''Clock'' ''clock'')\<lparr>ss_latestVersion := 1\<rparr>"

definition demo_store :: "string \<Rightarrow> db" where
  "demo_store owner =
     (createSession archive_ext ''s'' ''a'' ''a'' 7 empty_db)
       \<lparr>storeScenes := [demo_listing owner], sceneVersions := [version_row archive_ext ''v'' 1 demo_zip None None [] demo_uuid 1]\<rparr>"

definition demo_store_env :: store_env where
  "demo_store_env = \<lparr>se_apiKey = False, se_moderate = (\<lambda>_ _. None), se_classify = (\<lambda>_ _. None), se_scenesBaseUrl = ''https://scenes''\<rparr>"

definition demo_visit :: "store_verb \<Rightarrow> store_request" where
  "demo_visit verb = \<lparr>sr_verb = verb, sr_scene = demo_uuid, sr_http = demo_web_request None, sr_env = demo_env 9\<rparr>"

lemma demo_store_inv: "store_inv archive_ext (demo_store owner)"
proof -
  obtain z where z: "validateSceneZip archive_ext demo_zip = Inr z" "vz_riskFlags z = []" using demo_zip_valid by blast
  have "length demo_zip < 200" by code_simp
  then have "length demo_zip \<le> maxSceneZipBytes" by (simp add: maxSceneZipBytes_def)
  then show ?thesis
    by (simp add: store_inv_def demo_store_def demo_listing_def new_scene_def listing_typed_def tags_ok_def sceneVisibilities_def
        scene_names_def has_latest_def in_window_def maxVersionsPerScene_def version_sound_def version_row_def z)
qed

lemma demo_store_fresh: "ids_fresh (demo_visit verb) (demo_store owner)"
  by (simp add: ids_fresh_def fresh_ids_def demo_visit_def demo_env_def demo_store_def demo_listing_def new_scene_def
      createSession_def empty_db_def demo_uuid_def numeral_eq_Suc)

lemma demo_store_acts: "acts_as archive_ext (demo_visit verb) (demo_store owner) acc \<longleftrightarrow> acc = ''a''"
  by (auto simp: acts_as_def demo_visit_def readSession_def demo_web_request_def demo_env_def demo_store_def createSession_def
      empty_db_def archive_ext_def sample_ext_def select_one_def session_account_def hashSecret_def
      sessionIdleMaxAgeSeconds_def sessionAbsoluteMaxAgeSeconds_def authenticateLinkedClient_def bearer_token_def)

lemma demo_store_row:
  "demo_listing owner \<in> set (storeScenes (demo_store owner))" "ss_accountId (demo_listing owner) = owner"
  "we_uuid (sr_env (demo_visit verb)) 0 \<noteq> ss_id (demo_listing owner)"
  by (simp_all add: demo_store_def demo_listing_def new_scene_def demo_visit_def demo_env_def demo_uuid_def numeral_eq_Suc)

theorem store_stays_well_formed_witness:
  "store_inv archive_ext (w_db (serve_store archive_ext demo_store_env [demo_visit (Yank ''1'')] \<lparr>w_db = demo_store ''a'', w_limits = idle_limiter\<rparr>))
   \<and> versions_consecutive (w_db (serve_store archive_ext demo_store_env [demo_visit (Yank ''1'')] \<lparr>w_db = demo_store ''a'', w_limits = idle_limiter\<rparr>))"
proof -
  have "versions_consecutive (demo_store ''a'')"
    by (simp add: versions_consecutive_def version_numbers_def demo_store_def demo_listing_def new_scene_def version_row_def
        maxVersionsPerScene_def)
  then show ?thesis
    using store_stays_well_formed [of archive_ext "\<lparr>w_db = demo_store ''a'', w_limits = idle_limiter\<rparr>" demo_store_env
        "[demo_visit (Yank ''1'')]"]
    by (simp add: archive_law demo_store_inv demo_store_fresh)
qed

theorem published_versions_immutable_witness:
  "history_kept (demo_listing ''a'') (demo_store ''a'')
     (w_db (serve_store archive_ext demo_store_env [demo_visit (Yank ''1'')] \<lparr>w_db = demo_store ''a'', w_limits = idle_limiter\<rparr>))"
  using published_versions_immutable [of archive_ext "\<lparr>w_db = demo_store ''a'', w_limits = idle_limiter\<rparr>" "demo_listing ''a''" demo_store_env
      "[demo_visit (Yank ''1'')]"]
  by (simp add: archive_law demo_store_inv demo_store_fresh demo_store_row)

theorem scenes_of_others_untouched_witness:
  "scene_untouched (demo_listing ''b'') (demo_store ''b'')
     (w_db (serve_store archive_ext demo_store_env [demo_visit Delete] \<lparr>w_db = demo_store ''b'', w_limits = idle_limiter\<rparr>))"
  using scenes_of_others_untouched [of archive_ext "\<lparr>w_db = demo_store ''b'', w_limits = idle_limiter\<rparr>" "demo_listing ''b''" demo_store_env
      "[demo_visit Delete]"]
  by (simp add: archive_law demo_store_inv demo_store_fresh demo_store_acts demo_store_row)

end
