(* ===== verification/StoreGuarantees.thy ===== *)
theory StoreGuarantees imports StoreService begin

text \<open>
  What the store promises of contents: nothing is shown that moderation has not passed, the quotas bound
  what an account stores, private scenes are read only by those entitled to, and frames get the scenes
  that were validated.
\<close>

section \<open>Moderation\<close>

text \<open>An answer of the moderation service that flags none of the blocked categories.\<close>

definition clean_payload :: "json \<Rightarrow> bool" where
  "clean_payload payload \<longleftrightarrow>
     (case array_of (map_of (obj_fields (Some payload)) ''results'') of
        None \<Rightarrow> False
      | Some results \<Rightarrow>
          results \<noteq> [] \<and> list_all (\<lambda>r. r \<noteq> JNull
            \<and> list_all (\<lambda>(c, v). c \<in> set blockedCategories \<longrightarrow> \<not> js_truthy v)
                (obj_fields (map_of (obj_fields (Some r)) ''categories''))) results)"

definition moderated :: "ext \<Rightarrow> store_env \<Rightarrow> string option list \<Rightarrow> (bytes \<times> string) option \<Rightarrow> bool" where
  "moderated x se texts picture \<longleftrightarrow>
     (let parts = moderation_parts x texts picture
      in parts = [] \<or> list_ex (\<lambda>k. case se_moderate se k parts of None \<Rightarrow> False | Some p \<Rightarrow> clean_payload p) [0, 1])"

definition text_moderated :: "ext \<Rightarrow> store_env \<Rightarrow> string \<Rightarrow> bool" where
  "text_moderated x se t \<longleftrightarrow> (\<exists>texts picture. Some t \<in> set texts \<and> moderated x se texts picture)"

definition picture_moderated :: "ext \<Rightarrow> store_env \<Rightarrow> bytes \<Rightarrow> bool" where
  "picture_moderated x se b \<longleftrightarrow> (\<exists>texts t. moderated x se texts (Some (b, t)))"

text \<open>What a public scene shows was shown in public before or has been moderated.\<close>

definition shown_before :: "db \<Rightarrow> store_scene \<Rightarrow> (store_scene \<Rightarrow> bool) \<Rightarrow> bool" where
  "shown_before d s' P \<longleftrightarrow> (\<exists>s\<in>set (storeScenes d). ss_id s = ss_id s' \<and> is_public s \<and> P s)"

definition shows_moderated :: "ext \<Rightarrow> store_env \<Rightarrow> db \<Rightarrow> store_scene \<Rightarrow> bool" where
  "shows_moderated x se d s' \<longleftrightarrow>
     (shown_before d s' (\<lambda>s. ss_name s = ss_name s') \<or> text_moderated x se (ss_name s'))
     \<and> (case ss_description s' of None \<Rightarrow> True
        | Some t \<Rightarrow> shown_before d s' (\<lambda>s. ss_description s = Some t) \<or> text_moderated x se t)
     \<and> (case ss_previewImage s' of None \<Rightarrow> True
        | Some b \<Rightarrow> shown_before d s' (\<lambda>s. ss_previewImage s = Some b) \<or> picture_moderated x se b)"

lemma flagged_clean:
  assumes "those (map flagged_of results) = Some flagged" and "concat flagged = []" and "r \<in> set results"
  shows "r \<noteq> JNull \<and> (\<forall>(c, v)\<in>set (obj_fields (map_of (obj_fields (Some r)) ''categories'')). c \<in> set blockedCategories \<longrightarrow> \<not> js_truthy v)"
  using assms
proof (induction results arbitrary: flagged)
  case (Cons q results)
  then obtain f fs where f: "flagged_of q = Some f" "those (map flagged_of results) = Some fs" "flagged = f # fs"
    by (auto split: option.splits)
  then have "f = []" "concat fs = []" using Cons.prems(2) by auto
  with Cons.IH [OF f(2)] f(1) Cons.prems(3) show ?case
    by (auto simp: flagged_of_def filter_empty_conv split: if_splits)
qed simp

lemma attempt_clean: "moderation_attempt p = Some (ModerationOk b) \<Longrightarrow> clean_payload p"
proof -
  assume a: "moderation_attempt p = Some (ModerationOk b)"
  then obtain results flagged where r: "array_of (map_of (obj_fields (Some p)) ''results'') = Some results" "results \<noteq> []"
    "those (map flagged_of results) = Some flagged" "js_set (concat flagged) = []"
    by (auto simp: moderation_attempt_def Let_def split: option.splits if_splits)
  have "set (js_set (concat flagged)) = set (concat flagged)" by (rule conjunct1 [OF js_set_props])
  with r(4) have "concat flagged = []" by simp
  from flagged_clean [OF r(3) this] r(1,2) show ?thesis by (auto simp: clean_payload_def list_all_iff)
qed

lemma moderation_passed:
  assumes "moderateStoreContent x se texts picture = ModerationOk b" and "se_apiKey se"
  shows "moderated x se texts picture"
  using assms attempt_clean
  by (auto simp: moderateStoreContent_def moderated_def Let_def bind_eq_Some_conv bind_eq_None_conv split: if_splits option.splits)

lemma refusal_passed:
  assumes "moderation_refusal rq a actor ev extra tg (moderateStoreContent x se texts picture) d = None" and "se_apiKey se"
  shows "moderated x se texts picture"
  using assms moderation_passed [OF _ assms(2), of x texts picture]
  by (auto simp: moderation_refusal_def Let_def split: moderation_result.splits)

text \<open>How an edit of a row shows in public.\<close>

lemma shows_kept:
  assumes "s \<in> set (storeScenes d)" and "is_public s" and "ss_id s' = ss_id s"
    and "ss_name s' = ss_name s \<or> text_moderated x se (ss_name s')"
    and "ss_description s' = ss_description s \<or> (case ss_description s' of None \<Rightarrow> True | Some t \<Rightarrow> text_moderated x se t)"
    and "ss_previewImage s' = ss_previewImage s \<or> (case ss_previewImage s' of None \<Rightarrow> True | Some b \<Rightarrow> picture_moderated x se b)"
  shows "shows_moderated x se d s'"
  using assms by (auto simp: shows_moderated_def shown_before_def split: option.splits)

lemma shows_fresh:
  assumes "text_moderated x se (ss_name s')"
    and "case ss_description s' of None \<Rightarrow> True | Some t \<Rightarrow> text_moderated x se t"
    and "case ss_previewImage s' of None \<Rightarrow> True | Some b \<Rightarrow> picture_moderated x se b"
  shows "shows_moderated x se d s'"
  using assms by (simp add: shows_moderated_def split: option.splits)

definition all_shown :: "ext \<Rightarrow> store_env \<Rightarrow> db \<Rightarrow> db \<Rightarrow> bool" where
  "all_shown x se d d' \<longleftrightarrow> (\<forall>s\<in>set (storeScenes d'). is_public s \<longrightarrow> shows_moderated x se d s)"

lemma all_shown_same: "storeScenes d' = storeScenes d \<Longrightarrow> all_shown x se d d'"
  by (auto simp: all_shown_def intro: shows_kept)

lemma all_shown_edit:
  assumes "storeScenes d' = update_where (\<lambda>r. ss_id r = ss_id s) f (storeScenes d)"
    and "\<And>q. q \<in> set (storeScenes d) \<Longrightarrow> ss_id q = ss_id s \<Longrightarrow> is_public (f q) \<Longrightarrow> shows_moderated x se d (f q)"
  shows "all_shown x se d d'"
  using assms(2) unfolding all_shown_def assms(1)
  by (auto simp: set_update_where intro: shows_kept split: if_splits)

text \<open>An edit that keeps visibility, id and what is shown but for a moderated name.\<close>

definition quiet_edit :: "ext \<Rightarrow> store_env \<Rightarrow> (store_scene \<Rightarrow> store_scene) \<Rightarrow> bool" where
  "quiet_edit x se f \<longleftrightarrow>
     (\<forall>s. ss_id (f s) = ss_id s \<and> ss_visibility (f s) = ss_visibility s \<and> ss_description (f s) = ss_description s
        \<and> (ss_name (f s) = ss_name s \<or> text_moderated x se (ss_name (f s)))
        \<and> (ss_previewImage (f s) = ss_previewImage s \<or> ss_previewImage (f s) = None))"

lemma all_shown_quiet:
  assumes "storeScenes d' = update_where P f (storeScenes d)" and "quiet_edit x se f"
  shows "all_shown x se d d'"
proof -
  have "shows_moderated x se d (f q)" if q: "q \<in> set (storeScenes d)" "is_public (f q)" for q
  proof (rule shows_kept [OF q(1)])
    show "is_public q" "ss_id (f q) = ss_id q" "ss_name (f q) = ss_name q \<or> text_moderated x se (ss_name (f q))"
      using q assms(2) by (auto simp: quiet_edit_def is_public_def)
    show "ss_description (f q) = ss_description q \<or> (case ss_description (f q) of None \<Rightarrow> True | Some t \<Rightarrow> text_moderated x se t)"
      using assms(2) by (simp add: quiet_edit_def)
    show "ss_previewImage (f q) = ss_previewImage q \<or> (case ss_previewImage (f q) of None \<Rightarrow> True | Some b \<Rightarrow> picture_moderated x se b)"
      using assms(2) by (auto simp: quiet_edit_def)
  qed
  then show ?thesis unfolding all_shown_def assms(1) by (auto simp: set_update_where intro: shows_kept)
qed

lemma sync_quiet:
  assumes "syncLatestSceneZipPreview x env s lead d = Inr (d1, n)"
  obtains f where "storeScenes d1 = update_where (\<lambda>r. ss_id r = ss_id s) f (storeScenes d)" "quiet_edit x se f"
    "\<And>q. ss_previewImage (f q) = ss_previewImage q"
  using assms append_version_tables(1)
  by (auto simp: syncLatestSceneZipPreview_def Let_def quiet_edit_def split: option.splits sum.splits if_splits)

lemma audit_same [simp]: "same_store d (recordAuditEvent rq a actor ev m tg d)"
  by (simp add: same_store_def)

lemma refusal_same: "moderation_refusal rq a actor ev extra tg r d = Some (d', resp) \<Longrightarrow> same_store d d'"
  by (auto simp: moderation_refusal_def Let_def split: moderation_result.splits)

lemma store_content_cases:
  obtains (refused) "fst (store_content x env rq acc profile s scenes latest renameTo d) = d"
  | (stored) content z v d1 where
      "\<not> (\<not> is_public s \<and> privateSceneBytesForAccount acc d + length content > maxPrivateSceneBytesPerAccount)"
      "validateSceneZip x content = Inr z" "append_version v d = Some d1" "sv_content v = content" "sv_sizeBytes v = length content"
      "sv_sceneId v = ss_id s"
      "same_store (update_scene (ss_id s) (edited_row env renameTo z (ss_latestVersion s + 1)) d1)
         (fst (store_content x env rq acc profile s scenes latest renameTo d))"
proof (cases "rebuildZipWithScenes x (sv_content latest) (json_pretty 0 (JArr scenes)) renameTo")
  case None
  then show ?thesis by (intro refused) (simp add: store_content_def)
next
  case c: (Some content)
  show ?thesis
  proof (cases "length content > maxSceneZipBytes
      \<or> (\<not> is_public s \<and> privateSceneBytesForAccount acc d + length content > maxPrivateSceneBytesPerAccount)")
    case True
    then show ?thesis using c by (intro refused) (auto simp: store_content_def)
  next
    case q: False
    show ?thesis
    proof (cases "validateSceneZip x content")
      case (Inl e)
      then show ?thesis using c q by (intro refused) (simp add: store_content_def)
    next
      case z: (Inr z)
      let ?v = "version_row x (we_uuid env 2) (we_now env) content
        (case vz_frameosVersion z of Some v \<Rightarrow> Some v | None \<Rightarrow> sv_frameosVersion latest) None (vz_riskFlags z) (ss_id s) (ss_latestVersion s + 1)"
      show ?thesis
      proof (cases "append_version ?v d")
        case None
        then show ?thesis using c q z by (intro refused) (simp add: store_content_def Let_def)
      next
        case (Some d1)
        then show ?thesis using c q z
          by (intro stored [of content z ?v d1]) (auto simp: store_content_def Let_def split: option.split)
      qed
    qed
  qed
qed

lemma save_shown:
  assumes "se_apiKey se"
  shows "all_shown x se d (fst (save_content x se env rq acc profile s d))"
proof -
  have stored: "all_shown x se d (fst (store_content x env rq acc profile s scenes latest renameTo d))"
    if "case renameTo of None \<Rightarrow> True | Some n \<Rightarrow> text_moderated x se n" for scenes latest renameTo
  proof -
    have "quiet_edit x se (edited_row env renameTo z n)" for z n
      using that by (auto simp: quiet_edit_def edited_row_def split: option.split)
    note quiet = all_shown_quiet [OF _ this]
    show ?thesis
    proof (cases rule: store_content_cases [of x env rq acc profile s scenes latest renameTo d])
      case refused
      then show ?thesis by (simp add: all_shown_same)
    next
      case (stored content z v d1)
      then show ?thesis using append_version_tables(1) [OF stored(3)] by (intro quiet) (simp add: same_store_def)
    qed
  qed
  have renamed: "text_moderated x se n"
    if "moderation_refusal rq acc actor ev extra tg (moderateStoreContent x se [Some n] None) d = None" for n actor ev extra tg
    using refusal_passed [OF that assms] by (auto simp: text_moderated_def intro: exI [of _ "[Some n]"])
  have refused: "all_shown x se d d1" if "moderation_refusal rq acc actor ev extra tg res d = Some (d1, resp)" for actor ev extra tg res d1 resp
    using that by (auto simp: moderation_refusal_def Let_def intro: all_shown_same split: moderation_result.splits)
  show ?thesis
  proof (cases "\<exists>scenes latest. array_of (map_of (readJsonObject rq) ''scenes'') = Some scenes \<and> scenes \<noteq> [] \<and> latest_unyanked (ss_id s) d = Some latest")
    case False
    then show ?thesis by (auto simp: save_content_def all_shown_same split: option.split)
  next
    case True
    then obtain scenes latest where b: "array_of (map_of (readJsonObject rq) ''scenes'') = Some scenes" "scenes \<noteq> []"
      "latest_unyanked (ss_id s) d = Some latest" by blast
    show ?thesis
    proof (cases "rename_of x scenes latest s")
      case None
      then show ?thesis using b stored [where renameTo = None] by (simp add: save_content_def Let_def)
    next
      case (Some n)
      then show ?thesis using b stored [where renameTo = "Some n"] renamed [where n = n] refused
        by (auto simp: save_content_def Let_def all_shown_same split: option.split)
    qed
  qed
qed

lemma patch_cases:
  obtains (refused) "same_store d (fst (patch_scene x se env rq acc profile s d))"
  | (stored) ch newContent d1 where "scene_changes_of acc (readJsonObject rq) s d = Inr ch"
      "\<And>texts picture. se_apiKey se \<Longrightarrow> edit_moderation ch s = Some (texts, picture) \<Longrightarrow> moderated x se texts picture"
      "new_minimum_content x ch s d = Inr newContent" "commit_edit x env ch newContent s d = Some d1"
      "same_store d1 (fst (patch_scene x se env rq acc profile s d))"
proof (cases "scene_changes_of acc (readJsonObject rq) s d")
  case (Inl r)
  then show ?thesis by (intro refused) (simp add: patch_scene_def Let_def)
next
  case (Inr ch)
  let ?m = "Option.bind (edit_moderation ch s) (\<lambda>(texts, picture). moderation_refusal rq acc (session_actor acc profile)
     ''store.publish_rejected'' [(''name'', JStr (ss_name s))] (scene_target s) (moderateStoreContent x se texts picture) d)"
  show ?thesis
  proof (cases ?m)
    case (Some refusal)
    then have "same_store d (fst refusal)"
      by (cases refusal) (auto simp: bind_eq_Some_conv dest: refusal_same)
    then show ?thesis using Inr Some by (intro refused) (simp add: patch_scene_def Let_def)
  next
    case m: None
    show ?thesis
    proof (cases "new_minimum_content x ch s d")
      case (Inl r)
      then show ?thesis using Inr m by (intro refused) (simp add: patch_scene_def Let_def)
    next
      case n: (Inr newContent)
      show ?thesis
      proof (cases "commit_edit x env ch newContent s d")
        case None
        then show ?thesis using Inr m n by (intro refused) (simp add: patch_scene_def Let_def)
      next
        case (Some d1)
        show ?thesis
        proof (rule stored [OF Inr _ n Some])
          show "moderated x se texts picture" if "se_apiKey se" "edit_moderation ch s = Some (texts, picture)" for texts picture
            using m that refusal_passed [OF _ that(1)] by auto
          show "same_store d1 (fst (patch_scene x se env rq acc profile s d))"
            using Inr m n Some by (auto simp: patch_scene_def Let_def same_store_def split: option.split)
        qed
      qed
    qed
  qed
qed

lemma commit_edit_rows:
  assumes "commit_edit x env ch newContent s d = Some d1"
  obtains l where "storeScenes d1 = update_where (\<lambda>r. ss_id r = ss_id s) (changed_scene env ch l) (storeScenes d)"
  using assms append_version_tables(1) that
  by (cases newContent) (auto simp: commit_edit_def Let_def)

lemma patch_shown:
  assumes key: "se_apiKey se" and inv: "store_inv x d" and s: "s \<in> set (storeScenes d)"
  shows "all_shown x se d (fst (patch_scene x se env rq acc profile s d))"
proof (cases rule: patch_cases [of d x se env rq acc profile s])
  case refused
  then show ?thesis by (intro all_shown_same) (simp add: same_store_def)
next
  case (stored ch newContent d1)
  note mod = stored(2) [OF key]
  obtain l where l: "storeScenes d1 = update_where (\<lambda>r. ss_id r = ss_id s) (changed_scene env ch l) (storeScenes d)"
    by (rule commit_edit_rows [OF stored(4)])
  have "shows_moderated x se d (changed_scene env ch l s)" if pub: "is_public (changed_scene env ch l s)"
  proof (cases "is_public s")
    case True
    then have "text_moderated x se t" if "ch_description ch = Some (Some t)" for t
      using mod that unfolding text_moderated_def
      by (cases "ch_visibility ch = Some ''public'' \<and> \<not> is_public s") (auto simp: edit_moderation_def Let_def intro!: exI)
    then show ?thesis using True s
      by (intro shows_kept [OF s]) (auto simp: changed_scene_def split: option.split)
  next
    case False
    then have v: "ch_visibility ch = Some ''public''"
      using pub by (auto simp: changed_scene_def is_public_def split: option.splits)
    let ?texts = "[Some (ss_name s),
        case (case ch_description ch of Some v \<Rightarrow> v | None \<Rightarrow> None) of Some t \<Rightarrow> Some t | None \<Rightarrow> ss_description s,
        case ch_tags ch of Some tags \<Rightarrow> if tags = [] then None else Some (js_join '' '' tags) | None \<Rightarrow> None]"
    let ?pic = "map_option (\<lambda>p. (p, case ss_previewImageType s of Some t \<Rightarrow> t | None \<Rightarrow> ''image/jpeg'')) (ss_previewImage s)"
    have e: "edit_moderation ch s = Some (?texts, ?pic)" using v False by (simp add: edit_moderation_def Let_def)
    have m: "moderated x se ?texts ?pic" by (rule mod [OF e])
    have t: "Some t \<in> set ?texts \<Longrightarrow> text_moderated x se t" for t using m unfolding text_moderated_def by blast
    show ?thesis
    proof (rule shows_fresh)
      show "text_moderated x se (ss_name (changed_scene env ch l s))" by (rule t) (simp add: changed_scene_def)
      show "case ss_description (changed_scene env ch l s) of None \<Rightarrow> True | Some t \<Rightarrow> text_moderated x se t"
        using t by (auto simp: changed_scene_def split: option.splits)
      show "case ss_previewImage (changed_scene env ch l s) of None \<Rightarrow> True | Some b \<Rightarrow> picture_moderated x se b"
        using m unfolding picture_moderated_def changed_scene_def
        by (cases "ss_previewImage s") (simp_all, blast)
    qed
  qed
  then have "all_shown x se d d1"
    using inv_unique [OF inv s] by (intro all_shown_edit [OF l]) blast
  then show ?thesis using stored(5) by (simp add: all_shown_def same_store_def)
qed

lemma all_shown_tables: "all_shown x se d d1 \<Longrightarrow> storeScenes d2 = storeScenes d1 \<Longrightarrow> all_shown x se d d2"
  by (simp add: all_shown_def)

lemma all_shown_from:
  assumes "storeScenes d1 = storeScenes d" and "all_shown x se d1 d2" shows "all_shown x se d d2"
proof -
  have e: "shown_before d1 = shown_before d" by (intro ext) (simp add: shown_before_def assms(1))
  show ?thesis using assms(2) unfolding all_shown_def shows_moderated_def e .
qed

lemma audit_scenes [simp]: "storeScenes (image_audit rq a profile ev m s d) = storeScenes d"
  by (simp add: image_audit_def)

lemma sync_shown: "syncLatestSceneZipPreview x env s lead d = Inr (d1, n) \<Longrightarrow> all_shown x se d d1"
  by (metis sync_quiet all_shown_quiet)

lemma add_image_cases:
  obtains (refused) "same_store d (fst (add_image x se env rq acc profile s d))"
  | (stored) content t where "length content \<le> maxPreviewImageBytes" "detectImageContentType content = Some t"
      "length (filter (\<lambda>i. si_sceneId i = ss_id s) (sceneImages d)) < maxImagesPerScene"
      "\<not> (\<not> is_public s \<and> privateSceneBytesForAccount acc d + length content > maxPrivateSceneBytesPerAccount)"
      "se_apiKey se \<Longrightarrow> moderated x se [] (Some (content, t))"
      "fst (add_image x se env rq acc profile s d) = fst (insert_image x env rq acc profile s content t d)"
proof (cases "decodeBackupContent x (map_of (readJsonObject rq) ''content_base64'')")
  case None
  then show ?thesis by (intro refused) (simp add: add_image_def)
next
  case c: (Some content)
  show ?thesis
  proof (cases "ss_status s = ''pulled'' \<or> content = [] \<or> length content > maxPreviewImageBytes")
    case True
    then show ?thesis using c by (intro refused) (auto simp: add_image_def)
  next
    case ok: False
    show ?thesis
    proof (cases "detectImageContentType content")
      case None
      then show ?thesis using c ok by (intro refused) (simp add: add_image_def)
    next
      case t: (Some t)
      show ?thesis
      proof (cases "length (filter (\<lambda>i. si_sceneId i = ss_id s) (sceneImages d)) \<ge> maxImagesPerScene
          \<or> (\<not> is_public s \<and> privateSceneBytesForAccount acc d + length content > maxPrivateSceneBytesPerAccount)")
        case True
        then show ?thesis using c ok t by (intro refused) (auto simp: add_image_def)
      next
        case q: False
        let ?m = "moderation_refusal rq acc (session_actor acc profile) ''store.image_rejected'' [] (scene_target s)
          (moderateStoreContent x se [] (Some (content, t))) d"
        show ?thesis
        proof (cases ?m)
          case (Some refusal)
          then have "same_store d (fst refusal)" by (cases refusal) (auto dest: refusal_same)
          then show ?thesis using c ok t q Some by (intro refused) (simp add: add_image_def)
        next
          case None
          then show ?thesis using c ok t q refusal_passed [OF None]
            by (intro stored [of content t]) (auto simp: add_image_def)
        qed
      qed
    qed
  qed
qed

lemma add_image_shown: "all_shown x se d (fst (add_image x se env rq acc profile s d))"
proof -
  have inserted: "all_shown x se d (fst (insert_image x env rq acc profile s content t d))" for content t
  proof -
    let ?row = "\<lparr>si_id = we_uuid env 0, si_content = content, si_contentType = t,
      si_position = foldl max 0 (map si_position (filter (\<lambda>i. si_sceneId i = ss_id s) (sceneImages d))) + 1,
      si_sceneId = ss_id s, si_createdAt = we_now env\<rparr>"
    have "all_shown x se d d2" if "syncLatestSceneZipPreview x env s (Some content) (d\<lparr>sceneImages := sceneImages d @ [?row]\<rparr>) = Inr (d2, n)"
      for d2 n
      by (rule all_shown_from [OF _ sync_shown [OF that]]) simp
    then show ?thesis
      by (auto simp: insert_image_def Let_def all_shown_same split: sum.split option.split elim!: all_shown_tables)
  qed
  show ?thesis
  proof (cases rule: add_image_cases [of d x se env rq acc profile s])
    case refused
    then show ?thesis by (intro all_shown_same) (simp add: same_store_def)
  next
    case (stored content t)
    then show ?thesis using inserted by simp
  qed
qed

lemma remove_image_shown: "all_shown x se d (fst (remove_image x env rq imageId acc profile s d))"
  by (auto simp: remove_image_def Let_def all_shown_same split: sum.split dest!: sync_shown elim!: all_shown_tables)

lemma remove_preview_shown: "all_shown x se d (fst (remove_preview x env rq acc profile s d))"
proof (cases "syncLatestSceneZipPreview x env s (gallery_lead (ss_id s) d) d")
  case (Inl r)
  then show ?thesis by (simp add: remove_preview_def all_shown_same)
next
  case (Inr r)
  obtain d1 n where r: "r = (d1, n)" by (cases r)
  obtain f where f: "storeScenes d1 = update_where (\<lambda>r. ss_id r = ss_id s) f (storeScenes d)" "quiet_edit x se f"
    by (rule sync_quiet [OF Inr [unfolded r]])
  let ?g = "\<lambda>s. s\<lparr>ss_previewImage := None, ss_previewImageHeight := None, ss_previewImageType := None,
      ss_previewImageWidth := None, ss_updatedAt := we_now env\<rparr>"
  have "update_where (\<lambda>r. ss_id r = ss_id s) ?g (storeScenes d1) = update_where (\<lambda>r. ss_id r = ss_id s) (?g \<circ> f) (storeScenes d)"
    using f(2) unfolding f(1) by (auto simp: update_where_def quiet_edit_def)
  moreover have "quiet_edit x se (?g \<circ> f)" using f(2) by (simp add: quiet_edit_def)
  ultimately show ?thesis
    using Inr r by (auto simp: remove_preview_def all_shown_same intro: all_shown_quiet)
qed

lemma delete_shown: "all_shown x se d (fst (delete_scene rq acc profile s d))"
  by (auto simp: all_shown_def delete_scene_def delete_scene_rows_def intro: shows_kept)

lemma yank_shown: "all_shown x se d (fst (yank_version env rq sceneId raw acc profile d))"
  by (rule all_shown_same) (simp add: yank_version_def Let_def set_yanked_def split: option.split json.split)

lemma count_shown: "all_shown x se d (count_download i d)"
  by (rule all_shown_quiet) (auto simp: count_download_def quiet_edit_def)

lemma fork_shown: "all_shown x se d (fst (fork_content x se env rq acc profile source scenes n d))"
proof -
  have "all_shown x se d (fst (fork_commit x env rq acc profile source latest content z n d))" for latest content z n
  proof -
    have "all_shown x se d d'"
      if "storeScenes d' = update_where (\<lambda>r. ss_id r = we_uuid env 0) (forked_row env source z latest) (storeScenes d @ [s])"
        "\<not> is_public s" for d' s
      using that by (auto simp: all_shown_def set_update_where forked_row_def is_public_def intro: shows_kept)
    note m = this [where s = "new_scene (we_uuid env 0) (we_uuid env 1) (we_now env) acc n _"]
    show ?thesis
      by (auto simp: fork_commit_def Let_def all_shown_same insert_version_def new_scene_def is_public_def
          intro!: m split: option.split)
  qed
  then show ?thesis by (simp add: fork_content_def all_shown_same split: option.split sum.split)
qed

lemma publish_checks_moderated:
  assumes "publish_checks x se env rq pin d = Inr plan" and "se_apiKey se"
  shows "moderated x se [Some (pp_name plan), pp_description plan]
    (map_option (\<lambda>p. (p, ''image/jpeg'')) (vz_previewImage (pp_uploaded plan)))"
  by (rule publish_checks_parts [OF assms(1)]) (use refusal_passed [OF _ assms(2)] in simp)

lemma publish_checks_same: "publish_checks x se env rq pin d = Inl r \<Longrightarrow> same_store d (fst r)"
  by (cases r) (auto dest: publish_checks_refused refusal_same)

text \<open>What the writes of a publish come to.\<close>

lemma publish_commit_cases:
  obtains (refused) "same_store d (fst (publish_commit x se env rq pin plan d))"
  | (created) s d1 where "createScene x env (pi_accountId pin) (pp_name plan) d = Some (d1, s)" "pp_existing plan = None"
      "same_store d1 (fst (publish_commit x se env rq pin plan d))"
  | (existing) s v d1 where "pp_existing plan = Some s" "append_version v d = Some d1" "sv_sceneId v = ss_id s"
      "sv_sizeBytes v = length (pp_content plan)"
      "same_store (update_scene (ss_id s) (published_row env pin plan (ss_latestVersion s + 1)) d1)
         (fst (publish_commit x se env rq pin plan d))"
  | (new) s v d1 d2 where "pp_existing plan = None" "createScene x env (pi_accountId pin) (pp_name plan) d = Some (d1, s)"
      "append_version v d1 = Some d2" "sv_sceneId v = ss_id s" "sv_sizeBytes v = length (pp_content plan)"
      "same_store (update_scene (ss_id s) (published_row env pin plan (ss_latestVersion s + 1)) d2)
         (fst (publish_commit x se env rq pin plan d))"
proof (cases "pp_existing plan")
  case (Some s)
  let ?v = "version_row x (we_uuid env 2) (we_now env) (pp_content plan) (vz_frameosVersion (pp_zip plan))
      (pi_linkedClientId pin) (vz_riskFlags (pp_zip plan)) (ss_id s) (ss_latestVersion s + 1)"
  show ?thesis
  proof (cases "append_version ?v d")
    case None
    then show ?thesis using Some by (intro refused) (simp add: publish_commit_def Let_def)
  next
    case (Some d2)
    then show ?thesis using \<open>pp_existing plan = Some s\<close>
      by (intro existing [of s ?v d2]) (auto simp: publish_commit_def Let_def split: option.split)
  qed
next
  case none: None
  show ?thesis
  proof (cases "createScene x env (pi_accountId pin) (pp_name plan) d")
    case None
    then show ?thesis using none by (intro refused) (simp add: publish_commit_def)
  next
    case (Some c)
    obtain d1 s where c: "c = (d1, s)" by (cases c)
    let ?v = "version_row x (we_uuid env 2) (we_now env) (pp_content plan) (vz_frameosVersion (pp_zip plan))
      (pi_linkedClientId pin) (vz_riskFlags (pp_zip plan)) (ss_id s) (ss_latestVersion s + 1)"
    show ?thesis
    proof (cases "append_version ?v d1")
      case None
      then show ?thesis using none Some c by (intro created [of d1 s]) (auto simp: publish_commit_def Let_def)
    next
      case v: (Some d2)
      then show ?thesis using none Some c
        by (intro new [of d1 s ?v d2]) (auto simp: publish_commit_def Let_def split: option.split)
    qed
  qed
qed

lemma createScene_row:
  assumes "createScene x env acc n d = Some (d1, s)"
  shows "d1 = d\<lparr>storeScenes := storeScenes d @ [s]\<rparr>" "\<not> is_public s" "ss_id s = we_uuid env 0" "ss_accountId s = acc"
    "preview_bytes s = 0"
  using assms by (auto simp: createScene_def Let_def new_scene_def is_public_def preview_bytes_def)

lemma publish_shown:
  assumes "se_apiKey se"
  shows "all_shown x se d (fst (publishStoreScene x se env rq pin d))"
proof (cases "publish_checks x se env rq pin d")
  case (Inl r)
  then show ?thesis using publish_checks_same [OF Inl]
    by (intro all_shown_same) (simp add: publishStoreScene_def same_store_def)
next
  case (Inr plan)
  note m = publish_checks_moderated [OF Inr assms]
  have row: "shows_moderated x se d (published_row env pin plan n q)" for q n
  proof (rule shows_fresh)
    have texts: "text_moderated x se t" if "Some t \<in> {Some (pp_name plan), pp_description plan}" for t
      unfolding text_moderated_def
      by (intro exI [of _ "[Some (pp_name plan), pp_description plan]"] exI conjI) (use that m in simp_all)
    show "text_moderated x se (ss_name (published_row env pin plan n q))" by (rule texts) simp
    show "case ss_description (published_row env pin plan n q) of None \<Rightarrow> True | Some t \<Rightarrow> text_moderated x se t"
      using texts by (auto simp: published_row_def split: option.split)
    show "case ss_previewImage (published_row env pin plan n q) of None \<Rightarrow> True | Some b \<Rightarrow> picture_moderated x se b"
    proof (cases "vz_previewImage (pp_uploaded plan)")
      case (Some b)
      then have "picture_moderated x se b" using m unfolding picture_moderated_def by auto
      then show ?thesis using Some by (simp add: published_row_def)
    qed (simp add: published_row_def)
  qed
  have e: "fst (publishStoreScene x se env rq pin d) = fst (publish_commit x se env rq pin plan d)"
    using Inr by (simp add: publishStoreScene_def)
  show ?thesis unfolding e
  proof (cases rule: publish_commit_cases [of d x se env rq pin plan])
    case refused
    then show "all_shown x se d (fst (publish_commit x se env rq pin plan d))"
      by (intro all_shown_same) (simp add: same_store_def)
  next
    case (created s d1)
    then show "all_shown x se d (fst (publish_commit x se env rq pin plan d))"
      using createScene_row [OF created(1)] by (auto simp: all_shown_def same_store_def intro: shows_kept)
  next
    case (existing s v d1)
    then have "storeScenes (fst (publish_commit x se env rq pin plan d))
        = update_where (\<lambda>r. ss_id r = ss_id s) (published_row env pin plan (ss_latestVersion s + 1)) (storeScenes d)"
      using append_version_tables(1) [OF existing(2)] by (simp add: same_store_def)
    then show "all_shown x se d (fst (publish_commit x se env rq pin plan d))"
      by (rule all_shown_edit) (rule row)
  next
    case (new s v d1 d2)
    then have "storeScenes (fst (publish_commit x se env rq pin plan d))
        = update_where (\<lambda>r. ss_id r = ss_id s) (published_row env pin plan (ss_latestVersion s + 1)) (storeScenes d @ [s])"
      using append_version_tables(1) [OF new(3)] createScene_row(1) [OF new(2)] by (simp add: same_store_def)
    then show "all_shown x se d (fst (publish_commit x se env rq pin plan d))"
      unfolding all_shown_def using createScene_row(2) [OF new(2)] row by (auto simp: set_update_where intro: shows_kept)
  qed
qed

section \<open>The galleries\<close>

text \<open>A picture enters a gallery by passing moderation, or as the copy of one that is in a gallery.\<close>

definition galleries_moderated :: "ext \<Rightarrow> store_env \<Rightarrow> db \<Rightarrow> db \<Rightarrow> bool" where
  "galleries_moderated x se d d' \<longleftrightarrow>
     (\<forall>i\<in>set (sceneImages d'). si_content i \<in> si_content ` set (sceneImages d) \<or> picture_moderated x se (si_content i))"

lemma galleries_fewer: "set (sceneImages d') \<subseteq> set (sceneImages d) \<Longrightarrow> galleries_moderated x se d d'"
  by (auto simp: galleries_moderated_def)

lemma galleries_same: "sceneImages d' = sceneImages d \<Longrightarrow> galleries_moderated x se d d'"
  by (simp add: galleries_fewer)

lemma sync_images: "syncLatestSceneZipPreview x env s lead d = Inr (d1, n) \<Longrightarrow> sceneImages d1 = sceneImages d"
  by (auto simp: syncLatestSceneZipPreview_def Let_def append_version_tables(2) split: option.splits sum.splits if_splits)

lemma image_audit_images [simp]: "sceneImages (image_audit rq a profile ev m s d) = sceneImages d"
  by (simp add: image_audit_def)

lemma patch_images: "sceneImages (fst (patch_scene x se env rq acc profile s d)) = sceneImages d"
proof (cases rule: patch_cases [of d x se env rq acc profile s])
  case refused
  then show ?thesis by (simp add: same_store_def)
next
  case (stored ch newContent d1)
  have "sceneImages d1 = sceneImages d"
    using stored(4) append_version_tables(2) by (cases newContent) (auto simp: commit_edit_def Let_def)
  then show ?thesis using stored(5) by (simp add: same_store_def)
qed

lemma save_images: "sceneImages (fst (save_content x se env rq acc profile s d)) = sceneImages d"
proof -
  have stored: "sceneImages (fst (store_content x env rq acc profile s scenes latest renameTo d)) = sceneImages d" for scenes latest renameTo
  proof (cases rule: store_content_cases [of x env rq acc profile s scenes latest renameTo d])
    case (stored content z v d1)
    then show ?thesis using append_version_tables(2) [OF stored(3)] by (simp add: same_store_def)
  qed simp
  have refused: "sceneImages d1 = sceneImages d" if "moderation_refusal rq acc actor ev extra tg res d = Some (d1, resp)"
    for actor ev extra tg res d1 resp
    using refusal_same [OF that] by (simp add: same_store_def)
  show ?thesis by (auto simp: save_content_def Let_def stored bind_eq_Some_conv dest: refused split: option.split if_splits)
qed

lemma add_image_galleries:
  assumes "se_apiKey se"
  shows "galleries_moderated x se d (fst (add_image x se env rq acc profile s d))"
proof (cases rule: add_image_cases [of d x se env rq acc profile s])
  case refused
  then show ?thesis by (intro galleries_same) (simp add: same_store_def)
next
  case (stored content t)
  have "picture_moderated x se content" using stored(5) [OF assms] unfolding picture_moderated_def by blast
  moreover have "set (sceneImages (fst (insert_image x env rq acc profile s content t d)))
      \<subseteq> insert \<lparr>si_id = we_uuid env 0, si_content = content, si_contentType = t,
          si_position = foldl max 0 (map si_position (filter (\<lambda>i. si_sceneId i = ss_id s) (sceneImages d))) + 1,
          si_sceneId = ss_id s, si_createdAt = we_now env\<rparr> (set (sceneImages d))"
    by (auto simp: insert_image_def Let_def dest: sync_images split: sum.split option.split)
  ultimately show ?thesis unfolding stored(6) galleries_moderated_def by fastforce
qed

lemma remove_image_images: "set (sceneImages (fst (remove_image x env rq imageId acc profile s d))) \<subseteq> set (sceneImages d)"
  by (auto simp: remove_image_def Let_def dest: sync_images split: sum.splits)

lemma remove_preview_images: "sceneImages (fst (remove_preview x env rq acc profile s d)) = sceneImages d"
  by (auto simp: remove_preview_def Let_def dest: sync_images split: sum.split)

lemma yank_images: "sceneImages (fst (yank_version env rq sceneId raw acc profile d)) = sceneImages d"
  by (simp add: yank_version_def Let_def set_yanked_def split: option.split json.split)

lemma delete_images: "set (sceneImages (fst (delete_scene rq acc profile s d))) \<subseteq> set (sceneImages d)"
  by (auto simp: delete_scene_def delete_scene_rows_def)

lemma copied_contents: "si_content ` set (copied_images env sid (gallery k d)) \<subseteq> si_content ` set (sceneImages d)"
  by (fastforce simp: copied_images_def gallery_def select_asc_def dest: set_zip_rightD)

lemma fork_galleries: "galleries_moderated x se d (fst (fork_content x se env rq acc profile source scenes n d))"
proof -
  have "galleries_moderated x se d (fst (fork_commit x env rq acc profile source latest content z n d))" for latest content z n
    using copied_contents [of env "we_uuid env 0" "ss_id source" d]
    by (auto simp: fork_commit_def Let_def galleries_moderated_def insert_version_def split: option.split)
  then show ?thesis by (simp add: fork_content_def galleries_same split: option.split sum.split)
qed

lemma publish_images: "sceneImages (fst (publishStoreScene x se env rq pin d)) = sceneImages d"
proof (cases "publish_checks x se env rq pin d")
  case (Inl r)
  then show ?thesis using publish_checks_same [OF Inl] by (simp add: publishStoreScene_def same_store_def)
next
  case (Inr plan)
  have "sceneImages (fst (publish_commit x se env rq pin plan d)) = sceneImages d"
  proof (cases rule: publish_commit_cases [of d x se env rq pin plan])
    case refused
    then show ?thesis by (simp add: same_store_def)
  next
    case (created s d1)
    then show ?thesis using createScene_row(1) [OF created(1)] by (simp add: same_store_def)
  next
    case (existing s v d1)
    then show ?thesis using append_version_tables(2) [OF existing(2)] by (simp add: same_store_def)
  next
    case (new s v d1 d2)
    then show ?thesis using append_version_tables(2) [OF new(3)] createScene_row(1) [OF new(2)] by (simp add: same_store_def)
  qed
  then show ?thesis using Inr by (simp add: publishStoreScene_def)
qed

lemma effect_galleries:
  assumes "store_effect x se r d d'" and "se_apiKey se" shows "galleries_moderated x se d d'"
  using assms(1)
proof (cases rule: store_effect.cases)
  case idle
  then show ?thesis by (intro galleries_same) (simp add: same_store_def)
next
  case (published pin d1)
  then show ?thesis using publish_images by (intro galleries_same) (simp add: same_store_def)
next
  case (downloaded s d1)
  then show ?thesis by (intro galleries_same) (simp add: same_store_def count_download_def)
qed (simp_all add: galleries_fewer delete_images remove_image_images galleries_same patch_images save_images yank_images
    remove_preview_images add_image_galleries [OF assms(2)] fork_galleries)

text \<open>
  C5.  Moderation fails closed.  With a moderation key configured, whatever request the store serves, the name,
  the description and the preview image of a scene that is public afterwards were shown in public before or
  belong to contents for which the moderation service answered, within its two attempts, flagging no blocked
  category; and so does every picture of a gallery, of a private scene too, that was in no gallery before.  When the
  service is down nothing new appears.
\<close>

theorem shown_content_was_moderated:
  assumes "se_apiKey se" and "store_inv x (w_db w)"
  shows "(\<forall>s\<in>set (storeScenes (w_db (fst (store_service x se r w)))). is_public s \<longrightarrow> shows_moderated x se (w_db w) s)
       \<and> galleries_moderated x se (w_db w) (w_db (fst (store_service x se r w)))"
proof -
  have "all_shown x se (w_db w) d'" if "store_effect x se r (w_db w) d'" for d'
    using that
  proof (cases rule: store_effect.cases)
    case idle
    then show ?thesis by (intro all_shown_same) (simp add: same_store_def)
  next
    case (patched s profile)
    show ?thesis unfolding patched(1) by (rule patch_shown [OF assms(1,2) patched(4)])
  next
    case (published pin d1)
    show ?thesis unfolding published(1)
      by (rule all_shown_from [OF _ publish_shown [OF assms(1)]]) (use published(5) in \<open>simp add: same_store_def\<close>)
  next
    case (downloaded s d1)
    show ?thesis unfolding downloaded(1)
      by (rule all_shown_from [OF _ count_shown]) (use downloaded(4) in \<open>simp add: same_store_def\<close>)
  qed (simp_all add: delete_shown save_shown [OF assms(1)] yank_shown add_image_shown remove_image_shown remove_preview_shown fork_shown)
  from this [OF service_effect] effect_galleries [OF service_effect assms(1)] show ?thesis by (simp add: all_shown_def)
qed

text \<open>An owner makes the example scene public; the service finds nothing to flag.\<close>

definition moderated_env :: store_env where
  "moderated_env = demo_store_env\<lparr>se_apiKey := True, se_moderate := (\<lambda>k parts. if k = 0 then None
     else Some (JObj [(''results'', JArr [JObj [(''categories'', JObj [(''hate'', JBool False)])]])]))\<rparr>"

definition demo_publish :: store_request where
  "demo_publish = (demo_visit Patch)\<lparr>sr_http := demo_web_request (Some (JObj [(''visibility'', JStr ''public'')]))\<rparr>"

lemma demo_moderation: "moderateStoreContent archive_ext moderated_env [Some ''Clock'', None, None] None = ModerationOk True"
  by code_simp

lemma demo_owned: "owned_scene ''a'' demo_uuid (demo_store ''a'') = Some (demo_listing ''a'')"
  by (simp add: owned_scene_def demo_uuid_facts demo_store_def select_one_def demo_listing_def new_scene_def)

lemma demo_guard:
  assumes "1 \<le> limit"
  shows "\<exists>l profile. owner_guard archive_ext (demo_env 9) (demo_web_request b) action limit win
     \<lparr>w_db = demo_store owner, w_limits = idle_limiter\<rparr> = (\<lparr>w_db = demo_store owner, w_limits = l\<rparr>, Inr (''a'', profile))"
proof -
  obtain l where l: "limit_key (demo_env 9) (action @ '':'' @ ''10.0.0.1'') limit win \<lparr>w_db = demo_store owner, w_limits = idle_limiter\<rparr>
      = (\<lparr>w_db = demo_store owner, w_limits = l\<rparr>, None)"
    using idle_limit_key [OF assms] by blast
  have s: "readSession archive_ext (demo_env 9) (demo_web_request b) (demo_store owner)
      = Some [(''accountId'', JStr ''a''), (''providerIssuer'', JStr ''i''), (''providerSubject'', JStr ''s'')]"
    by (simp add: readSession_def demo_web_request_def demo_env_def demo_store_def createSession_def empty_db_def archive_ext_def
        sample_ext_def select_one_def session_account_def hashSecret_def sessionIdleMaxAgeSeconds_def sessionAbsoluteMaxAgeSeconds_def)
  have "csrfResponse (demo_env 9) (demo_web_request b) = None" "requireDatabase (demo_env 9) = None" "rq_ip (demo_web_request b) = ''10.0.0.1''"
    by (simp_all add: csrfResponse_def demo_env_def demo_web_request_def requireDatabase_def)
  then show ?thesis using l s
    by (simp add: owner_guard_def session_guard_def rateLimitResponse_def session_account_def)
qed

lemma demo_patched:
  "storeScenes (w_db (fst (store_service archive_ext moderated_env demo_publish \<lparr>w_db = demo_store ''a'', w_limits = idle_limiter\<rparr>)))
     = [(demo_listing ''a'')\<lparr>ss_visibility := ''public'', ss_updatedAt := 9\<rparr>]"
proof -
  let ?rq = "demo_web_request (Some (JObj [(''visibility'', JStr ''public'')]))"
  let ?ch = "\<lparr>ch_category = None, ch_description = None, ch_frameosVersion = None, ch_tags = None, ch_visibility = Some ''public''\<rparr>"
  have "parseOptionalString (Some (JStr ''public'')) = Some ''public''" by code_simp
  then have ch: "scene_changes_of ''a'' (readJsonObject ?rq) (demo_listing ''a'') (demo_store ''a'') = Inr ?ch"
    by (simp add: scene_changes_of_def visibility_change_def readJsonObject_def demo_web_request_def Let_def
        sceneVisibilities_def demo_listing_def new_scene_def tags_change_def category_change_def frameos_version_change_def
        description_change_def)
  have mod: "edit_moderation ?ch (demo_listing ''a'') = Some ([Some ''Clock'', None, None], None)"
    by (simp add: edit_moderation_def demo_listing_def new_scene_def is_public_def Let_def)
  have min: "new_minimum_content archive_ext ?ch (demo_listing ''a'') (demo_store ''a'') = Inr None" by (simp add: new_minimum_content_def)
  let ?d1 = "update_scene (ss_id (demo_listing ''a'')) (changed_scene (demo_env 9) ?ch None) (demo_store ''a'')"
  have commit: "commit_edit archive_ext (demo_env 9) ?ch None (demo_listing ''a'') (demo_store ''a'') = Some ?d1"
    by (simp add: commit_edit_def)
  have rows: "storeScenes ?d1 = [(demo_listing ''a'')\<lparr>ss_visibility := ''public'', ss_updatedAt := 9\<rparr>]"
    by (simp add: demo_store_def demo_listing_def new_scene_def update_where_def changed_scene_def demo_env_def)
  have vis: "ss_visibility (demo_listing ''a'') = ''private''" by (simp add: demo_listing_def new_scene_def)
  have "storeScenes (fst (patch_scene archive_ext moderated_env (demo_env 9) ?rq ''a'' profile (demo_listing ''a'') (demo_store ''a'')))
      = [(demo_listing ''a'')\<lparr>ss_visibility := ''public'', ss_updatedAt := 9\<rparr>]" for profile
    using rows vis by (simp add: patch_scene_def ch mod demo_moderation Let_def moderation_refusal_def min commit split: option.split)
  moreover obtain l profile where "owner_guard archive_ext (demo_env 9) ?rq ''account:scenes'' 60 (15 * 60 * 1000)
      \<lparr>w_db = demo_store ''a'', w_limits = idle_limiter\<rparr> = (\<lparr>w_db = demo_store ''a'', w_limits = l\<rparr>, Inr (''a'', profile))"
    using demo_guard [of 60] by (metis numeral_One numeral_le_iff semiring_norm(68))
  ultimately show ?thesis
    by (simp add: store_service_def demo_publish_def demo_visit_def patch_scene_route_def owned_scene_route_def owner_route_world
        owner_world_route_def with_owned_scene_def demo_owned)
qed

theorem shown_content_was_moderated_witness:
  "shows_moderated archive_ext moderated_env (demo_store ''a'') ((demo_listing ''a'')\<lparr>ss_visibility := ''public'', ss_updatedAt := 9\<rparr>)"
  using shown_content_was_moderated [of moderated_env archive_ext "\<lparr>w_db = demo_store ''a'', w_limits = idle_limiter\<rparr>" demo_publish]
  by (simp add: demo_store_inv demo_patched is_public_def) (simp add: moderated_env_def)

end
