(* ===== verification/StoreQuota.thy ===== *)
theory StoreQuota imports StoreGuarantees begin

text \<open>
  Storage: the per-account sums of \<open>usage.ts\<close> as the totals of the scenes, and what saving and publishing
  can add to the private bytes of an account.
\<close>

section \<open>Usage as a sum of scenes\<close>

text \<open>The bytes of one scene, by its row.\<close>

definition scene_bytes :: "db \<Rightarrow> store_scene \<Rightarrow> nat" where
  "scene_bytes d s =
     sum_list (map sv_sizeBytes (filter (\<lambda>v. sv_sceneId v = ss_id s) (sceneVersions d)))
     + sum_list (map (\<lambda>i. length (si_content i)) (filter (\<lambda>i. si_sceneId i = ss_id s) (sceneImages d)))
     + preview_bytes s"

lemma sum_filter: "sum_list (map f (filter P xs)) = sum_list (map (\<lambda>v. if P v then f v else 0) xs)" for f :: "'a \<Rightarrow> nat"
  by (induction xs) auto

lemma sum_product: "sum_list (map f (List.product xs ys)) = sum_list (map (\<lambda>a. sum_list (map (\<lambda>b. f (a, b)) ys)) xs)"
  for f :: "'a \<times> 'b \<Rightarrow> nat"
  by (induction xs) (auto simp: comp_def)

lemma sum_swap: "sum_list (map (\<lambda>a. sum_list (map (f a) ys)) xs) = sum_list (map (\<lambda>b. sum_list (map (\<lambda>a. f a b) xs)) ys)"
  for f :: "'a \<Rightarrow> 'b \<Rightarrow> nat"
  by (induction xs) (auto simp: sum_list_addf)

text \<open>A join summed over the scenes it meets.\<close>

lemma sum_join:
  fixes g :: "'a \<Rightarrow> nat"
  shows "sum_list (map (\<lambda>(v, s). if P s then g v else 0) (filter (\<lambda>(v, s). ss_id s = k v \<and> Q s) (List.product rows scenes)))
    = sum_list (map (\<lambda>s. if Q s \<and> P s then sum_list (map g (filter (\<lambda>v. k v = ss_id s) rows)) else 0) scenes)"
proof -
  have "sum_list (map (\<lambda>v. if k v = ss_id s \<and> Q s then if P s then g v else 0 else 0) rows)
      = (if Q s \<and> P s then sum_list (map g (filter (\<lambda>v. k v = ss_id s) rows)) else 0)" for s
    by (induction rows) auto
  note inner = this
  have "sum_list (map (\<lambda>(v, s). if P s then g v else 0) (filter (\<lambda>(v, s). ss_id s = k v \<and> Q s) (List.product rows scenes)))
      = sum_list (map (\<lambda>v. sum_list (map (\<lambda>s. if k v = ss_id s \<and> Q s then if P s then g v else 0 else 0) scenes)) rows)"
    unfolding sum_filter sum_product by (intro arg_cong [where f = sum_list] map_cong refl) (auto intro: map_cong)
  also have "\<dots> = sum_list (map (\<lambda>s. sum_list (map (\<lambda>v. if k v = ss_id s \<and> Q s then if P s then g v else 0 else 0) rows)) scenes)"
    by (rule sum_swap)
  finally show ?thesis unfolding inner .
qed

lemma private_bytes_sum:
  "privateSceneBytesForAccount acc d
   = sum_list (map (\<lambda>s. if ss_accountId s = acc \<and> \<not> is_public s then scene_bytes d s else 0) (storeScenes d))"
  unfolding privateSceneBytesForAccount_def sceneBytesForAccount_def Let_def fst_conv version_bytes_def image_bytes_def sum_join
  unfolding preview_image_bytes_def sum_filter sum_list_addf [symmetric]
  by (intro arg_cong [where f = sum_list] map_cong refl) (simp add: scene_bytes_def sum_filter)

lemma public_bytes_sum:
  "snd (sceneBytesForAccount acc d)
   = sum_list (map (\<lambda>s. if ss_accountId s = acc \<and> is_public s then scene_bytes d s else 0) (storeScenes d))"
  unfolding sceneBytesForAccount_def Let_def snd_conv version_bytes_def image_bytes_def sum_join
  unfolding preview_image_bytes_def sum_filter sum_list_addf [symmetric]
  by (intro arg_cong [where f = sum_list] map_cong refl) (simp add: scene_bytes_def sum_filter)

lemma total_of_row:
  assumes "store_inv x d" and "s \<in> set (storeScenes d)" shows "sceneBytesTotal (ss_id s) d = scene_bytes d s"
proof -
  have "select_one (\<lambda>r. ss_id r = ss_id s) (storeScenes d) = Some s"
  proof (cases "select_one (\<lambda>r. ss_id r = ss_id s) (storeScenes d)")
    case None
    then show ?thesis using assms(2) by (auto simp: select_one_None)
  next
    case (Some r)
    from select_one_Some [OF this] have "r = s" by (intro inv_unique [OF assms]) simp_all
    then show ?thesis using Some by simp
  qed
  then show ?thesis by (simp add: sceneBytesTotal_def scene_bytes_def)
qed

lemma usage_of_demo: "sceneBytesForAccount ''a'' (demo_store ''a'') = (length demo_zip, 0)"
proof -
  have "privateSceneBytesForAccount ''a'' (demo_store ''a'') = length demo_zip"
    by (simp add: private_bytes_sum demo_store_def)
      (simp add: scene_bytes_def demo_listing_def new_scene_def is_public_def version_row_def preview_bytes_def createSession_def empty_db_def)
  moreover have "snd (sceneBytesForAccount ''a'' (demo_store ''a'')) = 0"
    by (simp add: public_bytes_sum demo_store_def) (simp add: demo_listing_def new_scene_def is_public_def)
  ultimately show ?thesis by (simp add: privateSceneBytesForAccount_def prod_eq_iff)
qed

text \<open>
  C24.  The usage figures agree.  The private and the public bytes the account's quota is computed from, three
  joins over versions, images and previews, are the sums of what \<open>sceneBytesTotal\<close> says of each of its private,
  and of each of its public, scenes: flipping a scene moves exactly its total from one figure to the other.
\<close>

theorem usage_figures_agree:
  assumes "store_inv x d"
  shows "sceneBytesForAccount acc d =
    (sum_list (map (\<lambda>s. sceneBytesTotal (ss_id s) d) (filter (\<lambda>s. ss_accountId s = acc \<and> \<not> is_public s) (storeScenes d))),
     sum_list (map (\<lambda>s. sceneBytesTotal (ss_id s) d) (filter (\<lambda>s. ss_accountId s = acc \<and> is_public s) (storeScenes d))))"
proof -
  have e: "(if Q s then scene_bytes d s else 0) = (if Q s then sceneBytesTotal (ss_id s) d else 0)" if "s \<in> set (storeScenes d)" for Q s
    using total_of_row [OF assms that] by simp
  have "fst (sceneBytesForAccount acc d)
      = sum_list (map (\<lambda>s. if ss_accountId s = acc \<and> \<not> is_public s then sceneBytesTotal (ss_id s) d else 0) (storeScenes d))"
    unfolding private_bytes_sum [unfolded privateSceneBytesForAccount_def] by (intro arg_cong [where f = sum_list] map_cong refl e)
  moreover have "snd (sceneBytesForAccount acc d)
      = sum_list (map (\<lambda>s. if ss_accountId s = acc \<and> is_public s then sceneBytesTotal (ss_id s) d else 0) (storeScenes d))"
    unfolding public_bytes_sum by (intro arg_cong [where f = sum_list] map_cong refl e)
  ultimately show ?thesis unfolding sum_filter by (metis (no_types, lifting) prod.collapse)
qed

theorem usage_figures_agree_witness:
  "sceneBytesTotal demo_uuid (demo_store ''a'') = length demo_zip"
  using usage_figures_agree [OF demo_store_inv, of "''a''" "''a''"] unfolding usage_of_demo
  by (simp add: demo_store_def) (simp add: demo_listing_def new_scene_def is_public_def)

section \<open>What a save and a publish add\<close>

lemma sum_delete_where: "sum_list (map f (filter Q (delete_where P rows))) \<le> sum_list (map f (filter Q rows))" for f :: "'a \<Rightarrow> nat"
  by (induction rows) (auto simp: delete_where_def)

text \<open>A version appended to a scene adds at most its size to it and nothing to others.\<close>

lemma append_bytes:
  assumes a: "append_version v d = Some d1" and d2: "sceneVersions d2 = sceneVersions d1" "sceneImages d2 = sceneImages d1"
  shows "ss_id r \<noteq> sv_sceneId v \<Longrightarrow> scene_bytes d2 r = scene_bytes d r"
    and "ss_id r = ss_id s \<Longrightarrow> ss_id s = sv_sceneId v \<Longrightarrow>
      scene_bytes d2 r + preview_bytes s \<le> scene_bytes d s + sv_sizeBytes v + preview_bytes r"
proof -
  note t = append_version_tables [OF a]
  have "filter (\<lambda>u. sv_sceneId u = ss_id r) (sceneVersions d1) = filter (\<lambda>u. sv_sceneId u = ss_id r) (sceneVersions d)"
    if "ss_id r \<noteq> sv_sceneId v"
    unfolding t(3) using that by (auto simp: delete_where_def intro!: filter_cong)
  then show "ss_id r \<noteq> sv_sceneId v \<Longrightarrow> scene_bytes d2 r = scene_bytes d r"
    by (simp add: scene_bytes_def d2 t(2))
  have "sum_list (map sv_sizeBytes (filter (\<lambda>u. sv_sceneId u = sv_sceneId v) (sceneVersions d1)))
      \<le> sum_list (map sv_sizeBytes (filter (\<lambda>u. sv_sceneId u = sv_sceneId v) (sceneVersions d))) + sv_sizeBytes v"
    unfolding t(3) by (rule order_trans [OF sum_delete_where]) simp
  then show "ss_id r = ss_id s \<Longrightarrow> ss_id s = sv_sceneId v \<Longrightarrow>
      scene_bytes d2 r + preview_bytes s \<le> scene_bytes d s + sv_sizeBytes v + preview_bytes r"
    by (simp add: scene_bytes_def d2 t(2))
qed

lemma private_bytes_edit:
  assumes inv: "store_inv x d" and s: "s \<in> set (storeScenes d)"
    and a: "append_version v d = Some d1" "sv_sceneId v = ss_id s"
    and f: "ss_id (f s) = ss_id s" "ss_accountId (f s) = ss_accountId s"
    and d2: "storeScenes d2 = update_where (\<lambda>r. ss_id r = ss_id s) f (storeScenes d1)"
      "sceneVersions d2 = sceneVersions d1" "sceneImages d2 = sceneImages d1"
  shows "ss_accountId s \<noteq> acc \<or> is_public (f s) \<Longrightarrow> privateSceneBytesForAccount acc d2 \<le> privateSceneBytesForAccount acc d"
    and "ss_accountId s = acc \<Longrightarrow> privateSceneBytesForAccount acc d2 + preview_bytes s
      \<le> privateSceneBytesForAccount acc d + (if is_public s then sceneBytesTotal (ss_id s) d else 0) + sv_sizeBytes v + preview_bytes (f s)"
proof -
  have ids: "distinct (map ss_id (storeScenes d))" using inv by (simp add: store_inv_def)
  obtain xs ys where rows: "storeScenes d = xs @ s # ys" "storeScenes d2 = xs @ f s # ys"
    and n: "\<And>r. r \<in> set xs \<union> set ys \<Longrightarrow> ss_id r \<noteq> ss_id s"
    using keyed_split [OF ids s, of f] d2(1) append_version_tables(1) [OF a(1)] by metis
  let ?g = "\<lambda>e r. if ss_accountId r = acc \<and> \<not> is_public r then scene_bytes e r else 0"
  have rest: "sum_list (map (?g d2) zs) = sum_list (map (?g d) zs)" if "set zs \<subseteq> set xs \<union> set ys" for zs
    using that append_bytes(1) [OF a(1) d2(2,3)] n a(2)
    by (intro arg_cong [where f = sum_list] map_cong refl) (auto simp: subset_iff)
  have P: "privateSceneBytesForAccount acc d = sum_list (map (?g d) xs) + ?g d s + sum_list (map (?g d) ys)"
    "privateSceneBytesForAccount acc d2 = sum_list (map (?g d) xs) + ?g d2 (f s) + sum_list (map (?g d) ys)"
    using rest [of xs] rest [of ys] by (simp_all add: private_bytes_sum rows)
  show "ss_accountId s \<noteq> acc \<or> is_public (f s) \<Longrightarrow> privateSceneBytesForAccount acc d2 \<le> privateSceneBytesForAccount acc d"
    unfolding P using f(2) by auto
  have "scene_bytes d2 (f s) + preview_bytes s \<le> scene_bytes d s + sv_sizeBytes v + preview_bytes (f s)"
    by (rule append_bytes(2) [OF a(1) d2(2,3)]) (simp_all add: a f)
  moreover have "preview_bytes s \<le> scene_bytes d s" by (simp add: scene_bytes_def)
  moreover note total_of_row [OF inv s]
  ultimately show "ss_accountId s = acc \<Longrightarrow> privateSceneBytesForAccount acc d2 + preview_bytes s
      \<le> privateSceneBytesForAccount acc d + (if is_public s then sceneBytesTotal (ss_id s) d else 0) + sv_sizeBytes v + preview_bytes (f s)"
    unfolding P by auto
qed

lemma private_bytes_same: "same_store d d' \<Longrightarrow> privateSceneBytesForAccount acc d' = privateSceneBytesForAccount acc d"
proof -
  assume same: "same_store d d'"
  then have e: "scene_bytes d' = scene_bytes d" by (intro ext) (simp add: same_store_def scene_bytes_def)
  from same have r: "storeScenes d' = storeScenes d" by (simp add: same_store_def)
  show ?thesis unfolding private_bytes_sum e r ..
qed

lemma save_within_quota:
  assumes inv: "store_inv x d" and s: "s \<in> set (storeScenes d)"
  shows "privateSceneBytesForAccount acc (fst (save_content x se env rq (ss_accountId s) profile s d))
    \<le> max (privateSceneBytesForAccount acc d) maxPrivateSceneBytesPerAccount"
proof -
  have stored: "privateSceneBytesForAccount acc (fst (store_content x env rq (ss_accountId s) profile s scenes latest renameTo d))
    \<le> max (privateSceneBytesForAccount acc d) maxPrivateSceneBytesPerAccount" for scenes latest renameTo
  proof (cases rule: store_content_cases [of x env rq "ss_accountId s" profile s scenes latest renameTo d])
    case (stored content z v d1)
    let ?f = "edited_row env renameTo z (ss_latestVersion s + 1)"
    let ?d2 = "update_scene (ss_id s) ?f d1"
    have f: "ss_id (?f s) = ss_id s" "ss_accountId (?f s) = ss_accountId s" "is_public (?f s) = is_public s"
      "preview_bytes (?f s) = preview_bytes s"
      by (simp_all add: edited_row_def is_public_def preview_bytes_def)
    note edit = private_bytes_edit [where f = ?f, OF inv s stored(3,6) f(1,2), of ?d2 acc]
    have "privateSceneBytesForAccount acc ?d2 \<le> max (privateSceneBytesForAccount acc d) maxPrivateSceneBytesPerAccount"
      using edit f stored(1,5) by (cases "ss_accountId s = acc \<and> \<not> is_public s") (auto simp: le_max_iff_disj)
    then show ?thesis by (simp add: private_bytes_same [OF stored(7)])
  qed simp
  show ?thesis
  proof (cases "\<exists>scenes latest. array_of (map_of (readJsonObject rq) ''scenes'') = Some scenes \<and> scenes \<noteq> [] \<and> latest_unyanked (ss_id s) d = Some latest")
    case False
    then show ?thesis by (auto simp: save_content_def split: option.split)
  next
    case True
    then obtain scenes latest where b: "array_of (map_of (readJsonObject rq) ''scenes'') = Some scenes" "scenes \<noteq> []"
      "latest_unyanked (ss_id s) d = Some latest" by blast
    let ?b = "Option.bind (rename_of x scenes latest s) (\<lambda>name.
       if name_clash s name d then Some (d, jsonError ''scene_name_taken'' 409 [(''name'', JStr name)])
       else moderation_refusal rq (ss_accountId s) (session_actor (ss_accountId s) profile) ''store.publish_rejected''
              [(''name'', JStr name)] (scene_target s) (moderateStoreContent x se [Some name] None) d)"
    show ?thesis
    proof (cases ?b)
      case None
      then show ?thesis using b stored by (simp add: save_content_def Let_def)
    next
      case (Some refusal)
      then have "same_store d (fst refusal)"
        by (cases refusal) (auto simp: bind_eq_Some_conv dest: refusal_same split: if_splits)
      then show ?thesis using b Some private_bytes_same by (simp add: save_content_def Let_def)
    qed
  qed
qed

text \<open>Publishing: the preview it stores beside the zip is what the check leaves out.\<close>

lemma preview_bound: "validateSceneZip x content = Inr z \<Longrightarrow> case vz_previewImage z of None \<Rightarrow> True | Some b \<Rightarrow> length b \<le> maxPreviewImageBytes"
  by (auto simp: validateSceneZip_def Let_def split: if_splits option.splits json.splits)

lemma published_preview:
  assumes "validateSceneZip x (pi_content pin) = Inr (pp_uploaded plan)"
  shows "preview_bytes (published_row env pin plan n s) \<le> maxPreviewImageBytes"
  using preview_bound [OF assms] by (simp add: preview_bytes_def published_row_def split: option.splits)

lemma new_scene_bytes:
  assumes inv: "store_inv x d" and fresh: "fresh_ids env d" and s: "ss_id s = we_uuid env 0" "\<not> is_public s" "preview_bytes s = 0"
    and d1: "d1 = d\<lparr>storeScenes := storeScenes d @ [s]\<rparr>"
  shows "scene_bytes d1 s = 0" "privateSceneBytesForAccount acc d1 = privateSceneBytesForAccount acc d"
proof -
  have "sv_sceneId v \<noteq> ss_id s" if "v \<in> set (sceneVersions d)" for v
    using inv fresh that s(1) by (force simp: store_inv_def in_window_def fresh_ids_def)
  moreover have "si_sceneId i \<noteq> ss_id s" if "i \<in> set (sceneImages d)" for i
    using fresh s(1) that by (force simp: fresh_ids_def)
  ultimately show z: "scene_bytes d1 s = 0" by (simp add: scene_bytes_def d1 s(3))
  have e: "scene_bytes d1 = scene_bytes d" by (intro ext) (simp add: scene_bytes_def d1)
  have r: "storeScenes d1 = storeScenes d @ [s]" by (simp add: d1)
  show "privateSceneBytesForAccount acc d1 = privateSceneBytesForAccount acc d"
    unfolding private_bytes_sum e r using z [unfolded e] by simp
qed

lemma quota_passed:
  assumes "publish_quota env pin existing n d = None"
  shows "case pi_visibility pin of None \<Rightarrow> (case existing of None \<Rightarrow> True | Some s \<Rightarrow> \<not> is_public s) | Some v \<Rightarrow> v \<noteq> ''public''
    \<Longrightarrow> privateSceneBytesForAccount (pi_accountId pin) d
      + (case existing of Some s \<Rightarrow> if is_public s then sceneBytesTotal (ss_id s) d else 0 | None \<Rightarrow> 0) + n \<le> maxPrivateSceneBytesPerAccount"
  using assms by (auto simp: publish_quota_def Let_def is_public_def split: if_splits option.splits)

lemma publish_within_quota:
  assumes inv: "store_inv x d" and fresh: "fresh_ids env d" and vis: "visibility_ok pin"
  shows "privateSceneBytesForAccount acc (fst (publishStoreScene x se env rq pin d))
    \<le> max (privateSceneBytesForAccount acc d) (maxPrivateSceneBytesPerAccount + maxPreviewImageBytes)"
proof (cases "publish_checks x se env rq pin d")
  case (Inl r)
  show ?thesis using private_bytes_same [OF publish_checks_same [OF Inl]] Inl by (simp add: publishStoreScene_def)
next
  case (Inr plan)
  have plan: "plan_ok x pin d plan" by (rule publish_checks_plan [OF Inr])
  have quota: "publish_quota env pin (pp_existing plan) (length (pp_content plan)) d = None"
    by (rule publish_checks_parts [OF Inr]) simp
  have preview: "preview_bytes (published_row env pin plan n s) \<le> maxPreviewImageBytes" for n s
    by (rule published_preview [where x = x]) (use plan in \<open>simp add: plan_ok_def\<close>)
  have vis': "is_public (published_row env pin plan n s) \<longleftrightarrow>
      (case pi_visibility pin of None \<Rightarrow> is_public s | Some v \<Rightarrow> v = ''public'')" for n s
    using vis by (auto simp: published_row_def is_public_def visibility_ok_def sceneVisibilities_def split: option.splits)
  have row: "ss_id (published_row env pin plan n s) = ss_id s" "ss_accountId (published_row env pin plan n s) = ss_accountId s" for n s
    by (simp_all add: published_row_def)
  have e: "fst (publishStoreScene x se env rq pin d) = fst (publish_commit x se env rq pin plan d)"
    using Inr by (simp add: publishStoreScene_def)
  show ?thesis
  proof (cases rule: publish_commit_cases [of d x se env rq pin plan])
    case refused
    then show ?thesis by (simp add: e private_bytes_same)
  next
    case (created s d1)
    note c = createScene_row [OF created(1)]
    show ?thesis using private_bytes_same [OF created(3)] new_scene_bytes(2) [OF inv fresh c(3,2,5,1)] by (simp add: e)
  next
    case (existing s v d1)
    have "select_one (scene_named (pi_accountId pin) (pp_name plan)) (storeScenes d) = Some s"
      using plan existing(1) by (simp add: plan_ok_def)
    from select_one_Some [OF this] have s: "s \<in> set (storeScenes d)" "ss_accountId s = pi_accountId pin" by (simp_all add: scene_named_def)
    let ?f = "published_row env pin plan (ss_latestVersion s + 1)"
    let ?d2 = "update_scene (ss_id s) ?f d1"
    note edit = private_bytes_edit [where f = ?f, OF inv s(1) existing(2,3) row, of ?d2 acc]
    have "privateSceneBytesForAccount acc ?d2
        \<le> max (privateSceneBytesForAccount acc d) (maxPrivateSceneBytesPerAccount + maxPreviewImageBytes)"
    proof (cases "ss_accountId s \<noteq> acc \<or> is_public (?f s)")
      case True
      then show ?thesis using edit(1) by (simp add: le_max_iff_disj)
    next
      case False
      then have "privateSceneBytesForAccount acc d + (if is_public s then sceneBytesTotal (ss_id s) d else 0) + length (pp_content plan)
          \<le> maxPrivateSceneBytesPerAccount"
        using quota_passed [OF quota] existing(1) s(2) by (auto simp: vis' split: option.splits)
      then show ?thesis using edit(2) False preview [of "ss_latestVersion s + 1" s] existing(4) by (simp add: le_max_iff_disj)
    qed
    then show ?thesis by (simp add: e private_bytes_same [OF existing(5)])
  next
    case (new s v d1 d2)
    note c = createScene_row [OF new(2)]
    note z = new_scene_bytes [OF inv fresh c(3,2,5,1)]
    let ?f = "published_row env pin plan (ss_latestVersion s + 1)"
    let ?d3 = "update_scene (ss_id s) ?f d2"
    have rows: "storeScenes ?d3 = storeScenes d @ [?f s]"
      using fresh append_version_tables(1) [OF new(3)] c(1,3) by (simp add: update_new_row fresh_ids_def)
    have others: "scene_bytes ?d3 r = scene_bytes d r" if "r \<in> set (storeScenes d)" for r
    proof -
      have "ss_id r \<noteq> sv_sceneId v" using that fresh c(3) new(4) by (auto simp: fresh_ids_def image_iff)
      from append_bytes(1) [OF new(3) _ _ this, of ?d3] show ?thesis by (simp add: scene_bytes_def c(1))
    qed
    have own: "scene_bytes ?d3 (?f s) \<le> length (pp_content plan) + preview_bytes (?f s)"
    proof -
      have "scene_bytes ?d3 (?f s) + preview_bytes s \<le> scene_bytes d1 s + sv_sizeBytes v + preview_bytes (?f s)"
        by (rule append_bytes(2) [OF new(3)]) (simp_all add: new(4) row)
      then show ?thesis using z(1) new(5) by linarith
    qed
    have "sum_list (map (\<lambda>r. if ss_accountId r = acc \<and> \<not> is_public r then scene_bytes ?d3 r else 0) (storeScenes d))
        = privateSceneBytesForAccount acc d"
      unfolding private_bytes_sum by (intro arg_cong [where f = sum_list] map_cong refl) (simp add: others)
    then have "privateSceneBytesForAccount acc ?d3 = privateSceneBytesForAccount acc d
        + (if ss_accountId s = acc \<and> \<not> is_public (?f s) then scene_bytes ?d3 (?f s) else 0)"
      unfolding private_bytes_sum [of acc ?d3] rows by (simp add: row)
    moreover have "privateSceneBytesForAccount acc d + length (pp_content plan) \<le> maxPrivateSceneBytesPerAccount"
      if "ss_accountId s = acc" "\<not> is_public (?f s)"
      using quota_passed [OF quota] new(1) that c(4) by (auto simp: vis' split: option.splits)
    ultimately have "privateSceneBytesForAccount acc ?d3
        \<le> max (privateSceneBytesForAccount acc d) (maxPrivateSceneBytesPerAccount + maxPreviewImageBytes)"
      using own preview [of "ss_latestVersion s + 1" s] by (auto simp: le_max_iff_disj split: if_splits)
    then show ?thesis by (simp add: e private_bytes_same [OF new(6)])
  qed
qed

text \<open>
  C25.  Storage is bounded.  A save from the editor never takes the private bytes of any account beyond the quota,
  and an upload, a scene created in the workspace or a publish by a linked backend at most one preview image
  beyond it: the check counts the zip, flipped scenes included, and leaves out the preview stored with it.
\<close>

theorem saved_bytes_bounded:
  assumes "store_inv x (w_db w)" and "ids_fresh r (w_db w)" and "sr_verb r = Save \<or> publishes (sr_verb r)"
  shows "privateSceneBytesForAccount acc (w_db (fst (store_service x se r w)))
    \<le> max (privateSceneBytesForAccount acc (w_db w))
        (maxPrivateSceneBytesPerAccount + (if sr_verb r = Save then 0 else maxPreviewImageBytes))"
proof -
  have "privateSceneBytesForAccount acc d'
      \<le> max (privateSceneBytesForAccount acc (w_db w))
          (maxPrivateSceneBytesPerAccount + (if sr_verb r = Save then 0 else maxPreviewImageBytes))"
    if e: "store_effect x se r (w_db w) d'" for d'
    using e
  proof (cases rule: store_effect.cases)
    case (saved s profile)
    then show ?thesis using save_within_quota [OF assms(1) saved(4)] by simp
  next
    case (published pin d1)
    have fresh: "fresh_ids (sr_env r) d1" using assms(2) published(5) by (simp add: ids_fresh_def fresh_same)
    show ?thesis using publish_within_quota [OF inv_same [OF assms(1) published(5)] fresh published(4)]
        private_bytes_same [OF published(5)] published(1,2) by auto
  qed (use assms(3) private_bytes_same in auto)
  from this [OF service_effect] show ?thesis .
qed

theorem saved_bytes_bounded_witness:
  "privateSceneBytesForAccount ''a'' (w_db (fst (store_service archive_ext demo_store_env (demo_visit Save)
       \<lparr>w_db = demo_store ''a'', w_limits = idle_limiter\<rparr>))) \<le> maxPrivateSceneBytesPerAccount"
proof -
  have "length demo_zip < 200" by code_simp
  then have "privateSceneBytesForAccount ''a'' (demo_store ''a'') \<le> maxPrivateSceneBytesPerAccount"
    using usage_of_demo by (simp add: privateSceneBytesForAccount_def maxPrivateSceneBytesPerAccount_def)
  then show ?thesis
    using saved_bytes_bounded [of archive_ext "\<lparr>w_db = demo_store ''a'', w_limits = idle_limiter\<rparr>" "demo_visit Save" "''a''" demo_store_env]
      demo_store_fresh [of Save "''a''"] by (simp add: demo_store_inv demo_visit_def)
qed

end
