(* ===== verification/StoreReading.thy ===== *)
theory StoreReading imports StoreQuota begin

text \<open>
  Reading the store: what the download, the scenes file and the listing reveal, and to whom.  A private
  scene is served only to those its owner lets in, and to everybody else it looks as if it were not there.
\<close>

section \<open>Who may read a scene\<close>

fun reads :: "store_verb \<Rightarrow> bool" where
  "reads Download = True"
| "reads ScenesJson = True"
| "reads Browse = True"
| "reads _ = False"

definition may_read :: "ext \<Rightarrow> store_request \<Rightarrow> db \<Rightarrow> store_scene \<Rightarrow> bool" where
  "may_read x r d s \<longleftrightarrow>
     is_public s \<or> shareTokenGrantsAccess (ss_shareToken s) (map_of (rq_query (sr_http r)) ''share'')
     \<or> acts_as x r d (ss_accountId s)"

text \<open>A request runs its body behind the limiter, on the database it found.\<close>

lemma store_read_reply:
  obtains (refused) resp where "\<And>d. snd (store_read_route env rq action limit body (w\<lparr>w_db := d\<rparr>)) = Json resp"
  | (read) "\<And>d. snd (store_read_route env rq action limit body (w\<lparr>w_db := d\<rparr>)) = snd (body d)"
proof -
  obtain l result where "checkRateLimit (action @ '':'' @ rq_ip rq) limit (15 * 60 * 1000) (we_hasDatabase env) (we_dbFails env)
      (we_dbNow env) (we_now env) (w_limits w) = (l, result)" by fastforce
  then obtain resp where l: "\<And>d. rateLimitResponse env rq action limit (15 * 60 * 1000) (w\<lparr>w_db := d\<rparr>) = (w\<lparr>w_db := d, w_limits := l\<rparr>, resp)"
    by (simp add: rateLimitResponse_def limit_key_def split: prod.split)
  show ?thesis
    by (cases resp; cases "requireDatabase env")
      (use refused read l in \<open>auto simp: store_read_route_def split: prod.splits\<close>)
qed

text \<open>Access to a private scene is that of the accounts a request acts for.\<close>

lemma access_iff:
  "snd (canAccessPrivateScene x (sr_env r) (sr_http r) owner d) \<longleftrightarrow> acts_as x r d owner"
  by (auto simp: canAccessPrivateScene_def acts_as_def Let_def split: prod.split option.split)

lemma readable_store: "same_store d (fst (readable_scene x env rq sceneId d))"
proof -
  have "same_store d (fst (canAccessPrivateScene x env rq owner d))" for owner
    by (simp add: canAccessPrivateScene_def Let_def prod.case_eq_if)
  then show ?thesis
    by (auto simp: readable_scene_def Let_def prod.case_eq_if split: option.split)
qed

lemma readable_sound:
  assumes "readable_scene x (sr_env r) (sr_http r) sceneId d = (d1, Inr s)"
  shows "s \<in> set (storeScenes d)" "ss_id s = js_lower sceneId" "ss_status s \<noteq> ''pulled''" "may_read x r d s"
  using assms access_iff [of x r "ss_accountId s" d]
  by (auto simp: readable_scene_def may_read_def Let_def split: option.splits if_splits prod.splits dest!: select_one_Some)

section \<open>What is served\<close>

text \<open>The version a reader gets, and its bytes as the route sends them.\<close>

definition served_version :: "store_request \<Rightarrow> db \<Rightarrow> store_scene \<Rightarrow> scene_version \<Rightarrow> bool" where
  "served_version r d s v \<longleftrightarrow>
     v \<in> set (sceneVersions d) \<and> sv_sceneId v = ss_id s
     \<and> (case if sr_verb r = Download then versionParam (sr_http r) else Some None of
          Some (Some n) \<Rightarrow> sv_version v = n
        | _ \<Rightarrow> sv_yankedAt v = None
               \<and> (\<forall>u\<in>set (sceneVersions d). sv_sceneId u = ss_id s \<longrightarrow> sv_yankedAt u = None \<longrightarrow> sv_version u \<le> sv_version v))"

definition served_bytes :: "ext \<Rightarrow> store_request \<Rightarrow> scene_version \<Rightarrow> bytes option" where
  "served_bytes x r v = (if sr_verb r = Download then Some (sv_content v) else map_option utf8_encode (scenes_text x (sv_content v)))"

lemma latest_is_newest:
  assumes "latest_unyanked sid d = Some v"
  shows "v \<in> set (sceneVersions d)" "sv_sceneId v = sid" "sv_yankedAt v = None"
    "u \<in> set (sceneVersions d) \<Longrightarrow> sv_sceneId u = sid \<Longrightarrow> sv_yankedAt u = None \<Longrightarrow> sv_version u \<le> sv_version v"
proof -
  let ?P = "\<lambda>v. sv_sceneId v = sid \<and> sv_yankedAt v = None"
  obtain rest where rows: "select_desc sv_version ?P (sceneVersions d) = v # rest"
    using assms by (auto simp: latest_unyanked_def split: list.splits)
  then have "sort_key sv_version (filter ?P (sceneVersions d)) = rev rest @ [v]"
    unfolding select_desc_def by (metis rev.simps(2) rev_rev_ident)
  then have "sorted (map sv_version (rev rest @ [v]))" by (metis sorted_sort_key)
  then have newest: "\<forall>u\<in>set (select_desc sv_version ?P (sceneVersions d)). sv_version u \<le> sv_version v"
    unfolding rows by (auto simp: sorted_append)
  show "u \<in> set (sceneVersions d) \<Longrightarrow> sv_sceneId u = sid \<Longrightarrow> sv_yankedAt u = None \<Longrightarrow> sv_version u \<le> sv_version v"
    using newest by auto
qed (use latest_unyanked_in [OF assms] in auto)

definition read_body :: "ext \<Rightarrow> store_request \<Rightarrow> db \<Rightarrow> db \<times> reply" where
  "read_body x r =
     (case sr_verb r of Download \<Rightarrow> download_scene x (sr_env r) (sr_scene r) (sr_http r)
      | ScenesJson \<Rightarrow> scenes_json x (sr_env r) (sr_scene r) (sr_http r) | _ \<Rightarrow> browse_store (sr_http r))"

lemma reads_bodies:
  assumes "reads (sr_verb r)"
  obtains (body) action limit where "\<And>w. store_service x se r w = store_read_route (sr_env r) (sr_http r) action limit (read_body x r) w"
  using assms
  by (cases "sr_verb r") (auto simp: store_service_def read_body_def Let_def download_route_def scenes_json_route_def browse_route_def)

lemma bytes_from_reads:
  "snd (store_service x se r w) = Bytes content contentType disposition \<Longrightarrow> reads (sr_verb r)"
  by (cases "sr_verb r") (auto simp: store_service_def answer_def Let_def split: prod.splits)

lemma download_bytes:
  assumes "snd (download_scene x (sr_env r) (sr_scene r) (sr_http r) d) = Bytes content contentType disposition"
    and "sr_verb r = Download"
  shows "\<exists>s\<in>set (storeScenes d). \<exists>v. ss_id s = js_lower (sr_scene r) \<and> ss_status s \<noteq> ''pulled''
    \<and> may_read x r d s \<and> served_version r d s v \<and> served_bytes x r v = Some content"
proof -
  obtain d1 g where g: "readable_scene x (sr_env r) (sr_http r) (sr_scene r) d = (d1, g)" by force
  obtain s where s: "g = Inr s" using assms g by (cases g) (simp_all add: download_scene_def)
  have same: "same_store d d1" using readable_store [of d x "sr_env r" "sr_http r" "sr_scene r"] g by simp
  obtain requested where q: "versionParam (sr_http r) = Some requested"
    using assms g s by (auto simp: download_scene_def split: option.splits)
  from assms(1) obtain v where v: "requested_scene_version (ss_id s) requested d1 = Some v" "content = sv_content v"
    unfolding download_scene_def g s q by (auto split: option.splits if_splits)
  have "served_version r d s v"
  proof (cases requested)
    case None
    then show ?thesis using latest_is_newest [of "ss_id s" d1 v] v(1) q assms(2) same
      by (auto simp: served_version_def requested_scene_version_def same_store_def)
  next
    case (Some n)
    then show ?thesis using v(1) q assms(2) same select_one_Some
      by (fastforce simp: served_version_def requested_scene_version_def same_store_def)
  qed
  then show ?thesis using readable_sound [OF g [unfolded s]] v(2) assms(2) by (auto simp: served_bytes_def)
qed

lemma scenes_json_bytes:
  assumes "snd (scenes_json x (sr_env r) (sr_scene r) (sr_http r) d) = Bytes content contentType disposition"
    and "sr_verb r = ScenesJson"
  shows "\<exists>s\<in>set (storeScenes d). \<exists>v. ss_id s = js_lower (sr_scene r) \<and> ss_status s \<noteq> ''pulled''
    \<and> may_read x r d s \<and> served_version r d s v \<and> served_bytes x r v = Some content"
proof -
  obtain d1 g where g: "readable_scene x (sr_env r) (sr_http r) (sr_scene r) d = (d1, g)" by force
  obtain s where s: "g = Inr s" using assms g by (cases g) (simp_all add: scenes_json_def)
  have same: "same_store d d1" using readable_store [of d x "sr_env r" "sr_http r" "sr_scene r"] g by simp
  from assms(1) obtain v t where v: "latest_unyanked (ss_id s) d1 = Some v" "scenes_text x (sv_content v) = Some t"
    "content = utf8_encode t"
    unfolding scenes_json_def g s by (auto split: option.splits)
  have "served_version r d s v"
    using latest_is_newest [OF v(1)] assms(2) same by (auto simp: served_version_def same_store_def)
  then show ?thesis using readable_sound [OF g [unfolded s]] v assms(2) by (auto simp: served_bytes_def)
qed

text \<open>
  Scenes are served only to their readers.  Whenever a download or the scenes file of a scene is served, the
  scene is not pulled and is public, opened by its share token, or read by its owner's session or linked client;
  what is sent is the content of the version asked for or of the newest one that is not yanked.
\<close>

lemma served_only_to_readers:
  assumes "snd (store_service x se r w) = Bytes content contentType disposition"
  shows "\<exists>s\<in>set (storeScenes (w_db w)). \<exists>v. ss_id s = js_lower (sr_scene r) \<and> ss_status s \<noteq> ''pulled''
    \<and> may_read x r (w_db w) s \<and> served_version r (w_db w) s v \<and> served_bytes x r v = Some content"
proof -
  have reads: "reads (sr_verb r)" using assms by (rule bytes_from_reads)
  obtain action limit where e: "store_service x se r w = store_read_route (sr_env r) (sr_http r) action limit (read_body x r) w"
    using reads_bodies [OF reads, of x se] by blast
  have w: "w\<lparr>w_db := w_db w\<rparr> = w" by simp
  show ?thesis
  proof (cases rule: store_read_reply [of "sr_env r" "sr_http r" action limit "read_body x r" w])
    case (refused resp)
    from this [of "w_db w"] show ?thesis using assms e by simp
  next
    case read
    from this [of "w_db w"] show ?thesis
      using assms e reads download_bytes [of x r "w_db w"] scenes_json_bytes [of x r "w_db w"]
      by (cases "sr_verb r") (auto simp: read_body_def browse_store_def Let_def)
  qed
qed

section \<open>A private scene is hidden\<close>

text \<open>Deleting rows a query does not look at leaves its answer.\<close>

lemma filter_delete: "(\<And>r. r \<in> set rows \<Longrightarrow> P r \<Longrightarrow> \<not> Q r) \<Longrightarrow> filter P (delete_where Q rows) = filter P rows"
  by (auto simp: delete_where_def intro: filter_cong)

lemma select_one_delete: "(\<And>r. r \<in> set rows \<Longrightarrow> P r \<Longrightarrow> \<not> Q r) \<Longrightarrow> select_one P (delete_where Q rows) = select_one P rows"
  by (induction rows) (auto simp: select_one_def delete_where_def)

lemma product_delete:
  "(\<And>r y. r \<in> set rows \<Longrightarrow> P (r, y) \<Longrightarrow> \<not> Q r) \<Longrightarrow>
   filter P (List.product (delete_where Q rows) ys) = filter P (List.product rows ys)"
proof (induction rows)
  case (Cons r rows)
  have "filter P (map (Pair r) ys) = []" if "Q r" using Cons.prems [of r] that by (auto simp: filter_empty_conv)
  then show ?case using Cons by (auto simp: delete_where_def)
qed (simp add: delete_where_def)

lemma latest_hidden: "sid \<noteq> t \<Longrightarrow> latest_unyanked t (delete_scene_rows sid d) = latest_unyanked t d"
proof -
  assume "sid \<noteq> t"
  then have "filter (\<lambda>v. sv_sceneId v = t \<and> sv_yankedAt v = None) (sceneVersions (delete_scene_rows sid d))
      = filter (\<lambda>v. sv_sceneId v = t \<and> sv_yankedAt v = None) (sceneVersions d)"
    unfolding delete_scene_rows_def by (simp, intro filter_delete) auto
  then show ?thesis by (simp only: latest_unyanked_def select_desc_def)
qed

lemma requested_hidden: "sid \<noteq> t \<Longrightarrow> requested_scene_version t n (delete_scene_rows sid d) = requested_scene_version t n d"
  by (auto simp: requested_scene_version_def latest_hidden split: option.split)
    (auto simp: delete_scene_rows_def intro!: select_one_delete)

lemma access_hidden:
  "canAccessPrivateScene x env rq owner (delete_scene_rows sid d)
   = map_prod (delete_scene_rows sid) id (canAccessPrivateScene x env rq owner d)"
proof -
  have rows: "sessions (delete_scene_rows sid d) = sessions d" by (simp add: delete_scene_rows_def)
  have "readSession x env rq (delete_scene_rows sid d) = readSession x env rq d" unfolding readSession_def rows ..
  moreover have "authenticateLinkedClient x h now (delete_scene_rows sid d)
      = map_prod (delete_scene_rows sid) id (authenticateLinkedClient x h now d)" for h now
    by (simp add: authenticateLinkedClient_def delete_scene_rows_def Let_def split: option.split)
  ultimately show ?thesis by (simp add: canAccessPrivateScene_def Let_def map_prod_def prod.case_eq_if)
qed

text \<open>A scene a request may not read answers like an id that is not there; other scenes are not affected.\<close>

lemma readable_hidden:
  assumes inv: "store_inv x d" and s: "s \<in> set (storeScenes d)"
    and no: "\<not> may_read x r d s"
  obtains (pulled) "ss_status s = ''pulled''" "js_lower sceneId = ss_id s"
      "snd (readable_scene x (sr_env r) (sr_http r) sceneId d) = Inl (jsonError ''scene_pulled'' 410 [])"
  | (other) t where "snd (readable_scene x (sr_env r) (sr_http r) sceneId d) = Inr t" "ss_id t \<noteq> ss_id s"
      "readable_scene x (sr_env r) (sr_http r) sceneId (delete_scene_rows (ss_id s) d)
        = map_prod (delete_scene_rows (ss_id s)) id (readable_scene x (sr_env r) (sr_http r) sceneId d)"
  | (refused) resp where "snd (readable_scene x (sr_env r) (sr_http r) sceneId d) = Inl resp"
      "snd (readable_scene x (sr_env r) (sr_http r) sceneId (delete_scene_rows (ss_id s) d)) = Inl resp"
proof -
  let ?read = "readable_scene x (sr_env r) (sr_http r) sceneId"
  let ?one = "\<lambda>d. if is_frame_id_text sceneId then select_one (\<lambda>s. ss_id s = js_lower sceneId) (storeScenes d) else None"
  show ?thesis
  proof (cases "is_frame_id_text sceneId \<and> js_lower sceneId = ss_id s")
    case True
    obtain q where q: "select_one (\<lambda>t. ss_id t = js_lower sceneId) (storeScenes d) = Some q"
      using True select_one_ex [OF s, of "\<lambda>t. ss_id t = js_lower sceneId"] by auto
    then have row: "?one d = Some s" using True inv_unique [OF inv s, of q] select_one_Some [OF q] by simp
    show ?thesis
    proof (cases "ss_status s = ''pulled''")
      case True
      then show ?thesis using row \<open>is_frame_id_text sceneId \<and> js_lower sceneId = ss_id s\<close>
        by (intro pulled) (simp_all add: readable_scene_def)
    next
      case status: False
      then have "snd (?read d) = Inl (jsonError ''scene_not_found'' 404 [])"
        using row no access_iff [of x r "ss_accountId s" d]
        by (simp add: readable_scene_def may_read_def Let_def prod.case_eq_if)
      moreover have "?one (delete_scene_rows (ss_id s) d) = None"
        using True by (auto simp: select_one_None delete_scene_rows_def delete_where_def)
      then have "snd (?read (delete_scene_rows (ss_id s) d)) = Inl (jsonError ''scene_not_found'' 404 [])"
        by (simp add: readable_scene_def)
      ultimately show ?thesis by (rule refused)
    qed
  next
    case False
    then have one: "?one (delete_scene_rows (ss_id s) d) = ?one d"
      by (auto simp: delete_scene_rows_def intro: select_one_delete)
    have e: "?read (delete_scene_rows (ss_id s) d) = map_prod (delete_scene_rows (ss_id s)) id (?read d)"
      unfolding readable_scene_def one
      by (auto simp: access_hidden Let_def prod.case_eq_if split: option.split)
    show ?thesis
    proof (cases "snd (?read d)")
      case (Inl resp)
      then show ?thesis using refused e by simp
    next
      case (Inr t)
      then have "ss_id t = js_lower sceneId \<and> is_frame_id_text sceneId"
        by (auto simp: readable_scene_def Let_def prod.case_eq_if split: option.splits if_splits dest!: select_one_Some)
      then show ?thesis using other [OF Inr _ e] False by auto
    qed
  qed
qed

text \<open>
  C14.  A private scene looks absent.  To a reader whom its owner has not let in, a download, a scenes file and
  every page of the listing answer exactly as if the scene, its versions and its images had been deleted.  The one
  exception is a scene that was pulled: a request for it by its id is told so (410), and nothing else.
\<close>

theorem private_scenes_hidden:
  assumes "store_inv x (w_db w)" and "s \<in> set (storeScenes (w_db w))"
    and "reads (sr_verb r)" and "\<not> may_read x r (w_db w) s"
  shows "snd (store_service x se r (w\<lparr>w_db := delete_scene_rows (ss_id s) (w_db w)\<rparr>)) = snd (store_service x se r w)
       \<or> ss_status s = ''pulled'' \<and> sr_verb r \<noteq> Browse \<and> js_lower (sr_scene r) = ss_id s
         \<and> snd (store_service x se r w) = Json (jsonError ''scene_pulled'' 410 [])"
proof -
  let ?hide = "delete_scene_rows (ss_id s)"
  have body: "snd (read_body x r (?hide (w_db w))) = snd (read_body x r (w_db w))
      \<or> ss_status s = ''pulled'' \<and> sr_verb r \<noteq> Browse \<and> js_lower (sr_scene r) = ss_id s
        \<and> snd (read_body x r (w_db w)) = Json (jsonError ''scene_pulled'' 410 [])"
  proof (cases "sr_verb r = Browse")
    case True
    have l: "\<not> listed s" using assms(4) by (simp add: listed_def may_read_def)
    then have "\<not> listed t" if "t \<in> set (storeScenes (w_db w))" "ss_id t = ss_id s" for t
      using that inv_unique [OF assms(1,2)] by auto
    then have "listStoreScenes f p (?hide (w_db w)) = listStoreScenes f p (w_db w)" for f p
      unfolding listStoreScenes_def select_asc_def
      by (subst product_delete [where Q = "\<lambda>t. ss_id t = ss_id s", symmetric])
        (auto simp: delete_scene_rows_def storeBrowseConditions_def)
    then show ?thesis using True by (simp add: read_body_def browse_store_def Let_def)
  next
    case False
    show ?thesis
    proof (cases rule: readable_hidden [OF assms(1,2,4), of "sr_scene r", case_names pulled other refused])
      case pulled
      then show ?thesis using False assms(3)
        by (cases "sr_verb r") (auto simp: read_body_def download_scene_def scenes_json_def prod.case_eq_if)
    next
      case (other t)
      then show ?thesis using False assms(3)
        by (cases "sr_verb r") (auto simp: read_body_def download_scene_def scenes_json_def latest_hidden requested_hidden
            prod.case_eq_if split: option.split sum.split)
    next
      case (refused resp)
      then show ?thesis using False assms(3)
        by (cases "sr_verb r") (auto simp: read_body_def download_scene_def scenes_json_def prod.case_eq_if)
    qed
  qed
  obtain action limit where e: "\<And>w. store_service x se r w = store_read_route (sr_env r) (sr_http r) action limit (read_body x r) w"
    using reads_bodies [OF assms(3)] by blast
  have w: "w\<lparr>w_db := w_db w\<rparr> = w" by simp
  show ?thesis unfolding e
    by (cases rule: store_read_reply [of "sr_env r" "sr_http r" action limit "read_body x r" w]) (metis body w)+
qed

section \<open>Examples\<close>

text \<open>The owner of the private example scene downloads it; another account finds nothing.\<close>

lemma demo_download_bytes:
  "\<exists>contentType disposition. snd (store_service archive_ext demo_store_env (demo_visit Download) \<lparr>w_db = demo_store ''a'', w_limits = idle_limiter\<rparr>)
     = Bytes demo_zip contentType disposition"
proof -
  obtain l where l: "limit_key (demo_env 9) (''store:download'' @ '':'' @ ''10.0.0.1'') 600 (15 * 60 * 1000)
      \<lparr>w_db = demo_store ''a'', w_limits = idle_limiter\<rparr> = (\<lparr>w_db = demo_store ''a'', w_limits = l\<rparr>, None)"
    using idle_limit_key [of 600] by fastforce
  have one: "select_one (\<lambda>s. ss_id s = js_lower demo_uuid) (storeScenes (demo_store ''a'')) = Some (demo_listing ''a'')"
    by (simp add: demo_uuid_facts demo_store_def select_one_def demo_listing_def new_scene_def)
  have "acts_as archive_ext (demo_visit Download) (demo_store ''a'') ''a''" by (simp add: demo_store_acts)
  then have "snd (canAccessPrivateScene archive_ext (demo_env 9) (demo_web_request None) ''a'' (demo_store ''a''))"
    using access_iff [of archive_ext "demo_visit Download" "''a''" "demo_store ''a''"] by (simp add: demo_visit_def)
  then obtain d1 where a: "canAccessPrivateScene archive_ext (demo_env 9) (demo_web_request None) ''a'' (demo_store ''a'') = (d1, True)"
    by (metis prod.collapse)
  have q: "rq_query (demo_web_request None) = []" by (simp add: demo_web_request_def)
  have read: "readable_scene archive_ext (demo_env 9) (demo_web_request None) demo_uuid (demo_store ''a'') = (d1, Inr (demo_listing ''a''))"
    using a one by (simp add: readable_scene_def demo_uuid_facts q shareTokenGrantsAccess_def is_public_def demo_listing_def new_scene_def)
  then have same: "same_store (demo_store ''a'') d1" by (metis fst_conv readable_store)
  then have v: "latest_unyanked demo_uuid d1 = Some (version_row archive_ext ''v'' 1 demo_zip None None [] demo_uuid 1)"
    by (simp add: latest_unyanked_def same_store_def demo_store_def select_desc_def version_row_def)
  have "snd (download_scene archive_ext (demo_env 9) demo_uuid (demo_web_request None) (demo_store ''a''))
      = Bytes demo_zip (sv_contentType (version_row archive_ext ''v'' 1 demo_zip None None [] demo_uuid 1))
          (Some (downloadDisposition (demo_listing ''a'') (version_row archive_ext ''v'' 1 demo_zip None None [] demo_uuid 1)))"
    using v by (simp add: download_scene_def read versionParam_def q requested_scene_version_def demo_listing_def new_scene_def version_row_def)
  then show ?thesis
    using l by (auto simp: store_service_def demo_visit_def download_route_def store_read_route_def rateLimitResponse_def
        demo_web_request_def requireDatabase_def demo_env_def prod.case_eq_if)
qed

theorem private_scenes_hidden_witness:
  "snd (store_service archive_ext demo_store_env (demo_visit Download)
        \<lparr>w_db = delete_scene_rows demo_uuid (demo_store ''b''), w_limits = idle_limiter\<rparr>)
   = snd (store_service archive_ext demo_store_env (demo_visit Download) \<lparr>w_db = demo_store ''b'', w_limits = idle_limiter\<rparr>)"
proof -
  have s: "ss_id (demo_listing ''b'') = demo_uuid" "ss_status (demo_listing ''b'') \<noteq> ''pulled''" "\<not> is_public (demo_listing ''b'')"
    by (simp_all add: demo_listing_def new_scene_def is_public_def)
  have "map_of (rq_query (sr_http (demo_visit Download))) ''share'' = None" by (simp add: demo_visit_def demo_web_request_def)
  then have "\<not> may_read archive_ext (demo_visit Download) (demo_store ''b'') (demo_listing ''b'')"
    by (simp add: may_read_def demo_store_acts demo_store_row s shareTokenGrantsAccess_def)
  moreover have "reads (sr_verb (demo_visit Download))" by (simp add: demo_visit_def)
  ultimately show ?thesis
    using private_scenes_hidden [of archive_ext "\<lparr>w_db = demo_store ''b'', w_limits = idle_limiter\<rparr>" "demo_listing ''b''"
        "demo_visit Download" demo_store_env] s
    by (simp add: demo_store_inv demo_store_row)
qed

section \<open>The scenes that are flagged and the scenes that are read\<close>

text \<open>
  The validation of an upload flags the scenes beside the shallowest template, but frames are assigned the
  shallowest scenes file.  The zip below carries a harmless template in a folder and a shell scene at its root:
  it passes without a flag, and what a frame would be sent deserves one.
\<close>

definition masked_zip :: bytes where
  "masked_zip = store_files [(''scenes.json'', ''[{\"code\":\"execCmd\"}]''), (''a/template.json'', ''{\"name\":\"Clock\"}''),
     (''a/scenes.json'', ''[{\"id\":\"s\",\"name\":\"Clock\"}]'')]"

lemma shell_scene_masked:
  "\<exists>z n scenes. validateSceneZip archive_ext masked_zip = Inr z \<and> vz_riskFlags z = []
     \<and> extractScenesJson archive_ext masked_zip = Some (n, scenes) \<and> detectRiskFlags (Some (JArr scenes)) = [riskFlagShell]"
proof -
  let ?r = "''[{\"code\":\"execCmd\"}]''" and ?m = "''{\"name\":\"Clock\"}''" and ?s = "''[{\"id\":\"s\",\"name\":\"Clock\"}]''"
  have e: "unzip_entries archive_ext masked_zip =
      Some [\<lparr>z_name = ''scenes.json'', z_originalSize = Some (length ?r), z_data = Some ?r\<rparr>,
            \<lparr>z_name = ''a/template.json'', z_originalSize = Some (length ?m), z_data = Some ?m\<rparr>,
            \<lparr>z_name = ''a/scenes.json'', z_originalSize = Some (length ?s), z_data = Some ?s\<rparr>]"
    by code_simp
  have k: "template_file ''scenes.json''" "template_file ''a/template.json''" "template_file ''a/scenes.json''"
    "manifest_path archive_ext [(''scenes.json'', ?r), (''a/template.json'', ?m), (''a/scenes.json'', ?s)] = Some ''a/template.json''"
    "path_depth ''a/template.json'' = 1" "folder_of ''a/template.json'' = ''a/''"
    "parseJson ?m = Some (JObj [(''name'', JStr ''Clock'')])"
    "parseJson ?s = Some (JArr [JObj [(''id'', JStr ''s''), (''name'', JStr ''Clock'')]])"
    "detectRiskFlags (Some (JArr [JObj [(''id'', JStr ''s''), (''name'', JStr ''Clock'')]])) = []"
    by code_simp+
  have n: "named_file ''scenes.json'' ''scenes.json''" "named_file ''scenes.json'' ''a/template.json'' = False"
    "named_file ''scenes.json'' ''a/scenes.json''"
    "shallowest None [(''scenes.json'', ?r), (''a/scenes.json'', ?s)] = Some (''scenes.json'', ?r)"
    "json_parse (utf8_decode ?r) = Some (JArr [JObj [(''code'', JStr ''execCmd'')]])"
    "detectRiskFlags (Some (JArr [JObj [(''code'', JStr ''execCmd'')]])) = [riskFlagShell]"
    by code_simp+
  have "length masked_zip < 400" by code_simp
  then have l: "\<not> maxSceneZipBytes < length masked_zip" by (simp add: maxSceneZipBytes_def)
  have valid: "\<exists>z. validateSceneZip archive_ext masked_zip = Inr z \<and> vz_riskFlags z = []"
    by (simp add: validateSceneZip_def unzipSync_def e k l Let_def maxSceneZipEntries_def
        maxSceneZipUncompressedBytes_def array_of_def)
  have u: "unzipSync archive_ext (named_file ''scenes.json'') masked_zip = Some [(''scenes.json'', ?r), (''a/scenes.json'', ?s)]"
    by (simp add: unzipSync_def e n(1-3) maxSceneZipEntries_def maxSceneZipUncompressedBytes_def)
  have "\<not> maxSceneZipUncompressedBytes < length ?r" by (simp add: maxSceneZipUncompressedBytes_def)
  then have "extractScenesJson archive_ext masked_zip = Some (length ?r, [JObj [(''code'', JStr ''execCmd'')]])"
    unfolding extractScenesJson_def u n(4) option.case prod.case n(5) if_False json.case by simp
  with valid n(6) show ?thesis by blast
qed

end
