(* ===== verification/Backups.thy ===== *)
theory Backups imports StoreRoutes FrameReads begin

text \<open>
  Config backups: \<open>lib/backups.ts\<close>, the bearer routes under \<open>api/backends/backups\<close> and the owner's routes under
  \<open>api/account/backups\<close>.  A backup belongs to the account; a linked client sees the kinds its scopes allow, and
  saving one again replaces it in place.
\<close>

section \<open>Kinds, names, summaries\<close>

definition backupKindScopes :: "(string \<times> string) list" where
  "backupKindScopes = [(''frames'', ''backup:frames''), (''templates'', ''backup:scenes'')]"

text \<open>What every object literal inherits: looking one of these up gives a value, but no scope.\<close>

definition inherited_keys :: "string list" where
  "inherited_keys =
     [''constructor'', ''__defineGetter__'', ''__defineSetter__'', ''hasOwnProperty'', ''__lookupGetter__'',
      ''__lookupSetter__'', ''isPrototypeOf'', ''propertyIsEnumerable'', ''toString'', ''valueOf'', ''__proto__'',
      ''toLocaleString'']"

definition backupScopeForKind :: "string \<Rightarrow> string option option" where
  "backupScopeForKind kind =
     (case map_of backupKindScopes kind of
        Some scope \<Rightarrow> Some (Some scope)
      | None \<Rightarrow> if kind \<in> set inherited_keys then Some None else None)"

definition may_back_up :: "linked_client \<Rightarrow> string \<Rightarrow> bool" where
  "may_back_up l kind \<longleftrightarrow>
     (case backupScopeForKind kind of Some (Some scope) \<Rightarrow> linkedClientHasScope l scope | _ \<Rightarrow> False)"

definition maxBackupBytes :: nat where "maxBackupBytes = 8 * 1024 * 1024"
definition maxBackupsPerAccount :: nat where "maxBackupsPerAccount = 500"

text \<open>Runs of characters outside the safe set become one underscore.\<close>

definition file_char :: "char \<Rightarrow> bool" where
  "file_char c \<longleftrightarrow> is_alnum c \<or> c \<in> {CHR ''.'', CHR ''_'', CHR ''-''}"

fun safe_file_name :: "bool \<Rightarrow> string \<Rightarrow> string" where
  "safe_file_name in_run [] = []"
| "safe_file_name in_run (c # cs) =
     (if file_char c then c # safe_file_name False cs
      else if in_run then safe_file_name True cs else CHR ''_'' # safe_file_name True cs)"

definition strip_underscores :: "string \<Rightarrow> string" where
  "strip_underscores s = rev (dropWhile ((=) (CHR ''_'')) (rev (dropWhile ((=) (CHR ''_'')) s)))"

definition backupDownloadFileName :: "client_backup \<Rightarrow> string" where
  "backupDownloadFileName b =
     (let name = (case cb_name b of Some n \<Rightarrow> if n = [] then cb_kind b @ ''-'' @ cb_itemKey b else n
                  | None \<Rightarrow> cb_kind b @ ''-'' @ cb_itemKey b);
          base = take 128 (strip_underscores (safe_file_name False name));
          extension = (if cb_contentType b = Some ''application/zip'' then ''.zip''
                       else if cb_contentType b = Some ''application/json'' then ''.json'' else ''.bin'');
          safeBase = (if base = [] then ''backup'' else base)
      in if js_ends_with extension (js_lower safeBase) then safeBase else safeBase @ extension)"

definition backupSummary :: "client_backup \<Rightarrow> fields" where
  "backupSummary b =
     [(''content_type'', json_of_str (cb_contentType b)), (''created_at'', JStr (iso_text (cb_createdAt b))),
      (''id'', JStr (cb_id b)), (''item_key'', JStr (cb_itemKey b)), (''kind'', JStr (cb_kind b)),
      (''linked_client_id'', json_of_str (cb_linkedClientId b)), (''name'', json_of_str (cb_name b)),
      (''sha256'', JStr (cb_sha256 b)), (''size_bytes'', json_nat (cb_sizeBytes b)),
      (''updated_at'', JStr (iso_text (cb_updatedAt b)))]"

section \<open>The routes of linked clients\<close>

text \<open>The guards the bearer routes share.\<close>

definition backup_client_route ::
  "ext \<Rightarrow> web_env \<Rightarrow> web_request \<Rightarrow> (linked_client \<Rightarrow> db \<Rightarrow> db \<times> http_response) \<Rightarrow> world \<Rightarrow> world \<times> http_response" where
  "backup_client_route x env rq body =
     limited_route env rq ''backend:backups'' 240 (15 * 60 * 1000)
       (\<lambda>d. case authenticateLinkedClient x (rq_authorization rq) (we_now env) d of
              (d1, None) \<Rightarrow> (d1, jsonError ''invalid_link_token'' 401 [])
            | (d1, Some l) \<Rightarrow> body l d1)"

text \<open>Text columns are ordered by code points here; the collation of the database is a matter of its set-up.\<close>

definition list_backups :: "linked_client \<Rightarrow> db \<Rightarrow> db \<times> http_response" where
  "list_backups l d =
     (let visibleKinds = map fst (filter (\<lambda>(kind, scope). scope \<in> set (linkedClientScopes l)) backupKindScopes)
      in if visibleKinds = [] then (d, jsonError ''insufficient_scope'' 403 [])
         else (d, jsonOk [(''backups'', JArr (map (\<lambda>b. JObj (backupSummary b))
                  (select_asc (\<lambda>b. (cb_kind b, cb_itemKey b)) (\<lambda>b. cb_accountId b = l_accountId l \<and> cb_kind b \<in> set visibleKinds)
                     (clientBackups d)))), (''linked_client_id'', JStr (l_id l))]))"

text \<open>The insert, or the update of the row with the same key: its id and its creation date stay.\<close>

definition same_item :: "uuid \<Rightarrow> string \<Rightarrow> string \<Rightarrow> client_backup \<Rightarrow> bool" where
  "same_item accountId kind itemKey b \<longleftrightarrow> cb_accountId b = accountId \<and> cb_kind b = kind \<and> cb_itemKey b = itemKey"

definition backup_row ::
  "ext \<Rightarrow> web_env \<Rightarrow> linked_client \<Rightarrow> string \<Rightarrow> string \<Rightarrow> bytes \<Rightarrow> string option \<Rightarrow> string option \<Rightarrow> client_backup \<Rightarrow> client_backup" where
  "backup_row x env l kind itemKey content contentType name b =
     b\<lparr>cb_accountId := l_accountId l, cb_content := content, cb_contentType := contentType, cb_itemKey := itemKey,
       cb_kind := kind, cb_linkedClientId := Some (l_id l), cb_name := name, cb_sha256 := sha256_hex x content,
       cb_sizeBytes := length content, cb_updatedAt := we_now env\<rparr>"

definition blank_backup :: "web_env \<Rightarrow> client_backup" where
  "blank_backup env =
     \<lparr>cb_id = we_uuid env 0, cb_accountId = [], cb_content = [], cb_contentType = None, cb_createdAt = we_now env, cb_itemKey = [],
      cb_kind = [], cb_linkedClientId = None, cb_name = None, cb_sha256 = [], cb_sizeBytes = 0, cb_updatedAt = we_now env\<rparr>"

definition upsert_backup :: "web_env \<Rightarrow> (client_backup \<Rightarrow> bool) \<Rightarrow> (client_backup \<Rightarrow> client_backup) \<Rightarrow> db \<Rightarrow> db" where
  "upsert_backup env same fill d =
     (if list_ex same (clientBackups d) then d\<lparr>clientBackups := update_where same fill (clientBackups d)\<rparr>
      else d\<lparr>clientBackups := clientBackups d @ [fill (blank_backup env)]\<rparr>)"

definition store_backup ::
  "ext \<Rightarrow> web_env \<Rightarrow> web_request \<Rightarrow> linked_client \<Rightarrow> string \<Rightarrow> string \<Rightarrow> bytes \<Rightarrow> string option \<Rightarrow> string option
   \<Rightarrow> db \<Rightarrow> db \<times> http_response" where
  "store_backup x env rq l kind itemKey content contentType name d =
     (let same = same_item (l_accountId l) kind itemKey;
          d1 = upsert_backup env same (backup_row x env l kind itemKey content contentType name) d
      in case select_one same (clientBackups d1) of
           None \<Rightarrow> (d1, jsonError ''backup_save_failed'' 500 [])
         | Some saved \<Rightarrow>
             (recordAuditEvent rq (Some (l_accountId l)) [(''linkedClientId'', JStr (l_id l))] ''backup.saved''
                (JObj [(''itemKey'', JStr itemKey), (''kind'', JStr kind), (''sizeBytes'', json_nat (length content))])
                (JObj [(''backupId'', JStr (cb_id saved))]) d1,
              jsonOk [(''backup'', JObj (backupSummary saved)), (''status'', JStr ''saved'')]))"

definition save_backup :: "ext \<Rightarrow> web_env \<Rightarrow> web_request \<Rightarrow> linked_client \<Rightarrow> db \<Rightarrow> db \<times> http_response" where
  "save_backup x env rq l d =
     (let body = readJsonObject rq; kind = (case map_of body ''kind'' of Some (JStr k) \<Rightarrow> k | _ \<Rightarrow> [])
      in if backupScopeForKind kind = None then (d, jsonError ''invalid_backup_kind'' 400 [])
         else if \<not> may_back_up l kind then (d, jsonError ''insufficient_scope'' 403 [])
         else
           (case parseOptionalString (map_of body ''item_key'') of
              None \<Rightarrow> (d, jsonError ''invalid_item_key'' 400 [])
            | Some itemKey \<Rightarrow>
                if length itemKey > 256 then (d, jsonError ''invalid_item_key'' 400 [])
                else
                  (case decodeBackupContent x (map_of body ''content_base64'') of
                     None \<Rightarrow> (d, jsonError ''invalid_content'' 400 [])
                   | Some content \<Rightarrow>
                       if content = [] then (d, jsonError ''invalid_content'' 400 [])
                       else if length content > maxBackupBytes
                       then (d, jsonError ''backup_too_large'' 413 [(''max_bytes'', json_nat maxBackupBytes)])
                       else
                         (let name = map_option (take 256) (parseOptionalString (map_of body ''name''));
                              contentType = map_option (take 128) (parseOptionalString (map_of body ''content_type''));
                              same = same_item (l_accountId l) kind itemKey;
                              rows = filter (\<lambda>b. cb_accountId b = l_accountId l) (clientBackups d);
                              accountBytes = backupBytesForAccount (l_accountId l) d;
                              existing = select_one same (clientBackups d);
                              bytesAfterSave = int accountBytes - (case existing of None \<Rightarrow> 0 | Some b \<Rightarrow> int (cb_sizeBytes b)) + int (length content)
                          in if existing = None \<and> length rows \<ge> maxBackupsPerAccount
                             then (d, jsonError ''backup_quota_exceeded'' 403 [(''max_backups'', json_nat maxBackupsPerAccount)])
                             else if bytesAfterSave > int maxBackupBytesPerAccount
                             then (d, jsonError ''backup_storage_quota_exceeded'' 403
                                     [(''max_bytes'', json_nat maxBackupBytesPerAccount), (''used_bytes'', json_nat accountBytes)])
                             else
                               store_backup x env rq l kind itemKey content contentType name d))))"

text \<open>\<open>loadBackup\<close> of the bearer routes: the backup by its id, of the client's account, of a kind it may see.\<close>

definition with_client_backup ::
  "string \<Rightarrow> (client_backup \<Rightarrow> linked_client \<Rightarrow> db \<Rightarrow> db \<times> http_response) \<Rightarrow> linked_client \<Rightarrow> db \<Rightarrow> db \<times> http_response" where
  "with_client_backup backupId body l d =
     (case (if is_frame_id_text backupId
            then select_one (\<lambda>b. cb_id b = js_lower backupId \<and> cb_accountId b = l_accountId l) (clientBackups d) else None) of
        None \<Rightarrow> (d, jsonError ''backup_not_found'' 404 [])
      | Some b \<Rightarrow> if \<not> may_back_up l (cb_kind b) then (d, jsonError ''insufficient_scope'' 403 []) else body b l d)"

definition read_backup :: "ext \<Rightarrow> client_backup \<Rightarrow> linked_client \<Rightarrow> db \<Rightarrow> db \<times> http_response" where
  "read_backup x b l d =
     (d, jsonOk [(''backup'', JObj (backupSummary b @ [(''content_base64'', JStr (base64_encode x (cb_content b)))]))])"

definition delete_backup :: "web_request \<Rightarrow> uuid \<Rightarrow> fields \<Rightarrow> client_backup \<Rightarrow> db \<Rightarrow> db \<times> http_response" where
  "delete_backup rq accountId actor b d =
     (recordAuditEvent rq (Some accountId) actor ''backup.deleted''
        (JObj [(''itemKey'', JStr (cb_itemKey b)), (''kind'', JStr (cb_kind b))]) (JObj [(''backupId'', JStr (cb_id b))])
        (d\<lparr>clientBackups := delete_where (\<lambda>r. cb_id r = cb_id b) (clientBackups d)\<rparr>),
      jsonOk [(''status'', JStr ''deleted'')])"

definition drop_backup :: "web_request \<Rightarrow> client_backup \<Rightarrow> linked_client \<Rightarrow> db \<Rightarrow> db \<times> http_response" where
  "drop_backup rq b l d = delete_backup rq (l_accountId l) [(''linkedClientId'', JStr (l_id l))] b d"

section \<open>The routes of the owner\<close>

definition with_account_backup ::
  "uuid \<Rightarrow> string \<Rightarrow> db \<Rightarrow> client_backup option" where
  "with_account_backup accountId backupId d =
     (if is_frame_id_text backupId
      then select_one (\<lambda>b. cb_id b = js_lower backupId \<and> cb_accountId b = accountId) (clientBackups d) else None)"

text \<open>The third component of the bytes is the name in \<open>content-disposition\<close>.\<close>

definition open_backup_route :: "ext \<Rightarrow> web_env \<Rightarrow> string \<Rightarrow> web_request \<Rightarrow> world \<Rightarrow> world \<times> reply" where
  "open_backup_route x env backupId rq =
     viewer_route x env rq ''account:backups'' 120
       (\<lambda>accountId d. case with_account_backup accountId backupId d of
          None \<Rightarrow> Json (jsonError ''backup_not_found'' 404 [])
        | Some b \<Rightarrow> Bytes (cb_content b) (case cb_contentType b of Some t \<Rightarrow> t | None \<Rightarrow> ''application/octet-stream'')
                      (Some (backupDownloadFileName b)))"

definition discard_backup_route :: "ext \<Rightarrow> web_env \<Rightarrow> string \<Rightarrow> web_request \<Rightarrow> world \<Rightarrow> world \<times> http_response" where
  "discard_backup_route x env backupId rq =
     owner_route x env rq ''account:backups'' 120 (15 * 60 * 1000)
       (\<lambda>accountId profile d. case with_account_backup accountId backupId d of
          None \<Rightarrow> (d, jsonError ''backup_not_found'' 404 [])
        | Some b \<Rightarrow> delete_backup rq accountId (session_actor accountId profile) b d)"

end
