(* ===== verification/BackupLaws.thy ===== *)
theory BackupLaws imports Backups begin

text \<open>
  The backups of an account as a service: what every request keeps of the table, who may change a backup, and
  that a backup can be restored.
\<close>

section \<open>The service\<close>

datatype backup_verb = ListBackups | SaveBackup | ReadBackup | DropBackup | OpenBackup | DiscardBackup

record backup_request =
  br_verb :: backup_verb
  br_backup :: string
  br_http :: web_request
  br_env :: web_env

definition json_answer :: "world \<times> http_response \<Rightarrow> world \<times> reply" where
  "json_answer = (\<lambda>(w, r). (w, Json r))"

definition backup_service :: "ext \<Rightarrow> backup_request \<Rightarrow> world \<Rightarrow> world \<times> reply" where
  "backup_service x r w =
     (let env = br_env r; rq = br_http r; backupId = br_backup r
      in case br_verb r of
           ListBackups \<Rightarrow> json_answer (backup_client_route x env rq list_backups w)
         | SaveBackup \<Rightarrow> json_answer (backup_client_route x env rq (save_backup x env rq) w)
         | ReadBackup \<Rightarrow> json_answer (backup_client_route x env rq (with_client_backup backupId (read_backup x)) w)
         | DropBackup \<Rightarrow> json_answer (backup_client_route x env rq (with_client_backup backupId (drop_backup rq)) w)
         | OpenBackup \<Rightarrow> open_backup_route x env backupId rq w
         | DiscardBackup \<Rightarrow> json_answer (discard_backup_route x env backupId rq w))"

fun serve_backups :: "ext \<Rightarrow> backup_request list \<Rightarrow> world \<Rightarrow> world" where
  "serve_backups x [] w = w"
| "serve_backups x (r # rs) w = serve_backups x rs (fst (backup_service x r w))"

fun each_backup_request :: "ext \<Rightarrow> (backup_request \<Rightarrow> db \<Rightarrow> bool) \<Rightarrow> backup_request list \<Rightarrow> world \<Rightarrow> bool" where
  "each_backup_request x P [] w = True"
| "each_backup_request x P (r # rs) w = (P r (w_db w) \<and> each_backup_request x P rs (fst (backup_service x r w)))"

text \<open>The linked client a request authenticates as, and whether it may touch a backup.\<close>

definition backup_client :: "ext \<Rightarrow> backup_request \<Rightarrow> db \<Rightarrow> linked_client option" where
  "backup_client x r d = snd (authenticateLinkedClient x (rq_authorization (br_http r)) (we_now (br_env r)) d)"

definition acts_on :: "ext \<Rightarrow> backup_request \<Rightarrow> db \<Rightarrow> uuid \<Rightarrow> string \<Rightarrow> bool" where
  "acts_on x r d accountId kind \<longleftrightarrow>
     Option.bind (readSession x (br_env r) (br_http r) d) session_account = Some accountId
     \<or> (case backup_client x r d of None \<Rightarrow> False | Some l \<Rightarrow> l_accountId l = accountId \<and> may_back_up l kind)"

definition backup_id_fresh :: "backup_request \<Rightarrow> db \<Rightarrow> bool" where
  "backup_id_fresh r d \<longleftrightarrow>
     (let i = we_uuid (br_env r) 0 in i \<notin> cb_id ` set (clientBackups d) \<and> is_frame_id_text i \<and> js_lower i = i)"

text \<open>What a request may do to the table.\<close>

inductive backup_effect :: "ext \<Rightarrow> backup_request \<Rightarrow> db \<Rightarrow> client_backup list \<Rightarrow> bool" for x r d where
  kept: "backup_effect x r d (clientBackups d)"
| saved: "br_verb r = SaveBackup \<Longrightarrow> backup_client x r d = Some l \<Longrightarrow> clientBackups d1 = clientBackups d \<Longrightarrow>
    backup_effect x r d (clientBackups (fst (save_backup x (br_env r) (br_http r) l d1)))"
| dropped: "b \<in> set (clientBackups d) \<Longrightarrow> acts_on x r d (cb_accountId b) (cb_kind b) \<Longrightarrow>
    backup_effect x r d (delete_where (\<lambda>c. cb_id c = cb_id b) (clientBackups d))"

inductive_cases backup_effectE: "backup_effect x r d t"

lemma authenticate_backups [simp]: "clientBackups (fst (authenticateLinkedClient x h now d)) = clientBackups d"
  by (simp add: authenticateLinkedClient_def Let_def split: option.split)

lemma client_route_effect:
  assumes "\<And>l d1. backup_client x r (w_db w) = Some l \<Longrightarrow> clientBackups d1 = clientBackups (w_db w) \<Longrightarrow>
      backup_effect x r (w_db w) (clientBackups (fst (body l d1)))"
  shows "backup_effect x r (w_db w) (clientBackups (w_db (fst (backup_client_route x (br_env r) (br_http r) body w))))"
proof -
  let ?body = "\<lambda>d. case authenticateLinkedClient x (rq_authorization (br_http r)) (we_now (br_env r)) d of
      (d1, None) \<Rightarrow> (d1, jsonError ''invalid_link_token'' 401 []) | (d1, Some l) \<Rightarrow> body l d1"
  obtain d1 c where a: "authenticateLinkedClient x (rq_authorization (br_http r)) (we_now (br_env r)) (w_db w) = (d1, c)" by force
  then have d1: "clientBackups d1 = clientBackups (w_db w)" by (metis authenticate_backups fst_conv)
  show ?thesis unfolding backup_client_route_def
  proof (cases rule: limited_route_cases [of "br_env r" "br_http r" "''backend:backups''" 240 "15 * 60 * 1000" ?body w])
    case (refused resp)
    then show "backup_effect x r (w_db w) (clientBackups (w_db (fst (limited_route (br_env r) (br_http r) ''backend:backups'' 240
        (15 * 60 * 1000) ?body w))))" by (simp add: backup_effect.kept)
  next
    case run
    then show "backup_effect x r (w_db w) (clientBackups (w_db (fst (limited_route (br_env r) (br_http r) ''backend:backups'' 240
        (15 * 60 * 1000) ?body w))))"
      using a d1 assms [of _ d1] backup_effect.kept [of x r "w_db w"] by (auto simp: backup_client_def split: option.split)
  qed
qed

lemma delete_backup_rows: "clientBackups (fst (delete_backup rq acc actor b d)) = delete_where (\<lambda>c. cb_id c = cb_id b) (clientBackups d)"
  by (simp add: delete_backup_def)

lemma client_drop_effect:
  assumes l: "backup_client x r d = Some l" and d1: "clientBackups d1 = clientBackups d"
  shows "backup_effect x r d (clientBackups (fst (with_client_backup i (drop_backup rq) l d1)))"
proof (cases "clientBackups (fst (with_client_backup i (drop_backup rq) l d1)) = clientBackups d")
  case False
  then obtain b where b: "b \<in> set (clientBackups d)" "cb_accountId b = l_accountId l" "may_back_up l (cb_kind b)"
      "with_client_backup i (drop_backup rq) l d1 = drop_backup rq b l d1"
    using d1 by (auto simp: with_client_backup_def split: option.splits if_splits dest!: select_one_Some)
  have "acts_on x r d (cb_accountId b) (cb_kind b)" using l b by (simp add: acts_on_def)
  then show ?thesis using backup_effect.dropped [OF b(1)] b(4) d1 by (simp add: drop_backup_def delete_backup_rows)
qed (simp add: backup_effect.kept)

lemma discard_effect:
  "backup_effect x r (w_db w) (clientBackups (w_db (fst (discard_backup_route x (br_env r) i (br_http r) w))))"
proof -
  obtain w1 g where g: "owner_guard x (br_env r) (br_http r) ''account:backups'' 120 (15 * 60 * 1000) w = (w1, g)" by force
  have db: "w_db w1 = w_db w"
    using g by (auto simp: owner_guard_def split: option.splits prod.splits dest: rateLimit_db)
  show ?thesis
  proof (cases g)
    case (Inl resp)
    then show ?thesis using g db by (simp add: discard_backup_route_def owner_route_def backup_effect.kept)
  next
    case (Inr p)
    obtain acc profile where p: "p = (acc, profile)" by force
    have acts: "Option.bind (readSession x (br_env r) (br_http r) (w_db w)) session_account = Some acc"
      using g Inr p db by (auto simp: owner_guard_def session_guard_def split: option.splits prod.splits)
    show ?thesis
    proof (cases "with_account_backup acc i (w_db w)")
      case None
      then show ?thesis using g Inr p db by (simp add: discard_backup_route_def owner_route_def backup_effect.kept)
    next
      case (Some b)
      then have b: "b \<in> set (clientBackups (w_db w))" "cb_accountId b = acc"
        by (auto simp: with_account_backup_def split: if_splits dest!: select_one_Some)
      have "acts_on x r (w_db w) (cb_accountId b) (cb_kind b)" using acts b(2) by (simp add: acts_on_def)
      then show ?thesis using g Inr p db Some backup_effect.dropped [OF b(1)]
        by (simp add: discard_backup_route_def owner_route_def delete_backup_rows prod.case_eq_if)
    qed
  qed
qed

lemma backup_service_effect: "backup_effect x r (w_db w) (clientBackups (w_db (fst (backup_service x r w))))"
proof -
  have answer: "fst (json_answer wr) = fst wr" for wr by (simp add: json_answer_def split: prod.split)
  have viewer: "w_db (fst (viewer_route x (br_env r) (br_http r) action limit body w)) = w_db w" for action limit body
    by (auto simp: viewer_route_def viewer_guard_def split: prod.split sum.split option.split dest: rateLimit_db)
  have rows: "clientBackups (fst (list_backups l d1)) = clientBackups d1"
    "clientBackups (fst (with_client_backup i (read_backup x) l d1)) = clientBackups d1" for l d1 i
    by (auto simp: list_backups_def with_client_backup_def read_backup_def Let_def split: option.split)
  show ?thesis
  proof (cases "br_verb r")
    case ListBackups
    then show ?thesis using client_route_effect [of x r w list_backups] rows(1) backup_effect.kept [of x r "w_db w"]
      by (simp add: backup_service_def answer Let_def)
  next
    case SaveBackup
    then show ?thesis using client_route_effect [of x r w "save_backup x (br_env r) (br_http r)"] backup_effect.saved [OF SaveBackup]
      by (simp add: backup_service_def answer Let_def)
  next
    case ReadBackup
    then show ?thesis using client_route_effect [of x r w "with_client_backup (br_backup r) (read_backup x)"] rows(2)
        backup_effect.kept [of x r "w_db w"]
      by (simp add: backup_service_def answer Let_def)
  next
    case DropBackup
    then show ?thesis using client_route_effect [of x r w "with_client_backup (br_backup r) (drop_backup (br_http r))"]
        client_drop_effect by (simp add: backup_service_def answer Let_def)
  next
    case OpenBackup
    then show ?thesis using viewer backup_effect.kept [of x r "w_db w"] by (simp add: backup_service_def open_backup_route_def Let_def)
  next
    case DiscardBackup
    then show ?thesis using discard_effect by (simp add: backup_service_def answer Let_def)
  qed
qed

section \<open>What every request keeps\<close>

definition backup_sound :: "ext \<Rightarrow> client_backup \<Rightarrow> bool" where
  "backup_sound x b \<longleftrightarrow>
     cb_kind b \<in> {''frames'', ''templates''} \<and> cb_itemKey b \<noteq> [] \<and> length (cb_itemKey b) \<le> 256
     \<and> cb_content b \<noteq> [] \<and> length (cb_content b) \<le> maxBackupBytes \<and> cb_sizeBytes b = length (cb_content b)
     \<and> cb_sha256 b = sha256_hex x (cb_content b) \<and> is_frame_id_text (cb_id b) \<and> js_lower (cb_id b) = cb_id b"

definition backup_item :: "client_backup \<Rightarrow> uuid \<times> string \<times> string" where
  "backup_item b = (cb_accountId b, cb_kind b, cb_itemKey b)"

definition item_bytes :: "uuid \<Rightarrow> client_backup list \<Rightarrow> nat" where
  "item_bytes acc rows = sum_list (map cb_sizeBytes (filter (\<lambda>b. cb_accountId b = acc) rows))"

definition backups_ok :: "ext \<Rightarrow> client_backup list \<Rightarrow> bool" where
  "backups_ok x rows \<longleftrightarrow>
     keyed cb_id rows \<and> keyed backup_item rows \<and> (\<forall>b\<in>set rows. backup_sound x b)
     \<and> (\<forall>acc. length (filter (\<lambda>b. cb_accountId b = acc) rows) \<le> maxBackupsPerAccount
              \<and> item_bytes acc rows \<le> maxBackupBytesPerAccount)"

text \<open>An update addressed by a key hits one row.\<close>

lemma keyed_update_split:
  assumes "keyed k rows" and "b \<in> set rows" and "\<And>q. P q \<longleftrightarrow> k q = k b"
  obtains xs ys where "rows = xs @ b # ys" "update_where P f rows = xs @ f b # ys"
    "\<And>q. q \<in> set xs \<union> set ys \<Longrightarrow> k q \<noteq> k b"
proof -
  obtain xs ys where r: "rows = xs @ b # ys" using assms(2) by (metis split_list)
  with assms(1) have n: "k q \<noteq> k b" if "q \<in> set xs \<union> set ys" for q
    using that by (auto simp: keyed_def image_iff)
  then have "update_where P f rows = xs @ f b # ys"
    using assms(3) by (auto simp: r table_simps intro!: update_where_noop)
  with r n that show ?thesis by blast
qed

lemma backups_ok_delete:
  assumes "backups_ok x rows" shows "backups_ok x (delete_where P rows)"
proof -
  have "length (filter Q (delete_where P rows)) \<le> length (filter Q rows)" for Q
    by (simp add: delete_where_def) (induction rows; simp)
  moreover have "item_bytes acc (delete_where P rows) \<le> item_bytes acc rows" for acc
    by (induction rows) (auto simp: item_bytes_def delete_where_def)
  ultimately have "length (filter (\<lambda>b. cb_accountId b = acc) (delete_where P rows)) \<le> maxBackupsPerAccount
      \<and> item_bytes acc (delete_where P rows) \<le> maxBackupBytesPerAccount" for acc
    using assms unfolding backups_ok_def by (meson le_trans)
  then show ?thesis using assms by (auto simp: backups_ok_def keyed_delete)
qed

text \<open>The row a save writes, and what the quota check says of it.\<close>

lemma save_backup_cases:
  obtains (refused) "clientBackups (fst (save_backup x env rq l d)) = clientBackups d"
    "rs_status (snd (save_backup x env rq l d)) \<noteq> 200"
  | (saved) kind itemKey content contentType name saved where
    "map_of (readJsonObject rq) ''kind'' = Some (JStr kind)" "may_back_up l kind"
    "itemKey \<noteq> []" "length itemKey \<le> 256"
    "decodeBackupContent x (map_of (readJsonObject rq) ''content_base64'') = Some content"
    "content \<noteq> []" "length content \<le> maxBackupBytes"
    "select_one (same_item (l_accountId l) kind itemKey) (clientBackups d) \<noteq> None
       \<or> length (filter (\<lambda>b. cb_accountId b = l_accountId l) (clientBackups d)) < maxBackupsPerAccount"
    "int (item_bytes (l_accountId l) (clientBackups d))
       - (case select_one (same_item (l_accountId l) kind itemKey) (clientBackups d) of None \<Rightarrow> 0 | Some b \<Rightarrow> int (cb_sizeBytes b))
       + int (length content) \<le> int maxBackupBytesPerAccount"
    "clientBackups (fst (save_backup x env rq l d))
       = clientBackups (upsert_backup env (same_item (l_accountId l) kind itemKey)
           (backup_row x env l kind itemKey content contentType name) d)"
    "select_one (same_item (l_accountId l) kind itemKey) (clientBackups (fst (save_backup x env rq l d))) = Some saved"
    "snd (save_backup x env rq l d) = jsonOk [(''backup'', JObj (backupSummary saved)), (''status'', JStr ''saved'')]"
proof -
  let ?body = "readJsonObject rq"
  show ?thesis
  proof (cases "clientBackups (fst (save_backup x env rq l d)) = clientBackups d \<and> rs_status (snd (save_backup x env rq l d)) \<noteq> 200")
    case True
    then show ?thesis using refused by blast
  next
    case False
    have "may_back_up l (case map_of ?body ''kind'' of Some (JStr k) \<Rightarrow> k | _ \<Rightarrow> [])"
      using False by (auto simp: save_backup_def Let_def split: if_splits)
    then obtain kind where k: "map_of ?body ''kind'' = Some (JStr kind)" and kind: "may_back_up l kind"
      by (cases "map_of ?body ''kind''") (auto simp: may_back_up_def backupScopeForKind_def backupKindScopes_def
          inherited_keys_def split: json.splits option.splits)
    have known: "backupScopeForKind kind \<noteq> None" using kind by (auto simp: may_back_up_def split: option.splits)
    obtain itemKey where key: "parseOptionalString (map_of ?body ''item_key'') = Some itemKey" "\<not> length itemKey > 256"
      using False k kind known by (auto simp: save_backup_def Let_def split: option.splits if_splits)
    obtain content where content: "decodeBackupContent x (map_of ?body ''content_base64'') = Some content" "content \<noteq> []"
        "\<not> length content > maxBackupBytes"
      using False k kind known key by (auto simp: save_backup_def Let_def split: option.splits if_splits)
    define name where "name = map_option (take 256) (parseOptionalString (map_of ?body ''name''))"
    define contentType where "contentType = map_option (take 128) (parseOptionalString (map_of ?body ''content_type''))"
    let ?same = "same_item (l_accountId l) kind itemKey"
    let ?size = "case select_one ?same (clientBackups d) of None \<Rightarrow> 0 | Some b \<Rightarrow> int (cb_sizeBytes b)"
    let ?d1 = "upsert_backup env ?same (backup_row x env l kind itemKey content contentType name) d"
    have quota: "\<not> (select_one ?same (clientBackups d) = None
          \<and> length (filter (\<lambda>b. cb_accountId b = l_accountId l) (clientBackups d)) \<ge> maxBackupsPerAccount)"
        "\<not> int (backupBytesForAccount (l_accountId l) d) - ?size + int (length content) > int maxBackupBytesPerAccount"
      using False k kind known key content
      by (auto simp: save_backup_def Let_def name_def [symmetric] contentType_def [symmetric] split: if_splits)
    have e: "save_backup x env rq l d = store_backup x env rq l kind itemKey content contentType name d"
      using kind known key content quota unfolding save_backup_def Let_def k option.case json.case name_def contentType_def
      by auto
    have fits: "?same (backup_row x env l kind itemKey content contentType name c)" for c
      by (simp add: backup_row_def same_item_def)
    have "\<exists>c\<in>set (clientBackups ?d1). ?same c"
    proof (cases "list_ex ?same (clientBackups d)")
      case True
      then obtain c where "c \<in> set (clientBackups d)" "?same c" by (auto simp: list_ex_iff)
      then have "backup_row x env l kind itemKey content contentType name c \<in> set (clientBackups ?d1)"
        using True by (auto simp: upsert_backup_def set_update_where)
      then show ?thesis using fits by blast
    qed (simp add: upsert_backup_def fits)
    then have hit: "select_one ?same (clientBackups ?d1) \<noteq> None" by (simp add: select_one_None)
    then obtain b where b: "select_one ?same (clientBackups ?d1) = Some b" by blast
    show ?thesis
    proof (rule saved [OF k kind _ _ content(1,2)])
      show "itemKey \<noteq> []" using key(1) by (auto simp: parseOptionalString_def Let_def split: option.splits json.splits if_splits)
    qed (use e b key(2) content(3) quota in \<open>auto simp: backupBytesForAccount_def item_bytes_def store_backup_def Let_def\<close>)
  qed
qed


lemma same_item_key: "same_item acc kind key b \<Longrightarrow> same_item acc kind key q \<longleftrightarrow> backup_item q = backup_item b"
  by (auto simp: same_item_def backup_item_def)

interpretation fill: keyed_update cb_id "backup_row x env l kind itemKey content contentType name"
  for x env l kind itemKey content contentType name
  by unfold_locales (simp add: backup_row_def)

lemma save_backup_ok:
  assumes ok: "backups_ok x (clientBackups d)" and fresh: "backup_id_fresh r d" and env: "env = br_env r"
  shows "backups_ok x (clientBackups (fst (save_backup x env rq l d)))"
proof (cases rule: save_backup_cases [of x env rq l d])
  case refused
  then show ?thesis using ok by simp
next
  case (saved kind itemKey content contentType name s)
  let ?same = "same_item (l_accountId l) kind itemKey" and ?fill = "backup_row x env l kind itemKey content contentType name"
  let ?rows = "clientBackups d"
  have kind: "kind \<in> {''frames'', ''templates''}"
    using saved(2) by (auto simp: may_back_up_def backupScopeForKind_def backupKindScopes_def split: option.splits if_splits)
  have sound: "backup_sound x (?fill b)" if "is_frame_id_text (cb_id b)" "js_lower (cb_id b) = cb_id b" for b
    using that kind saved(3,4,6,7) by (simp add: backup_sound_def backup_row_def)
  have item: "backup_item (?fill b) = (l_accountId l, kind, itemKey)" "cb_accountId (?fill b) = l_accountId l"
    "cb_sizeBytes (?fill b) = length content" "cb_id (?fill b) = cb_id b" for b
    by (simp_all add: backup_item_def backup_row_def)
  show ?thesis
  proof (cases "select_one ?same ?rows")
    case None
    then have none: "\<forall>b\<in>set ?rows. \<not> ?same b" by (simp add: select_one_None)
    let ?b = "?fill (blank_backup env)"
    have rows: "clientBackups (fst (save_backup x env rq l d)) = ?rows @ [?b]"
      using saved(10) none by (simp add: upsert_backup_def list_ex_iff)
    have new: "cb_id ?b \<notin> cb_id ` set ?rows" "is_frame_id_text (cb_id ?b)" "js_lower (cb_id ?b) = cb_id ?b"
      using fresh unfolding item(4) by (simp_all add: blank_backup_def env backup_id_fresh_def Let_def)
    have key: "backup_item ?b \<notin> backup_item ` set ?rows" using none unfolding item(1) by (auto simp: backup_item_def same_item_def)
    have quota: "length (filter (\<lambda>b. cb_accountId b = l_accountId l) ?rows) < maxBackupsPerAccount"
      "item_bytes (l_accountId l) ?rows + length content \<le> maxBackupBytesPerAccount" using saved(8,9) None by simp_all
    have "length (filter (\<lambda>b. cb_accountId b = acc) (?rows @ [?b])) \<le> maxBackupsPerAccount
        \<and> item_bytes acc (?rows @ [?b]) \<le> maxBackupBytesPerAccount" for acc
      using ok quota by (auto simp: backups_ok_def item_bytes_def item(2,3))
    then show ?thesis unfolding rows
      using ok new key sound [of "blank_backup env"] by (auto simp: backups_ok_def item(4) intro!: keyed_append_fresh)
  next
    case (Some b)
    from select_one_Some [OF this] have b: "b \<in> set ?rows" "?same b" by auto
    have upd: "clientBackups (fst (save_backup x env rq l d)) = update_where ?same ?fill ?rows"
      using saved(10) b by (auto simp: upsert_backup_def list_ex_iff)
    from ok have keys: "keyed cb_id ?rows" "keyed backup_item ?rows" by (simp_all add: backups_ok_def)
    obtain xs ys where split: "?rows = xs @ b # ys" "update_where ?same ?fill ?rows = xs @ ?fill b # ys"
      using keyed_update_split [OF keys(2) b(1) same_item_key [OF b(2)], of ?fill] by blast
    have same: "backup_item (?fill b) = backup_item b" "cb_accountId (?fill b) = cb_accountId b"
      using b(2) unfolding item(1,2) by (simp_all add: backup_item_def same_item_def)
    have quota: "item_bytes (l_accountId l) ?rows + length content \<le> maxBackupBytesPerAccount + cb_sizeBytes b"
      using saved(9) Some by simp
    have "length (filter (\<lambda>b. cb_accountId b = acc) (xs @ ?fill b # ys)) \<le> maxBackupsPerAccount
        \<and> item_bytes acc (xs @ ?fill b # ys) \<le> maxBackupBytesPerAccount" for acc
    proof -
      have "length (filter (\<lambda>b. cb_accountId b = acc) ?rows) \<le> maxBackupsPerAccount" "item_bytes acc ?rows \<le> maxBackupBytesPerAccount"
        using ok by (simp_all add: backups_ok_def)
      then show ?thesis using quota b(2) unfolding split(1)
        by (auto simp: item_bytes_def item(2,3) same_item_def)
    qed
    moreover have "keyed cb_id (xs @ ?fill b # ys)" "keyed backup_item (xs @ ?fill b # ys)"
      using keys unfolding split(1) by (simp_all add: keyed_def item(4) same(1))
    moreover have "\<forall>q\<in>set (xs @ ?fill b # ys). backup_sound x q"
      using ok sound [of b] unfolding split(1) by (auto simp: backups_ok_def backup_sound_def [of x b])
    ultimately show ?thesis unfolding upd split(2) by (simp add: backups_ok_def)
  qed
qed

lemma backups_ok_effect:
  assumes "backup_effect x r d t" and "backups_ok x (clientBackups d)" and "backup_id_fresh r d"
  shows "backups_ok x t"
  using assms(1)
proof (cases rule: backup_effect.cases)
  case (saved l d1)
  then show ?thesis using save_backup_ok [of x d1 r "br_env r"] assms(2,3) by (simp add: backup_id_fresh_def)
qed (use assms(2) backups_ok_delete in auto)

lemma serve_backups_induct:
  assumes "each_backup_request x P rs w" and "Q (clientBackups (w_db w))"
    and "\<And>r d t. P r d \<Longrightarrow> Q (clientBackups d) \<Longrightarrow> backup_effect x r d t \<Longrightarrow> Q t"
  shows "Q (clientBackups (w_db (serve_backups x rs w)))"
  using assms(1,2)
proof (induction rs arbitrary: w)
  case (Cons r rs)
  then show ?case using assms(3) [OF _ _ backup_service_effect] by simp
qed simp

text \<open>
  C19.  The backups stay in order.  Whatever requests arrive, from linked clients and owners, an account has at
  most one backup of an item, at most 500 of them with at most 100 MiB in all; each is of a known kind, at most
  8 MiB, and its recorded size and hash are those of its content: replacing one is never refused for its number.
\<close>

theorem backups_stay_bounded:
  assumes "backups_ok x (clientBackups (w_db w))" and "each_backup_request x backup_id_fresh rs w"
  shows "backups_ok x (clientBackups (w_db (serve_backups x rs w)))"
  using serve_backups_induct [where P = backup_id_fresh and Q = "backups_ok x", OF assms(2,1)] backups_ok_effect by blast

text \<open>
  C26.  Backups are the account's.  As long as no request carries a session of the account or a token of one of its
  linked clients with the scope of the backup's kind, a backup stays exactly as it is.
\<close>

theorem backups_of_others_untouched:
  assumes "b \<in> set (clientBackups (w_db w))" and "keyed cb_id (clientBackups (w_db w))"
    and "each_backup_request x (\<lambda>r d. backup_id_fresh r d \<and> \<not> acts_on x r d (cb_accountId b) (cb_kind b)) rs w"
  shows "b \<in> set (clientBackups (w_db (serve_backups x rs w)))"
proof -
  let ?Q = "\<lambda>t. b \<in> set t \<and> keyed cb_id t"
  have "?Q t" if P: "backup_id_fresh r d \<and> \<not> acts_on x r d (cb_accountId b) (cb_kind b)" and Q: "?Q (clientBackups d)"
      and e: "backup_effect x r d t" for r d t
    using e
  proof (cases rule: backup_effect.cases)
    case (saved l d1)
    show ?thesis
    proof (cases rule: save_backup_cases [of x "br_env r" "br_http r" l d1])
      case refused
      then show ?thesis using saved Q by simp
    next
      case (saved kind itemKey content contentType name s)
      let ?same = "same_item (l_accountId l) kind itemKey"
      have "\<not> ?same b" using P \<open>backup_client x r d = Some l\<close> saved(2) by (auto simp: acts_on_def same_item_def)
      then show ?thesis using saved(10) Q P \<open>clientBackups d1 = clientBackups d\<close> \<open>t = _\<close> fill.keyed_update_where
        by (auto simp: upsert_backup_def set_update_where backup_id_fresh_def Let_def backup_row_def blank_backup_def image_iff
            intro!: bexI [of _ b] keyed_append_fresh)
    qed
  next
    case (dropped c)
    have "cb_id b \<noteq> cb_id c" using dropped P Q keyed_eq [of cb_id "clientBackups d" b c] by auto
    then show ?thesis using dropped Q by (simp add: keyed_delete)
  qed (use Q in simp)
  then show ?thesis using serve_backups_induct [where Q = ?Q, OF assms(3)] assms(1,2) by blast
qed


section \<open>Restoring\<close>

text \<open>What the code relies on: base64 decodes what it encodes, and nothing else encodes to nothing.\<close>

definition base64_law :: "ext \<Rightarrow> bool" where
  "base64_law x \<longleftrightarrow> (\<forall>content. base64_decode x (base64_encode x content) = content) \<and> base64_encode x [] = []"

lemma decode_encoded:
  assumes "base64_law x" and "content \<noteq> []"
  shows "decodeBackupContent x (Some (JStr (base64_encode x content))) = Some content"
proof -
  have "base64_encode x content \<noteq> []" using assms unfolding base64_law_def by metis
  then show ?thesis using assms(1) by (simp add: decodeBackupContent_def base64_law_def Let_def)
qed

lemma upsert_content:
  assumes "b \<in> set (clientBackups (upsert_backup env same fill d))" and "same b"
  shows "\<exists>c. b = fill c"
  using assms by (auto simp: upsert_backup_def list_ex_iff set_update_where split: if_splits)

text \<open>
  C27.  A saved backup can be restored.  When a save answers 200, the backup it names can be read by every linked
  client of the account that has the scope of its kind, the one that saved it or a later installation, and what is
  read decodes to the bytes that were saved.
\<close>

theorem saved_backup_restored:
  assumes "base64_law x" and "backups_ok x (clientBackups d)" and "backup_id_fresh r d"
    and "save_backup x (br_env r) (br_http r) l d = (d', answer)" and "rs_status answer = 200"
    and "map_of (readJsonObject (br_http r)) ''kind'' = Some (JStr kind)" and "l_accountId l' = l_accountId l" and "may_back_up l' kind"
    and "decodeBackupContent x (map_of (readJsonObject (br_http r)) ''content_base64'') = Some content"
  shows "\<exists>b text. answer = jsonOk [(''backup'', JObj (backupSummary b)), (''status'', JStr ''saved'')]
    \<and> with_client_backup (cb_id b) (read_backup x) l' d'
        = (d', jsonOk [(''backup'', JObj (backupSummary b @ [(''content_base64'', JStr text)]))])
    \<and> decodeBackupContent x (Some (JStr text)) = Some content"
proof (cases rule: save_backup_cases [of x "br_env r" "br_http r" l d])
  case refused
  then show ?thesis using assms(4,5) by simp
next
  case (saved k itemKey c contentType name b)
  from saved(1,5) assms(6,9) have k: "k = kind" "c = content" by simp_all
  let ?same = "same_item (l_accountId l) kind itemKey"
  from select_one_Some [OF saved(11)] assms(4) k have b: "b \<in> set (clientBackups d')" "?same b" by auto
  have "\<exists>q. b = backup_row x (br_env r) l kind itemKey content contentType name q"
    using upsert_content [of b "br_env r" ?same] b saved(10) assms(4) k by auto
  then have content: "cb_content b = content" by (auto simp: backup_row_def)
  have ok: "backups_ok x (clientBackups d')" using save_backup_ok [OF assms(2,3) refl, where l = l and rq = "br_http r"] assms(4) by simp
  then have id: "is_frame_id_text (cb_id b)" "js_lower (cb_id b) = cb_id b" using b(1) by (auto simp: backups_ok_def backup_sound_def)
  have "select_one (\<lambda>q. cb_id q = js_lower (cb_id b) \<and> cb_accountId q = l_accountId l') (clientBackups d') = Some b"
    using ok b id(2) assms(7) by (intro select_one_unique [where k = cb_id]) (auto simp: backups_ok_def keyed_def same_item_def)
  then have "with_client_backup (cb_id b) (read_backup x) l' d'
      = (d', jsonOk [(''backup'', JObj (backupSummary b @ [(''content_base64'', JStr (base64_encode x content))]))])"
    using id(1) b(2) assms(8) content by (simp add: with_client_backup_def read_backup_def same_item_def)
  then show ?thesis using decode_encoded [OF assms(1) saved(6)] saved(12) assms(4) k by auto
qed

section \<open>Examples\<close>

definition backup_demo_client :: linked_client where
  "backup_demo_client = \<lparr>l_id = ''l'', l_accountId = ''a'', l_clientKind = ''backend'', l_encryptedRefreshToken = None,
     l_lastSeenAt = None, l_lastTokenRotationAt = None, l_localOrigin = None, l_previousTokenExpiresAt = None,
     l_previousTokenReference = None, l_metadata = JObj [(''requestedScopes'', JArr [JStr ''backup:frames''])],
     l_displayName = ''n'', l_revokedAt = None, l_tokenReference = ''t'', l_createdAt = 1, l_updatedAt = 1\<rparr>"

definition backup_demo :: "backup_verb \<Rightarrow> backup_request" where
  "backup_demo verb = \<lparr>br_verb = verb, br_backup = demo_uuid,
     br_http = demo_web_request (Some (JObj [(''kind'', JStr ''frames''), (''item_key'', JStr ''k''), (''content_base64'', JStr ''abc'')])),
     br_env = (demo_env 9)\<lparr>we_uuid := \<lambda>_. demo_uuid\<rparr>\<rparr>"

definition backup_demo_row :: client_backup where
  "backup_demo_row = backup_row sample_ext (br_env (backup_demo SaveBackup)) backup_demo_client ''frames'' ''k'' ''abc'' None None
     (blank_backup (br_env (backup_demo SaveBackup)))"

lemma backup_demo_fresh: "cb_id ` set (clientBackups d) = {} \<Longrightarrow> backup_id_fresh (backup_demo verb) d"
  by (simp add: backup_id_fresh_def backup_demo_def demo_uuid_facts)

lemma backup_demo_empty: "backups_ok x (clientBackups empty_db)"
  by (simp add: backups_ok_def empty_db_def item_bytes_def)

theorem backups_stay_bounded_witness:
  "backups_ok sample_ext (clientBackups (w_db (serve_backups sample_ext [backup_demo SaveBackup] \<lparr>w_db = empty_db, w_limits = idle_limiter\<rparr>)))"
proof -
  have "backup_id_fresh (backup_demo SaveBackup) empty_db" by (rule backup_demo_fresh) (simp add: empty_db_def)
  then show ?thesis
    using backups_stay_bounded [of sample_ext "\<lparr>w_db = empty_db, w_limits = idle_limiter\<rparr>" "[backup_demo SaveBackup]"]
      backup_demo_empty by simp
qed

lemma backup_demo_stranger:
  "\<not> acts_on sample_ext (backup_demo verb) (empty_db\<lparr>clientBackups := rows\<rparr>) acc kind"
  by (simp add: acts_on_def backup_client_def backup_demo_def demo_web_request_def authenticateLinkedClient_def bearer_token_def
      readSession_def sample_ext_def session_account_def empty_db_def select_one_def demo_env_def)

theorem backups_of_others_untouched_witness:
  "backup_demo_row\<lparr>cb_id := ''z''\<rparr> \<in> set (clientBackups (w_db (serve_backups sample_ext [backup_demo DropBackup]
     \<lparr>w_db = empty_db\<lparr>clientBackups := [backup_demo_row\<lparr>cb_id := ''z''\<rparr>]\<rparr>, w_limits = idle_limiter\<rparr>)))"
proof -
  let ?b = "backup_demo_row\<lparr>cb_id := ''z''\<rparr>"
  let ?w = "\<lparr>w_db = empty_db\<lparr>clientBackups := [?b]\<rparr>, w_limits = idle_limiter\<rparr>"
  have "demo_uuid \<noteq> ''z''" by code_simp
  then have "backup_id_fresh (backup_demo DropBackup) (w_db ?w)"
    by (simp add: backup_id_fresh_def Let_def backup_demo_def demo_uuid_facts)
  then show ?thesis
    using backups_of_others_untouched [of ?b ?w sample_ext "[backup_demo DropBackup]"] backup_demo_stranger
    by (simp add: keyed_def)
qed

lemma backup_demo_saved:
  "rs_status (snd (save_backup sample_ext (br_env (backup_demo SaveBackup)) (br_http (backup_demo SaveBackup)) backup_demo_client empty_db)) = 200"
proof -
  let ?rq = "br_http (backup_demo SaveBackup)"
  have k: "map_of (readJsonObject ?rq) ''kind'' = Some (JStr ''frames'')" "backupScopeForKind ''frames'' = Some (Some ''backup:frames'')"
    "may_back_up backup_demo_client ''frames''" "parseOptionalString (map_of (readJsonObject ?rq) ''item_key'') = Some ''k''"
    "decodeBackupContent sample_ext (map_of (readJsonObject ?rq) ''content_base64'') = Some ''abc''"
    by code_simp+
  have rows: "clientBackups empty_db = []" by (simp add: empty_db_def)
  show ?thesis unfolding save_backup_def Let_def k option.case json.case
    by (simp add: k(3) store_backup_def Let_def upsert_backup_def rows backupBytesForAccount_def select_one_def same_item_def backup_row_def
        maxBackupBytes_def maxBackupBytesPerAccount_def maxBackupsPerAccount_def)
qed

theorem saved_backup_restored_witness:
  "\<exists>b text. with_client_backup (cb_id b) (read_backup sample_ext) backup_demo_client
       (fst (save_backup sample_ext (br_env (backup_demo SaveBackup)) (br_http (backup_demo SaveBackup)) backup_demo_client empty_db))
     = (fst (save_backup sample_ext (br_env (backup_demo SaveBackup)) (br_http (backup_demo SaveBackup)) backup_demo_client empty_db),
        jsonOk [(''backup'', JObj (backupSummary b @ [(''content_base64'', JStr text)]))])
    \<and> decodeBackupContent sample_ext (Some (JStr text)) = Some ''abc''"
proof -
  have law: "base64_law sample_ext" by (simp add: base64_law_def sample_ext_def)
  have fresh: "backup_id_fresh (backup_demo SaveBackup) empty_db" by (rule backup_demo_fresh) (simp add: empty_db_def)
  have kind: "map_of (readJsonObject (br_http (backup_demo SaveBackup))) ''kind'' = Some (JStr ''frames'')"
    "may_back_up backup_demo_client ''frames''"
    "decodeBackupContent sample_ext (map_of (readJsonObject (br_http (backup_demo SaveBackup))) ''content_base64'') = Some ''abc''"
    by code_simp+
  show ?thesis
    using saved_backup_restored [OF law backup_demo_empty fresh prod.collapse [symmetric] backup_demo_saved kind(1) refl kind(2,3)] by blast
qed

end
