(* ===== verification/Accounts.thy ===== *)
theory Accounts imports StoreRoutes begin

text \<open>
  Accounts and their credentials: the identity tables of \<open>packages/db\<close>, the password hashes of
  \<open>lib/passwords.ts\<close>, and the return paths of \<open>lib/auth-cookies.ts\<close>.  An account is found by the issuer and
  subject of one of its identities; the subject of a password identity is the normalised email.
\<close>

section \<open>State and environment\<close>

record identity =
  id_id :: uuid
  id_accountId :: uuid
  id_emailSnapshot :: "string option"
  id_emailVerified :: bool
  id_providerIssuer :: string
  id_providerKey :: string
  id_providerSubject :: string

text \<open>A row of the reset tokens or of the verification tokens.\<close>

record mail_token =
  mt_accountId :: uuid
  mt_expiresAt :: time
  mt_tokenHash :: string
  mt_usedAt :: "time option"

text \<open>The tables of the sign-in code beside the world of the other handlers, and the mails sent: address and token.\<close>

record credentials =
  cr_world :: world
  cr_identities :: "identity list"
  cr_resets :: "mail_token list"
  cr_verifications :: "mail_token list"
  cr_mails :: "(string \<times> string) list"

definition cr_db :: "credentials \<Rightarrow> db" where "cr_db c = w_db (cr_world c)"

definition on_cr_db :: "(db \<Rightarrow> db) \<Rightarrow> credentials \<Rightarrow> credentials" where
  "on_cr_db f c = c\<lparr>cr_world := on_w_db f (cr_world c)\<rparr>"

text \<open>
  What is outside the repository: \<open>scrypt\<close> (\<open>None\<close> when it throws), base64url, the signature of a session token,
  the URL parser with its base (\<open>pu_path\<close> is the path with query and fragment), and the OpenID exchange with Google:
  the issuer, when it is configured, and the claims of a code, verifier and nonce, when they verify.
\<close>

record parsed_url =
  pu_origin :: string
  pu_username :: string
  pu_password :: string
  pu_path :: string
  pu_href :: string

record google_claims =
  gc_email :: "string option"
  gc_email_verified :: "bool option"
  gc_name :: "string option"
  gc_sub :: string

record auth_ext =
  ax_core :: ext
  ax_scrypt :: "string \<Rightarrow> bytes \<Rightarrow> int \<Rightarrow> int \<Rightarrow> int \<Rightarrow> bytes option"
  ax_encode :: "bytes \<Rightarrow> string"
  ax_decode :: "string \<Rightarrow> bytes"
  ax_sign_session :: "fields \<Rightarrow> uuid \<Rightarrow> time \<Rightarrow> string"
  ax_url :: "string option \<Rightarrow> string \<Rightarrow> parsed_url option"
  ax_google :: "string option"
  ax_exchange :: "string \<Rightarrow> string \<Rightarrow> string \<Rightarrow> google_claims option"

section \<open>Passwords\<close>

definition scryptN :: int where "scryptN = 65536"
definition scryptR :: int where "scryptR = 8"
definition scryptP :: int where "scryptP = 1"
definition keyLength :: nat where "keyLength = 64"

definition validatePasswordCandidate :: "string \<Rightarrow> string option" where
  "validatePasswordCandidate password =
     (if length password < 8 then Some ''Password must be at least 8 characters long.''
      else if length password > 256 then Some ''Password must be at most 256 characters long.''
      else None)"

definition hashPassword :: "auth_ext \<Rightarrow> string \<Rightarrow> bytes \<Rightarrow> string option" where
  "hashPassword ax password salt =
     map_option (\<lambda>derived. js_join ''$''
         [''scrypt'', dec_text scryptN, dec_text scryptR, dec_text scryptP, ax_encode ax salt, ax_encode ax derived])
       (ax_scrypt ax password salt scryptN scryptR scryptP)"

definition js_integer :: "string \<Rightarrow> int option" where
  "js_integer raw = (case js_Number raw of Some q \<Rightarrow> if is_integer q then Some \<lfloor>q\<rfloor> else None | None \<Rightarrow> None)"

text \<open>\<open>None\<close> when \<open>scrypt\<close> throws; further parts of the stored text are ignored.\<close>

definition verifyPassword :: "auth_ext \<Rightarrow> string \<Rightarrow> string \<Rightarrow> bool option" where
  "verifyPassword ax password storedHash =
     (case js_split (CHR ''$'') storedHash of
        scheme # rawN # rawR # rawP # encodedSalt # encodedHash # _ \<Rightarrow>
          if scheme \<noteq> ''scrypt'' \<or> rawN = [] \<or> rawR = [] \<or> rawP = [] \<or> encodedSalt = [] \<or> encodedHash = [] then Some False
          else
            (case (js_integer rawN, js_integer rawR, js_integer rawP) of
               (Some n, Some r, Some p) \<Rightarrow>
                 (let expected = ax_decode ax encodedHash
                  in if length expected \<noteq> keyLength then Some False
                     else map_option (\<lambda>derived. derived = expected) (ax_scrypt ax password (ax_decode ax encodedSalt) n r p))
             | _ \<Rightarrow> Some False)
      | _ \<Rightarrow> Some False)"

definition verifyPasswordWithDummyFallback :: "auth_ext \<Rightarrow> string \<Rightarrow> string option \<Rightarrow> bool option" where
  "verifyPasswordWithDummyFallback ax password storedHash =
     (case storedHash of
        Some h \<Rightarrow> if h = [] then Some False else verifyPassword ax password h
      | None \<Rightarrow> Some False)"

section \<open>Identities\<close>

definition passwordProviderIssuer :: string where "passwordProviderIssuer = ''frameos-cloud''"
definition passwordProviderKey :: string where "passwordProviderKey = ''password''"
definition googleProviderKey :: string where "googleProviderKey = ''google''"

definition normalizeEmail :: "string \<Rightarrow> string" where
  "normalizeEmail email = js_lower (js_trim email)"

text \<open>The insert that the unique index on issuer and subject may refuse.\<close>

definition insert_identity :: "identity \<Rightarrow> credentials \<Rightarrow> credentials option" where
  "insert_identity i c =
     (if list_ex (\<lambda>j. id_providerIssuer j = id_providerIssuer i \<and> id_providerSubject j = id_providerSubject i) (cr_identities c)
      then None else Some (c\<lparr>cr_identities := cr_identities c @ [i]\<rparr>))"

definition new_account :: "uuid \<Rightarrow> string option \<Rightarrow> string option \<Rightarrow> string option \<Rightarrow> account" where
  "new_account aid name email passwordHash =
     \<lparr>a_id = aid, a_displayName = name, a_isSuperadmin = False, a_passwordHash = passwordHash, a_storeBanReason = None,
      a_storeBannedAt = None, a_primaryEmail = email\<rparr>"

definition insert_account :: "account \<Rightarrow> credentials \<Rightarrow> credentials" where
  "insert_account a = on_cr_db (\<lambda>d. d\<lparr>accounts := accounts d @ [a]\<rparr>)"

definition update_account :: "uuid \<Rightarrow> (account \<Rightarrow> account) \<Rightarrow> credentials \<Rightarrow> credentials" where
  "update_account aid f = on_cr_db (\<lambda>d. d\<lparr>accounts := update_where (\<lambda>a. a_id a = aid) f (accounts d)\<rparr>)"

definition findIdentity :: "string \<Rightarrow> string \<Rightarrow> credentials \<Rightarrow> identity option" where
  "findIdentity issuer subject c =
     select_one (\<lambda>i. id_providerIssuer i = issuer \<and> id_providerSubject i = subject) (cr_identities c)"

text \<open>The account and whether it was created; \<open>None\<close> when the transaction fails.\<close>

definition upsertAccountFromIdentity ::
  "web_env \<Rightarrow> string \<Rightarrow> google_claims \<Rightarrow> credentials \<Rightarrow> (credentials \<times> uuid \<times> bool) option" where
  "upsertAccountFromIdentity env issuer claims c =
     (case findIdentity issuer (gc_sub claims) c of
        Some i \<Rightarrow>
          Some (update_account (id_accountId i)
                  (\<lambda>a. a\<lparr>a_displayName := (case gc_name claims of None \<Rightarrow> a_displayName a | Some n \<Rightarrow> Some n),
                         a_primaryEmail := (case gc_email claims of None \<Rightarrow> a_primaryEmail a | Some e \<Rightarrow> Some e)\<rparr>) c,
                id_accountId i, False)
      | None \<Rightarrow>
          map_option (\<lambda>c'. (c', we_uuid env 0, True))
            (insert_identity \<lparr>id_id = we_uuid env 1, id_accountId = we_uuid env 0, id_emailSnapshot = gc_email claims,
                id_emailVerified = (gc_email_verified claims = Some True), id_providerIssuer = issuer,
                id_providerKey = googleProviderKey, id_providerSubject = gc_sub claims\<rparr>
               (insert_account (new_account (we_uuid env 0) (gc_name claims) (gc_email claims) None) c)))"

definition findAccountByPasswordEmail :: "string \<Rightarrow> credentials \<Rightarrow> (identity \<times> account) option" where
  "findAccountByPasswordEmail email c =
     select_one (\<lambda>(i, a). a_id a = id_accountId i \<and> id_providerIssuer i = passwordProviderIssuer
                          \<and> id_providerSubject i = normalizeEmail email)
       (List.product (cr_identities c) (accounts (cr_db c)))"

definition password_identity :: "uuid \<Rightarrow> uuid \<Rightarrow> string \<Rightarrow> bool \<Rightarrow> identity" where
  "password_identity iid aid email verified =
     \<lparr>id_id = iid, id_accountId = aid, id_emailSnapshot = Some email, id_emailVerified = verified,
      id_providerIssuer = passwordProviderIssuer, id_providerKey = passwordProviderKey, id_providerSubject = email\<rparr>"

definition createPasswordAccount ::
  "web_env \<Rightarrow> string option \<Rightarrow> string \<Rightarrow> string \<Rightarrow> credentials \<Rightarrow> (credentials \<times> uuid) option" where
  "createPasswordAccount env displayName email passwordHash c =
     (let e = normalizeEmail email
      in map_option (\<lambda>c'. (c', we_uuid env 0))
           (insert_identity (password_identity (we_uuid env 1) (we_uuid env 0) e False)
              (insert_account (new_account (we_uuid env 0) displayName (Some e) (Some passwordHash)) c)))"

definition findVerifiedGoogleAccountByEmail :: "string \<Rightarrow> credentials \<Rightarrow> uuid option" where
  "findVerifiedGoogleAccountByEmail email c =
     map_option id_accountId
       (select_one (\<lambda>i. id_providerKey i = googleProviderKey \<and> id_emailSnapshot i = Some (normalizeEmail email) \<and> id_emailVerified i)
          (cr_identities c))"

definition ensurePasswordIdentityForAccount :: "web_env \<Rightarrow> uuid \<Rightarrow> credentials \<Rightarrow> credentials option" where
  "ensurePasswordIdentityForAccount env aid c =
     (case select_one (\<lambda>i. id_accountId i = aid \<and> id_providerIssuer i = passwordProviderIssuer) (cr_identities c) of
        Some e \<Rightarrow>
          Some (c\<lparr>cr_identities := update_where (\<lambda>i. id_id i = id_id e) (\<lambda>i. i\<lparr>id_emailVerified := True\<rparr>) (cr_identities c)\<rparr>)
      | None \<Rightarrow>
          (case Option.bind (select_one (\<lambda>i. id_accountId i = aid \<and> id_providerKey i = googleProviderKey \<and> id_emailVerified i)
                   (cr_identities c)) id_emailSnapshot of
             None \<Rightarrow> Some c
           | Some snapshot \<Rightarrow>
               if snapshot = [] then Some c
               else insert_identity (password_identity (we_uuid env 1) aid (normalizeEmail snapshot) True) c))"

definition linkIdentityToAccount ::
  "web_env \<Rightarrow> uuid \<Rightarrow> string option \<Rightarrow> string \<Rightarrow> string \<Rightarrow> credentials \<Rightarrow> credentials option" where
  "linkIdentityToAccount env aid email issuer subject =
     insert_identity \<lparr>id_id = we_uuid env 1, id_accountId = aid, id_emailSnapshot = email, id_emailVerified = True,
       id_providerIssuer = issuer, id_providerKey = googleProviderKey, id_providerSubject = subject\<rparr>"

definition setAccountPassword :: "uuid \<Rightarrow> string \<Rightarrow> credentials \<Rightarrow> credentials" where
  "setAccountPassword aid passwordHash = update_account aid (\<lambda>a. a\<lparr>a_passwordHash := Some passwordHash\<rparr>)"

definition markPasswordIdentityVerified :: "uuid \<Rightarrow> credentials \<Rightarrow> credentials" where
  "markPasswordIdentityVerified aid c =
     c\<lparr>cr_identities := update_where (\<lambda>i. id_accountId i = aid \<and> id_providerIssuer i = passwordProviderIssuer)
        (\<lambda>i. i\<lparr>id_emailVerified := True\<rparr>) (cr_identities c)\<rparr>"

text \<open>The sign-in by Google: the account, or why not; \<open>None\<close> when an insert fails.\<close>

datatype google_resolution =
    GoogleOk uuid bool
  | RequiresPasswordReset string
  | GoogleEmailUnverified

definition resolveGoogleSignIn ::
  "web_env \<Rightarrow> string \<Rightarrow> google_claims \<Rightarrow> credentials \<Rightarrow> (credentials \<times> google_resolution) option" where
  "resolveGoogleSignIn env issuer claims c =
     (let upsert = map_option (\<lambda>(c', aid, created). (c', GoogleOk aid created)) (upsertAccountFromIdentity env issuer claims c)
      in case (findIdentity issuer (gc_sub claims) c, gc_email claims) of
           (None, Some email) \<Rightarrow>
             if email = [] then upsert
             else
               (case findAccountByPasswordEmail email c of
                  None \<Rightarrow> upsert
                | Some (i, a) \<Rightarrow>
                    if gc_email_verified claims \<noteq> Some True then Some (c, GoogleEmailUnverified)
                    else if \<not> id_emailVerified i then Some (c, RequiresPasswordReset email)
                    else map_option (\<lambda>c'. (c', GoogleOk (a_id a) False))
                           (linkIdentityToAccount env (a_id a) (Some email) issuer (gc_sub claims) c))
         | _ \<Rightarrow> upsert)"

section \<open>Return paths\<close>

definition safeAuthReturnPath :: "auth_ext \<Rightarrow> web_env \<Rightarrow> string option \<Rightarrow> string option" where
  "safeAuthReturnPath ax env value =
     (case value of
        None \<Rightarrow> None
      | Some v \<Rightarrow>
          if v = [] then None
          else if js_starts_with ''/'' v \<and> \<not> js_starts_with ''//'' v then
            (case ax_url ax (Some ''http://frameos.local'') v of
               None \<Rightarrow> None
             | Some u \<Rightarrow> if pu_origin u \<noteq> ''http://frameos.local'' then None else Some (pu_path u))
          else
            (case ax_url ax None v of
               None \<Rightarrow> None
             | Some u \<Rightarrow>
                 if pu_username u \<noteq> [] \<or> pu_password u \<noteq> [] \<or> pu_origin u \<notin> set (we_appOrigins env) then None
                 else Some (pu_href u)))"

end
