(* ===== verification/SignIn.thy ===== *)
theory SignIn imports Accounts begin

text \<open>
  Signing up, in and out: the routes under \<open>api/auth\<close>, \<open>api/account/password\<close>, \<open>verify-email\<close> and \<open>logout\<close>.
  A reply may set the session cookie; mails are recorded with the token they carry.  A redirect names its target
  as the handler passes it to \<open>new URL\<close>, relative to the base URL of the application.
\<close>

section \<open>Replies and steps\<close>

datatype auth_reply =
    Plain http_response
  | SignedIn http_response string
  | Redirect string
  | RedirectSignedIn string string
  | VerifyPage bool

definition fail :: "string \<Rightarrow> int \<Rightarrow> auth_reply" where
  "fail error status = Plain (jsonError error status [])"

definition crash :: auth_reply where
  "crash = Plain server_error"

definition cr_audit ::
  "web_request \<Rightarrow> uuid \<Rightarrow> fields \<Rightarrow> string \<Rightarrow> json \<Rightarrow> json \<Rightarrow> credentials \<Rightarrow> credentials" where
  "cr_audit rq aid actor eventType metadata target = on_cr_db (recordAuditEvent rq (Some aid) actor eventType metadata target)"

text \<open>A limit on the world of the credentials: the refusal, or the body.\<close>

definition cr_limited ::
  "(world \<Rightarrow> world \<times> http_response option) \<Rightarrow> (credentials \<Rightarrow> credentials \<times> auth_reply) \<Rightarrow> credentials \<Rightarrow> credentials \<times> auth_reply" where
  "cr_limited limit body c =
     (case limit (cr_world c) of
        (w, Some r) \<Rightarrow> (c\<lparr>cr_world := w\<rparr>, Plain r)
      | (w, None) \<Rightarrow> body (c\<lparr>cr_world := w\<rparr>))"

definition body_text :: "web_request \<Rightarrow> string \<Rightarrow> string" where
  "body_text rq k = (case map_of (readJsonObject rq) k of Some (JStr s) \<Rightarrow> s | _ \<Rightarrow> [])"

text \<open>\<open>createSession\<close>: the signed token and its row.\<close>

definition start_session :: "auth_ext \<Rightarrow> web_env \<Rightarrow> fields \<Rightarrow> uuid \<Rightarrow> credentials \<Rightarrow> credentials \<times> string" where
  "start_session ax env profile aid c =
     (let token = ax_sign_session ax profile (we_uuid env 2) (we_now env)
      in (on_cr_db (createSession (ax_core ax) (we_uuid env 3) token aid (we_now env)) c, token))"

section \<open>Mails with a token\<close>

definition verificationTokenMaxAgeMs :: int where "verificationTokenMaxAgeMs = 24 * 60 * 60 * 1000"
definition resetTokenMaxAgeMs :: int where "resetTokenMaxAgeMs = 60 * 60 * 1000"

definition beginEmailVerification :: "auth_ext \<Rightarrow> web_env \<Rightarrow> uuid \<Rightarrow> string \<Rightarrow> credentials \<Rightarrow> credentials" where
  "beginEmailVerification ax env aid email c =
     (let token = ''frev_'' @ we_random env 0
      in c\<lparr>cr_verifications := cr_verifications c @ [\<lparr>mt_accountId = aid, mt_expiresAt = we_now env + verificationTokenMaxAgeMs,
                mt_tokenHash = hashSecret (ax_core ax) token, mt_usedAt = None\<rparr>],
           cr_mails := cr_mails c @ [(email, token)]\<rparr>)"

text \<open>The atomic claim of a token by its hash; the claimed row is the one before the update.\<close>

definition claim_mail_token :: "ext \<Rightarrow> string \<Rightarrow> time \<Rightarrow> mail_token list \<Rightarrow> mail_token list \<times> mail_token option" where
  "claim_mail_token x token now rows =
     (let fits = (\<lambda>t. mt_tokenHash t = hashSecret x token \<and> mt_usedAt t = None)
      in (update_where fits (\<lambda>t. t\<lparr>mt_usedAt := Some now\<rparr>) rows, select_one fits rows))"

definition confirmEmailVerification :: "auth_ext \<Rightarrow> web_env \<Rightarrow> web_request \<Rightarrow> string \<Rightarrow> credentials \<Rightarrow> credentials \<times> bool" where
  "confirmEmailVerification ax env rq token c =
     (let (rows, claimed) = claim_mail_token (ax_core ax) token (we_now env) (cr_verifications c);
          c1 = c\<lparr>cr_verifications := rows\<rparr>
      in case claimed of
           None \<Rightarrow> (c1, False)
         | Some t \<Rightarrow>
             if mt_expiresAt t \<le> we_now env then (c1, False)
             else (cr_audit rq (mt_accountId t) [(''accountId'', JStr (mt_accountId t))] ''account.email_verified'' JNull JNull
                     (markPasswordIdentityVerified (mt_accountId t) c1), True))"

text \<open>The page \<open>verify-email\<close>: its answer is whether the address was verified.\<close>

definition verify_email_page :: "auth_ext \<Rightarrow> web_env \<Rightarrow> web_request \<Rightarrow> credentials \<Rightarrow> credentials \<times> bool" where
  "verify_email_page ax env rq c =
     (case map_of (rq_query rq) ''token'' of
        None \<Rightarrow> (c, False)
      | Some raw \<Rightarrow>
          if js_trim raw = [] \<or> \<not> we_hasDatabase env then (c, False)
          else confirmEmailVerification ax env rq (js_trim raw) c)"

section \<open>Signing up\<close>

text \<open>The shape of an address: one @, no white space, and a dot inside the domain.\<close>

definition email_shape :: "string \<Rightarrow> bool" where
  "email_shape s \<longleftrightarrow>
     list_all (\<lambda>c. \<not> js_ws c) s
     \<and> (case js_split (CHR ''@'') s of
          [name, domain] \<Rightarrow> name \<noteq> [] \<and> domain \<noteq> [] \<and> CHR ''.'' \<in> set (butlast (tl domain))
        | _ \<Rightarrow> False)"

definition signup_name :: "web_request \<Rightarrow> string option" where
  "signup_name rq = (let n = js_trim (body_text rq ''name'') in if n = [] then None else Some (take 120 n))"

definition create_user :: "auth_ext \<Rightarrow> web_env \<Rightarrow> web_request \<Rightarrow> string \<Rightarrow> string \<Rightarrow> credentials \<Rightarrow> credentials \<times> auth_reply" where
  "create_user ax env rq email password c =
     (if findAccountByPasswordEmail email c \<noteq> None then (c, fail ''email_taken'' 409)
      else if findVerifiedGoogleAccountByEmail email c \<noteq> None then (c, fail ''email_taken_google'' 409)
      else
        (case hashPassword ax password (we_random env 1) of
           None \<Rightarrow> (c, crash)
         | Some passwordHash \<Rightarrow>
             (case createPasswordAccount env (signup_name rq) email passwordHash c of
                None \<Rightarrow> (c, fail ''email_taken'' 409)
              | Some (c1, aid) \<Rightarrow>
                  (beginEmailVerification ax env aid email
                     (cr_audit rq aid [(''accountId'', JStr aid), (''providerSubject'', JStr email)] ''account.signed_up''
                        (JObj [(''method'', JStr ''password'')]) (JObj [(''providerIssuer'', JStr passwordProviderIssuer)]) c1),
                   Plain (jsonOk [(''ok'', JBool True), (''verify_email'', JBool True)])))))"

definition sign_up :: "auth_ext \<Rightarrow> web_env \<Rightarrow> web_request \<Rightarrow> credentials \<Rightarrow> credentials \<times> auth_reply" where
  "sign_up ax env rq c =
     (let email = normalizeEmail (body_text rq ''email''); password = body_text rq ''password''
      in if email = [] \<or> length email > 254 \<or> \<not> email_shape email \<or> password = [] then (c, fail ''invalid_request'' 400)
         else
           (case validatePasswordCandidate password of
              Some message \<Rightarrow> (c, Plain (jsonError ''weak_password'' 400 [(''message'', JStr message)]))
            | None \<Rightarrow> if \<not> we_hasDatabase env then (c, crash) else create_user ax env rq email password c))"

definition guarded_sign_in ::
  "web_env \<Rightarrow> web_request \<Rightarrow> string \<Rightarrow> int \<Rightarrow> int \<Rightarrow> (credentials \<Rightarrow> credentials \<times> auth_reply) \<Rightarrow> credentials
   \<Rightarrow> credentials \<times> auth_reply" where
  "guarded_sign_in env rq action limit windowMs body c =
     (case csrfResponse env rq of
        Some r \<Rightarrow> (c, Plain r)
      | None \<Rightarrow> cr_limited (rateLimitResponse env rq action limit windowMs) body c)"

definition signup_route :: "auth_ext \<Rightarrow> web_env \<Rightarrow> web_request \<Rightarrow> credentials \<Rightarrow> credentials \<times> auth_reply" where
  "signup_route ax env rq = guarded_sign_in env rq ''auth:signup'' 10 (60 * 60 * 1000) (sign_up ax env rq)"

section \<open>Signing in by password\<close>

definition password_profile :: "string \<Rightarrow> identity \<Rightarrow> account \<Rightarrow> fields" where
  "password_profile email i a =
     [(''accountId'', JStr (a_id a)), (''email'', JStr (case a_primaryEmail a of Some e \<Rightarrow> e | None \<Rightarrow> email)),
      (''emailVerified'', JBool (id_emailVerified i))]
     @ (case a_displayName a of None \<Rightarrow> [] | Some n \<Rightarrow> [(''name'', JStr n)])
     @ [(''providerIssuer'', JStr passwordProviderIssuer), (''providerSubject'', JStr email)]"

definition resend_key :: "uuid \<Rightarrow> string" where
  "resend_key aid = ''auth:verify-email-resend:'' @ aid"

text \<open>The right password of an unverified address: the link is sent again, at most three times an hour.\<close>

definition resend_verification :: "auth_ext \<Rightarrow> web_env \<Rightarrow> uuid \<Rightarrow> string \<Rightarrow> credentials \<Rightarrow> credentials" where
  "resend_verification ax env aid email c =
     (case limit_key env (resend_key aid) 3 (60 * 60 * 1000) (cr_world c) of
        (w, Some _) \<Rightarrow> c\<lparr>cr_world := w\<rparr>
      | (w, None) \<Rightarrow> beginEmailVerification ax env aid email (c\<lparr>cr_world := w\<rparr>))"

definition log_in :: "auth_ext \<Rightarrow> web_env \<Rightarrow> web_request \<Rightarrow> string \<Rightarrow> string \<Rightarrow> credentials \<Rightarrow> credentials \<times> auth_reply" where
  "log_in ax env rq email password c =
     (if \<not> we_hasDatabase env then (c, crash)
      else
        (let found = findAccountByPasswordEmail email c
         in case verifyPasswordWithDummyFallback ax password (Option.bind found (\<lambda>(i, a). a_passwordHash a)) of
              None \<Rightarrow> (c, crash)
            | Some valid \<Rightarrow>
                (case found of
                   None \<Rightarrow> (c, fail ''invalid_credentials'' 401)
                 | Some (i, a) \<Rightarrow>
                     if \<not> valid then (c, fail ''invalid_credentials'' 401)
                     else if \<not> id_emailVerified i
                     then (resend_verification ax env (a_id a) email c, fail ''email_unverified'' 403)
                     else
                       (let c1 = cr_audit rq (a_id a) [(''accountId'', JStr (a_id a)), (''providerSubject'', JStr email)]
                                   ''account.signed_in'' (JObj [(''method'', JStr ''password'')])
                                   (JObj [(''providerIssuer'', JStr passwordProviderIssuer)]) c;
                            (c2, token) = start_session ax env (password_profile email i a) (a_id a) c1;
                            returnTo = safeAuthReturnPath ax env (Some (body_text rq ''return_to''))
                        in (c2, SignedIn (jsonOk [(''ok'', JBool True),
                              (''redirect'', JStr (case returnTo of None \<Rightarrow> ''/account'' | Some p \<Rightarrow> p))]) token)))))"

definition login_route :: "auth_ext \<Rightarrow> web_env \<Rightarrow> web_request \<Rightarrow> credentials \<Rightarrow> credentials \<times> auth_reply" where
  "login_route ax env rq = guarded_sign_in env rq ''auth:login'' 20 (15 * 60 * 1000)
     (\<lambda>c. let email = normalizeEmail (body_text rq ''email''); password = body_text rq ''password''
          in if email = [] \<or> password = [] then (c, fail ''invalid_request'' 400)
             else cr_limited (identityRateLimitResponse env email ''auth:login-email'' 20 (15 * 60 * 1000))
                    (log_in ax env rq email password) c)"

section \<open>Resetting and changing the password\<close>

text \<open>The account an address resolves to: by its password identity, else by a verified Google identity.\<close>

definition reset_account :: "string \<Rightarrow> credentials \<Rightarrow> uuid option" where
  "reset_account email c =
     (case findAccountByPasswordEmail email c of Some (i, a) \<Rightarrow> Some (a_id a) | None \<Rightarrow> findVerifiedGoogleAccountByEmail email c)"

definition request_reset :: "auth_ext \<Rightarrow> web_env \<Rightarrow> web_request \<Rightarrow> string \<Rightarrow> credentials \<Rightarrow> credentials \<times> auth_reply" where
  "request_reset ax env rq email c =
     (if \<not> we_hasDatabase env then (c, crash)
      else
        (let token = ''frpr_'' @ we_random env 0
         in (case reset_account email c of
               None \<Rightarrow> c
             | Some aid \<Rightarrow>
                 cr_audit rq aid [(''providerSubject'', JStr email)] ''account.password_reset_requested'' JNull JNull
                   (c\<lparr>cr_resets := cr_resets c @ [\<lparr>mt_accountId = aid, mt_expiresAt = we_now env + resetTokenMaxAgeMs,
                         mt_tokenHash = hashSecret (ax_core ax) token, mt_usedAt = None\<rparr>],
                      cr_mails := cr_mails c @ [(email, token)]\<rparr>),
             Plain (jsonOk [(''ok'', JBool True)]))))"

definition reset_request_route :: "auth_ext \<Rightarrow> web_env \<Rightarrow> web_request \<Rightarrow> credentials \<Rightarrow> credentials \<times> auth_reply" where
  "reset_request_route ax env rq = guarded_sign_in env rq ''auth:reset-request'' 10 (60 * 60 * 1000)
     (\<lambda>c. let email = normalizeEmail (body_text rq ''email'')
          in if email = [] then (c, fail ''invalid_request'' 400)
             else cr_limited (identityRateLimitResponse env email ''auth:reset-request-email'' 5 (60 * 60 * 1000))
                    (request_reset ax env rq email) c)"

text \<open>The statements after the claim are not one transaction: a failing insert leaves the new password behind.\<close>

definition confirm_reset :: "auth_ext \<Rightarrow> web_env \<Rightarrow> web_request \<Rightarrow> credentials \<Rightarrow> credentials \<times> auth_reply" where
  "confirm_reset ax env rq c =
     (let token = body_text rq ''token''; password = body_text rq ''password''
      in if token = [] \<or> password = [] then (c, fail ''invalid_request'' 400)
         else
           (case validatePasswordCandidate password of
              Some message \<Rightarrow> (c, Plain (jsonError ''weak_password'' 400 [(''message'', JStr message)]))
            | None \<Rightarrow>
                if \<not> we_hasDatabase env then (c, crash)
                else
                  (let (rows, claimed) = claim_mail_token (ax_core ax) token (we_now env) (cr_resets c);
                       c1 = c\<lparr>cr_resets := rows\<rparr>
                   in case claimed of
                        None \<Rightarrow> (c1, fail ''invalid_token'' 400)
                      | Some t \<Rightarrow>
                          if mt_expiresAt t \<le> we_now env then (c1, fail ''invalid_token'' 400)
                          else
                            (case hashPassword ax password (we_random env 1) of
                               None \<Rightarrow> (c1, crash)
                             | Some passwordHash \<Rightarrow>
                                 (let c2 = setAccountPassword (mt_accountId t) passwordHash c1
                                  in case ensurePasswordIdentityForAccount env (mt_accountId t) c2 of
                                       None \<Rightarrow> (c2, crash)
                                     | Some c3 \<Rightarrow>
                                         (cr_audit rq (mt_accountId t) [(''accountId'', JStr (mt_accountId t))] ''account.password_reset''
                                            JNull JNull
                                            (on_cr_db (revokeSessionsForAccount (mt_accountId t) (we_now env)) c3),
                                          Plain (jsonOk [(''ok'', JBool True)])))))))"

definition reset_confirm_route :: "auth_ext \<Rightarrow> web_env \<Rightarrow> web_request \<Rightarrow> credentials \<Rightarrow> credentials \<times> auth_reply" where
  "reset_confirm_route ax env rq = guarded_sign_in env rq ''auth:reset-confirm'' 10 (15 * 60 * 1000) (confirm_reset ax env rq)"

definition change_password :: "auth_ext \<Rightarrow> web_env \<Rightarrow> web_request \<Rightarrow> uuid \<Rightarrow> credentials \<Rightarrow> credentials \<times> auth_reply" where
  "change_password ax env rq aid c =
     (let currentPassword = body_text rq ''currentPassword''; newPassword = body_text rq ''newPassword''
      in if currentPassword = [] \<or> newPassword = [] then (c, fail ''invalid_request'' 400)
         else
           (case validatePasswordCandidate newPassword of
              Some message \<Rightarrow> (c, Plain (jsonError ''weak_password'' 400 [(''message'', JStr message)]))
            | None \<Rightarrow>
                if \<not> we_hasDatabase env then (c, crash)
                else
                  (case select_one (\<lambda>a. a_id a = aid) (accounts (cr_db c)) of
                     None \<Rightarrow> (c, fail ''unauthorized'' 401)
                   | Some a \<Rightarrow>
                       (case verifyPasswordWithDummyFallback ax currentPassword (a_passwordHash a) of
                          None \<Rightarrow> (c, crash)
                        | Some valid \<Rightarrow>
                            if (case a_passwordHash a of None \<Rightarrow> True | Some h \<Rightarrow> h = []) then (c, fail ''no_password'' 400)
                            else if \<not> valid then (c, fail ''invalid_password'' 400)
                            else
                              (case hashPassword ax newPassword (we_random env 1) of
                                 None \<Rightarrow> (c, crash)
                               | Some passwordHash \<Rightarrow>
                                   (cr_audit rq aid [(''accountId'', JStr aid)] ''account.password_changed'' JNull JNull
                                      (on_cr_db (revokeOtherSessions (ax_core ax) aid (rq_sessionCookie rq) (we_now env))
                                         (setAccountPassword aid passwordHash c)),
                                    Plain (jsonOk [(''ok'', JBool True)])))))))"

definition password_route :: "auth_ext \<Rightarrow> web_env \<Rightarrow> web_request \<Rightarrow> credentials \<Rightarrow> credentials \<times> auth_reply" where
  "password_route ax env rq c =
     (case csrfResponse env rq of
        Some r \<Rightarrow> (c, Plain r)
      | None \<Rightarrow>
          (case Option.bind (readSession (ax_core ax) env rq (cr_db c)) session_account of
             None \<Rightarrow> (c, fail ''unauthorized'' 401)
           | Some aid \<Rightarrow>
               cr_limited (rateLimitResponse env rq ''account:password-change'' 10 (15 * 60 * 1000))
                 (cr_limited (identityRateLimitResponse env aid ''account:password-change'' 10 (15 * 60 * 1000))
                    (change_password ax env rq aid)) c))"

section \<open>Signing in with Google\<close>

text \<open>\<open>encodeURIComponent\<close>, on the UTF-8 bytes of the text.\<close>

definition encodeURIComponent :: "string \<Rightarrow> string" where
  "encodeURIComponent s =
     concat (map (\<lambda>c. if is_alnum c \<or> c \<in> {CHR ''-'', CHR ''_'', CHR ''.'', CHR ''!'', CHR ''~'', CHR ''*'', CHR 0x27, CHR ''('', CHR '')''}
                      then [c] else percent_byte (code_unit c)) (utf8_encode s))"

text \<open>The cookies of the round trip.\<close>

record oauth_cookies =
  oc_state :: "string option"
  oc_nonce :: "string option"
  oc_verifier :: "string option"
  oc_returnTo :: "string option"

definition google_profile :: "string \<Rightarrow> google_claims \<Rightarrow> uuid \<Rightarrow> fields" where
  "google_profile issuer claims aid =
     [(''accountId'', JStr aid)]
     @ (case gc_email claims of None \<Rightarrow> [] | Some e \<Rightarrow> [(''email'', JStr e)])
     @ (case gc_email_verified claims of None \<Rightarrow> [] | Some v \<Rightarrow> [(''emailVerified'', JBool v)])
     @ (case gc_name claims of None \<Rightarrow> [] | Some n \<Rightarrow> [(''name'', JStr n)])
     @ [(''providerIssuer'', JStr issuer), (''providerSubject'', JStr (gc_sub claims))]"

definition google_audit :: "google_claims \<Rightarrow> json" where
  "google_audit claims =
     JObj ((case gc_email claims of None \<Rightarrow> [] | Some e \<Rightarrow> [(''email'', JStr e)])
       @ (case gc_email_verified claims of None \<Rightarrow> [] | Some v \<Rightarrow> [(''emailVerified'', JBool v)])
       @ [(''method'', JStr ''google'')])"

text \<open>The sign-in after the exchange.\<close>

definition google_sign_in ::
  "auth_ext \<Rightarrow> web_env \<Rightarrow> web_request \<Rightarrow> string option \<Rightarrow> string \<Rightarrow> google_claims \<Rightarrow> credentials \<Rightarrow> credentials \<times> auth_reply" where
  "google_sign_in ax env rq returnTo issuer claims c =
     (if \<not> we_hasDatabase env then (c, crash)
      else
        (case resolveGoogleSignIn env issuer claims c of
           None \<Rightarrow> (c, crash)
         | Some (c1, RequiresPasswordReset email) \<Rightarrow> (c1, Redirect ''/login?error=verify_before_google_link'')
         | Some (c1, GoogleEmailUnverified) \<Rightarrow> (c1, Redirect ''/login?error=google_email_unverified'')
         | Some (c1, GoogleOk aid created) \<Rightarrow>
             (let c2 = cr_audit rq aid [(''accountId'', JStr aid), (''providerSubject'', JStr (gc_sub claims))] ''account.signed_in''
                         (google_audit claims) (JObj [(''providerIssuer'', JStr issuer)]) c1;
                  (c3, token) = start_session ax env (google_profile issuer claims aid) aid c2
              in (c3, RedirectSignedIn (case returnTo of None \<Rightarrow> ''/account'' | Some p \<Rightarrow> p) token))))"

definition google_callback ::
  "auth_ext \<Rightarrow> web_env \<Rightarrow> oauth_cookies \<Rightarrow> web_request \<Rightarrow> credentials \<Rightarrow> credentials \<times> auth_reply" where
  "google_callback ax env cookies rq c =
     (let q = map_of (rq_query rq); given = (\<lambda>v. case v of Some s \<Rightarrow> s \<noteq> [] | None \<Rightarrow> False)
      in if given (q ''error'') then (c, Redirect (''/login?error='' @ encodeURIComponent (the (q ''error''))))
         else if \<not> (given (q ''code'') \<and> given (oc_state cookies) \<and> given (oc_nonce cookies) \<and> given (oc_verifier cookies)
                   \<and> q ''state'' = oc_state cookies)
         then (c, Redirect ''/login?error=invalid_state'')
         else
           (case ax_google ax of
              None \<Rightarrow> (c, Redirect ''/login?error=google_unavailable'')
            | Some issuer \<Rightarrow>
                (case ax_exchange ax (the (q ''code'')) (the (oc_verifier cookies)) (the (oc_nonce cookies)) of
                   None \<Rightarrow> (c, Redirect ''/login?error=provider_unavailable'')
                 | Some claims \<Rightarrow> google_sign_in ax env rq (safeAuthReturnPath ax env (oc_returnTo cookies)) issuer claims c)))"

section \<open>Signing out\<close>

definition end_session :: "auth_ext \<Rightarrow> web_env \<Rightarrow> web_request \<Rightarrow> credentials \<Rightarrow> credentials" where
  "end_session ax env rq c =
     (case rq_sessionCookie rq of
        None \<Rightarrow> c
      | Some token \<Rightarrow>
          if token = [] \<or> \<not> we_hasDatabase env then c
          else on_cr_db (revokeSessionByToken (ax_core ax) token (we_now env)) c)"

definition postLogoutUrl :: string where "postLogoutUrl = ''/login?status=signed_out''"

definition logout_route :: "auth_ext \<Rightarrow> web_env \<Rightarrow> web_request \<Rightarrow> credentials \<Rightarrow> credentials \<times> auth_reply" where
  "logout_route ax env rq c =
     (case csrfResponse env rq of
        Some r \<Rightarrow> (c, Plain r)
      | None \<Rightarrow> (end_session ax env rq c, Redirect postLogoutUrl))"

definition loopbackHosts :: "string list" where
  "loopbackHosts = [''localhost'', ''127.0.0.1'', ''::1'', ''[::1]'']"

definition returnToAllowed :: "ext \<Rightarrow> string \<Rightarrow> uuid \<Rightarrow> db \<Rightarrow> bool" where
  "returnToAllowed x returnTo accountId d \<longleftrightarrow>
     (case parse_url x returnTo of
        None \<Rightarrow> False
      | Some target \<Rightarrow>
          u_protocol target \<in> {''http:'', ''https:''}
          \<and> (u_hostname target \<in> set loopbackHosts
             \<or> list_ex (\<lambda>l. l_accountId l = accountId \<and> l_revokedAt l = None
                   \<and> (case l_localOrigin l of
                        None \<Rightarrow> False
                      | Some localOrigin \<Rightarrow>
                          localOrigin \<noteq> []
                          \<and> (case parse_url x localOrigin of None \<Rightarrow> False | Some u \<Rightarrow> u_origin u = u_origin target)))
                 (linkedClients d)))"

text \<open>The top-level sign-out of linked installations.\<close>

definition site_logout_route :: "auth_ext \<Rightarrow> web_env \<Rightarrow> web_request \<Rightarrow> credentials \<Rightarrow> credentials \<times> auth_reply" where
  "site_logout_route ax env rq =
     cr_limited (rateLimitResponse env rq ''auth:logout'' 60 (15 * 60 * 1000))
       (\<lambda>c. let account = Option.bind (readSession (ax_core ax) env rq (cr_db c)) session_account;
                target = (case (map_of (rq_query rq) ''return_to'', account) of
                   (Some returnTo, Some aid) \<Rightarrow>
                     if returnTo \<noteq> [] \<and> we_hasDatabase env \<and> returnToAllowed (ax_core ax) returnTo aid (cr_db c)
                     then returnTo else postLogoutUrl
                 | _ \<Rightarrow> postLogoutUrl)
            in (end_session ax env rq c, Redirect target))"

end
