(* ===== verification/AccountSteps.thy ===== *)
theory AccountSteps imports SignIn begin

text \<open>
  The sign-in routes as a service, and the steps its requests may take on the credential tables: which statements
  a route runs, and what its guards have established when it runs them.
\<close>

section \<open>The service\<close>

datatype auth_verb =
    SignUp | LogIn | RequestReset | ConfirmReset | VerifyEmail | ChangePassword | GoogleCallback oauth_cookies | LogOut | SiteLogOut

record auth_request =
  ar_verb :: auth_verb
  ar_http :: web_request
  ar_env :: web_env

definition auth_service :: "auth_ext \<Rightarrow> auth_request \<Rightarrow> credentials \<Rightarrow> credentials \<times> auth_reply" where
  "auth_service ax r c =
     (let env = ar_env r; rq = ar_http r
      in case ar_verb r of
           SignUp \<Rightarrow> signup_route ax env rq c
         | LogIn \<Rightarrow> login_route ax env rq c
         | RequestReset \<Rightarrow> reset_request_route ax env rq c
         | ConfirmReset \<Rightarrow> reset_confirm_route ax env rq c
         | VerifyEmail \<Rightarrow> (let (c', ok) = verify_email_page ax env rq c in (c', VerifyPage ok))
         | ChangePassword \<Rightarrow> password_route ax env rq c
         | GoogleCallback cookies \<Rightarrow> google_callback ax env cookies rq c
         | LogOut \<Rightarrow> logout_route ax env rq c
         | SiteLogOut \<Rightarrow> site_logout_route ax env rq c)"

fun serve_auth :: "auth_ext \<Rightarrow> auth_request list \<Rightarrow> credentials \<Rightarrow> credentials" where
  "serve_auth ax [] c = c"
| "serve_auth ax (r # rs) c = serve_auth ax rs (fst (auth_service ax r c))"

fun each_auth_request :: "auth_ext \<Rightarrow> (auth_request \<Rightarrow> credentials \<Rightarrow> bool) \<Rightarrow> auth_request list \<Rightarrow> credentials \<Rightarrow> bool" where
  "each_auth_request ax P [] c = True"
| "each_auth_request ax P (r # rs) c = (P r c \<and> each_auth_request ax P rs (fst (auth_service ax r c)))"

text \<open>The token a request redeems, and the account whose password it proves to know.\<close>

definition presented_token :: "auth_request \<Rightarrow> string option" where
  "presented_token r =
     (case ar_verb r of
        ConfirmReset \<Rightarrow> Some (body_text (ar_http r) ''token'')
      | VerifyEmail \<Rightarrow> map_option js_trim (map_of (rq_query (ar_http r)) ''token'')
      | _ \<Rightarrow> None)"

definition signed_in_as :: "auth_ext \<Rightarrow> auth_request \<Rightarrow> credentials \<Rightarrow> uuid \<Rightarrow> bool" where
  "signed_in_as ax r c aid \<longleftrightarrow> Option.bind (readSession (ax_core ax) (ar_env r) (ar_http r) (cr_db c)) session_account = Some aid"

definition knows_password :: "auth_ext \<Rightarrow> auth_request \<Rightarrow> credentials \<Rightarrow> uuid \<Rightarrow> bool" where
  "knows_password ax r c aid \<longleftrightarrow>
     signed_in_as ax r c aid
     \<and> (\<exists>a h. a \<in> set (accounts (cr_db c)) \<and> a_id a = aid \<and> a_passwordHash a = Some h
           \<and> verifyPassword ax (body_text (ar_http r) ''currentPassword'') h = Some True)"

section \<open>Tables\<close>

definition cred_tables :: "credentials \<Rightarrow> account list \<times> identity list \<times> mail_token list \<times> mail_token list \<times> (string \<times> string) list" where
  "cred_tables c = (accounts (cr_db c), cr_identities c, cr_resets c, cr_verifications c, cr_mails c)"

lemma cred_tables_eq:
  "cred_tables c = cred_tables c' \<longleftrightarrow>
     accounts (cr_db c) = accounts (cr_db c') \<and> cr_identities c = cr_identities c' \<and> cr_resets c = cr_resets c'
     \<and> cr_verifications c = cr_verifications c' \<and> cr_mails c = cr_mails c'"
  by (simp add: cred_tables_def)

text \<open>Worlds that differ in the limiter alone.\<close>

definition same_credentials :: "credentials \<Rightarrow> credentials \<Rightarrow> bool" where
  "same_credentials c c' \<longleftrightarrow> cr_db c = cr_db c' \<and> cred_tables c = cred_tables c'"

lemma same_credentials_refl [simp]: "same_credentials c c"
  by (simp add: same_credentials_def)

lemma on_cr_db_simps [simp]:
  "cr_db (on_cr_db f c) = f (cr_db c)" "cr_identities (on_cr_db f c) = cr_identities c" "cr_resets (on_cr_db f c) = cr_resets c"
  "cr_verifications (on_cr_db f c) = cr_verifications c" "cr_mails (on_cr_db f c) = cr_mails c"
  by (simp_all add: on_cr_db_def cr_db_def on_w_db_def)

lemma cr_db_updates [simp]:
  "cr_db (c\<lparr>cr_identities := i\<rparr>) = cr_db c" "cr_db (c\<lparr>cr_resets := t\<rparr>) = cr_db c"
  "cr_db (c\<lparr>cr_verifications := t\<rparr>) = cr_db c" "cr_db (c\<lparr>cr_mails := m\<rparr>) = cr_db c"
  by (simp_all add: cr_db_def)

lemma cr_audit_tables [simp]:
  "cred_tables (cr_audit rq aid actor ev md tg c) = cred_tables c" "sessions (cr_db (cr_audit rq aid actor ev md tg c)) = sessions (cr_db c)"
  by (simp_all add: cr_audit_def cred_tables_def)

lemma session_tables [simp]:
  "cred_tables (on_cr_db (createSession x sid token aid now) c) = cred_tables c"
  "cred_tables (on_cr_db (revokeSessionsForAccount aid now) c) = cred_tables c"
  "cred_tables (on_cr_db (revokeSessionByToken x token now) c) = cred_tables c"
  "cred_tables (on_cr_db (revokeOtherSessions x aid tok now) c) = cred_tables c"
  by (simp_all add: cred_tables_def createSession_def revokeSessionsForAccount_def revokeSessionByToken_def revokeOtherSessions_def)

lemma cr_limited_cases:
  assumes "\<And>w. w_db (fst (limit w)) = w_db w"
  obtains (refused) r where "cr_limited limit body c = (c\<lparr>cr_world := fst (limit (cr_world c))\<rparr>, Plain r)"
      "same_credentials c (c\<lparr>cr_world := fst (limit (cr_world c))\<rparr>)"
  | (run) c0 where "same_credentials c c0" "cr_limited limit body c = body c0"
proof -
  obtain w r where l: "limit (cr_world c) = (w, r)" by force
  then have "w_db w = w_db (cr_world c)" using assms [of "cr_world c"] by simp
  then have "same_credentials c (c\<lparr>cr_world := w\<rparr>)" by (simp add: same_credentials_def cr_db_def cred_tables_def)
  then show thesis using refused run l by (cases r) (auto simp: cr_limited_def)
qed

lemma rate_limit_keeps [simp]: "w_db (fst (rateLimitResponse env rq action limit win w)) = w_db w"
  by (simp add: rateLimitResponse_def)

lemma identity_limit_keeps [simp]: "w_db (fst (identityRateLimitResponse env i action limit win w)) = w_db w"
  by (simp add: identityRateLimitResponse_def)

lemma guarded_cases:
  obtains (refused) c0 r where "guarded_sign_in env rq action limit win body c = (c0, Plain r)" "same_credentials c c0"
  | (run) c0 where "same_credentials c c0" "guarded_sign_in env rq action limit win body c = body c0"
proof (cases "csrfResponse env rq")
  case (Some r)
  then show thesis using refused [of c r] by (simp add: guarded_sign_in_def)
next
  case None
  have l: "w_db (fst (rateLimitResponse env rq action limit win w)) = w_db w" for w by simp
  show thesis
    by (cases rule: cr_limited_cases [OF l, of body c, case_names refused run])
      (use None refused run in \<open>auto simp: guarded_sign_in_def\<close>)
qed

section \<open>Steps\<close>

abbreviation ar_email :: "auth_request \<Rightarrow> string" where
  "ar_email r \<equiv> normalizeEmail (body_text (ar_http r) ''email'')"

definition mail_row :: "auth_ext \<Rightarrow> uuid \<Rightarrow> time \<Rightarrow> string \<Rightarrow> mail_token" where
  "mail_row ax aid expires token =
     \<lparr>mt_accountId = aid, mt_expiresAt = expires, mt_tokenHash = hashSecret (ax_core ax) token, mt_usedAt = None\<rparr>"

inductive cred_step :: "auth_ext \<Rightarrow> auth_request \<Rightarrow> credentials \<Rightarrow> credentials \<Rightarrow> bool" for ax r c where
  idle: "cred_tables c' = cred_tables c \<Longrightarrow> cred_step ax r c c'"
| enrolled: "ar_verb r = SignUp \<Longrightarrow> findAccountByPasswordEmail (ar_email r) c = None \<Longrightarrow>
    findVerifiedGoogleAccountByEmail (ar_email r) c = None \<Longrightarrow>
    createPasswordAccount (ar_env r) name (ar_email r) h c = Some (c1, aid) \<Longrightarrow>
    cred_tables c' = cred_tables (beginEmailVerification ax (ar_env r) aid (ar_email r) c1) \<Longrightarrow> cred_step ax r c c'"
| resent: "ar_verb r = LogIn \<Longrightarrow> findAccountByPasswordEmail (ar_email r) c = Some (i, a) \<Longrightarrow>
    cred_tables c' = cred_tables (beginEmailVerification ax (ar_env r) (a_id a) (ar_email r) c) \<Longrightarrow> cred_step ax r c c'"
| reset_asked: "ar_verb r = RequestReset \<Longrightarrow> reset_account (ar_email r) c = Some aid \<Longrightarrow>
    cred_tables c' = cred_tables (c\<lparr>cr_resets := cr_resets c @ [mail_row ax aid expires token], cr_mails := cr_mails c @ [(ar_email r, token)]\<rparr>) \<Longrightarrow>
    cred_step ax r c c'"
| reset_claimed: "ar_verb r = ConfirmReset \<Longrightarrow> claim_mail_token (ax_core ax) token (we_now (ar_env r)) (cr_resets c) = (rows, claimed) \<Longrightarrow>
    cred_tables c' = cred_tables (c\<lparr>cr_resets := rows\<rparr>) \<Longrightarrow> cred_step ax r c c'"
| reset_done: "ar_verb r = ConfirmReset \<Longrightarrow> presented_token r = Some token \<Longrightarrow>
    claim_mail_token (ax_core ax) token (we_now (ar_env r)) (cr_resets c) = (rows, Some t) \<Longrightarrow> we_now (ar_env r) < mt_expiresAt t \<Longrightarrow>
    hashPassword ax (body_text (ar_http r) ''password'') (we_random (ar_env r) 1) = Some h \<Longrightarrow>
    cred_tables c' = cred_tables (setAccountPassword (mt_accountId t) h (c\<lparr>cr_resets := rows\<rparr>))
    \<or> (\<exists>c3. ensurePasswordIdentityForAccount (ar_env r) (mt_accountId t) (setAccountPassword (mt_accountId t) h (c\<lparr>cr_resets := rows\<rparr>)) = Some c3
         \<and> cred_tables c' = cred_tables c3) \<Longrightarrow> cred_step ax r c c'"
| verify_claimed: "ar_verb r = VerifyEmail \<Longrightarrow> claim_mail_token (ax_core ax) token (we_now (ar_env r)) (cr_verifications c) = (rows, claimed) \<Longrightarrow>
    cred_tables c' = cred_tables (c\<lparr>cr_verifications := rows\<rparr>) \<Longrightarrow> cred_step ax r c c'"
| verified: "ar_verb r = VerifyEmail \<Longrightarrow> presented_token r = Some token \<Longrightarrow>
    claim_mail_token (ax_core ax) token (we_now (ar_env r)) (cr_verifications c) = (rows, Some t) \<Longrightarrow>
    cred_tables c' = cred_tables (markPasswordIdentityVerified (mt_accountId t) (c\<lparr>cr_verifications := rows\<rparr>)) \<Longrightarrow> cred_step ax r c c'"
| changed: "ar_verb r = ChangePassword \<Longrightarrow> knows_password ax r c aid \<Longrightarrow>
    cred_tables c' = cred_tables (setAccountPassword aid h c) \<Longrightarrow> cred_step ax r c c'"
| google_entered: "ax_google ax = Some issuer \<Longrightarrow> upsertAccountFromIdentity (ar_env r) issuer claims c = Some (c1, aid, created) \<Longrightarrow>
    cred_tables c' = cred_tables c1 \<Longrightarrow> cred_step ax r c c'"
| google_linked: "ax_google ax = Some issuer \<Longrightarrow> findIdentity issuer (gc_sub (claims :: google_claims)) c = None \<Longrightarrow> gc_email_verified claims = Some True \<Longrightarrow>
    findAccountByPasswordEmail email c = Some (i, a) \<Longrightarrow> id_emailVerified i \<Longrightarrow>
    linkIdentityToAccount (ar_env r) (a_id a) (Some email) issuer (gc_sub claims) c = Some c1 \<Longrightarrow>
    cred_tables c' = cred_tables c1 \<Longrightarrow> cred_step ax r c c'"

text \<open>What a request does, up to the limiter: a step.\<close>

definition cred_effect :: "auth_ext \<Rightarrow> auth_request \<Rightarrow> credentials \<Rightarrow> credentials \<Rightarrow> bool" where
  "cred_effect ax r c c' \<longleftrightarrow> (\<exists>c0. same_credentials c c0 \<and> cred_step ax r c0 c')"

lemma effect_of_step: "same_credentials c c0 \<Longrightarrow> cred_step ax r c0 c' \<Longrightarrow> cred_effect ax r c c'"
  by (auto simp: cred_effect_def)

lemma effect_of_same: "same_credentials c c' \<Longrightarrow> cred_effect ax r c c'"
  by (auto simp: cred_effect_def same_credentials_def intro: cred_step.idle)

lemma effect_after: "same_credentials c c0 \<Longrightarrow> cred_effect ax r c0 c' \<Longrightarrow> cred_effect ax r c c'"
  by (auto simp: cred_effect_def same_credentials_def)

lemma same_credentials_sym: "same_credentials c c' \<Longrightarrow> same_credentials c' c"
  by (simp add: same_credentials_def)

lemma begin_tables:
  "cred_tables c = cred_tables c' \<Longrightarrow>
   cred_tables (beginEmailVerification ax env aid email c) = cred_tables (beginEmailVerification ax env aid email c')"
  by (simp add: beginEmailVerification_def cred_tables_eq Let_def)

lemma create_user_step:
  assumes "ar_verb r = SignUp" shows "cred_step ax r c (fst (create_user ax (ar_env r) (ar_http r) (ar_email r) password c))"
proof (cases "findAccountByPasswordEmail (ar_email r) c = None \<and> findVerifiedGoogleAccountByEmail (ar_email r) c = None")
  case True
  show ?thesis
  proof (cases "hashPassword ax password (we_random (ar_env r) 1)")
    case None
    then show ?thesis using True by (simp add: create_user_def cred_step.idle)
  next
    case h: (Some h)
    show ?thesis
    proof (cases "createPasswordAccount (ar_env r) (signup_name (ar_http r)) (ar_email r) h c")
      case None
      then show ?thesis using True h by (simp add: create_user_def cred_step.idle)
    next
      case (Some p)
      obtain c1 aid where p: "p = (c1, aid)" by force
      show ?thesis
        by (rule cred_step.enrolled [OF assms conjunct1 [OF True] conjunct2 [OF True] Some [unfolded p]])
          (use True h Some p in \<open>simp add: create_user_def begin_tables [OF cr_audit_tables(1)]\<close>)
    qed
  qed
qed (auto simp: create_user_def intro: cred_step.idle)

lemma sign_up_step:
  assumes "ar_verb r = SignUp" shows "cred_step ax r c (fst (sign_up ax (ar_env r) (ar_http r) c))"
  using create_user_step [OF assms, of ax c "body_text (ar_http r) ''password''"] cred_step.idle [OF refl, of ax r c]
  by (simp add: sign_up_def Let_def split: option.split)

lemma log_in_step:
  assumes "ar_verb r = LogIn"
  shows "cred_effect ax r c (fst (log_in ax (ar_env r) (ar_http r) (ar_email r) password c))"
proof -
  let ?c' = "fst (log_in ax (ar_env r) (ar_http r) (ar_email r) password c)"
  show ?thesis
  proof (cases "cred_tables ?c' = cred_tables c")
    case True
    then show ?thesis by (auto intro: effect_of_step [of c c] cred_step.idle)
  next
    case False
    then obtain i a where f: "findAccountByPasswordEmail (ar_email r) c = Some (i, a)"
        and c': "?c' = resend_verification ax (ar_env r) (a_id a) (ar_email r) c"
      by (auto simp: log_in_def Let_def start_session_def split: if_splits option.splits prod.splits)
    obtain w l where l: "limit_key (ar_env r) (resend_key (a_id a)) 3 (60 * 60 * 1000) (cr_world c) = (w, l)" by force
    then have "w_db w = w_db (cr_world c)" by (metis fst_conv limit_key_db)
    then have "cred_tables ?c' = cred_tables (beginEmailVerification ax (ar_env r) (a_id a) (ar_email r) c)"
      using False l by (auto simp: c' resend_verification_def beginEmailVerification_def cred_tables_eq cr_db_def Let_def split: option.splits)
    then show ?thesis by (auto intro: effect_of_step [of c c] cred_step.resent [OF assms f])
  qed
qed

lemma request_reset_step:
  assumes "ar_verb r = RequestReset" shows "cred_step ax r c (fst (request_reset ax (ar_env r) (ar_http r) (ar_email r) c))"
proof (cases "reset_account (ar_email r) c")
  case None
  then show ?thesis by (auto simp: request_reset_def Let_def intro: cred_step.idle)
next
  case (Some aid)
  show ?thesis
  proof (cases "we_hasDatabase (ar_env r)")
    case True
    then show ?thesis using Some
      by (intro cred_step.reset_asked [OF assms Some, where expires = "we_now (ar_env r) + resetTokenMaxAgeMs" and token = "''frpr_'' @ we_random (ar_env r) 0"])
        (simp add: request_reset_def Let_def mail_row_def)
  qed (simp add: request_reset_def cred_step.idle)
qed

lemma confirm_reset_step:
  assumes v: "ar_verb r = ConfirmReset" shows "cred_step ax r c (fst (confirm_reset ax (ar_env r) (ar_http r) c))"
proof -
  let ?token = "body_text (ar_http r) ''token''" and ?c' = "fst (confirm_reset ax (ar_env r) (ar_http r) c)"
  obtain rows claimed where m: "claim_mail_token (ax_core ax) ?token (we_now (ar_env r)) (cr_resets c) = (rows, claimed)" by force
  have p: "presented_token r = Some ?token" using v by (simp add: presented_token_def)
  show ?thesis
  proof (cases "cred_tables ?c' = cred_tables c \<or> cred_tables ?c' = cred_tables (c\<lparr>cr_resets := rows\<rparr>)")
    case True
    then show ?thesis using cred_step.idle cred_step.reset_claimed [OF v m] by blast
  next
    case False
    then obtain t h where t: "claimed = Some t" "\<not> mt_expiresAt t \<le> we_now (ar_env r)"
        "hashPassword ax (body_text (ar_http r) ''password'') (we_random (ar_env r) 1) = Some h"
      using m by (auto simp: confirm_reset_def Let_def split: if_splits option.splits)
    let ?c2 = "setAccountPassword (mt_accountId t) h (c\<lparr>cr_resets := rows\<rparr>)"
    have "cred_tables ?c' = cred_tables ?c2 \<or> (\<exists>c3. ensurePasswordIdentityForAccount (ar_env r) (mt_accountId t) ?c2 = Some c3 \<and> cred_tables ?c' = cred_tables c3)"
      using False t m by (auto simp: confirm_reset_def Let_def split: if_splits option.splits)
    then show ?thesis using cred_step.reset_done [OF v p m [unfolded t(1)] _ t(3)] t(2) by simp
  qed
qed

lemma verify_step:
  assumes v: "ar_verb r = VerifyEmail" shows "cred_step ax r c (fst (verify_email_page ax (ar_env r) (ar_http r) c))"
proof (cases "\<exists>raw. map_of (rq_query (ar_http r)) ''token'' = Some raw \<and> js_trim raw \<noteq> [] \<and> we_hasDatabase (ar_env r)")
  case False
  then show ?thesis by (auto simp: verify_email_page_def intro!: cred_step.idle split: option.split)
next
  case True
  then obtain raw where raw: "map_of (rq_query (ar_http r)) ''token'' = Some raw" "js_trim raw \<noteq> []" "we_hasDatabase (ar_env r)" by blast
  obtain rows claimed where m: "claim_mail_token (ax_core ax) (js_trim raw) (we_now (ar_env r)) (cr_verifications c) = (rows, claimed)" by force
  have p: "presented_token r = Some (js_trim raw)" using v raw by (simp add: presented_token_def)
  show ?thesis
  proof (cases claimed)
    case None
    then show ?thesis using raw m by (auto simp: verify_email_page_def confirmEmailVerification_def Let_def intro!: cred_step.verify_claimed [OF v m])
  next
    case (Some t)
    then show ?thesis using raw m cred_step.verify_claimed [OF v m] cred_step.verified [OF v p m [unfolded Some]]
      by (auto simp: verify_email_page_def confirmEmailVerification_def Let_def)
  qed
qed

lemma change_step:
  assumes v: "ar_verb r = ChangePassword" and s: "signed_in_as ax r c aid"
  shows "cred_step ax r c (fst (change_password ax (ar_env r) (ar_http r) aid c))"
proof (cases "cred_tables (fst (change_password ax (ar_env r) (ar_http r) aid c)) = cred_tables c")
  case False
  then obtain a h h' where a: "select_one (\<lambda>a. a_id a = aid) (accounts (cr_db c)) = Some a" "a_passwordHash a = Some h"
      "verifyPassword ax (body_text (ar_http r) ''currentPassword'') h = Some True"
      "cred_tables (fst (change_password ax (ar_env r) (ar_http r) aid c)) = cred_tables (setAccountPassword aid h' c)"
    by (auto simp: change_password_def verifyPasswordWithDummyFallback_def Let_def split: if_splits option.splits)
  have "knows_password ax r c aid" using select_one_Some [OF a(1)] a(2,3) s by (auto simp: knows_password_def)
  then show ?thesis by (rule cred_step.changed [OF v _ a(4)])
qed (simp add: cred_step.idle)

lemma google_step:
  assumes "ax_google ax = Some issuer"
  shows "cred_step ax r c (fst (google_sign_in ax (ar_env r) (ar_http r) returnTo issuer claims c))"
proof (cases "cred_tables (fst (google_sign_in ax (ar_env r) (ar_http r) returnTo issuer claims c)) = cred_tables c")
  case False
  then obtain c1 res where res: "resolveGoogleSignIn (ar_env r) issuer claims c = Some (c1, res)"
      and t: "cred_tables (fst (google_sign_in ax (ar_env r) (ar_http r) returnTo issuer claims c)) = cred_tables c1"
    by (auto simp: google_sign_in_def start_session_def Let_def split: if_splits option.splits prod.splits google_resolution.splits)
  from res consider (upsert) aid created where "upsertAccountFromIdentity (ar_env r) issuer claims c = Some (c1, aid, created)"
    | (linked) email i a where "findIdentity issuer (gc_sub claims) c = None" "gc_email_verified claims = Some True"
        "findAccountByPasswordEmail email c = Some (i, a)" "id_emailVerified i"
        "linkIdentityToAccount (ar_env r) (a_id a) (Some email) issuer (gc_sub claims) c = Some c1"
    | (none) "c1 = c"
    by (auto simp: resolveGoogleSignIn_def Let_def split: if_splits option.splits prod.splits)
  then show ?thesis
  proof cases
    case upsert
    then show ?thesis by (rule cred_step.google_entered [OF assms _ t])
  next
    case linked
    then show ?thesis by (intro cred_step.google_linked [OF assms _ _ _ _ _ t])
  next
    case none
    then show ?thesis using t False by simp
  qed
qed (simp add: cred_step.idle)


text \<open>Through the guards.\<close>

lemma guarded_effect:
  assumes "\<And>c0. same_credentials c c0 \<Longrightarrow> cred_effect ax r c0 (fst (body c0))"
  shows "cred_effect ax r c (fst (guarded_sign_in env rq action limit win body c))"
  by (cases rule: guarded_cases [of env rq action limit win body c])
    (use assms effect_after effect_of_same in auto)

lemma limited_effect:
  assumes "\<And>w. w_db (fst (limit w)) = w_db w" and "\<And>c0. same_credentials c c0 \<Longrightarrow> cred_effect ax r c0 (fst (body c0))"
  shows "cred_effect ax r c (fst (cr_limited limit body c))"
  by (cases rule: cr_limited_cases [OF assms(1), of body c, case_names refused run])
    (use assms(2) effect_after effect_of_same in auto)

lemma step_effect: "cred_step ax r c c' \<Longrightarrow> cred_effect ax r c c'"
  by (rule effect_of_step [OF same_credentials_refl])

lemma same_effect: "cred_effect ax r c c"
  by (rule effect_of_same) simp

lemma signed_in_same: "same_credentials c c0 \<Longrightarrow> signed_in_as ax r c0 aid = signed_in_as ax r c aid"
  by (simp add: signed_in_as_def same_credentials_def)

lemma password_effect:
  assumes "ar_verb r = ChangePassword" shows "cred_effect ax r c (fst (password_route ax (ar_env r) (ar_http r) c))"
proof (cases "csrfResponse (ar_env r) (ar_http r)")
  case None
  show ?thesis
  proof (cases "Option.bind (readSession (ax_core ax) (ar_env r) (ar_http r) (cr_db c)) session_account")
    case n: None
    then show ?thesis using None same_effect by (simp add: password_route_def)
  next
    case (Some aid)
    then have s: "signed_in_as ax r c aid" by (simp add: signed_in_as_def)
    have "cred_effect ax r c (fst (cr_limited (rateLimitResponse (ar_env r) (ar_http r) ''account:password-change'' 10 (15 * 60 * 1000))
        (cr_limited (identityRateLimitResponse (ar_env r) aid ''account:password-change'' 10 (15 * 60 * 1000))
          (change_password ax (ar_env r) (ar_http r) aid)) c))"
      using s by (intro limited_effect step_effect change_step [OF assms]) (auto simp: signed_in_same)
    then show ?thesis using None Some by (simp add: password_route_def)
  qed
qed (simp add: password_route_def same_effect)

lemma google_effect:
  "cred_effect ax r c (fst (google_callback ax (ar_env r) cookies (ar_http r) c))"
  by (auto simp: google_callback_def Let_def same_effect step_effect google_step split: option.split)

lemma end_session_effect: "cred_effect ax r c (end_session ax (ar_env r) (ar_http r) c)"
  by (rule step_effect, rule cred_step.idle) (simp add: end_session_def split: option.split)

lemma auth_service_effect: "cred_effect ax r c (fst (auth_service ax r c))"
proof (cases "ar_verb r")
  case SignUp
  then show ?thesis by (simp add: auth_service_def Let_def signup_route_def guarded_effect step_effect sign_up_step)
next
  case LogIn
  have "cred_effect ax r c (fst (login_route ax (ar_env r) (ar_http r) c))"
    unfolding login_route_def
  proof (rule guarded_effect, goal_cases)
    case (1 c0)
    have "cred_effect ax r c0 (fst (cr_limited (identityRateLimitResponse (ar_env r) (ar_email r) ''auth:login-email'' 20 (15 * 60 * 1000))
        (log_in ax (ar_env r) (ar_http r) (ar_email r) (body_text (ar_http r) ''password'')) c0))"
      by (rule limited_effect) (simp_all add: log_in_step LogIn)
    then show ?case by (simp add: Let_def same_effect)
  qed
  then show ?thesis by (simp add: auth_service_def Let_def LogIn)
next
  case RequestReset
  have "cred_effect ax r c (fst (reset_request_route ax (ar_env r) (ar_http r) c))"
    unfolding reset_request_route_def
  proof (rule guarded_effect, goal_cases)
    case (1 c0)
    have "cred_effect ax r c0 (fst (cr_limited (identityRateLimitResponse (ar_env r) (ar_email r) ''auth:reset-request-email'' 5 (60 * 60 * 1000))
        (request_reset ax (ar_env r) (ar_http r) (ar_email r)) c0))"
      by (rule limited_effect) (simp_all add: step_effect request_reset_step RequestReset)
    then show ?case by (simp add: Let_def same_effect)
  qed
  then show ?thesis by (simp add: auth_service_def Let_def RequestReset)
next
  case ConfirmReset
  then show ?thesis by (simp add: auth_service_def Let_def reset_confirm_route_def guarded_effect step_effect confirm_reset_step)
next
  case VerifyEmail
  then show ?thesis using step_effect [OF verify_step [OF VerifyEmail]] by (simp add: auth_service_def Let_def prod.case_eq_if)
next
  case ChangePassword
  then show ?thesis by (simp add: auth_service_def Let_def password_effect)
next
  case (GoogleCallback cookies)
  then show ?thesis by (simp add: auth_service_def Let_def google_effect)
next
  case LogOut
  then show ?thesis by (simp add: auth_service_def Let_def logout_route_def end_session_effect same_effect split: option.split)
next
  case SiteLogOut
  have "cred_effect ax r c (fst (site_logout_route ax (ar_env r) (ar_http r) c))"
    unfolding site_logout_route_def by (rule limited_effect) (simp_all add: end_session_effect Let_def)
  then show ?thesis by (simp add: auth_service_def Let_def SiteLogOut)
qed

end
