(* ===== verification/AccountLaws.thy ===== *)
theory AccountLaws imports AccountSteps begin

text \<open>
  The invariant of the identity tables, and that every step of the sign-in code keeps it: unique keys, one password
  identity and one address per account, and tokens that were mailed to the address of their account.
\<close>

section \<open>Addresses\<close>

lemma lower_idem: "js_lower (js_lower s) = js_lower s"
proof -
  have "js_lower_char (js_lower_char c) = js_lower_char c" for c
    by (auto simp: js_lower_char_def code_unit_def Let_def)
  then show ?thesis by (simp add: js_lower_def comp_def)
qed

lemma normalize_idem: "normalizeEmail (normalizeEmail e) = normalizeEmail e"
proof -
  have unit: "js_ws c \<longleftrightarrow> code_unit c \<in> {9, 10, 11, 12, 13, 32, 160}" for c
    unfolding js_ws_def code_unit_def insert_iff of_char_eq_iff [where 'a = int, symmetric] by simp
  have ws: "js_ws (js_lower_char c) = js_ws c" for c
    unfolding unit by (auto simp: js_lower_char_def code_unit_def Let_def)
  have d: "dropWhile js_ws (map js_lower_char s) = map js_lower_char (dropWhile js_ws s)" for s
    by (induction s) (simp_all add: ws)
  have "js_trim (js_lower s) = js_lower (js_trim s)" for s
    by (simp add: js_trim_def js_lower_def d rev_map)
  then show ?thesis by (simp add: normalizeEmail_def lower_idem)
qed

definition of_password :: "identity \<Rightarrow> bool" where
  "of_password i \<longleftrightarrow> id_providerIssuer i = passwordProviderIssuer"

text \<open>A Google identity whose address Google vouched for.\<close>

definition vouched :: "identity \<Rightarrow> string \<Rightarrow> bool" where
  "vouched i e \<longleftrightarrow> id_providerKey i = googleProviderKey \<and> id_emailVerified i \<and> \<not> of_password i
     \<and> (\<exists>s. id_emailSnapshot i = Some s \<and> normalizeEmail s = e)"

text \<open>The address of an account: the subject of its password identity, or what Google vouched for.\<close>

definition address :: "identity list \<Rightarrow> uuid \<Rightarrow> string \<Rightarrow> bool" where
  "address ids aid e \<longleftrightarrow> (\<exists>i\<in>set ids. id_accountId i = aid \<and> (of_password i \<and> id_providerSubject i = e \<or> vouched i e))"

definition identities_ok :: "account list \<Rightarrow> identity list \<Rightarrow> bool" where
  "identities_ok accs ids \<longleftrightarrow>
     keyed a_id accs \<and> keyed id_id ids \<and> keyed (\<lambda>i. (id_providerIssuer i, id_providerSubject i)) ids
     \<and> id_accountId ` set ids \<subseteq> a_id ` set accs
     \<and> (\<forall>i\<in>set ids. of_password i \<longrightarrow> id_providerKey i \<noteq> googleProviderKey)
     \<and> (\<forall>i\<in>set ids. \<not> of_password i \<longrightarrow> id_providerKey i = googleProviderKey)
     \<and> (\<forall>i\<in>set ids. \<forall>j\<in>set ids. of_password i \<longrightarrow> of_password j \<longrightarrow> id_accountId i = id_accountId j \<longrightarrow> i = j)
     \<and> (\<forall>aid e e'. address ids aid e \<longrightarrow> address ids aid e' \<longrightarrow> e = e')"

text \<open>Every token was mailed to the address of its account.\<close>

definition mailed :: "auth_ext \<Rightarrow> credentials \<Rightarrow> mail_token \<Rightarrow> bool" where
  "mailed ax c t \<longleftrightarrow>
     (\<exists>e token. address (cr_identities c) (mt_accountId t) e \<and> (e, token) \<in> set (cr_mails c)
        \<and> hashSecret (ax_core ax) token = mt_tokenHash t)"

definition credentials_ok :: "auth_ext \<Rightarrow> credentials \<Rightarrow> bool" where
  "credentials_ok ax c \<longleftrightarrow>
     identities_ok (accounts (cr_db c)) (cr_identities c) \<and> (\<forall>t\<in>set (cr_resets c). mailed ax c t)
     \<and> (\<forall>t\<in>set (cr_verifications c). mailed ax c t)"

lemma credentials_ok_tables: "cred_tables c = cred_tables c' \<Longrightarrow> credentials_ok ax c = credentials_ok ax c'"
  by (simp add: credentials_ok_def mailed_def cred_tables_eq)

text \<open>The ids the database generates are new.\<close>

definition account_ids_fresh :: "auth_request \<Rightarrow> credentials \<Rightarrow> bool" where
  "account_ids_fresh r c \<longleftrightarrow>
     we_uuid (ar_env r) 0 \<notin> a_id ` set (accounts (cr_db c)) \<and> we_uuid (ar_env r) 1 \<notin> id_id ` set (cr_identities c)"

lemma fresh_tables: "cred_tables c = cred_tables c' \<Longrightarrow> account_ids_fresh r c = account_ids_fresh r c'"
  by (simp add: account_ids_fresh_def cred_tables_eq)

section \<open>Preservation\<close>

text \<open>Adding an identity: to a new account, or with the address the account has.\<close>

lemma address_append: "address (ids @ [i]) aid e \<longleftrightarrow> address ids aid e \<or> id_accountId i = aid \<and> (of_password i \<and> id_providerSubject i = e \<or> vouched i e)"
  by (auto simp: address_def)

lemma identities_append:
  assumes ok: "identities_ok accs ids"
    and fresh: "id_id i \<notin> id_id ` set ids" "\<not> list_ex (\<lambda>j. id_providerIssuer j = id_providerIssuer i \<and> id_providerSubject j = id_providerSubject i) ids"
    and key: "of_password i \<longleftrightarrow> id_providerKey i \<noteq> googleProviderKey" and acc: "id_accountId i \<in> a_id ` set accs"
    and one: "of_password i \<Longrightarrow> \<forall>j\<in>set ids. of_password j \<longrightarrow> id_accountId j \<noteq> id_accountId i"
    and addr: "\<And>e e'. of_password i \<and> id_providerSubject i = e \<or> vouched i e \<Longrightarrow> address ids (id_accountId i) e' \<Longrightarrow> e = e'"
  shows "identities_ok accs (ids @ [i])"
proof -
  have self: "e = e'" if "of_password i \<and> id_providerSubject i = e \<or> vouched i e" "of_password i \<and> id_providerSubject i = e' \<or> vouched i e'" for e e'
    using that by (auto simp: vouched_def)
  have "e = e'" if "address (ids @ [i]) aid e" "address (ids @ [i]) aid e'" for aid e e'
    using that ok addr self unfolding address_append identities_ok_def by metis
  moreover have "a = b" if "a \<in> set (ids @ [i])" "b \<in> set (ids @ [i])" "of_password a" "of_password b" "id_accountId a = id_accountId b" for a b
    using that ok one by (auto simp: identities_ok_def)
  moreover have "keyed (\<lambda>i. (id_providerIssuer i, id_providerSubject i)) (ids @ [i])"
    using ok fresh(2) by (intro keyed_append_fresh) (auto simp: identities_ok_def list_ex_iff)
  moreover have "keyed id_id (ids @ [i])" using ok fresh(1) by (intro keyed_append_fresh) (simp_all add: identities_ok_def)
  ultimately show ?thesis using ok key acc by (simp add: identities_ok_def)
qed

lemma accounts_append:
  assumes "identities_ok accs ids" and "a_id a \<notin> a_id ` set accs" shows "identities_ok (accs @ [a]) ids"
  using assms unfolding identities_ok_def by (simp add: keyed_append_fresh) blast

lemma accounts_update:
  assumes "identities_ok accs ids" and "\<And>a. a_id (f a) = a_id a" shows "identities_ok (update_where P f accs) ids"
proof -
  have "map a_id (update_where P f accs) = map a_id accs" by (rule map_update_where) (simp add: assms(2))
  then have "a_id ` set (update_where P f accs) = a_id ` set accs" "keyed a_id (update_where P f accs) = keyed a_id accs"
    by (metis set_map, simp add: keyed_def)
  then show ?thesis using assms(1) unfolding identities_ok_def by simp
qed

text \<open>Marking password identities as verified changes no address.\<close>

definition verify_row :: "identity \<Rightarrow> identity" where "verify_row i = i\<lparr>id_emailVerified := True\<rparr>"

lemma verify_row_simps [simp]:
  "id_id (verify_row i) = id_id i" "id_accountId (verify_row i) = id_accountId i" "id_providerIssuer (verify_row i) = id_providerIssuer i"
  "id_providerKey (verify_row i) = id_providerKey i" "id_providerSubject (verify_row i) = id_providerSubject i"
  "of_password (verify_row i) = of_password i" "id_emailVerified (verify_row i)"
  by (simp_all add: verify_row_def of_password_def)

lemma address_verify:
  assumes "\<And>i. i \<in> set ids \<Longrightarrow> P i \<Longrightarrow> of_password i"
  shows "address (update_where P verify_row ids) aid e \<longleftrightarrow> address ids aid e"
proof -
  have v: "vouched (if P i then verify_row i else i) e = vouched i e" if "i \<in> set ids" for i
    using assms [OF that] by (auto simp: vouched_def)
  have a: "id_accountId (if P i then verify_row i else i) = id_accountId i" "of_password (if P i then verify_row i else i) = of_password i"
    "id_providerSubject (if P i then verify_row i else i) = id_providerSubject i" for i by simp_all
  show ?thesis unfolding address_def update_where_def set_map bex_simps image_iff ball_simps using v a by (auto simp del: if_image_distrib)
qed

lemma identities_verify:
  assumes ok: "identities_ok accs ids" and P: "\<And>i. i \<in> set ids \<Longrightarrow> P i \<Longrightarrow> of_password i"
  shows "identities_ok accs (update_where P verify_row ids)"
proof -
  let ?f = "\<lambda>i. if P i then verify_row i else i"
  have addr: "address (update_where P verify_row ids) aid e = address ids aid e" for aid e
    by (rule address_verify) (rule P)
  have keys: "keyed k (update_where P verify_row ids) = keyed k ids" if "\<And>i. k (verify_row i) = k i" for k :: "identity \<Rightarrow> 'k"
    unfolding keyed_def by (simp add: map_update_where that)
  have s: "set (update_where P verify_row ids) = ?f ` set ids" by (rule set_update_where)
  have f: "id_accountId (?f i) = id_accountId i" "of_password (?f i) = of_password i" "id_providerKey (?f i) = id_providerKey i" for i by simp_all
  have one: "?f i = ?f j" if "i \<in> set ids" "j \<in> set ids" "of_password i" "of_password j" "id_accountId i = id_accountId j" for i j
  proof -
    have "i = j" using ok that unfolding identities_ok_def by blast
    then show ?thesis by simp
  qed
  have "id_accountId ` set (update_where P verify_row ids) = id_accountId ` set ids" unfolding s image_image f ..
  moreover have "(\<forall>i\<in>set (update_where P verify_row ids). of_password i \<longrightarrow> id_providerKey i \<noteq> googleProviderKey)
      \<and> (\<forall>i\<in>set (update_where P verify_row ids). \<not> of_password i \<longrightarrow> id_providerKey i = googleProviderKey)"
    using ok unfolding s ball_simps f identities_ok_def by blast
  moreover have "\<forall>i\<in>set (update_where P verify_row ids). \<forall>j\<in>set (update_where P verify_row ids).
      of_password i \<longrightarrow> of_password j \<longrightarrow> id_accountId i = id_accountId j \<longrightarrow> i = j"
    unfolding s ball_simps f using one by blast
  moreover have "keyed id_id (update_where P verify_row ids)" "keyed (\<lambda>i. (id_providerIssuer i, id_providerSubject i)) (update_where P verify_row ids)"
    using ok by (subst keys; simp add: identities_ok_def)+
  moreover have "\<forall>aid e e'. address (update_where P verify_row ids) aid e \<longrightarrow> address (update_where P verify_row ids) aid e' \<longrightarrow> e = e'"
    unfolding addr using ok by (simp add: identities_ok_def)
  moreover have "keyed a_id accs" "id_accountId ` set ids \<subseteq> a_id ` set accs" using ok by (simp_all add: identities_ok_def)
  ultimately show ?thesis unfolding identities_ok_def by (intro conjI) simp_all
qed


text \<open>Who is found by an address.\<close>

lemma found_password:
  assumes "findAccountByPasswordEmail email c = Some (i, a)"
  shows "i \<in> set (cr_identities c)" "a \<in> set (accounts (cr_db c))" "a_id a = id_accountId i" "of_password i"
    "id_providerSubject i = normalizeEmail email" "address (cr_identities c) (a_id a) (normalizeEmail email)"
  using select_one_Some [OF assms [unfolded findAccountByPasswordEmail_def]] by (auto simp: of_password_def address_def)

lemma not_found_password:
  assumes "findAccountByPasswordEmail email c = None" and "identities_ok (accounts (cr_db c)) (cr_identities c)"
    and "i \<in> set (cr_identities c)" and "of_password i"
  shows "id_providerSubject i \<noteq> normalizeEmail email"
proof -
  obtain a where "a \<in> set (accounts (cr_db c))" "a_id a = id_accountId i" using assms(2,3) by (auto simp: identities_ok_def)
  then have "(i, a) \<in> set (List.product (cr_identities c) (accounts (cr_db c)))" "a_id a = id_accountId i" using assms(3) by auto
  then show ?thesis using assms(1,4) by (auto simp: findAccountByPasswordEmail_def select_one_None of_password_def)
qed

lemma found_google:
  assumes "findVerifiedGoogleAccountByEmail email c = Some aid" and "identities_ok (accounts (cr_db c)) (cr_identities c)"
  shows "address (cr_identities c) aid (normalizeEmail email)"
proof -
  obtain i where i: "select_one (\<lambda>i. id_providerKey i = googleProviderKey \<and> id_emailSnapshot i = Some (normalizeEmail email) \<and> id_emailVerified i)
      (cr_identities c) = Some i" "aid = id_accountId i"
    using assms(1) by (auto simp: findVerifiedGoogleAccountByEmail_def)
  from select_one_Some [OF i(1)] have r: "i \<in> set (cr_identities c)" "id_providerKey i = googleProviderKey"
    "id_emailSnapshot i = Some (normalizeEmail email)" "id_emailVerified i" by auto
  have "\<not> of_password i" using assms(2) r(1,2) unfolding identities_ok_def by blast
  then have "vouched i (normalizeEmail email)" using r by (simp add: vouched_def normalize_idem)
  then show ?thesis using r(1) i(2) by (auto simp: address_def)
qed

lemma reset_account_address:
  assumes "reset_account email c = Some aid" and "identities_ok (accounts (cr_db c)) (cr_identities c)"
  shows "address (cr_identities c) aid (normalizeEmail email)"
  using assms found_google by (auto simp: reset_account_def dest: found_password(6) split: option.splits)

section \<open>Tokens in the mail\<close>

lemma mailed_mono:
  assumes "mailed ax c t" and "set (cr_mails c) \<subseteq> set (cr_mails c')"
    and "\<And>aid e. address (cr_identities c) aid e \<Longrightarrow> address (cr_identities c') aid e"
  shows "mailed ax c' t"
  using assms unfolding mailed_def by blast

lemma claimed_rows:
  assumes "claim_mail_token x token now rows = (rows', claimed)"
  shows "t \<in> set rows' \<Longrightarrow> \<exists>u\<in>set rows. mt_accountId t = mt_accountId u \<and> mt_tokenHash t = mt_tokenHash u"
    "claimed = Some u \<Longrightarrow> u \<in> set rows \<and> mt_tokenHash u = hashSecret x token"
  using assms by (auto simp: claim_mail_token_def Let_def dest!: in_update_whereD select_one_Some)

lemma claim_keeps_mailed:
  assumes "claim_mail_token x token now rows = (rows', claimed)" and "\<forall>t\<in>set rows. mailed ax c t"
  shows "\<forall>t\<in>set rows'. mailed ax c t"
proof
  fix t assume "t \<in> set rows'"
  then obtain u where "u \<in> set rows" "mt_accountId t = mt_accountId u" "mt_tokenHash t = mt_tokenHash u"
    using claimed_rows(1) [OF assms(1)] by blast
  then show "mailed ax c t" using assms(2) by (auto simp: mailed_def)
qed

text \<open>A mail to the address of an account keeps the order.\<close>

lemma mail_ok:
  assumes ok: "credentials_ok ax c" and addr: "address (cr_identities c) aid e"
    and row: "mt_accountId t = aid" "mt_tokenHash t = hashSecret (ax_core ax) token"
  shows "credentials_ok ax (c\<lparr>cr_resets := cr_resets c @ [t], cr_mails := cr_mails c @ [(e, token)]\<rparr>)"
    "credentials_ok ax (c\<lparr>cr_verifications := cr_verifications c @ [t], cr_mails := cr_mails c @ [(e, token)]\<rparr>)"
proof -
  let ?r = "c\<lparr>cr_resets := cr_resets c @ [t], cr_mails := cr_mails c @ [(e, token)]\<rparr>"
  let ?v = "c\<lparr>cr_verifications := cr_verifications c @ [t], cr_mails := cr_mails c @ [(e, token)]\<rparr>"
  have old: "mailed ax ?r u" "mailed ax ?v u" if "mailed ax c u" for u by (rule mailed_mono [OF that]; auto)+
  have new: "mailed ax ?r t" "mailed ax ?v t" using addr row by (auto simp: mailed_def)
  have ids: "accounts (cr_db ?r) = accounts (cr_db c)" "accounts (cr_db ?v) = accounts (cr_db c)" by (simp_all add: cr_db_def)
  show "credentials_ok ax ?r" "credentials_ok ax ?v"
    using ok old new unfolding credentials_ok_def ids by auto
qed

lemma begin_ok:
  assumes "credentials_ok ax c" and "address (cr_identities c) aid e"
  shows "credentials_ok ax (beginEmailVerification ax env aid e c)"
  unfolding beginEmailVerification_def Let_def by (rule mail_ok(2) [OF assms]) simp_all


section \<open>Every step keeps the order\<close>

lemma verify_row_eq: "(\<lambda>i. i\<lparr>id_emailVerified := True\<rparr>) = verify_row"
  by (simp add: fun_eq_iff verify_row_def)

lemma insert_identity_Some:
  "insert_identity i c = Some c' \<longleftrightarrow>
     \<not> list_ex (\<lambda>j. id_providerIssuer j = id_providerIssuer i \<and> id_providerSubject j = id_providerSubject i) (cr_identities c)
     \<and> c' = c\<lparr>cr_identities := cr_identities c @ [i]\<rparr>"
  by (auto simp: insert_identity_def)

text \<open>A new identity, of a new account or with the address its account has.\<close>

lemma insert_ok:
  assumes ok: "credentials_ok ax c" and ins: "insert_identity i c = Some c'"
    and fresh: "id_id i \<notin> id_id ` set (cr_identities c)"
    and key: "of_password i \<longleftrightarrow> id_providerKey i \<noteq> googleProviderKey" and acc: "id_accountId i \<in> a_id ` set (accounts (cr_db c))"
    and one: "of_password i \<Longrightarrow> \<forall>j\<in>set (cr_identities c). of_password j \<longrightarrow> id_accountId j \<noteq> id_accountId i"
    and addr: "\<And>e e'. of_password i \<and> id_providerSubject i = e \<or> vouched i e \<Longrightarrow> address (cr_identities c) (id_accountId i) e' \<Longrightarrow> e = e'"
  shows "credentials_ok ax c'"
proof -
  have c': "c' = c\<lparr>cr_identities := cr_identities c @ [i]\<rparr>"
    and u: "\<not> list_ex (\<lambda>j. id_providerIssuer j = id_providerIssuer i \<and> id_providerSubject j = id_providerSubject i) (cr_identities c)"
    using ins by (simp_all add: insert_identity_Some)
  have "mailed ax c' t" if "mailed ax c t" for t
    by (rule mailed_mono [OF that]) (auto simp: c' address_append)
  moreover have "identities_ok (accounts (cr_db c)) (cr_identities c @ [i])"
    using ok by (intro identities_append [OF _ fresh u key acc one addr]) (simp_all add: credentials_ok_def)
  ultimately show ?thesis using ok by (simp add: credentials_ok_def c')
qed

lemma insert_account_ok:
  assumes "credentials_ok ax c" and "a_id a \<notin> a_id ` set (accounts (cr_db c))"
  shows "credentials_ok ax (insert_account a c)"
proof -
  have "mailed ax (insert_account a c) t = mailed ax c t" for t by (simp add: mailed_def insert_account_def)
  then show ?thesis using assms accounts_append unfolding credentials_ok_def by (simp add: insert_account_def)
qed

lemma update_account_ok:
  assumes "credentials_ok ax c" and "\<And>a. a_id (f a) = a_id a"
  shows "credentials_ok ax (update_account aid f c)"
proof -
  have "mailed ax (update_account aid f c) t = mailed ax c t" for t by (simp add: mailed_def update_account_def)
  then show ?thesis using assms accounts_update unfolding credentials_ok_def by (simp add: update_account_def)
qed

lemma verify_ok:
  assumes "credentials_ok ax c" and P: "\<And>i. i \<in> set (cr_identities c) \<Longrightarrow> P i \<Longrightarrow> of_password i"
  shows "credentials_ok ax (c\<lparr>cr_identities := update_where P verify_row (cr_identities c)\<rparr>)"
proof -
  have addr: "address (update_where P verify_row (cr_identities c)) aid e = address (cr_identities c) aid e" for aid e
    by (rule address_verify) (rule P)
  have "mailed ax (c\<lparr>cr_identities := update_where P verify_row (cr_identities c)\<rparr>) t = mailed ax c t" for t
    by (simp add: mailed_def addr)
  then show ?thesis using assms identities_verify [OF _ P] unfolding credentials_ok_def by simp
qed

lemma resets_ok:
  assumes "credentials_ok ax c" and "claim_mail_token x token now (cr_resets c) = (rows, claimed)"
  shows "credentials_ok ax (c\<lparr>cr_resets := rows\<rparr>)"
proof -
  have "mailed ax (c\<lparr>cr_resets := rows\<rparr>) t = mailed ax c t" for t by (simp add: mailed_def)
  then show ?thesis using assms claim_keeps_mailed [OF assms(2), of ax c] by (simp add: credentials_ok_def)
qed

lemma verifications_ok:
  assumes "credentials_ok ax c" and "claim_mail_token x token now (cr_verifications c) = (rows, claimed)"
  shows "credentials_ok ax (c\<lparr>cr_verifications := rows\<rparr>)"
proof -
  have "mailed ax (c\<lparr>cr_verifications := rows\<rparr>) t = mailed ax c t" for t by (simp add: mailed_def)
  then show ?thesis using assms claim_keeps_mailed [OF assms(2), of ax c] by (simp add: credentials_ok_def)
qed

lemma mark_ok: "credentials_ok ax c \<Longrightarrow> credentials_ok ax (markPasswordIdentityVerified aid c)"
  unfolding markPasswordIdentityVerified_def verify_row_eq by (rule verify_ok) (simp_all add: of_password_def)

lemma new_account_ok:
  assumes ok: "credentials_ok ax c" and fresh: "a_id a \<notin> a_id ` set (accounts (cr_db c))" "id_id i \<notin> id_id ` set (cr_identities c)"
    and i: "id_accountId i = a_id a" "of_password i \<longleftrightarrow> id_providerKey i \<noteq> googleProviderKey"
    and ins: "insert_identity i (insert_account a c) = Some c'"
  shows "credentials_ok ax c'"
proof -
  have none: "id_accountId j \<noteq> a_id a" if "j \<in> set (cr_identities c)" for j
  proof -
    have "id_accountId ` set (cr_identities c) \<subseteq> a_id ` set (accounts (cr_db c))"
      using ok by (simp add: credentials_ok_def identities_ok_def)
    then show ?thesis using fresh(1) that by (metis imageI subsetD)
  qed
  show ?thesis
  proof (rule insert_ok [OF insert_account_ok [OF ok fresh(1)] ins])
    fix e e'
    assume "address (cr_identities (insert_account a c)) (id_accountId i) e'"
    then show "e = e'" using none by (auto simp: address_def insert_account_def i(1))
  qed (use fresh(2) i none in \<open>auto simp: insert_account_def\<close>)
qed

lemma ensure_ok:
  assumes ok: "credentials_ok ax c" and fresh: "we_uuid env 1 \<notin> id_id ` set (cr_identities c)"
    and aid: "aid \<in> a_id ` set (accounts (cr_db c))" and e: "ensurePasswordIdentityForAccount env aid c = Some c'"
  shows "credentials_ok ax c'"
proof (cases "select_one (\<lambda>i. id_accountId i = aid \<and> id_providerIssuer i = passwordProviderIssuer) (cr_identities c)")
  case (Some j)
  from select_one_Some [OF this] have j: "j \<in> set (cr_identities c)" "of_password j" by (auto simp: of_password_def)
  have "of_password i" if "i \<in> set (cr_identities c)" "id_id i = id_id j" for i
    using ok that j keyed_eq [of id_id "cr_identities c" i j] by (auto simp: credentials_ok_def identities_ok_def)
  then have "credentials_ok ax (c\<lparr>cr_identities := update_where (\<lambda>i. id_id i = id_id j) verify_row (cr_identities c)\<rparr>)"
    by (intro verify_ok [OF ok]) blast
  then show ?thesis using e Some by (simp add: ensurePasswordIdentityForAccount_def verify_row_eq)
next
  case None
  then have none: "\<forall>j\<in>set (cr_identities c). of_password j \<longrightarrow> id_accountId j \<noteq> aid" by (auto simp: select_one_None of_password_def)
  let ?g = "\<lambda>i. id_accountId i = aid \<and> id_providerKey i = googleProviderKey \<and> id_emailVerified i"
  show ?thesis
  proof (cases "\<exists>g s. select_one ?g (cr_identities c) = Some g \<and> id_emailSnapshot g = Some s \<and> s \<noteq> []")
    case False
    then show ?thesis using e None ok by (auto simp: ensurePasswordIdentityForAccount_def split: option.splits bind_splits if_splits)
  next
    case True
    then obtain g s where g: "select_one ?g (cr_identities c) = Some g" "id_emailSnapshot g = Some s" "s \<noteq> []" by blast
    define i where "i = password_identity (we_uuid env 1) aid (normalizeEmail s) True"
    have ins: "insert_identity i c = Some c'" using e None g by (simp add: ensurePasswordIdentityForAccount_def i_def)
    have i: "of_password i" "id_providerKey i \<noteq> googleProviderKey" "id_accountId i = aid" "id_id i = we_uuid env 1"
      "id_providerSubject i = normalizeEmail s"
      by (simp_all add: i_def password_identity_def of_password_def passwordProviderKey_def googleProviderKey_def)
    from select_one_Some [OF g(1)] have "g \<in> set (cr_identities c)" "id_accountId g = aid" "vouched g (normalizeEmail s)"
      using none g(2) by (auto simp: vouched_def)
    then have "address (cr_identities c) aid (normalizeEmail s)" by (auto simp: address_def)
    then have same: "normalizeEmail s = e" if "address (cr_identities c) aid e" for e
      using that ok unfolding credentials_ok_def identities_ok_def by blast
    show ?thesis
    proof (rule insert_ok [OF ok ins])
      fix e e'
      assume "of_password i \<and> id_providerSubject i = e \<or> vouched i e" "address (cr_identities c) (id_accountId i) e'"
      then show "e = e'" using same [of e'] i by (auto simp: vouched_def)
    qed (use i fresh aid none in auto)
  qed
qed

lemma token_account:
  assumes "credentials_ok ax c" and "mailed ax c t" shows "mt_accountId t \<in> a_id ` set (accounts (cr_db c))"
proof -
  from assms(2) obtain i where "i \<in> set (cr_identities c)" "id_accountId i = mt_accountId t" by (auto simp: mailed_def address_def)
  moreover have "id_accountId ` set (cr_identities c) \<subseteq> a_id ` set (accounts (cr_db c))"
    using assms(1) by (simp add: credentials_ok_def identities_ok_def)
  ultimately show ?thesis by (metis imageI subsetD)
qed

lemma credentials_ok_step:
  assumes step: "cred_step ax r c c'" and ok: "credentials_ok ax c" and fresh: "account_ids_fresh r c"
    and google: "ax_google ax \<noteq> Some passwordProviderIssuer"
  shows "credentials_ok ax c'"
  using step
proof (cases rule: cred_step.cases)
  case idle
  then show ?thesis using ok credentials_ok_tables by blast
next
  case (enrolled name h c1 aid)
  let ?i = "password_identity (we_uuid (ar_env r) 1) (we_uuid (ar_env r) 0) (ar_email r) False"
  let ?a = "new_account (we_uuid (ar_env r) 0) name (Some (ar_email r)) (Some h)"
  have ins: "insert_identity ?i (insert_account ?a c) = Some c1" "aid = we_uuid (ar_env r) 0"
    using enrolled(4) by (auto simp: createPasswordAccount_def Let_def normalize_idem)
  have c1: "credentials_ok ax c1"
    by (rule new_account_ok [OF ok _ _ _ _ ins(1)]) (use fresh in \<open>auto simp: account_ids_fresh_def new_account_def password_identity_def
        of_password_def passwordProviderKey_def googleProviderKey_def\<close>)
  have "address (cr_identities c1) aid (ar_email r)"
    using ins by (auto simp: insert_identity_Some address_append password_identity_def of_password_def)
  from begin_ok [OF c1 this] show ?thesis using enrolled(5) credentials_ok_tables by blast
next
  case (resent i a)
  from found_password(6) [OF resent(2)] have "address (cr_identities c) (a_id a) (ar_email r)" by (simp add: normalize_idem)
  from begin_ok [OF ok this] show ?thesis using resent(3) credentials_ok_tables by blast
next
  case (reset_asked aid token expires)
  have "address (cr_identities c) aid (ar_email r)"
    using reset_account_address [OF reset_asked(2)] ok by (simp add: normalize_idem credentials_ok_def)
  then have "credentials_ok ax (c\<lparr>cr_resets := cr_resets c @ [mail_row ax aid expires token], cr_mails := cr_mails c @ [(ar_email r, token)]\<rparr>)"
    by (intro mail_ok(1) [OF ok]) (simp_all add: mail_row_def)
  then show ?thesis using reset_asked(3) credentials_ok_tables by blast
next
  case (reset_claimed token rows claimed)
  then show ?thesis using resets_ok [OF ok reset_claimed(2)] credentials_ok_tables by blast
next
  case (reset_done token rows t h)
  let ?c1 = "c\<lparr>cr_resets := rows\<rparr>" and ?c2 = "setAccountPassword (mt_accountId t) h (c\<lparr>cr_resets := rows\<rparr>)"
  have c1: "credentials_ok ax ?c1" by (rule resets_ok [OF ok reset_done(3)])
  have c2: "credentials_ok ax ?c2" unfolding setAccountPassword_def by (rule update_account_ok [OF c1]) simp
  have "mailed ax c t" using claimed_rows(2) [OF reset_done(3) refl] ok by (simp add: credentials_ok_def)
  then have "mt_accountId t \<in> a_id ` set (accounts (cr_db c))" by (rule token_account [OF ok])
  moreover have "map a_id (accounts (cr_db ?c2)) = map a_id (accounts (cr_db c))"
    by (simp add: setAccountPassword_def update_account_def map_update_where)
  then have "a_id ` set (accounts (cr_db ?c2)) = a_id ` set (accounts (cr_db c))" by (metis set_map)
  ultimately have "credentials_ok ax c3" if "ensurePasswordIdentityForAccount (ar_env r) (mt_accountId t) ?c2 = Some c3" for c3
    using fresh by (intro ensure_ok [OF c2 _ _ that]) (simp_all add: account_ids_fresh_def setAccountPassword_def update_account_def)
  then show ?thesis using reset_done(6) c2 credentials_ok_tables by blast
next
  case (verify_claimed token rows claimed)
  then show ?thesis using verifications_ok [OF ok verify_claimed(2)] credentials_ok_tables by blast
next
  case (verified token rows t)
  then show ?thesis using mark_ok [OF verifications_ok [OF ok verified(3)]] credentials_ok_tables by blast
next
  case (changed aid h)
  have "credentials_ok ax (setAccountPassword aid h c)" unfolding setAccountPassword_def by (rule update_account_ok [OF ok]) simp
  then show ?thesis using changed(3) credentials_ok_tables by blast
next
  case (google_entered issuer claims c1 aid created)
  have "credentials_ok ax c1"
  proof (cases "findIdentity issuer (gc_sub claims) c")
    case (Some i)
    then show ?thesis using google_entered(2) update_account_ok [OF ok] by (auto simp: upsertAccountFromIdentity_def)
  next
    case None
    define i where "i = \<lparr>id_id = we_uuid (ar_env r) 1, id_accountId = we_uuid (ar_env r) 0, id_emailSnapshot = gc_email claims,
        id_emailVerified = (gc_email_verified claims = Some True), id_providerIssuer = issuer, id_providerKey = googleProviderKey,
        id_providerSubject = gc_sub claims\<rparr>"
    define a where "a = new_account (we_uuid (ar_env r) 0) (gc_name claims) (gc_email claims) None"
    have "insert_identity i (insert_account a c) = Some c1"
      using google_entered(2) None by (auto simp: upsertAccountFromIdentity_def i_def a_def)
    then show ?thesis
      by (rule new_account_ok [OF ok, rotated 4]) (use google_entered(1) google fresh in
          \<open>auto simp: i_def a_def account_ids_fresh_def new_account_def of_password_def\<close>)
  qed
  then show ?thesis using google_entered(3) credentials_ok_tables by blast
next
  case (google_linked issuer claims email i a c1)
  let ?i = "\<lparr>id_id = we_uuid (ar_env r) 1, id_accountId = a_id a, id_emailSnapshot = Some email, id_emailVerified = True,
       id_providerIssuer = issuer, id_providerKey = googleProviderKey, id_providerSubject = gc_sub claims\<rparr>"
  note f = found_password [OF google_linked(4)]
  have ins: "insert_identity ?i c = Some c1" using google_linked(6) by (simp add: linkIdentityToAccount_def)
  have np: "\<not> of_password ?i" using google google_linked(1) by (auto simp: of_password_def)
  have same: "normalizeEmail email = e" if "address (cr_identities c) (a_id a) e" for e
    using that f(6) ok unfolding credentials_ok_def identities_ok_def by blast
  have "credentials_ok ax c1"
  proof (rule insert_ok [OF ok ins])
    fix e e'
    assume "of_password ?i \<and> id_providerSubject ?i = e \<or> vouched ?i e" "address (cr_identities c) (id_accountId ?i) e'"
    then show "e = e'" using same [of e'] np by (auto simp: vouched_def)
  qed (use np fresh imageI [OF f(2), of a_id] in \<open>auto simp: account_ids_fresh_def\<close>)
  then show ?thesis using google_linked(7) credentials_ok_tables by blast
qed

end
