(* ===== verification/AccountDemo.thy ===== *)
theory AccountDemo imports AccountLaws begin

text \<open>A small instance of the sign-in code: an injective key derivation, and an account with a verified password.\<close>

definition demo_encode :: "bytes \<Rightarrow> string" where
  "demo_encode b = concat (map (\<lambda>c. if c = CHR ''$'' then ''%0'' else if c = CHR ''%'' then ''%1'' else [c]) b)"

fun demo_decode :: "string \<Rightarrow> bytes" where
  "demo_decode (x # y # s) =
     (if x = CHR ''%'' then (if y = CHR ''0'' then CHR ''$'' else CHR ''%'') # demo_decode s else x # demo_decode (y # s))"
| "demo_decode s = s"

definition demo_scrypt :: "string \<Rightarrow> bytes \<Rightarrow> int \<Rightarrow> int \<Rightarrow> int \<Rightarrow> bytes option" where
  "demo_scrypt p s n r q = Some (take keyLength (p @ replicate keyLength (CHR ''-'')))"

definition demo_auth :: auth_ext where
  "demo_auth = \<lparr>ax_core = sample_ext, ax_scrypt = demo_scrypt, ax_encode = demo_encode, ax_decode = demo_decode,
     ax_sign_session = (\<lambda>profile jti now. jti), ax_url = (\<lambda>b v. None), ax_google = Some ''https://accounts.google.com'',
     ax_exchange = (\<lambda>code verifier nonce. if code = ''c'' then Some \<lparr>gc_email = Some ''Ann@x.io'', gc_email_verified = Some True,
        gc_name = None, gc_sub = ''sub''\<rparr> else None)\<rparr>"

lemma demo_decode_encode: "demo_decode (demo_encode b) = b"
proof (induction b)
  case (Cons c b)
  have e: "demo_encode (c # b) = (if c = CHR ''$'' then ''%0'' else if c = CHR ''%'' then ''%1'' else [c]) @ demo_encode b"
    by (simp add: demo_encode_def)
  show ?case
  proof (cases "demo_encode b")
    case Nil
    then have "b = []" using Cons by simp
    then show ?thesis unfolding e by (simp add: demo_encode_def)
  next
    case (Cons x xs)
    then show ?thesis using Cons.IH by (auto simp: e)
  qed
qed (simp add: demo_encode_def)

lemma demo_not_password_issuer: "ax_google demo_auth \<noteq> Some passwordProviderIssuer"
  by (simp add: demo_auth_def passwordProviderIssuer_def)

definition demo_hash :: string where
  "demo_hash = the (hashPassword demo_auth ''secret-pass'' ''r1'')"

definition demo_account :: account where
  "demo_account = new_account ''a1'' None (Some ''ann@x.io'') (Some demo_hash)"

definition demo_identity :: identity where
  "demo_identity = password_identity ''i1'' ''a1'' ''ann@x.io'' True"

definition demo_credentials :: credentials where
  "demo_credentials = \<lparr>cr_world = \<lparr>w_db = empty_db\<lparr>accounts := [demo_account]\<rparr>, w_limits = idle_limiter\<rparr>,
     cr_identities = [demo_identity], cr_resets = [mail_row demo_auth ''a1'' 100 ''frpr_t''], cr_verifications = [],
     cr_mails = [(''ann@x.io'', ''frpr_t'')]\<rparr>"

definition demo_auth_request :: "auth_verb \<Rightarrow> fields \<Rightarrow> (string \<times> string) list \<Rightarrow> auth_request" where
  "demo_auth_request verb body query = \<lparr>ar_verb = verb,
     ar_http = (demo_web_request (Some (JObj body)))\<lparr>rq_query := query, rq_sessionCookie := None\<rparr>, ar_env = demo_env 9\<rparr>"

lemma demo_credentials_ok: "credentials_ok demo_auth demo_credentials"
proof -
  have i: "of_password demo_identity" "id_accountId demo_identity = ''a1''" "id_providerKey demo_identity \<noteq> googleProviderKey"
    "id_providerSubject demo_identity = ''ann@x.io''"
    by (simp_all add: demo_identity_def password_identity_def of_password_def passwordProviderKey_def googleProviderKey_def)
  have "identities_ok [demo_account] [demo_identity]"
    using i by (auto simp: identities_ok_def keyed_def address_def vouched_def demo_account_def new_account_def)
  moreover have "mailed demo_auth demo_credentials (mail_row demo_auth ''a1'' 100 ''frpr_t'')"
    using i by (auto simp: mailed_def address_def demo_credentials_def mail_row_def)
  ultimately show ?thesis by (simp add: credentials_ok_def demo_credentials_def cr_db_def)
qed

lemma demo_fresh: "account_ids_fresh (demo_auth_request verb body query) demo_credentials"
  by (simp add: account_ids_fresh_def demo_auth_request_def demo_env_def demo_credentials_def demo_account_def demo_identity_def
      new_account_def password_identity_def cr_db_def)

lemma demo_scrypt_laws:
  "ax_decode demo_auth (ax_encode demo_auth b) = b" "CHR ''$'' \<notin> set (ax_encode demo_auth b)" "b \<noteq> [] \<Longrightarrow> ax_encode demo_auth b \<noteq> []"
  "ax_scrypt demo_auth p s n r q = Some k \<Longrightarrow> length k = keyLength"
proof -
  show "ax_decode demo_auth (ax_encode demo_auth b) = b" by (simp add: demo_auth_def demo_decode_encode)
  show "CHR ''$'' \<notin> set (ax_encode demo_auth b)" by (auto simp: demo_auth_def demo_encode_def)
  show "ax_encode demo_auth b \<noteq> []" if "b \<noteq> []" using that by (cases b) (simp_all add: demo_auth_def demo_encode_def)
  show "length k = keyLength" if "ax_scrypt demo_auth p s n r q = Some k" using that by (auto simp: demo_auth_def demo_scrypt_def)
qed

end
