(* ===== verification/AccountGuarantees.thy ===== *)
theory AccountGuarantees imports AccountDemo begin

text \<open>
  The theorems on accounts over sequences of sign-in requests: the identity tables stay well formed, the password and
  the password identities of an account change only for who reads its mail or knows the password, and a session starts
  only from a proof.
\<close>

section \<open>Runs\<close>

lemma service_step:
  obtains c0 where "cred_step ax r c0 (fst (auth_service ax r c))" "same_credentials c c0"
  using auth_service_effect [of ax r c] by (auto simp: cred_effect_def)

lemma same_tables: "same_credentials c c0 \<Longrightarrow> cred_tables c0 = cred_tables c"
  by (simp add: same_credentials_def)

lemma credentials_ok_service:
  assumes "credentials_ok ax c" and "account_ids_fresh r c" and "ax_google ax \<noteq> Some passwordProviderIssuer"
  shows "credentials_ok ax (fst (auth_service ax r c))"
proof -
  obtain c0 where s: "cred_step ax r c0 (fst (auth_service ax r c))" "same_credentials c c0" by (rule service_step)
  have "credentials_ok ax c0" "account_ids_fresh r c0"
    using assms(1,2) same_tables [OF s(2)] credentials_ok_tables fresh_tables by blast+
  then show ?thesis using credentials_ok_step [OF s(1)] assms(3) by blast
qed

text \<open>
  C10.  The identity tables stay well formed.  Whatever sequence of requests the sign-in routes serve: account ids,
  identity ids and the pairs of issuer and subject stay unique, no identity loses its account, an account has one
  password identity at most, all identities of an account that vouch for an address vouch for the same one, and every
  reset or verification token that is stored was mailed to the address of its account.
\<close>

theorem credentials_stay_well_formed:
  assumes "credentials_ok ax c" and "each_auth_request ax account_ids_fresh rs c" and "ax_google ax \<noteq> Some passwordProviderIssuer"
  shows "credentials_ok ax (serve_auth ax rs c)"
  using assms(1,2)
proof (induction rs arbitrary: c)
  case (Cons r rs)
  then show ?case using credentials_ok_service [OF _ _ assms(3)] by simp
qed simp

theorem credentials_stay_well_formed_witness:
  "credentials_ok demo_auth (serve_auth demo_auth [demo_auth_request SignUp [(''email'', JStr ''bob@x.io''), (''password'', JStr ''long-enough'')] []] demo_credentials)"
  by (rule credentials_stay_well_formed [OF demo_credentials_ok _ demo_not_password_issuer]) (simp add: demo_fresh)

section \<open>Taking an account over\<close>

text \<open>Who may change the credentials of an account: who presents a token that was mailed to its address.\<close>

definition redeems_mail :: "auth_ext \<Rightarrow> auth_request \<Rightarrow> credentials \<Rightarrow> uuid \<Rightarrow> bool" where
  "redeems_mail ax r c aid \<longleftrightarrow>
     (\<exists>e mail token. address (cr_identities c) aid e \<and> (e, mail) \<in> set (cr_mails c) \<and> presented_token r = Some token
        \<and> hashSecret (ax_core ax) token = hashSecret (ax_core ax) mail)"

definition account_secrets :: "uuid \<Rightarrow> credentials \<Rightarrow> string option list \<times> identity list" where
  "account_secrets aid c =
     (map a_passwordHash (filter (\<lambda>a. a_id a = aid) (accounts (cr_db c))),
      filter (\<lambda>i. id_accountId i = aid \<and> of_password i) (cr_identities c))"

lemma account_secrets_tables: "cred_tables c = cred_tables c' \<Longrightarrow> account_secrets aid c = account_secrets aid c'"
  by (simp add: account_secrets_def cred_tables_eq)

lemma secrets_other_tables [simp]:
  "account_secrets aid (c\<lparr>cr_resets := rs\<rparr>) = account_secrets aid c"
  "account_secrets aid (c\<lparr>cr_verifications := vs\<rparr>) = account_secrets aid c"
  "account_secrets aid (c\<lparr>cr_resets := rs, cr_mails := ms\<rparr>) = account_secrets aid c"
  "account_secrets aid (beginEmailVerification ax env aid' e c) = account_secrets aid c"
  by (simp_all add: account_secrets_def cr_db_def beginEmailVerification_def Let_def)

lemma secrets_insert_identity:
  "insert_identity i c = Some c' \<Longrightarrow> id_accountId i \<noteq> aid \<or> \<not> of_password i \<Longrightarrow> account_secrets aid c' = account_secrets aid c"
  by (auto simp: insert_identity_Some account_secrets_def)

lemma secrets_insert_account: "a_id a \<noteq> aid \<Longrightarrow> account_secrets aid (insert_account a c) = account_secrets aid c"
  by (simp add: account_secrets_def insert_account_def)

lemma secrets_update_account:
  assumes "\<And>a. a_id (f a) = a_id a" and "aid' = aid \<Longrightarrow> \<forall>a. a_passwordHash (f a) = a_passwordHash a"
  shows "account_secrets aid (update_account aid' f c) = account_secrets aid c"
proof -
  have "map a_passwordHash (filter (\<lambda>a. a_id a = aid) (update_where (\<lambda>a. a_id a = aid') f as))
      = map a_passwordHash (filter (\<lambda>a. a_id a = aid) as)" for as
    using assms by (induction as) (auto simp: update_where_Cons)
  then show ?thesis by (simp add: account_secrets_def update_account_def)
qed

lemma secrets_verify:
  assumes "\<forall>i\<in>set (cr_identities c). P i \<longrightarrow> id_accountId i \<noteq> aid"
  shows "account_secrets aid (c\<lparr>cr_identities := update_where P verify_row (cr_identities c)\<rparr>) = account_secrets aid c"
proof -
  have "filter (\<lambda>i. id_accountId i = aid \<and> of_password i) (update_where P verify_row is)
      = filter (\<lambda>i. id_accountId i = aid \<and> of_password i) is" if "\<forall>i\<in>set is. P i \<longrightarrow> id_accountId i \<noteq> aid" for "is"
    using that by (induction "is") (auto simp: update_where_Cons)
  from this [OF assms] show ?thesis by (simp add: account_secrets_def)
qed

lemma secrets_ensure:
  assumes e: "ensurePasswordIdentityForAccount env aid' c = Some c'" and "aid' \<noteq> aid" and ids: "keyed id_id (cr_identities c)"
  shows "account_secrets aid c' = account_secrets aid c"
proof (cases "select_one (\<lambda>i. id_accountId i = aid' \<and> id_providerIssuer i = passwordProviderIssuer) (cr_identities c)")
  case (Some j)
  from select_one_Some [OF this] have j: "j \<in> set (cr_identities c)" "id_accountId j = aid'" by auto
  have "\<forall>i\<in>set (cr_identities c). id_id i = id_id j \<longrightarrow> id_accountId i \<noteq> aid"
    using j ids assms(2) keyed_eq [of id_id "cr_identities c" _ j] by blast
  from secrets_verify [OF this] show ?thesis using e Some by (auto simp: ensurePasswordIdentityForAccount_def verify_row_eq)
next
  case None
  have "id_accountId (password_identity (we_uuid env 1) aid' s True) \<noteq> aid" for s using assms(2) by (simp add: password_identity_def)
  then show ?thesis using e None
    by (auto simp: ensurePasswordIdentityForAccount_def dest: secrets_insert_identity split: option.splits bind_splits if_splits)
qed

lemma mailed_redeems:
  assumes "mailed ax c t" and "presented_token r = Some token" and "mt_tokenHash t = hashSecret (ax_core ax) token"
  shows "redeems_mail ax r c (mt_accountId t)"
  using assms unfolding redeems_mail_def mailed_def by metis


lemma secrets_step:
  assumes step: "cred_step ax r c c'" and ok: "credentials_ok ax c" and fresh: "account_ids_fresh r c"
    and google: "ax_google ax \<noteq> Some passwordProviderIssuer" and aid: "aid \<in> a_id ` set (accounts (cr_db c))"
    and noproof: "\<not> redeems_mail ax r c aid" "\<not> knows_password ax r c aid"
  shows "account_secrets aid c' = account_secrets aid c"
  using step
proof (cases rule: cred_step.cases)
  case idle
  then show ?thesis by (rule account_secrets_tables)
next
  case (enrolled name h c1 aid')
  have new: "we_uuid (ar_env r) 0 \<noteq> aid" using fresh aid by (auto simp: account_ids_fresh_def)
  have "account_secrets aid c1 = account_secrets aid c"
    using enrolled(4) new secrets_insert_identity [of "password_identity (we_uuid (ar_env r) 1) (we_uuid (ar_env r) 0) (ar_email r) False" _ c1 aid]
      secrets_insert_account [of "new_account (we_uuid (ar_env r) 0) name (Some (ar_email r)) (Some h)" aid c]
    by (auto simp: createPasswordAccount_def Let_def normalize_idem password_identity_def new_account_def)
  then show ?thesis using account_secrets_tables [OF enrolled(5), of aid] by simp
next
  case (resent i a)
  then show ?thesis using account_secrets_tables [OF resent(3), of aid] by simp
next
  case (reset_asked aid' token expires)
  then show ?thesis using account_secrets_tables [OF reset_asked(3), of aid] by simp
next
  case (reset_claimed token rows claimed)
  then show ?thesis using account_secrets_tables [OF reset_claimed(3), of aid] by simp
next
  case (reset_done token rows t h)
  let ?c2 = "setAccountPassword (mt_accountId t) h (c\<lparr>cr_resets := rows\<rparr>)"
  have "mailed ax c t" "mt_tokenHash t = hashSecret (ax_core ax) token"
    using claimed_rows(2) [OF reset_done(3) refl] ok by (simp_all add: credentials_ok_def)
  then have other: "mt_accountId t \<noteq> aid" using mailed_redeems [OF _ reset_done(2)] noproof(1) by blast
  have c2: "account_secrets aid ?c2 = account_secrets aid c"
    unfolding setAccountPassword_def using other by (subst secrets_update_account) simp_all
  have "account_secrets aid c3 = account_secrets aid c"
    if "ensurePasswordIdentityForAccount (ar_env r) (mt_accountId t) ?c2 = Some c3" for c3
    using secrets_ensure [OF that other] ok c2
    by (simp add: credentials_ok_def identities_ok_def setAccountPassword_def update_account_def)
  then show ?thesis using reset_done(6) c2 account_secrets_tables by metis
next
  case (verify_claimed token rows claimed)
  then show ?thesis using account_secrets_tables [OF verify_claimed(3), of aid] by simp
next
  case (verified token rows t)
  have "mailed ax c t" "mt_tokenHash t = hashSecret (ax_core ax) token"
    using claimed_rows(2) [OF verified(3) refl] ok by (simp_all add: credentials_ok_def)
  then have "mt_accountId t \<noteq> aid" using mailed_redeems [OF _ verified(2)] noproof(1) by blast
  then have "account_secrets aid (markPasswordIdentityVerified (mt_accountId t) (c\<lparr>cr_verifications := rows\<rparr>)) = account_secrets aid c"
    unfolding markPasswordIdentityVerified_def verify_row_eq by (subst secrets_verify) auto
  then show ?thesis using account_secrets_tables [OF verified(4), of aid] by simp
next
  case (changed aid' h)
  then have "aid' \<noteq> aid" using noproof(2) by blast
  then have "account_secrets aid (setAccountPassword aid' h c) = account_secrets aid c"
    unfolding setAccountPassword_def by (intro secrets_update_account) simp_all
  then show ?thesis using account_secrets_tables [OF changed(3), of aid] by simp
next
  case (google_entered issuer claims c1 aid' created)
  have "account_secrets aid c1 = account_secrets aid c"
  proof (cases "findIdentity issuer (gc_sub claims) c")
    case (Some i)
    then show ?thesis using google_entered(2) by (auto simp: upsertAccountFromIdentity_def intro!: secrets_update_account)
  next
    case None
    have new: "we_uuid (ar_env r) 0 \<noteq> aid" using fresh aid by (auto simp: account_ids_fresh_def)
    then show ?thesis using google_entered(2) None secrets_insert_account [of "new_account (we_uuid (ar_env r) 0) (gc_name claims) (gc_email claims) None" aid c]
      by (auto simp: upsertAccountFromIdentity_def new_account_def dest!: secrets_insert_identity [where aid = aid])
  qed
  then show ?thesis using account_secrets_tables [OF google_entered(3), of aid] by simp
next
  case (google_linked issuer claims email i a c1)
  have "account_secrets aid c1 = account_secrets aid c"
    using google_linked(6) google google_linked(1)
    by (auto simp: linkIdentityToAccount_def of_password_def dest!: secrets_insert_identity [where aid = aid])
  then show ?thesis using account_secrets_tables [OF google_linked(7), of aid] by simp
qed

lemma accounts_kept:
  assumes "cred_step ax r c c'" shows "a_id ` set (accounts (cr_db c)) \<subseteq> a_id ` set (accounts (cr_db c'))"
proof -
  have upd: "a_id ` set (accounts (cr_db (update_account aid f c))) = a_id ` set (accounts (cr_db c))" if "\<And>a. a_id (f a) = a_id a" for aid f c
  proof -
    have "map a_id (accounts (cr_db (update_account aid f c))) = map a_id (accounts (cr_db c))"
      by (simp add: update_account_def map_update_where that)
    then show ?thesis by (metis set_map)
  qed
  have ins: "accounts (cr_db c1) = accounts (cr_db c)" if "insert_identity i c = Some c1" for i c c1
    using that by (auto simp: insert_identity_Some)
  have ens: "accounts (cr_db c1) = accounts (cr_db c)" if "ensurePasswordIdentityForAccount env aid c = Some c1" for env aid c c1
    using that ins by (auto simp: ensurePasswordIdentityForAccount_def split: option.splits bind_splits if_splits)
  show ?thesis
    using assms
  proof (cases rule: cred_step.cases)
    case (google_entered issuer claims c1 aid created)
    have "a_id ` set (accounts (cr_db c)) \<subseteq> a_id ` set (accounts (cr_db c1))"
    proof (cases "findIdentity issuer (gc_sub claims) c")
      case (Some i)
      then show ?thesis using google_entered(2) by (auto simp: upsertAccountFromIdentity_def upd)
    next
      case None
      then show ?thesis using google_entered(2)
        by (auto simp: upsertAccountFromIdentity_def insert_account_def dest!: ins)
    qed
    then show ?thesis using google_entered(3) by (simp add: cred_tables_eq)
  qed (auto simp: cred_tables_eq upd setAccountPassword_def createPasswordAccount_def beginEmailVerification_def insert_account_def Let_def
      markPasswordIdentityVerified_def linkIdentityToAccount_def cr_db_def [symmetric] dest!: ins ens)
qed

text \<open>
  C2.  An account is taken over only through its mailbox.  Over any sequence of requests, of whoever: as long as no
  request presents a token that was mailed to the address of the account, and none is from one of its sessions with
  its current password, its password hash and its password identities (and whether they are verified) stay what they
  are, whatever the others sign up, log in, reset, verify, change or enter from Google.
\<close>

theorem taken_over_only_through_the_mailbox:
  assumes "credentials_ok ax c" and "each_auth_request ax account_ids_fresh rs c" and google: "ax_google ax \<noteq> Some passwordProviderIssuer"
    and "aid \<in> a_id ` set (accounts (cr_db c))"
    and "each_auth_request ax (\<lambda>r c. \<not> redeems_mail ax r c aid \<and> \<not> knows_password ax r c aid) rs c"
  shows "account_secrets aid (serve_auth ax rs c) = account_secrets aid c"
  using assms(1,2,4,5)
proof (induction rs arbitrary: c)
  case (Cons r rs)
  let ?c' = "fst (auth_service ax r c)"
  obtain c0 where s: "cred_step ax r c0 ?c'" "same_credentials c c0" by (rule service_step)
  have t: "cred_tables c0 = cred_tables c" by (rule same_tables [OF s(2)])
  have "redeems_mail ax r c0 aid = redeems_mail ax r c aid" "knows_password ax r c0 aid = knows_password ax r c aid"
    using t s(2) signed_in_same [OF s(2)] by (simp_all add: redeems_mail_def knows_password_def cred_tables_eq same_credentials_def)
  then have "account_secrets aid ?c' = account_secrets aid c0"
    using Cons.prems credentials_ok_tables [OF t] fresh_tables [OF t] t
    by (intro secrets_step [OF s(1) _ _ google]) (simp_all add: cred_tables_eq)
  moreover have "aid \<in> a_id ` set (accounts (cr_db ?c'))"
    using accounts_kept [OF s(1)] Cons.prems(3) t by (auto simp: cred_tables_eq)
  moreover have "credentials_ok ax ?c'" using Cons.prems google by (intro credentials_ok_service) simp_all
  ultimately show ?case using Cons.IH [of ?c'] Cons.prems account_secrets_tables [OF t, of aid] by simp
qed simp

theorem taken_over_only_through_the_mailbox_witness:
  "account_secrets ''a1'' (serve_auth demo_auth [demo_auth_request ConfirmReset [(''token'', JStr ''guess''), (''password'', JStr ''long-enough'')] []] demo_credentials)
   = ([Some demo_hash], [demo_identity])"
proof -
  let ?r = "demo_auth_request ConfirmReset [(''token'', JStr ''guess''), (''password'', JStr ''long-enough'')] []"
  have "presented_token ?r = Some ''guess''" by code_simp
  then have "\<not> redeems_mail demo_auth ?r demo_credentials ''a1''"
    by (auto simp: redeems_mail_def demo_credentials_def demo_auth_def hashSecret_def sample_ext_def)
  moreover have "\<not> knows_password demo_auth ?r demo_credentials ''a1''"
    by (simp add: knows_password_def signed_in_as_def readSession_def demo_auth_request_def)
  moreover have "''a1'' \<in> a_id ` set (accounts (cr_db demo_credentials))" "account_secrets ''a1'' demo_credentials = ([Some demo_hash], [demo_identity])"
    by (simp_all add: demo_credentials_def cr_db_def demo_account_def new_account_def account_secrets_def demo_identity_def
        password_identity_def of_password_def)
  ultimately show ?thesis
    using taken_over_only_through_the_mailbox [OF demo_credentials_ok _ demo_not_password_issuer, of "[?r]" "''a1''"] by (simp add: demo_fresh)
qed

section \<open>Where sessions come from\<close>

text \<open>The proof behind a sign-in: the password of a verified address, or the claims of Google for an identity of the account.\<close>

definition proves_password :: "auth_ext \<Rightarrow> auth_request \<Rightarrow> credentials \<Rightarrow> uuid \<Rightarrow> bool" where
  "proves_password ax r c aid \<longleftrightarrow> ar_verb r = LogIn
     \<and> (\<exists>i\<in>set (cr_identities c). \<exists>a\<in>set (accounts (cr_db c)). id_accountId i = aid \<and> a_id a = aid \<and> of_password i
          \<and> id_emailVerified i \<and> id_providerSubject i = ar_email r
          \<and> (\<exists>h. a_passwordHash a = Some h \<and> verifyPassword ax (body_text (ar_http r) ''password'') h = Some True))"

definition google_claims_of :: "auth_ext \<Rightarrow> auth_request \<Rightarrow> string \<Rightarrow> google_claims \<Rightarrow> bool" where
  "google_claims_of ax r issuer claims \<longleftrightarrow>
     (\<exists>cookies code verifier nonce. ar_verb r = GoogleCallback cookies \<and> oc_state cookies \<noteq> None
        \<and> map_of (rq_query (ar_http r)) ''state'' = oc_state cookies \<and> map_of (rq_query (ar_http r)) ''code'' = Some code
        \<and> oc_verifier cookies = Some verifier \<and> oc_nonce cookies = Some nonce \<and> ax_google ax = Some issuer
        \<and> ax_exchange ax code verifier nonce = Some claims)"

definition proves_google :: "auth_ext \<Rightarrow> auth_request \<Rightarrow> credentials \<Rightarrow> uuid \<Rightarrow> bool" where
  "proves_google ax r c aid \<longleftrightarrow>
     (\<exists>issuer claims. google_claims_of ax r issuer claims
        \<and> ((\<exists>i\<in>set (cr_identities c). id_providerIssuer i = issuer \<and> id_providerSubject i = gc_sub claims \<and> id_accountId i = aid)
           \<or> aid = we_uuid (ar_env r) 0
           \<or> gc_email_verified claims = Some True
             \<and> (\<exists>i\<in>set (cr_identities c). \<exists>e. gc_email claims = Some e \<and> of_password i \<and> id_emailVerified i
                  \<and> id_providerSubject i = normalizeEmail e \<and> id_accountId i = aid)))"

definition session_hashes :: "credentials \<Rightarrow> (string \<times> uuid) set" where
  "session_hashes c = (\<lambda>s. (s_tokenHash s, s_accountId s)) ` set (sessions (cr_db c))"

lemma hashes_same: "same_credentials c c0 \<Longrightarrow> session_hashes c0 = session_hashes c"
  by (simp add: same_credentials_def session_hashes_def)

lemma hashes_revoked:
  "(\<lambda>s. (s_tokenHash s, s_accountId s)) ` set (update_where P (\<lambda>s. s\<lparr>s_revokedAt := Some now\<rparr>) rows)
   = (\<lambda>s. (s_tokenHash s, s_accountId s)) ` set rows"
proof -
  have "map (\<lambda>s. (s_tokenHash s, s_accountId s)) (update_where P (\<lambda>s. s\<lparr>s_revokedAt := Some now\<rparr>) rows)
      = map (\<lambda>s. (s_tokenHash s, s_accountId s)) rows" by (simp add: map_update_where)
  from arg_cong [OF this, of set] show ?thesis by (simp only: set_map)
qed

lemma hashes_of_db: "sessions (cr_db c') = sessions (cr_db c) \<Longrightarrow> session_hashes c' = session_hashes c"
  by (simp add: session_hashes_def)

lemma hashes_revoke:
  "sessions (cr_db c') = update_where P (\<lambda>s. s\<lparr>s_revokedAt := Some now\<rparr>) (sessions (cr_db c)) \<Longrightarrow> session_hashes c' = session_hashes c"
  by (simp only: session_hashes_def hashes_revoked)

lemma hashes_tables [simp]:
  "session_hashes (c\<lparr>cr_identities := i\<rparr>) = session_hashes c" "session_hashes (c\<lparr>cr_resets := t\<rparr>) = session_hashes c"
  "session_hashes (c\<lparr>cr_verifications := t\<rparr>) = session_hashes c" "session_hashes (c\<lparr>cr_mails := m\<rparr>) = session_hashes c"
  "session_hashes (cr_audit rq aid actor ev md tg c) = session_hashes c"
  by (rule hashes_of_db; simp)+

lemma hashes_accounts [simp]:
  "session_hashes (insert_account a c) = session_hashes c" "session_hashes (update_account aid f c) = session_hashes c"
  "session_hashes (setAccountPassword aid h c) = session_hashes c"
  by (rule hashes_of_db; simp add: insert_account_def update_account_def setAccountPassword_def)+

lemma hashes_mail [simp]:
  "session_hashes (markPasswordIdentityVerified aid c) = session_hashes c"
  "session_hashes (beginEmailVerification ax env aid e c) = session_hashes c"
  by (simp_all add: markPasswordIdentityVerified_def beginEmailVerification_def Let_def)

lemma hashes_revocations [simp]:
  "session_hashes (on_cr_db (revokeSessionsForAccount aid now) c) = session_hashes c"
  "session_hashes (on_cr_db (revokeOtherSessions x aid tok now) c) = session_hashes c"
  "session_hashes (on_cr_db (revokeSessionByToken x token now) c) = session_hashes c"
  by (rule hashes_revoke, simp add: revokeSessionsForAccount_def revokeOtherSessions_def revokeSessionByToken_def)+

lemma hashes_end [simp]: "session_hashes (end_session ax env rq c) = session_hashes c"
  by (simp add: end_session_def split: option.split)

lemma hashes_insert: "insert_identity i c = Some c' \<Longrightarrow> session_hashes c' = session_hashes c"
  by (auto simp: insert_identity_Some)

lemma hashes_ensure: "ensurePasswordIdentityForAccount env aid c = Some c' \<Longrightarrow> session_hashes c' = session_hashes c"
  by (auto simp: ensurePasswordIdentityForAccount_def dest: hashes_insert split: option.splits bind_splits if_splits)

lemma hashes_create: "createPasswordAccount env n e h c = Some (c', aid) \<Longrightarrow> session_hashes c' = session_hashes c"
proof -
  assume "createPasswordAccount env n e h c = Some (c', aid)"
  then obtain i a where "insert_identity i (insert_account a c) = Some c'" by (auto simp: createPasswordAccount_def Let_def)
  from hashes_insert [OF this] show ?thesis by simp
qed

lemma hashes_started:
  assumes "start_session ax env profile aid c = (c', token)"
  shows "session_hashes c' = insert (hashSecret (ax_core ax) token, aid) (session_hashes c)"
proof -
  have "sessions (cr_db c') = sessions (cr_db c) @ [\<lparr>s_id = we_uuid env 3, s_accountId = aid,
      s_absoluteExpiresAt = we_now env + sessionAbsoluteMaxAgeSeconds * 1000, s_expiresAt = we_now env + sessionIdleMaxAgeSeconds * 1000,
      s_lastUsedAt = we_now env, s_revokedAt = None, s_tokenHash = hashSecret (ax_core ax) token\<rparr>]"
    using assms by (auto simp: start_session_def createSession_def Let_def)
  then show ?thesis by (simp add: session_hashes_def)
qed

lemma hashes_limited:
  assumes "\<And>w. w_db (fst (limit w)) = w_db w"
    and "\<And>c0. same_credentials c c0 \<Longrightarrow> session_hashes (fst (body c0)) \<subseteq> A" and "session_hashes c \<subseteq> A"
  shows "session_hashes (fst (cr_limited limit body c)) \<subseteq> A"
  by (cases rule: cr_limited_cases [OF assms(1), of body c, case_names refused run])
    (use assms(2,3) hashes_same in auto)

lemma hashes_kept:
  assumes "\<And>w. w_db (fst (limit w)) = w_db w" and "\<And>c0. session_hashes (fst (body c0)) = session_hashes c0"
  shows "session_hashes (fst (cr_limited limit body c)) = session_hashes c"
  by (cases rule: cr_limited_cases [OF assms(1), of body c, case_names refused run]) (simp_all add: assms(2) hashes_same)

lemma hashes_guarded:
  assumes "\<And>c0. same_credentials c c0 \<Longrightarrow> session_hashes (fst (body c0)) \<subseteq> A" and "session_hashes c \<subseteq> A"
  shows "session_hashes (fst (guarded_sign_in env rq action limit win body c)) \<subseteq> A"
  by (cases rule: guarded_cases [of env rq action limit win body c]) (use assms hashes_same in auto)

definition proven_hashes :: "auth_ext \<Rightarrow> auth_request \<Rightarrow> credentials \<Rightarrow> (string \<times> uuid) set" where
  "proven_hashes ax r c = session_hashes c \<union> {(h, aid). proves_password ax r c aid \<or> proves_google ax r c aid}"

lemma proven_same: "same_credentials c c0 \<Longrightarrow> proven_hashes ax r c0 = proven_hashes ax r c"
  by (simp add: proven_hashes_def session_hashes_def proves_password_def proves_google_def same_credentials_def cred_tables_eq)

lemma proven_old: "session_hashes c \<subseteq> proven_hashes ax r c"
  by (simp add: proven_hashes_def)

lemma sign_up_hashes: "session_hashes (fst (sign_up ax env rq c)) = session_hashes c"
proof -
  have "session_hashes (fst (create_user ax env rq email password c)) = session_hashes c" for email password
  proof (cases "hashPassword ax password (we_random env 1)")
    case (Some h)
    then show ?thesis
      by (cases "createPasswordAccount env (signup_name rq) email h c") (auto simp: create_user_def hashes_create)
  qed (simp add: create_user_def)
  then show ?thesis by (simp add: sign_up_def Let_def split: option.split)
qed

lemma request_reset_hashes: "session_hashes (fst (request_reset ax env rq e c)) = session_hashes c"
  by (simp add: request_reset_def Let_def split: option.split)

lemma confirm_reset_hashes: "session_hashes (fst (confirm_reset ax env rq c)) = session_hashes c"
proof -
  let ?token = "body_text rq ''token''"
  obtain rows claimed where m: "claim_mail_token (ax_core ax) ?token (we_now env) (cr_resets c) = (rows, claimed)" by force
  have e: "session_hashes c3 = session_hashes c"
    if "ensurePasswordIdentityForAccount env aid (setAccountPassword aid h (c\<lparr>cr_resets := rows\<rparr>)) = Some c3" for aid h c3
    using hashes_ensure [OF that] by simp
  show ?thesis using m e by (simp add: confirm_reset_def Let_def split: option.split)
qed

lemma verify_hashes: "session_hashes (fst (verify_email_page ax env rq c)) = session_hashes c"
  by (simp add: verify_email_page_def confirmEmailVerification_def Let_def split: option.split prod.split)

lemma change_hashes: "session_hashes (fst (change_password ax env rq aid c)) = session_hashes c"
  by (simp add: change_password_def Let_def split: option.split)

lemma log_in_hashes:
  assumes v: "ar_verb r = LogIn"
  shows "session_hashes (fst (log_in ax (ar_env r) (ar_http r) (ar_email r) (body_text (ar_http r) ''password'') c)) \<subseteq> proven_hashes ax r c"
    (is "session_hashes (fst ?run) \<subseteq> _")
proof -
  have resend: "session_hashes (resend_verification ax env aid e c) = session_hashes c" for env aid e
  proof -
    obtain w l where l: "limit_key env (resend_key aid) 3 (60 * 60 * 1000) (cr_world c) = (w, l)" by force
    then have "w_db w = w_db (cr_world c)" by (metis fst_conv limit_key_db)
    then have "session_hashes (c\<lparr>cr_world := w\<rparr>) = session_hashes c" by (simp add: session_hashes_def cr_db_def)
    then show ?thesis using l by (simp add: resend_verification_def split: option.split)
  qed
  show ?thesis
  proof (cases "session_hashes (fst ?run) = session_hashes c")
    case False
    then have "findAccountByPasswordEmail (ar_email r) c \<noteq> None"
      by (rule contrapos_nn) (simp add: log_in_def Let_def verifyPasswordWithDummyFallback_def)
    then obtain i a where fa: "findAccountByPasswordEmail (ar_email r) c = Some (i, a)" by auto
    have v2: "verifyPasswordWithDummyFallback ax (body_text (ar_http r) ''password'') (a_passwordHash a) = Some True" "id_emailVerified i"
      using False by (simp_all add: log_in_def fa Let_def resend split: if_splits option.splits)
    then obtain h where f: "findAccountByPasswordEmail (ar_email r) c = Some (i, a)" "a_passwordHash a = Some h" "id_emailVerified i"
        "verifyPassword ax (body_text (ar_http r) ''password'') h = Some True"
      using fa by (auto simp: verifyPasswordWithDummyFallback_def split: option.splits if_splits)
    have "proves_password ax r c (a_id a)"
      using v f found_password [OF f(1)] unfolding proves_password_def by (auto simp: normalize_idem)
    moreover have "fst ?run = fst (start_session ax (ar_env r) (password_profile (ar_email r) i a) (a_id a)
        (cr_audit (ar_http r) (a_id a) [(''accountId'', JStr (a_id a)), (''providerSubject'', JStr (ar_email r))] ''account.signed_in''
           (JObj [(''method'', JStr ''password'')]) (JObj [(''providerIssuer'', JStr passwordProviderIssuer)]) c))"
      using f False by (auto simp: log_in_def Let_def verifyPasswordWithDummyFallback_def prod.case_eq_if split: if_splits)
    ultimately show ?thesis using hashes_started [OF prod.collapse [symmetric]] by (auto simp: proven_hashes_def)
  qed (simp add: proven_old)
qed

lemma google_hashes:
  assumes g: "google_claims_of ax r issuer claims"
  shows "session_hashes (fst (google_sign_in ax (ar_env r) (ar_http r) returnTo issuer claims c)) \<subseteq> proven_hashes ax r c"
    (is "session_hashes (fst ?run) \<subseteq> _")
proof -
  have up: "session_hashes c1 = session_hashes c" if "upsertAccountFromIdentity (ar_env r) issuer claims c = Some (c1, aid, created)" for c1 aid created
    using that by (auto simp: upsertAccountFromIdentity_def dest: hashes_insert split: option.splits)
  have link: "session_hashes c1 = session_hashes c" if "linkIdentityToAccount (ar_env r) aid e issuer s c = Some c1" for c1 aid e s
    using that hashes_insert by (auto simp: linkIdentityToAccount_def)
  show ?thesis
  proof (cases "resolveGoogleSignIn (ar_env r) issuer claims c")
    case None
    then show ?thesis by (simp add: google_sign_in_def proven_old)
  next
    case (Some p)
    obtain c1 res where p: "p = (c1, res)" by force
    have c1: "session_hashes c1 = session_hashes c"
      using Some up link by (auto simp: p resolveGoogleSignIn_def Let_def split: if_splits option.splits prod.splits)
    show ?thesis
    proof (cases res)
      case (GoogleOk aid created)
      have "proves_google ax r c aid"
      proof -
        have "upsertAccountFromIdentity (ar_env r) issuer claims c = Some (c1, aid, created)
            \<or> gc_email_verified claims = Some True \<and> (\<exists>e i a. gc_email claims = Some e \<and> findAccountByPasswordEmail e c = Some (i, a)
                \<and> id_emailVerified i \<and> aid = a_id a)"
          using Some by (auto simp: p GoogleOk resolveGoogleSignIn_def Let_def split: if_splits option.splits prod.splits)
        then show ?thesis
        proof (elim disjE conjE exE)
          assume "upsertAccountFromIdentity (ar_env r) issuer claims c = Some (c1, aid, created)"
          then have "aid = we_uuid (ar_env r) 0 \<or> (\<exists>i. findIdentity issuer (gc_sub claims) c = Some i \<and> aid = id_accountId i)"
            by (auto simp: upsertAccountFromIdentity_def split: option.splits)
          then have "aid = we_uuid (ar_env r) 0
              \<or> (\<exists>i\<in>set (cr_identities c). id_providerIssuer i = issuer \<and> id_providerSubject i = gc_sub claims \<and> id_accountId i = aid)"
            by (auto simp: findIdentity_def dest!: select_one_Some)
          then show ?thesis using g unfolding proves_google_def by blast
        next
          fix e i a
          assume "gc_email_verified claims = Some True" "gc_email claims = Some e" "findAccountByPasswordEmail e c = Some (i, a)"
            "id_emailVerified i" "aid = a_id a"
          then show ?thesis using g found_password(1,3,4,5) unfolding proves_google_def by metis
        qed
      qed
      moreover have "fst ?run = c \<or> fst ?run = fst (start_session ax (ar_env r) (google_profile issuer claims aid) aid
          (cr_audit (ar_http r) aid [(''accountId'', JStr aid), (''providerSubject'', JStr (gc_sub claims))] ''account.signed_in''
             (google_audit claims) (JObj [(''providerIssuer'', JStr issuer)]) c1))"
        using Some by (simp add: p GoogleOk google_sign_in_def Let_def prod.case_eq_if)
      ultimately show ?thesis using hashes_started [OF prod.collapse [symmetric]] c1 by (auto simp: proven_hashes_def)
    qed (use Some c1 in \<open>simp_all add: p google_sign_in_def proven_old\<close>)
  qed
qed

lemma google_callback_hashes:
  assumes "ar_verb r = GoogleCallback cookies"
  shows "session_hashes (fst (google_callback ax (ar_env r) cookies (ar_http r) c)) \<subseteq> proven_hashes ax r c"
proof (cases "fst (google_callback ax (ar_env r) cookies (ar_http r) c) = c")
  case False
  let ?q = "map_of (rq_query (ar_http r))"
  obtain code state nonce verifier where q: "?q ''code'' = Some code" "oc_state cookies = Some state" "oc_nonce cookies = Some nonce"
      "oc_verifier cookies = Some verifier" "?q ''state'' = oc_state cookies"
    using False by (auto simp: google_callback_def Let_def split: if_splits option.splits)
  obtain issuer claims where g: "ax_google ax = Some issuer" "ax_exchange ax code verifier nonce = Some claims"
    using False q by (auto simp: google_callback_def Let_def split: if_splits option.splits)
  have "google_claims_of ax r issuer claims" using assms q g by (auto simp: google_claims_of_def)
  from google_hashes [OF this, of "safeAuthReturnPath ax (ar_env r) (oc_returnTo cookies)" c] show ?thesis using False q g
    by (auto simp: google_callback_def Let_def split: if_splits)
qed (simp add: proven_old)

lemma service_hashes: "session_hashes (fst (auth_service ax r c)) \<subseteq> proven_hashes ax r c"
proof (cases "ar_verb r")
  case SignUp
  have "session_hashes (fst (signup_route ax (ar_env r) (ar_http r) c)) \<subseteq> proven_hashes ax r c"
    unfolding signup_route_def by (rule hashes_guarded [OF _ proven_old]) (use hashes_same proven_old in \<open>simp add: sign_up_hashes\<close>)
  then show ?thesis by (simp add: auth_service_def Let_def SignUp)
next
  case LogIn
  have run: "session_hashes (fst (log_in ax (ar_env r) (ar_http r) (ar_email r) (body_text (ar_http r) ''password'') c0)) \<subseteq> proven_hashes ax r c"
    if "same_credentials c c0" for c0
    using log_in_hashes [OF LogIn, of ax c0] proven_same [OF that] by simp
  have "session_hashes (fst (login_route ax (ar_env r) (ar_http r) c)) \<subseteq> proven_hashes ax r c"
    unfolding login_route_def Let_def
  proof (rule hashes_guarded [OF _ proven_old])
    fix c0 assume s: "same_credentials c c0"
    have old: "session_hashes c0 \<subseteq> proven_hashes ax r c" using hashes_same [OF s] proven_old by simp
    have "session_hashes (fst (cr_limited (identityRateLimitResponse (ar_env r) (ar_email r) ''auth:login-email'' 20 (15 * 60 * 1000))
        (log_in ax (ar_env r) (ar_http r) (ar_email r) (body_text (ar_http r) ''password'')) c0)) \<subseteq> proven_hashes ax r c"
    proof (rule hashes_limited [OF _ _ old])
      fix c1 assume "same_credentials c0 c1"
      then have "same_credentials c c1" using s by (simp add: same_credentials_def)
      then show "session_hashes (fst (log_in ax (ar_env r) (ar_http r) (ar_email r) (body_text (ar_http r) ''password'') c1)) \<subseteq> proven_hashes ax r c"
        by (rule run)
    qed simp
    then show "session_hashes (fst (if ar_email r = [] \<or> body_text (ar_http r) ''password'' = [] then (c0, fail ''invalid_request'' 400)
        else cr_limited (identityRateLimitResponse (ar_env r) (ar_email r) ''auth:login-email'' 20 (15 * 60 * 1000))
          (log_in ax (ar_env r) (ar_http r) (ar_email r) (body_text (ar_http r) ''password'')) c0)) \<subseteq> proven_hashes ax r c"
      using old by simp
  qed
  then show ?thesis by (simp add: auth_service_def Let_def LogIn)
next
  case RequestReset
  have "session_hashes (fst (reset_request_route ax (ar_env r) (ar_http r) c)) \<subseteq> proven_hashes ax r c"
    unfolding reset_request_route_def Let_def
    by (rule hashes_guarded [OF _ proven_old]) (use hashes_same proven_old in \<open>simp add: hashes_kept request_reset_hashes\<close>)
  then show ?thesis by (simp add: auth_service_def Let_def RequestReset)
next
  case ConfirmReset
  have "session_hashes (fst (reset_confirm_route ax (ar_env r) (ar_http r) c)) \<subseteq> proven_hashes ax r c"
    unfolding reset_confirm_route_def by (rule hashes_guarded [OF _ proven_old]) (use hashes_same proven_old in \<open>simp add: confirm_reset_hashes\<close>)
  then show ?thesis by (simp add: auth_service_def Let_def ConfirmReset)
next
  case VerifyEmail
  then show ?thesis using verify_hashes [of ax "ar_env r" "ar_http r" c] proven_old by (simp add: auth_service_def Let_def prod.case_eq_if)
next
  case ChangePassword
  have "session_hashes (fst (password_route ax (ar_env r) (ar_http r) c)) \<subseteq> proven_hashes ax r c"
    using proven_old by (simp add: password_route_def hashes_kept change_hashes split: option.split)
  then show ?thesis by (simp add: auth_service_def Let_def ChangePassword)
next
  case (GoogleCallback cookies)
  then show ?thesis using google_callback_hashes [OF GoogleCallback] by (simp add: auth_service_def Let_def)
next
  case LogOut
  then show ?thesis using proven_old by (simp add: auth_service_def Let_def logout_route_def split: option.split)
next
  case SiteLogOut
  have "session_hashes (fst (site_logout_route ax (ar_env r) (ar_http r) c)) \<subseteq> proven_hashes ax r c"
    unfolding site_logout_route_def Let_def
    by (rule hashes_limited [OF _ _ proven_old]) (use hashes_same proven_old in \<open>simp_all\<close>)
  then show ?thesis by (simp add: auth_service_def Let_def SiteLogOut)
qed

text \<open>
  C7.  A session starts only from a proof.  A session row with a new token appears only when a log-in gave the password
  that verifies against the hash of its account, under the verified address of its password identity; or when a Google
  callback carried the state of its own cookies and its code was exchanged for claims whose subject is linked to the
  account, or whose verified address is the verified address of the account, or which created it.
\<close>

theorem sessions_start_from_proofs:
  assumes "s \<in> set (sessions (cr_db (fst (auth_service ax r c))))"
    and "s_tokenHash s \<notin> s_tokenHash ` set (sessions (cr_db c))"
  shows "proves_password ax r c (s_accountId s) \<or> proves_google ax r c (s_accountId s)"
proof -
  have "(s_tokenHash s, s_accountId s) \<in> session_hashes (fst (auth_service ax r c))"
    using assms(1) unfolding session_hashes_def by (rule imageI)
  then have "(s_tokenHash s, s_accountId s) \<in> proven_hashes ax r c" using service_hashes by blast
  moreover have "(s_tokenHash s, s_accountId s) \<notin> session_hashes c" using assms(2) by (auto simp: session_hashes_def)
  ultimately show ?thesis by (simp add: proven_hashes_def)
qed

theorem sessions_start_from_proofs_witness:
  "\<exists>cookies c'. auth_service demo_auth (demo_auth_request (GoogleCallback cookies) [] [(''code'', ''c''), (''state'', ''st'')]) demo_credentials
       = (c', RedirectSignedIn ''/account'' ''u2'')
     \<and> proves_google demo_auth (demo_auth_request (GoogleCallback cookies) [] [(''code'', ''c''), (''state'', ''st'')]) demo_credentials ''a1''"
proof -
  let ?k = "\<lparr>oc_state = Some ''st'', oc_nonce = Some ''n'', oc_verifier = Some ''v'', oc_returnTo = None\<rparr>"
  let ?r = "demo_auth_request (GoogleCallback ?k) [] [(''code'', ''c''), (''state'', ''st'')]"
  obtain c' reply where run: "auth_service demo_auth ?r demo_credentials = (c', reply)" by force
  have "snd (auth_service demo_auth ?r demo_credentials) = RedirectSignedIn ''/account'' ''u2''" by code_simp
  then have reply: "reply = RedirectSignedIn ''/account'' ''u2''" using run by simp
  let ?s = "\<lparr>s_id = ''u3'', s_accountId = ''a1'', s_absoluteExpiresAt = 9 + sessionAbsoluteMaxAgeSeconds * 1000,
      s_expiresAt = 9 + sessionIdleMaxAgeSeconds * 1000, s_lastUsedAt = 9, s_revokedAt = None, s_tokenHash = hashSecret sample_ext ''u2''\<rparr>"
  have "sessions (cr_db (fst (auth_service demo_auth ?r demo_credentials))) = [?s]" by code_simp
  then have s: "?s \<in> set (sessions (cr_db (fst (auth_service demo_auth ?r demo_credentials))))" by simp
  have new: "s_tokenHash ?s \<notin> s_tokenHash ` set (sessions (cr_db demo_credentials))" by (simp add: demo_credentials_def cr_db_def empty_db_def)
  have "\<not> proves_password demo_auth ?r demo_credentials ''a1''" by (simp add: proves_password_def demo_auth_request_def)
  then have "proves_google demo_auth ?r demo_credentials ''a1''" using sessions_start_from_proofs [OF s new] by simp
  then show ?thesis using run reply by blast
qed

end
