(* ===== verification/AccountResets.thy ===== *)
theory AccountResets imports AccountDemo begin

text \<open>
  What a password reset does, what a stored password hash is worth, and what the answers of the sign-in routes tell
  about who is registered.
\<close>

section \<open>A reset\<close>

lemma ensure_keeps:
  assumes "ensurePasswordIdentityForAccount env aid c = Some c'"
  shows "cr_db c' = cr_db c" "cr_resets c' = cr_resets c"
  using assms by (auto simp: ensurePasswordIdentityForAccount_def insert_identity_Some split: option.splits bind_splits if_splits)

text \<open>What the claimed token of a successful reset leaves behind.\<close>

definition evicted :: "auth_ext \<Rightarrow> auth_request \<Rightarrow> mail_token \<Rightarrow> credentials \<Rightarrow> credentials \<Rightarrow> bool" where
  "evicted ax r t c c' \<longleftrightarrow>
     (\<forall>s\<in>set (sessions (cr_db c')). s_accountId s = mt_accountId t \<longrightarrow> s_revokedAt s \<noteq> None)
     \<and> filter (\<lambda>s. s_accountId s \<noteq> mt_accountId t) (sessions (cr_db c')) = filter (\<lambda>s. s_accountId s \<noteq> mt_accountId t) (sessions (cr_db c))
     \<and> (\<forall>u\<in>set (cr_resets c'). mt_tokenHash u = mt_tokenHash t \<longrightarrow> mt_usedAt u \<noteq> None)
     \<and> (\<exists>h. hashPassword ax (body_text (ar_http r) ''password'') (we_random (ar_env r) 1) = Some h
          \<and> accounts (cr_db c') = update_where (\<lambda>a. a_id a = mt_accountId t) (\<lambda>a. a\<lparr>a_passwordHash := Some h\<rparr>) (accounts (cr_db c)))"

lemma confirm_reset_evicts:
  assumes "confirm_reset ax (ar_env r) (ar_http r) c = (c', Plain reply)" and "rs_status reply = 200"
  shows "\<exists>t\<in>set (cr_resets c). mt_tokenHash t = hashSecret (ax_core ax) (body_text (ar_http r) ''token'') \<and> mt_usedAt t = None
           \<and> we_now (ar_env r) < mt_expiresAt t \<and> evicted ax r t c c'"
proof -
  let ?token = "body_text (ar_http r) ''token''" and ?now = "we_now (ar_env r)"
  obtain rows claimed where m: "claim_mail_token (ax_core ax) ?token ?now (cr_resets c) = (rows, claimed)" by force
  from assms m obtain t h c3 where t: "claimed = Some t" "\<not> mt_expiresAt t \<le> ?now"
      and h: "hashPassword ax (body_text (ar_http r) ''password'') (we_random (ar_env r) 1) = Some h"
      and c3: "ensurePasswordIdentityForAccount (ar_env r) (mt_accountId t) (setAccountPassword (mt_accountId t) h (c\<lparr>cr_resets := rows\<rparr>)) = Some c3"
      and c': "c' = cr_audit (ar_http r) (mt_accountId t) [(''accountId'', JStr (mt_accountId t))] ''account.password_reset'' JNull JNull
            (on_cr_db (revokeSessionsForAccount (mt_accountId t) ?now) c3)"
    by (auto simp: confirm_reset_def fail_def crash_def server_error_def Let_def split: if_splits option.splits)
  have row: "t \<in> set (cr_resets c)" "mt_tokenHash t = hashSecret (ax_core ax) ?token" "mt_usedAt t = None"
    using m t(1) by (auto simp: claim_mail_token_def Let_def dest!: select_one_Some)
  have spent: "mt_usedAt u \<noteq> None" if "u \<in> set rows" "mt_tokenHash u = mt_tokenHash t" for u
    using m that row(2) by (auto simp: claim_mail_token_def Let_def dest!: in_update_whereD)
  note k = ensure_keeps [OF c3]
  have s: "sessions (cr_db c') = update_where (\<lambda>s. s_accountId s = mt_accountId t \<and> s_revokedAt s = None)
      (\<lambda>s. s\<lparr>s_revokedAt := Some ?now\<rparr>) (sessions (cr_db c))"
    by (simp add: c' k revokeSessionsForAccount_def setAccountPassword_def update_account_def)
  have "cred_tables c' = cred_tables c3" by (simp add: c')
  then have "cr_resets c' = rows" "accounts (cr_db c') = update_where (\<lambda>a. a_id a = mt_accountId t) (\<lambda>a. a\<lparr>a_passwordHash := Some h\<rparr>) (accounts (cr_db c))"
    by (simp_all add: cred_tables_eq k setAccountPassword_def update_account_def)
  moreover have "s_revokedAt u \<noteq> None" if "u \<in> set (sessions (cr_db c'))" "s_accountId u = mt_accountId t" for u
    using that unfolding s by (auto dest!: in_update_whereD)
  moreover have "filter (\<lambda>s. s_accountId s \<noteq> mt_accountId t) (sessions (cr_db c')) = filter (\<lambda>s. s_accountId s \<noteq> mt_accountId t) (sessions (cr_db c))"
    unfolding s by (rule filter_update_where_other) simp
  ultimately have "evicted ax r t c c'" using spent h by (auto simp: evicted_def)
  then show ?thesis using row t(2) by auto
qed

text \<open>
  C18.  A reset evicts.  When a confirmation is answered with 200, its token was stored, unused and unexpired; the account
  of the token has the new password; every one of its sessions is revoked, so whoever was signed in is out; no session of
  another account is touched; and every stored row with the hash of the token is spent, so it works once.
\<close>

theorem reset_evicts:
  assumes "ar_verb r = ConfirmReset" and "auth_service ax r c = (c', Plain reply)" and "rs_status reply = 200"
  shows "\<exists>t\<in>set (cr_resets c). mt_tokenHash t = hashSecret (ax_core ax) (body_text (ar_http r) ''token'') \<and> mt_usedAt t = None
           \<and> we_now (ar_env r) < mt_expiresAt t \<and> evicted ax r t c c'"
proof -
  have run: "guarded_sign_in (ar_env r) (ar_http r) ''auth:reset-confirm'' 10 (15 * 60 * 1000) (confirm_reset ax (ar_env r) (ar_http r)) c = (c', Plain reply)"
    using assms(1,2) by (simp add: auth_service_def Let_def reset_confirm_route_def)
  obtain c0 where c0: "same_credentials c c0" "confirm_reset ax (ar_env r) (ar_http r) c0 = (c', Plain reply)"
  proof (cases "csrfResponse (ar_env r) (ar_http r)")
    case (Some x)
    then have "rs_status reply = 403" using run by (auto simp: guarded_sign_in_def csrfResponse_def split: option.splits if_splits)
    then show ?thesis using assms(3) by simp
  next
    case None
    obtain w l where l: "rateLimitResponse (ar_env r) (ar_http r) ''auth:reset-confirm'' 10 (15 * 60 * 1000) (cr_world c) = (w, l)" by force
    then have w: "w_db w = w_db (cr_world c)" by (metis fst_conv rate_limit_keeps)
    show ?thesis
    proof (cases l)
      case n: None
      then have "confirm_reset ax (ar_env r) (ar_http r) (c\<lparr>cr_world := w\<rparr>) = (c', Plain reply)"
        using run None l by (simp add: guarded_sign_in_def cr_limited_def)
      then show ?thesis using w by (intro that [of "c\<lparr>cr_world := w\<rparr>"]) (simp_all add: same_credentials_def cr_db_def cred_tables_def)
    next
      case (Some x)
      then have "rs_status reply = 429" using run None l
        by (auto simp: guarded_sign_in_def cr_limited_def rateLimitResponse_def limit_key_def tooManyRequests_def Let_def split: prod.splits if_splits)
      then show ?thesis using assms(3) by simp
    qed
  qed
  have "cr_resets c0 = cr_resets c" "evicted ax r t c0 c' = evicted ax r t c c'" for t
    using c0(1) by (simp_all add: same_credentials_def cred_tables_eq evicted_def)
  then show ?thesis using confirm_reset_evicts [OF c0(2) assms(3)] by simp
qed

theorem reset_evicts_witness:
  "\<exists>c'. auth_service demo_auth (demo_auth_request ConfirmReset [(''token'', JStr ''frpr_t''), (''password'', JStr ''new-secret'')] []) demo_credentials
          = (c', Plain (jsonOk [(''ok'', JBool True)]))
     \<and> (\<exists>t\<in>set (cr_resets demo_credentials). mt_tokenHash t = hashSecret sample_ext ''frpr_t'' \<and> mt_usedAt t = None \<and> 9 < mt_expiresAt t
           \<and> evicted demo_auth (demo_auth_request ConfirmReset [(''token'', JStr ''frpr_t''), (''password'', JStr ''new-secret'')] []) t demo_credentials c')"
proof -
  let ?r = "demo_auth_request ConfirmReset [(''token'', JStr ''frpr_t''), (''password'', JStr ''new-secret'')] []"
  obtain c' reply where run: "auth_service demo_auth ?r demo_credentials = (c', reply)" by force
  have "snd (auth_service demo_auth ?r demo_credentials) = Plain (jsonOk [(''ok'', JBool True)])" by code_simp
  then have reply: "reply = Plain (jsonOk [(''ok'', JBool True)])" using run by simp
  have v: "ar_verb ?r = ConfirmReset" "body_text (ar_http ?r) ''token'' = ''frpr_t''" "we_now (ar_env ?r) = 9"
    by code_simp+
  have x: "ax_core demo_auth = sample_ext" by (simp add: demo_auth_def)
  from reset_evicts [OF v(1) run [unfolded reply]] show ?thesis unfolding v x using run reply by simp
qed

section \<open>Passwords\<close>

text \<open>What is relied on: base64url decodes what it encoded, with characters of its alphabet, and a derived key has the length asked for.\<close>

definition scrypt_laws :: "auth_ext \<Rightarrow> bool" where
  "scrypt_laws ax \<longleftrightarrow>
     (\<forall>b. ax_decode ax (ax_encode ax b) = b) \<and> (\<forall>b. CHR ''$'' \<notin> set (ax_encode ax b)) \<and> (\<forall>b. b \<noteq> [] \<longrightarrow> ax_encode ax b \<noteq> [])
     \<and> (\<forall>p s n r q k. ax_scrypt ax p s n r q = Some k \<longrightarrow> length k = keyLength)"

lemma scrypt_parameters:
  "js_integer (dec_text scryptN) = Some scryptN" "js_integer (dec_text scryptR) = Some scryptR" "js_integer (dec_text scryptP) = Some scryptP"
  "CHR ''$'' \<notin> set (dec_text scryptN)" "CHR ''$'' \<notin> set (dec_text scryptR)" "CHR ''$'' \<notin> set (dec_text scryptP)"
  "dec_text scryptN \<noteq> []" "dec_text scryptR \<noteq> []" "dec_text scryptP \<noteq> []"
  by code_simp+

text \<open>
  A stored password hash accepts exactly the passwords that derive the same key: for every password whose key
  \<open>scrypt\<close> derives under the salt of the hash, verifying tells whether the keys are equal, so the password it was made
  from is accepted.
\<close>

lemma password_hash_verifies:
  assumes laws: "scrypt_laws ax" and salt: "salt \<noteq> []" and h: "hashPassword ax password salt = Some stored"
  shows "verifyPassword ax candidate stored
       = map_option (\<lambda>k. ax_scrypt ax password salt scryptN scryptR scryptP = Some k) (ax_scrypt ax candidate salt scryptN scryptR scryptP)"
proof -
  obtain k where k: "ax_scrypt ax password salt scryptN scryptR scryptP = Some k"
      and stored: "stored = js_join ''$'' [''scrypt'', dec_text scryptN, dec_text scryptR, dec_text scryptP, ax_encode ax salt, ax_encode ax k]"
    using h by (auto simp: hashPassword_def)
  have len: "length k = keyLength" using laws k by (auto simp: scrypt_laws_def)
  then have "k \<noteq> []" by (auto simp: keyLength_def)
  then have e: "ax_encode ax k \<noteq> []" "ax_encode ax salt \<noteq> []" "CHR ''$'' \<notin> set (ax_encode ax k)" "CHR ''$'' \<notin> set (ax_encode ax salt)"
    using laws salt by (auto simp: scrypt_laws_def)
  have split: "js_split (CHR ''$'') stored = [''scrypt'', dec_text scryptN, dec_text scryptR, dec_text scryptP, ax_encode ax salt, ax_encode ax k]"
    unfolding stored using e scrypt_parameters(4-6) by (intro js_split_join) auto
  have dec: "ax_decode ax (ax_encode ax k) = k" "ax_decode ax (ax_encode ax salt) = salt" using laws by (simp_all add: scrypt_laws_def)
  show ?thesis unfolding verifyPassword_def split using e scrypt_parameters(1-3,7-9) k len
    by (simp add: dec Let_def) (metis)
qed

lemma password_hash_example:
  "verifyPassword demo_auth ''secret-pass'' demo_hash = Some True \<and> verifyPassword demo_auth ''secret-word'' demo_hash = Some False"
proof -
  have laws: "scrypt_laws demo_auth" using demo_scrypt_laws by (simp add: scrypt_laws_def)
  have h: "hashPassword demo_auth ''secret-pass'' ''r1'' = Some demo_hash"
    by (simp add: demo_hash_def hashPassword_def demo_auth_def demo_scrypt_def)
  have k: "ax_scrypt demo_auth ''secret-pass'' ''r1'' scryptN scryptR scryptP = Some (''secret-pass'' @ replicate 53 (CHR ''-''))"
    "ax_scrypt demo_auth ''secret-word'' ''r1'' scryptN scryptR scryptP = Some (''secret-word'' @ replicate 53 (CHR ''-''))"
    by (simp_all add: demo_auth_def demo_scrypt_def keyLength_def take_replicate)
  show ?thesis
    using password_hash_verifies [OF laws _ h, of "''secret-pass''"] password_hash_verifies [OF laws _ h, of "''secret-word''"] k by simp
qed

section \<open>Answers\<close>

text \<open>
  A reset request does not tell who is registered: under any two contents of the identity table, with the limiter
  and the rest the same, it has the same answer.
\<close>

lemma reset_request_tells_nothing:
  "snd (auth_service ax (r\<lparr>ar_verb := RequestReset\<rparr>) (c\<lparr>cr_identities := ids\<rparr>)) = snd (auth_service ax (r\<lparr>ar_verb := RequestReset\<rparr>) c)"
proof -
  have reply: "snd (request_reset ax env rq e c1) = snd (request_reset ax env rq e c2)" for env rq e c1 c2
    by (simp add: request_reset_def Let_def)
  show ?thesis
    by (auto simp: auth_service_def reset_request_route_def guarded_sign_in_def cr_limited_def Let_def reply
        split: option.split prod.split)
qed

end
