(* ===== verification/LoginCodes.thy ===== *)
theory LoginCodes imports AccountSteps begin

text \<open>
  Signing in to a linked installation with the cloud account: \<open>lib/frameos-login.ts\<close> and the routes under
  \<open>api/frameos/login\<close>.  The installation starts a login and gets a signed request; the browser of the owner turns it
  into a code; the installation redeems the code for the claims of the owner.
\<close>

section \<open>Environment\<close>

text \<open>
  Outside the repository, beside the sign-in code: the signature of a login request (\<open>None\<close> when it does not verify or
  has expired), a URL without its fragment, and a URL with query parameters set; a path is relative to the base URL.
\<close>

record login_ext =
  lx_auth :: auth_ext
  lx_sign :: "fields \<Rightarrow> time \<Rightarrow> string"
  lx_verify :: "string \<Rightarrow> time \<Rightarrow> fields option"
  lx_strip :: "string \<Rightarrow> string"
  lx_set :: "string \<Rightarrow> (string \<times> string) list \<Rightarrow> string"

abbreviation lx_core :: "login_ext \<Rightarrow> ext" where
  "lx_core lx \<equiv> ax_core (lx_auth lx)"

section \<open>The signed request\<close>

definition loginRequestType :: string where "loginRequestType = ''frameos_login_request''"
definition loginCodeExpiresInSeconds :: int where "loginCodeExpiresInSeconds = 2 * 60"

record login_request =
  lr_intent :: string
  lr_linkedClientId :: string
  lr_redirectTo :: "string option"
  lr_redirectUri :: string
  lr_state :: string

definition safeFrameosRedirectUri :: "login_ext \<Rightarrow> json option \<Rightarrow> string option" where
  "safeFrameosRedirectUri lx value =
     (case value of
        Some (JStr v) \<Rightarrow>
          (case parse_url (lx_core lx) v of
             None \<Rightarrow> None
           | Some u \<Rightarrow>
               if u_protocol u \<notin> {''http:'', ''https:''} \<or> u_username u \<noteq> [] \<or> u_password u \<noteq> [] then None
               else Some (lx_strip lx v))
      | _ \<Rightarrow> None)"

definition createFrameosLoginRequestToken :: "login_ext \<Rightarrow> login_request \<Rightarrow> time \<Rightarrow> string" where
  "createFrameosLoginRequestToken lx lr now =
     lx_sign lx
       ([(''frameos_type'', JStr loginRequestType), (''intent'', JStr (lr_intent lr)), (''linked_client_id'', JStr (lr_linkedClientId lr)),
         (''redirect_uri'', JStr (lr_redirectUri lr)), (''state'', JStr (lr_state lr))]
        @ (case lr_redirectTo lr of None \<Rightarrow> [] | Some t \<Rightarrow> if t = [] then [] else [(''redirect_to'', JStr t)]))
       now"

definition stringClaim :: "fields \<Rightarrow> string \<Rightarrow> string option" where
  "stringClaim payload k =
     (case map_of payload k of
        Some (JStr s) \<Rightarrow> if js_trim s = [] then None else Some (js_trim s)
      | _ \<Rightarrow> None)"

definition verifyFrameosLoginRequestToken :: "login_ext \<Rightarrow> string \<Rightarrow> time \<Rightarrow> login_request option" where
  "verifyFrameosLoginRequestToken lx token now =
     (case lx_verify lx token now of
        None \<Rightarrow> None
      | Some payload \<Rightarrow>
          if map_of payload ''frameos_type'' \<noteq> Some (JStr loginRequestType) then None
          else
            (case (stringClaim payload ''linked_client_id'', safeFrameosRedirectUri lx (map_of payload ''redirect_uri''),
                   stringClaim payload ''state'') of
               (Some clientId, Some redirectUri, Some state) \<Rightarrow>
                 Some \<lparr>lr_intent = (if map_of payload ''intent'' = Some (JStr ''signup'') then ''signup'' else ''login''),
                       lr_linkedClientId = clientId, lr_redirectTo = stringClaim payload ''redirect_to'',
                       lr_redirectUri = redirectUri, lr_state = state\<rparr>
             | _ \<Rightarrow> None))"

section \<open>The routes\<close>

text \<open>The guards of the installation's two routes: limit, database, link token, scope.\<close>

definition login_client_route ::
  "login_ext \<Rightarrow> web_env \<Rightarrow> web_request \<Rightarrow> string \<Rightarrow> int \<Rightarrow> (linked_client \<Rightarrow> credentials \<Rightarrow> credentials \<times> auth_reply)
   \<Rightarrow> credentials \<Rightarrow> credentials \<times> auth_reply" where
  "login_client_route lx env rq action limit body =
     cr_limited (rateLimitResponse env rq action limit (15 * 60 * 1000))
       (\<lambda>c. case requireDatabase env of
          Some r \<Rightarrow> (c, Plain r)
        | None \<Rightarrow>
            (let (d, client) = authenticateLinkedClient (lx_core lx) (rq_authorization rq) (we_now env) (cr_db c);
                 c1 = on_cr_db (\<lambda>_. d) c
             in case client of
                  None \<Rightarrow> (c1, fail ''invalid_link_token'' 401)
                | Some l \<Rightarrow>
                    if \<not> linkedClientHasScope l ''auth:login'' then (c1, fail ''insufficient_scope'' 403) else body l c1))"

definition redirectMatchesLinkedBackend :: "login_ext \<Rightarrow> string \<Rightarrow> string option \<Rightarrow> bool" where
  "redirectMatchesLinkedBackend lx redirectUri localOrigin \<longleftrightarrow>
     (case localOrigin of
        None \<Rightarrow> False
      | Some origin \<Rightarrow>
          origin \<noteq> []
          \<and> (case (parse_url (lx_core lx) redirectUri, parse_url (lx_core lx) origin) of
               (Some u, Some v) \<Rightarrow> u_origin u = u_origin v
             | _ \<Rightarrow> False))"

definition start_login :: "login_ext \<Rightarrow> web_env \<Rightarrow> web_request \<Rightarrow> linked_client \<Rightarrow> credentials \<Rightarrow> credentials \<times> auth_reply" where
  "start_login lx env rq l c =
     (let body = readJsonObject rq
      in case safeFrameosRedirectUri lx (map_of body ''redirect_uri'') of
           None \<Rightarrow> (c, fail ''invalid_redirect_uri'' 400)
         | Some redirectUri \<Rightarrow>
             if \<not> redirectMatchesLinkedBackend lx redirectUri (l_localOrigin l) then (c, fail ''invalid_redirect_uri'' 400)
             else
               (let state = (case map_of body ''state'' of Some (JStr s) \<Rightarrow> js_trim s | _ \<Rightarrow> [])
                in if state = [] then (c, fail ''invalid_state'' 400)
                   else
                     (let token = createFrameosLoginRequestToken lx
                            \<lparr>lr_intent = (if map_of body ''intent'' = Some (JStr ''signup'') then ''signup'' else ''login''),
                             lr_linkedClientId = l_id l,
                             lr_redirectTo = (case map_of body ''redirect_to'' of Some (JStr t) \<Rightarrow> Some t | _ \<Rightarrow> None),
                             lr_redirectUri = redirectUri, lr_state = state\<rparr> (we_now env)
                      in (c, Plain (jsonOk [(''authorization_url'', JStr (lx_set lx ''/api/frameos/login/authorize'' [(''request'', token)])),
                                            (''expires_in'', num_of_int (10 * 60))])))))"

definition start_login_route :: "login_ext \<Rightarrow> web_env \<Rightarrow> web_request \<Rightarrow> credentials \<Rightarrow> credentials \<times> auth_reply" where
  "start_login_route lx env rq = login_client_route lx env rq ''frameos-login:start'' 60 (start_login lx env rq)"

definition redirectWithError :: "login_ext \<Rightarrow> login_request \<Rightarrow> string \<Rightarrow> auth_reply" where
  "redirectWithError lx lr error = Redirect (lx_set lx (lr_redirectUri lr) [(''error'', error), (''state'', lr_state lr)])"

text \<open>
  The code for a client and an account; the insert throws when the hash is taken.  The client's id in a request is the id of
  a row, as only \<open>start_login\<close> signs requests.
\<close>

definition mint_code :: "login_ext \<Rightarrow> web_env \<Rightarrow> login_request \<Rightarrow> uuid \<Rightarrow> linked_client \<Rightarrow> identity \<Rightarrow> credentials \<Rightarrow> credentials \<times> auth_reply" where
  "mint_code lx env lr aid l i c =
     (let code = createSecretToken ''fc_login'' (we_random env 0); codeHash = hashSecret (lx_core lx) code
      in if list_ex (\<lambda>r. lc_codeHash r = codeHash) (loginCodes (cr_db c)) then (c, crash)
         else
           (on_cr_db (\<lambda>d. d\<lparr>loginCodes := loginCodes d @ [\<lparr>lc_id = we_uuid env 0, lc_accountId = aid, lc_codeHash = codeHash,
                lc_expiresAt = we_now env + loginCodeExpiresInSeconds * 1000, lc_identityId = Some (id_id i),
                lc_linkedClientId = l_id l, lc_redeemedAt = None\<rparr>]\<rparr>) c,
            Redirect (lx_set lx (lr_redirectUri lr) [(''code'', code), (''state'', lr_state lr)])))"

definition session_identity :: "fields \<Rightarrow> uuid \<Rightarrow> credentials \<Rightarrow> identity option" where
  "session_identity profile aid c =
     select_one (\<lambda>i. id_accountId i = aid \<and> map_of profile ''providerIssuer'' = Some (JStr (id_providerIssuer i))
                    \<and> map_of profile ''providerSubject'' = Some (JStr (id_providerSubject i))) (cr_identities c)"

definition authorize_account ::
  "login_ext \<Rightarrow> web_env \<Rightarrow> login_request \<Rightarrow> fields \<Rightarrow> uuid \<Rightarrow> credentials \<Rightarrow> credentials \<times> auth_reply" where
  "authorize_account lx env lr profile aid c =
     (if \<not> we_hasDatabase env then (c, redirectWithError lx lr ''provider_unavailable'')
      else
        (case select_one (\<lambda>l. l_id l = js_lower (lr_linkedClientId lr) \<and> l_accountId l = aid \<and> l_revokedAt l = None) (linkedClients (cr_db c)) of
           None \<Rightarrow> (c, redirectWithError lx lr ''linked_client_required'')
         | Some l \<Rightarrow>
             if \<not> linkedClientHasScope l ''auth:login'' then (c, redirectWithError lx lr ''insufficient_scope'')
             else
               (case session_identity profile aid c of
                  None \<Rightarrow> (c, redirectWithError lx lr ''linked_client_required'')
                | Some i \<Rightarrow> mint_code lx env lr aid l i c)))"

definition authorize_login :: "login_ext \<Rightarrow> web_env \<Rightarrow> web_request \<Rightarrow> credentials \<Rightarrow> credentials \<times> auth_reply" where
  "authorize_login lx env rq c =
     (let requestToken = (case map_of (rq_query rq) ''request'' of Some t \<Rightarrow> t | None \<Rightarrow> [])
      in case verifyFrameosLoginRequestToken lx requestToken (we_now env) of
           None \<Rightarrow> (c, Redirect ''/login?error=invalid_state'')
         | Some lr \<Rightarrow>
             (case readSession (lx_core lx) env rq (cr_db c) of
                None \<Rightarrow> (c, Redirect (''/login?return_to='' @ encodeURIComponent
                              (''/api/frameos/login/authorize?request='' @ encodeURIComponent requestToken)))
              | Some profile \<Rightarrow>
                  (case session_account profile of
                     None \<Rightarrow> (c, Redirect (''/login?return_to='' @ encodeURIComponent
                                   (''/api/frameos/login/authorize?request='' @ encodeURIComponent requestToken)))
                   | Some aid \<Rightarrow> authorize_account lx env lr profile aid c)))"

text \<open>The atomic claim of a code by the client it is bound to.\<close>

definition claim_code :: "ext \<Rightarrow> string \<Rightarrow> linked_client \<Rightarrow> time \<Rightarrow> login_code list \<Rightarrow> login_code list \<times> login_code option" where
  "claim_code x code l now rows =
     (let fits = (\<lambda>r. lc_codeHash r = hashSecret x code \<and> lc_linkedClientId r = l_id l \<and> lc_redeemedAt r = None)
      in (update_where fits (\<lambda>r. r\<lparr>lc_redeemedAt := Some now\<rparr>) rows, select_one fits rows))"

definition login_claims :: "uuid \<Rightarrow> identity \<Rightarrow> account \<Rightarrow> http_response" where
  "login_claims aid i a =
     jsonOk [(''claims'', JObj ([(''account_id'', JStr aid)]
               @ (case (case id_emailSnapshot i of Some e \<Rightarrow> Some e | None \<Rightarrow> a_primaryEmail a) of None \<Rightarrow> [] | Some e \<Rightarrow> [(''email'', JStr e)])
               @ [(''email_verified'', JBool (id_emailVerified i))]
               @ (case a_displayName a of None \<Rightarrow> [] | Some n \<Rightarrow> [(''name'', JStr n)])
               @ [(''provider_subject'', JStr (id_providerSubject i)), (''sub'', JStr (id_providerSubject i))])),
             (''provider_issuer'', JStr (id_providerIssuer i))]"

definition redeem_login :: "login_ext \<Rightarrow> web_env \<Rightarrow> web_request \<Rightarrow> linked_client \<Rightarrow> credentials \<Rightarrow> credentials \<times> auth_reply" where
  "redeem_login lx env rq l c =
     (let code = (case map_of (readJsonObject rq) ''code'' of Some (JStr s) \<Rightarrow> js_trim s | _ \<Rightarrow> [])
      in if code = [] then (c, fail ''invalid_code'' 400)
         else
           (let (rows, redeemed) = claim_code (lx_core lx) code l (we_now env) (loginCodes (cr_db c));
                c1 = on_cr_db (\<lambda>d. d\<lparr>loginCodes := rows\<rparr>) c
            in case redeemed of
                 None \<Rightarrow> (c1, fail ''invalid_code'' 400)
               | Some r \<Rightarrow>
                   if lc_expiresAt r \<le> we_now env then (c1, fail ''invalid_code'' 400)
                   else
                     (case select_one (\<lambda>(i, a). a_id a = id_accountId i \<and> lc_identityId r = Some (id_id i) \<and> id_accountId i = lc_accountId r)
                             (List.product (cr_identities c1) (accounts (cr_db c1))) of
                        None \<Rightarrow> (c1, fail ''invalid_code'' 400)
                      | Some (i, a) \<Rightarrow> (c1, Plain (login_claims (lc_accountId r) i a)))))"

definition redeem_login_route :: "login_ext \<Rightarrow> web_env \<Rightarrow> web_request \<Rightarrow> credentials \<Rightarrow> credentials \<times> auth_reply" where
  "redeem_login_route lx env rq = login_client_route lx env rq ''frameos-login:token'' 120 (redeem_login lx env rq)"

end
