(* ===== verification/LoginGuarantees.thy ===== *)
theory LoginGuarantees imports LoginCodes AccountDemo begin

text \<open>
  What an installation learns of its owner: never more often than the owner, in a session of the account, let this very
  installation have a code.
\<close>

section \<open>Runs\<close>

datatype login_verb = StartLogin | AuthorizeLogin | RedeemLogin

record login_action =
  lq_verb :: login_verb
  lq_http :: web_request
  lq_env :: web_env

definition login_service :: "login_ext \<Rightarrow> login_action \<Rightarrow> credentials \<Rightarrow> credentials \<times> auth_reply" where
  "login_service lx r =
     (case lq_verb r of
        StartLogin \<Rightarrow> start_login_route lx (lq_env r) (lq_http r)
      | AuthorizeLogin \<Rightarrow> authorize_login lx (lq_env r) (lq_http r)
      | RedeemLogin \<Rightarrow> redeem_login_route lx (lq_env r) (lq_http r))"

text \<open>How many requests of a run have a property, in the state that meets them.\<close>

fun login_count :: "login_ext \<Rightarrow> (login_action \<Rightarrow> credentials \<Rightarrow> bool) \<Rightarrow> login_action list \<Rightarrow> credentials \<Rightarrow> nat" where
  "login_count lx P [] c = 0"
| "login_count lx P (r # rs) c = (if P r c then 1 else 0) + login_count lx P rs (fst (login_service lx r c))"

text \<open>The owner of a live installation with the login scope opens a login request of it, in a session of the account.\<close>

definition consents :: "login_ext \<Rightarrow> uuid \<Rightarrow> uuid \<Rightarrow> login_action \<Rightarrow> credentials \<Rightarrow> bool" where
  "consents lx aid client r c \<longleftrightarrow> lq_verb r = AuthorizeLogin
     \<and> Option.bind (readSession (lx_core lx) (lq_env r) (lq_http r) (cr_db c)) session_account = Some aid
     \<and> (\<exists>lr. verifyFrameosLoginRequestToken lx (case map_of (rq_query (lq_http r)) ''request'' of Some t \<Rightarrow> t | None \<Rightarrow> [])
              (we_now (lq_env r)) = Some lr \<and> js_lower (lr_linkedClientId lr) = client)
     \<and> (\<exists>l\<in>set (linkedClients (cr_db c)). l_id l = client \<and> l_accountId l = aid \<and> l_revokedAt l = None
          \<and> linkedClientHasScope l ''auth:login'')"

definition claims_account :: "http_response \<Rightarrow> uuid option" where
  "claims_account rs =
     (case map_of (obj_fields (Some (rs_body rs))) ''claims'' of
        Some (JObj claims) \<Rightarrow> (case map_of claims ''account_id'' of Some (JStr a) \<Rightarrow> Some a | _ \<Rightarrow> None)
      | _ \<Rightarrow> None)"

text \<open>The installation is answered with the claims of the account.\<close>

definition releases :: "login_ext \<Rightarrow> uuid \<Rightarrow> uuid \<Rightarrow> login_action \<Rightarrow> credentials \<Rightarrow> bool" where
  "releases lx aid client r c \<longleftrightarrow> lq_verb r = RedeemLogin
     \<and> (\<exists>l. snd (authenticateLinkedClient (lx_core lx) (rq_authorization (lq_http r)) (we_now (lq_env r)) (cr_db c)) = Some l \<and> l_id l = client)
     \<and> (\<exists>rs. snd (login_service lx r c) = Plain rs \<and> claims_account rs = Some aid)"

section \<open>Open codes\<close>

definition open_code :: "uuid \<Rightarrow> uuid \<Rightarrow> login_code \<Rightarrow> bool" where
  "open_code aid client r \<longleftrightarrow> lc_accountId r = aid \<and> lc_linkedClientId r = client \<and> lc_redeemedAt r = None"

definition open_codes :: "uuid \<Rightarrow> uuid \<Rightarrow> credentials \<Rightarrow> nat" where
  "open_codes aid client c = length (filter (open_code aid client) (loginCodes (cr_db c)))"

lemma open_codes_db: "loginCodes (cr_db c) = loginCodes (cr_db c') \<Longrightarrow> open_codes aid client c = open_codes aid client c'"
  by (simp add: open_codes_def)

lemma authenticate_codes [simp]: "loginCodes (fst (authenticateLinkedClient x hdr now d)) = loginCodes d"
  by (auto simp: authenticateLinkedClient_def Let_def split: option.splits)

lemma filter_update_shrinks:
  assumes "\<And>r. \<not> Q (f r)"
  shows "length (filter Q (update_where P f rows)) + (if \<exists>r\<in>set rows. P r \<and> Q r then 1 else 0) \<le> length (filter Q rows)"
  using assms by (induction rows) (auto simp: update_where_Cons split: if_splits)

text \<open>A limited route of an installation: refused before its body, with the codes as they were, or the body.\<close>

lemma login_client_cases:
  obtains (refused) c1 rs where "login_client_route lx env rq action limit body c = (c1, Plain rs)"
      "loginCodes (cr_db c1) = loginCodes (cr_db c)" "claims_account rs = None"
  | (run) l c1 where "login_client_route lx env rq action limit body c = body l c1"
      "snd (authenticateLinkedClient (lx_core lx) (rq_authorization rq) (we_now env) (cr_db c)) = Some l"
      "loginCodes (cr_db c1) = loginCodes (cr_db c)"
proof -
  obtain w refusal where lim: "rateLimitResponse env rq action limit (15 * 60 * 1000) (cr_world c) = (w, refusal)" by force
  then have db: "cr_db (c\<lparr>cr_world := w\<rparr>) = cr_db c" using rate_limit_keeps [of env rq action limit "15 * 60 * 1000" "cr_world c"]
    by (simp add: cr_db_def)
  show thesis
  proof (cases refusal)
    case (Some rs)
    have "claims_account rs = None" using lim Some
      by (auto simp: rateLimitResponse_def limit_key_def tooManyRequests_def claims_account_def jsonError_def Let_def
          split: prod.splits if_splits)
    then show thesis using lim db Some by (intro refused [of "c\<lparr>cr_world := w\<rparr>" rs]) (simp_all add: login_client_route_def cr_limited_def)
  next
    case None
    let ?a = "authenticateLinkedClient (lx_core lx) (rq_authorization rq) (we_now env) (cr_db c)"
    let ?c1 = "on_cr_db (\<lambda>_. fst ?a) (c\<lparr>cr_world := w\<rparr>)"
    have codes: "loginCodes (cr_db ?c1) = loginCodes (cr_db c)" by simp
    have none: "claims_account (jsonError e s []) = None" for e s by (simp add: claims_account_def jsonError_def)
    have db_down: "claims_account (jsonError ''database_not_configured'' 503 []) = None" by (rule none)
    show thesis
    proof (cases "we_hasDatabase env")
      case False
      then show thesis using lim None db none
        by (intro refused [of "c\<lparr>cr_world := w\<rparr>" "jsonError ''database_not_configured'' 503 []"])
          (simp_all add: login_client_route_def cr_limited_def requireDatabase_def)
    next
      case True
      show thesis
      proof (cases "\<exists>l. snd ?a = Some l \<and> linkedClientHasScope l ''auth:login''")
        case True: True
        then obtain l where l: "snd ?a = Some l" "linkedClientHasScope l ''auth:login''" by blast
        then show thesis using lim None db \<open>we_hasDatabase env\<close> codes
          by (intro run [of l ?c1]) (simp_all add: login_client_route_def cr_limited_def requireDatabase_def prod.case_eq_if Let_def)
      next
        case False
        then obtain e s where "login_client_route lx env rq action limit body c = (?c1, Plain (jsonError e s []))"
          using lim None db \<open>we_hasDatabase env\<close>
          by (cases "snd ?a") (auto simp: login_client_route_def cr_limited_def requireDatabase_def prod.case_eq_if Let_def fail_def)
        then show thesis using codes none by (intro refused [of ?c1 "jsonError e s []"]) simp_all
      qed
    qed
  qed
qed

lemma start_keeps: "loginCodes (cr_db (fst (start_login lx env rq l c))) = loginCodes (cr_db c)"
  by (simp add: start_login_def Let_def split: option.split)

lemma redeem_shrinks:
  "(if \<exists>rs. snd (redeem_login lx env rq l c) = Plain rs \<and> claims_account rs = Some aid \<and> l_id l = client then 1 else 0)
   + open_codes aid client (fst (redeem_login lx env rq l c)) \<le> open_codes aid client c"
proof -
  let ?code = "case map_of (readJsonObject rq) ''code'' of Some (JStr s) \<Rightarrow> js_trim s | _ \<Rightarrow> []"
  let ?run = "redeem_login lx env rq l c"
  have none: "claims_account (jsonError e s []) = None" for e s by (simp add: claims_account_def jsonError_def)
  show ?thesis
  proof (cases "?code = []")
    case True
    then show ?thesis by (simp add: redeem_login_def Let_def fail_def none)
  next
    case False
    let ?fits = "\<lambda>r. lc_codeHash r = hashSecret (lx_core lx) ?code \<and> lc_linkedClientId r = l_id l \<and> lc_redeemedAt r = None"
    let ?rows = "loginCodes (cr_db c)"
    have codes: "loginCodes (cr_db (fst ?run)) = update_where ?fits (\<lambda>r. r\<lparr>lc_redeemedAt := Some (we_now env)\<rparr>) ?rows"
      using False by (simp add: redeem_login_def claim_code_def Let_def split: option.split)
    have shrink: "open_codes aid client (fst ?run) + (if \<exists>r\<in>set ?rows. ?fits r \<and> open_code aid client r then 1 else 0) \<le> open_codes aid client c"
      unfolding open_codes_def codes by (rule filter_update_shrinks) (simp add: open_code_def)
    have "\<exists>r\<in>set ?rows. ?fits r \<and> open_code aid client r"
      if rs: "snd ?run = Plain rs" "claims_account rs = Some aid" "l_id l = client" for rs
    proof -
      obtain r i a where r: "select_one ?fits ?rows = Some r" and reply: "rs = login_claims (lc_accountId r) i a"
        using rs(1,2) False none by (auto simp: redeem_login_def claim_code_def Let_def fail_def split: option.splits if_splits)
      have "lc_accountId r = aid" using rs(2) by (simp add: reply claims_account_def login_claims_def jsonOk_def)
      then show ?thesis using select_one_Some [OF r] rs(3) by (auto simp: open_code_def)
    qed
    then have released: "\<exists>r\<in>set ?rows. ?fits r \<and> open_code aid client r"
      if "\<exists>rs. snd ?run = Plain rs \<and> claims_account rs = Some aid \<and> l_id l = client" using that by blast
    show ?thesis
    proof (cases "\<exists>rs. snd ?run = Plain rs \<and> claims_account rs = Some aid \<and> l_id l = client")
      case True
      from shrink [unfolded if_P [OF released [OF True]]] show ?thesis unfolding if_P [OF True] by simp
    next
      case False
      from order_trans [OF le_add1 shrink] show ?thesis unfolding if_not_P [OF False] by simp
    qed
  qed
qed

lemma authorize_adds:
  assumes v: "lq_verb r = AuthorizeLogin"
  shows "open_codes aid client (fst (authorize_login lx (lq_env r) (lq_http r) c))
       \<le> (if consents lx aid client r c then 1 else 0) + open_codes aid client c"
proof (cases "loginCodes (cr_db (fst (authorize_login lx (lq_env r) (lq_http r) c))) = loginCodes (cr_db c)")
  case True
  then show ?thesis by (simp add: open_codes_db [OF True])
next
  case False
  let ?env = "lq_env r" and ?rq = "lq_http r"
  let ?token = "case map_of (rq_query ?rq) ''request'' of Some t \<Rightarrow> t | None \<Rightarrow> []"
  let ?live = "\<lambda>lr a l. l_id l = js_lower (lr_linkedClientId lr) \<and> l_accountId l = a \<and> l_revokedAt l = None"
  obtain lr where lr: "verifyFrameosLoginRequestToken lx ?token (we_now ?env) = Some lr"
    using False by (cases "verifyFrameosLoginRequestToken lx ?token (we_now ?env)") (simp_all add: authorize_login_def Let_def)
  obtain profile a where a: "readSession (lx_core lx) ?env ?rq (cr_db c) = Some profile" "session_account profile = Some a"
    using False lr by (auto simp: authorize_login_def Let_def split: option.splits)
  have run: "authorize_login lx ?env ?rq c = authorize_account lx ?env lr profile a c"
    using lr a by (simp add: authorize_login_def Let_def)
  obtain l where l: "select_one (?live lr a) (linkedClients (cr_db c)) = Some l" "linkedClientHasScope l ''auth:login''"
    using False unfolding run by (auto simp: authorize_account_def split: option.splits if_splits)
  obtain i where i: "session_identity profile a c = Some i"
    using False l unfolding run by (auto simp: authorize_account_def split: option.splits if_splits)
  have minted: "loginCodes (cr_db (fst (authorize_login lx ?env ?rq c)))
      = loginCodes (cr_db c) @ [\<lparr>lc_id = we_uuid ?env 0, lc_accountId = a, lc_codeHash = hashSecret (lx_core lx) (createSecretToken ''fc_login'' (we_random ?env 0)),
           lc_expiresAt = we_now ?env + loginCodeExpiresInSeconds * 1000, lc_identityId = Some (id_id i), lc_linkedClientId = l_id l, lc_redeemedAt = None\<rparr>]"
    using False l i unfolding run by (auto simp: authorize_account_def mint_code_def Let_def split: if_splits)
  from select_one_Some [OF l(1)] have row: "l \<in> set (linkedClients (cr_db c))" "?live lr a l" by auto
  show ?thesis
  proof (cases "a = aid \<and> l_id l = client")
    case True
    then have "consents lx aid client r c" unfolding consents_def using v a lr row l(2) by auto
    then show ?thesis by (simp add: open_codes_def minted)
  next
    case False
    then have "\<not> open_code aid client \<lparr>lc_id = we_uuid ?env 0, lc_accountId = a, lc_codeHash = hashSecret (lx_core lx) (createSecretToken ''fc_login'' (we_random ?env 0)),
           lc_expiresAt = we_now ?env + loginCodeExpiresInSeconds * 1000, lc_identityId = Some (id_id i), lc_linkedClientId = l_id l, lc_redeemedAt = None\<rparr>"
      by (auto simp: open_code_def)
    then show ?thesis by (simp add: open_codes_def minted)
  qed
qed

lemma login_step:
  "(if releases lx aid client r c then 1 else 0) + open_codes aid client (fst (login_service lx r c))
   \<le> (if consents lx aid client r c then 1 else 0) + open_codes aid client c"
proof (cases "lq_verb r")
  case StartLogin
  have "loginCodes (cr_db (fst (start_login_route lx (lq_env r) (lq_http r) c))) = loginCodes (cr_db c)"
    unfolding start_login_route_def
    by (cases rule: login_client_cases [of lx "lq_env r" "lq_http r" "''frameos-login:start''" 60 "start_login lx (lq_env r) (lq_http r)" c])
      (simp_all add: start_keeps)
  then show ?thesis using StartLogin by (simp add: login_service_def releases_def open_codes_def)
next
  case AuthorizeLogin
  then show ?thesis using authorize_adds [OF AuthorizeLogin, of aid client lx c] by (simp add: login_service_def releases_def)
next
  case RedeemLogin
  let ?env = "lq_env r" and ?rq = "lq_http r"
  have run: "login_service lx r c = login_client_route lx ?env ?rq ''frameos-login:token'' 120 (redeem_login lx ?env ?rq) c"
    by (simp add: login_service_def RedeemLogin redeem_login_route_def)
  show ?thesis
  proof (cases rule: login_client_cases [of lx ?env ?rq "''frameos-login:token''" 120 "redeem_login lx ?env ?rq" c])
    case (refused c1 rs)
    then have "\<not> releases lx aid client r c" "open_codes aid client (fst (login_service lx r c)) = open_codes aid client c"
      by (simp_all add: releases_def run open_codes_def)
    then show ?thesis by simp
  next
    case (run l c1)
    have svc: "login_service lx r c = redeem_login lx ?env ?rq l c1" using run(1) \<open>login_service lx r c = _\<close> by simp
    have "open_codes aid client c1 = open_codes aid client c" by (rule open_codes_db [OF run(3)])
    moreover have "releases lx aid client r c \<Longrightarrow> \<exists>rs. snd (redeem_login lx ?env ?rq l c1) = Plain rs \<and> claims_account rs = Some aid \<and> l_id l = client"
      using run(2) by (auto simp: releases_def svc)
    ultimately show ?thesis using redeem_shrinks [of lx ?env ?rq l c1 aid client] by (auto simp: svc split: if_splits)
  qed
qed

text \<open>
  C11.  An installation learns who its owner is only by consent, and once for each.  Over any sequence of requests to the
  three login routes, from a state without codes: the claims of an account are handed to an installation at most as often
  as the login requests of that installation were opened in a session of that account, while the installation belonged to
  it, was not revoked and had the login scope; a code that is replayed, stolen by another installation or guessed adds
  nothing.
\<close>

theorem identity_released_by_consent:
  assumes "loginCodes (cr_db c) = []"
  shows "login_count lx (releases lx aid client) rs c \<le> login_count lx (consents lx aid client) rs c"
proof -
  have "login_count lx (releases lx aid client) rs c \<le> login_count lx (consents lx aid client) rs c + open_codes aid client c" for c
  proof (induction rs arbitrary: c)
    case (Cons r rs)
    show ?case using Cons [of "fst (login_service lx r c)"] login_step [of lx aid client r c] by simp
  qed simp
  from this [of c] show ?thesis using assms by (simp add: open_codes_def)
qed

text \<open>An installation of the account \<open>a1\<close> that starts, is let in, and redeems.\<close>

definition demo_login_ext :: login_ext where
  "demo_login_ext = \<lparr>lx_auth = demo_auth\<lparr>ax_core := sample_ext\<lparr>parse_url := (\<lambda>s. Some \<lparr>u_protocol = ''https:'', u_username = [],
        u_password = [], u_hostname = ''home'', u_origin = ''https://home''\<rparr>)\<rparr>\<rparr>,
     lx_sign = (\<lambda>payload now. ''signed''),
     lx_verify = (\<lambda>token now. if token = ''signed'' then Some [(''frameos_type'', JStr loginRequestType), (''linked_client_id'', JStr ''l1''),
        (''redirect_uri'', JStr ''https://home/cb''), (''state'', JStr ''st'')] else None),
     lx_strip = (\<lambda>u. u), lx_set = (\<lambda>u params. u)\<rparr>"

definition demo_installation :: linked_client where
  "demo_installation = \<lparr>l_id = ''l1'', l_accountId = ''a1'', l_clientKind = ''backend'', l_encryptedRefreshToken = None,
     l_lastSeenAt = None, l_lastTokenRotationAt = None, l_localOrigin = Some ''https://home'', l_previousTokenExpiresAt = None,
     l_previousTokenReference = None, l_metadata = JObj [(''requestedScopes'', JArr [JStr ''auth:login''])],
     l_displayName = ''n'', l_revokedAt = None, l_tokenReference = ''#tok'', l_createdAt = 1, l_updatedAt = 1\<rparr>"

definition demo_login_state :: credentials where
  "demo_login_state = \<lparr>cr_world = \<lparr>w_db = createSession sample_ext ''s1'' ''a1'' ''a1'' 7 (empty_db\<lparr>accounts := [demo_account], linkedClients := [demo_installation]\<rparr>),
        w_limits = idle_limiter\<rparr>,
     cr_identities = [demo_identity\<lparr>id_providerIssuer := ''i'', id_providerSubject := ''s''\<rparr>], cr_resets = [], cr_verifications = [], cr_mails = []\<rparr>"

definition demo_login_action :: "login_verb \<Rightarrow> fields \<Rightarrow> login_action" where
  "demo_login_action verb body = \<lparr>lq_verb = verb,
     lq_http = (demo_web_request (Some (JObj body)))\<lparr>rq_query := [(''request'', ''signed'')], rq_sessionCookie := Some ''a1'',
        rq_authorization := Some ''Bearer tok''\<rparr>, lq_env = demo_env 9\<rparr>"

theorem identity_released_by_consent_witness:
  "login_count demo_login_ext (releases demo_login_ext ''a1'' ''l1'')
     [demo_login_action AuthorizeLogin [], demo_login_action RedeemLogin [(''code'', JStr ''fc_login_r0'')]] demo_login_state = 1
   \<and> 1 \<le> login_count demo_login_ext (consents demo_login_ext ''a1'' ''l1'')
     [demo_login_action AuthorizeLogin [], demo_login_action RedeemLogin [(''code'', JStr ''fc_login_r0'')]] demo_login_state"
proof -
  let ?lx = demo_login_ext and ?a = "demo_login_action AuthorizeLogin []" and ?r = "demo_login_action RedeemLogin [(''code'', JStr ''fc_login_r0'')]"
  let ?c1 = "fst (login_service ?lx ?a demo_login_state)"
  have reply: "map_option claims_account (case snd (login_service ?lx ?r ?c1) of Plain rs \<Rightarrow> Some rs | _ \<Rightarrow> None) = Some (Some ''a1'')"
    by code_simp
  have client: "map_option l_id (snd (authenticateLinkedClient (lx_core ?lx) (rq_authorization (lq_http ?r)) (we_now (lq_env ?r)) (cr_db ?c1))) = Some ''l1''"
    by code_simp
  have v: "lq_verb ?r = RedeemLogin" "lq_verb ?a = AuthorizeLogin" by (simp_all add: demo_login_action_def)
  have "releases ?lx ''a1'' ''l1'' ?r ?c1"
    using v reply client unfolding releases_def by (auto split: auth_reply.splits)
  moreover have "\<not> releases ?lx ''a1'' ''l1'' ?a demo_login_state" by (simp add: releases_def v)
  ultimately have one: "login_count ?lx (releases ?lx ''a1'' ''l1'') [?a, ?r] demo_login_state = 1" by simp
  have "loginCodes (cr_db demo_login_state) = []"
    by (simp add: demo_login_state_def cr_db_def createSession_def empty_db_def)
  from identity_released_by_consent [OF this, of ?lx "''a1''" "''l1''" "[?a, ?r]"] one show ?thesis by simp
qed

end
