(* ===== verification/LinkRoutes.thy ===== *)
theory LinkRoutes imports StoreRoutes begin

text \<open>
  What an installation does with its own link: the bearer routes under \<open>api/backends\<close> that rotate its token, change its
  scopes, report its inventory, read what it was granted, and unlink it.
\<close>

section \<open>Guards\<close>

definition link_client_route ::
  "ext \<Rightarrow> web_env \<Rightarrow> web_request \<Rightarrow> string \<Rightarrow> int \<Rightarrow> (linked_client \<Rightarrow> db \<Rightarrow> db \<times> http_response) \<Rightarrow> world \<Rightarrow> world \<times> http_response" where
  "link_client_route x env rq action limit body =
     limited_route env rq action limit (15 * 60 * 1000)
       (\<lambda>d. case authenticateLinkedClient x (rq_authorization rq) (we_now env) d of
              (d1, None) \<Rightarrow> (d1, jsonError ''invalid_link_token'' 401 [])
            | (d1, Some l) \<Rightarrow> body l d1)"

definition link_audit :: "web_request \<Rightarrow> linked_client \<Rightarrow> string \<Rightarrow> json \<Rightarrow> json \<Rightarrow> db \<Rightarrow> db" where
  "link_audit rq l eventType = recordAuditEvent rq (Some (l_accountId l)) [(''linkedClientId'', JStr (l_id l))] eventType"

abbreviation link_target :: "linked_client \<Rightarrow> json" where
  "link_target l \<equiv> JObj [(''linkedClientId'', JStr (l_id l))]"

section \<open>Rotating the token\<close>

definition linkRotationGraceSeconds :: int where "linkRotationGraceSeconds = 5 * 60"

definition rotated_row :: "time \<Rightarrow> string \<Rightarrow> string \<Rightarrow> linked_client \<Rightarrow> linked_client" where
  "rotated_row now outgoing reference r =
     r\<lparr>l_encryptedRefreshToken := None, l_lastTokenRotationAt := Some now,
       l_previousTokenExpiresAt := Some (now + linkRotationGraceSeconds * 1000), l_previousTokenReference := Some outgoing,
       l_tokenReference := reference, l_updatedAt := now\<rparr>"

definition rotate_token :: "ext \<Rightarrow> web_env \<Rightarrow> web_request \<Rightarrow> linked_client \<Rightarrow> db \<Rightarrow> db \<times> http_response" where
  "rotate_token x env rq l d =
     (case createEncryptedSecretToken x ''fc_link'' (we_random env 0) of
        None \<Rightarrow> (d, jsonError ''encryption_not_configured'' 503 [])
      | Some (sealed, token, reference) \<Rightarrow>
          (link_audit rq l ''linked_client.token_rotated'' JNull (link_target l)
             (d\<lparr>linkedClients := update_where (\<lambda>r. l_id r = l_id l) (rotated_row (we_now env) (l_tokenReference l) reference) (linkedClients d)\<rparr>),
           jsonOk [(''access_token'', JStr token), (''linked_client_id'', JStr (l_id l)), (''token_reference'', JStr reference),
                   (''token_type'', JStr ''Bearer'')]))"

definition rotate_token_route :: "ext \<Rightarrow> web_env \<Rightarrow> web_request \<Rightarrow> world \<Rightarrow> world \<times> http_response" where
  "rotate_token_route x env rq = link_client_route x env rq ''backend:rotate-token'' 20 (rotate_token x env rq)"

section \<open>Changing the scopes\<close>

text \<open>The base scopes of a client are put back when it has them.\<close>

definition baseScopes :: "linked_client \<Rightarrow> string list" where
  "baseScopes l = (if l_clientKind l = ''frame'' then [''frame:link''] else [''backend:link'', ''backend:read''])"

definition keep_base :: "string list \<Rightarrow> string list \<Rightarrow> string list \<Rightarrow> string list" where
  "keep_base currentScopes bases requested =
     foldl (\<lambda>scopes base. if base \<in> set currentScopes \<and> base \<notin> set scopes then base # scopes else scopes) requested bases"

definition requested_scopes :: "linked_client \<Rightarrow> json option \<Rightarrow> string list" where
  "requested_scopes l scopes = keep_base (linkedClientScopes l) (baseScopes l) (parseScopes scopes)"

definition update_scopes :: "web_env \<Rightarrow> web_request \<Rightarrow> linked_client \<Rightarrow> string list \<Rightarrow> string list \<Rightarrow> db \<Rightarrow> db \<times> http_response" where
  "update_scopes env rq l scopes added d =
     (link_audit rq l (if added = [] then ''linked_client.scopes_reduced'' else ''linked_client.scopes_updated'')
        (JObj [(''scopes'', JArr (map JStr scopes))]) (link_target l)
        (d\<lparr>linkedClients := update_where (\<lambda>r. l_id r = l_id l) (set_scopes_row (we_now env) (l_metadata l) scopes) (linkedClients d)\<rparr>),
      jsonOk [(''linked_client_id'', JStr (l_id l)), (''scope'', JStr (js_join '' '' scopes)), (''status'', JStr ''updated'')])"

text \<open>An addition waits for the owner: a device request bound to the client, with the full set of scopes.\<close>

definition upgrade_request :: "ext \<Rightarrow> web_env \<Rightarrow> linked_client \<Rightarrow> string list \<Rightarrow> string \<Rightarrow> string \<Rightarrow> device_request" where
  "upgrade_request x env l scopes deviceCode userCode =
     \<lparr>d_id = we_uuid env 0, d_approvedAt = None, d_approvedByAccountId = None, d_backendMetadata = JNull,
      d_clientKind = l_clientKind l, d_deniedAt = None, d_deviceCodeHash = hashSecret x deviceCode,
      d_expiresAt = we_now env + deviceExpiresInSeconds * 1000, d_intervalSeconds = deviceIntervalSeconds, d_lastPollAt = None,
      d_linkedClientId = None, d_localOrigin = l_localOrigin l, d_pollCount = 0, d_displayName = l_displayName l,
      d_redeemedAt = None, d_requestedScopes = scopes, d_status = AuthPending, d_tokenReference = None,
      d_upgradeLinkedClientId = Some (l_id l), d_userCodeDisplay = maskUserCode userCode,
      d_userCodeHash = hashUserCode x (remove_dash userCode), d_createdAt = we_now env, d_updatedAt = we_now env\<rparr>"

definition request_upgrade ::
  "ext \<Rightarrow> web_env \<Rightarrow> (nat \<Rightarrow> nat list) \<Rightarrow> string \<Rightarrow> linked_client \<Rightarrow> string list \<Rightarrow> db \<Rightarrow> db \<times> http_response" where
  "request_upgrade x env draw verificationUri l scopes d =
     (case generateUniqueUserCode x draw d of
        None \<Rightarrow> (d, server_error)
      | Some userCode \<Rightarrow>
          (let deviceCode = createSecretToken ''fc_device'' (we_random env 0)
           in (d\<lparr>deviceRequests := deviceRequests d @ [upgrade_request x env l scopes deviceCode userCode]\<rparr>,
               jsonOk [(''device_code'', JStr deviceCode), (''expires_in'', num_of_int deviceExpiresInSeconds),
                 (''interval'', num_of_int deviceIntervalSeconds), (''scope'', JStr (js_join '' '' scopes)),
                 (''status'', JStr ''approval_required''), (''user_code'', JStr userCode),
                 (''verification_uri'', JStr verificationUri),
                 (''verification_uri_complete'', JStr (verificationUri @ ''?user_code='' @ userCode))])))"

definition change_scopes ::
  "ext \<Rightarrow> web_env \<Rightarrow> (nat \<Rightarrow> nat list) \<Rightarrow> string \<Rightarrow> web_request \<Rightarrow> linked_client \<Rightarrow> db \<Rightarrow> db \<times> http_response" where
  "change_scopes x env draw verificationUri rq l d =
     (case map_of (readJsonObject rq) ''scopes'' of
        Some (JArr vs) \<Rightarrow>
          (let scopes = requested_scopes l (Some (JArr vs));
               added = filter (\<lambda>s. s \<notin> set (linkedClientScopes l)) scopes
           in if filter (\<lambda>s. s \<notin> set autoGrantedDeviceScopes) added = [] then update_scopes env rq l scopes added d
              else request_upgrade x env draw verificationUri l scopes d)
      | _ \<Rightarrow> (d, jsonError ''invalid_scopes'' 400 []))"

definition change_scopes_route ::
  "ext \<Rightarrow> web_env \<Rightarrow> (nat \<Rightarrow> nat list) \<Rightarrow> string \<Rightarrow> web_request \<Rightarrow> world \<Rightarrow> world \<times> http_response" where
  "change_scopes_route x env draw verificationUri rq =
     link_client_route x env rq ''backend:scopes'' 60 (change_scopes x env draw verificationUri rq)"

section \<open>Inventory, grants, unlinking\<close>

definition jsonRecord :: "json option \<Rightarrow> fields" where
  "jsonRecord value = (case value of Some (JObj kvs) \<Rightarrow> kvs | _ \<Rightarrow> [])"

definition sync_row :: "web_env \<Rightarrow> fields \<Rightarrow> connected_backend \<Rightarrow> connected_backend" where
  "sync_row env body b =
     b\<lparr>b_capabilities := JObj (jsonRecord (map_of body ''capabilities'')), b_lastHealthPayload := JObj (jsonRecord (map_of body ''health'')),
       b_lastSyncAt := Some (we_now env), b_frameosVersion := parseOptionalString (map_of body ''reported_frameos_version''),
       b_updatedAt := we_now env\<rparr>"

definition synced_backend :: "web_env \<Rightarrow> fields \<Rightarrow> linked_client \<Rightarrow> db \<Rightarrow> db \<times> uuid" where
  "synced_backend env body l d =
     (case select_one (\<lambda>b. b_linkedClientId b = l_id l) (connectedBackends d) of
        Some e \<Rightarrow> (d\<lparr>connectedBackends := update_where (\<lambda>b. b_id b = b_id e) (sync_row env body) (connectedBackends d)\<rparr>, b_id e)
      | None \<Rightarrow>
          (d\<lparr>connectedBackends := connectedBackends d @ [sync_row env body
               \<lparr>b_id = we_uuid env 0, b_capabilities = JNull, b_lastHealthPayload = JNull, b_lastSyncAt = None,
                b_linkedClientId = l_id l, b_frameosVersion = None, b_updatedAt = we_now env\<rparr>]\<rparr>, we_uuid env 0))"

definition sync_inventory :: "web_env \<Rightarrow> web_request \<Rightarrow> linked_client \<Rightarrow> db \<Rightarrow> db \<times> http_response" where
  "sync_inventory env rq l d =
     (let body = readJsonObject rq; (d1, backendId) = synced_backend env body l d
      in (link_audit rq l ''backend.inventory_synced''
            (JObj [(''capabilitiesReported'', JBool (jsonRecord (map_of body ''capabilities'') \<noteq> []))]) (JObj [(''backendId'', JStr backendId)])
            (d1\<lparr>linkedClients := update_where (\<lambda>r. l_id r = l_id l) (\<lambda>r. r\<lparr>l_lastSeenAt := Some (we_now env), l_updatedAt := we_now env\<rparr>)
                  (linkedClients d1)\<rparr>),
          jsonOk [(''backend_id'', JStr backendId), (''linked_client_id'', JStr (l_id l)), (''status'', JStr ''synced'')]))"

definition sync_inventory_route :: "ext \<Rightarrow> web_env \<Rightarrow> web_request \<Rightarrow> world \<Rightarrow> world \<times> http_response" where
  "sync_inventory_route x env rq = link_client_route x env rq ''backend:inventory'' 120 (sync_inventory env rq)"

definition read_grants :: "linked_client \<Rightarrow> db \<Rightarrow> db \<times> http_response" where
  "read_grants l d =
     (d, jsonOk [(''grants'', JArr [JObj [
            (''account_email'', json_of_str (Option.bind (select_one (\<lambda>a. a_id a = l_accountId l) (accounts d)) a_primaryEmail)),
            (''account_id'', JStr (l_accountId l)), (''role'', JStr ''owner''), (''updated_at'', JStr (iso_text (l_updatedAt l)))]]),
          (''linked_client_id'', JStr (l_id l)), (''usage'', accountUsage (l_accountId l) d)])"

definition read_grants_route :: "ext \<Rightarrow> web_env \<Rightarrow> web_request \<Rightarrow> world \<Rightarrow> world \<times> http_response" where
  "read_grants_route x env rq = link_client_route x env rq ''backend:grants'' 120 read_grants"

definition unlink_client :: "web_env \<Rightarrow> web_request \<Rightarrow> linked_client \<Rightarrow> db \<Rightarrow> db \<times> http_response" where
  "unlink_client env rq l d =
     (link_audit rq l ''linked_client.unlinked'' JNull (link_target l)
        (d\<lparr>linkedClients := update_where (\<lambda>r. l_id r = l_id l) (\<lambda>r. r\<lparr>l_revokedAt := Some (we_now env), l_updatedAt := we_now env\<rparr>) (linkedClients d)\<rparr>),
      jsonOk [(''status'', JStr ''unlinked'')])"

definition unlink_route :: "ext \<Rightarrow> web_env \<Rightarrow> web_request \<Rightarrow> world \<Rightarrow> world \<times> http_response" where
  "unlink_route x env rq = link_client_route x env rq ''backend:unlink'' 20 (unlink_client env rq)"

end
