(* ===== verification/LinkLaws.thy ===== *)
theory LinkLaws imports LinkRoutes StoreService begin

text \<open>
  A link over its life: its scopes grow only by an approval in a session of its account, a revoked one stays revoked,
  and a rotation hands its token over with a grace window.
\<close>

section \<open>The requests\<close>

datatype link_verb =
    RotateToken | ChangeScopes | SyncInventory | ReadGrants | Unlink | StartDevice | LookupDevice | ApproveDevice | DenyDevice
  | PollDevice | RevokeLink

record link_request =
  lk_verb :: link_verb
  lk_http :: web_request
  lk_env :: web_env
  lk_draw :: "nat \<Rightarrow> nat list"
  lk_uri :: string

definition link_service :: "ext \<Rightarrow> link_request \<Rightarrow> world \<Rightarrow> world \<times> http_response" where
  "link_service x r =
     (let env = lk_env r; rq = lk_http r
      in case lk_verb r of
           RotateToken \<Rightarrow> rotate_token_route x env rq
         | ChangeScopes \<Rightarrow> change_scopes_route x env (lk_draw r) (lk_uri r) rq
         | SyncInventory \<Rightarrow> sync_inventory_route x env rq
         | ReadGrants \<Rightarrow> read_grants_route x env rq
         | Unlink \<Rightarrow> unlink_route x env rq
         | StartDevice \<Rightarrow> device_start_route x env (lk_draw r) (lk_uri r) rq
         | LookupDevice \<Rightarrow> device_lookup_route x env rq
         | ApproveDevice \<Rightarrow> device_authorize_route x env rq
         | DenyDevice \<Rightarrow> device_deny_route x env rq
         | PollDevice \<Rightarrow> device_poll_route x env rq
         | RevokeLink \<Rightarrow> device_revoke_route x env rq)"

fun serve_links :: "ext \<Rightarrow> link_request list \<Rightarrow> world \<Rightarrow> world" where
  "serve_links x [] w = w"
| "serve_links x (r # rs) w = serve_links x rs (fst (link_service x r w))"

fun each_link_request :: "ext \<Rightarrow> (link_request \<Rightarrow> world \<Rightarrow> bool) \<Rightarrow> link_request list \<Rightarrow> world \<Rightarrow> bool" where
  "each_link_request x P [] w = True"
| "each_link_request x P (r # rs) w = (P r w \<and> each_link_request x P rs (fst (link_service x r w)))"

text \<open>An approval from a session of the account; ids the database generates are new.\<close>

definition approves :: "ext \<Rightarrow> uuid \<Rightarrow> link_request \<Rightarrow> world \<Rightarrow> bool" where
  "approves x aid r w \<longleftrightarrow> lk_verb r = ApproveDevice
     \<and> Option.bind (readSession x (lk_env r) (lk_http r) (w_db w)) session_account = Some aid"

definition link_ids_fresh :: "link_request \<Rightarrow> world \<Rightarrow> bool" where
  "link_ids_fresh r w \<longleftrightarrow> we_uuid (lk_env r) 0 \<notin> l_id ` set (linkedClients (w_db w))"

section \<open>Steps on the links\<close>

text \<open>What a statement does to the table: it touches neither owner nor metadata of a row and revives none, or replaces
  scopes by some of them, or by others for an account in \<open>A\<close>, or adds a link.\<close>

inductive link_step :: "uuid set \<Rightarrow> uuid \<Rightarrow> linked_client list \<Rightarrow> linked_client list \<Rightarrow> bool" for A new where
  touched: "(\<And>q. l_id (f q) = l_id q \<and> l_accountId (f q) = l_accountId q \<and> l_metadata (f q) = l_metadata q
       \<and> (l_revokedAt (f q) = None \<longrightarrow> l_revokedAt q = None)) \<Longrightarrow> link_step A new ls (update_where P f ls)"
| rescoped: "t \<in> set ls \<Longrightarrow> set scopes \<subseteq> set (linkedClientScopes t) \<or> l_accountId t \<in> A \<Longrightarrow> m = l_metadata t \<Longrightarrow>
     link_step A new ls (update_where (\<lambda>l. l_id l = l_id t) (set_scopes_row now m scopes) ls)"
| linked: "l_id l = new \<Longrightarrow> link_step A new ls (ls @ [l])"

lemma link_step_refl: "link_step A new ls ls"
  using link_step.touched [of id A new ls "\<lambda>_. False"] by (simp add: update_where_noop)

text \<open>A row later: the same link of the same account, no scope more, and revoked if it was.\<close>

definition no_more :: "linked_client \<Rightarrow> linked_client \<Rightarrow> bool" where
  "no_more l l' \<longleftrightarrow> l_id l' = l_id l \<and> l_accountId l' = l_accountId l \<and> set (linkedClientScopes l') \<subseteq> set (linkedClientScopes l)
     \<and> (l_revokedAt l \<noteq> None \<longrightarrow> l_revokedAt l' \<noteq> None)"

lemma no_more_refl: "no_more l l"
  by (simp add: no_more_def)

lemma no_more_trans: "no_more a b \<Longrightarrow> no_more b c \<Longrightarrow> no_more a c"
  by (auto simp: no_more_def)

lemma set_scopes_simps [simp]:
  "l_id (set_scopes_row now m s l) = l_id l" "l_accountId (set_scopes_row now m s l) = l_accountId l"
  "l_revokedAt (set_scopes_row now m s l) = l_revokedAt l" "linkedClientScopes (set_scopes_row now m s l) = s"
  by (simp_all add: set_scopes_row_def linkedClientScopes_def metadata_scopes_set del: obj_spread.simps)

lemma link_step_keyed:
  assumes "link_step A new ls ls'" and "keyed l_id ls" and "new \<notin> l_id ` set ls"
  shows "keyed l_id ls'"
  using assms by (cases rule: link_step.cases) (auto simp: keyed_def map_update_where keyed_append_fresh)

lemma link_step_no_more:
  assumes "link_step A new ls ls'" and "keyed l_id ls" and "l \<in> set ls" and "l_accountId l \<notin> A"
  shows "\<exists>l'\<in>set ls'. no_more l l'"
  using assms(1)
proof (cases rule: link_step.cases)
  case (touched f P)
  have "no_more l (f l)" using touched(2) [of l] by (auto simp: no_more_def linkedClientScopes_def)
  then have "no_more l (if P l then f l else l)" using no_more_refl by simp
  moreover have "(if P l then f l else l) \<in> set ls'" unfolding touched(1) set_update_where using assms(3) by (rule imageI)
  ultimately show ?thesis by blast
next
  case (rescoped t scopes m now)
  show ?thesis
  proof (cases "l_id l = l_id t")
    case True
    then have "l = t" using keyed_eq [OF assms(2,3) rescoped(2)] by simp
    then have "no_more l (set_scopes_row now m scopes l)" using rescoped(3) assms(4) by (auto simp: no_more_def)
    moreover have "set_scopes_row now m scopes l \<in> set ls'"
      unfolding rescoped(1) set_update_where using assms(3) True by (auto intro!: image_eqI [where x = l])
    ultimately show ?thesis by blast
  next
    case False
    then have "l \<in> set ls'" unfolding rescoped(1) set_update_where using assms(3) by (auto intro!: image_eqI [where x = l])
    then show ?thesis using no_more_refl by blast
  qed
next
  case (linked q)
  then show ?thesis using assms(3) no_more_refl by auto
qed

section \<open>What a handler does\<close>

text \<open>Authentication may retire a previous token; then at most one step.\<close>

definition retired :: "linked_client list \<Rightarrow> linked_client list \<Rightarrow> bool" where
  "retired ls ls' \<longleftrightarrow> ls' = ls \<or> (\<exists>P now. ls' = update_where P (retire_previous now) ls)"

definition link_effect :: "uuid set \<Rightarrow> uuid \<Rightarrow> linked_client list \<Rightarrow> linked_client list \<Rightarrow> bool" where
  "link_effect A new ls ls' \<longleftrightarrow> (\<exists>mid. retired ls mid \<and> link_step A new mid ls')"

lemma retired_step: "retired ls ls' \<Longrightarrow> link_step A new ls ls'"
  by (auto simp: retired_def retire_previous_def intro: link_step.touched link_step_refl)

lemma retired_ids: "retired ls ls' \<Longrightarrow> map l_id ls' = map l_id ls"
  by (auto simp: retired_def map_update_where retire_previous_def)

lemma effect_of_link_step: "link_step A new ls ls' \<Longrightarrow> link_effect A new ls ls'"
  by (auto simp: link_effect_def retired_def)

lemma link_effect_same [simp]: "link_effect A new ls ls"
  by (rule effect_of_link_step [OF link_step_refl])

lemma link_effect_keyed:
  assumes "link_effect A new ls ls'" and "keyed l_id ls" and "new \<notin> l_id ` set ls" shows "keyed l_id ls'"
proof -
  obtain mid where m: "retired ls mid" "link_step A new mid ls'" using assms(1) by (auto simp: link_effect_def)
  have "keyed l_id mid" "l_id ` set mid = l_id ` set ls"
    using assms(2) retired_ids [OF m(1)] by (simp add: keyed_def, metis set_map)
  then show ?thesis using link_step_keyed [OF m(2)] assms(3) by simp
qed

lemma link_effect_no_more:
  assumes "link_effect A new ls ls'" and "keyed l_id ls" and "l \<in> set ls" and "l_accountId l \<notin> A"
  shows "\<exists>l'\<in>set ls'. no_more l l'"
proof -
  obtain mid where m: "retired ls mid" "link_step A new mid ls'" using assms(1) by (auto simp: link_effect_def)
  have k: "keyed l_id mid" using assms(2) retired_ids [OF m(1)] by (simp add: keyed_def)
  obtain l1 where l1: "l1 \<in> set mid" "no_more l l1" using link_step_no_more [OF retired_step [OF m(1)] assms(2-4)] by blast
  obtain l2 where "l2 \<in> set ls'" "no_more l1 l2"
    using link_step_no_more [OF m(2) k l1(1)] l1(2) assms(4) by (auto simp: no_more_def)
  then show ?thesis using l1(2) no_more_trans by blast
qed

text \<open>The row a request is authenticated as, and the table after it.\<close>

lemma authenticated:
  assumes "authenticateLinkedClient x hdr now d = (d', Some l)"
  shows "retired (linkedClients d) (linkedClients d')"
    "\<exists>t\<in>set (linkedClients d'). l_id t = l_id l \<and> l_metadata t = l_metadata l \<and> l_accountId t = l_accountId l
      \<and> l_revokedAt t = l_revokedAt l"
proof -
  have l: "l \<in> set (linkedClients d)" using authenticate_sound [OF assms] by simp
  show "retired (linkedClients d) (linkedClients d')"
  proof -
    have "d' = d \<or> d' = d\<lparr>linkedClients := update_where (\<lambda>r. l_id r = l_id l) (retire_previous now) (linkedClients d)\<rparr>"
      using assms by (auto simp: authenticateLinkedClient_def Let_def split: option.splits if_splits)
    then show ?thesis
    proof
      assume d': "d' = d\<lparr>linkedClients := update_where (\<lambda>r. l_id r = l_id l) (retire_previous now) (linkedClients d)\<rparr>"
      show ?thesis unfolding retired_def d' by (rule disjI2, intro exI) simp
    qed (simp add: retired_def)
  qed
  have "map (\<lambda>l. (l_id l, l_accountId l, l_metadata l, l_revokedAt l)) (linkedClients d')
      = map (\<lambda>l. (l_id l, l_accountId l, l_metadata l, l_revokedAt l)) (linkedClients d)"
    using authenticate_metadata [of x hdr now d] assms by simp
  from arg_cong [OF this, of set]
  have "(\<lambda>l. (l_id l, l_accountId l, l_metadata l, l_revokedAt l)) ` set (linkedClients d')
      = (\<lambda>l. (l_id l, l_accountId l, l_metadata l, l_revokedAt l)) ` set (linkedClients d)" by (simp only: set_map)
  then have "(l_id l, l_accountId l, l_metadata l, l_revokedAt l) \<in> (\<lambda>l. (l_id l, l_accountId l, l_metadata l, l_revokedAt l)) ` set (linkedClients d')"
    using l by force
  then show "\<exists>t\<in>set (linkedClients d'). l_id t = l_id l \<and> l_metadata t = l_metadata l \<and> l_accountId t = l_accountId l
      \<and> l_revokedAt t = l_revokedAt l" by auto
qed

lemma link_route_effect:
  assumes "\<And>l t d. t \<in> set (linkedClients d) \<Longrightarrow> l_id t = l_id l \<Longrightarrow> l_metadata t = l_metadata l \<Longrightarrow>
      link_step A new (linkedClients d) (linkedClients (fst (body l d)))"
  shows "link_effect A new (linkedClients (w_db w)) (linkedClients (w_db (fst (link_client_route x env rq action limit body w))))"
proof (cases rule: limited_route_cases [of env rq action limit "15 * 60 * 1000"
    "\<lambda>d. case authenticateLinkedClient x (rq_authorization rq) (we_now env) d of
        (d1, None) \<Rightarrow> (d1, jsonError ''invalid_link_token'' 401 []) | (d1, Some l) \<Rightarrow> body l d1" w])
  case (refused r)
  then show ?thesis by (simp add: link_client_route_def)
next
  case run
  obtain d1 client where a: "authenticateLinkedClient x (rq_authorization rq) (we_now env) (w_db w) = (d1, client)" by force
  show ?thesis
  proof (cases client)
    case None
    then have "d1 = w_db w" using a by (auto simp: authenticateLinkedClient_def Let_def split: option.splits if_splits)
    then show ?thesis using run(1) a None by (simp add: link_client_route_def)
  next
    case (Some l)
    note au = authenticated [OF a [unfolded Some]]
    obtain t where "t \<in> set (linkedClients d1)" "l_id t = l_id l" "l_metadata t = l_metadata l" using au(2) by blast
    from assms [OF this] show ?thesis using run(1) a Some au(1) by (auto simp: link_client_route_def link_effect_def)
  qed
qed

text \<open>The bodies of the installation's routes.\<close>

lemma rotate_step: "link_step A new (linkedClients d) (linkedClients (fst (rotate_token x env rq l d)))"
  by (cases "createEncryptedSecretToken x ''fc_link'' (we_random env 0)")
    (auto simp: rotate_token_def link_audit_def rotated_row_def link_step_refl intro!: link_step.touched)

lemma scopes_step:
  assumes t: "t \<in> set (linkedClients d)" "l_id t = l_id l" "l_metadata t = l_metadata l"
  shows "link_step A new (linkedClients d) (linkedClients (fst (change_scopes x env draw uri rq l d)))"
proof (cases "linkedClients (fst (change_scopes x env draw uri rq l d)) = linkedClients d")
  case False
  have up: "linkedClients (fst (request_upgrade x env draw uri l s d)) = linkedClients d" for s
    by (simp add: request_upgrade_def Let_def split: option.split)
  obtain scopes where s: "filter (\<lambda>s. s \<notin> set (linkedClientScopes l)) scopes = []"
      "linkedClients (fst (change_scopes x env draw uri rq l d))
        = update_where (\<lambda>r. l_id r = l_id l) (set_scopes_row (we_now env) (l_metadata l) scopes) (linkedClients d)"
    using False by (auto simp: change_scopes_def update_scopes_def link_audit_def up autoGrantedDeviceScopes_def Let_def
        split: option.splits json.splits if_splits)
  have "set scopes \<subseteq> set (linkedClientScopes t)" using s(1) t(3) by (auto simp: filter_empty_conv linkedClientScopes_def)
  then show ?thesis unfolding s(2) using link_step.rescoped [OF t(1), of scopes A "l_metadata l"] t(2,3) by simp
qed (simp add: link_step_refl)

lemma inventory_step: "link_step A new (linkedClients d) (linkedClients (fst (sync_inventory env rq l d)))"
proof -
  have "linkedClients (fst (synced_backend env body l d)) = linkedClients d" for body
    by (simp add: synced_backend_def split: option.split)
  then show ?thesis by (auto simp: sync_inventory_def link_audit_def Let_def prod.case_eq_if intro!: link_step.touched)
qed

lemma unlink_step: "link_step A new (linkedClients d) (linkedClients (fst (unlink_client env rq l d)))"
  by (auto simp: unlink_client_def link_audit_def intro!: link_step.touched)

section \<open>The device routes\<close>

lemma approve_step:
  "link_step {a} (we_uuid env 0) (linkedClients d) (linkedClients (fst (authorize_request x env rq a profile dr d)))"
proof -
  have link: "link_step {a} (we_uuid env 0) (linkedClients d) (linkedClients (fst (approve_link x env rq a profile dr d)))"
  proof (cases "linkedClients (fst (approve_link x env rq a profile dr d)) = linkedClients d")
    case False
    then obtain l where "linkedClients (fst (approve_link x env rq a profile dr d)) = linkedClients d @ [l]" "l_id l = we_uuid env 0"
      by (auto simp: approve_link_def record_consent_def device_linked_client_def new_linked_client_def Let_def split: option.splits prod.splits if_splits)
    then show ?thesis by (simp add: link_step.linked)
  qed (simp add: link_step_refl)
  have up: "link_step {a} (we_uuid env 0) (linkedClients d) (linkedClients (fst (approve_upgrade x env rq a profile dr lid d)))" for lid
  proof (cases "linkedClients (fst (approve_upgrade x env rq a profile dr lid d)) = linkedClients d")
    case False
    then obtain t where t: "select_one (\<lambda>l. l_id l = lid) (linkedClients d) = Some t" "l_accountId t = a"
        "linkedClients (fst (approve_upgrade x env rq a profile dr lid d))
          = update_where (\<lambda>l. l_id l = l_id t) (set_scopes_row (we_now env) (l_metadata t) (d_requestedScopes dr)) (linkedClients d)"
      by (auto simp: approve_upgrade_def record_consent_def Let_def split: option.splits if_splits)
    show ?thesis unfolding t(3) by (rule link_step.rescoped) (use select_one_Some [OF t(1)] t(2) in auto)
  qed (simp add: link_step_refl)
  show ?thesis using link up by (auto simp: authorize_request_def expire_request_def link_step_refl split: option.split)
qed

lemma deny_links: "linkedClients (fst (deny_request x env rq a profile dr d)) = linkedClients d"
  by (simp add: deny_request_def record_consent_def Let_def)

lemma decide_cases:
  assumes "\<And>dr. P (fst (decide dr d))" and "P d" shows "P (fst (decide_by_code x rq decide d))"
  using assms by (simp add: decide_by_code_def Let_def split: option.split)

lemma poll_step: "link_step A new (linkedClients d) (linkedClients (fst (device_poll x env code d)))"
proof -
  have hand: "link_step A new (linkedClients d) (linkedClients (fst (hand_out x env dr lid ref d)))" for dr lid ref d
    by (auto simp: hand_out_def link_step_refl intro!: link_step.touched split: option.split)
  have "link_step A new (linkedClients d) (linkedClients (fst (poll_request x env dr d)))" for dr
    using hand [of "redeem_request (we_now env) dr d"]
    by (auto simp: poll_request_def expire_request_def redeem_request_def link_step_refl split: option.split)
  then show ?thesis by (simp add: device_poll_def link_step_refl split: option.split)
qed

lemma revoke_step: "link_step A new (linkedClients d) (linkedClients (fst (revoke_link env rq a profile d)))"
  by (auto simp: revoke_link_def link_step_refl Let_def intro!: link_step.touched split: option.split json.split)

section \<open>Every request\<close>

lemma limited_links:
  assumes "link_effect A new (linkedClients (w_db w)) (linkedClients (fst (body (w_db w))))"
  shows "link_effect A new (linkedClients (w_db w)) (linkedClients (w_db (fst (limited_route env rq action limit win body w))))"
  by (cases rule: limited_route_cases [of env rq action limit win body w]) (use assms in simp_all)

lemma decision_links:
  assumes "\<And>a profile. Option.bind (readSession x env rq (w_db w)) session_account = Some a \<Longrightarrow>
      link_effect A new (linkedClients (w_db w)) (linkedClients (fst (body a profile (w_db w))))"
  shows "link_effect A new (linkedClients (w_db w)) (linkedClients (w_db (fst (decision_route x env rq action body w))))"
proof (cases "w_db (fst (decision_route x env rq action body w)) = w_db w")
  case False
  obtain w1 l1 where r1: "rateLimitResponse env rq action 30 (15 * 60 * 1000) w = (w1, l1)" by force
  note d1 = rateLimit_db [OF r1]
  obtain profile a where s: "readSession x env rq (w_db w) = Some profile" "session_account profile = Some a" "l1 = None" "csrfResponse env rq = None"
    using False r1 d1 by (auto simp: decision_route_def split: option.splits)
  obtain w2 l2 where r2: "identityRateLimitResponse env a action 30 (15 * 60 * 1000) w1 = (w2, l2)" by force
  note d2 = identity_limit_db [OF r2]
  have "w_db (fst (decision_route x env rq action body w)) = fst (body a profile (w_db w))"
    using False r1 d1 r2 d2 s by (auto simp: decision_route_def split: option.splits prod.splits)
  then show ?thesis using assms [of a profile] s by simp
qed simp

lemma owner_links:
  assumes "\<And>a profile d. link_step A new (linkedClients d) (linkedClients (fst (body a profile d)))"
  shows "link_effect A new (linkedClients (w_db w)) (linkedClients (w_db (fst (owner_route x env rq action limit win body w))))"
proof -
  obtain w1 g where g: "owner_guard x env rq action limit win w = (w1, g)" by force
  have "w_db w1 = w_db w"
    using g by (auto simp: owner_guard_def dest: rateLimit_db split: option.splits prod.splits)
  then show ?thesis using g effect_of_link_step [OF assms] by (cases g) (simp_all add: owner_route_def prod.case_eq_if)
qed

lemma link_service_effect:
  "link_effect {a. approves x a r w} (we_uuid (lk_env r) 0) (linkedClients (w_db w)) (linkedClients (w_db (fst (link_service x r w))))"
proof (cases "lk_verb r")
  case RotateToken
  then show ?thesis by (simp add: link_service_def Let_def rotate_token_route_def link_route_effect rotate_step)
next
  case ChangeScopes
  then show ?thesis by (simp add: link_service_def Let_def change_scopes_route_def link_route_effect scopes_step)
next
  case SyncInventory
  then show ?thesis by (simp add: link_service_def Let_def sync_inventory_route_def link_route_effect inventory_step)
next
  case ReadGrants
  then show ?thesis by (simp add: link_service_def Let_def read_grants_route_def link_route_effect read_grants_def link_step_refl)
next
  case Unlink
  then show ?thesis by (simp add: link_service_def Let_def unlink_route_def link_route_effect unlink_step)
next
  case StartDevice
  then show ?thesis by (simp add: link_service_def Let_def device_start_route_def limited_links device_start_def split: option.split)
next
  case LookupDevice
  then show ?thesis by (auto simp: link_service_def Let_def device_lookup_route_def device_lookup_def expire_request_def
      intro!: limited_links split: option.split)
next
  case ApproveDevice
  have "link_effect {a. approves x a r w} (we_uuid (lk_env r) 0) (linkedClients (w_db w))
      (linkedClients (w_db (fst (device_authorize_route x (lk_env r) (lk_http r) w))))"
    unfolding device_authorize_route_def
  proof (rule decision_links)
    fix a profile assume "Option.bind (readSession x (lk_env r) (lk_http r) (w_db w)) session_account = Some a"
    then have "{a. approves x a r w} = {a}" using ApproveDevice by (auto simp: approves_def)
    then show "link_effect {a. approves x a r w} (we_uuid (lk_env r) 0) (linkedClients (w_db w))
        (linkedClients (fst (decide_by_code x (lk_http r) (authorize_request x (lk_env r) (lk_http r) a profile) (w_db w))))"
      by (intro decide_cases [where P = "\<lambda>d. link_effect _ _ _ (linkedClients d)"]) (simp_all add: effect_of_link_step approve_step)
  qed
  then show ?thesis by (simp add: link_service_def Let_def ApproveDevice)
next
  case DenyDevice
  have "linkedClients (fst (decide_by_code x (lk_http r) (deny_request x (lk_env r) (lk_http r) a profile) (w_db w))) = linkedClients (w_db w)" for a profile
    by (rule decide_cases [where P = "\<lambda>d. linkedClients d = linkedClients (w_db w)"]) (simp_all add: deny_links)
  then show ?thesis using DenyDevice by (simp add: link_service_def Let_def device_deny_route_def decision_links)
next
  case PollDevice
  have that: "link_effect {a. approves x a r w} (we_uuid (lk_env r) 0) (linkedClients (w_db w)) (linkedClients (fst (device_poll x (lk_env r) code (w_db w))))" for code
    by (rule effect_of_link_step [OF poll_step])
  have "link_effect {a. approves x a r w} (we_uuid (lk_env r) 0) (linkedClients (w_db w)) (linkedClients (w_db (fst (device_poll_route x (lk_env r) (lk_http r) w))))"
  proof -
    let ?code = "case map_of (readJsonObject (lk_http r)) ''device_code'' of Some (JStr c) \<Rightarrow> c | _ \<Rightarrow> []"
    obtain w1 lim where i: "identityRateLimitResponse (lk_env r) (hashSecret x ?code) ''device:poll'' 240 (10 * 60 * 1000) w = (w1, lim)" by force
    show ?thesis using that [of ?code] i identity_limit_db [OF i]
      by (cases lim; cases "requireDatabase (lk_env r)") (simp_all add: device_poll_route_def Let_def prod.case_eq_if)
  qed
  then show ?thesis by (simp add: link_service_def Let_def PollDevice)
next
  case RevokeLink
  then show ?thesis by (simp add: link_service_def Let_def device_revoke_route_def owner_links revoke_step)
qed

text \<open>
  C12.  The scopes of a link grow only by approval.  Over any sequence of requests of installations, devices and owners: as
  long as no session of the account approves a device request, every link of the account stays its link, has no scope it
  did not have, and stays revoked once it is; whatever installations ask for, of their own or of other links, and whatever
  other accounts approve.
\<close>

theorem scopes_grow_only_by_approval:
  assumes "keyed l_id (linkedClients (w_db w))" and "each_link_request x link_ids_fresh rs w"
    and "each_link_request x (\<lambda>r w. \<not> approves x aid r w) rs w"
    and "l \<in> set (linkedClients (w_db w))" and "l_accountId l = aid"
  shows "\<exists>l'\<in>set (linkedClients (w_db (serve_links x rs w))). l_id l' = l_id l \<and> l_accountId l' = aid
           \<and> set (linkedClientScopes l') \<subseteq> set (linkedClientScopes l) \<and> (l_revokedAt l \<noteq> None \<longrightarrow> l_revokedAt l' \<noteq> None)"
proof -
  have "\<exists>l'\<in>set (linkedClients (w_db (serve_links x rs w))). no_more l l'"
    using assms
  proof (induction rs arbitrary: w l)
    case (Cons r rs)
    let ?w' = "fst (link_service x r w)"
    note eff = link_service_effect [of x r w]
    have k: "keyed l_id (linkedClients (w_db ?w'))"
      using link_effect_keyed [OF eff Cons.prems(1)] Cons.prems(2) by (simp add: link_ids_fresh_def)
    obtain l1 where l1: "l1 \<in> set (linkedClients (w_db ?w'))" "no_more l l1"
      using link_effect_no_more [OF eff Cons.prems(1,4)] Cons.prems(3,5) by auto
    have "\<exists>l'\<in>set (linkedClients (w_db (serve_links x rs ?w'))). no_more l1 l'"
      using Cons.IH [OF k _ _ l1(1)] Cons.prems(2,3,5) l1(2) by (simp add: no_more_def)
    then show ?case using no_more_trans [OF l1(2)] by auto
  qed (auto intro: no_more_refl)
  then show ?thesis using assms(5) by (auto simp: no_more_def)
qed


section \<open>Examples\<close>

definition demo_link :: linked_client where
  "demo_link = \<lparr>l_id = ''l1'', l_accountId = ''a1'', l_clientKind = ''backend'', l_encryptedRefreshToken = None,
     l_lastSeenAt = None, l_lastTokenRotationAt = None, l_localOrigin = Some ''https://home'', l_previousTokenExpiresAt = None,
     l_previousTokenReference = None, l_metadata = JObj [(''requestedScopes'', JArr [JStr ''backend:link'', JStr ''auth:login''])],
     l_displayName = ''n'', l_revokedAt = None, l_tokenReference = ''#tok'', l_createdAt = 1, l_updatedAt = 1\<rparr>"

definition demo_link_request :: "link_verb \<Rightarrow> string list \<Rightarrow> link_request" where
  "demo_link_request verb scopes =
     \<lparr>lk_verb = verb, lk_http = (demo_web_request (Some (JObj [(''scopes'', JArr (map JStr scopes))])))
        \<lparr>rq_sessionCookie := None, rq_authorization := Some ''Bearer tok''\<rparr>,
      lk_env = demo_env 9, lk_draw = (\<lambda>_. [0,1,2,3,4,5,6,7]), lk_uri = ''https://cloud/device''\<rparr>"

definition demo_links :: world where
  "demo_links = \<lparr>w_db = empty_db\<lparr>linkedClients := [demo_link]\<rparr>, w_limits = idle_limiter\<rparr>"

text \<open>The installation drops a feature, asks for another one, and tries to approve that itself.\<close>

abbreviation demo_link_requests :: "link_request list" where
  "demo_link_requests \<equiv> [demo_link_request ChangeScopes [''backend:link''], demo_link_request ChangeScopes [''telemetry:logs''],
     demo_link_request ApproveDevice []]"

theorem scopes_grow_only_by_approval_witness:
  "\<exists>l'\<in>set (linkedClients (w_db (serve_links sample_ext demo_link_requests demo_links))).
     l_id l' = ''l1'' \<and> l_accountId l' = ''a1'' \<and> set (linkedClientScopes l') \<subseteq> {''backend:link'', ''auth:login''}"
proof -
  have k: "keyed l_id (linkedClients (w_db demo_links))" by (simp add: demo_links_def keyed_def)
  have fresh: "each_link_request sample_ext link_ids_fresh demo_link_requests demo_links" by code_simp
  have none: "each_link_request sample_ext (\<lambda>r w. \<not> approves sample_ext ''a1'' r w) demo_link_requests demo_links" by code_simp
  have l: "demo_link \<in> set (linkedClients (w_db demo_links))" by (simp add: demo_links_def)
  have facts: "l_accountId demo_link = ''a1''" "l_id demo_link = ''l1''" "linkedClientScopes demo_link = [''backend:link'', ''auth:login'']"
    by code_simp+
  from scopes_grow_only_by_approval [OF k fresh none l facts(1)] show ?thesis
    unfolding facts by (elim bexE) (intro bexI, auto)
qed

end
