(* ===== verification/LinkRotation.thy ===== *)
theory LinkRotation imports LinkLaws begin

text \<open>
  Rotating a link token: which tokens let an installation in afterwards, until when, and what the first use of the new
  one ends.
\<close>

lemma rotated:
  assumes a: "authenticateLinkedClient x hdr (we_now env) d = (d1, Some l)"
    and r: "rotate_token x env rq l d1 = (d2, reply)" and ok: "rs_status reply = 200"
  obtains token row where "reply = jsonOk [(''access_token'', JStr token), (''linked_client_id'', JStr (l_id l)),
      (''token_reference'', JStr (hashSecret x token)), (''token_type'', JStr ''Bearer'')]"
    "row \<in> set (linkedClients d1)" "l_id row = l_id l" "l_accountId row = l_accountId l" "l_revokedAt row = None"
    "linkedClients d2 = update_where (\<lambda>q. l_id q = l_id l) (rotated_row (we_now env) (l_tokenReference l) (hashSecret x token)) (linkedClients d1)"
proof -
  obtain sealed token where c: "createEncryptedSecretToken x ''fc_link'' (we_random env 0) = Some (sealed, token, hashSecret x token)"
    using r ok by (auto simp: rotate_token_def createEncryptedSecretToken_def Let_def split: option.splits)
  obtain row where row: "row \<in> set (linkedClients d1)" "l_id row = l_id l" "l_accountId row = l_accountId l" "l_revokedAt row = l_revokedAt l"
    using authenticated(2) [OF a] by blast
  have "l_revokedAt l = None" using authenticate_sound [OF a] by simp
  then show thesis using r c row by (intro that [of token row]) (auto simp: rotate_token_def link_audit_def)
qed

lemma rotated_matches:
  assumes "l_revokedAt q = None"
  shows "token_matches t h (rotated_row now outgoing reference q)
       \<longleftrightarrow> h = reference \<or> h = outgoing \<and> t < now + linkRotationGraceSeconds * 1000"
  using assms by (auto simp: token_matches_def rotated_row_def)

lemma retired_matches:
  assumes "l_revokedAt q = None"
  shows "token_matches t h (retire_previous now' (rotated_row now outgoing reference q)) \<longleftrightarrow> h = reference"
  using assms by (auto simp: token_matches_def rotated_row_def retire_previous_def)

text \<open>The tokens a row accepts at a time.\<close>

definition accepts :: "ext \<Rightarrow> linked_client \<Rightarrow> time \<Rightarrow> string \<Rightarrow> bool" where
  "accepts x row t token \<longleftrightarrow> token_matches t (hashSecret x token) row"

text \<open>
  C33.  A rotation hands over.  After a rotation that is answered with 200 the row of the installation accepts the token of
  the answer, and the token it replaced for the five minutes of grace, and no other: not one that was in grace before.
  Once the new token has been used, the row accepts that one alone.
\<close>

theorem rotation_hands_over:
  assumes a: "authenticateLinkedClient x hdr (we_now env) d = (d1, Some l)"
    and r: "rotate_token x env rq l d1 = (d2, reply)" and ok: "rs_status reply = 200" and ref: "l_tokenReference l \<noteq> []"
    and use: "authenticateLinkedClient x hdr' now' d2 = (d3, Some u)" "l_id u = l_id l" "l_tokenReference u = hashSecret x t'"
      "bearer_token hdr' = Some t'"
  shows "\<exists>token row. obj_fields (Some (rs_body reply)) = [(''access_token'', JStr token), (''linked_client_id'', JStr (l_id l)),
             (''token_reference'', JStr (hashSecret x token)), (''token_type'', JStr ''Bearer'')]
           \<and> (row \<in> set (linkedClients d2) \<and> l_id row = l_id l \<and> l_accountId row = l_accountId l
              \<and> (\<forall>t s. accepts x row t s = (hashSecret x s = hashSecret x token
                   \<or> hashSecret x s = l_tokenReference l \<and> t < we_now env + 300000)))
           \<and> (\<exists>row'\<in>set (linkedClients d3). l_id row' = l_id l \<and> (\<forall>t s. accepts x row' t s = (hashSecret x s = hashSecret x token)))"
proof -
  obtain token row where reply: "reply = jsonOk [(''access_token'', JStr token), (''linked_client_id'', JStr (l_id l)),
      (''token_reference'', JStr (hashSecret x token)), (''token_type'', JStr ''Bearer'')]"
    and row: "row \<in> set (linkedClients d1)" "l_id row = l_id l" "l_accountId row = l_accountId l" "l_revokedAt row = None"
    and d2: "linkedClients d2 = update_where (\<lambda>q. l_id q = l_id l) (rotated_row (we_now env) (l_tokenReference l) (hashSecret x token)) (linkedClients d1)"
    by (rule rotated [OF a r ok])
  let ?new = "rotated_row (we_now env) (l_tokenReference l) (hashSecret x token) row"
  have new: "?new \<in> set (linkedClients d2)" "l_id ?new = l_id l" "l_accountId ?new = l_accountId l"
    unfolding d2 set_update_where using row by (auto simp: rotated_row_def intro!: image_eqI [where x = row])
  have acc: "accepts x ?new t s = (hashSecret x s = hashSecret x token \<or> hashSecret x s = l_tokenReference l \<and> t < we_now env + 300000)" for t s
    unfolding accepts_def rotated_matches [OF row(4)] by (simp add: linkRotationGraceSeconds_def)
  have "u \<in> set (linkedClients d2)" using authenticate_sound [OF use(1)] by simp
  then obtain q where q: "u = rotated_row (we_now env) (l_tokenReference l) (hashSecret x token) q"
    using use(2) unfolding d2 by (auto dest!: in_update_whereD)
  have "l_previousTokenReference u = Some (l_tokenReference l)" by (simp add: q rotated_row_def)
  then have d3: "linkedClients d3 = update_where (\<lambda>q. l_id q = l_id u) (retire_previous now') (linkedClients d2)"
    using use ref by (auto simp: authenticateLinkedClient_def Let_def split: option.splits if_splits)
  have "retire_previous now' ?new \<in> set (linkedClients d3)" "l_id (retire_previous now' ?new) = l_id l"
    unfolding d3 set_update_where using new(1,2) use(2) by (auto simp: retire_previous_def intro!: image_eqI [where x = ?new])
  moreover have "accepts x (retire_previous now' ?new) t s = (hashSecret x s = hashSecret x token)" for t s
    unfolding accepts_def retired_matches [OF row(4)] ..
  ultimately show ?thesis using new acc by (intro exI [of _ token] exI [of _ ?new]) (auto simp: reply jsonOk_def)
qed

text \<open>
  A rotation by a token that is in its grace time: the token is refused from then on, so an installation that lost the answer
  of its first rotation and loses that of its retry is locked out.
\<close>

lemma retry_drops_the_old_token:
  assumes a: "authenticateLinkedClient x hdr (we_now env) d = (d1, Some l)"
    and r: "rotate_token x env rq l d1 = (d2, reply)" "rs_status reply = 200"
    and old: "hashSecret x s \<noteq> l_tokenReference l" "hashSecret x s \<noteq> hashSecret x (createSecretToken ''fc_link'' (we_random env 0))"
  shows "\<exists>row\<in>set (linkedClients d2). l_id row = l_id l \<and> (\<forall>t. \<not> accepts x row t s)"
proof -
  obtain token row where reply: "reply = jsonOk [(''access_token'', JStr token), (''linked_client_id'', JStr (l_id l)),
      (''token_reference'', JStr (hashSecret x token)), (''token_type'', JStr ''Bearer'')]"
    and row: "row \<in> set (linkedClients d1)" "l_id row = l_id l" "l_revokedAt row = None"
    and d2: "linkedClients d2 = update_where (\<lambda>q. l_id q = l_id l) (rotated_row (we_now env) (l_tokenReference l) (hashSecret x token)) (linkedClients d1)"
    by (rule rotated [OF a r])
  have "token = createSecretToken ''fc_link'' (we_random env 0)"
    using r reply by (auto simp: rotate_token_def createEncryptedSecretToken_def jsonOk_def jsonError_def Let_def split: option.splits)
  then have "\<not> accepts x (rotated_row (we_now env) (l_tokenReference l) (hashSecret x token) row) t s" for t
    using old unfolding accepts_def rotated_matches [OF row(3)] by simp
  moreover have "rotated_row (we_now env) (l_tokenReference l) (hashSecret x token) row \<in> set (linkedClients d2)"
    unfolding d2 set_update_where using row by (auto intro!: image_eqI [where x = row])
  moreover have "l_id (rotated_row (we_now env) (l_tokenReference l) (hashSecret x token) row) = l_id l"
    using row(2) by (simp add: rotated_row_def)
  ultimately show ?thesis by blast
qed

text \<open>
  A frame that asks for no scope at all is taken to ask for the defaults of a backend, which it does not have: it cannot drop
  its features this way without an approval.
\<close>

lemma frame_cannot_drop_everything:
  assumes "l_clientKind l = ''frame''" and "linkedClientScopes l = [''frame:link'', ''telemetry:logs'']"
  shows "requested_scopes l (Some (JArr [])) = [''frame:link'', ''backend:link'', ''backend:read'']"
    "fst (change_scopes x env draw uri rq l d) = d
     \<or> map_of (readJsonObject rq) ''scopes'' \<noteq> Some (JArr []) \<or> (\<exists>r. deviceRequests (fst (change_scopes x env draw uri rq l d)) = deviceRequests d @ [r])"
proof -
  show req: "requested_scopes l (Some (JArr [])) = [''frame:link'', ''backend:link'', ''backend:read'']"
    using assms by (simp add: requested_scopes_def parseScopes_def keep_base_def baseScopes_def defaultDeviceScopes_def)
  show "fst (change_scopes x env draw uri rq l d) = d
     \<or> map_of (readJsonObject rq) ''scopes'' \<noteq> Some (JArr []) \<or> (\<exists>r. deviceRequests (fst (change_scopes x env draw uri rq l d)) = deviceRequests d @ [r])"
    using assms req by (auto simp: change_scopes_def request_upgrade_def autoGrantedDeviceScopes_def Let_def split: option.splits)
qed


section \<open>Example\<close>

lemma demo_rotation:
  "let d = w_db demo_links; env = demo_env 9; rq = demo_web_request None;
       (d1, c) = authenticateLinkedClient sample_ext (Some ''Bearer tok'') 9 d;
       (d2, reply) = rotate_token sample_ext env rq demo_link d1;
       (d3, u) = authenticateLinkedClient sample_ext (Some ''Bearer fc_link_r0'') 50 d2
   in c = Some demo_link \<and> rs_status reply = 200
      \<and> map_of (obj_fields (Some (rs_body reply))) ''token_reference'' = Some (JStr ''#fc_link_r0'')
      \<and> map_option l_id u = Some ''l1'' \<and> map_option l_tokenReference u = Some ''#fc_link_r0''"
  by code_simp

theorem rotation_hands_over_witness:
  "let d1 = fst (authenticateLinkedClient sample_ext (Some ''Bearer tok'') 9 (w_db demo_links));
       d2 = fst (rotate_token sample_ext (demo_env 9) (demo_web_request None) demo_link d1);
       d3 = fst (authenticateLinkedClient sample_ext (Some ''Bearer fc_link_r0'') 50 d2)
   in \<exists>row\<in>set (linkedClients d3). l_id row = ''l1'' \<and> accepts sample_ext row 50 ''fc_link_r0'' \<and> \<not> accepts sample_ext row 50 ''tok''"
proof -
  define d1 where "d1 = fst (authenticateLinkedClient sample_ext (Some ''Bearer tok'') 9 (w_db demo_links))"
  define d2 where "d2 = fst (rotate_token sample_ext (demo_env 9) (demo_web_request None) demo_link d1)"
  define d3 where "d3 = fst (authenticateLinkedClient sample_ext (Some ''Bearer fc_link_r0'') 50 d2)"
  obtain reply where r: "rotate_token sample_ext (demo_env 9) (demo_web_request None) demo_link d1 = (d2, reply)"
    by (metis d2_def prod.collapse)
  have a: "authenticateLinkedClient sample_ext (Some ''Bearer tok'') (we_now (demo_env 9)) (w_db demo_links) = (d1, Some demo_link)"
    and ok: "rs_status reply = 200"
    using demo_rotation r unfolding Let_def by (auto simp: d1_def demo_env_def split: prod.splits)
  obtain u where u: "authenticateLinkedClient sample_ext (Some ''Bearer fc_link_r0'') 50 d2 = (d3, Some u)" "l_id u = ''l1''" "l_tokenReference u = ''#fc_link_r0''"
    using demo_rotation r a unfolding Let_def by (auto simp: d3_def demo_env_def split: prod.splits)
  have facts: "l_tokenReference demo_link = ''#tok''" "l_id demo_link = ''l1''" "hashSecret sample_ext ''fc_link_r0'' = ''#fc_link_r0''"
      "hashSecret sample_ext ''tok'' = ''#tok''" "bearer_token (Some ''Bearer fc_link_r0'') = Some ''fc_link_r0''"
    by code_simp+
  obtain token row' where t: "obj_fields (Some (rs_body reply)) = [(''access_token'', JStr token), (''linked_client_id'', JStr ''l1''),
        (''token_reference'', JStr (hashSecret sample_ext token)), (''token_type'', JStr ''Bearer'')]"
    and row': "row' \<in> set (linkedClients d3)" "l_id row' = ''l1''" "accepts sample_ext row' 50 s = (hashSecret sample_ext s = hashSecret sample_ext token)" for s
    using rotation_hands_over [OF a r ok _ u(1) _ _ facts(5)] u(2,3) facts by auto
  have "map_of (obj_fields (Some (rs_body reply))) ''token_reference'' = Some (JStr ''#fc_link_r0'')"
    using demo_rotation r a unfolding Let_def by (auto simp: d3_def demo_env_def split: prod.splits)
  then have "hashSecret sample_ext token = ''#fc_link_r0''" using t by simp
  then have "l_id row' = ''l1'' \<and> accepts sample_ext row' 50 ''fc_link_r0'' \<and> \<not> accepts sample_ext row' 50 ''tok''"
    using row'(2,3) facts by simp
  then show ?thesis using row'(1) unfolding Let_def d1_def d2_def d3_def by blast
qed

end
