(* ===== verification/Spec2Isabelle.thy ===== *)
theory Spec2Isabelle imports HubStorage HubDrain StoreReading BackupLaws AccountGuarantees AccountResets LoginGuarantees LinkRotation begin

text \<open>
  FrameOS Cloud, the control plane of FrameOS: a model of \<open>cloud/apps/auth-web\<close> (the web application),
  \<open>cloud/apps/frame-hub\<close> (the process that holds the WebSockets of frames and browsers) and \<open>cloud/packages/db\<close>
  (the database both share), with the theorems that make it correct.  Paths below are relative to \<open>src/cloud\<close>.

  The program.  An account signs in, links installations and frames by the device flow or by claim tokens,
  and manages its frames: it queues commands, assigns scenes of the store, writes assets.  The web application
  writes rows and issues NOTIFYs; the hub reads the queue, writes commands to the socket of an authenticated frame,
  stores what frames send, and broadcasts to the browsers of the owner.  Both trust the same tables: a frame is
  revoked, a session ends and a token is spent in the database, and nowhere else.  The scene store is where
  scenes are published, moderated, forked, downloaded and pinned to frames.

  Foundations.  \<open>Prelude\<close>: tables as lists of rows, the SQL verbs on them, and the contracts \<open>keyed_update\<close>
  (an update keeps the key) and the atomic claim with a budget.  \<open>Js\<close>, \<open>JsonParse\<close>: what the code uses of its language; strings are
  lists of code units up to U+00FF, JSON numbers exact decimals.  \<open>Schema\<close>: a record per table of
  \<open>packages/db/src/schema.ts\<close>, and the record \<open>ext\<close> of what lies outside the repository (hashes, Ed25519,
  AES, JWT, URL parsing, fflate, collation).  The laws some theorems need of them are named hypotheses
  (\<open>base64_law\<close>, \<open>scrypt_laws\<close>, \<open>zip_law\<close>), each met by a concrete instance in an example or a witness.

  The hub.  \<open>Protocol\<close> (\<open>protocol.ts\<close>), \<open>Retention\<close> (the stores of \<open>frames.ts\<close> and \<open>usage.ts\<close>),
  \<open>RateLimit\<close> (both limiters), \<open>Commands\<close> (the queue and its drain), \<open>HubSessions\<close> (device sockets of \<open>hub.ts\<close>),
  \<open>HubBrowsers\<close> (browser sockets), \<open>HubDrain\<close> (the drain at the granularity of its awaits).  A handler is one atomic
  step on the record \<open>hub\<close>, except in \<open>HubDrain\<close>, where the web application and further NOTIFYs interleave.
  \<open>HubInvariant\<close> has the step relation and its invariant; \<open>HubProperties\<close> and \<open>HubStorage\<close> show that commands go only to
  sockets whose key signed the challenge, that revocation closes them, that streams are bounded and reassembled, and
  that a device writes nothing but its own rows.

  Accounts.  \<open>Http\<close> has the request, the response, the guards and the audit trail of every route; \<open>Sessions\<close> the life of
  a session row; \<open>Accounts\<close> the identity functions of \<open>packages/db/src/index.ts\<close>, \<open>passwords.ts\<close> and
  \<open>google-account.ts\<close>; \<open>SignIn\<close> the routes under \<open>api/auth\<close>, \<open>api/account/password\<close>, \<open>verify-email\<close> and \<open>logout\<close>;
  \<open>AccountSteps\<close> their effect as the step relation \<open>cred_step\<close>, \<open>AccountLaws\<close> the invariant, \<open>AccountGuarantees\<close> and
  \<open>AccountResets\<close> the theorems: an account is taken over only through its mailbox, a session starts only from a
  proof, a reset evicts.  \<open>LoginCodes\<close> and \<open>LoginGuarantees\<close>: the login of an installation with the cloud account
  (\<open>api/frameos/login\<close>), and that it learns who its owner is only by consent.

  Links.  \<open>LinkedClients\<close>: link tokens and scopes (\<open>backend-auth.ts\<close>).  \<open>LinkRoutes\<close>: the routes of \<open>api/backends\<close> by which an
  installation rotates its token, changes its scopes, reports its inventory, reads its grants and unlinks itself.
  \<open>LinkLaws\<close>: every request, those of the device flow included, as a step on \<open>linked_clients\<close> (\<open>link_step\<close>), so that scopes
  grow only by an approval of the owner; \<open>LinkRotation\<close>: the tokens a row accepts after a rotation.

  Frames.  \<open>ClaimTokens\<close>, \<open>Enrollment\<close> (\<open>frames/enroll\<close>), \<open>DeviceFlow\<close>, \<open>DeviceDecisions\<close>, \<open>DeviceLink\<close>
  (\<open>api/device\<close>, with handlers split into their read and their write so that they interleave), \<open>FrameScenes\<close>
  (assignments and the payload of a frame), \<open>FrameVerbs\<close> (confirm, revoke, delete, settings, commands, events),
  \<open>FrameAssets\<close> (paths, cache, write verbs), \<open>FrameReads\<close>, \<open>FrameImages\<close> (the reading routes and their long polls),
  \<open>FrameOwner\<close> (what a request of an owner may do, as the locale \<open>owner_operation\<close> interpreted on every step).

  The store.  \<open>StoreVersions\<close>, \<open>StoreFilters\<close>, \<open>StoreZip\<close>, \<open>StorePublish\<close>, \<open>StoreOwner\<close>, \<open>StoreRoutes\<close>, \<open>StoreLibrary\<close>
  model \<open>store*.ts\<close>, \<open>moderation.ts\<close>, \<open>usage.ts\<close> and the routes under \<open>api/account/scenes\<close> and \<open>api/store\<close>.
  \<open>StoreInvariant\<close> has the step relation \<open>scene_move\<close> and the invariant of the rows; \<open>StoreMoves\<close> and \<open>StoreHandlers\<close> show
  that every handler is a sequence of such moves, \<open>StoreRequests\<close> and \<open>StoreService\<close> lift this to sequences of requests;
  \<open>StoreGuarantees\<close>, \<open>StoreQuota\<close> and \<open>StoreReading\<close> have moderation, quotas and privacy.  \<open>Backups\<close> and \<open>BackupLaws\<close> are the
  config backups (\<open>backups.ts\<close> and its routes).

  Conventions.  A handler maps the state to the new state and the response, with an early return as a branch; an
  uncaught exception is \<open>server_error\<close>.  An atomic phase reads the clock once.  Ids and random tokens come from
  the environment of the request; that a database draws new ids is a hypothesis on the environment.  A failing unique
  index or transaction is \<open>None\<close>.  Long polls and drains that may not end are \<open>partial_function (option)\<close> or step
  relations, and termination is a theorem (of the asset write verbs in \<open>FrameAssets\<close>, of the drain in \<open>HubDrain\<close>).  The only fuel is that of the
  JSON parser, twice the length of the text plus two; each call below another has consumed a character.

  Not modelled.  The browser code (\<open>frontend\<close>, \<open>cloud-frontend\<close>, the pages and components of
  the web application), whose state machines are those of its UI libraries; the device runtime and the
  self-hosted backend, which are in Nim, C and Python; mail delivery, Discord notifications, response headers and cookie attributes, which
  are input and output; firmware and SD-image routes, which relay releases of GitHub; administration, reports and the repository feeds of
  the store.  Transactions are atomic where the code opens one; other interleavings of two handlers are
  modelled only in \<open>HubDrain\<close>, \<open>DeviceDecisions\<close>, \<open>FrameAssets\<close> and \<open>FrameImages\<close>.
\<close>

end
